(* ===== verification/Prelude.thy ===== *)
theory Prelude
  imports Main "HOL-Library.Word" "HOL-Library.Char_ord" "HOL-Library.List_Lexorder"
begin

text \<open>
  What the component theories share: Rust results and the early returns of the \<open>?\<close>
  operator, validation loops, ordered maps (\<open>BTreeMap\<close>), and the saturating and checked
  arithmetic of the fixed-width unsigned integers.
\<close>

section \<open>Integers at their width\<close>

type_synonym u8 = "8 word"
type_synonym u16 = "16 word"
type_synonym u32 = "32 word"
type_synonym u64 = "64 word"

text \<open>The collections the component proofs are driven by: \<open>model_defs\<close> holds the operations
  that a proof may unfold, \<open>keeps\<close> the preservation facts of the operations.\<close>

named_theorems model_defs
named_theorems keeps

definition sat_add :: "'w::len word \<Rightarrow> 'w word \<Rightarrow> 'w word" where
  "sat_add a b = (if a + b < a then - 1 else a + b)"

definition sat_sub :: "'w::len word \<Rightarrow> 'w word \<Rightarrow> 'w word" where
  "sat_sub a b = (if a < b then 0 else a - b)"

definition checked_add :: "'w::len word \<Rightarrow> 'w word \<Rightarrow> 'w word option" where
  "checked_add a b = (if a + b < a then None else Some (a + b))"

lemma unat_add_no_wrap:
  "unat a + unat b < 2 ^ LENGTH('w) \<Longrightarrow> unat (a + b) = unat a + unat b" for a b :: "'w::len word"
  by (simp add: unat_word_ariths)

lemma word_add_less_iff_wrap:
  "a + b < a \<longleftrightarrow> 2 ^ LENGTH('w) \<le> unat a + unat b" for a b :: "'w::len word"
proof (cases "unat a + unat b < 2 ^ LENGTH('w)")
  case True
  then show ?thesis by (simp add: word_less_nat_alt unat_add_no_wrap)
next
  case False
  have a: "unat a < 2 ^ LENGTH('w)" and b: "unat b < 2 ^ LENGTH('w)" by (rule unsigned_less)+
  from a b have small: "unat a + unat b - 2 ^ LENGTH('w) < 2 ^ LENGTH('w)" by linarith
  from False have "(unat a + unat b) mod 2 ^ LENGTH('w) = (unat a + unat b - 2 ^ LENGTH('w)) mod 2 ^ LENGTH('w)"
    by (simp add: le_mod_geq)
  also have "\<dots> = unat a + unat b - 2 ^ LENGTH('w)"
    using small by (rule mod_less)
  also have "\<dots> < unat a"
    using False b by linarith
  finally show ?thesis
    using False by (simp add: word_less_nat_alt unat_word_ariths)
qed

lemma unat_max_word: "unat (- 1 :: 'w::len word) = 2 ^ LENGTH('w) - 1"
  by (simp add: unsigned_minus_1_eq_mask mask_eq_exp_minus_1)

lemma unat_sat_add:
  "unat (sat_add a b) = min (2 ^ LENGTH('w) - 1) (unat a + unat b)" for a b :: "'w::len word"
proof (cases "2 ^ LENGTH('w) \<le> unat a + unat b")
  case True
  then show ?thesis
    by (simp add: sat_add_def word_add_less_iff_wrap unat_max_word)
next
  case False
  then show ?thesis
    by (simp add: sat_add_def word_add_less_iff_wrap unat_add_no_wrap)
qed

lemma checked_add_Some_iff:
  "checked_add a b = Some c \<longleftrightarrow> unat a + unat b < 2 ^ LENGTH('w) \<and> c = a + b"
  for a b :: "'w::len word"
  by (auto simp: checked_add_def word_add_less_iff_wrap not_le)

lemma word_succ_wraps: "a + 1 < a \<longleftrightarrow> a = - 1" for a :: "'w::len word"
proof -
  have "2 ^ LENGTH('w) \<le> unat a + 1 \<longleftrightarrow> unat a = 2 ^ LENGTH('w) - 1"
  proof -
    have "unat a < 2 ^ LENGTH('w)" by (rule unsigned_less)
    then show ?thesis by linarith
  qed
  also have "\<dots> \<longleftrightarrow> a = - 1"
    by (simp add: word_unat_eq_iff unat_max_word)
  finally show ?thesis by (simp add: word_add_less_iff_wrap)
qed

lemma checked_succ: "checked_add a 1 = (if a = - 1 then None else Some (a + 1))" for a :: "'w::len word"
  by (simp add: checked_add_def word_succ_wraps)

lemma unat_succ: "a \<noteq> - 1 \<Longrightarrow> unat (a + 1) = Suc (unat a)" for a :: "'w::len word"
  using word_succ_wraps [of a] by (simp add: word_add_less_iff_wrap unat_add_no_wrap not_le)

section \<open>Results\<close>

text \<open>
  A fallible routine returns \<open>'e + 'a\<close>, \<^term>\<open>Inl\<close> the error. \<open>chk r k\<close> is the statement
  \<open>r?;\<close> followed by \<open>k\<close>, \<open>guard\<close> an \<open>if bad { return Err(e) }\<close>, \<open>for_each\<close> a loop whose
  body may return early, and \<open>for_unique\<close> the loop that checks each element and then inserts its
  key into a set, failing on the first key already present.
\<close>

definition chk :: "'e + unit \<Rightarrow> 'e + 'a \<Rightarrow> 'e + 'a" where
  "chk r k = (case r of Inl e \<Rightarrow> Inl e | Inr _ \<Rightarrow> k)"

definition guard :: "bool \<Rightarrow> 'e \<Rightarrow> 'e + unit" where
  "guard bad e = (if bad then Inl e else Inr ())"

definition res_bind :: "'e + 'a \<Rightarrow> ('a \<Rightarrow> 'e + 'b) \<Rightarrow> 'e + 'b" where
  "res_bind r k = (case r of Inl e \<Rightarrow> Inl e | Inr x \<Rightarrow> k x)"

definition map_err :: "('e \<Rightarrow> 'f) \<Rightarrow> 'e + 'a \<Rightarrow> 'f + 'a" where
  "map_err g r = (case r of Inl e \<Rightarrow> Inl (g e) | Inr x \<Rightarrow> Inr x)"

definition ok_or :: "'a option \<Rightarrow> 'e \<Rightarrow> 'e + 'a" where
  "ok_or v e = (case v of None \<Rightarrow> Inl e | Some x \<Rightarrow> Inr x)"

definition opt_check :: "('a \<Rightarrow> 'e + unit) \<Rightarrow> 'a option \<Rightarrow> 'e + unit" where
  "opt_check f v = (case v of None \<Rightarrow> Inr () | Some x \<Rightarrow> f x)"

fun for_each :: "('a \<Rightarrow> 'e + unit) \<Rightarrow> 'a list \<Rightarrow> 'e + unit" where
  "for_each f [] = Inr ()"
| "for_each f (x # xs) = chk (f x) (for_each f xs)"

fun for_unique :: "('a \<Rightarrow> 'e + unit) \<Rightarrow> ('a \<Rightarrow> 'k) \<Rightarrow> ('a \<Rightarrow> 'e) \<Rightarrow> 'k list \<Rightarrow> 'a list \<Rightarrow> 'e + unit" where
  "for_unique f key dup seen [] = Inr ()"
| "for_unique f key dup seen (x # xs) =
     chk (f x)
       (if key x \<in> set seen then Inl (dup x)
        else for_unique f key dup (key x # seen) xs)"

lemma chk_Inr [simp]: "chk r k = Inr x \<longleftrightarrow> r = Inr () \<and> k = Inr x"
  by (cases r) (auto simp: chk_def)

lemma chk_of_Inr [simp]: "chk (Inr u) k = k"
  by (simp add: chk_def)

lemma chk_of_Inl [simp]: "chk (Inl e) k = Inl e"
  by (simp add: chk_def)

lemma guard_Inr [simp]: "guard bad e = Inr u \<longleftrightarrow> \<not> bad"
  by (simp add: guard_def)

lemma guard_simps [simp]: "guard False e = Inr ()" "guard True e = Inl e"
  by (simp_all add: guard_def)

lemma res_bind_Inr [simp]: "res_bind r k = Inr y \<longleftrightarrow> (\<exists>x. r = Inr x \<and> k x = Inr y)"
  by (cases r) (auto simp: res_bind_def)

lemma res_bind_of [simp]: "res_bind (Inr x) k = k x" "res_bind (Inl e) k = Inl e"
  by (simp_all add: res_bind_def)

lemma map_err_Inr [simp]: "map_err g r = Inr x \<longleftrightarrow> r = Inr x"
  by (cases r) (auto simp: map_err_def)

lemma ok_or_Inr [simp]: "ok_or v e = Inr x \<longleftrightarrow> v = Some x"
  by (cases v) (auto simp: ok_or_def)

lemma opt_check_Inr [simp]: "opt_check f v = Inr u \<longleftrightarrow> (\<forall>x. v = Some x \<longrightarrow> f x = Inr ())"
  by (cases v) (auto simp: opt_check_def)

lemma if_Inl_Inr [simp]: "(if bad then Inl e else r) = Inr x \<longleftrightarrow> \<not> bad \<and> r = Inr x"
  by simp

lemma for_each_Inr [simp]: "for_each f xs = Inr u \<longleftrightarrow> (\<forall>x\<in>set xs. f x = Inr ())"
  by (induction xs) auto

lemma for_unique_Inr_seen:
  "for_unique f key dup seen xs = Inr u \<longleftrightarrow>
     (\<forall>x\<in>set xs. f x = Inr ()) \<and> distinct (map key xs) \<and> set seen \<inter> key ` set xs = {}"
  by (induction xs arbitrary: seen) auto

lemma for_unique_Inr [simp]:
  "for_unique f key dup [] xs = Inr u \<longleftrightarrow>
     (\<forall>x\<in>set xs. f x = Inr ()) \<and> distinct (map key xs)"
  by (simp add: for_unique_Inr_seen)

end
