(* ===== verification/Rust_Text.thy ===== *)
theory Rust_Text
  imports Prelude "HOL-Library.Sublist"
begin

text \<open>
  What the code uses of \<open>str\<close> and \<open>std::path\<close>. A Rust \<open>String\<close> is its UTF-8 bytes, a HOL
  \<open>string\<close>, so \<open>length\<close> is \<open>len()\<close> and the list order is \<open>Ord\<close>. A path is kept as the string
  the code holds; \<open>path_components\<close> is \<open>Path::components\<close>, which drops empty parts and every
  \<open>.\<close> but a leading one, and on which equality, order and \<open>starts_with\<close> of paths are defined.
\<close>

section \<open>Bytes\<close>

definition is_ascii_lowercase :: "char \<Rightarrow> bool" where
  "is_ascii_lowercase c = (CHR ''a'' \<le> c \<and> c \<le> CHR ''z'')"

definition is_ascii_uppercase :: "char \<Rightarrow> bool" where
  "is_ascii_uppercase c = (CHR ''A'' \<le> c \<and> c \<le> CHR ''Z'')"

definition is_ascii_digit :: "char \<Rightarrow> bool" where
  "is_ascii_digit c = (CHR ''0'' \<le> c \<and> c \<le> CHR ''9'')"

definition is_ascii_alphanumeric :: "char \<Rightarrow> bool" where
  "is_ascii_alphanumeric c = (is_ascii_lowercase c \<or> is_ascii_uppercase c \<or> is_ascii_digit c)"

definition is_ascii_hexdigit :: "char \<Rightarrow> bool" where
  "is_ascii_hexdigit c =
     (is_ascii_digit c \<or> (CHR ''a'' \<le> c \<and> c \<le> CHR ''f'') \<or> (CHR ''A'' \<le> c \<and> c \<le> CHR ''F''))"

definition nul :: char where
  "nul = CHR 0x00"

section \<open>Strings\<close>

abbreviation starts_with :: "string \<Rightarrow> string \<Rightarrow> bool" where
  "starts_with s p \<equiv> prefix p s"

abbreviation ends_with :: "string \<Rightarrow> string \<Rightarrow> bool" where
  "ends_with s p \<equiv> suffix p s"

definition contains_str :: "string \<Rightarrow> string \<Rightarrow> bool" where
  "contains_str s p = list_ex (prefix p) (suffixes s)"

definition strip_prefix :: "string \<Rightarrow> string \<Rightarrow> string option" where
  "strip_prefix s p = (if prefix p s then Some (drop (length p) s) else None)"

fun split_on :: "char \<Rightarrow> string \<Rightarrow> string list" where
  "split_on d [] = [[]]"
| "split_on d (c # s) =
     (if c = d then [] # split_on d s
      else (case split_on d s of [] \<Rightarrow> [[c]] | w # ws \<Rightarrow> (c # w) # ws))"

fun join_with :: "string \<Rightarrow> string list \<Rightarrow> string" where
  "join_with sep [] = []"
| "join_with sep [s] = s"
| "join_with sep (s # t # ts) = s @ sep @ join_with sep (t # ts)"

text \<open>\<open>s.trim().is_empty()\<close>: only Unicode \<open>White_Space\<close>, here read off its UTF-8 bytes.\<close>

fun blank_bytes :: "nat list \<Rightarrow> bool" where
  "blank_bytes [] = True"
| "blank_bytes (b # bs) =
     (if b = 32 \<or> (9 \<le> b \<and> b \<le> 13) then blank_bytes bs
      else case bs of
        [] \<Rightarrow> False
      | c # cs \<Rightarrow>
          if b = 0xC2 \<and> (c = 0x85 \<or> c = 0xA0) then blank_bytes cs
          else (case cs of
            [] \<Rightarrow> False
          | d # ds \<Rightarrow>
              (if b = 0xE1 \<and> c = 0x9A \<and> d = 0x80
                  \<or> b = 0xE2 \<and> c = 0x80 \<and> (0x80 \<le> d \<and> d \<le> 0x8A \<or> d = 0xA8 \<or> d = 0xA9 \<or> d = 0xAF)
                  \<or> b = 0xE2 \<and> c = 0x81 \<and> d = 0x9F
                  \<or> b = 0xE3 \<and> c = 0x80 \<and> d = 0x80
               then blank_bytes ds else False)))"

definition is_blank :: "string \<Rightarrow> bool" where
  "is_blank s = blank_bytes (map of_char s)"

text \<open>\<open>split_whitespace\<close>, on the same bytes: the length of the white space character a string starts
  with, or 0, and the words between them.\<close>

fun white_space_len :: "string \<Rightarrow> nat" where
  "white_space_len (a # b # c # s) =
     (if blank_bytes [of_char a] then 1 else if blank_bytes [of_char a, of_char b] then 2
      else if blank_bytes [of_char a, of_char b, of_char c] then 3 else 0)"
| "white_space_len [a, b] =
     (if blank_bytes [of_char a] then 1 else if blank_bytes [of_char a, of_char b] then 2 else 0)"
| "white_space_len [a] = (if blank_bytes [of_char a] then 1 else 0)"
| "white_space_len [] = 0"

fun words_from :: "string \<Rightarrow> string \<Rightarrow> string list" where
  "words_from acc [] = (if acc = [] then [] else [acc])"
| "words_from acc (c # s) =
     (if white_space_len (c # s) = 0 then words_from (acc @ [c]) s
      else (if acc = [] then [] else [acc]) @ words_from [] (drop (white_space_len (c # s) - 1) s))"

definition split_whitespace :: "string \<Rightarrow> string list" where
  "split_whitespace s = words_from [] s"

definition trim_matches :: "(char \<Rightarrow> bool) \<Rightarrow> string \<Rightarrow> string" where
  "trim_matches p s = rev (dropWhile p (rev (dropWhile p s)))"

text \<open>Trimming by a set of characters, given by the length of such a character at the head (0 if there
  is none). A suffix that starts inside a character starts with a continuation byte, which no such
  character does, so the end may be scanned byte by byte.\<close>

fun drop_lead :: "(string \<Rightarrow> nat) \<Rightarrow> string \<Rightarrow> string" where
  "drop_lead f [] = []"
| "drop_lead f (c # s) = (if f (c # s) = 0 then c # s else drop_lead f (drop (f (c # s) - 1) s))"

fun drop_trail :: "(string \<Rightarrow> nat) \<Rightarrow> string \<Rightarrow> string" where
  "drop_trail f [] = []"
| "drop_trail f (c # s) = (if drop_lead f (c # s) = [] then [] else c # drop_trail f s)"

definition trim_by :: "(string \<Rightarrow> nat) \<Rightarrow> string \<Rightarrow> string" where
  "trim_by f s = drop_trail f (drop_lead f s)"

definition trim :: "string \<Rightarrow> string" where
  "trim s = trim_by white_space_len s"

text \<open>\<open>split_once\<close> and \<open>lines\<close>: a line ends with a line feed, with a carriage return before it or not.\<close>

definition split_once :: "char \<Rightarrow> string \<Rightarrow> (string \<times> string) option" where
  "split_once d s =
     (if d \<in> set s then Some (takeWhile (\<lambda>c. c \<noteq> d) s, tl (dropWhile (\<lambda>c. c \<noteq> d) s)) else None)"

definition drop_cr :: "string \<Rightarrow> string" where
  "drop_cr s = (if s \<noteq> [] \<and> last s = CHR 0x0D then butlast s else s)"

definition text_lines :: "string \<Rightarrow> string list" where
  "text_lines s =
     (let segs = split_on (CHR 0x0A) s
      in map drop_cr (butlast segs) @ (if last segs = [] then [] else [last segs]))"

text \<open>The check of \<open>String::from_utf8\<close>.\<close>

fun utf8_bytes :: "nat list \<Rightarrow> bool" where
  "utf8_bytes [] = True"
| "utf8_bytes (a # s) =
     (let cont = (\<lambda>x. 0x80 \<le> x \<and> x \<le> (0xBF :: nat)) in
      if a < 0x80 then utf8_bytes s
      else (case s of
        [] \<Rightarrow> False
      | b # t \<Rightarrow>
          if 0xC2 \<le> a \<and> a \<le> 0xDF then cont b \<and> utf8_bytes t
          else (case t of
            [] \<Rightarrow> False
          | c # u \<Rightarrow>
              if 0xE0 \<le> a \<and> a \<le> 0xEF
              then cont b \<and> cont c \<and> (a = 0xE0 \<longrightarrow> 0xA0 \<le> b) \<and> (a = 0xED \<longrightarrow> b \<le> 0x9F)
                   \<and> utf8_bytes u
              else (case u of
                [] \<Rightarrow> False
              | d # v \<Rightarrow>
                  0xF0 \<le> a \<and> a \<le> 0xF4 \<and> cont b \<and> cont c \<and> cont d
                  \<and> (a = 0xF0 \<longrightarrow> 0x90 \<le> b) \<and> (a = 0xF4 \<longrightarrow> b \<le> 0x8F) \<and> utf8_bytes v))))"

definition from_utf8 :: "string \<Rightarrow> string option" where
  "from_utf8 s = (if utf8_bytes (map of_char s) then Some s else None)"

text \<open>\<open>to_string\<close> of an unsigned integer, in decimal.\<close>

function decimal :: "int \<Rightarrow> string" where
  "decimal n = (if n < 10 then [char_of (48 + n)] else decimal (n div 10) @ [char_of (48 + n mod 10)])"
  by auto

termination by (relation "measure nat") auto

declare decimal.simps [simp del]

section \<open>Paths\<close>

datatype component = RootDir | CurDir | ParentDir | Normal string

type_synonym path = string

definition component_of :: "string \<Rightarrow> component" where
  "component_of s = (if s = ''..'' then ParentDir else if s = ''.'' then CurDir else Normal s)"

definition is_absolute :: "path \<Rightarrow> bool" where
  "is_absolute p = prefix ''/'' p"

definition path_components :: "path \<Rightarrow> component list" where
  "path_components p =
     (let segs = split_on (CHR ''/'') p;
          body = map component_of (filter (\<lambda>s. s \<noteq> [] \<and> s \<noteq> ''.'') segs)
      in if is_absolute p then RootDir # body
         else if hd segs = ''.'' then CurDir # body else body)"

text \<open>\<open>Path::join\<close>.\<close>

definition path_join :: "path \<Rightarrow> path \<Rightarrow> path" where
  "path_join p q =
     (if is_absolute q then q
      else if p = [] \<or> last p = CHR ''/'' then p @ q
      else p @ ''/'' @ q)"

definition path_eq :: "path \<Rightarrow> path \<Rightarrow> bool" where
  "path_eq p q = (path_components p = path_components q)"

definition path_starts_with :: "path \<Rightarrow> path \<Rightarrow> bool" where
  "path_starts_with p q = prefix (path_components q) (path_components p)"

definition file_name :: "path \<Rightarrow> string option" where
  "file_name p =
     (case rev (path_components p) of Normal s # _ \<Rightarrow> Some s | _ \<Rightarrow> None)"

text \<open>\<open>Path::extension\<close>: what follows the last dot of the file name, unless that dot starts the name.\<close>

definition extension :: "path \<Rightarrow> string option" where
  "extension p =
     Option.bind (file_name p) (\<lambda>name.
       let ext = rev (takeWhile (\<lambda>c. c \<noteq> CHR ''.'') (rev name))
       in if length ext + 1 < length name then Some ext else None)"

text \<open>\<open>Path::parent\<close> keeps the text of the path before the last component, less the separators and
  \<open>.\<close> parts that follow the part before it; it is absent for the root and the empty path.\<close>

definition drop_idle :: "string list \<Rightarrow> string list" where
  "drop_idle segs = dropWhile (\<lambda>s. s = [] \<or> s = ''.'') segs"

definition parent :: "path \<Rightarrow> path option" where
  "parent p =
     (let absolute = is_absolute p;
          back = rev (if absolute then tl (split_on (CHR ''/'') p) else split_on (CHR ''/'') p);
          front = (case drop_idle back of [] \<Rightarrow> None | _ # rest \<Rightarrow> Some (rev (drop_idle rest)))
      in if path_components p = [] \<or> path_components p = [RootDir] then None
         else case front of
           None \<Rightarrow> Some []
         | Some segs \<Rightarrow>
             Some (if absolute then CHR ''/'' # join_with ''/'' segs
                   else if hd (split_on (CHR ''/'') p) = ''.'' \<and> segs = [] then ''.''
                   else join_with ''/'' segs))"

lemma split_on_not_Nil [simp]: "split_on d s \<noteq> []"
  by (induction d s rule: split_on.induct) (auto split: list.splits)

lemma split_on_no_sep: "w \<in> set (split_on d s) \<Longrightarrow> d \<notin> set w"
proof (induction d s arbitrary: w rule: split_on.induct)
  case (1 d)
  then show ?case by simp
next
  case (2 d c s)
  then show ?case by (fastforce split: if_splits list.splits)
qed

lemma join_split_on: "join_with [d] (split_on d s) = s"
proof (induction d s rule: split_on.induct)
  case (1 d)
  then show ?case by simp
next
  case (2 d c s)
  then show ?case
    by (cases "split_on d s") (auto elim: join_with.elims, (metis append_Cons join_with.simps(2,3) neq_Nil_conv)+)
qed

text \<open>An absolute path has no \<open>CurDir\<close> component: \<open>components\<close> has dropped every \<open>.\<close>.\<close>

lemma absolute_no_CurDir: "is_absolute p \<Longrightarrow> CurDir \<notin> set (path_components p)"
  by (auto simp: path_components_def component_of_def Let_def)

lemma path_starts_with_trans:
  "path_starts_with p q \<Longrightarrow> path_starts_with q r \<Longrightarrow> path_starts_with p r"
  by (auto simp: path_starts_with_def)

lemma path_starts_with_refl: "path_eq p q \<Longrightarrow> path_starts_with p q"
  by (simp add: path_eq_def path_starts_with_def)

end
