(* ===== verification/Identity.thy ===== *)
theory Identity
  imports Rust_Text
begin

text \<open>
  The identities the rest of the platform is keyed by: application ids
  (\<open>remagic-core/src/manifest.rs\<close>), capability names and the QTFB key of an application
  (\<open>remagic-core/src/runtime.rs\<close>).
\<close>

section \<open>Application ids\<close>

datatype app_id = AppId (as_str: string)

definition valid_app_id :: "string \<Rightarrow> bool" where
  "valid_app_id value =
     (value \<noteq> [] \<and> length value \<le> 64
      \<and> list_all (\<lambda>b. is_ascii_lowercase b \<or> is_ascii_digit b \<or> b = CHR ''-'') value
      \<and> \<not> starts_with value ''-'' \<and> \<not> ends_with value ''-'')"

datatype id_error = InvalidId string

definition app_id_new :: "string \<Rightarrow> id_error + app_id" where
  "app_id_new value = (if valid_app_id value then Inr (AppId value) else Inl (InvalidId value))"

text \<open>\<open>derive(PartialOrd, Ord)\<close> on the newtype is the byte order of the string.\<close>

instantiation app_id :: linorder
begin

definition less_eq_app_id :: "app_id \<Rightarrow> app_id \<Rightarrow> bool" where
  "less_eq_app_id a b = (as_str a \<le> as_str b)"

definition less_app_id :: "app_id \<Rightarrow> app_id \<Rightarrow> bool" where
  "less_app_id a b = (as_str a < as_str b)"

instance
  by standard (auto simp: less_eq_app_id_def less_app_id_def intro: app_id.expand)

end

section \<open>Capabilities\<close>

datatype capability = Capability (cap_str: string)

definition valid_capability :: "string \<Rightarrow> bool" where
  "valid_capability value =
     (value \<noteq> [] \<and> length value \<le> 96
      \<and> is_ascii_alphanumeric (hd value)
      \<and> is_ascii_alphanumeric (last value)
      \<and> list_all (\<lambda>b. is_ascii_lowercase b \<or> is_ascii_digit b
            \<or> b \<in> set [CHR ''-'', CHR ''_'', CHR ''.'', CHR '':'']) value)"

datatype capability_error = InvalidCapability string

definition capability_new :: "string \<Rightarrow> capability_error + capability" where
  "capability_new value =
     (if valid_capability value then Inr (Capability value) else Inl (InvalidCapability value))"

unbundle bit_operations_syntax

section \<open>The QTFB key of an application\<close>

text \<open>FNV-1a over the salted id, folded into the positive \<open>i32\<close> range; the key of the home surface
  is skipped. The hash is a \<^typ>\<open>u32\<close>, the key the \<open>i32\<close> it is cast to.\<close>

definition REMAGIC_HOME_QTFB_KEY :: int where
  "REMAGIC_HOME_QTFB_KEY = 245209900"

fun fnv1a :: "u32 \<Rightarrow> string \<Rightarrow> u32" where
  "fnv1a hash [] = hash"
| "fnv1a hash (b # bs) = fnv1a ((hash XOR of_char b) * 0x01000193) bs"

definition qtfb_key_for_app :: "app_id \<Rightarrow> int" where
  "qtfb_key_for_app app =
     (let hash = fnv1a 0x811c9dc5 (''remagic-qtfb-v2:'' @ as_str app);
          key = sint (max (hash AND 0x7fffffff) 1)
      in if key = REMAGIC_HOME_QTFB_KEY
         then (if key = 2 ^ 31 - 1 then 1 else key + 1)
         else key)"

lemma sint_small: "x \<le> 0x7fffffff \<Longrightarrow> sint (x :: u32) = uint x"
proof -
  assume "x \<le> 0x7fffffff"
  then have "uint x \<le> 0x7fffffff" by (simp add: word_le_def)
  moreover have "- (2 ^ 31) \<le> uint x" by (rule order_trans [of _ 0]) simp_all
  ultimately show ?thesis
    unfolding sint_uint by (intro signed_take_bit_int_eq_self) simp_all
qed

lemma folded_key_range:
  "1 \<le> sint (max ((w :: u32) AND 0x7fffffff) 1) \<and> sint (max (w AND 0x7fffffff) 1) < 2 ^ 31"
proof -
  have "w AND 0x7fffffff \<le> 0x7fffffff"
    by (simp add: word_and_le1)
  then have le: "max (w AND 0x7fffffff) 1 \<le> (0x7fffffff :: u32)"
    by (simp add: max_def)
  moreover have "(1 :: u32) \<le> max (w AND 0x7fffffff) 1" by simp
  ultimately show ?thesis
    by (simp add: sint_small word_le_def)
qed

text \<open>Every application gets a key that is a positive \<open>i32\<close> and never the reserved key of the
  home surface, so no manifest can claim the manager's surface.\<close>

theorem qtfb_key_positive_not_home:
  "1 \<le> qtfb_key_for_app app \<and> qtfb_key_for_app app \<le> 2 ^ 31 - 1
   \<and> qtfb_key_for_app app \<noteq> REMAGIC_HOME_QTFB_KEY"
  using folded_key_range [of "fnv1a 0x811c9dc5 (''remagic-qtfb-v2:'' @ as_str app)"]
  by (auto simp: qtfb_key_for_app_def Let_def REMAGIC_HOME_QTFB_KEY_def)

end
