(* ===== verification/Ordered_Map.thy ===== *)
theory Ordered_Map
  imports Prelude
begin

text \<open>
  Rust's \<open>BTreeMap\<close> as the list of its entries in increasing key order, which is the order the
  code's \<open>for\<close> loops and \<open>values()\<close> iterate in. \<open>bt_ok\<close> is the representation invariant; the locale
  \<open>ordered_map\<close> states what the components rely on, and its interpretation \<open>bt\<close> proves it of
  the list representation. A \<open>BTreeSet\<close> is the increasing list of its elements.
\<close>

section \<open>The representation\<close>

type_synonym ('k, 'v) btree = "('k \<times> 'v) list"

definition bt_ok :: "('k::linorder, 'v) btree \<Rightarrow> bool" where
  "bt_ok m = sorted_wrt (<) (map fst m)"

abbreviation bt_get :: "('k, 'v) btree \<Rightarrow> 'k \<Rightarrow> 'v option" where
  "bt_get \<equiv> map_of"

fun bt_insert :: "'k::linorder \<Rightarrow> 'v \<Rightarrow> ('k, 'v) btree \<Rightarrow> ('k, 'v) btree" where
  "bt_insert k v [] = [(k, v)]"
| "bt_insert k v ((j, w) # m) =
     (if k < j then (k, v) # (j, w) # m
      else if k = j then (k, v) # m
      else (j, w) # bt_insert k v m)"

definition bt_remove :: "'k \<Rightarrow> ('k, 'v) btree \<Rightarrow> ('k, 'v) btree" where
  "bt_remove k m = filter (\<lambda>(j, _). j \<noteq> k) m"

text \<open>Assignment through \<open>get_mut\<close>, and through \<open>values_mut\<close>.\<close>

definition bt_modify :: "'k \<Rightarrow> ('v \<Rightarrow> 'v) \<Rightarrow> ('k, 'v) btree \<Rightarrow> ('k, 'v) btree" where
  "bt_modify k f m = map (\<lambda>(j, w). (j, if j = k then f w else w)) m"

definition bt_map :: "('v \<Rightarrow> 'v) \<Rightarrow> ('k, 'v) btree \<Rightarrow> ('k, 'v) btree" where
  "bt_map f m = map (\<lambda>(j, w). (j, f w)) m"

abbreviation bt_values :: "('k, 'v) btree \<Rightarrow> 'v list" where
  "bt_values m \<equiv> map snd m"

definition bs_ok :: "'k::linorder list \<Rightarrow> bool" where
  "bs_ok xs = sorted_wrt (<) xs"

section \<open>Its laws\<close>

lemma bt_get_insert [simp]: "bt_get (bt_insert k v m) j = (if j = k then Some v else bt_get m j)"
  by (induction k v m rule: bt_insert.induct) auto

lemma keys_bt_insert: "fst ` set (bt_insert k v m) = insert k (fst ` set m)"
  by (induction k v m rule: bt_insert.induct) auto

lemma bt_ok_Nil [simp]: "bt_ok []"
  by (simp add: bt_ok_def)

lemma bt_ok_Cons [simp]: "bt_ok ((k, v) # m) \<longleftrightarrow> (\<forall>j \<in> fst ` set m. k < j) \<and> bt_ok m"
  by (auto simp: bt_ok_def)

lemma bt_ok_insert [simp]: "bt_ok m \<Longrightarrow> bt_ok (bt_insert k v m)"
  by (induction k v m rule: bt_insert.induct) (auto simp: keys_bt_insert)

lemma bt_ok_distinct: "bt_ok m \<Longrightarrow> distinct (map fst m)"
  by (simp add: bt_ok_def strict_sorted_iff)

lemma bt_get_modify [simp]:
  "bt_get (bt_modify k f m) j = (if j = k then map_option f (bt_get m k) else bt_get m j)"
  by (induction m) (auto simp: bt_modify_def)

lemma bt_get_map [simp]: "bt_get (bt_map f m) j = map_option f (bt_get m j)"
  by (induction m) (auto simp: bt_map_def)

lemma keys_bt_modify [simp]: "map fst (bt_modify k f m) = map fst m"
  by (auto simp: bt_modify_def)

lemma keys_bt_map [simp]: "map fst (bt_map f m) = map fst m"
  by (auto simp: bt_map_def)

lemma bt_ok_modify [simp]: "bt_ok (bt_modify k f m) = bt_ok m"
  by (simp add: bt_ok_def)

lemma bt_ok_map [simp]: "bt_ok (bt_map f m) = bt_ok m"
  by (simp add: bt_ok_def)

lemma bt_get_remove [simp]: "bt_get (bt_remove k m) j = (if j = k then None else bt_get m j)"
  by (induction m) (auto simp: bt_remove_def)

lemma bt_ok_filter [simp]: "bt_ok m \<Longrightarrow> bt_ok (filter p m)"
  unfolding bt_ok_def by (induction m) auto

lemma bt_ok_remove [simp]: "bt_ok m \<Longrightarrow> bt_ok (bt_remove k m)"
  by (simp add: bt_remove_def)

lemma bt_entry_iff: "bt_ok m \<Longrightarrow> (k, v) \<in> set m \<longleftrightarrow> bt_get m k = Some v"
  by (metis bt_ok_distinct map_of_SomeD map_of_is_SomeI)

lemma bt_value_iff: "bt_ok m \<Longrightarrow> v \<in> set (bt_values m) \<longleftrightarrow> (\<exists>k. bt_get m k = Some v)"
  by (force simp: bt_entry_iff [symmetric])

lemma bt_ex_values: "bt_ok m \<Longrightarrow> list_ex p (bt_values m) \<longleftrightarrow> (\<exists>k v. bt_get m k = Some v \<and> p v)"
  by (force simp: list_ex_iff bt_entry_iff [symmetric])

section \<open>What the components rely on\<close>

text \<open>A loop that inserts a list of pairs, for any insertion operation.\<close>

fun insert_all :: "('k \<Rightarrow> 'v \<Rightarrow> 'm \<Rightarrow> 'm) \<Rightarrow> ('k \<times> 'v) list \<Rightarrow> 'm \<Rightarrow> 'm" where
  "insert_all ins [] m = m"
| "insert_all ins ((k, v) # kvs) m = insert_all ins kvs (ins k v m)"

locale ordered_map =
  fixes get :: "'m \<Rightarrow> 'k \<Rightarrow> 'v option"
    and insert_at :: "'k \<Rightarrow> 'v \<Rightarrow> 'm \<Rightarrow> 'm"
    and ok :: "'m \<Rightarrow> bool"
  assumes get_insert: "get (insert_at k v m) j = (if j = k then Some v else get m j)"
    and ok_insert: "ok m \<Longrightarrow> ok (insert_at k v m)"
begin

text \<open>The last pair of a key wins, and the other keys keep what they had.\<close>

lemma get_insert_all:
  "get (insert_all insert_at kvs m) j = (case map_of (rev kvs) j of Some v \<Rightarrow> Some v | None \<Rightarrow> get m j)"
proof (induction kvs arbitrary: m)
  case Nil
  then show ?case by simp
next
  case (Cons kv kvs)
  then show ?case
    by (cases kv) (auto simp: get_insert map_add_def split: option.splits)
qed

lemma ok_insert_all: "ok m \<Longrightarrow> ok (insert_all insert_at kvs m)"
  by (induction kvs arbitrary: m) (auto simp: ok_insert)

lemma get_insert_all_other: "j \<notin> fst ` set kvs \<Longrightarrow> get (insert_all insert_at kvs m) j = get m j"
proof -
  assume "j \<notin> fst ` set kvs"
  then have "map_of (rev kvs) j = None"
    by (metis map_of_eq_None_iff set_rev)
  then show ?thesis by (simp add: get_insert_all)
qed

end

interpretation bt: ordered_map bt_get bt_insert bt_ok
  by unfold_locales auto

end
