(* ===== verification/Supervisor_Model.thy ===== *)
theory Supervisor_Model
  imports Identity Ordered_Map
begin

text \<open>
  The v2 supervisor state of \<open>remagic-core/src/state/model.rs\<close>: the system domain, the application
  records with their identity fences, the declared consistency check \<open>validate\<close> and the
  revision counter. A method on \<open>&mut self\<close> returns its result together with the state it leaves,
  so that what an error leaves behind is part of the model.
\<close>

section \<open>Data\<close>

datatype system_domain_state = Stock | EnteringManaged | Managed | LeavingManaged | Recovering

datatype app_instance_state =
  Starting | Foreground | Background | Stopping | Exited | Crashed | Unresponsive

definition is_terminal :: "app_instance_state \<Rightarrow> bool" where
  "is_terminal st = (st = Exited \<or> st = Crashed)"

record app_token =
  app_id :: app_id
  generation :: u64
  foreground_epoch :: u64
  lease_id :: "u64 option"

record app_instance =
  token :: app_token
  state :: app_instance_state
  pid :: "u32 option"
  title :: string
  subtitle :: string
  last_error :: "string option"

record supervisor_state =
  domain :: system_domain_state
  sleeping :: bool
  foreground_app :: "app_id option"
  last_app :: "app_id option"
  apps :: "(app_id, app_instance) btree"
  state_revision :: u64

datatype state_model_error =
    ZeroGeneration app_id
  | ZeroLease app_id
  | ForegroundWithoutLease app_id
  | LeaseOutsideForeground app_id
  | MismatchedAppKey app_id app_id
  | MultipleForegroundApps
  | DuplicateLease u64
  | ForegroundPointerMismatch
  | SleepOutsideManaged
  | ForegroundWhileSleeping
  | ForegroundOutsideManaged
  | RunningAppInStockDomain
  | InvalidDomainTransition system_domain_state system_domain_state
  | LaunchOutsideActiveManaged
  | AppAlreadyRunning app_id
  | UnknownApp app_id
  | StaleGeneration app_id u64 u64
  | StaleForegroundEpoch app_id u64 u64
  | InvalidAppTransition app_id app_instance_state app_instance_state
  | RevisionOverflow

definition supervisor_default :: supervisor_state where
  "supervisor_default =
     \<lparr>domain = Stock, sleeping = False, foreground_app = None, last_app = None,
      apps = [], state_revision = 0\<rparr>"

section \<open>Validation\<close>

definition app_token_validate :: "app_token \<Rightarrow> state_model_error + unit" where
  "app_token_validate t =
     chk (guard (generation t = 0) (ZeroGeneration (app_id t)))
         (guard (lease_id t = Some 0) (ZeroLease (app_id t)))"

definition same_process :: "app_token \<Rightarrow> app_id \<Rightarrow> u64 \<Rightarrow> bool" where
  "same_process t app gen = (app_id t = app \<and> generation t = gen)"

definition app_instance_validate :: "app_instance \<Rightarrow> state_model_error + unit" where
  "app_instance_validate i =
     chk (app_token_validate (token i))
    (chk (guard (state i = Foreground \<and> lease_id (token i) = None)
                (ForegroundWithoutLease (app_id (token i))))
         (guard (state i \<noteq> Foreground \<and> lease_id (token i) \<noteq> None)
                (LeaseOutsideForeground (app_id (token i)))))"

text \<open>The loop over the application records carries the foreground application found so far and the
  leases seen.\<close>

fun validate_apps ::
  "app_id option \<Rightarrow> u64 list \<Rightarrow> (app_id \<times> app_instance) list \<Rightarrow> state_model_error + app_id option"
where
  "validate_apps fg leases [] = Inr fg"
| "validate_apps fg leases ((a, i) # rest) =
     (if a \<noteq> app_id (token i) then Inl (MismatchedAppKey a (app_id (token i)))
      else chk (app_instance_validate i)
        (if state i = Foreground \<and> fg \<noteq> None then Inl MultipleForegroundApps
         else let fg' = (if state i = Foreground then Some a else fg)
              in (case lease_id (token i) of
                    None \<Rightarrow> validate_apps fg' leases rest
                  | Some l \<Rightarrow>
                      if l \<in> set leases then Inl (DuplicateLease l)
                      else validate_apps fg' (l # leases) rest)))"

definition supervisor_validate :: "supervisor_state \<Rightarrow> state_model_error + unit" where
  "supervisor_validate s =
     chk (guard (sleeping s \<and> domain s \<noteq> Managed) SleepOutsideManaged)
    (res_bind (validate_apps None [] (apps s)) (\<lambda>foreground.
     chk (guard (foreground \<noteq> foreground_app s) ForegroundPointerMismatch)
    (chk (guard (sleeping s \<and> foreground_app s \<noteq> None) ForegroundWhileSleeping)
         (if domain s \<noteq> Managed
          then chk (guard (foreground_app s \<noteq> None) ForegroundOutsideManaged)
                   (guard (domain s = Stock
                           \<and> list_ex (\<lambda>i. \<not> is_terminal (state i)) (bt_values (apps s)))
                          RunningAppInStockDomain)
          else Inr ()))))"

section \<open>Access and revision\<close>

definition current_instance :: "supervisor_state \<Rightarrow> app_id \<Rightarrow> u64 \<Rightarrow> state_model_error + app_instance" where
  "current_instance s app gen =
     (case bt_get (apps s) app of
        None \<Rightarrow> Inl (UnknownApp app)
      | Some i \<Rightarrow>
          if generation (token i) \<noteq> gen
          then Inl (StaleGeneration app (sat_sub (generation (token i)) 1) gen)
          else Inr i)"

definition bump_revision :: "supervisor_state \<Rightarrow> (state_model_error + unit) \<times> supervisor_state" where
  "bump_revision s =
     (case checked_add (state_revision s) 1 of
        None \<Rightarrow> (Inl RevisionOverflow, s)
      | Some r \<Rightarrow> (Inr (), s\<lparr>state_revision := r\<rparr>))"

definition ensure_revision_capacity :: "supervisor_state \<Rightarrow> state_model_error + unit" where
  "ensure_revision_capacity s = guard (state_revision s = - 1) RevisionOverflow"

text \<open>\<open>attempt r s k\<close> is a \<open>?\<close> in a method that has not written \<open>s\<close> yet, \<open>commit s v\<close> the closing
  \<open>self.bump_revision()?; Ok(v)\<close>.\<close>

definition attempt :: "'e + 'a \<Rightarrow> 's \<Rightarrow> ('a \<Rightarrow> ('e + 'b) \<times> 's) \<Rightarrow> ('e + 'b) \<times> 's" where
  "attempt r s k = (case r of Inl e \<Rightarrow> (Inl e, s) | Inr x \<Rightarrow> k x)"

definition commit :: "supervisor_state \<Rightarrow> 'a \<Rightarrow> (state_model_error + 'a) \<times> supervisor_state" where
  "commit s v = (case bump_revision s of (Inl e, s') \<Rightarrow> (Inl e, s') | (Inr _, s') \<Rightarrow> (Inr v, s'))"

section \<open>What \<open>validate\<close> decides\<close>

definition sound_entry :: "app_id \<Rightarrow> app_instance \<Rightarrow> bool" where
  "sound_entry a i \<longleftrightarrow>
     app_id (token i) = a \<and> generation (token i) \<noteq> 0 \<and> lease_id (token i) \<noteq> Some 0
     \<and> (state i = Foreground \<longleftrightarrow> lease_id (token i) \<noteq> None)"

definition sound_apps :: "(app_id, app_instance) btree \<Rightarrow> app_id option \<Rightarrow> bool" where
  "sound_apps m fg \<longleftrightarrow>
     (\<forall>a i. bt_get m a = Some i \<longrightarrow> sound_entry a i)
     \<and> (\<forall>a. fg = Some a \<longleftrightarrow> (\<exists>i. bt_get m a = Some i \<and> state i = Foreground))"

definition supervisor_sound :: "supervisor_state \<Rightarrow> bool" where
  "supervisor_sound s \<longleftrightarrow>
     bt_ok (apps s) \<and> sound_apps (apps s) (foreground_app s)
     \<and> (sleeping s \<longrightarrow> domain s = Managed \<and> foreground_app s = None)
     \<and> (domain s \<noteq> Managed \<longrightarrow> foreground_app s = None)
     \<and> (domain s = Stock \<longrightarrow> (\<forall>a i. bt_get (apps s) a = Some i \<longrightarrow> is_terminal (state i)))"

lemma app_instance_validate_ok:
  "app_instance_validate i = Inr u \<and> app_id (token i) = a \<longleftrightarrow> sound_entry a i"
  by (auto simp: app_instance_validate_def app_token_validate_def sound_entry_def)

text \<open>Leases sit on foreground records only, so after one foreground record the list of seen leases
  decides nothing: the result is the foreground record, if there is at most one.\<close>

lemma validate_apps_ok:
  assumes "distinct (map fst m)" and "leases = [] \<or> fg \<noteq> None"
  shows "validate_apps fg leases m = Inr r \<longleftrightarrow>
     (\<forall>(a, i) \<in> set m. sound_entry a i)
     \<and> (case fg of
          None \<Rightarrow> (\<forall>a. r = Some a \<longleftrightarrow> (\<exists>i. (a, i) \<in> set m \<and> state i = Foreground))
        | Some f \<Rightarrow> r = Some f \<and> (\<forall>(a, i) \<in> set m. state i \<noteq> Foreground))"
  using assms
proof (induction fg leases m rule: validate_apps.induct)
  case (1 fg leases)
  then show ?case by (cases r) (auto split: option.splits)
next
  case (2 fg leases a i rest)
  have rest: "distinct (map fst rest)" and new: "\<And>j. (a, j) \<notin> set rest"
    using "2.prems"(1) by (auto simp: rev_image_eqI)
  show ?case
  proof (cases "sound_entry a i")
    case False
    then have "\<not> (app_instance_validate i = Inr () \<and> app_id (token i) = a)"
      by (simp add: app_instance_validate_ok)
    with False show ?thesis by auto
  next
    case True
    then have ok: "app_instance_validate i = Inr ()" "app_id (token i) = a"
      using app_instance_validate_ok by blast+
    show ?thesis
    proof (cases "state i = Foreground")
      case True
      then obtain l where l: "lease_id (token i) = Some l"
        using \<open>sound_entry a i\<close> by (auto simp: sound_entry_def)
      show ?thesis
      proof (cases fg)
        case None
        with "2.prems"(2) have "leases = []" by simp
        with "2.IH"(2) True None l ok rest
        have "validate_apps (Some a) [l] rest = Inr r \<longleftrightarrow>
            (\<forall>(a, i) \<in> set rest. sound_entry a i) \<and> r = Some a
            \<and> (\<forall>(a, i) \<in> set rest. state i \<noteq> Foreground)" by simp
        with True None l ok \<open>leases = []\<close> \<open>sound_entry a i\<close> new show ?thesis
          by (auto simp: Let_def) (metis option.inject)
      next
        case (Some f)
        with True ok show ?thesis by auto
      qed
    next
      case False
      then have "lease_id (token i) = None"
        using \<open>sound_entry a i\<close> by (auto simp: sound_entry_def)
      with "2.IH"(1) "2.prems"(2) False ok rest \<open>sound_entry a i\<close> show ?thesis
        by (auto simp: Let_def split: option.splits)
    qed
  qed
qed

lemma supervisor_validate_iff:
  "bt_ok (apps s) \<Longrightarrow> supervisor_validate s = Inr () \<longleftrightarrow> supervisor_sound s"
proof -
  assume ok: "bt_ok (apps s)"
  have v: "validate_apps None [] (apps s) = Inr (foreground_app s) \<longleftrightarrow> sound_apps (apps s) (foreground_app s)"
    using validate_apps_ok [OF bt_ok_distinct [OF ok], of "[]" None]
    by (auto simp: sound_apps_def bt_entry_iff [OF ok, symmetric])
  have "supervisor_validate s = Inr () \<longleftrightarrow>
      (sleeping s \<longrightarrow> domain s = Managed) \<and> validate_apps None [] (apps s) = Inr (foreground_app s)
      \<and> (sleeping s \<longrightarrow> foreground_app s = None)
      \<and> (domain s \<noteq> Managed \<longrightarrow> foreground_app s = None
          \<and> (domain s = Stock \<longrightarrow> \<not> list_ex (\<lambda>i. \<not> is_terminal (state i)) (bt_values (apps s))))"
    by (auto simp: supervisor_validate_def)
  then show ?thesis
    unfolding v bt_ex_values [OF ok] by (auto simp: supervisor_sound_def ok)
qed

end
