(* ===== verification/Supervisor_Ops.thy ===== *)
theory Supervisor_Ops
  imports Supervisor_Model
begin

text \<open>
  The operations of the v2 supervisor state: domain transitions and sleep
  (\<open>remagic-core/src/state/transitions.rs\<close>) and the application lifecycle
  (\<open>remagic-core/src/state/lifecycle.rs\<close>). Each is the whole method: the guards in the code's
  order, the writes, the closing revision bump.
\<close>

section \<open>Domain transitions\<close>

definition valid_domain_edge :: "system_domain_state \<Rightarrow> system_domain_state \<Rightarrow> bool" where
  "valid_domain_edge from to =
     ((from, to) \<in> set [(Stock, EnteringManaged), (EnteringManaged, Managed),
        (Managed, LeavingManaged), (LeavingManaged, Stock), (Recovering, Stock),
        (Stock, Recovering), (EnteringManaged, Recovering), (Managed, Recovering),
        (LeavingManaged, Recovering)])"

definition revoke_instance :: "app_instance \<Rightarrow> app_instance" where
  "revoke_instance i =
     i\<lparr>token := (token i)\<lparr>lease_id := None\<rparr>,
       state := (if state i = Foreground then Stopping else state i)\<rparr>"

lemma revoke_instance_simps [simp]:
  "lease_id (token (revoke_instance i)) = None" "state (revoke_instance i) \<noteq> Foreground"
  "app_id (token (revoke_instance i)) = app_id (token i)"
  "generation (token (revoke_instance i)) = generation (token i)"
  "foreground_epoch (token (revoke_instance i)) = foreground_epoch (token i)"
  "is_terminal (state (revoke_instance i)) = is_terminal (state i)"
  by (simp_all add: revoke_instance_def is_terminal_def)

definition transition_domain ::
  "system_domain_state \<Rightarrow> supervisor_state \<Rightarrow> (state_model_error + unit) \<times> supervisor_state" where
  "transition_domain next s =
     attempt
       (chk (ensure_revision_capacity s)
       (chk (guard (\<not> valid_domain_edge (domain s) next) (InvalidDomainTransition (domain s) next))
            (guard (next = Stock \<and> list_ex (\<lambda>i. \<not> is_terminal (state i)) (bt_values (apps s)))
                   RunningAppInStockDomain))) s
     (\<lambda>_. let s1 = (if next \<noteq> Managed
                     then s\<lparr>sleeping := False, foreground_app := None,
                            apps := bt_map revoke_instance (apps s)\<rparr>
                     else s)
           in commit (s1\<lparr>domain := next\<rparr>) ())"

definition set_sleeping :: "bool \<Rightarrow> supervisor_state \<Rightarrow> (state_model_error + unit) \<times> supervisor_state" where
  "set_sleeping b s =
     attempt
       (chk (ensure_revision_capacity s)
       (chk (guard (domain s \<noteq> Managed) SleepOutsideManaged)
            (guard (b \<and> foreground_app s \<noteq> None) ForegroundWhileSleeping))) s
     (\<lambda>_. commit (s\<lparr>sleeping := b\<rparr>) ())"

section \<open>Application lifecycle\<close>

type_synonym token_op = "supervisor_state \<Rightarrow> (state_model_error + app_token) \<times> supervisor_state"

definition start_app :: "app_id \<Rightarrow> u64 \<Rightarrow> u32 option \<Rightarrow> token_op" where
  "start_app app gen p s =
     attempt
       (chk (ensure_revision_capacity s)
       (chk (guard (domain s \<noteq> Managed \<or> sleeping s) LaunchOutsideActiveManaged)
       (chk (guard (gen = 0) (ZeroGeneration app))
            (case bt_get (apps s) app of
               None \<Rightarrow> Inr ()
             | Some previous \<Rightarrow>
                 chk (guard (gen \<le> generation (token previous))
                        (StaleGeneration app (generation (token previous)) gen))
                     (guard (\<not> is_terminal (state previous)) (AppAlreadyRunning app)))))) s
     (\<lambda>_. let t = \<lparr>app_id = app, generation = gen, foreground_epoch = 0, lease_id = None\<rparr>
           in commit
                (s\<lparr>apps := bt_insert app
                     \<lparr>token = t, state = Starting, pid = p, title = [], subtitle = [],
                      last_error = None\<rparr> (apps s)\<rparr>) t)"

text \<open>The methods below look the record up with its generation, check it, and write it back.\<close>

definition grant_foreground :: "app_id \<Rightarrow> u64 \<Rightarrow> u64 \<Rightarrow> u64 \<Rightarrow> token_op" where
  "grant_foreground app gen epoch lease s =
     attempt
       (chk (ensure_revision_capacity s)
       (chk (guard (domain s \<noteq> Managed \<or> sleeping s) LaunchOutsideActiveManaged)
       (chk (guard (foreground_app s \<noteq> None) MultipleForegroundApps)
       (res_bind (current_instance s app gen) (\<lambda>i.
        chk (guard (\<not> (state i = Starting \<or> state i = Background))
               (InvalidAppTransition app (state i) Foreground))
       (chk (guard (epoch = 0 \<or> epoch \<le> foreground_epoch (token i))
               (StaleForegroundEpoch app (foreground_epoch (token i)) epoch))
       (chk (guard (lease = 0) (ZeroLease app)) (Inr i)))))))) s
     (\<lambda>i. let t = (token i)\<lparr>foreground_epoch := epoch, lease_id := Some lease\<rparr>
           in commit
                (s\<lparr>apps := bt_modify app (\<lambda>i. i\<lparr>token := t, state := Foreground\<rparr>) (apps s),
                   foreground_app := Some app, last_app := Some app\<rparr>) t)"

definition mark_background_ready :: "app_id \<Rightarrow> u64 \<Rightarrow> string \<Rightarrow> string \<Rightarrow> token_op" where
  "mark_background_ready app gen ttl sub s =
     attempt
       (chk (ensure_revision_capacity s)
       (res_bind (current_instance s app gen) (\<lambda>i.
        chk (guard (state i \<noteq> Starting) (InvalidAppTransition app (state i) Background))
            (Inr i)))) s
     (\<lambda>i. commit
            (s\<lparr>apps := bt_modify app
                 (\<lambda>i. i\<lparr>state := Background, title := ttl, subtitle := sub\<rparr>) (apps s)\<rparr>)
            (token i))"

definition enter_background :: "app_id \<Rightarrow> u64 \<Rightarrow> u64 \<Rightarrow> token_op" where
  "enter_background app gen epoch s =
     attempt
       (chk (ensure_revision_capacity s)
       (res_bind (current_instance s app gen) (\<lambda>i.
        chk (guard (state i \<noteq> Foreground \<or> foreground_epoch (token i) \<noteq> epoch)
               (StaleForegroundEpoch app (sat_sub (foreground_epoch (token i)) 1) epoch))
            (Inr i)))) s
     (\<lambda>i. let t = (token i)\<lparr>lease_id := None\<rparr>
           in commit
                (s\<lparr>apps := bt_modify app (\<lambda>i. i\<lparr>state := Background, token := t\<rparr>) (apps s),
                   foreground_app := None, last_app := Some app\<rparr>) t)"

definition clear_foreground_of :: "app_id \<Rightarrow> supervisor_state \<Rightarrow> supervisor_state" where
  "clear_foreground_of app s =
     (if foreground_app s = Some app then s\<lparr>foreground_app := None\<rparr> else s)"

definition begin_stop :: "app_id \<Rightarrow> u64 \<Rightarrow> token_op" where
  "begin_stop app gen s =
     attempt
       (chk (ensure_revision_capacity s)
       (res_bind (current_instance s app gen) (\<lambda>i.
        chk (guard (is_terminal (state i) \<or> state i = Stopping)
               (InvalidAppTransition app (state i) Stopping))
            (Inr i)))) s
     (\<lambda>i. let t = (token i)\<lparr>lease_id := None\<rparr>
           in commit
                (clear_foreground_of app
                  (s\<lparr>apps := bt_modify app (\<lambda>i. i\<lparr>state := Stopping, token := t\<rparr>) (apps s)\<rparr>)) t)"

definition finish_app :: "app_id \<Rightarrow> u64 \<Rightarrow> bool \<Rightarrow> string option \<Rightarrow> token_op" where
  "finish_app app gen crashed err s =
     attempt
       (chk (ensure_revision_capacity s)
       (res_bind (current_instance s app gen) (\<lambda>i.
        chk (guard (is_terminal (state i))
               (InvalidAppTransition app (state i) (if crashed then Crashed else Exited)))
            (Inr i)))) s
     (\<lambda>i. let t = (token i)\<lparr>lease_id := None\<rparr>
           in commit
                (clear_foreground_of app
                  (s\<lparr>apps := bt_modify app
                       (\<lambda>i. i\<lparr>state := (if crashed then Crashed else Exited), token := t,
                              pid := None, last_error := err\<rparr>) (apps s)\<rparr>)) t)"

definition mark_unresponsive :: "app_id \<Rightarrow> u64 \<Rightarrow> string \<Rightarrow> token_op" where
  "mark_unresponsive app gen err s =
     attempt
       (chk (ensure_revision_capacity s)
       (res_bind (current_instance s app gen) (\<lambda>i.
        chk (guard (is_terminal (state i) \<or> state i = Unresponsive)
               (InvalidAppTransition app (state i) Unresponsive))
            (Inr i)))) s
     (\<lambda>i. let t = (token i)\<lparr>lease_id := None\<rparr>
           in commit
                (clear_foreground_of app
                  (s\<lparr>apps := bt_modify app
                       (\<lambda>i. i\<lparr>state := Unresponsive, token := t, last_error := Some err\<rparr>)
                       (apps s)\<rparr>)) t)"

lemmas supervisor_op_defs [model_defs] =
  transition_domain_def set_sleeping_def start_app_def grant_foreground_def
  mark_background_ready_def enter_background_def begin_stop_def finish_app_def mark_unresponsive_def

section \<open>The contract every operation meets\<close>

text \<open>The identity fence of an application: its generation, and within it the foreground epoch. It
  may only move forward in the lexicographic order.\<close>

definition fence_of :: "supervisor_state \<Rightarrow> app_id \<Rightarrow> nat \<times> nat" where
  "fence_of s a =
     (case bt_get (apps s) a of
        None \<Rightarrow> (0, 0)
      | Some i \<Rightarrow> (unat (generation (token i)), unat (foreground_epoch (token i))))"

definition fence_le :: "nat \<times> nat \<Rightarrow> nat \<times> nat \<Rightarrow> bool" where
  "fence_le f g \<longleftrightarrow> fst f < fst g \<or> fst f = fst g \<and> snd f \<le> snd g"

locale supervisor_op =
  fixes run :: "supervisor_state \<Rightarrow> (state_model_error + 'a) \<times> supervisor_state"
  assumes atomic: "fst (run s) = Inl e \<Longrightarrow> snd (run s) = s"
    and bumps: "fst (run s) = Inr v \<Longrightarrow>
      state_revision s \<noteq> - 1 \<and> state_revision (snd (run s)) = state_revision s + 1"
    and keeps_sound: "supervisor_sound s \<Longrightarrow> fst (run s) = Inr v \<Longrightarrow> supervisor_sound (snd (run s))"
    and advances: "fst (run s) = Inr v \<Longrightarrow> fence_le (fence_of s a) (fence_of (snd (run s)) a)"
begin

lemma always_sound: "supervisor_sound s \<Longrightarrow> supervisor_sound (snd (run s))"
  by (cases "fst (run s)") (use atomic keeps_sound in auto)

lemma always_advances: "fence_le (fence_of s a) (fence_of (snd (run s)) a)"
  by (cases "fst (run s)") (use atomic advances in \<open>auto simp: fence_le_def\<close>)

lemma revision_counts:
  "unat (state_revision (snd (run s))) =
     unat (state_revision s) + (case fst (run s) of Inl _ \<Rightarrow> 0 | Inr _ \<Rightarrow> 1)"
  using atomic bumps by (cases "fst (run s)") (auto simp: unat_succ)

end

lemma attempt_simps [simp]:
  "attempt (Inl e) s k = (Inl e, s)" "attempt (Inr x) s k = k x"
  by (simp_all add: attempt_def)

lemma attempt_Inr [simp]: "fst (attempt r s k) = Inr v \<longleftrightarrow> (\<exists>x. r = Inr x \<and> fst (k x) = Inr v)"
  by (cases r) simp_all

lemma commit_eq:
  "commit s v = (if state_revision s = - 1 then (Inl RevisionOverflow, s)
                 else (Inr v, s\<lparr>state_revision := state_revision s + 1\<rparr>))"
  by (simp add: commit_def bump_revision_def checked_succ)

lemma sound_revision [simp]: "supervisor_sound (s\<lparr>state_revision := r\<rparr>) = supervisor_sound s"
  by (simp add: supervisor_sound_def)

lemma fence_revision [simp]: "fence_of (s\<lparr>state_revision := r\<rparr>) = fence_of s"
  by (simp add: fence_of_def fun_eq_iff)

lemma clear_foreground_of_simps [simp]:
  "state_revision (clear_foreground_of app s) = state_revision s"
  "apps (clear_foreground_of app s) = apps s"
  "domain (clear_foreground_of app s) = domain s"
  "sleeping (clear_foreground_of app s) = sleeping s"
  "foreground_app (clear_foreground_of app s) =
     (if foreground_app s = Some app then None else foreground_app s)"
  by (simp_all add: clear_foreground_of_def)

text \<open>The shape every operation has: the revision capacity is checked first, the guards \<open>r\<close> decide
  what is written, and the only write is the committed one. It reduces the contract to what the
  write does to the invariant and to the fences.\<close>

lemma op_contract:
  assumes shape: "\<And>s. run s = attempt (chk (ensure_revision_capacity s) (r s)) s (\<lambda>x. commit (f s x) (v s x))"
    and rev: "\<And>s x. state_revision (f s x) = state_revision s"
    and sound: "\<And>s x. supervisor_sound s \<Longrightarrow> r s = Inr x \<Longrightarrow> supervisor_sound (f s x)"
    and adv: "\<And>s x a. r s = Inr x \<Longrightarrow> fence_le (fence_of s a) (fence_of (f s x) a)"
  shows "supervisor_op run"
proof -
  have out: "run s = (case r s of
      Inl e \<Rightarrow> (Inl (if state_revision s = - 1 then RevisionOverflow else e), s)
    | Inr x \<Rightarrow> if state_revision s = - 1 then (Inl RevisionOverflow, s)
               else (Inr (v s x), (f s x)\<lparr>state_revision := state_revision s + 1\<rparr>))" for s
    by (cases "r s") (auto simp: shape ensure_revision_capacity_def guard_def commit_eq rev)
  show ?thesis
    by unfold_locales (auto simp: out sound adv split: sum.splits if_splits)
qed

lemma fence_le_refl [simp]: "fence_le f f"
  by (simp add: fence_le_def)

text \<open>Writing one record, for the invariant and for the fences.\<close>

lemma sound_apps_modify:
  assumes "sound_apps m fg" and "bt_get m app = Some i" and "sound_entry app (f i)"
    and "state (f i) = Foreground \<Longrightarrow> fg = None"
  shows "sound_apps (bt_modify app f m)
           (if state (f i) = Foreground then Some app else if fg = Some app then None else fg)"
  using assms unfolding sound_apps_def by (auto split: if_splits) (metis option.inject)+

lemma fence_frame [simp]:
  "fence_of (s\<lparr>foreground_app := fg\<rparr>) = fence_of s"
  "fence_of (s\<lparr>last_app := la\<rparr>) = fence_of s"
  "fence_of (s\<lparr>domain := d\<rparr>) = fence_of s"
  "fence_of (s\<lparr>sleeping := b\<rparr>) = fence_of s"
  "fence_of (clear_foreground_of app s) = fence_of s"
  by (simp_all add: fence_of_def fun_eq_iff)

lemma fence_le_modify:
  assumes "bt_get (apps s) app = Some i"
    and "generation (token (f i)) = generation (token i)"
    and "foreground_epoch (token i) \<le> foreground_epoch (token (f i))"
  shows "fence_le (fence_of s a) (fence_of (s\<lparr>apps := bt_modify app f (apps s)\<rparr>) a)"
  using assms by (auto simp: fence_of_def fence_le_def word_le_nat_alt split: option.splits)

lemma current_instance_Inr:
  "current_instance s app gen = Inr i \<longleftrightarrow> bt_get (apps s) app = Some i \<and> generation (token i) = gen"
  by (auto simp: current_instance_def split: option.splits)

lemma supervisor_sound_entry:
  "supervisor_sound s \<Longrightarrow> bt_get (apps s) app = Some i \<Longrightarrow> sound_entry app i"
  by (simp add: supervisor_sound_def sound_apps_def)

text \<open>A write that takes a record out of the foreground, or leaves it out of it.\<close>

lemma sound_demote:
  assumes s: "supervisor_sound s" and i: "bt_get (apps s) app = Some i" and live: "\<not> is_terminal (state i)"
    and f: "app_id (token (f i)) = app" "generation (token (f i)) = generation (token i)"
      "lease_id (token (f i)) = None" "state (f i) \<noteq> Foreground"
  shows "supervisor_sound (clear_foreground_of app (s\<lparr>apps := bt_modify app f (apps s)\<rparr>))"
proof -
  have "sound_entry app (f i)"
    using supervisor_sound_entry [OF s i] f by (simp add: sound_entry_def)
  with s i f have "sound_apps (bt_modify app f (apps s))
      (if foreground_app s = Some app then None else foreground_app s)"
    using sound_apps_modify [of "apps s" "foreground_app s" app i f] by (simp add: supervisor_sound_def)
  moreover have "domain s \<noteq> Stock"
    using s i live by (auto simp: supervisor_sound_def)
  ultimately show ?thesis
    using s by (auto simp: supervisor_sound_def)
qed

section \<open>The operations meet it\<close>

interpretation transition_domain: supervisor_op "transition_domain next"
proof (rule op_contract, unfold transition_domain_def Let_def, rule refl, goal_cases rev sound adv)
  case (rev s x)
  show ?case by simp
next
  case (sound s x)
  have "sound_entry a i \<Longrightarrow> sound_entry a (revoke_instance i) \<and> state (revoke_instance i) \<noteq> Foreground" for a i
    by (simp add: sound_entry_def)
  then have revoked: "sound_apps (bt_map revoke_instance (apps s)) None"
    using supervisor_sound_entry [OF sound(1)] by (fastforce simp: sound_apps_def)
  have settled: "is_terminal (state i)" if "next = Stock" "bt_get (apps s) a = Some i" for a i
    using sound that bt_ex_values [of "apps s" "\<lambda>i. \<not> is_terminal (state i)"]
    by (auto simp: supervisor_sound_def)
  show ?case
  proof (cases "next = Managed")
    case True
    with sound have "domain s = EnteringManaged" by (simp add: valid_domain_edge_def)
    with True sound(1) show ?thesis by (auto simp: supervisor_sound_def)
  next
    case False
    with sound(1) revoked settled show ?thesis
      by (auto simp: supervisor_sound_def)
  qed
next
  case (adv s x a)
  have "fence_le (fence_of s a) (fence_of (s\<lparr>apps := bt_map revoke_instance (apps s)\<rparr>) a)"
    by (auto simp: fence_of_def fence_le_def split: option.splits)
  then show ?case by (simp add: fence_of_def)
qed

interpretation set_sleeping: supervisor_op "set_sleeping b"
  by (rule op_contract, unfold set_sleeping_def Let_def, rule refl)
    (auto simp: supervisor_sound_def fence_of_def)

interpretation start_app: supervisor_op "start_app app gen p"
proof (rule op_contract, unfold start_app_def Let_def, rule refl, goal_cases rev sound adv)
  case (rev s x)
  show ?case by simp
next
  case (sound s x)
  then have "bt_get (apps s) app = Some i \<Longrightarrow> state i \<noteq> Foreground" for i
    by (auto simp: is_terminal_def)
  with sound show ?case
    by (auto simp: supervisor_sound_def sound_apps_def sound_entry_def)
next
  case (adv s x a)
  then show ?case
    by (auto simp: fence_of_def fence_le_def word_le_nat_alt not_le split: option.splits)
qed

interpretation grant_foreground: supervisor_op "grant_foreground app gen epoch lease"
proof (rule op_contract, unfold grant_foreground_def Let_def, rule refl, goal_cases rev sound adv)
  case (rev s i)
  show ?case by simp
next
  case (sound s i)
  then have i: "bt_get (apps s) app = Some i" by (simp add: current_instance_Inr)
  show ?case
    using sound supervisor_sound_entry [OF sound(1) i]
      sound_apps_modify [of "apps s" "foreground_app s" app i
        "\<lambda>j. j\<lparr>token := (token i)\<lparr>foreground_epoch := epoch, lease_id := Some lease\<rparr>, state := Foreground\<rparr>"] i
    by (auto simp: supervisor_sound_def sound_entry_def current_instance_Inr)
next
  case (adv s i a)
  then show ?case
    by (auto intro!: fence_le_modify simp: current_instance_Inr not_le)
qed

interpretation mark_background_ready: supervisor_op "mark_background_ready app gen ttl sub"
proof (rule op_contract, unfold mark_background_ready_def Let_def, rule refl, goal_cases rev sound adv)
  case (rev s i)
  show ?case by simp
next
  case (sound s i)
  then have i: "bt_get (apps s) app = Some i" by (simp add: current_instance_Inr)
  have fg: "foreground_app s \<noteq> Some app"
    using sound i by (auto simp: supervisor_sound_def sound_apps_def)
  have "\<not> is_terminal (state i)"
    using sound(2) by (simp add: is_terminal_def)
  with sound(1) i have "domain s \<noteq> Stock"
    unfolding supervisor_sound_def by blast
  with sound show ?case
    using supervisor_sound_entry [OF sound(1) i] fg i
      sound_apps_modify [of "apps s" "foreground_app s" app i
        "\<lambda>j. j\<lparr>state := Background, title := ttl, subtitle := sub\<rparr>"]
    by (auto simp: supervisor_sound_def sound_entry_def current_instance_Inr)
next
  case (adv s i a)
  then show ?case
    by (auto intro!: fence_le_modify simp: current_instance_Inr)
qed

interpretation enter_background: supervisor_op "enter_background app gen epoch"
proof (rule op_contract, unfold enter_background_def Let_def, rule refl, goal_cases rev sound adv)
  case (rev s i)
  show ?case by simp
next
  case (sound s i)
  then have i: "bt_get (apps s) app = Some i" "state i = Foreground"
    by (simp_all add: current_instance_Inr)
  then have "foreground_app s = Some app"
    using sound(1) by (auto simp: supervisor_sound_def sound_apps_def)
  with i sound supervisor_sound_entry [OF sound(1) i(1)] show ?case
    using sound_demote [OF sound(1) i(1), of "\<lambda>j. j\<lparr>state := Background, token := (token i)\<lparr>lease_id := None\<rparr>\<rparr>"]
    by (auto simp: clear_foreground_of_def is_terminal_def sound_entry_def supervisor_sound_def)
next
  case (adv s i a)
  then show ?case
    by (auto intro!: fence_le_modify simp: current_instance_Inr)
qed

interpretation begin_stop: supervisor_op "begin_stop app gen"
  by (rule op_contract, unfold begin_stop_def Let_def, rule refl)
    (auto intro!: sound_demote fence_le_modify dest: supervisor_sound_entry
      simp: current_instance_Inr sound_entry_def)

interpretation finish_app: supervisor_op "finish_app app gen crashed err"
  by (rule op_contract, unfold finish_app_def Let_def, rule refl)
    (auto intro!: sound_demote fence_le_modify dest: supervisor_sound_entry
      simp: current_instance_Inr sound_entry_def)

interpretation mark_unresponsive: supervisor_op "mark_unresponsive app gen err"
  by (rule op_contract, unfold mark_unresponsive_def Let_def, rule refl)
    (auto intro!: sound_demote fence_le_modify dest: supervisor_sound_entry
      simp: current_instance_Inr sound_entry_def)

end
