(* ===== verification/Supervisor_Reach.thy ===== *)
theory Supervisor_Reach
  imports Supervisor_Ops
begin

text \<open>
  Histories of the supervisor state: any sequence of calls of its operations, failed ones included,
  from the default state. The invariant \<open>supervisor_sound\<close>, the single display lease and the
  process fences hold along every history.
\<close>

section \<open>Calls and histories\<close>

datatype supervisor_cmd =
    TransitionDomain system_domain_state
  | SetSleeping bool
  | StartApp app_id u64 "u32 option"
  | GrantForeground app_id u64 u64 u64
  | MarkBackgroundReady app_id u64 string string
  | EnterBackground app_id u64 u64
  | BeginStop app_id u64
  | FinishApp app_id u64 bool "string option"
  | MarkUnresponsive app_id u64 string

definition answer :: "('a \<Rightarrow> 'b) \<Rightarrow> (state_model_error + 'a) \<times> supervisor_state \<Rightarrow> (state_model_error + 'b) \<times> supervisor_state" where
  "answer g out = (map_sum (\<lambda>e. e) g (fst out), snd out)"

fun exec :: "supervisor_cmd \<Rightarrow> supervisor_state \<Rightarrow> (state_model_error + app_token option) \<times> supervisor_state" where
  "exec (TransitionDomain d) s = answer (\<lambda>_. None) (transition_domain d s)"
| "exec (SetSleeping b) s = answer (\<lambda>_. None) (set_sleeping b s)"
| "exec (StartApp a g p) s = answer Some (start_app a g p s)"
| "exec (GrantForeground a g e l) s = answer Some (grant_foreground a g e l s)"
| "exec (MarkBackgroundReady a g t u) s = answer Some (mark_background_ready a g t u s)"
| "exec (EnterBackground a g e) s = answer Some (enter_background a g e s)"
| "exec (BeginStop a g) s = answer Some (begin_stop a g s)"
| "exec (FinishApp a g c e) s = answer Some (finish_app a g c e s)"
| "exec (MarkUnresponsive a g e) s = answer Some (mark_unresponsive a g e s)"

inductive reaches :: "supervisor_state \<Rightarrow> supervisor_state \<Rightarrow> bool" where
  here: "reaches s s"
| call: "reaches s t \<Longrightarrow> reaches s (snd (exec c t))"

text \<open>The process a lifecycle call names.\<close>

fun cmd_process :: "supervisor_cmd \<Rightarrow> (app_id \<times> u64) option" where
  "cmd_process (TransitionDomain d) = None"
| "cmd_process (SetSleeping b) = None"
| "cmd_process (StartApp a g p) = Some (a, g)"
| "cmd_process (GrantForeground a g e l) = Some (a, g)"
| "cmd_process (MarkBackgroundReady a g t u) = Some (a, g)"
| "cmd_process (EnterBackground a g e) = Some (a, g)"
| "cmd_process (BeginStop a g) = Some (a, g)"
| "cmd_process (FinishApp a g c e) = Some (a, g)"
| "cmd_process (MarkUnresponsive a g e) = Some (a, g)"

section \<open>Every call meets the contract\<close>

lemma answer_simps [simp]:
  "fst (answer g out) = Inl e \<longleftrightarrow> fst out = Inl e"
  "fst (answer g out) = Inr w \<longleftrightarrow> (\<exists>v. fst out = Inr v \<and> w = g v)"
  "snd (answer g out) = snd out"
  by (cases "fst out"; auto simp: answer_def)+

lemma supervisor_op_answer: "supervisor_op run \<Longrightarrow> supervisor_op (\<lambda>s. answer g (run s))"
  by (auto simp: supervisor_op_def)

lemma exec_fun:
  "exec (TransitionDomain d) = (\<lambda>s. answer (\<lambda>_. None) (transition_domain d s))"
  "exec (SetSleeping b) = (\<lambda>s. answer (\<lambda>_. None) (set_sleeping b s))"
  "exec (StartApp a g p) = (\<lambda>s. answer Some (start_app a g p s))"
  "exec (GrantForeground a g e l) = (\<lambda>s. answer Some (grant_foreground a g e l s))"
  "exec (MarkBackgroundReady a g t u) = (\<lambda>s. answer Some (mark_background_ready a g t u s))"
  "exec (EnterBackground a g e) = (\<lambda>s. answer Some (enter_background a g e s))"
  "exec (BeginStop a g) = (\<lambda>s. answer Some (begin_stop a g s))"
  "exec (FinishApp a g c err) = (\<lambda>s. answer Some (finish_app a g c err s))"
  "exec (MarkUnresponsive a g m) = (\<lambda>s. answer Some (mark_unresponsive a g m s))"
  by (simp_all add: fun_eq_iff)

interpretation exec: supervisor_op "exec c"
  by (cases c)
    (simp_all add: exec_fun supervisor_op_answer
      transition_domain.supervisor_op_axioms set_sleeping.supervisor_op_axioms
      start_app.supervisor_op_axioms grant_foreground.supervisor_op_axioms
      mark_background_ready.supervisor_op_axioms enter_background.supervisor_op_axioms
      begin_stop.supervisor_op_axioms finish_app.supervisor_op_axioms
      mark_unresponsive.supervisor_op_axioms)

section \<open>Along a history\<close>

lemma reaches_sound: "reaches s t \<Longrightarrow> supervisor_sound s \<Longrightarrow> supervisor_sound t"
  by (induction rule: reaches.induct) (auto intro: exec.always_sound)

lemma fence_le_trans: "fence_le f g \<Longrightarrow> fence_le g h \<Longrightarrow> fence_le f h"
  by (auto simp: fence_le_def)

lemma reaches_fence: "reaches s t \<Longrightarrow> fence_le (fence_of s a) (fence_of t a)"
  by (induction rule: reaches.induct) (auto intro: fence_le_trans exec.always_advances)

lemma supervisor_default_sound: "supervisor_sound supervisor_default"
  by (simp add: supervisor_sound_def sound_apps_def supervisor_default_def)

lemma reaches_default_sound: "reaches supervisor_default s \<Longrightarrow> supervisor_sound s"
  using reaches_sound supervisor_default_sound by blast

lemma sound_holder:
  "supervisor_sound s \<Longrightarrow> bt_get (apps s) a = Some i \<Longrightarrow> lease_id (token i) \<noteq> None \<Longrightarrow>
     foreground_app s = Some a \<and> state i = Foreground \<and> domain s = Managed \<and> \<not> sleeping s"
  by (auto simp: supervisor_sound_def sound_apps_def sound_entry_def)

text \<open>A call that succeeds names the current generation, or starts a newer one; a grant moves the
  foreground epoch.\<close>

lemma exec_Inr_generation:
  assumes "fst (exec c s) = Inr v" and "cmd_process c = Some (a, g)" and "bt_get (apps s) a = Some i"
  shows "generation (token i) \<le> g"
  using assms by (cases c) (auto simp: supervisor_op_defs current_instance_Inr)

lemma exec_grant_Inr:
  assumes "fst (exec (GrantForeground a g e l) s) = Inr v"
  shows "fst (fence_of s a) = unat g" and "snd (fence_of s a) < unat e"
    and "fence_of (snd (exec (GrantForeground a g e l) s)) a = (unat g, unat e)"
  using assms
  by (auto simp: grant_foreground_def current_instance_def Let_def commit_eq fence_of_def word_less_nat_alt word_le_nat_alt
      ensure_revision_capacity_def not_le split: if_splits option.splits)

section \<open>Recovery\<close>

text \<open>The calls that take a supervisor from any state back to the stock domain: enter recovery,
  record every running application as crashed, hand over to the stock system.\<close>

fun exec_all :: "supervisor_cmd list \<Rightarrow> supervisor_state \<Rightarrow> (state_model_error + unit) \<times> supervisor_state" where
  "exec_all [] s = (Inr (), s)"
| "exec_all (c # cs) s =
     (case exec c s of (Inl e, t) \<Rightarrow> (Inl e, t) | (Inr _, t) \<Rightarrow> exec_all cs t)"

definition running_apps :: "supervisor_state \<Rightarrow> (app_id \<times> u64) list" where
  "running_apps s =
     map (\<lambda>(a, i). (a, generation (token i))) (filter (\<lambda>(a, i). \<not> is_terminal (state i)) (apps s))"

definition finish_calls :: "(app_id \<times> u64) list \<Rightarrow> supervisor_cmd list" where
  "finish_calls ps = map (\<lambda>(a, g). FinishApp a g True None) ps"

definition recovery_plan :: "supervisor_state \<Rightarrow> supervisor_cmd list" where
  "recovery_plan s =
     (if domain s = Recovering then [] else [TransitionDomain Recovering])
     @ finish_calls (running_apps s) @ [TransitionDomain Stock]"

lemma exec_all_append:
  "exec_all (cs @ ds) s =
     (case exec_all cs s of (Inl e, t) \<Rightarrow> (Inl e, t) | (Inr _, t) \<Rightarrow> exec_all ds t)"
  by (induction cs s rule: exec_all.induct) (auto split: prod.splits sum.splits)

lemma finish_app_runs:
  assumes "state_revision s \<noteq> - 1" and "bt_get (apps s) a = Some i"
    and "generation (token i) = g" and "\<not> is_terminal (state i)"
  shows "\<exists>v t. exec (FinishApp a g True None) s = (Inr v, t) \<and> domain t = domain s
     \<and> state_revision t = state_revision s + 1
     \<and> (\<forall>b j. bt_get (apps t) b = Some j \<longleftrightarrow>
          (if b = a then \<exists>i'. j = i' \<and> state i' = Crashed \<and> bt_get (apps t) a = Some i'
           else bt_get (apps s) b = Some j))"
  using assms
  by (auto simp: finish_app_def current_instance_def Let_def commit_eq answer_def
      ensure_revision_capacity_def)

lemma finish_all_runs:
  assumes "distinct (map fst ps)" and "unat (state_revision s) + length ps < 2 ^ 64"
    and "\<forall>(a, g) \<in> set ps. \<exists>i. bt_get (apps s) a = Some i \<and> generation (token i) = g \<and> \<not> is_terminal (state i)"
    and "\<forall>a i. bt_get (apps s) a = Some i \<and> \<not> is_terminal (state i) \<longrightarrow> a \<in> fst ` set ps"
  shows "\<exists>t. exec_all (finish_calls ps) s = (Inr (), t) \<and> domain t = domain s
     \<and> unat (state_revision t) = unat (state_revision s) + length ps
     \<and> (\<forall>a i. bt_get (apps t) a = Some i \<longrightarrow> is_terminal (state i))"
  using assms
proof (induction ps arbitrary: s)
  case Nil
  then show ?case by (auto simp: finish_calls_def)
next
  case (Cons p ps)
  obtain a g where p: "p = (a, g)" by (cases p)
  from Cons.prems(3) p obtain i where i: "bt_get (apps s) a = Some i" "generation (token i) = g"
    "\<not> is_terminal (state i)" by auto
  have room: "state_revision s \<noteq> - 1"
    using Cons.prems(2) by (auto simp: unat_max_word)
  from finish_app_runs [OF room i] obtain v t where t:
    "exec (FinishApp a g True None) s = (Inr v, t)" "domain t = domain s"
    "state_revision t = state_revision s + 1"
    "\<And>b j. b \<noteq> a \<Longrightarrow> bt_get (apps t) b = Some j \<longleftrightarrow> bt_get (apps s) b = Some j"
    "\<And>j. bt_get (apps t) a = Some j \<Longrightarrow> state j = Crashed"
    by metis
  have rev: "unat (state_revision t) = unat (state_revision s) + 1"
    using room t(3) by (simp add: unat_succ)
  have "\<exists>u. exec_all (finish_calls ps) t = (Inr (), u) \<and> domain u = domain t
     \<and> unat (state_revision u) = unat (state_revision t) + length ps
     \<and> (\<forall>a i. bt_get (apps u) a = Some i \<longrightarrow> is_terminal (state i))"
  proof (rule Cons.IH)
    show "distinct (map fst ps)" using Cons.prems(1) by simp
    show "unat (state_revision t) + length ps < 2 ^ 64" using Cons.prems(2) rev by simp
    show "\<forall>(b, h) \<in> set ps. \<exists>i. bt_get (apps t) b = Some i \<and> generation (token i) = h \<and> \<not> is_terminal (state i)"
    proof clarify
      fix b h assume m: "(b, h) \<in> set ps"
      with Cons.prems(1) p have "b \<noteq> a" by (force simp: image_iff)
      with m Cons.prems(3) t(4) show "\<exists>i. bt_get (apps t) b = Some i \<and> generation (token i) = h \<and> \<not> is_terminal (state i)"
        by fastforce
    qed
    show "\<forall>b j. bt_get (apps t) b = Some j \<and> \<not> is_terminal (state j) \<longrightarrow> b \<in> fst ` set ps"
    proof (intro allI impI)
      fix b j assume bj: "bt_get (apps t) b = Some j \<and> \<not> is_terminal (state j)"
      have "b \<noteq> a" using bj t(5) by (auto simp: is_terminal_def)
      with bj t(4) Cons.prems(4) p show "b \<in> fst ` set ps" by auto
    qed
  qed
  with p t(1,2) rev show ?case by (auto simp: finish_calls_def)
qed

lemma running_apps_props:
  assumes "bt_ok (apps s)"
  shows "distinct (map fst (running_apps s))"
    and "(a, g) \<in> set (running_apps s) \<longleftrightarrow>
      (\<exists>i. bt_get (apps s) a = Some i \<and> generation (token i) = g \<and> \<not> is_terminal (state i))"
proof -
  have "map fst (running_apps s) = map fst (filter (\<lambda>(a, i). \<not> is_terminal (state i)) (apps s))"
    by (auto simp: running_apps_def)
  also have "distinct \<dots>"
    using bt_ok_distinct [OF bt_ok_filter [OF assms]] .
  finally show "distinct (map fst (running_apps s))" .
  show "(a, g) \<in> set (running_apps s) \<longleftrightarrow>
      (\<exists>i. bt_get (apps s) a = Some i \<and> generation (token i) = g \<and> \<not> is_terminal (state i))"
    by (force simp: running_apps_def bt_entry_iff [OF assms, symmetric])
qed

lemma enter_recovery_runs:
  assumes "domain s \<noteq> Recovering" and "state_revision s \<noteq> - 1"
  shows "\<exists>t. exec (TransitionDomain Recovering) s = (Inr None, t) \<and> domain t = Recovering
     \<and> state_revision t = state_revision s + 1 \<and> apps t = bt_map revoke_instance (apps s)"
  using assms
  by (cases "domain s")
    (auto simp: transition_domain_def valid_domain_edge_def commit_eq answer_def ensure_revision_capacity_def)

lemma leave_recovery_runs:
  assumes "domain s = Recovering" and "state_revision s \<noteq> - 1" and "bt_ok (apps s)"
    and "\<forall>a i. bt_get (apps s) a = Some i \<longrightarrow> is_terminal (state i)"
  shows "\<exists>t. exec (TransitionDomain Stock) s = (Inr None, t) \<and> domain t = Stock"
proof -
  have "\<not> list_ex (\<lambda>i. \<not> is_terminal (state i)) (bt_values (apps s))"
    using assms(3,4) by (simp add: bt_ex_values)
  then show ?thesis
    using assms
    by (simp add: transition_domain_def valid_domain_edge_def commit_eq answer_def ensure_revision_capacity_def)
qed

lemma exec_all_sound: "supervisor_sound s \<Longrightarrow> supervisor_sound (snd (exec_all cs s))"
proof (induction cs s rule: exec_all.induct)
  case (1 s)
  then show ?case by simp
next
  case (2 c cs s)
  have "supervisor_sound (snd (exec c s))" using 2(2) by (rule exec.always_sound)
  with 2(1) show ?case by (auto split: prod.splits sum.splits)
qed

lemma running_apps_revoked: "running_apps (s\<lparr>apps := bt_map revoke_instance (apps s)\<rparr>) = running_apps s"
proof -
  have "map (\<lambda>(a, i). (a, generation (token i))) (filter (\<lambda>(a, i). \<not> is_terminal (state i)) (bt_map revoke_instance m))
     = map (\<lambda>(a, i). (a, generation (token i))) (filter (\<lambda>(a, i). \<not> is_terminal (state i)) m)" for m
    by (induction m) (auto simp: bt_map_def)
  then show ?thesis by (simp add: running_apps_def)
qed

lemma recovery_from_recovering:
  assumes s: "supervisor_sound s" "domain s = Recovering"
    and room: "unat (state_revision s) + length (running_apps s) + 1 < 2 ^ 64"
  shows "\<exists>t. exec_all (finish_calls (running_apps s) @ [TransitionDomain Stock]) s = (Inr (), t) \<and> domain t = Stock"
proof -
  have ok: "bt_ok (apps s)" using s by (simp add: supervisor_sound_def)
  note ps = running_apps_props [OF ok]
  have named: "\<forall>(a, g) \<in> set (running_apps s).
      \<exists>i. bt_get (apps s) a = Some i \<and> generation (token i) = g \<and> \<not> is_terminal (state i)"
    by (auto simp: ps(2))
  have all: "\<forall>a i. bt_get (apps s) a = Some i \<and> \<not> is_terminal (state i) \<longrightarrow> a \<in> fst ` set (running_apps s)"
    using ps(2) by (metis fst_conv image_eqI)
  from finish_all_runs [OF ps(1) _ named all] room
  obtain t where t: "exec_all (finish_calls (running_apps s)) s = (Inr (), t)" "domain t = domain s"
    "unat (state_revision t) = unat (state_revision s) + length (running_apps s)"
    "\<forall>a i. bt_get (apps t) a = Some i \<longrightarrow> is_terminal (state i)"
    by auto
  have "bt_ok (apps t)"
    using exec_all_sound [OF s(1), of "finish_calls (running_apps s)"] t(1) by (simp add: supervisor_sound_def)
  moreover have "state_revision t \<noteq> - 1" using t(3) room by (auto simp: unat_max_word)
  ultimately show ?thesis
    using leave_recovery_runs [of t] t s(2) by (auto simp: exec_all_append)
qed

section \<open>The properties\<close>

text \<open>C1: whatever sequence of calls the daemon makes, failed ones included, the state it holds
  passes its own consistency check.\<close>

theorem reachable_states_validate:
  assumes "reaches supervisor_default s"
  shows "supervisor_validate s = Inr ()"
proof -
  have "supervisor_sound s" using assms by (rule reaches_default_sound)
  then show ?thesis
    using supervisor_validate_iff [of s] by (simp add: supervisor_sound_def)
qed

text \<open>C22: \<open>validate\<close> accepts exactly the states that meet the stated invariant: records keyed by
  their own id, no zero generation or lease, a lease exactly on the foreground record, which is the
  one the pointer names, none outside the managed domain or asleep, and nothing running in the
  stock domain.\<close>

theorem validate_accepts_exactly_sound_states:
  "bt_ok (apps s) \<Longrightarrow> supervisor_validate s = Inr () \<longleftrightarrow> supervisor_sound s"
  by (rule supervisor_validate_iff)

text \<open>A call that fails leaves the state as it was, for any call on any state, also at the
  revision limit.\<close>

theorem failed_call_changes_nothing:
  "fst (exec c s) = Inl e \<Longrightarrow> snd (exec c s) = s"
  by (rule exec.atomic)

text \<open>The revision counts the successful calls, and never wraps.\<close>

theorem revision_counts_successes:
  "unat (state_revision (snd (exec c s))) =
     unat (state_revision s) + (case fst (exec c s) of Inl _ \<Rightarrow> 0 | Inr _ \<Rightarrow> 1)"
  by (rule exec.revision_counts)

text \<open>C2: in every reachable state at most one application holds a display lease, it is the one
  the foreground pointer names, and then the domain is managed and awake.\<close>

theorem single_display_lease:
  assumes "reaches supervisor_default s"
    and "bt_get (apps s) a = Some i" "lease_id (token i) \<noteq> None"
    and "bt_get (apps s) b = Some j" "lease_id (token j) \<noteq> None"
  shows "a = b \<and> foreground_app s = Some a \<and> domain s = Managed \<and> \<not> sleeping s"
proof -
  note holder = sound_holder [OF reaches_default_sound [OF assms(1)]]
  show ?thesis using holder [OF assms(2,3)] holder [OF assms(4,5)] by simp
qed

text \<open>C3: once a newer process of an application is registered, no later call in the name of an
  older generation succeeds or changes anything, in any continuation.\<close>

theorem stale_process_is_fenced:
  assumes "bt_get (apps s) a = Some i" and "g < generation (token i)"
    and "reaches s t" and "cmd_process c = Some (a, g)"
  shows "\<exists>e. exec c t = (Inl e, t)"
proof (cases "fst (exec c t)")
  case (Inl e)
  then show ?thesis using exec.atomic [of c t e] by (metis prod.collapse)
next
  case (Inr v)
  have "fence_le (fence_of s a) (fence_of t a)" using assms(3) by (rule reaches_fence)
  with assms(1,2) obtain j where j: "bt_get (apps t) a = Some j" "g < generation (token j)"
    by (auto simp: fence_of_def fence_le_def word_less_nat_alt split: option.splits)
  with exec_Inr_generation [OF Inr assms(4)] show ?thesis by fastforce
qed

text \<open>C4: a foreground grant cannot be replayed: after it has succeeded once, no later grant with
  the same process and epoch succeeds, whatever lease it carries.\<close>

theorem foreground_grant_is_once_only:
  assumes "fst (exec (GrantForeground a g e l) s) = Inr v"
    and "reaches (snd (exec (GrantForeground a g e l) s)) t"
  shows "\<exists>err. exec (GrantForeground a g e l') t = (Inl err, t)"
proof (cases "fst (exec (GrantForeground a g e l') t)")
  case (Inl err)
  then show ?thesis using exec.atomic [of _ t err] by (metis prod.collapse)
next
  case (Inr w)
  have "fence_le (unat g, unat e) (fence_of t a)"
    using reaches_fence [OF assms(2), of a] exec_grant_Inr(3) [OF assms(1)] by simp
  with exec_grant_Inr(1,2) [OF Inr] show ?thesis by (simp add: fence_le_def)
qed

text \<open>Leaving the managed domain revokes the display: afterwards no record holds a lease or is
  in the foreground, and nothing sleeps.\<close>

theorem leaving_managed_revokes_display:
  assumes "fst (exec (TransitionDomain d) s) = Inr v" and "d \<noteq> Managed"
    and "bt_get (apps (snd (exec (TransitionDomain d) s))) a = Some i"
  shows "lease_id (token i) = None \<and> state i \<noteq> Foreground
     \<and> foreground_app (snd (exec (TransitionDomain d) s)) = None
     \<and> \<not> sleeping (snd (exec (TransitionDomain d) s))"
  using assms
  by (auto simp: transition_domain_def Let_def commit_eq ensure_revision_capacity_def split: if_splits)


section \<open>The properties at a concrete history\<close>

lemma reaches_trans: "reaches t u \<Longrightarrow> reaches s t \<Longrightarrow> reaches s u"
  by (induction rule: reaches.induct) (auto intro: reaches.call)

lemma exec_all_reaches: "reaches s (snd (exec_all cs s))"
proof (induction cs s rule: exec_all.induct)
  case (1 s)
  then show ?case by (simp add: reaches.here)
next
  case (2 c cs s)
  have one: "reaches s (snd (exec c s))" by (intro reaches.call reaches.here)
  show ?case
  proof (cases "exec c s")
    case (Pair r t)
    with one 2 show ?thesis by (cases r) (auto intro: reaches_trans)
  qed
qed

definition demo_app :: app_id where "demo_app = AppId ''reader''"

definition demo_start :: "supervisor_cmd list" where
  "demo_start = [TransitionDomain EnteringManaged, TransitionDomain Managed, StartApp demo_app 2 (Some 42)]"

definition demo_launching :: supervisor_state where
  "demo_launching = snd (exec_all demo_start supervisor_default)"

definition demo_foreground :: supervisor_state where
  "demo_foreground = snd (exec_all [GrantForeground demo_app 2 1 7] demo_launching)"

lemma demo_reached: "reaches supervisor_default demo_launching" "reaches supervisor_default demo_foreground"
proof -
  show l: "reaches supervisor_default demo_launching"
    unfolding demo_launching_def by (rule exec_all_reaches)
  show "reaches supervisor_default demo_foreground"
    unfolding demo_foreground_def by (rule reaches_trans [OF exec_all_reaches l])
qed

theorem reachable_states_validate_witness:
  "supervisor_validate demo_foreground = Inr () \<and> foreground_app demo_foreground = Some demo_app"
  using reachable_states_validate [OF demo_reached(2)] by code_simp

theorem validate_accepts_exactly_sound_states_witness:
  "supervisor_sound demo_foreground \<and> \<not> supervisor_sound (demo_foreground\<lparr>domain := Stock\<rparr>)"
proof -
  have "bt_ok (apps demo_foreground)" "bt_ok (apps (demo_foreground\<lparr>domain := Stock\<rparr>))" by code_simp+
  note iff = this [THEN validate_accepts_exactly_sound_states]
  have "supervisor_validate demo_foreground = Inr ()"
    "supervisor_validate (demo_foreground\<lparr>domain := Stock\<rparr>) \<noteq> Inr ()" by code_simp+
  with iff show ?thesis by simp
qed

theorem failed_call_changes_nothing_witness:
  "snd (exec (StartApp demo_app 2 None) demo_foreground) = demo_foreground"
proof -
  have "fst (exec (StartApp demo_app 2 None) demo_foreground) = Inl (StaleGeneration demo_app 2 2)" by code_simp
  then show ?thesis by (rule failed_call_changes_nothing)
qed

definition demo_instance :: app_instance where
  "demo_instance = the (bt_get (apps demo_foreground) demo_app)"

lemma demo_instance: "bt_get (apps demo_foreground) demo_app = Some demo_instance"
  "lease_id (token demo_instance) \<noteq> None" "1 < generation (token demo_instance)"
  by code_simp+

theorem single_display_lease_witness:
  "foreground_app demo_foreground = Some demo_app \<and> domain demo_foreground = Managed"
  using single_display_lease [OF demo_reached(2) demo_instance(1,2) demo_instance(1,2)] by simp

theorem stale_process_is_fenced_witness:
  "\<exists>e. exec (FinishApp demo_app 1 True None) (snd (exec_all [BeginStop demo_app 2] demo_foreground))
     = (Inl e, snd (exec_all [BeginStop demo_app 2] demo_foreground))"
  by (rule stale_process_is_fenced [OF demo_instance(1,3) exec_all_reaches cmd_process.simps(8)])

theorem foreground_grant_is_once_only_witness:
  "\<exists>e. exec (GrantForeground demo_app 2 1 9) (snd (exec_all [EnterBackground demo_app 2 1] demo_foreground))
     = (Inl e, snd (exec_all [EnterBackground demo_app 2 1] demo_foreground))"
proof -
  have ok: "fst (exec (GrantForeground demo_app 2 1 7) demo_launching) = Inr (Some (token demo_instance))"
    and same: "demo_foreground = snd (exec (GrantForeground demo_app 2 1 7) demo_launching)" by code_simp+
  show ?thesis
    unfolding same using foreground_grant_is_once_only [OF ok exec_all_reaches] .
qed

theorem leaving_managed_revokes_display_witness:
  "foreground_app (snd (exec (TransitionDomain LeavingManaged) demo_foreground)) = None"
proof -
  have "fst (exec (TransitionDomain LeavingManaged) demo_foreground) = Inr None"
    "bt_get (apps (snd (exec (TransitionDomain LeavingManaged) demo_foreground))) demo_app =
       Some (revoke_instance demo_instance)" by code_simp+
  then show ?thesis using leaving_managed_revokes_display by blast
qed


end
