(* ===== verification/Manager_Compat.thy ===== *)
theory Manager_Compat
  imports Supervisor_Reach
begin

text \<open>
  The v1 composite state (\<open>ManagerState\<close>, \<open>remagic-core/src/state/model.rs\<close>), its transition function
  (\<open>transitions.rs\<close>) and the conversions to and from the v2 supervisor state
  (\<open>compatibility.rs\<close>). The conversions round-trip, and the v2 operations refine the v1
  transitions under the v1 view.
\<close>

section \<open>The v1 state machine\<close>

datatype domain_state =
    SystemD | EnteringManagedD | ManagerD
  | LaunchingD app_id | ForegroundD app_id | ParkingD app_id
  | RestoringSystemD | SleepingD | RecoveringD

datatype transition =
    TriplePower | SinglePower
  | Launch app_id | AppReady app_id | AppParked app_id | AppRestored app_id
  | AppExited app_id | AppCrashed app_id
  | ManagedReady | SystemReady | Sleep | Wake | Failure

record manager_state =
  mgr_domain :: domain_state
  mgr_last_app :: "app_id option"
  mgr_sequence :: u64

datatype transition_error = TransitionError domain_state transition

definition manager_default :: manager_state where
  "manager_default = \<lparr>mgr_domain = SystemD, mgr_last_app = None, mgr_sequence = 0\<rparr>"

text \<open>The match on the pair of state and transition, read by state; \<open>lst\<close> is \<open>last_app\<close>, which the
  guard of \<^term>\<open>SinglePower\<close> in the manager reads. No arm above \<open>(_, Failure)\<close> mentions
  \<^term>\<open>Failure\<close>, so that arm may come first.\<close>

definition next_domain :: "app_id option \<Rightarrow> domain_state \<Rightarrow> transition \<Rightarrow> domain_state option" where
  "next_domain lst d t =
     (if t = Failure then Some RecoveringD
      else case d of
        SystemD \<Rightarrow> (case t of TriplePower \<Rightarrow> Some EnteringManagedD | _ \<Rightarrow> None)
      | EnteringManagedD \<Rightarrow> (case t of ManagedReady \<Rightarrow> Some ManagerD | _ \<Rightarrow> None)
      | ManagerD \<Rightarrow>
          (case t of
             Launch a \<Rightarrow> Some (LaunchingD a)
           | SinglePower \<Rightarrow> map_option LaunchingD lst
           | TriplePower \<Rightarrow> Some RestoringSystemD
           | Sleep \<Rightarrow> Some SleepingD
           | _ \<Rightarrow> None)
      | SleepingD \<Rightarrow> (case t of Wake \<Rightarrow> Some ManagerD | _ \<Rightarrow> None)
      | LaunchingD e \<Rightarrow>
          (case t of
             AppReady a \<Rightarrow> if e = a then Some (ForegroundD a) else None
           | AppExited a \<Rightarrow> if e = a then Some ManagerD else None
           | AppCrashed a \<Rightarrow> if e = a then Some ManagerD else None
           | _ \<Rightarrow> None)
      | ForegroundD e \<Rightarrow>
          (case t of
             SinglePower \<Rightarrow> Some (ParkingD e)
           | TriplePower \<Rightarrow> Some (ParkingD e)
           | AppExited a \<Rightarrow> if e = a then Some ManagerD else None
           | AppCrashed a \<Rightarrow> if e = a then Some ManagerD else None
           | _ \<Rightarrow> None)
      | ParkingD e \<Rightarrow>
          (case t of
             AppParked a \<Rightarrow> if e = a then Some ManagerD else None
           | AppRestored a \<Rightarrow> if e = a then Some (ForegroundD a) else None
           | AppExited a \<Rightarrow> if e = a then Some ManagerD else None
           | AppCrashed a \<Rightarrow> if e = a then Some ManagerD else None
           | _ \<Rightarrow> None)
      | RestoringSystemD \<Rightarrow> (case t of SystemReady \<Rightarrow> Some SystemD | _ \<Rightarrow> None)
      | RecoveringD \<Rightarrow> (case t of SystemReady \<Rightarrow> Some SystemD | _ \<Rightarrow> None))"

definition manager_apply :: "manager_state \<Rightarrow> transition \<Rightarrow> (transition_error + unit) \<times> manager_state" where
  "manager_apply m t =
     (case next_domain (mgr_last_app m) (mgr_domain m) t of
        None \<Rightarrow> (Inl (TransitionError (mgr_domain m) t), m)
      | Some d \<Rightarrow>
          (Inr (),
           m\<lparr>mgr_last_app :=
               (case d of ForegroundD a \<Rightarrow> Some a | ParkingD a \<Rightarrow> Some a | _ \<Rightarrow> mgr_last_app m),
             mgr_domain := d,
             mgr_sequence := mgr_sequence m + 1\<rparr>))"

section \<open>Conversions\<close>

definition legacy_instance :: "app_id \<Rightarrow> app_instance_state \<Rightarrow> app_instance" where
  "legacy_instance a st =
     (let foreground = (st = Foreground) in
      \<lparr>token = \<lparr>app_id = a, generation = 1, foreground_epoch = of_bool foreground,
               lease_id = (if foreground then Some 1 else None)\<rparr>,
       state = st, pid = None, title = [], subtitle = [], last_error = None\<rparr>)"

definition supervisor_of_manager :: "manager_state \<Rightarrow> supervisor_state" where
  "supervisor_of_manager legacy =
     (let app_state = (case mgr_domain legacy of
            LaunchingD a \<Rightarrow> Some (a, Starting)
          | ForegroundD a \<Rightarrow> Some (a, Foreground)
          | ParkingD a \<Rightarrow> Some (a, Stopping)
          | _ \<Rightarrow> None);
          s = supervisor_default\<lparr>
            state_revision := mgr_sequence legacy,
            last_app := mgr_last_app legacy,
            sleeping := (mgr_domain legacy = SleepingD),
            domain := (case mgr_domain legacy of
                SystemD \<Rightarrow> Stock
              | EnteringManagedD \<Rightarrow> EnteringManaged
              | RestoringSystemD \<Rightarrow> LeavingManaged
              | RecoveringD \<Rightarrow> Recovering
              | _ \<Rightarrow> Managed)\<rparr>
      in case app_state of
           None \<Rightarrow> s
         | Some (a, st) \<Rightarrow>
             s\<lparr>apps := bt_insert a (legacy_instance a st) (apps s),
               foreground_app := (if st = Foreground then Some a else foreground_app s)\<rparr>)"

definition active_instance :: "supervisor_state \<Rightarrow> app_instance option" where
  "active_instance s =
     (case Option.bind (foreground_app s) (bt_get (apps s)) of
        Some i \<Rightarrow> Some i
      | None \<Rightarrow> find (\<lambda>i. state i = Starting \<or> state i = Stopping) (bt_values (apps s)))"

definition manager_of_supervisor :: "supervisor_state \<Rightarrow> manager_state" where
  "manager_of_supervisor s =
     \<lparr>mgr_domain = (case domain s of
          Stock \<Rightarrow> SystemD
        | EnteringManaged \<Rightarrow> EnteringManagedD
        | LeavingManaged \<Rightarrow> RestoringSystemD
        | Recovering \<Rightarrow> RecoveringD
        | Managed \<Rightarrow>
            if sleeping s then SleepingD
            else (case active_instance s of
                    None \<Rightarrow> ManagerD
                  | Some i \<Rightarrow>
                      if state i = Starting then LaunchingD (app_id (token i))
                      else if state i = Foreground then ForegroundD (app_id (token i))
                      else if state i = Stopping then ParkingD (app_id (token i))
                      else ManagerD)),
      mgr_last_app = last_app s,
      mgr_sequence = state_revision s\<rparr>"

section \<open>The view of the active application\<close>

lemma find_values_None_iff:
  "bt_ok m \<Longrightarrow> find p (bt_values m) = None \<longleftrightarrow> (\<forall>a i. bt_get m a = Some i \<longrightarrow> \<not> p i)"
proof -
  assume ok: "bt_ok m"
  have "find p (bt_values m) = None \<longleftrightarrow> \<not> list_ex p (bt_values m)"
    unfolding find_None_iff list_ex_iff by blast
  then show ?thesis unfolding bt_ex_values [OF ok] by blast
qed

lemma find_values_only:
  assumes "bt_ok m" and "bt_get m a = Some i" and "p i"
    and "\<forall>b j. bt_get m b = Some j \<and> p j \<longrightarrow> b = a"
  shows "find p (bt_values m) = Some i"
proof (cases "find p (bt_values m)")
  case None
  with assms(2,3) have False unfolding find_values_None_iff [OF assms(1)] by blast
  then show ?thesis ..
next
  case (Some j)
  then have j: "p j" "j \<in> set (bt_values m)"
    unfolding find_Some_iff by (metis, metis nth_mem)
  from j(2) obtain b where b: "bt_get m b = Some j"
    unfolding bt_value_iff [OF assms(1)] by blast
  with j(1) assms(4) have "b = a" by blast
  with b assms(2) Some show ?thesis by simp
qed

text \<open>The applications the v1 view shows as launching or parking.\<close>

definition app_state :: "supervisor_state \<Rightarrow> app_id \<Rightarrow> app_instance_state option" where
  "app_state s a = map_option state (bt_get (apps s) a)"

definition in_transit :: "supervisor_state \<Rightarrow> app_id \<Rightarrow> bool" where
  "in_transit s a \<longleftrightarrow> app_state s a = Some Starting \<or> app_state s a = Some Stopping"

lemma view_manager:
  assumes "bt_ok (apps s)" "domain s = Managed" "\<not> sleeping s" "foreground_app s = None"
    and "\<And>a. \<not> in_transit s a"
  shows "mgr_domain (manager_of_supervisor s) = ManagerD"
proof -
  have "find (\<lambda>i. state i = Starting \<or> state i = Stopping) (bt_values (apps s)) = None"
    using assms by (auto simp: find_values_None_iff in_transit_def app_state_def)
  then show ?thesis using assms by (simp add: manager_of_supervisor_def active_instance_def)
qed

lemma view_transit:
  assumes s: "supervisor_sound s" "domain s = Managed" "\<not> sleeping s" "foreground_app s = None"
    and a: "in_transit s a" and only: "\<And>b. in_transit s b \<Longrightarrow> b = a"
  shows "mgr_domain (manager_of_supervisor s) =
     (if app_state s a = Some Starting then LaunchingD a else ParkingD a)"
proof -
  obtain i where i: "bt_get (apps s) a = Some i" "state i = Starting \<or> state i = Stopping"
    using a by (auto simp: in_transit_def app_state_def)
  have "find (\<lambda>i. state i = Starting \<or> state i = Stopping) (bt_values (apps s)) = Some i"
    using s(1) i only
    by (intro find_values_only) (auto simp: supervisor_sound_def in_transit_def app_state_def)
  moreover have "app_id (token i) = a"
    using supervisor_sound_entry [OF s(1) i(1)] by (simp add: sound_entry_def)
  ultimately show ?thesis
    using s i by (auto simp: manager_of_supervisor_def active_instance_def app_state_def)
qed

lemma view_foreground:
  assumes s: "supervisor_sound s" and fg: "foreground_app s = Some a"
  shows "mgr_domain (manager_of_supervisor s) = ForegroundD a"
proof -
  obtain i where i: "bt_get (apps s) a = Some i" "state i = Foreground"
    using s fg unfolding supervisor_sound_def sound_apps_def by blast
  moreover have "app_id (token i) = a"
    using supervisor_sound_entry [OF s i(1)] by (simp add: sound_entry_def)
  moreover have "domain s = Managed" "\<not> sleeping s"
    using s fg by (auto simp: supervisor_sound_def)
  ultimately show ?thesis
    using fg by (simp add: manager_of_supervisor_def active_instance_def)
qed

section \<open>The v2 operations under the v1 view\<close>

abbreviation view :: "supervisor_state \<Rightarrow> domain_state" where
  "view s \<equiv> mgr_domain (manager_of_supervisor s)"

text \<open>The v1 transition a successful v2 call stands for, where it stands for one: v1 knows one active
  application, so a call on an application in the background has no v1 counterpart.\<close>

fun v1_step :: "supervisor_cmd \<Rightarrow> supervisor_state \<Rightarrow> transition option" where
  "v1_step (TransitionDomain d) s =
     (case d of
        EnteringManaged \<Rightarrow> Some TriplePower
      | Managed \<Rightarrow> if list_ex (\<lambda>i. state i = Starting \<or> state i = Stopping) (bt_values (apps s))
                   then None else Some ManagedReady
      | LeavingManaged \<Rightarrow> if view s = ManagerD then Some TriplePower else None
      | Stock \<Rightarrow> Some SystemReady
      | Recovering \<Rightarrow> Some Failure)"
| "v1_step (SetSleeping b) s =
     (if b then (if view s = ManagerD then Some Sleep else None)
      else if sleeping s \<and> \<not> list_ex (\<lambda>i. state i = Starting \<or> state i = Stopping) (bt_values (apps s))
           then Some Wake else None)"
| "v1_step (StartApp a g p) s = (if view s = ManagerD then Some (Launch a) else None)"
| "v1_step (GrantForeground a g e l) s = (if view s = LaunchingD a then Some (AppReady a) else None)"
| "v1_step (BeginStop a g) s = (if view s = ForegroundD a then Some SinglePower else None)"
| "v1_step (FinishApp a g c e) s =
     (if view s = LaunchingD a \<or> view s = ForegroundD a \<or> view s = ParkingD a
      then Some (if c then AppCrashed a else AppExited a) else None)"
| "v1_step c s = None"

text \<open>The states a v1 daemon can be in: one application in transit at most, none beside a foreground
  one, and \<open>last_app\<close> following the foreground.\<close>

definition single_flight :: "supervisor_state \<Rightarrow> bool" where
  "single_flight s \<longleftrightarrow>
     (\<forall>a b. in_transit s a \<and> in_transit s b \<longrightarrow> a = b)
     \<and> (foreground_app s \<noteq> None \<longrightarrow> (\<forall>a. \<not> in_transit s a))"

definition last_follows :: "supervisor_state \<Rightarrow> bool" where
  "last_follows s \<longleftrightarrow> (\<forall>a. foreground_app s = Some a \<longrightarrow> last_app s = Some a)"

lemma exec_last_follows: "last_follows s \<Longrightarrow> last_follows (snd (exec c s))"
proof (cases "fst (exec c s)")
  case (Inl e)
  assume "last_follows s"
  with exec.atomic [OF Inl] show ?thesis by simp
next
  case (Inr v)
  assume "last_follows s"
  with Inr show ?thesis
    by (cases c)
      (auto simp: supervisor_op_defs last_follows_def Let_def commit_eq ensure_revision_capacity_def
        current_instance_def clear_foreground_of_def split: if_splits option.splits)
qed

lemma reaches_last_follows: "reaches s t \<Longrightarrow> last_follows s \<Longrightarrow> last_follows t"
  by (induction rule: reaches.induct) (auto intro: exec_last_follows)

lemma view_cases:
  assumes "supervisor_sound s" "single_flight s" "domain s = Managed" "\<not> sleeping s"
  obtains (foreground) a where "foreground_app s = Some a" "\<And>b. \<not> in_transit s b" "view s = ForegroundD a"
  | (transit) a where "foreground_app s = None" "in_transit s a" "\<And>b. in_transit s b \<Longrightarrow> b = a"
      "view s = (if app_state s a = Some Starting then LaunchingD a else ParkingD a)"
  | (manager) "foreground_app s = None" "\<And>b. \<not> in_transit s b" "view s = ManagerD"
proof (cases "foreground_app s")
  case (Some a)
  with assms(1,2) show ?thesis
    using view_foreground [OF assms(1) Some] foreground by (simp add: single_flight_def)
next
  case None
  show ?thesis
  proof (cases "\<exists>a. in_transit s a")
    case True
    then obtain a where a: "in_transit s a" by blast
    with assms(2) have only: "in_transit s b \<Longrightarrow> b = a" for b
      unfolding single_flight_def by blast
    show ?thesis
      using transit [OF None a only view_transit [OF assms(1,3,4) None a only]] .
  next
    case False
    then have none: "\<not> in_transit s b" for b by blast
    moreover have "bt_ok (apps s)" using assms(1) by (simp add: supervisor_sound_def)
    ultimately show ?thesis
      using manager [OF None none view_manager [OF _ assms(3,4) None]] by blast
  qed
qed

lemma apply_viewI:
  assumes "next_domain (last_app s) (view s) t = Some (view s')"
    and "last_app s' = (case view s' of ForegroundD a \<Rightarrow> Some a | ParkingD a \<Rightarrow> Some a | _ \<Rightarrow> last_app s)"
    and "state_revision s' = state_revision s + 1"
  shows "manager_apply (manager_of_supervisor s) t = (Inr (), manager_of_supervisor s')"
proof -
  have frame: "mgr_last_app (manager_of_supervisor u) = last_app u"
    "mgr_sequence (manager_of_supervisor u) = state_revision u" for u
    by (simp_all add: manager_of_supervisor_def)
  show ?thesis
    using assms unfolding manager_apply_def frame
    by (auto intro!: manager_state.equality simp: frame)
qed

lemmas ran_defs = supervisor_op_defs Let_def commit_eq ensure_revision_capacity_def current_instance_def

text \<open>What a successful call has checked, and what the v1 view can see of what it wrote.\<close>

lemma start_app_ran:
  assumes "fst (exec (StartApp a g p) s) = Inr v" and "t = snd (exec (StartApp a g p) s)"
  shows "domain s = Managed \<and> \<not> sleeping s \<and> domain t = Managed \<and> \<not> sleeping t
    \<and> foreground_app t = foreground_app s \<and> last_app t = last_app s
    \<and> app_state t = (app_state s)(a \<mapsto> Starting)"
  using assms by (auto simp: ran_defs app_state_def fun_eq_iff split: if_splits option.splits)

lemma grant_foreground_ran:
  assumes "fst (exec (GrantForeground a g e l) s) = Inr v" and "t = snd (exec (GrantForeground a g e l) s)"
  shows "domain s = Managed \<and> \<not> sleeping s \<and> foreground_app t = Some a \<and> last_app t = Some a"
  using assms by (auto simp: ran_defs word_le_nat_alt split: if_splits option.splits)

lemma begin_stop_ran:
  assumes "fst (exec (BeginStop a g) s) = Inr v" and "t = snd (exec (BeginStop a g) s)"
  shows "domain t = domain s \<and> sleeping t = sleeping s \<and> last_app t = last_app s
    \<and> foreground_app t = (if foreground_app s = Some a then None else foreground_app s)
    \<and> app_state t = (app_state s)(a \<mapsto> Stopping)"
  using assms by (auto simp: ran_defs app_state_def fun_eq_iff clear_foreground_of_def split: if_splits option.splits)

lemma finish_app_ran:
  assumes "fst (exec (FinishApp a g c e) s) = Inr v" and "t = snd (exec (FinishApp a g c e) s)"
  shows "domain t = domain s \<and> sleeping t = sleeping s \<and> last_app t = last_app s
    \<and> foreground_app t = (if foreground_app s = Some a then None else foreground_app s)
    \<and> app_state t = (app_state s)(a \<mapsto> (if c then Crashed else Exited))"
  using assms by (auto simp: ran_defs app_state_def fun_eq_iff clear_foreground_of_def split: if_splits option.splits)

lemma transition_domain_ran:
  assumes "fst (exec (TransitionDomain d) s) = Inr v" and "t = snd (exec (TransitionDomain d) s)"
  shows "valid_domain_edge (domain s) d \<and> domain t = d \<and> last_app t = last_app s
    \<and> (d = Managed \<longrightarrow> sleeping t = sleeping s \<and> foreground_app t = foreground_app s \<and> app_state t = app_state s)"
  using assms by (auto simp: ran_defs app_state_def split: if_splits option.splits)

lemma set_sleeping_ran:
  assumes "fst (exec (SetSleeping b) s) = Inr v" and "t = snd (exec (SetSleeping b) s)"
  shows "domain s = Managed \<and> domain t = Managed \<and> last_app t = last_app s \<and> sleeping t = b
    \<and> (b \<longrightarrow> foreground_app s = None)
    \<and> foreground_app t = foreground_app s \<and> app_state t = app_state s"
  using assms by (auto simp: ran_defs app_state_def split: if_splits option.splits)

lemma no_transit_list:
  "bt_ok (apps s) \<Longrightarrow>
     list_ex (\<lambda>i. state i = Starting \<or> state i = Stopping) (bt_values (apps s)) \<longleftrightarrow> (\<exists>a. in_transit s a)"
  unfolding bt_ex_values by (auto simp: in_transit_def app_state_def)

lemma view_outside:
  "domain s \<noteq> Managed \<Longrightarrow> view s =
     (case domain s of Stock \<Rightarrow> SystemD | EnteringManaged \<Rightarrow> EnteringManagedD
      | LeavingManaged \<Rightarrow> RestoringSystemD | _ \<Rightarrow> RecoveringD)"
  by (cases "domain s") (auto simp: manager_of_supervisor_def)

lemma view_sleeping: "domain s = Managed \<Longrightarrow> sleeping s \<Longrightarrow> view s = SleepingD"
  by (simp add: manager_of_supervisor_def)

lemma view_manager_is_managed: "view s = ManagerD \<Longrightarrow> domain s = Managed \<and> \<not> sleeping s"
  by (auto simp: manager_of_supervisor_def split: system_domain_state.splits if_splits)

lemma view_app_is_managed:
  "view s = LaunchingD a \<or> view s = ForegroundD a \<or> view s = ParkingD a \<Longrightarrow> domain s = Managed \<and> \<not> sleeping s"
  by (auto simp: manager_of_supervisor_def split: system_domain_state.splits if_splits)

lemma view_shape:
  assumes "supervisor_sound s" "single_flight s" "domain s = Managed" "\<not> sleeping s"
  shows "(view s = ManagerD \<and> foreground_app s = None \<and> (\<forall>b. \<not> in_transit s b))
    \<or> (\<exists>a. view s = ForegroundD a \<and> foreground_app s = Some a \<and> (\<forall>b. \<not> in_transit s b))
    \<or> (\<exists>a. (view s = LaunchingD a \<or> view s = ParkingD a) \<and> foreground_app s = None
          \<and> (\<forall>b. in_transit s b \<longrightarrow> b = a))"
proof (rule view_cases [OF assms])
  fix a assume "foreground_app s = Some a" "\<And>b. \<not> in_transit s b" "view s = ForegroundD a"
  then show ?thesis by blast
next
  fix a assume "foreground_app s = None" "\<And>b. in_transit s b \<Longrightarrow> b = a"
    "view s = (if app_state s a = Some Starting then LaunchingD a else ParkingD a)"
  then show ?thesis by metis
next
  assume "foreground_app s = None" "\<And>b. \<not> in_transit s b" "view s = ManagerD"
  then show ?thesis by blast
qed

lemma view_inverse:
  assumes "supervisor_sound s" "single_flight s"
  shows "view s = ManagerD \<Longrightarrow> foreground_app s = None \<and> (\<forall>b. \<not> in_transit s b)"
    and "view s = ForegroundD a \<Longrightarrow> foreground_app s = Some a \<and> (\<forall>b. \<not> in_transit s b)"
    and "view s = LaunchingD a \<or> view s = ParkingD a \<Longrightarrow>
      foreground_app s = None \<and> (\<forall>b. in_transit s b \<longrightarrow> b = a)"
  using view_shape [OF assms] view_manager_is_managed [of s] view_app_is_managed [of s a]
  by (metis domain_state.distinct domain_state.inject)+

text \<open>The successor's view, for the two ways a call changes the active application.\<close>

lemma view_single:
  assumes "supervisor_sound t" "domain t = Managed" "\<not> sleeping t" "foreground_app t = None"
    and "app_state t = f(a \<mapsto> st)" and "\<And>b. b \<noteq> a \<Longrightarrow> f b \<noteq> Some Starting \<and> f b \<noteq> Some Stopping"
  shows "view t = (if st = Starting then LaunchingD a else if st = Stopping then ParkingD a else ManagerD)"
proof (cases "st = Starting \<or> st = Stopping")
  case True
  have "in_transit t b \<Longrightarrow> b = a" for b
    using assms(5,6) by (auto simp: in_transit_def split: if_splits)
  moreover have "in_transit t a" using True assms(5) by (auto simp: in_transit_def)
  ultimately have "view t = (if app_state t a = Some Starting then LaunchingD a else ParkingD a)"
    using view_transit [OF assms(1-4)] by blast
  with True assms(5) show ?thesis by auto
next
  case False
  have "\<not> in_transit t b" for b
    using False assms(5,6) by (auto simp: in_transit_def)
  moreover have "bt_ok (apps t)" using assms(1) by (simp add: supervisor_sound_def)
  ultimately show ?thesis using False view_manager [of t] assms(2-4) by auto
qed

lemma refines_start:
  assumes s: "supervisor_sound s" "single_flight s"
    and ok: "fst (exec (StartApp a g p) s) = Inr v" and v: "view s = ManagerD"
  shows "manager_apply (manager_of_supervisor s) (Launch a) = (Inr (), manager_of_supervisor (snd (exec (StartApp a g p) s)))"
proof -
  define t where t: "t = snd (exec (StartApp a g p) s)"
  note ran = start_app_ran [OF ok t]
  note idle = view_inverse(1) [OF s v]
  have "supervisor_sound t" using exec.keeps_sound [OF s(1) ok] t by simp
  then have "view t = LaunchingD a"
    using view_single [of t "app_state s" a Starting] ran idle by (auto simp: in_transit_def)
  then show ?thesis
    using exec.bumps [OF ok] v ran unfolding t [symmetric]
    by (intro apply_viewI) (auto simp: next_domain_def)
qed

lemma refines_stop:
  assumes s: "supervisor_sound s" "single_flight s" "last_follows s"
    and ok: "fst (exec (BeginStop a g) s) = Inr v" and v: "view s = ForegroundD a"
  shows "manager_apply (manager_of_supervisor s) SinglePower = (Inr (), manager_of_supervisor (snd (exec (BeginStop a g) s)))"
proof -
  define t where t: "t = snd (exec (BeginStop a g) s)"
  note ran = begin_stop_ran [OF ok t]
  have m: "domain s = Managed \<and> \<not> sleeping s" using v view_app_is_managed by blast
  note front = view_inverse(2) [OF s(1,2) v]
  have "supervisor_sound t" using exec.keeps_sound [OF s(1) ok] t by simp
  then have "view t = ParkingD a"
    using view_single [of t "app_state s" a Stopping] ran front m by (auto simp: in_transit_def)
  then show ?thesis
    using exec.bumps [OF ok] v ran front s(3) unfolding t [symmetric] last_follows_def
    by (intro apply_viewI) (auto simp: next_domain_def)
qed

lemma refines_finish:
  assumes s: "supervisor_sound s" "single_flight s"
    and ok: "fst (exec (FinishApp a g c e) s) = Inr v"
    and v: "view s = LaunchingD a \<or> view s = ForegroundD a \<or> view s = ParkingD a"
  shows "manager_apply (manager_of_supervisor s) (if c then AppCrashed a else AppExited a)
     = (Inr (), manager_of_supervisor (snd (exec (FinishApp a g c e) s)))"
proof -
  define t where t: "t = snd (exec (FinishApp a g c e) s)"
  note ran = finish_app_ran [OF ok t]
  have m: "domain s = Managed \<and> \<not> sleeping s" using v view_app_is_managed by blast
  have others: "\<forall>b. b \<noteq> a \<longrightarrow> \<not> in_transit s b" and fg: "foreground_app t = None"
    using view_inverse(2,3) [OF s, of a] v ran by auto
  have "supervisor_sound t" using exec.keeps_sound [OF s(1) ok] t by simp
  then have "view t = ManagerD"
    using view_single [of t "app_state s" a "if c then Crashed else Exited"] ran fg others m
    by (auto simp: in_transit_def split: if_splits)
  then show ?thesis
    using exec.bumps [OF ok] v ran unfolding t [symmetric]
    by (intro apply_viewI) (auto simp: next_domain_def)
qed

lemma refines_grant:
  assumes s: "supervisor_sound s"
    and ok: "fst (exec (GrantForeground a g e l) s) = Inr v" and v: "view s = LaunchingD a"
  shows "manager_apply (manager_of_supervisor s) (AppReady a) = (Inr (), manager_of_supervisor (snd (exec (GrantForeground a g e l) s)))"
proof -
  define t where t: "t = snd (exec (GrantForeground a g e l) s)"
  note ran = grant_foreground_ran [OF ok t]
  have "supervisor_sound t" using exec.keeps_sound [OF s(1) ok] t by simp
  then have "view t = ForegroundD a" using ran view_foreground by blast
  then show ?thesis
    using exec.bumps [OF ok] v ran unfolding t [symmetric]
    by (intro apply_viewI) (auto simp: next_domain_def)
qed

lemma refines_transition:
  assumes s: "supervisor_sound s"
    and ok: "fst (exec (TransitionDomain d) s) = Inr v" and tr: "v1_step (TransitionDomain d) s = Some tr"
  shows "manager_apply (manager_of_supervisor s) tr = (Inr (), manager_of_supervisor (snd (exec (TransitionDomain d) s)))"
proof -
  define t where t: "t = snd (exec (TransitionDomain d) s)"
  note ran = transition_domain_ran [OF ok t]
  have okm: "bt_ok (apps s)" using s by (simp add: supervisor_sound_def)
  have t_sound: "supervisor_sound t" using exec.keeps_sound [OF s(1) ok] t by simp
  have "next_domain (last_app s) (view s) tr = Some (view t) \<and> (\<forall>a. view t \<noteq> ForegroundD a \<and> view t \<noteq> ParkingD a)"
  proof (cases "d = Managed")
    case True
    with ran have d: "domain s = EnteringManaged" by (simp add: valid_domain_edge_def)
    then have idle: "\<not> sleeping t" "foreground_app t = None"
      using ran True s by (auto simp: supervisor_sound_def)
    from True tr have "\<not> (\<exists>a. in_transit s a)" and "tr = ManagedReady"
      using no_transit_list [OF okm] by (auto split: if_splits)
    moreover have "bt_ok (apps t)" using t_sound by (simp add: supervisor_sound_def)
    ultimately have "view t = ManagerD"
      using view_manager [of t] idle ran True by (auto simp: in_transit_def)
    with d \<open>tr = ManagedReady\<close> show ?thesis by (simp add: view_outside next_domain_def)
  next
    case False
    then have "view t = (case d of Stock \<Rightarrow> SystemD | EnteringManaged \<Rightarrow> EnteringManagedD
      | LeavingManaged \<Rightarrow> RestoringSystemD | _ \<Rightarrow> RecoveringD)"
      using ran by (simp add: view_outside)
    with False tr ran show ?thesis
      using view_outside [of s] by (auto simp: next_domain_def valid_domain_edge_def split: if_splits)
  qed
  then show ?thesis
    using exec.bumps [OF ok] ran unfolding t [symmetric]
    by (intro apply_viewI) (auto split: domain_state.splits)
qed

lemma refines_sleep:
  assumes s: "supervisor_sound s"
    and ok: "fst (exec (SetSleeping b) s) = Inr v" and tr: "v1_step (SetSleeping b) s = Some tr"
  shows "manager_apply (manager_of_supervisor s) tr = (Inr (), manager_of_supervisor (snd (exec (SetSleeping b) s)))"
proof -
  define t where t: "t = snd (exec (SetSleeping b) s)"
  note ran = set_sleeping_ran [OF ok t]
  have okm: "bt_ok (apps s)" using s by (simp add: supervisor_sound_def)
  have t_sound: "supervisor_sound t" using exec.keeps_sound [OF s(1) ok] t by simp
  then have okt: "bt_ok (apps t)" by (simp add: supervisor_sound_def)
  have "next_domain (last_app s) (view s) tr = Some (view t) \<and> (\<forall>a. view t \<noteq> ForegroundD a \<and> view t \<noteq> ParkingD a)"
  proof (cases b)
    case True
    with tr ran show ?thesis by (auto simp: view_sleeping next_domain_def split: if_splits)
  next
    case False
    with tr have sl: "sleeping s" and none: "\<not> (\<exists>a. in_transit s a)" and "tr = Wake"
      using no_transit_list [OF okm] by (auto split: if_splits)
    have "foreground_app s = None" using s sl by (simp add: supervisor_sound_def)
    then have "view t = ManagerD"
      using view_manager [OF okt] none ran False by (auto simp: in_transit_def)
    with sl ran \<open>tr = Wake\<close> show ?thesis by (simp add: view_sleeping next_domain_def)
  qed
  then show ?thesis
    using exec.bumps [OF ok] ran unfolding t [symmetric]
    by (intro apply_viewI) (auto split: domain_state.splits)
qed

section \<open>The properties\<close>

text \<open>A v1 state survives the way through v2 and back, and the v2 snapshot made of it is
  consistent, for every v1 state.\<close>

theorem v1_state_round_trips:
  "manager_of_supervisor (supervisor_of_manager m) = m
   \<and> supervisor_validate (supervisor_of_manager m) = Inr ()"
proof
  show "manager_of_supervisor (supervisor_of_manager m) = m"
    by (cases "mgr_domain m")
      (auto simp: supervisor_of_manager_def manager_of_supervisor_def active_instance_def
        legacy_instance_def supervisor_default_def Let_def)
  show "supervisor_validate (supervisor_of_manager m) = Inr ()"
    by (cases "mgr_domain m")
      (auto simp: supervisor_of_manager_def supervisor_validate_def legacy_instance_def
        app_instance_validate_def app_token_validate_def supervisor_default_def Let_def)
qed

text \<open>A v1 transition that is refused changes nothing, one that is accepted adds one to the
  sequence, and from any state a failure followed by the stock system's readiness ends in the
  stock domain.\<close>

lemma manager_apply_outcomes:
  "(fst (manager_apply m t) = Inr () \<and> mgr_sequence (snd (manager_apply m t)) = mgr_sequence m + 1
    \<or> fst (manager_apply m t) = Inl (TransitionError (mgr_domain m) t) \<and> snd (manager_apply m t) = m)
   \<and> mgr_domain (snd (manager_apply (snd (manager_apply m Failure)) SystemReady)) = SystemD"
  by (auto simp: manager_apply_def next_domain_def split: option.splits)


lemma one_record_in_transit: "apps s = [(a, i)] \<Longrightarrow> in_transit s b \<Longrightarrow> b = a"
  by (simp add: in_transit_def app_state_def split: if_splits)

lemma demo_single_flight: "single_flight demo_launching"
proof -
  have "apps demo_launching = [(demo_app, the (bt_get (apps demo_launching) demo_app))]"
    and fg: "foreground_app demo_launching = None" by code_simp+
  from one_record_in_transit [OF this(1)] fg show ?thesis by (auto simp: single_flight_def)
qed


end
