(* ===== verification/Power_Click.thy ===== *)
theory Power_Click
  imports Prelude
begin

text \<open>
  The power key: the click tracker (\<open>remagic-core/src/power.rs\<close>), the wake guard
  (\<open>remagicd/src/power_device/wake_guard.rs\<close>) and the input thread that drives both
  (\<open>remagicd/src/power_device.rs\<close>). An \<open>Instant\<close> is a number of nanoseconds on the monotonic clock;
  a reply channel is a number, and what the thread sends is part of its result.
\<close>

section \<open>The click tracker\<close>

type_synonym instant = int

definition ms :: "int \<Rightarrow> int" where
  "ms n = n * 1000000"

definition MULTI_CLICK_GAP :: int where
  "MULTI_CLICK_GAP = ms 800"

definition LONG_PRESS :: int where
  "LONG_PRESS = ms 3000"

text \<open>\<open>Instant::duration_since\<close> saturates at zero.\<close>

definition duration_since :: "instant \<Rightarrow> instant \<Rightarrow> int" where
  "duration_since now earlier = max 0 (now - earlier)"

datatype power_action = NoAction | Single | Triple | Long

record click_tracker =
  clicks :: u8
  deadline :: "instant option"
  down_since :: "instant option"
  suppress_release :: bool

definition click_tracker_default :: click_tracker where
  "click_tracker_default =
     \<lparr>clicks = 0, deadline = None, down_since = None, suppress_release = False\<rparr>"

definition earlier_of :: "instant option \<Rightarrow> instant option \<Rightarrow> instant option" where
  "earlier_of l r =
     (case (l, r) of
        (Some a, Some b) \<Rightarrow> Some (min a b)
      | (Some a, None) \<Rightarrow> Some a
      | (None, Some b) \<Rightarrow> Some b
      | (None, None) \<Rightarrow> None)"

definition tracker_next_deadline :: "click_tracker \<Rightarrow> instant option" where
  "tracker_next_deadline t =
     earlier_of (map_option (\<lambda>start. start + LONG_PRESS) (down_since t)) (deadline t)"

definition tracker_clear :: "click_tracker \<Rightarrow> click_tracker" where
  "tracker_clear t =
     t\<lparr>clicks := 0, deadline := None, down_since := None, suppress_release := False\<rparr>"

definition tracker_press :: "instant \<Rightarrow> click_tracker \<Rightarrow> click_tracker" where
  "tracker_press now t =
     (case down_since t of None \<Rightarrow> t\<lparr>down_since := Some now\<rparr> | Some _ \<Rightarrow> t)"

definition tracker_release :: "instant \<Rightarrow> click_tracker \<Rightarrow> power_action \<times> click_tracker" where
  "tracker_release now t =
     (if suppress_release t
      then (NoAction, t\<lparr>suppress_release := False, down_since := None\<rparr>)
      else
        (let t1 = t\<lparr>down_since := None\<rparr> in
         case down_since t of
           None \<Rightarrow> (NoAction, t1)
         | Some start \<Rightarrow>
             if LONG_PRESS \<le> duration_since now start then (Long, tracker_clear t1)
             else
               let t2 = (if (case deadline t1 of None \<Rightarrow> False | Some d \<Rightarrow> d < now)
                         then t1\<lparr>clicks := 0\<rparr> else t1);
                   t3 = t2\<lparr>clicks := sat_add (clicks t2) 1\<rparr>
               in if 3 \<le> clicks t3 then (Triple, tracker_clear t3)
                  else (NoAction, t3\<lparr>deadline := Some (now + MULTI_CLICK_GAP)\<rparr>)))"

definition tracker_poll :: "instant \<Rightarrow> click_tracker \<Rightarrow> power_action \<times> click_tracker" where
  "tracker_poll now t =
     (if (case down_since t of None \<Rightarrow> False | Some start \<Rightarrow> LONG_PRESS \<le> duration_since now start)
      then (Long, t\<lparr>clicks := 0, deadline := None, down_since := None, suppress_release := True\<rparr>)
      else if 0 < clicks t \<and> (case deadline t of None \<Rightarrow> False | Some d \<Rightarrow> d \<le> now)
      then (Single, tracker_clear t)
      else (NoAction, t))"

section \<open>The wake guard\<close>

definition WAKE_GUARD_QUIET :: int where
  "WAKE_GUARD_QUIET = ms 800"

record wake_gesture =
  power_key :: bool

record wake_guard =
  active :: bool
  resumed_at :: "instant option"
  last_event_at :: "instant option"
  key_down :: bool
  power_key_after_resume :: bool
  resume_reply :: "nat option"

definition wake_guard_default :: wake_guard where
  "wake_guard_default =
     \<lparr>active = False, resumed_at = None, last_event_at = None, key_down = False,
      power_key_after_resume = False, resume_reply = None\<rparr>"

text \<open>What the thread sends: a queued event, or an answer on a reply channel.\<close>

datatype power_event = UserActivity | SinglePower | TriplePower | LongPower

datatype sent =
    Queued power_event
  | Answer nat "string + unit"
  | Gesture nat "string + wake_gesture"

definition quiet_since :: "wake_guard \<Rightarrow> instant \<Rightarrow> instant" where
  "quiet_since g resumed =
     (case last_event_at g of
        None \<Rightarrow> resumed
      | Some event \<Rightarrow> if resumed < event then event else resumed)"

definition guard_next_deadline :: "wake_guard \<Rightarrow> instant option" where
  "guard_next_deadline g =
     (case resumed_at g of
        None \<Rightarrow> None
      | Some resumed \<Rightarrow>
          if key_down g then None else Some (quiet_since g resumed + WAKE_GUARD_QUIET))"

definition guard_arm :: "wake_guard \<Rightarrow> (string + unit) \<times> wake_guard" where
  "guard_arm g =
     (if active g then (Inl ''power wake guard is already armed'', g)
      else (Inr (), g\<lparr>active := True, resumed_at := None, last_event_at := None, key_down := False\<rparr>))"

definition guard_resume :: "instant \<Rightarrow> wake_guard \<Rightarrow> (string + unit) \<times> wake_guard" where
  "guard_resume now g =
     (if \<not> active g then (Inl ''power wake guard is not armed'', g)
      else if resumed_at g \<noteq> None then (Inl ''power wake guard was already resumed'', g)
      else (Inr (), g\<lparr>resumed_at := Some now\<rparr>))"

definition guard_resume_and_report :: "instant \<Rightarrow> nat \<Rightarrow> wake_guard \<Rightarrow> sent list \<times> wake_guard" where
  "guard_resume_and_report now reply g =
     (case guard_resume now g of
        (Inr _, g') \<Rightarrow> ([], g'\<lparr>resume_reply := Some reply\<rparr>)
      | (Inl e, g') \<Rightarrow> ([Gesture reply (Inl e)], g'))"

definition guard_consume :: "int \<Rightarrow> instant \<Rightarrow> wake_guard \<Rightarrow> bool \<times> wake_guard" where
  "guard_consume val now g =
     (if \<not> active g then (False, g)
      else
        let g1 = (if resumed_at g \<noteq> None \<and> (val = 0 \<or> val = 1)
                  then g\<lparr>power_key_after_resume := True\<rparr> else g)
        in if val = 1 then (True, g1\<lparr>key_down := True, last_event_at := Some now\<rparr>)
           else if val = 0 then (True, g1\<lparr>key_down := False, last_event_at := Some now\<rparr>)
           else (True, g1))"

definition guard_finish :: "wake_guard \<Rightarrow> sent list \<times> wake_guard" where
  "guard_finish g =
     ((case resume_reply g of
         None \<Rightarrow> []
       | Some r \<Rightarrow> [Gesture r (Inr \<lparr>power_key = power_key_after_resume g\<rparr>)]),
      wake_guard_default)"

definition guard_poll :: "instant \<Rightarrow> wake_guard \<Rightarrow> sent list \<times> wake_guard" where
  "guard_poll now g =
     (case resumed_at g of
        None \<Rightarrow> ([], g)
      | Some resumed \<Rightarrow>
          if key_down g then ([], g)
          else if WAKE_GUARD_QUIET \<le> duration_since now (quiet_since g resumed) then guard_finish g
          else ([], g))"

definition guard_cancel :: "wake_guard \<Rightarrow> sent list \<times> wake_guard" where
  "guard_cancel g =
     ((case resume_reply g of
         None \<Rightarrow> []
       | Some r \<Rightarrow> [Gesture r (Inl ''power wake guard was cancelled'')]),
      wake_guard_default)"

section \<open>The input thread\<close>

text \<open>The part of \<open>InputThread\<close> the power key concerns; \<open>interaction\<close> is the shared launch interrupt
  epoch. The \<open>ioctl\<close> of a grab and the reopening of the device are inputs: their outcome.\<close>

record input_thread =
  tracker :: click_tracker
  guard_st :: wake_guard
  grabbed :: bool
  interaction :: u64

definition input_thread_new :: "u64 \<Rightarrow> input_thread" where
  "input_thread_new epoch =
     \<lparr>tracker = click_tracker_default, guard_st = wake_guard_default, grabbed = False,
      interaction = epoch\<rparr>"

datatype thread_input =
    Grab bool nat "string + unit" "string + unit"
  | ArmWakeGuard nat
  | ResumeWakeGuard instant nat
  | CancelWakeGuard nat
  | PowerValue int instant
  | PollPendingClick instant

definition thread_next_deadline :: "input_thread \<Rightarrow> instant option" where
  "thread_next_deadline th =
     earlier_of (tracker_next_deadline (tracker th)) (guard_next_deadline (guard_st th))"

definition send_action :: "power_action \<Rightarrow> sent list" where
  "send_action a =
     (case a of NoAction \<Rightarrow> [] | Single \<Rightarrow> [Queued SinglePower] | Triple \<Rightarrow> [Queued TriplePower]
      | Long \<Rightarrow> [Queued LongPower])"

text \<open>\<open>set_grab\<close> does nothing when the device is in the wanted mode; a release that fails closes the
  device and opens it again, ungrabbed.\<close>

definition set_grab :: "bool \<Rightarrow> string + unit \<Rightarrow> bool \<Rightarrow> (string + unit) \<times> bool" where
  "set_grab grab ioctl held =
     (if held = grab then (Inr (), held)
      else case ioctl of Inr _ \<Rightarrow> (Inr (), grab) | Inl e \<Rightarrow> (Inl e, held))"

definition handle_grab ::
  "bool \<Rightarrow> nat \<Rightarrow> string + unit \<Rightarrow> string + unit \<Rightarrow> input_thread \<Rightarrow> sent list \<times> input_thread" where
  "handle_grab grab reply ioctl reopen th =
     (let (out, g) = guard_cancel (guard_st th);
          th1 = th\<lparr>tracker := tracker_clear (tracker th), guard_st := g\<rparr>
      in case set_grab grab ioctl (grabbed th) of
           (Inr _, held) \<Rightarrow> (out @ [Answer reply (Inr ())], th1\<lparr>grabbed := held\<rparr>)
         | (Inl e, held) \<Rightarrow>
             if \<not> grab then (out @ [Answer reply reopen], th1\<lparr>grabbed := False\<rparr>)
             else (out @ [Answer reply (Inl e)], th1\<lparr>grabbed := held\<rparr>))"

definition handle_arm_wake_guard :: "nat \<Rightarrow> input_thread \<Rightarrow> sent list \<times> input_thread" where
  "handle_arm_wake_guard reply th =
     (let th1 = th\<lparr>tracker := tracker_clear (tracker th)\<rparr> in
      if grabbed th then
        (let (r, g) = guard_arm (guard_st th) in ([Answer reply r], th1\<lparr>guard_st := g\<rparr>))
      else ([Answer reply (Inl ''cannot arm wake guard while the power key is not grabbed'')], th1))"

definition consume_wake_guard_event :: "int \<Rightarrow> instant \<Rightarrow> input_thread \<Rightarrow> bool \<times> input_thread" where
  "consume_wake_guard_event val now th =
     (let armed = (active (guard_st th) \<and> resumed_at (guard_st th) = None);
          th1 = (if armed \<and> val = 1 then th\<lparr>interaction := interaction th + 1\<rparr> else th);
          (taken, g) = guard_consume val now (guard_st th)
      in (taken, th1\<lparr>guard_st := g\<rparr>))"

definition track_power_value :: "int \<Rightarrow> instant \<Rightarrow> input_thread \<Rightarrow> sent list \<times> power_action \<times> input_thread" where
  "track_power_value val now th =
     (if val = 1 then
        ([Queued UserActivity], NoAction,
         th\<lparr>interaction := interaction th + 1, tracker := tracker_press now (tracker th)\<rparr>)
      else if val = 0 then
        (let (a, t) = tracker_release now (tracker th) in ([], a, th\<lparr>tracker := t\<rparr>))
      else ([], NoAction, th))"

text \<open>One value of the loop in \<open>handle_power_events\<close>; \<open>drain\<close> keeps the values 0 and 1.\<close>

definition handle_power_value :: "int \<Rightarrow> instant \<Rightarrow> input_thread \<Rightarrow> sent list \<times> input_thread" where
  "handle_power_value val now th =
     (let (taken, th1) = consume_wake_guard_event val now th in
      if taken then ([], th1)
      else let (out, a, th2) = track_power_value val now th1 in (out @ send_action a, th2))"

definition poll_pending_click :: "instant \<Rightarrow> input_thread \<Rightarrow> sent list \<times> input_thread" where
  "poll_pending_click now th =
     (let (out, g) = guard_poll now (guard_st th) in
      if active g then (out, th\<lparr>guard_st := g\<rparr>)
      else let (a, t) = tracker_poll now (tracker th)
           in (out @ send_action a, th\<lparr>guard_st := g, tracker := t\<rparr>))"

fun thread_step :: "thread_input \<Rightarrow> input_thread \<Rightarrow> sent list \<times> input_thread" where
  "thread_step (Grab grab reply ioctl reopen) th = handle_grab grab reply ioctl reopen th"
| "thread_step (ArmWakeGuard reply) th = handle_arm_wake_guard reply th"
| "thread_step (ResumeWakeGuard now reply) th =
     (let (out, g) = guard_resume_and_report now reply (guard_st th) in (out, th\<lparr>guard_st := g\<rparr>))"
| "thread_step (CancelWakeGuard reply) th =
     (let (out, g) = guard_cancel (guard_st th)
      in (out @ [Answer reply (Inr ())], th\<lparr>tracker := tracker_clear (tracker th), guard_st := g\<rparr>))"
| "thread_step (PowerValue val now) th =
     (if val = 0 \<or> val = 1 then handle_power_value val now th else ([], th))"
| "thread_step (PollPendingClick now) th = poll_pending_click now th"

fun thread_run :: "thread_input list \<Rightarrow> input_thread \<Rightarrow> sent list \<times> input_thread" where
  "thread_run [] th = ([], th)"
| "thread_run (i # is) th =
     (let (out, th1) = thread_step i th; (rest, th2) = thread_run is th1 in (out @ rest, th2))"

section \<open>Deadlines\<close>

text \<open>What the input loop relies on: a component names the time of its next timed action, and polling
  it acts exactly when that time has come.\<close>

locale timed =
  fixes due :: "'s \<Rightarrow> instant option"
    and fires :: "instant \<Rightarrow> 's \<Rightarrow> bool"
    and ok :: "'s \<Rightarrow> bool"
  assumes exact: "ok s \<Longrightarrow> fires now s \<longleftrightarrow> (\<exists>d. due s = Some d \<and> d \<le> now)"
begin

lemma silent_before: "ok s \<Longrightarrow> due s = Some d \<Longrightarrow> now < d \<Longrightarrow> \<not> fires now s"
  by (simp add: exact)

lemma fires_from: "ok s \<Longrightarrow> due s = Some d \<Longrightarrow> d \<le> now \<Longrightarrow> fires now s"
  by (simp add: exact)

lemma silent_forever: "ok s \<Longrightarrow> due s = None \<Longrightarrow> \<not> fires now s"
  by (simp add: exact)

end

lemma due_earlier_of:
  "(\<exists>d. earlier_of l r = Some d \<and> d \<le> now) \<longleftrightarrow>
     (\<exists>d. l = Some d \<and> d \<le> now) \<or> (\<exists>d. r = Some d \<and> d \<le> now)"
  by (cases l; cases r) (auto simp: earlier_of_def min_le_iff_disj)

text \<open>The invariants: pending clicks have a deadline, a guard that is not active is in its default
  state, and while the guard is active the tracker is idle.\<close>

definition tracker_ok :: "click_tracker \<Rightarrow> bool" where
  "tracker_ok t \<longleftrightarrow> clicks t < 3 \<and> (clicks t = 0 \<longleftrightarrow> deadline t = None)"

definition guard_ok :: "wake_guard \<Rightarrow> bool" where
  "guard_ok g \<longleftrightarrow>
     (active g \<or> g = wake_guard_default)
     \<and> (if resumed_at g = None then resume_reply g = None \<and> \<not> power_key_after_resume g
        else resume_reply g \<noteq> None)"

definition thread_ok :: "input_thread \<Rightarrow> bool" where
  "thread_ok th \<longleftrightarrow>
     tracker_ok (tracker th) \<and> guard_ok (guard_st th)
     \<and> (active (guard_st th) \<longrightarrow> tracker th = click_tracker_default \<and> grabbed th)"

lemmas tracker_defs = tracker_press_def tracker_release_def tracker_poll_def tracker_clear_def

lemmas guard_defs = guard_arm_def guard_resume_def guard_resume_and_report_def guard_consume_def
  guard_finish_def guard_poll_def guard_cancel_def

lemma long_iff: "LONG_PRESS \<le> duration_since now start \<longleftrightarrow> start + LONG_PRESS \<le> now"
  by (auto simp: duration_since_def LONG_PRESS_def ms_def)

lemma quiet_iff: "WAKE_GUARD_QUIET \<le> duration_since now q \<longleftrightarrow> q + WAKE_GUARD_QUIET \<le> now"
  by (auto simp: duration_since_def WAKE_GUARD_QUIET_def ms_def)

lemma small_clicks: "(n :: u8) < 3 \<longleftrightarrow> n = 0 \<or> n = 1 \<or> n = 2"
proof -
  have "n < 3 \<longleftrightarrow> unat n < 3" by (simp add: word_less_nat_alt)
  also have "\<dots> \<longleftrightarrow> unat n = 0 \<or> unat n = 1 \<or> unat n = 2" by linarith
  finally show ?thesis by (simp add: word_unat_eq_iff)
qed

lemma clicks_plus: "n = 0 \<or> n = 1 \<or> n = 2 \<Longrightarrow> sat_add (n :: u8) 1 = n + 1"
  by (auto simp: sat_add_def)

lemma tracker_clear_default [simp]: "tracker_clear t = click_tracker_default"
  by (simp add: tracker_clear_def click_tracker_default_def)

interpretation click: timed tracker_next_deadline "\<lambda>now t. fst (tracker_poll now t) \<noteq> NoAction" tracker_ok
proof
  fix t now assume ok: "tracker_ok t"
  then have "0 < clicks t \<longleftrightarrow> deadline t \<noteq> None" by (simp add: tracker_ok_def word_gt_0)
  then show "fst (tracker_poll now t) \<noteq> NoAction \<longleftrightarrow> (\<exists>d. tracker_next_deadline t = Some d \<and> d \<le> now)"
    unfolding tracker_next_deadline_def due_earlier_of
    by (auto simp: tracker_poll_def long_iff split: option.splits if_splits)
qed

interpretation guard: timed guard_next_deadline "\<lambda>now g. fst (guard_poll now g) \<noteq> []" guard_ok
  by unfold_locales
    (auto simp: guard_next_deadline_def guard_poll_def guard_finish_def guard_ok_def quiet_iff
      split: option.splits)

lemma tracker_default_idle [simp]:
  "tracker_next_deadline click_tracker_default = None"
  "tracker_poll now click_tracker_default = (NoAction, click_tracker_default)"
  "tracker_ok click_tracker_default"
  by (simp_all add: tracker_next_deadline_def tracker_poll_def click_tracker_default_def
      earlier_of_def tracker_ok_def)

lemma guard_default_idle [simp]:
  "guard_next_deadline wake_guard_default = None" "guard_ok wake_guard_default"
  "\<not> active wake_guard_default"
  by (simp_all add: guard_next_deadline_def wake_guard_default_def guard_ok_def)

lemma send_action_Nil [simp]: "send_action a = [] \<longleftrightarrow> a = NoAction"
  by (cases a) (simp_all add: send_action_def)

interpretation thread: timed thread_next_deadline "\<lambda>now th. fst (poll_pending_click now th) \<noteq> []" thread_ok
proof
  fix th now assume ok: "thread_ok th"
  then have g: "guard_ok (guard_st th)" and t: "tracker_ok (tracker th)" by (simp_all add: thread_ok_def)
  have "fst (poll_pending_click now th) \<noteq> [] \<longleftrightarrow>
      fst (guard_poll now (guard_st th)) \<noteq> [] \<or> fst (tracker_poll now (tracker th)) \<noteq> NoAction"
  proof (cases "active (guard_st th)")
    case True
    with ok have "tracker th = click_tracker_default" by (simp add: thread_ok_def)
    then show ?thesis by (auto simp: poll_pending_click_def split: prod.splits)
  next
    case False
    with g have "guard_st th = wake_guard_default" by (simp add: guard_ok_def)
    then show ?thesis
      by (auto simp: poll_pending_click_def guard_poll_def wake_guard_default_def split: prod.splits)
  qed
  then show "fst (poll_pending_click now th) \<noteq> [] \<longleftrightarrow> (\<exists>d. thread_next_deadline th = Some d \<and> d \<le> now)"
    unfolding thread_next_deadline_def due_earlier_of click.exact [OF t] guard.exact [OF g] by blast
qed

section \<open>The invariant\<close>

lemma tracker_ok_press [simp]: "tracker_ok t \<Longrightarrow> tracker_ok (tracker_press now t)"
  by (simp add: tracker_press_def tracker_ok_def split: option.splits)

lemma tracker_ok_poll [simp]: "tracker_ok t \<Longrightarrow> tracker_ok (snd (tracker_poll now t))"
  by (auto simp: tracker_poll_def tracker_ok_def click_tracker_default_def)

lemma tracker_ok_release [simp]: "tracker_ok t \<Longrightarrow> tracker_ok (snd (tracker_release now t))"
proof -
  assume ok: "tracker_ok t"
  have less: "\<not> 3 \<le> n + 1 \<Longrightarrow> n = 0 \<or> n = 1 \<or> n = 2 \<Longrightarrow> n + 1 < 3 \<and> n + 1 \<noteq> 0" for n :: u8
    by auto
  from ok have "clicks t < 3" by (simp add: tracker_ok_def)
  then have n: "clicks t = 0 \<or> clicks t = 1 \<or> clicks t = 2" by (simp only: small_clicks)
  show ?thesis
    using ok n
    by (auto simp: tracker_release_def Let_def tracker_ok_def clicks_plus click_tracker_default_def
        sat_add_def split: option.splits if_splits)
qed

lemma guard_ok_poll [simp]: "guard_ok g \<Longrightarrow> guard_ok (snd (guard_poll now g))"
  by (simp add: guard_poll_def guard_finish_def split: option.splits)

lemma guard_ok_arm [simp]: "guard_ok g \<Longrightarrow> guard_ok (snd (guard_arm g))"
  by (auto simp: guard_arm_def guard_ok_def wake_guard_default_def)

lemma guard_ok_resume [simp]: "guard_ok g \<Longrightarrow> guard_ok (snd (guard_resume_and_report now r g))"
  by (auto simp: guard_resume_and_report_def guard_resume_def guard_ok_def wake_guard_default_def)

lemma guard_ok_consume [simp]: "guard_ok g \<Longrightarrow> guard_ok (snd (guard_consume v now g))"
  by (auto simp: guard_consume_def guard_ok_def Let_def)

lemma guard_ok_cancel [simp]: "guard_ok (snd (guard_cancel g))" "\<not> active (snd (guard_cancel g))"
  by (simp_all add: guard_cancel_def)

lemma guard_active:
  "active (snd (guard_consume v now g)) = active g" "fst (guard_consume v now g) = active g"
  "active (snd (guard_resume_and_report now r g)) = active g"
  "active (snd (guard_poll now g)) \<Longrightarrow> active g"
  by (auto simp: guard_defs Let_def split: option.splits if_splits)

lemma thread_ok_step: "thread_ok th \<Longrightarrow> thread_ok (snd (thread_step i th))"
proof (cases i)
  case (Grab grab reply ioctl reopen)
  assume "thread_ok th"
  with Grab show ?thesis
    by (auto simp: handle_grab_def set_grab_def thread_ok_def guard_cancel_def prod.case_eq_if split: sum.splits)
next
  case (ArmWakeGuard reply)
  assume "thread_ok th"
  with ArmWakeGuard guard_ok_arm [of "guard_st th"] show ?thesis
    by (auto simp: handle_arm_wake_guard_def thread_ok_def Let_def prod.case_eq_if)
next
  case (ResumeWakeGuard now reply)
  assume "thread_ok th"
  with ResumeWakeGuard guard_ok_resume [of "guard_st th" now reply] guard_active(3) [of now reply "guard_st th"]
  show ?thesis by (auto simp: thread_ok_def prod.case_eq_if)
next
  case (CancelWakeGuard reply)
  assume "thread_ok th"
  with CancelWakeGuard show ?thesis by (auto simp: thread_ok_def guard_cancel_def)
next
  case (PowerValue v now)
  assume ok: "thread_ok th"
  from ok have "guard_ok (snd (guard_consume v now (guard_st th)))" by (simp add: thread_ok_def)
  with ok PowerValue guard_active(1,2) [of v now "guard_st th"] tracker_ok_release [of "tracker th" now]
  show ?thesis
    by (auto simp: handle_power_value_def consume_wake_guard_event_def track_power_value_def thread_ok_def Let_def
        prod.case_eq_if)
next
  case (PollPendingClick now)
  assume ok: "thread_ok th"
  from ok have "guard_ok (snd (guard_poll now (guard_st th)))" by (simp add: thread_ok_def)
  with ok PollPendingClick guard_active(4) [of now "guard_st th"] tracker_ok_poll [of "tracker th" now]
  show ?thesis by (auto simp: poll_pending_click_def thread_ok_def prod.case_eq_if)
qed

lemma thread_ok_run: "thread_ok th \<Longrightarrow> thread_ok (snd (thread_run is th))"
proof (induction "is" arbitrary: th)
  case (Cons i "is")
  from Cons.IH [OF thread_ok_step [OF Cons.prems, of i]] show ?case
    by (auto simp: prod.case_eq_if Let_def)
qed simp

lemma thread_ok_new: "thread_ok (input_thread_new e)"
  by (simp add: thread_ok_def input_thread_new_def)

section \<open>Clicks\<close>

definition click_once :: "instant \<times> instant \<Rightarrow> click_tracker \<Rightarrow> power_action \<times> click_tracker" where
  "click_once c t = tracker_release (snd c) (tracker_press (fst c) t)"

fun click_train :: "(instant \<times> instant) list \<Rightarrow> click_tracker \<Rightarrow> power_action list \<times> click_tracker" where
  "click_train [] t = ([], t)"
| "click_train (c # cs) t =
     (let (a, t1) = click_once c t; (rest, t2) = click_train cs t1 in (a # rest, t2))"

text \<open>Short presses, each released within the gap after the release before it.\<close>

fun quick_clicks :: "instant option \<Rightarrow> (instant \<times> instant) list \<Rightarrow> bool" where
  "quick_clicks prev [] = True"
| "quick_clicks prev ((p, r) # cs) =
     (duration_since r p < LONG_PRESS
      \<and> (case prev of None \<Rightarrow> True | Some q \<Rightarrow> r \<le> q + MULTI_CLICK_GAP) \<and> quick_clicks (Some r) cs)"

definition waiting :: "nat \<Rightarrow> instant option \<Rightarrow> click_tracker" where
  "waiting n prev =
     \<lparr>clicks = of_nat n,
      deadline = (if n = 0 then None else map_option (\<lambda>q. q + MULTI_CLICK_GAP) prev),
      down_since = None, suppress_release = False\<rparr>"

lemma click_once_waiting:
  assumes "n < 3" "n = 0 \<or> prev \<noteq> None" "duration_since r p < LONG_PRESS"
    and "case prev of None \<Rightarrow> True | Some q \<Rightarrow> r \<le> q + MULTI_CLICK_GAP"
  shows "click_once (p, r) (waiting n prev) =
     (if n = 2 then Triple else NoAction, waiting (Suc n mod 3) (Some r))"
proof -
  from assms(1) consider "n = 0" | "n = 1" | "n = 2" by linarith
  then show ?thesis
    using assms(2-4)
    by cases
      (auto simp: click_once_def tracker_press_def tracker_release_def waiting_def Let_def
        click_tracker_default_def sat_add_def not_le split: option.splits)
qed

lemma click_train_waiting:
  assumes "n < 3" "n = 0 \<or> prev \<noteq> None" "quick_clicks prev cs"
  shows "click_train cs (waiting n prev) =
     (map (\<lambda>i. if (n + i + 1) mod 3 = 0 then Triple else NoAction) [0..<length cs],
      waiting ((n + length cs) mod 3) (if cs = [] then prev else Some (snd (last cs))))"
  using assms
proof (induction cs arbitrary: n prev)
  case (Cons c cs)
  obtain p r where c: "c = (p, r)" by (cases c)
  note once = click_once_waiting [OF Cons.prems(1,2), of r p]
  have step: "click_once c (waiting n prev) =
      (if n = 2 then Triple else NoAction, waiting (Suc n mod 3) (Some r))"
    using once Cons.prems(3) c by simp
  have IH: "click_train cs (waiting (Suc n mod 3) (Some r)) =
      (map (\<lambda>i. if (Suc n mod 3 + i + 1) mod 3 = 0 then Triple else NoAction) [0..<length cs],
       waiting ((Suc n mod 3 + length cs) mod 3) (if cs = [] then Some r else Some (snd (last cs))))"
    using Cons.prems(3) c by (intro Cons.IH) auto
  have shift: "(Suc n mod 3 + i + 1) mod 3 = (n + Suc i + 1) mod 3" for i
    by (metis add_Suc_shift add_Suc mod_add_left_eq)
  have first: "n = 2 \<longleftrightarrow> (n + 0 + 1) mod 3 = 0"
  proof -
    from Cons.prems(1) consider "n = 0" | "n = 1" | "n = 2" by linarith
    then show ?thesis by cases auto
  qed
  have len: "(Suc n mod 3 + length cs) mod 3 = (n + length (c # cs)) mod 3"
    by (simp add: mod_add_left_eq)
  have upt: "map f [0..<length (c # cs)] = f 0 # map (\<lambda>i. f (Suc i)) [0..<length cs]"
    for f :: "nat \<Rightarrow> power_action"
    by (simp add: upt_conv_Cons map_Suc_upt [symmetric] del: upt_Suc)
  show ?case
    unfolding click_train.simps step upt prod.case Let_def IH shift len
    using first c by (simp split: if_splits)
qed (simp add: waiting_def)

section \<open>The properties\<close>

text \<open>C29: the input loop sleeps until \<open>next_deadline\<close>, and that is exact: in every state the thread
  can be in, polling sends something if and only if the deadline has come, so no click, long press or
  wake gesture is reported late for want of a wake-up and none of the wake-ups is idle.\<close>

theorem input_thread_wakes_exactly_when_due:
  "fst (poll_pending_click now (snd (thread_run is (input_thread_new e)))) \<noteq> [] \<longleftrightarrow>
     (\<exists>d. thread_next_deadline (snd (thread_run is (input_thread_new e))) = Some d \<and> d \<le> now)"
  by (rule thread.exact [OF thread_ok_run [OF thread_ok_new]])

text \<open>C30: in a train of short clicks, each within the gap after the one before, exactly every third
  release is the triple action and the others are silent; what is left over becomes one single action
  once the gap after the last release has passed, and not before.\<close>

theorem click_train_counts_triples:
  assumes "quick_clicks None cs"
  shows "fst (click_train cs click_tracker_default) =
      map (\<lambda>i. if Suc i mod 3 = 0 then Triple else NoAction) [0..<length cs]
    \<and> fst (tracker_poll now (snd (click_train cs click_tracker_default))) =
      (if length cs mod 3 \<noteq> 0 \<and> snd (last cs) + MULTI_CLICK_GAP \<le> now then Single else NoAction)"
proof (rule conjI)
  have start: "click_tracker_default = waiting 0 None"
    by (simp add: waiting_def click_tracker_default_def)
  note train = click_train_waiting [of 0 None cs, OF _ _ assms]
  show "fst (click_train cs click_tracker_default) =
      map (\<lambda>i. if Suc i mod 3 = 0 then Triple else NoAction) [0..<length cs]"
    unfolding start using train by simp
  have "(0 :: u8) < of_nat n \<longleftrightarrow> n \<noteq> 0" if "n < 3" for n
  proof -
    from that consider "n = 0" | "n = 1" | "n = 2" by linarith
    then show ?thesis by cases auto
  qed
  from this [of "length cs mod 3"]
  show "fst (tracker_poll now (snd (click_train cs click_tracker_default))) =
      (if length cs mod 3 \<noteq> 0 \<and> snd (last cs) + MULTI_CLICK_GAP \<le> now then Single else NoAction)"
    unfolding start using train by (auto simp: tracker_poll_def waiting_def)
qed

theorem click_train_counts_triples_witness:
  "fst (click_train [(0, ms 100), (ms 300, ms 400), (ms 600, ms 700), (ms 900, ms 950)] click_tracker_default)
     = [NoAction, NoAction, Triple, NoAction]"
proof -
  have "quick_clicks None [(0, ms 100), (ms 300, ms 400), (ms 600, ms 700), (ms 900, ms 950)]" by code_simp
  from click_train_counts_triples [OF this] show ?thesis by (simp add: upt_rec)
qed

text \<open>A press held long enough is reported once, by the poll that finds it, and consumes its
  release: later polls and the release that ends it are silent and leave the tracker idle, so the
  long press is never followed by a late single click.\<close>

theorem long_press_fires_once:
  assumes "fst (tracker_poll now t) = Long"
  shows "tracker_poll later (snd (tracker_poll now t)) = (NoAction, snd (tracker_poll now t))
    \<and> tracker_release later (snd (tracker_poll now t)) = (NoAction, click_tracker_default)"
  using assms
  by (auto simp: tracker_poll_def tracker_release_def click_tracker_default_def split: if_splits option.splits)

theorem long_press_fires_once_witness:
  "tracker_release (ms 3600) (snd (tracker_poll (ms 3500) (tracker_press (ms 100) click_tracker_default)))
     = (NoAction, click_tracker_default)"
proof -
  have "fst (tracker_poll (ms 3500) (tracker_press (ms 100) click_tracker_default)) = Long" by code_simp
  then show ?thesis using long_press_fires_once by blast
qed

definition key_values :: "(int \<times> instant) list \<Rightarrow> thread_input list" where
  "key_values vs = map (\<lambda>(v, t). PowerValue v t) vs"

lemma key_values_guarded:
  assumes "active (guard_st th)" "resumed_at (guard_st th) = Some t0"
  shows "fst (thread_run (key_values vs) th) = []
    \<and> tracker (snd (thread_run (key_values vs) th)) = tracker th
    \<and> active (guard_st (snd (thread_run (key_values vs) th)))
    \<and> resumed_at (guard_st (snd (thread_run (key_values vs) th))) = Some t0
    \<and> resume_reply (guard_st (snd (thread_run (key_values vs) th))) = resume_reply (guard_st th)
    \<and> power_key_after_resume (guard_st (snd (thread_run (key_values vs) th))) =
        (power_key_after_resume (guard_st th) \<or> (\<exists>(v, t) \<in> set vs. v = 0 \<or> v = 1))"
  using assms
proof (induction vs arbitrary: th)
  case (Cons vt vs)
  obtain v t where vt: "vt = (v, t)" by (cases vt)
  define u where u: "u = snd (thread_step (PowerValue v t) th)"
  have step: "thread_step (PowerValue v t) th = ([], u)" "tracker u = tracker th" "active (guard_st u)"
    "resumed_at (guard_st u) = Some t0" "resume_reply (guard_st u) = resume_reply (guard_st th)"
    "power_key_after_resume (guard_st u) = (power_key_after_resume (guard_st th) \<or> v = 0 \<or> v = 1)"
    using Cons.prems unfolding u
    by (auto simp: handle_power_value_def consume_wake_guard_event_def guard_consume_def Let_def)
  have run: "thread_run (key_values (vt # vs)) th = thread_run (key_values vs) u"
    using step(1) by (simp add: key_values_def vt)
  show ?case unfolding run using Cons.IH [OF step(3,4)] step(2,5,6) vt by auto
qed (simp add: key_values_def)

text \<open>The key gesture that wakes the device is never a click: from the moment the guard is told of
  the resume until it finishes, whatever the key does sends nothing and leaves the click tracker idle,
  and the one answer the guard sends says truthfully whether the power key took part.\<close>

theorem wake_gesture_is_swallowed:
  assumes "th = snd (thread_run is (input_thread_new e))"
    and "active (guard_st th)" "resumed_at (guard_st th) = None"
    and "th' = snd (thread_run (ResumeWakeGuard t0 r # key_values vs) th)"
  shows "fst (thread_run (ResumeWakeGuard t0 r # key_values vs) th) = []
    \<and> tracker th' = click_tracker_default
    \<and> fst (poll_pending_click now th') \<in>
      {[], [Gesture r (Inr \<lparr>power_key = (\<exists>(v, t) \<in> set vs. v = 0 \<or> v = 1)\<rparr>)]}"
proof (intro conjI)
  have ok: "thread_ok th" unfolding assms(1) by (rule thread_ok_run [OF thread_ok_new])
  define u where u: "u = snd (thread_step (ResumeWakeGuard t0 r) th)"
  have step: "thread_step (ResumeWakeGuard t0 r) th = ([], u)" "active (guard_st u)"
    "resumed_at (guard_st u) = Some t0" "resume_reply (guard_st u) = Some r"
    "tracker u = click_tracker_default" "\<not> power_key_after_resume (guard_st u)"
    using ok assms(2,3) unfolding u
    by (auto simp: guard_resume_and_report_def guard_resume_def thread_ok_def guard_ok_def)
  have run: "thread_run (ResumeWakeGuard t0 r # key_values vs) th = thread_run (key_values vs) u"
    by (simp only: thread_run.simps step(1)) (simp add: prod.case_eq_if)
  note keys = key_values_guarded [OF step(2,3), of vs]
  show "fst (thread_run (ResumeWakeGuard t0 r # key_values vs) th) = []"
    and idle: "tracker th' = click_tracker_default"
    unfolding assms(4) run using keys step(5) by simp_all
  show "fst (poll_pending_click now th') \<in>
      {[], [Gesture r (Inr \<lparr>power_key = (\<exists>(v, t) \<in> set vs. v = 0 \<or> v = 1)\<rparr>)]}"
    using keys step(4-6) idle unfolding assms(4) run
    by (auto simp: poll_pending_click_def guard_poll_def guard_finish_def)
qed

definition demo_armed :: "thread_input list" where
  "demo_armed = [Grab True 1 (Inr ()) (Inr ()), ArmWakeGuard 2]"

theorem wake_gesture_is_swallowed_witness:
  "fst (thread_run (ResumeWakeGuard 0 3 # key_values [(1, ms 20), (0, ms 90)])
     (snd (thread_run demo_armed (input_thread_new 5)))) = []"
proof -
  have "active (guard_st (snd (thread_run demo_armed (input_thread_new 5))))"
    "resumed_at (guard_st (snd (thread_run demo_armed (input_thread_new 5)))) = None" by code_simp+
  from wake_gesture_is_swallowed [OF refl this refl] show ?thesis by blast
qed

end
