(* ===== verification/Power_Policy.thy ===== *)
theory Power_Policy
  imports Identity Ordered_Map Power_Click
begin

text \<open>
  The power policy: settings, work classes and the observable state
  (\<open>remagic-core/src/power_policy.rs\<close>) and the manager that owns the idle clock and the finite work
  leases (\<open>remagicd/src/power_manager.rs\<close>). Every method takes the times and the files it reads as
  arguments. The methods run under the runtime mutex; each is one step here.
\<close>

section \<open>Policy data\<close>

definition DEFAULT_IDLE_SUSPEND_SECS :: u64 where "DEFAULT_IDLE_SUSPEND_SECS = 120"
definition MIN_IDLE_SUSPEND_SECS :: u64 where "MIN_IDLE_SUSPEND_SECS = 60"
definition MAX_IDLE_SUSPEND_SECS :: u64 where "MAX_IDLE_SUSPEND_SECS = 30 * 60"

datatype power_phase = Awake | Quiescing | Suspended | Resuming | ExternallyBlocked

datatype presentation_state = NoSurface | Home | ForegroundApp app_id | Lock

datatype workload_state = Idle | Interactive | ScheduledJob | Maintenance

datatype work_class =
  AgentTurn | Ocr | FileTransfer | PackageTransaction | StorageCommit | DisplayCommit

definition maximum_lease_ms :: "work_class \<Rightarrow> u64" where
  "maximum_lease_ms c =
     (case c of
        AgentTurn \<Rightarrow> 180000
      | Ocr \<Rightarrow> 180000
      | FileTransfer \<Rightarrow> 30000
      | PackageTransaction \<Rightarrow> 15 * 60000
      | StorageCommit \<Rightarrow> 10000
      | DisplayCommit \<Rightarrow> 10000)"

record power_settings =
  schema :: u32
  idle_suspend_secs :: u64

definition power_settings_default :: power_settings where
  "power_settings_default = \<lparr>schema = 1, idle_suspend_secs = DEFAULT_IDLE_SUSPEND_SECS\<rparr>"

definition power_settings_validate :: "power_settings \<Rightarrow> string + unit" where
  "power_settings_validate s =
     chk (guard (schema s \<noteq> 1) (''unsupported power settings schema '' @ decimal (uint (schema s))))
         (guard (idle_suspend_secs s \<noteq> 0
                 \<and> \<not> (MIN_IDLE_SUSPEND_SECS \<le> idle_suspend_secs s \<and> idle_suspend_secs s \<le> MAX_IDLE_SUSPEND_SECS))
                (''idle suspension must be disabled or between '' @ decimal (uint MIN_IDLE_SUSPEND_SECS)
                 @ '' and '' @ decimal (uint MAX_IDLE_SUSPEND_SECS) @ '' seconds''))"

record resource_lease =
  lease_no :: u64
  owner :: app_id
  work :: work_class
  reason :: string
  expires_at_unix_ms :: u64

record power_snapshot =
  snap_phase :: power_phase
  snap_presentation :: presentation_state
  snap_workload :: workload_state
  snap_idle_suspend_secs :: u64
  snap_idle_deadline_unix_ms :: "u64 option"
  snap_wake_lock_owners :: "string list"
  snap_active_leases :: "resource_lease list"
  snap_next_wake_unix_ms :: "u64 option"
  snap_suspend_successes :: u64
  snap_last_wake_reason :: "string option"
  snap_external_blocker :: "string option"

section \<open>The manager\<close>

record lease_record =
  public :: resource_lease
  expires_at :: instant

record runtime_state =
  phase :: power_phase
  presentation :: presentation_state
  workload :: workload_state
  last_activity :: instant
  last_activity_unix_ms :: u64
  leases :: "(u64, lease_record) btree"
  next_wake_unix_ms :: "u64 option"
  last_wake_reason :: "string option"
  external_blocker :: "string option"

record power_manager =
  settings :: power_settings
  runtime :: runtime_state
  managed :: bool
  activity_revision :: u64
  next_lease :: u64

text \<open>\<open>settings::load\<close>: the file's contents and the TOML parser are arguments; a missing file is the
  default, and a file that cannot be used is replaced by the default by the caller.\<close>

datatype read_failure = NotFound | OtherFailure string

definition settings_load ::
  "string \<Rightarrow> read_failure + string \<Rightarrow> (string \<Rightarrow> string + power_settings) \<Rightarrow> string + power_settings" where
  "settings_load path contents toml_parse =
     (case contents of
        Inl NotFound \<Rightarrow> Inr power_settings_default
      | Inl (OtherFailure e) \<Rightarrow> Inl (''cannot read '' @ path @ '': '' @ e)
      | Inr txt \<Rightarrow>
          res_bind (map_err (\<lambda>e. ''cannot parse '' @ path @ '': '' @ e) (toml_parse txt)) (\<lambda>s.
          chk (power_settings_validate s) (Inr s)))"

definition power_manager_load ::
  "string \<Rightarrow> read_failure + string \<Rightarrow> (string \<Rightarrow> string + power_settings) \<Rightarrow> instant \<Rightarrow> u64 \<Rightarrow> power_manager" where
  "power_manager_load path contents toml_parse now unix =
     \<lparr>settings = (case settings_load path contents toml_parse of
                    Inl _ \<Rightarrow> power_settings_default | Inr s \<Rightarrow> s),
      runtime = \<lparr>phase = Awake, presentation = NoSurface, workload = Idle, last_activity = now,
                 last_activity_unix_ms = unix, leases = [], next_wake_unix_ms = None,
                 last_wake_reason = None, external_blocker = None\<rparr>,
      managed = False, activity_revision = 1, next_lease = 1\<rparr>"

definition secs :: "u64 \<Rightarrow> int" where
  "secs n = uint n * 1000000000"

definition read_wake_locks :: "string option \<Rightarrow> string list" where
  "read_wake_locks file = split_whitespace (case file of None \<Rightarrow> [] | Some txt \<Rightarrow> txt)"

definition suspend_blocked_by_external_wake_lock :: "string list \<Rightarrow> bool" where
  "suspend_blocked_by_external_wake_lock owners = list_ex (\<lambda>owner. owner \<noteq> ''remagic-managed'') owners"

definition classify_external_blocker :: "string \<Rightarrow> string" where
  "classify_external_blocker why =
     (if list_ex (\<lambda>word. trim_matches (\<lambda>c. \<not> is_ascii_alphanumeric c \<and> c \<noteq> CHR ''.'') word = ''udev.charger'')
           (split_whitespace why)
      then ''charger'' else why)"

definition prune_expired :: "instant \<Rightarrow> runtime_state \<Rightarrow> runtime_state" where
  "prune_expired now r =
     (let r1 = r\<lparr>leases := filter (\<lambda>(_, l). now < expires_at l) (leases r)\<rparr>
      in if leases r1 = [] \<and> (workload r1 = ScheduledJob \<or> workload r1 = Maintenance)
         then r1\<lparr>workload := Idle\<rparr> else r1)"

definition next_policy_deadline ::
  "instant \<Rightarrow> string list \<Rightarrow> power_manager \<Rightarrow> (instant \<times> u64) option \<times> power_manager" where
  "next_policy_deadline now locks m =
     (if \<not> managed m then (None, m)
      else if suspend_blocked_by_external_wake_lock locks then (None, m)
      else if idle_suspend_secs (settings m) = 0 then (None, m)
      else
        let r = prune_expired now (runtime m); m1 = m\<lparr>runtime := r\<rparr> in
        if phase r \<noteq> Awake then (None, m1)
        else
          let idle = last_activity r + secs (idle_suspend_secs (settings m));
              due = foldl max idle (map expires_at (bt_values (leases r)))
          in (Some (due, activity_revision m), m1))"

definition reserve_auto_sleep ::
  "instant \<Rightarrow> string list \<Rightarrow> u64 \<Rightarrow> power_manager \<Rightarrow> bool \<times> power_manager" where
  "reserve_auto_sleep now locks revision m =
     (if \<not> managed m \<or> activity_revision m \<noteq> revision \<or> suspend_blocked_by_external_wake_lock locks
      then (False, m)
      else if idle_suspend_secs (settings m) = 0 then (False, m)
      else
        let r = prune_expired now (runtime m); m1 = m\<lparr>runtime := r\<rparr> in
        if phase r \<noteq> Awake \<or> leases r \<noteq> [] then (False, m1)
        else if duration_since now (last_activity r) < secs (idle_suspend_secs (settings m)) then (False, m1)
        else (True, m\<lparr>runtime := r\<lparr>phase := Quiescing, workload := Idle\<rparr>\<rparr>))"

definition bump_activity :: "power_manager \<Rightarrow> power_manager" where
  "bump_activity m = m\<lparr>activity_revision := activity_revision m + 1\<rparr>"

definition enter_managed :: "instant \<Rightarrow> u64 \<Rightarrow> power_manager \<Rightarrow> power_manager" where
  "enter_managed now unix m =
     (bump_activity m)\<lparr>managed := True,
        runtime := (runtime m)\<lparr>phase := Awake, presentation := Home, workload := Idle,
          last_activity := now, last_activity_unix_ms := unix, leases := [], external_blocker := None\<rparr>\<rparr>"

definition enter_stock :: "power_manager \<Rightarrow> power_manager" where
  "enter_stock m =
     (bump_activity m)\<lparr>managed := False,
        runtime := (runtime m)\<lparr>phase := Awake, presentation := NoSurface, workload := Idle, leases := [],
          next_wake_unix_ms := None, external_blocker := None\<rparr>\<rparr>"

definition note_activity :: "instant \<Rightarrow> u64 \<Rightarrow> power_manager \<Rightarrow> power_manager" where
  "note_activity now unix m =
     (if \<not> managed m then m
      else
        let m1 = bump_activity m; r = runtime m in
        if phase r = Awake \<or> phase r = Quiescing \<or> phase r = Resuming
        then m1\<lparr>runtime := r\<lparr>phase := Awake, workload := Interactive, last_activity := now,
                              last_activity_unix_ms := unix\<rparr>\<rparr>
        else m1)"

definition auto_sleep_is_current :: "u64 \<Rightarrow> power_manager \<Rightarrow> bool" where
  "auto_sleep_is_current revision m =
     (managed m \<and> activity_revision m = revision \<and> phase (runtime m) = Quiescing)"

definition cancel_quiescing :: "instant \<Rightarrow> u64 \<Rightarrow> string \<Rightarrow> power_manager \<Rightarrow> power_manager" where
  "cancel_quiescing now unix why m =
     bump_activity
       (if phase (runtime m) = Quiescing
        then m\<lparr>runtime := (runtime m)\<lparr>phase := Awake, last_activity := now, last_activity_unix_ms := unix,
                                      last_wake_reason := Some why\<rparr>\<rparr>
        else m)"

definition begin_suspend :: "power_manager \<Rightarrow> power_manager" where
  "begin_suspend m =
     m\<lparr>runtime := (runtime m)\<lparr>phase := Quiescing, presentation := Lock, workload := Idle\<rparr>\<rparr>"

definition suspended :: "power_manager \<Rightarrow> power_manager" where
  "suspended m =
     m\<lparr>runtime := (runtime m)\<lparr>phase := Suspended, presentation := Lock, workload := Idle\<rparr>\<rparr>"

definition externally_blocked :: "string \<Rightarrow> power_manager \<Rightarrow> power_manager" where
  "externally_blocked why m =
     m\<lparr>runtime := (runtime m)\<lparr>phase := ExternallyBlocked, presentation := Lock,
                              external_blocker := Some (classify_external_blocker why)\<rparr>\<rparr>"

definition resumed :: "instant \<Rightarrow> u64 \<Rightarrow> string \<Rightarrow> power_manager \<Rightarrow> power_manager" where
  "resumed now unix why m =
     (bump_activity m)\<lparr>runtime := (runtime m)\<lparr>phase := Awake, presentation := Home, workload := Interactive,
        last_activity := now, last_activity_unix_ms := unix, last_wake_reason := Some why,
        external_blocker := None\<rparr>\<rparr>"

definition retained_lock_resume :: "string \<Rightarrow> power_manager \<Rightarrow> power_manager" where
  "retained_lock_resume why m =
     m\<lparr>runtime := (runtime m)\<lparr>phase := Resuming, presentation := Lock, workload := Idle,
                              last_wake_reason := Some why, external_blocker := None\<rparr>\<rparr>"

definition set_presentation :: "presentation_state \<Rightarrow> power_manager \<Rightarrow> power_manager" where
  "set_presentation p m = m\<lparr>runtime := (runtime m)\<lparr>presentation := p\<rparr>\<rparr>"

definition clamp :: "u64 \<Rightarrow> u64 \<Rightarrow> u64 \<Rightarrow> u64" where
  "clamp lo hi x = (if x < lo then lo else if hi < x then hi else x)"

text \<open>\<open>u\<close> is the wall clock read for the public lease, \<open>now\<close> the monotonic one for the record.\<close>

definition begin_work ::
  "instant \<Rightarrow> u64 \<Rightarrow> app_id \<Rightarrow> work_class \<Rightarrow> string \<Rightarrow> u64 \<Rightarrow> power_manager \<Rightarrow> resource_lease \<times> power_manager" where
  "begin_work now unix app cls why requested_ms m =
     (let ttl_ms = clamp 1 (maximum_lease_ms cls) requested_ms;
          l = max (next_lease m) 1;
          pub = \<lparr>lease_no = l, owner = app, work = cls, reason = why,
                 expires_at_unix_ms = sat_add unix ttl_ms\<rparr>;
          r = runtime m;
          r1 = r\<lparr>workload := (case cls of
                   PackageTransaction \<Rightarrow> Maintenance
                 | FileTransfer \<Rightarrow> Maintenance
                 | AgentTurn \<Rightarrow> ScheduledJob
                 | _ \<Rightarrow> Interactive),
                 phase := (if phase r = Quiescing then Awake else phase r),
                 leases := bt_insert l \<lparr>public = pub, expires_at = now + ms (uint ttl_ms)\<rparr> (leases r)\<rparr>
      in (pub, bump_activity (m\<lparr>next_lease := next_lease m + 1, runtime := r1\<rparr>)))"

definition finish_work ::
  "instant \<Rightarrow> u64 \<Rightarrow> app_id \<Rightarrow> u64 \<Rightarrow> bool \<Rightarrow> power_manager \<Rightarrow> bool \<times> power_manager" where
  "finish_work now unix app l visible m =
     (let r = runtime m;
          removed = (case bt_get (leases r) l of None \<Rightarrow> False | Some rec \<Rightarrow> owner (public rec) = app);
          r1 = (if removed then r\<lparr>leases := bt_remove l (leases r)\<rparr> else r);
          r2 = (if removed \<and> leases r1 = [] then
                  let r' = r1\<lparr>workload := Idle\<rparr>
                  in if visible then r'\<lparr>last_activity := now, last_activity_unix_ms := unix\<rparr> else r'
                else r1);
          m1 = m\<lparr>runtime := r2\<rparr>
      in (removed, if visible then bump_activity m1 else m1))"

text \<open>\<open>saved\<close> is what \<open>settings::save\<close> answers.\<close>

definition set_idle_suspend ::
  "instant \<Rightarrow> u64 \<Rightarrow> string + unit \<Rightarrow> u64 \<Rightarrow> power_manager \<Rightarrow> (string + power_settings) \<times> power_manager" where
  "set_idle_suspend now unix saved seconds m =
     (let s = power_settings_default\<lparr>idle_suspend_secs := seconds\<rparr> in
      case chk (power_settings_validate s) (chk saved (Inr ())) of
        Inl e \<Rightarrow> (Inl e, m)
      | Inr _ \<Rightarrow>
          (Inr s, (bump_activity m)\<lparr>settings := s,
             runtime := (runtime m)\<lparr>last_activity := now, last_activity_unix_ms := unix\<rparr>\<rparr>))"

definition sat_mul :: "u64 \<Rightarrow> u64 \<Rightarrow> u64" where
  "sat_mul a b = (if uint a * uint b < 2 ^ 64 then a * b else - 1)"

definition snapshot ::
  "instant \<Rightarrow> string list \<Rightarrow> u64 \<Rightarrow> power_manager \<Rightarrow> power_snapshot \<times> power_manager" where
  "snapshot now locks successes m =
     (let r = prune_expired now (runtime m);
          idle = sat_add (last_activity_unix_ms r) (sat_mul (idle_suspend_secs (settings m)) 1000);
          idle_deadline =
            (if managed m \<and> phase r = Awake \<and> idle_suspend_secs (settings m) \<noteq> 0
                \<and> \<not> suspend_blocked_by_external_wake_lock locks
             then Some (foldl max idle (map (\<lambda>l. expires_at_unix_ms (public l)) (bt_values (leases r))))
             else None)
      in (\<lparr>snap_phase = phase r, snap_presentation = presentation r, snap_workload = workload r,
           snap_idle_suspend_secs = idle_suspend_secs (settings m),
           snap_idle_deadline_unix_ms = idle_deadline, snap_wake_lock_owners = locks,
           snap_active_leases = map public (bt_values (leases r)),
           snap_next_wake_unix_ms = next_wake_unix_ms r, snap_suspend_successes = successes,
           snap_last_wake_reason = last_wake_reason r, snap_external_blocker = external_blocker r\<rparr>,
          m\<lparr>runtime := r\<rparr>))"

section \<open>The idle loop and histories\<close>

text \<open>One expiry of the idle loop's timer for the revision it was armed with; \<open>delivered\<close> says whether the
  event channel took the event. It answers whether the loop goes on.\<close>

definition idle_timeout ::
  "instant \<Rightarrow> u64 \<Rightarrow> string list \<Rightarrow> u64 \<Rightarrow> bool \<Rightarrow> power_manager \<Rightarrow> bool \<times> power_manager" where
  "idle_timeout now unix locks revision delivered m =
     (case reserve_auto_sleep now locks revision m of
        (False, m1) \<Rightarrow> (True, m1)
      | (True, m1) \<Rightarrow>
          if delivered then (True, m1)
          else (False, cancel_quiescing now unix ''manager event loop unavailable'' m1))"

datatype power_cmd =
    NextPolicyDeadline instant "string list"
  | IdleTimeout instant u64 "string list" u64 bool
  | EnterManaged instant u64
  | EnterStock
  | NoteActivity instant u64
  | CancelQuiescing instant u64 string
  | BeginSuspend
  | MarkSuspended
  | MarkExternallyBlocked string
  | Resumed instant u64 string
  | RetainedLockResume string
  | SetPresentation presentation_state
  | BeginWork instant u64 app_id work_class string u64
  | FinishWork instant u64 app_id u64 bool
  | SetIdleSuspend instant u64 "string + unit" u64
  | TakeSnapshot instant "string list" u64

fun power_step :: "power_cmd \<Rightarrow> power_manager \<Rightarrow> power_manager" where
  "power_step (NextPolicyDeadline now locks) m = snd (next_policy_deadline now locks m)"
| "power_step (IdleTimeout now unix locks rv delivered) m = snd (idle_timeout now unix locks rv delivered m)"
| "power_step (EnterManaged now unix) m = enter_managed now unix m"
| "power_step EnterStock m = enter_stock m"
| "power_step (NoteActivity now unix) m = note_activity now unix m"
| "power_step (CancelQuiescing now unix why) m = cancel_quiescing now unix why m"
| "power_step BeginSuspend m = begin_suspend m"
| "power_step MarkSuspended m = suspended m"
| "power_step (MarkExternallyBlocked why) m = externally_blocked why m"
| "power_step (Resumed now unix why) m = resumed now unix why m"
| "power_step (RetainedLockResume why) m = retained_lock_resume why m"
| "power_step (SetPresentation p) m = set_presentation p m"
| "power_step (BeginWork now unix app cls why ttl) m = snd (begin_work now unix app cls why ttl m)"
| "power_step (FinishWork now unix app l visible) m = snd (finish_work now unix app l visible m)"
| "power_step (SetIdleSuspend now unix saved n) m = snd (set_idle_suspend now unix saved n m)"
| "power_step (TakeSnapshot now locks n) m = snd (snapshot now locks n m)"

fun power_run :: "power_cmd list \<Rightarrow> power_manager \<Rightarrow> power_manager" where
  "power_run [] m = m"
| "power_run (c # cs) m = power_run cs (power_step c m)"

text \<open>The times of a command, and the commands that count as activity in a state.\<close>

fun cmd_time :: "power_cmd \<Rightarrow> instant option" where
  "cmd_time (IdleTimeout now unix locks rv delivered) = Some now"
| "cmd_time (EnterManaged now unix) = Some now"
| "cmd_time (NoteActivity now unix) = Some now"
| "cmd_time (CancelQuiescing now unix why) = Some now"
| "cmd_time (Resumed now unix why) = Some now"
| "cmd_time (BeginWork now unix app cls why ttl) = Some now"
| "cmd_time (FinishWork now unix app l visible) = Some now"
| "cmd_time (SetIdleSuspend now unix saved n) = Some now"
| "cmd_time c = None"

fun counts_as_activity :: "power_cmd \<Rightarrow> power_manager \<Rightarrow> bool" where
  "counts_as_activity (IdleTimeout now unix locks rv delivered) m =
     (fst (reserve_auto_sleep now locks rv m) \<and> \<not> delivered)"
| "counts_as_activity (EnterManaged now unix) m = True"
| "counts_as_activity EnterStock m = True"
| "counts_as_activity (NoteActivity now unix) m = managed m"
| "counts_as_activity (CancelQuiescing now unix why) m = True"
| "counts_as_activity (Resumed now unix why) m = True"
| "counts_as_activity (BeginWork now unix app cls why ttl) m = True"
| "counts_as_activity (FinishWork now unix app l visible) m = visible"
| "counts_as_activity (SetIdleSuspend now unix saved n) m =
     (power_settings_validate (power_settings_default\<lparr>idle_suspend_secs := n\<rparr>) = Inr () \<and> saved = Inr ())"
| "counts_as_activity c m = False"

section \<open>Leases, deadlines and the revision\<close>

lemmas power_defs [model_defs] =
  next_policy_deadline_def idle_timeout_def enter_managed_def enter_stock_def note_activity_def
  cancel_quiescing_def begin_suspend_def suspended_def externally_blocked_def resumed_def
  retained_lock_resume_def set_presentation_def begin_work_def finish_work_def set_idle_suspend_def
  snapshot_def bump_activity_def reserve_auto_sleep_def

lemma foldl_max_le: "foldl max (a :: 'a::linorder) xs \<le> d \<longleftrightarrow> a \<le> d \<and> (\<forall>x \<in> set xs. x \<le> d)"
  by (induction xs arbitrary: a) auto

lemma prune_expired_simps [simp]:
  "leases (prune_expired now r) = filter (\<lambda>(_, l). now < expires_at l) (leases r)"
  "phase (prune_expired now r) = phase r" "last_activity (prune_expired now r) = last_activity r"
  "last_activity_unix_ms (prune_expired now r) = last_activity_unix_ms r"
  by (auto simp: prune_expired_def Let_def)

lemma prune_prune_empty:
  "t0 \<le> now \<Longrightarrow> filter (\<lambda>(_, l). now < expires_at l) (filter (\<lambda>(_, l). t0 < expires_at l) ls) = [] \<longleftrightarrow>
     (\<forall>l \<in> set (map snd (filter (\<lambda>(_, l). t0 < expires_at l) ls)). expires_at l \<le> now)"
  by (fastforce simp: filter_empty_conv not_less)

lemma revision_step:
  "activity_revision (power_step c m) = activity_revision m + of_bool (counts_as_activity c m)"
proof (cases c)
  case (SetIdleSuspend now unix saved n)
  then show ?thesis
    by (cases "power_settings_validate (power_settings_default\<lparr>idle_suspend_secs := n\<rparr>)"; cases saved)
      (auto simp: set_idle_suspend_def bump_activity_def Let_def)
next
  case (IdleTimeout now unix locks rv delivered)
  have "activity_revision (snd (reserve_auto_sleep now locks rv m)) = activity_revision m"
    by (simp add: reserve_auto_sleep_def Let_def)
  with IdleTimeout show ?thesis
    by (auto simp: idle_timeout_def cancel_quiescing_def bump_activity_def split: prod.splits bool.splits)
qed (simp_all add: power_defs Let_def)

fun activities :: "power_cmd list \<Rightarrow> power_manager \<Rightarrow> nat" where
  "activities [] m = 0"
| "activities (c # cs) m = of_bool (counts_as_activity c m) + activities cs (power_step c m)"

lemma revision_run: "activity_revision (power_run cs m) = activity_revision m + of_nat (activities cs m)"
  by (induction cs m rule: activities.induct) (simp_all add: revision_step)

lemma activities_le: "activities cs m \<le> length cs"
  by (induction cs m rule: activities.induct) (auto intro: order_trans)

lemma power_run_append: "power_run (cs @ ds) m = power_run ds (power_run cs m)"
  by (induction cs m rule: power_run.induct) simp_all

lemma activities_append: "activities (cs @ ds) m = activities cs m + activities ds (power_run cs m)"
  by (induction cs m rule: activities.induct) simp_all

text \<open>Bounds: the last activity and every lease lie within what the policy allows of the latest time.\<close>

definition within :: "instant \<Rightarrow> power_manager \<Rightarrow> bool" where
  "within T m \<longleftrightarrow>
     power_settings_validate (settings m) = Inr () \<and> last_activity (runtime m) \<le> T
     \<and> (\<forall>l \<in> set (bt_values (leases (runtime m))). expires_at l \<le> T + ms 900000)"

lemma entry_insert: "(a, b) \<in> set (bt_insert k v m) \<Longrightarrow> (a, b) = (k, v) \<or> (a, b) \<in> set m"
  by (induction k v m rule: bt_insert.induct) (auto split: if_splits)

lemma entry_remove: "e \<in> set (bt_remove k m) \<Longrightarrow> e \<in> set m"
  by (auto simp: bt_remove_def)

lemma clamp_bounds: "lo \<le> hi \<Longrightarrow> lo \<le> clamp lo hi x \<and> clamp lo hi x \<le> hi"
  by (auto simp: clamp_def not_less)

lemma maximum_lease_bounds: "1 \<le> maximum_lease_ms c \<and> maximum_lease_ms c \<le> 900000"
  by (cases c) (simp_all add: maximum_lease_ms_def)

lemma lease_ttl_bound: "uint (clamp 1 (maximum_lease_ms c) x) \<le> 900000"
proof -
  have "clamp 1 (maximum_lease_ms c) x \<le> 900000"
    using clamp_bounds [of 1 "maximum_lease_ms c" x] maximum_lease_bounds [of c] by (metis order_trans)
  then show ?thesis by (simp add: word_le_def)
qed

lemma default_valid: "power_settings_validate power_settings_default = Inr ()"
  by code_simp

lemma within_step:
  assumes "within T m" and "\<And>now. cmd_time c = Some now \<Longrightarrow> now \<le> T"
  shows "within T (power_step c m)"
proof (cases c)
  case (BeginWork now unix app cls why ttl)
  have "now + ms (uint (clamp 1 (maximum_lease_ms cls) ttl)) \<le> T + ms 900000"
    using assms(2) [of now] lease_ttl_bound [of cls ttl] by (simp add: BeginWork ms_def)
  with assms(1) show ?thesis
    by (auto simp: BeginWork begin_work_def bump_activity_def within_def Let_def dest!: entry_insert)
next
  case (FinishWork now unix app l visible)
  with assms show ?thesis
    by (auto simp: finish_work_def bump_activity_def within_def Let_def dest!: entry_remove split: option.splits)
next
  case (SetIdleSuspend now unix saved n)
  with assms show ?thesis
    by (auto simp: set_idle_suspend_def bump_activity_def within_def Let_def split: sum.splits)
next
  case (IdleTimeout now unix locks rv delivered)
  with assms show ?thesis
    by (auto simp: idle_timeout_def reserve_auto_sleep_def cancel_quiescing_def bump_activity_def within_def Let_def)
qed (use assms in \<open>auto simp: power_defs within_def Let_def\<close>)

lemma within_run:
  assumes "within T m" and "\<And>c now. c \<in> set cs \<Longrightarrow> cmd_time c = Some now \<Longrightarrow> now \<le> T"
  shows "within T (power_run cs m)"
  using assms by (induction cs m rule: power_run.induct) (auto intro: within_step)

lemma settings_load_valid: "settings_load path contents parse = Inr s \<Longrightarrow> power_settings_validate s = Inr ()"
  by (auto simp: settings_load_def default_valid split: sum.splits read_failure.splits)

lemma within_load: "now \<le> T \<Longrightarrow> within T (power_manager_load path contents parse now unix)"
  using settings_load_valid [of path contents parse]
  by (auto simp: within_def power_manager_load_def default_valid split: sum.splits)

lemma valid_idle_bound: "power_settings_validate s = Inr () \<Longrightarrow> secs (idle_suspend_secs s) \<le> ms 1800000"
proof -
  assume "power_settings_validate s = Inr ()"
  then have "idle_suspend_secs s \<le> 1800"
    by (auto simp: power_settings_validate_def MAX_IDLE_SUSPEND_SECS_def)
  then show ?thesis by (simp add: secs_def ms_def word_le_def)
qed

text \<open>Lease numbers: the live ones lie below the counter.\<close>

definition numbered :: "power_manager \<Rightarrow> bool" where
  "numbered m \<longleftrightarrow> bt_ok (leases (runtime m)) \<and> 1 \<le> next_lease m
     \<and> (\<forall>k l. bt_get (leases (runtime m)) k = Some l \<longrightarrow> k < next_lease m \<and> lease_no (public l) = k)"

lemma numbered_same:
  assumes "numbered m" and "next_lease m' = next_lease m"
    and "leases (runtime m') = filter p (leases (runtime m))"
  shows "numbered m'"
proof -
  have ok: "bt_ok (leases (runtime m))" using assms(1) by (simp add: numbered_def)
  then have "bt_get (filter p (leases (runtime m))) k = Some l \<Longrightarrow> bt_get (leases (runtime m)) k = Some l" for k l
    by (auto simp: bt_entry_iff [symmetric])
  with assms show ?thesis by (auto simp: numbered_def)
qed

lemma numbered_keep:
  "numbered m \<Longrightarrow> next_lease m' = next_lease m \<Longrightarrow> leases (runtime m') = leases (runtime m) \<Longrightarrow> numbered m'"
  by (simp add: numbered_def)

fun is_begin :: "power_cmd \<Rightarrow> bool" where
  "is_begin (BeginWork now unix app cls why ttl) = True"
| "is_begin c = False"

fun begins :: "power_cmd list \<Rightarrow> nat" where
  "begins [] = 0"
| "begins (c # cs) = of_bool (is_begin c) + begins cs"

lemma word_less_succ: "n \<noteq> - 1 \<Longrightarrow> (n :: u64) < n + 1"
  by (simp add: word_less_nat_alt unat_succ)

lemma numbered_begin:
  assumes "numbered m" "next_lease m \<noteq> - 1"
  shows "numbered (snd (begin_work now unix app cls why ttl m))"
proof -
  have l: "max (next_lease m) 1 = next_lease m" using assms(1) by (simp add: numbered_def)
  have "next_lease m < next_lease m + 1" using assms(2) by (rule word_less_succ)
  moreover from this have "1 \<le> next_lease m + 1"
    using assms(1) unfolding numbered_def by (meson less_imp_le order_trans)
  ultimately show ?thesis
    using assms(1) unfolding numbered_def
    by (auto simp: begin_work_def bump_activity_def Let_def l intro: less_trans)
qed

lemma numbered_finish:
  assumes "numbered m"
  shows "numbered (snd (finish_work now unix app l visible m))"
  using numbered_same [OF assms, of "snd (finish_work now unix app l visible m)" "\<lambda>(j, _). j \<noteq> l"]
    numbered_keep [OF assms, of "snd (finish_work now unix app l visible m)"]
  by (auto simp: finish_work_def bump_activity_def Let_def bt_remove_def split: option.splits if_splits)

lemma numbered_prune:
  assumes "numbered m"
  shows "numbered (m\<lparr>runtime := prune_expired now (runtime m)\<rparr>)"
  using numbered_same [OF assms, of "m\<lparr>runtime := prune_expired now (runtime m)\<rparr>"] by simp

lemma numbered_reserve:
  assumes "numbered m"
  shows "numbered (snd (reserve_auto_sleep now locks rv m))"
  using assms numbered_prune [OF assms, of now]
  by (auto simp: reserve_auto_sleep_def Let_def numbered_def)

lemma numbered_step:
  assumes "numbered m" "is_begin c \<Longrightarrow> next_lease m \<noteq> - 1"
  shows "numbered (power_step c m)"
proof (cases c)
  case (BeginWork now unix app cls why ttl)
  then show ?thesis using numbered_begin [OF assms(1)] assms(2) by simp
next
  case (FinishWork now unix app l visible)
  then show ?thesis using numbered_finish [OF assms(1)] by simp
next
  case (NextPolicyDeadline now locks)
  then show ?thesis
    using assms(1) numbered_prune [OF assms(1), of now] by (auto simp: next_policy_deadline_def Let_def)
next
  case (TakeSnapshot now locks n)
  then show ?thesis using numbered_prune [OF assms(1), of now] by (simp add: snapshot_def Let_def)
next
  case (IdleTimeout now unix locks rv delivered)
  have "numbered (cancel_quiescing now unix why m')" if "numbered m'" for why m'
    using that by (simp add: cancel_quiescing_def bump_activity_def numbered_def)
  with IdleTimeout numbered_reserve [OF assms(1), of now locks rv] show ?thesis
    by (auto simp: idle_timeout_def split: prod.splits bool.splits)
next
  case (SetIdleSuspend now unix saved n)
  then show ?thesis
    using assms(1) by (auto simp: set_idle_suspend_def bump_activity_def numbered_def Let_def split: sum.splits)
qed (use assms(1) in \<open>auto simp: power_defs numbered_def Let_def\<close>)

lemma next_lease_step: "next_lease (power_step c m) = next_lease m + of_bool (is_begin c)"
proof (cases c)
  case (SetIdleSuspend now unix saved n)
  then show ?thesis by (auto simp: set_idle_suspend_def bump_activity_def Let_def split: sum.splits)
next
  case (IdleTimeout now unix locks rv delivered)
  then show ?thesis
    by (auto simp: idle_timeout_def reserve_auto_sleep_def cancel_quiescing_def bump_activity_def Let_def)
qed (simp_all add: power_defs Let_def)

lemma numbered_run:
  assumes "numbered m" and "unat (next_lease m) + begins cs < 2 ^ 64"
  shows "numbered (power_run cs m) \<and> unat (next_lease (power_run cs m)) = unat (next_lease m) + begins cs"
  using assms
proof (induction cs m rule: power_run.induct)
  case (2 c cs m)
  show ?case
  proof (cases "is_begin c")
    case True
    then have max: "next_lease m \<noteq> - 1" using 2(3) by (auto simp: unat_max_word)
    then have "unat (next_lease (power_step c m)) = unat (next_lease m) + 1"
      using True by (simp add: next_lease_step unat_succ)
    with 2 True numbered_step [OF 2(2), of c] max show ?thesis by simp
  next
    case False
    with 2(2) have "numbered (power_step c m)" by (intro numbered_step) auto
    with 2(1,3) False show ?thesis by (simp add: next_lease_step)
  qed
qed simp

section \<open>The properties\<close>

lemma nonzero_secs: "n \<noteq> 0 \<Longrightarrow> 0 < secs n"
  by (simp add: secs_def) (metis order_le_less uint_0_iff uint_ge_0)


definition demo_power :: power_manager where
  "demo_power =
     power_run [EnterManaged 0 5, BeginWork (ms 1000) 1005 (AppId ''reader'') FileTransfer [] 90000]
       (power_manager_load ''power.toml'' (Inl NotFound) (\<lambda>_. Inl []) 0 5)"


text \<open>No application can keep the device awake for good: in every state the manager can reach, when it
  is awake, managed and idle suspension is on, the policy has a deadline, and it lies at most the
  largest idle interval after the latest event.\<close>

theorem deadline_within_policy_bound:
  assumes "m = power_run cs (power_manager_load path contents parse start unix)"
    and "start \<le> T" "\<forall>c \<in> set cs. \<forall>now. cmd_time c = Some now \<longrightarrow> now \<le> T"
    and "managed m" "\<not> suspend_blocked_by_external_wake_lock locks"
    and "idle_suspend_secs (settings m) \<noteq> 0" "phase (runtime m) = Awake"
  shows "\<exists>d. fst (next_policy_deadline now locks m) = Some (d, activity_revision m)
     \<and> d \<le> T + secs MAX_IDLE_SUSPEND_SECS"
proof -
  have w: "within T m"
    unfolding assms(1) using assms(2,3) within_load by (intro within_run) auto
  define d where "d = foldl max (last_activity (runtime m) + secs (idle_suspend_secs (settings m)))
      (map expires_at (bt_values (leases (prune_expired now (runtime m)))))"
  have "secs (idle_suspend_secs (settings m)) \<le> ms 1800000" "last_activity (runtime m) \<le> T"
    and l: "\<forall>l \<in> set (bt_values (leases (runtime m))). expires_at l \<le> T + ms 900000"
    using w valid_idle_bound by (auto simp: within_def)
  moreover have "\<forall>x \<in> set (map expires_at (bt_values (leases (prune_expired now (runtime m))))). x \<le> T + ms 1800000"
    using l by (auto simp: ms_def)
  ultimately have "d \<le> T + secs MAX_IDLE_SUSPEND_SECS"
    unfolding d_def foldl_max_le by (auto simp: ms_def secs_def MAX_IDLE_SUSPEND_SECS_def)
  moreover have "fst (next_policy_deadline now locks m) = Some (d, activity_revision m)"
    using assms(4-7) by (simp add: next_policy_deadline_def Let_def d_def)
  ultimately show ?thesis by blast
qed

theorem deadline_within_policy_bound_witness:
  "\<exists>d. fst (next_policy_deadline (ms 2000) [] demo_power) = Some (d, activity_revision demo_power)
     \<and> d \<le> ms 1000 + secs MAX_IDLE_SUSPEND_SECS"
proof (rule deadline_within_policy_bound [OF demo_power_def])
  show "\<forall>c \<in> set [EnterManaged 0 5, BeginWork (ms 1000) 1005 (AppId ''reader'') FileTransfer [] 90000].
      \<forall>now. cmd_time c = Some now \<longrightarrow> now \<le> ms 1000" by (simp add: ms_def)
  show "managed demo_power" "\<not> suspend_blocked_by_external_wake_lock []"
    "idle_suspend_secs (settings demo_power) \<noteq> 0" "phase (runtime demo_power) = Awake" by code_simp+
qed (simp add: ms_def)

text \<open>Activity cancels an automatic sleep: after any command that counts as activity, the sleep that
  was reserved before it is no longer current, whatever else happens.\<close>

theorem activity_cancels_auto_sleep:
  assumes "length cs < 2 ^ 64" "cs = before @ c # after"
    and "counts_as_activity c (power_run before m)"
  shows "\<not> auto_sleep_is_current (activity_revision m) (power_run cs m)"
proof -
  have "0 < activities cs m" using assms(2,3) by (simp add: activities_append)
  moreover have "activities cs m < 2 ^ 64" using activities_le [of cs m] assms(1) by linarith
  ultimately have "(of_nat (activities cs m) :: u64) \<noteq> 0"
    unfolding word_of_nat_eq_0_iff by (auto dest: nat_dvd_not_less)
  then show ?thesis by (simp add: auto_sleep_is_current_def revision_run)
qed

theorem activity_cancels_auto_sleep_witness:
  "\<not> auto_sleep_is_current (activity_revision demo_power)
       (power_run [IdleTimeout (ms 130000) 9 [] 3 True, NoteActivity (ms 130001) 9, BeginSuspend] demo_power)"
  by (rule activity_cancels_auto_sleep
      [where before = "[IdleTimeout (ms 130000) 9 [] 3 True]" and c = "NoteActivity (ms 130001) 9"
        and after = "[BeginSuspend]"]) (simp_all, code_simp)

text \<open>Work leases never share a number: a new lease has a non-zero number that no live lease has, as
  long as fewer than \<open>2^64\<close> have been begun.\<close>

theorem lease_numbers_are_fresh:
  assumes "m = power_run cs (power_manager_load path contents parse start unix)"
    and "begins cs + 1 < 2 ^ 64"
  shows "bt_get (leases (runtime m)) (lease_no (fst (begin_work now u app cls why ttl m))) = None
     \<and> lease_no (fst (begin_work now u app cls why ttl m)) \<noteq> 0"
proof -
  have "numbered (power_manager_load path contents parse start unix)"
    "next_lease (power_manager_load path contents parse start unix) = 1"
    by (simp_all add: numbered_def power_manager_load_def)
  then have n: "numbered m"
    using numbered_run [of "power_manager_load path contents parse start unix" cs] assms by simp
  then have "lease_no (fst (begin_work now u app cls why ttl m)) = next_lease m"
    by (simp add: begin_work_def Let_def numbered_def)
  moreover have "bt_get (leases (runtime m)) (next_lease m) = None"
  proof (cases "bt_get (leases (runtime m)) (next_lease m)")
    case (Some l)
    with n show ?thesis by (auto simp: numbered_def)
  qed
  moreover have "next_lease m \<noteq> 0" using n by (auto simp: numbered_def)
  ultimately show ?thesis by simp
qed

theorem lease_numbers_are_fresh_witness:
  "bt_get (leases (runtime demo_power))
     (lease_no (fst (begin_work (ms 3000) 9 (AppId ''reader'') Ocr [] 500 demo_power))) = None"
  using lease_numbers_are_fresh [OF demo_power_def] by simp

text \<open>Only the owner ends a lease: \<open>finish_work\<close> answers true exactly when the lease is live and
  belongs to the caller; then it removes that lease and no other, and otherwise it removes none.\<close>

theorem finish_work_needs_owner:
  "(fst (finish_work now unix app l visible m) \<longleftrightarrow>
      (\<exists>rec. bt_get (leases (runtime m)) l = Some rec \<and> owner (public rec) = app))
   \<and> bt_get (leases (runtime (snd (finish_work now unix app l visible m)))) k =
      (if fst (finish_work now unix app l visible m) \<and> k = l then None else bt_get (leases (runtime m)) k)"
proof (cases "bt_get (leases (runtime m)) l")
  case None
  then show ?thesis by (simp add: finish_work_def bump_activity_def Let_def)
next
  case (Some rec)
  have "leases (r\<lparr>workload := w, last_activity := t, last_activity_unix_ms := u\<rparr>) = leases r"
    "leases (r\<lparr>workload := w\<rparr>) = leases r" for r w t u
    by simp_all
  moreover have "bt_remove l (leases (runtime m)) = [] \<Longrightarrow> k \<noteq> l \<Longrightarrow> bt_get (leases (runtime m)) k = None"
    by (metis bt_get_remove map_of.simps(1))
  ultimately show ?thesis
    using Some by (auto simp: finish_work_def bump_activity_def Let_def)
qed

text \<open>The status the settings page shows is the policy's own: the snapshot gives an idle deadline if
  and only if the idle loop has one.\<close>

lemma snapshot_shows_policy_deadline:
  "snap_idle_deadline_unix_ms (fst (snapshot now locks n m)) = None \<longleftrightarrow>
     fst (next_policy_deadline now locks m) = None"
  by (simp add: snapshot_def next_policy_deadline_def Let_def)

end
