(* ===== verification/Device_Profile.thy ===== *)
theory Device_Profile
  imports Rust_Text
begin

text \<open>
  Device detection for the supported tablets (\<open>remagic-device/src/lib.rs\<close>): the two products, the
  profile every component is given, its check, and the detection from the identity files, whose
  contents are an argument.
\<close>

section \<open>Products and profiles\<close>

definition DEVICE_PROFILE_SCHEMA_V1 :: u32 where
  "DEVICE_PROFILE_SCHEMA_V1 = 1"

definition SUPPORTED_OS_SERIES :: string where
  "SUPPORTED_OS_SERIES = ''3.27''"

datatype device_product = PaperPro | PaperProMove

definition codename_of :: "device_product \<Rightarrow> string" where
  "codename_of p = (case p of PaperPro \<Rightarrow> ''ferrari'' | PaperProMove \<Rightarrow> ''chiappa'')"

definition machine :: "device_product \<Rightarrow> string" where
  "machine p = (case p of PaperPro \<Rightarrow> ''reMarkable Ferrari'' | PaperProMove \<Rightarrow> ''reMarkable Chiappa'')"

datatype surface_pixel_format = Rgb565

record device_display_profile =
  logical_width :: "32 word"
  logical_height :: "32 word"
  qtfb_format :: u8
  pixel_format :: surface_pixel_format
  stride :: u64

record device_profile =
  profile_schema :: u32
  product_id :: device_product
  codename :: string
  os_version :: string
  display :: device_display_profile
  device_capabilities :: "string list"

datatype device_profile_error =
    ReadError path string
  | InvalidIdentity path
  | IdentityMismatch string string
  | UnsupportedMachine string
  | MissingOsVersion
  | UnsupportedOsVersion string string
  | UnsupportedSchema u32
  | InvalidProfile
  | SerializeError string

definition for_product :: "device_product \<Rightarrow> string \<Rightarrow> device_profile" where
  "for_product p os =
     (let (w, h, f) = (case p of PaperPro \<Rightarrow> (1620, 2160, 3) | PaperProMove \<Rightarrow> (954, 1696, 6))
      in \<lparr>profile_schema = DEVICE_PROFILE_SCHEMA_V1,
          product_id = p,
          codename = codename_of p,
          os_version = os,
          display = \<lparr>logical_width = w, logical_height = h, qtfb_format = f, pixel_format = Rgb565,
                     stride = scast w * 2\<rparr>,
          device_capabilities =
            [''color'', ''display:qtfb-v1'', ''display:surface-v2'', ''ink:direct-v1'',
             ''input:mode-v2'', ''input:pen-v1'', ''input:touch-v1'', ''lifecycle:v2'',
             ''network:outbound-v1'', ''network:listen-v1'', ''network:lan-peer-v1'',
             ''storage:books-write-v1'', ''storage:wallpapers-write-v1'',
             ''sync:koreader-state-v1'', ''agent:pi-v1'']\<rparr>)"

definition device_profile_validate :: "device_profile \<Rightarrow> device_profile_error + unit" where
  "device_profile_validate p =
     chk (guard (profile_schema p \<noteq> DEVICE_PROFILE_SCHEMA_V1) (UnsupportedSchema (profile_schema p)))
    (chk (guard (codename p \<noteq> codename_of (product_id p) \<or> is_blank (os_version p)) InvalidProfile)
         (let expected = for_product (product_id p) (os_version p)
          in guard (display p \<noteq> display expected \<or> device_capabilities p \<noteq> device_capabilities expected)
               InvalidProfile))"

text \<open>The JSON encoder is an argument.\<close>

definition to_json ::
  "(device_profile \<Rightarrow> string + string) \<Rightarrow> device_profile \<Rightarrow> device_profile_error + string" where
  "to_json encode p = chk (device_profile_validate p) (map_err SerializeError (encode p))"

section \<open>Detection\<close>

text \<open>A file read answers the error or the bytes.\<close>

type_synonym file_reads = "path \<Rightarrow> string + string"

definition rooted :: "path \<Rightarrow> path \<Rightarrow> path" where
  "rooted root relative =
     (if path_eq root ''/'' then path_join ''/'' relative else path_join root relative)"

definition nul_or_space_len :: "string \<Rightarrow> nat" where
  "nul_or_space_len s = (case s of c # _ \<Rightarrow> if c = nul then 1 else white_space_len s | [] \<Rightarrow> 0)"

definition read_identity :: "file_reads \<Rightarrow> path \<Rightarrow> device_profile_error + string" where
  "read_identity files p =
     res_bind (map_err (ReadError p) (files p)) (\<lambda>bytes.
     res_bind (ok_or (from_utf8 bytes) (InvalidIdentity p)) (\<lambda>txt.
     let val = trim_by nul_or_space_len txt
     in if val = [] then Inl (InvalidIdentity p) else Inr val))"

definition is_supported_os_version :: "string \<Rightarrow> bool" where
  "is_supported_os_version version =
     (version = SUPPORTED_OS_SERIES
      \<or> (case strip_prefix version SUPPORTED_OS_SERIES of
           None \<Rightarrow> False | Some rest \<Rightarrow> starts_with rest ''.''))"

definition os_version_line :: "string \<Rightarrow> string option" where
  "os_version_line line =
     Option.bind (split_once (CHR ''='') line) (\<lambda>(candidate, val).
       if candidate = ''IMG_VERSION''
       then (let v = trim_matches (\<lambda>c. c = CHR 0x22) (trim val) in if v = [] then None else Some v)
       else None)"

fun find_map :: "('a \<Rightarrow> 'b option) \<Rightarrow> 'a list \<Rightarrow> 'b option" where
  "find_map f [] = None"
| "find_map f (x # xs) = (case f x of Some y \<Rightarrow> Some y | None \<Rightarrow> find_map f xs)"

definition parse_os_version :: "string \<Rightarrow> string option" where
  "parse_os_version txt = find_map os_version_line (text_lines txt)"

definition read_to_string :: "file_reads \<Rightarrow> path \<Rightarrow> string + string" where
  "read_to_string files p =
     res_bind (files p) (\<lambda>bytes. ok_or (from_utf8 bytes) ''stream did not contain valid UTF-8'')"

definition product_of_machine :: "string \<Rightarrow> device_profile_error + device_product" where
  "product_of_machine mach =
     (if mach = ''reMarkable Ferrari'' then Inr PaperPro
      else if mach = ''reMarkable Chiappa'' then Inr PaperProMove
      else Inl (UnsupportedMachine mach))"

definition detect_at :: "file_reads \<Rightarrow> path \<Rightarrow> device_profile_error + device_profile" where
  "detect_at files root =
     res_bind (read_identity files (rooted root ''sys/devices/soc0/machine'')) (\<lambda>mach.
     res_bind (read_identity files (rooted root ''proc/device-tree/model'')) (\<lambda>model.
     if mach \<noteq> model then Inl (IdentityMismatch mach model)
     else
       res_bind (product_of_machine mach) (\<lambda>prod.
       res_bind (map_err (ReadError (rooted root ''etc/os-release''))
                   (read_to_string files (rooted root ''etc/os-release''))) (\<lambda>os_release.
       res_bind (ok_or (parse_os_version os_release) MissingOsVersion) (\<lambda>version.
       if \<not> is_supported_os_version version
       then Inl (UnsupportedOsVersion version SUPPORTED_OS_SERIES)
       else
         let profile = for_product prod version
         in chk (device_profile_validate profile) (Inr profile))))))"

definition detect :: "file_reads \<Rightarrow> device_profile_error + device_profile" where
  "detect files = detect_at files ''/''"

section \<open>Lemmas\<close>

lemma for_product_fields [simp]:
  "profile_schema (for_product p os) = DEVICE_PROFILE_SCHEMA_V1"
  "product_id (for_product p os) = p" "codename (for_product p os) = codename_of p"
  "os_version (for_product p os) = os"
  by (cases p; simp add: for_product_def)+

lemma supported_prefix: "is_supported_os_version v \<Longrightarrow> \<exists>s. v = SUPPORTED_OS_SERIES @ s"
  by (auto simp: is_supported_os_version_def strip_prefix_def prefix_def split: if_splits)

lemma supported_not_blank: "is_supported_os_version v \<Longrightarrow> \<not> is_blank v"
proof -
  assume "is_supported_os_version v"
  then obtain s where v: "v = SUPPORTED_OS_SERIES @ s" using supported_prefix by blast
  have "\<not> is_blank (SUPPORTED_OS_SERIES @ s)"
    by (simp add: is_blank_def SUPPORTED_OS_SERIES_def)
  then show ?thesis by (simp add: v)
qed

lemma validate_iff:
  "device_profile_validate p = Inr () \<longleftrightarrow>
     p = for_product (product_id p) (os_version p) \<and> \<not> is_blank (os_version p)"
proof
  assume "device_profile_validate p = Inr ()"
  then show "p = for_product (product_id p) (os_version p) \<and> \<not> is_blank (os_version p)"
    by (auto simp: device_profile_validate_def Let_def intro!: device_profile.equality)
next
  assume "p = for_product (product_id p) (os_version p) \<and> \<not> is_blank (os_version p)"
  then have "profile_schema p = DEVICE_PROFILE_SCHEMA_V1" "codename p = codename_of (product_id p)"
    "display p = display (for_product (product_id p) (os_version p))"
    "device_capabilities p = device_capabilities (for_product (product_id p) (os_version p))"
    "\<not> is_blank (os_version p)"
    by (metis for_product_fields(1), metis for_product_fields(3), metis+)
  then show "device_profile_validate p = Inr ()"
    by (simp add: device_profile_validate_def Let_def)
qed

lemma product_of_machine_iff: "product_of_machine mach = Inr q \<longleftrightarrow> mach = machine q"
  by (cases q) (auto simp: product_of_machine_def machine_def)

section \<open>The properties\<close>

text \<open>The check of a profile leaves no freedom: it accepts exactly the profiles that are the one of
  their product and software version, so a component that is handed a checked profile may rely on every
  field of it.\<close>

theorem checked_profile_is_the_products:
  "device_profile_validate p = Inr () \<longleftrightarrow>
     p = for_product (product_id p) (os_version p) \<and> \<not> is_blank (os_version p)"
  by (rule validate_iff)

text \<open>Detection succeeds exactly when both identity files name the same supported machine and the
  software release is of the supported series; the answer is that product's profile, and its check, run
  at the end, never fails.\<close>

theorem detect_exactly_supported_devices:
  "detect_at files root = Inr p \<longleftrightarrow>
     (\<exists>v txt. p = for_product (product_id p) v
        \<and> read_identity files (rooted root ''sys/devices/soc0/machine'') = Inr (machine (product_id p))
        \<and> read_identity files (rooted root ''proc/device-tree/model'') = Inr (machine (product_id p))
        \<and> read_to_string files (rooted root ''etc/os-release'') = Inr txt
        \<and> parse_os_version txt = Some v \<and> is_supported_os_version v)"
proof -
  have ok: "is_supported_os_version v \<Longrightarrow> device_profile_validate (for_product q v) = Inr ()" for q v
    by (simp add: validate_iff supported_not_blank)
  have "detect_at files root = Inr p \<longleftrightarrow>
      (\<exists>mach q txt v.
         read_identity files (rooted root ''sys/devices/soc0/machine'') = Inr mach
         \<and> read_identity files (rooted root ''proc/device-tree/model'') = Inr mach
         \<and> product_of_machine mach = Inr q
         \<and> read_to_string files (rooted root ''etc/os-release'') = Inr txt
         \<and> parse_os_version txt = Some v \<and> is_supported_os_version v \<and> for_product q v = p)"
    unfolding detect_at_def Let_def res_bind_Inr if_Inl_Inr ok_or_Inr map_err_Inr chk_Inr
    using ok by blast
  also have "\<dots> \<longleftrightarrow> (\<exists>txt v.
         read_identity files (rooted root ''sys/devices/soc0/machine'') = Inr (machine (product_id p))
         \<and> read_identity files (rooted root ''proc/device-tree/model'') = Inr (machine (product_id p))
         \<and> read_to_string files (rooted root ''etc/os-release'') = Inr txt
         \<and> parse_os_version txt = Some v \<and> is_supported_os_version v
         \<and> p = for_product (product_id p) v)"
    unfolding product_of_machine_iff by (metis for_product_fields(2))
  finally show ?thesis by blast
qed

end
