(* ===== verification/System_Release.thy ===== *)
theory System_Release
  imports Device_Profile
begin

text \<open>
  Signed system releases (\<open>remagic-core/src/system_release.rs\<close>): the metadata, its check against the
  device, and the verification of a release file. The JSON decoders, SHA-256, base64 and the Ed25519
  check are the record \<open>crypto\<close> of functions, an argument of the verification.
\<close>

section \<open>Data\<close>

definition SYSTEM_RELEASE_SCHEMA_V1 :: u32 where
  "SYSTEM_RELEASE_SCHEMA_V1 = 1"

record system_artifact =
  url :: string
  sha256 :: string
  size_bytes :: u64

record system_release =
  release_schema :: u32
  release_id :: string
  version :: string
  sequence :: u64
  supported_devices :: "device_product list"
  supported_os :: "string list"
  required_remagic_api :: u32
  requires_reboot :: bool
  archive :: system_artifact
  generated_at_unix :: u64
  expires_at_unix :: u64

record release_signature =
  signature_schema :: u32
  key_id :: string
  algorithm :: string
  release_sha256 :: string
  signature :: string

record trusted_key =
  trusted_id :: string
  public_key :: string

record verified_release =
  release :: system_release
  verified_key :: string
  digest :: string

datatype system_release_error =
    InvalidRelease string
  | InvalidSignature string
  | UnsupportedSignature
  | DigestMismatch
  | UntrustedKey string
  | InvalidKey
  | InvalidSignatureEncoding
  | VerificationFailed
  | IncompatibleDevice
  | InvalidArtifact

text \<open>The external functions: bytes are strings.\<close>

record crypto =
  decode_release :: "string \<Rightarrow> string + system_release"
  decode_signature :: "string \<Rightarrow> string + release_signature"
  sha256_digest :: "string \<Rightarrow> string"
  base64_decode :: "string \<Rightarrow> string option"
  ed25519_verify :: "string \<Rightarrow> string \<Rightarrow> string \<Rightarrow> bool"

section \<open>The checks\<close>

definition release_validate ::
  "system_release \<Rightarrow> device_product \<Rightarrow> string \<Rightarrow> u64 \<Rightarrow> u64 \<Rightarrow> system_release_error + unit" where
  "release_validate r device os now_unix minimum_sequence =
     chk (guard (release_schema r \<noteq> SYSTEM_RELEASE_SCHEMA_V1 \<or> is_blank (release_id r) \<or> is_blank (version r)
                 \<or> sequence r < minimum_sequence \<or> required_remagic_api r = 0
                 \<or> generated_at_unix r \<ge> expires_at_unix r \<or> now_unix < generated_at_unix r
                 \<or> now_unix \<ge> expires_at_unix r)
                (InvalidRelease ''metadata or sequence is invalid''))
    (chk (guard (device \<notin> set (supported_devices r)
                 \<or> (supported_os r \<noteq> []
                    \<and> \<not> list_ex (\<lambda>v. os = v \<or> starts_with os (v @ ''.'')) (supported_os r))
                 \<or> \<not> starts_with os SUPPORTED_OS_SERIES)
                IncompatibleDevice)
         (guard (\<not> starts_with (url (archive r)) ''https://github.com/aporicho/remagic/releases/download/''
                 \<or> size_bytes (archive r) = 0
                 \<or> length (sha256 (archive r)) \<noteq> 64
                 \<or> list_ex (\<lambda>b. \<not> is_ascii_hexdigit b) (sha256 (archive r)))
                InvalidArtifact))"

definition hex_digit :: "nat \<Rightarrow> char" where
  "hex_digit n = (if n < 10 then char_of (48 + n) else char_of (87 + n))"

definition hex_byte :: "char \<Rightarrow> string" where
  "hex_byte c = (let n = of_char c :: nat in [hex_digit (n div 16), hex_digit (n mod 16)])"

definition sha256_hex :: "crypto \<Rightarrow> string \<Rightarrow> string" where
  "sha256_hex c bytes = concat (map hex_byte (sha256_digest c bytes))"

definition verify_release ::
  "crypto \<Rightarrow> string \<Rightarrow> string \<Rightarrow> trusted_key list \<Rightarrow> u64 \<Rightarrow> u64 \<Rightarrow> device_product \<Rightarrow> string
    \<Rightarrow> system_release_error + verified_release" where
  "verify_release c release_bytes signature_bytes trusted_keys now_unix minimum_sequence device os =
     res_bind (map_err InvalidRelease (decode_release c release_bytes)) (\<lambda>rel.
     chk (release_validate rel device os now_unix minimum_sequence)
    (res_bind (map_err InvalidSignature (decode_signature c signature_bytes)) (\<lambda>sig.
     chk (guard (signature_schema sig \<noteq> SYSTEM_RELEASE_SCHEMA_V1 \<or> algorithm sig \<noteq> ''ed25519'')
                UnsupportedSignature)
    (let dig = sha256_hex c release_bytes in
     chk (guard (release_sha256 sig \<noteq> dig) DigestMismatch)
    (res_bind (ok_or (find (\<lambda>k. trusted_id k = key_id sig) trusted_keys) (UntrustedKey (key_id sig))) (\<lambda>key.
     res_bind (ok_or (base64_decode c (public_key key)) InvalidKey) (\<lambda>pub.
     res_bind (ok_or (base64_decode c (signature sig)) InvalidSignatureEncoding) (\<lambda>sig_value.
     chk (guard (\<not> ed25519_verify c pub release_bytes sig_value) VerificationFailed)
         (Inr \<lparr>release = rel, verified_key = key_id sig, digest = dig\<rparr>)))))))))"

section \<open>The properties\<close>

text \<open>C34: an accepted release is authentic and current: its exact bytes verify under the key that the
  caller trusts under the named id, their digest is the one that was signed, the sequence is not below
  the caller's minimum, the present time lies inside the validity window, the device is listed, and the
  archive is named by a release of the repository with a full digest.\<close>

theorem accepted_release_is_authentic:
  assumes "verify_release c bytes sig_bytes keys now minimum device os = Inr v"
  shows "(\<exists>k \<in> set keys. \<exists>sig pub val. trusted_id k = verified_key v \<and> decode_signature c sig_bytes = Inr sig
        \<and> base64_decode c (public_key k) = Some pub \<and> base64_decode c (signature sig) = Some val
        \<and> ed25519_verify c pub bytes val \<and> release_sha256 sig = digest v)
   \<and> decode_release c bytes = Inr (release v) \<and> digest v = sha256_hex c bytes
   \<and> minimum \<le> sequence (release v) \<and> generated_at_unix (release v) \<le> now
   \<and> now < expires_at_unix (release v) \<and> device \<in> set (supported_devices (release v))
   \<and> starts_with (url (archive (release v))) ''https://github.com/aporicho/remagic/releases/download/''
   \<and> length (sha256 (archive (release v))) = 64"
proof -
  from assms obtain rel sig key pub val where
    d: "decode_release c bytes = Inr rel" "decode_signature c sig_bytes = Inr sig"
    and ok: "release_validate rel device os now minimum = Inr ()"
    and s: "release_sha256 sig = sha256_hex c bytes" "find (\<lambda>k. trusted_id k = key_id sig) keys = Some key"
      "base64_decode c (public_key key) = Some pub" "base64_decode c (signature sig) = Some val"
      "ed25519_verify c pub bytes val"
    and v: "v = \<lparr>release = rel, verified_key = key_id sig, digest = sha256_hex c bytes\<rparr>"
    by (auto simp: verify_release_def Let_def)
  from s(2) have k: "key \<in> set keys" "trusted_id key = key_id sig"
    by (auto simp: find_Some_iff)
  have "(\<exists>k \<in> set keys. \<exists>sig pub val. trusted_id k = verified_key v \<and> decode_signature c sig_bytes = Inr sig
        \<and> base64_decode c (public_key k) = Some pub \<and> base64_decode c (signature sig) = Some val
        \<and> ed25519_verify c pub bytes val \<and> release_sha256 sig = digest v)"
    using k d(2) s v by (intro bexI [of _ key]) auto
  with d ok v show ?thesis by (simp add: release_validate_def not_less not_le)
qed

definition demo_release :: system_release where
  "demo_release =
     \<lparr>release_schema = 1, release_id = ''r1'', version = ''0.9.0'', sequence = 7,
      supported_devices = [PaperPro], supported_os = [], required_remagic_api = 6,
      requires_reboot = False,
      archive = \<lparr>url = ''https://github.com/aporicho/remagic/releases/download/v1/a.tar'',
                 sha256 = replicate 64 (CHR ''a''), size_bytes = 10\<rparr>,
      generated_at_unix = 100, expires_at_unix = 200\<rparr>"

definition demo_crypto :: crypto where
  "demo_crypto =
     \<lparr>decode_release = (\<lambda>b. if b = ''release'' then Inr demo_release else Inl ''syntax''),
      decode_signature = (\<lambda>b. if b = ''signature'' then
        Inr \<lparr>signature_schema = 1, key_id = ''main'', algorithm = ''ed25519'',
             release_sha256 = ''72656c'', signature = ''sig''\<rparr> else Inl ''syntax''),
      sha256_digest = take 3, base64_decode = Some,
      ed25519_verify = (\<lambda>p m s. p = ''pub'' \<and> m = ''release'' \<and> s = ''sig'')\<rparr>"

theorem accepted_release_is_authentic_witness:
  "\<exists>v. verify_release demo_crypto ''release'' ''signature'' [\<lparr>trusted_id = ''main'', public_key = ''pub''\<rparr>]
      150 3 PaperPro ''3.27.1'' = Inr v \<and> 3 \<le> sequence (release v)"
proof -
  have v: "verify_release demo_crypto ''release'' ''signature'' [\<lparr>trusted_id = ''main'', public_key = ''pub''\<rparr>]
      150 3 PaperPro ''3.27.1'' = Inr \<lparr>release = demo_release, verified_key = ''main'', digest = ''72656c''\<rparr>"
    by code_simp
  from accepted_release_is_authentic [OF this] v show ?thesis by blast
qed

text \<open>The release check and the device check disagree on the software series: the release check
  compares the series as a text prefix, so it accepts a version such as 3.271, which the device check
  rejects as another series.\<close>

lemma release_check_accepts_foreign_series:
  "\<exists>r os. release_validate r PaperPro os 150 0 = Inr () \<and> \<not> is_supported_os_version os"
proof (intro exI conjI)
  show "release_validate demo_release PaperPro ''3.271'' 150 0 = Inr ()" by code_simp
  show "\<not> is_supported_os_version ''3.271''" by code_simp
qed

end
