(* ===== verification/Runtime_Policy.thy ===== *)
theory Runtime_Policy
  imports Identity
begin

text \<open>
  What a manifest asks of the runtime (\<open>remagic-core/src/runtime.rs\<close>, \<open>runtime/policy.rs\<close>,
  \<open>runtime/error.rs\<close>): directories, libraries, locale, fonts, certificates and network, and the checks
  on them. Sets of paths compare their components, as \<open>PathBuf\<close> does.
\<close>

section \<open>The order of path components\<close>

instantiation component :: linorder
begin

definition less_eq_component :: "component \<Rightarrow> component \<Rightarrow> bool" where
  "less_eq_component a b =
     (case (a, b) of
        (RootDir, _) \<Rightarrow> True
      | (CurDir, RootDir) \<Rightarrow> False
      | (CurDir, _) \<Rightarrow> True
      | (ParentDir, ParentDir) \<Rightarrow> True
      | (ParentDir, Normal _) \<Rightarrow> True
      | (ParentDir, _) \<Rightarrow> False
      | (Normal s, Normal t) \<Rightarrow> s \<le> t
      | (Normal _, _) \<Rightarrow> False)"

definition less_component :: "component \<Rightarrow> component \<Rightarrow> bool" where
  "less_component a b = (a \<le> b \<and> a \<noteq> b)"

instance
  by standard
    (auto simp: less_eq_component_def less_component_def split: component.splits)

end

section \<open>Errors and policies\<close>

datatype runtime_validation_error =
    InvalidCapabilityName string
  | MissingDirectories
  | UnsafePath string path
  | InvalidLibrary string
  | DuplicateLibrary string
  | DuplicatePath string path
  | DirectoryOutsideHome string path path
  | PersistentRuntimeDirectory path
  | InvalidPolicyValue string string
  | MissingCertificateSource
  | HostsWithDeniedNetwork
  | MissingListenPort
  | UnexpectedListenPort u16
  | RequiredNetworkEnforcementUnavailable
  | InvalidHost string
  | InvalidPathList string
  | InvalidEnvironment string
  | ReservedApplicationEnvironment string
  | UnresolvedLibrary string
  | MissingLaunchVariable string
  | MismatchedLaunchVariable string path string
  | PolicyVariableMismatch string
  | InvalidCheckId string
  | DuplicateCheckId string
  | IncoherentPreflight
  | MissingLaunchEnvironment
  | PreflightEnvironmentMismatch

datatype runtime_profile = NativeV2 | QtfbCompat | Headless

definition profile_str :: "runtime_profile \<Rightarrow> string" where
  "profile_str p =
     (case p of NativeV2 \<Rightarrow> ''native_v2'' | QtfbCompat \<Rightarrow> ''qtfb_compat'' | Headless \<Rightarrow> ''headless'')"

record runtime_directories =
  home :: path
  config_home :: path
  data_home :: path
  state_home :: path
  cache_home :: path
  runtime_dir :: path

record locale_policy =
  lang :: string
  lc_all :: "string option"

definition locale_policy_default :: locale_policy where
  "locale_policy_default = \<lparr>lang = ''C.UTF-8'', lc_all = None\<rparr>"

record font_policy =
  font_directories :: "path list"
  fontconfig_file :: "path option"

record certificate_policy =
  certificates_required :: bool
  ca_bundle :: "path option"
  ca_directory :: "path option"

datatype network_mode = Deny | HttpsOnly | Outbound | Inbound | LanPeer

definition mode_str :: "network_mode \<Rightarrow> string" where
  "mode_str m =
     (case m of Deny \<Rightarrow> ''deny'' | HttpsOnly \<Rightarrow> ''https_only'' | Outbound \<Rightarrow> ''outbound''
      | Inbound \<Rightarrow> ''inbound'' | LanPeer \<Rightarrow> ''lan_peer'')"

datatype network_enforcement = MetadataOnly | Enforced

definition enforcement_str :: "network_enforcement \<Rightarrow> string" where
  "enforcement_str e = (case e of MetadataOnly \<Rightarrow> ''metadata_only'' | Enforced \<Rightarrow> ''enforced'')"

definition is_enforced :: "network_enforcement \<Rightarrow> bool" where
  "is_enforced e = (e = Enforced)"

datatype background_execution = Continue | Freeze

definition freezes_process :: "background_execution \<Rightarrow> bool" where
  "freezes_process b = (b = Freeze)"

record network_policy =
  mode :: network_mode
  allowed_hosts :: "string list"
  listen_port :: "u16 option"
  require_enforcement :: bool

record runtime_requirements =
  profile :: runtime_profile
  required_libraries :: "string list"
  directories :: "runtime_directories option"
  locale_req :: locale_policy
  timezone :: string
  fonts :: font_policy
  certificates :: certificate_policy
  network :: network_policy
  background_exec :: background_execution

section \<open>Checks\<close>

definition validate_absolute :: "string \<Rightarrow> path \<Rightarrow> runtime_validation_error + unit" where
  "validate_absolute field p =
     guard (\<not> is_absolute p \<or> list_ex (\<lambda>c. c = ParentDir \<or> c = CurDir) (path_components p))
       (UnsafePath field p)"

definition directory_fields :: "runtime_directories \<Rightarrow> (string \<times> path) list" where
  "directory_fields d =
     [(''home'', home d), (''config_home'', config_home d), (''data_home'', data_home d),
      (''state_home'', state_home d), (''cache_home'', cache_home d), (''runtime_dir'', runtime_dir d)]"

definition directories_validate :: "runtime_directories \<Rightarrow> runtime_validation_error + unit" where
  "directories_validate d =
     chk (for_each (\<lambda>(field, p). chk (validate_absolute field p) (guard (path_eq p ''/'') (UnsafePath field p)))
            (directory_fields d))
    (chk (for_unique (\<lambda>_. Inr ()) (\<lambda>(field, p). path_components p) (\<lambda>(field, p). DuplicatePath field p) []
            (directory_fields d))
    (chk (for_each (\<lambda>(field, p). guard (path_eq p (home d) \<or> \<not> path_starts_with p (home d))
                                   (DirectoryOutsideHome field p (home d)))
            [(''config_home'', config_home d), (''data_home'', data_home d),
             (''state_home'', state_home d), (''cache_home'', cache_home d)])
         (guard (path_starts_with (runtime_dir d) (home d)) (PersistentRuntimeDirectory (runtime_dir d)))))"

definition validate_directories :: "runtime_directories option \<Rightarrow> bool \<Rightarrow> runtime_validation_error + unit" where
  "validate_directories dirs required =
     (case dirs of
        Some d \<Rightarrow> directories_validate d
      | None \<Rightarrow> if required then Inl MissingDirectories else Inr ())"

definition valid_library :: "string \<Rightarrow> bool" where
  "valid_library l =
     (l \<noteq> [] \<and> length l \<le> 128 \<and> CHR ''/'' \<notin> set l
      \<and> list_all (\<lambda>b. is_ascii_alphanumeric b \<or> b \<in> set [CHR ''.'', CHR ''_'', CHR ''+'', CHR ''-'']) l)"

definition validate_libraries :: "string list \<Rightarrow> runtime_validation_error + unit" where
  "validate_libraries ls =
     for_unique (\<lambda>l. guard (\<not> valid_library l) (InvalidLibrary l)) (\<lambda>l. l) DuplicateLibrary [] ls"

definition validate_font_policy :: "font_policy \<Rightarrow> runtime_validation_error + unit" where
  "validate_font_policy f =
     chk (for_unique (validate_absolute ''fonts.directories'') path_components
            (DuplicatePath ''fonts.directories'') [] (font_directories f))
         (opt_check (validate_absolute ''fonts.fontconfig_file'') (fontconfig_file f))"

definition validate_certificate_policy :: "certificate_policy \<Rightarrow> runtime_validation_error + unit" where
  "validate_certificate_policy c =
     chk (opt_check (validate_absolute ''certificates.ca_bundle'') (ca_bundle c))
    (chk (opt_check (validate_absolute ''certificates.ca_directory'') (ca_directory c))
         (guard (certificates_required c \<and> ca_bundle c = None \<and> ca_directory c = None)
            MissingCertificateSource))"

definition valid_label :: "string \<Rightarrow> bool" where
  "valid_label l =
     (l \<noteq> [] \<and> length l \<le> 63 \<and> \<not> starts_with l ''-'' \<and> \<not> ends_with l ''-''
      \<and> list_all (\<lambda>b. is_ascii_alphanumeric b \<or> b = CHR ''-'') l)"

definition validate_host :: "string \<Rightarrow> runtime_validation_error + unit" where
  "validate_host given =
     (let host = (case strip_prefix given ''*.'' of Some rest \<Rightarrow> rest | None \<Rightarrow> given)
      in if host \<noteq> [] \<and> length host \<le> 253 \<and> \<not> starts_with host ''.'' \<and> \<not> ends_with host ''.''
            \<and> list_all valid_label (split_on (CHR ''.'') host)
         then Inr () else Inl (InvalidHost host))"

definition listens :: "network_mode \<Rightarrow> bool" where
  "listens m = (m = Inbound \<or> m = LanPeer)"

definition validate_network_policy :: "network_policy \<Rightarrow> runtime_validation_error + unit" where
  "validate_network_policy n =
     chk (guard ((mode n = Deny \<or> mode n = Inbound \<or> mode n = LanPeer) \<and> allowed_hosts n \<noteq> [])
            HostsWithDeniedNetwork)
    (chk (case listen_port n of
            Some port \<Rightarrow>
              if listens (mode n) then guard (port < 1024) MissingListenPort
              else Inl (UnexpectedListenPort port)
          | None \<Rightarrow> guard (listens (mode n)) MissingListenPort)
         (for_each validate_host (allowed_hosts n)))"

definition validate_locale :: "string \<Rightarrow> string \<Rightarrow> runtime_validation_error + unit" where
  "validate_locale field val =
     guard (val = [] \<or> 64 < length val
            \<or> \<not> list_all (\<lambda>b. is_ascii_alphanumeric b
                 \<or> b \<in> set [CHR ''.'', CHR ''_'', CHR ''-'', CHR ''@'']) val)
       (InvalidPolicyValue field val)"

definition validate_timezone :: "string \<Rightarrow> runtime_validation_error + unit" where
  "validate_timezone val =
     guard (val = [] \<or> 128 < length val \<or> starts_with val ''/'' \<or> contains_str val ''..''
            \<or> \<not> list_all (\<lambda>b. is_ascii_alphanumeric b
                 \<or> b \<in> set [CHR ''/'', CHR ''_'', CHR ''-'', CHR ''+'']) val)
       (InvalidPolicyValue ''timezone.name'' val)"

definition requirements_validate :: "runtime_requirements \<Rightarrow> bool \<Rightarrow> runtime_validation_error + unit" where
  "requirements_validate r require_directories =
     chk (validate_directories (directories r) require_directories)
    (chk (validate_libraries (required_libraries r))
    (chk (validate_locale ''locale.lang'' (lang (locale_req r)))
    (chk (opt_check (validate_locale ''locale.lc_all'') (lc_all (locale_req r)))
    (chk (validate_timezone (timezone r))
    (chk (validate_font_policy (fonts r))
    (chk (validate_certificate_policy (certificates r))
         (validate_network_policy (network r))))))))"

text \<open>\<open>std::env::join_paths\<close> refuses a path with the separator in it.\<close>

definition encode_path_list :: "path list \<Rightarrow> runtime_validation_error + string" where
  "encode_path_list ps =
     (if list_ex (\<lambda>p. CHR '':'' \<in> set p) ps
      then Inl (InvalidPathList ''path segment contains separator `:`'')
      else Inr (join_with '':'' ps))"

section \<open>What the directory check guarantees\<close>

lemma validate_absolute_Inr [simp]:
  "validate_absolute field p = Inr u \<longleftrightarrow> is_absolute p \<and> ParentDir \<notin> set (path_components p)"
  using absolute_no_CurDir [of p] by (auto simp: validate_absolute_def list_ex_iff)

text \<open>Directories that pass the check keep an application's files apart: all six are absolute, free
  of parent steps and different places, the four persistent ones lie strictly below the home, and the
  runtime directory lies outside it, and none is the root.\<close>

theorem checked_directories_are_disjoint:
  assumes "directories_validate d = Inr ()"
  shows "(\<forall>(f, p) \<in> set (directory_fields d). is_absolute p \<and> ParentDir \<notin> set (path_components p)
            \<and> \<not> path_eq p ''/'')
   \<and> distinct (map (path_components \<circ> snd) (directory_fields d))
   \<and> (\<forall>p \<in> {config_home d, data_home d, state_home d, cache_home d}.
         strict_prefix (path_components (home d)) (path_components p))
   \<and> \<not> path_starts_with (runtime_dir d) (home d)"
proof -
  have same: "map (path_components \<circ> snd) (directory_fields d) = map (\<lambda>(field, p). path_components p) (directory_fields d)"
    by auto
  show ?thesis
    unfolding same using assms
    by (auto simp: directories_validate_def path_eq_def path_starts_with_def strict_prefix_def)
qed

definition demo_directories :: runtime_directories where
  "demo_directories =
     \<lparr>home = ''/home/root/apps/reader'', config_home = ''/home/root/apps/reader/config'',
      data_home = ''/home/root/apps/reader/data'', state_home = ''/home/root/apps/reader/state'',
      cache_home = ''/home/root/apps/reader/cache'', runtime_dir = ''/run/remagic/reader''\<rparr>"

theorem checked_directories_are_disjoint_witness:
  "\<not> path_starts_with (runtime_dir demo_directories) (home demo_directories)"
proof -
  have "directories_validate demo_directories = Inr ()" by code_simp
  from checked_directories_are_disjoint [OF this] show ?thesis by blast
qed

text \<open>The check for current-directory steps in \<open>validate_absolute\<close> never fires: the components of an
  absolute path have no such step, so a path like \<open>/opt/./app\<close> is accepted.\<close>

lemma current_dir_check_is_dead:
  "(validate_absolute field p = Inr () \<longleftrightarrow> is_absolute p \<and> ParentDir \<notin> set (path_components p))
   \<and> validate_absolute field ''/opt/./app'' = Inr ()"
proof
  show "validate_absolute field p = Inr () \<longleftrightarrow> is_absolute p \<and> ParentDir \<notin> set (path_components p)" by simp
  have "is_absolute ''/opt/./app'' \<and> ParentDir \<notin> set (path_components ''/opt/./app'')" by code_simp
  then show "validate_absolute field ''/opt/./app'' = Inr ()" by simp
qed

end
