(* ===== verification/Launch_Environment.thy ===== *)
theory Launch_Environment
  imports Runtime_Policy Ordered_Map Device_Profile
begin

text \<open>
  The environment an application is started with: how the platform builds it
  (\<open>remagic-core/src/runtime/environment.rs\<close>), how a receiver checks it
  (\<open>environment/validation.rs\<close>), and the preflight report that carries it (\<open>runtime/preflight.rs\<close>).
  The JSON encoder of the device profile and the texts of its errors, both generated code, are the
  argument \<open>codec\<close>.
\<close>

section \<open>The environment\<close>

record profile_codec =
  encode_profile :: "device_profile \<Rightarrow> string + string"
  error_text :: "device_profile_error \<Rightarrow> string"

type_synonym env_map = "(string, string) btree"

record launch_environment =
  env_app :: app_id
  device :: device_profile
  env_profile :: runtime_profile
  env_directories :: runtime_directories
  variables :: env_map
  resolved_libraries :: "path list"
  platform_capabilities :: "capability list"
  env_locale :: locale_policy
  env_timezone :: string
  env_fonts :: font_policy
  env_certificates :: certificate_policy
  env_network :: network_policy

definition DEVICE_PROFILE_ENV :: string where
  "DEVICE_PROFILE_ENV = ''REMAGIC_DEVICE_PROFILE''"

definition is_platform_reserved_environment :: "string \<Rightarrow> bool" where
  "is_platform_reserved_environment key =
     (key \<in> set [''PATH'', ''HOME'', ''LANG'', ''LC_ALL'', ''TZ'', ''LD_LIBRARY_PATH'', ''SSL_CERT_FILE'',
        ''SSL_CERT_DIR'', ''FONTCONFIG_FILE'', ''QT_QPA_PLATFORM'', ''QT_QPA_FONTDIR'', ''QTFB_KEY'']
      \<or> starts_with key ''XDG_'' \<or> starts_with key ''REMAGIC_'')"

definition valid_key :: "string \<Rightarrow> bool" where
  "valid_key key =
     (case key of
        [] \<Rightarrow> False
      | b # bs \<Rightarrow>
          (is_ascii_uppercase b \<or> b = CHR ''_'')
          \<and> list_all (\<lambda>b. is_ascii_uppercase b \<or> is_ascii_digit b \<or> b = CHR ''_'') bs)"

definition validate_environment_pair :: "string \<Rightarrow> string \<Rightarrow> runtime_validation_error + unit" where
  "validate_environment_pair key val =
     guard (\<not> valid_key key \<or> 128 < length key \<or> nul \<in> set val) (InvalidEnvironment key)"

section \<open>Building it\<close>

definition validate_application_environment :: "env_map \<Rightarrow> runtime_validation_error + unit" where
  "validate_application_environment app_env =
     for_each (\<lambda>(key, val).
         chk (validate_environment_pair key val)
             (guard (is_platform_reserved_environment key) (ReservedApplicationEnvironment key)))
       app_env"

definition validate_required_libraries ::
  "runtime_requirements \<Rightarrow> path list \<Rightarrow> runtime_validation_error + unit" where
  "validate_required_libraries req libs =
     for_each (\<lambda>required.
         guard (\<not> list_ex (\<lambda>p. file_name p = Some required) libs) (UnresolvedLibrary required))
       (required_libraries req)"

definition base_pairs ::
  "app_id \<Rightarrow> runtime_requirements \<Rightarrow> runtime_directories \<Rightarrow> string \<Rightarrow> (string \<times> string) list" where
  "base_pairs app req dirs platform_path =
     [(''HOME'', home dirs), (''XDG_CONFIG_HOME'', config_home dirs), (''XDG_DATA_HOME'', data_home dirs),
      (''XDG_STATE_HOME'', state_home dirs), (''XDG_CACHE_HOME'', cache_home dirs),
      (''XDG_RUNTIME_DIR'', runtime_dir dirs),
      (''LANG'', lang (locale_req req)), (''TZ'', timezone req), (''PATH'', platform_path),
      (''REMAGIC_APP_ID'', as_str app), (''REMAGIC_RUNTIME_PROFILE'', profile_str (profile req))]"

definition base_variables ::
  "app_id \<Rightarrow> runtime_requirements \<Rightarrow> runtime_directories \<Rightarrow> env_map \<Rightarrow> string \<Rightarrow> env_map" where
  "base_variables app req dirs app_env platform_path =
     insert_all bt_insert (base_pairs app req dirs platform_path) app_env"

definition port_text :: "u16 option \<Rightarrow> string" where
  "port_text p = (case p of None \<Rightarrow> [] | Some n \<Rightarrow> decimal (uint n))"

definition listen_address :: "u16 option \<Rightarrow> string" where
  "listen_address p = (case p of None \<Rightarrow> [] | Some n \<Rightarrow> ''0.0.0.0:'' @ decimal (uint n))"

definition network_pairs :: "network_policy \<Rightarrow> network_enforcement \<Rightarrow> (string \<times> string) list" where
  "network_pairs n enf =
     [(''REMAGIC_NETWORK_POLICY_MODE'', mode_str (mode n)),
      (''REMAGIC_NETWORK_POLICY_ENFORCEMENT'', enforcement_str enf),
      (''REMAGIC_NETWORK_ISOLATED'', if is_enforced enf then ''1'' else ''0''),
      (''REMAGIC_NETWORK_ALLOWED_HOSTS'', join_with '','' (allowed_hosts n)),
      (''REMAGIC_NETWORK_LISTEN_PORT'', port_text (listen_port n)),
      (''REMAGIC_LISTEN_ADDR'', listen_address (listen_port n))]"

definition insert_network_variables ::
  "env_map \<Rightarrow> runtime_requirements \<Rightarrow> network_enforcement \<Rightarrow> runtime_validation_error + env_map" where
  "insert_network_variables vars req enf =
     (if require_enforcement (network req) \<and> \<not> is_enforced enf
      then Inl RequiredNetworkEnforcementUnavailable
      else Inr (insert_all bt_insert (network_pairs (network req) enf) vars))"

definition insert_opt :: "string \<Rightarrow> string option \<Rightarrow> env_map \<Rightarrow> env_map" where
  "insert_opt key val vars = (case val of None \<Rightarrow> vars | Some v \<Rightarrow> bt_insert key v vars)"

definition insert_optional_policy_variables ::
  "env_map \<Rightarrow> runtime_requirements \<Rightarrow> runtime_validation_error + env_map" where
  "insert_optional_policy_variables vars req =
     (let v1 = insert_opt ''LC_ALL'' (lc_all (locale_req req)) vars;
          v2 = insert_opt ''FONTCONFIG_FILE'' (fontconfig_file (fonts req)) v1
      in res_bind
           (if font_directories (fonts req) = [] then Inr v2
            else res_bind (encode_path_list (font_directories (fonts req))) (\<lambda>dirs.
                   Inr (bt_insert ''REMAGIC_FONT_DIRECTORIES'' dirs (bt_insert ''QT_QPA_FONTDIR'' dirs v2))))
           (\<lambda>v3. Inr (insert_opt ''SSL_CERT_DIR'' (ca_directory (certificates req))
                        (insert_opt ''SSL_CERT_FILE'' (ca_bundle (certificates req)) v3))))"

text \<open>A \<open>BTreeSet\<close> of paths: ordered by components, the first of equal paths kept.\<close>

definition path_set_insert :: "path \<Rightarrow> (component list, path) btree \<Rightarrow> (component list, path) btree" where
  "path_set_insert p s =
     (if bt_get s (path_components p) = None then bt_insert (path_components p) p s else s)"

definition library_directories :: "path list \<Rightarrow> path list" where
  "library_directories libs =
     bt_values (fold path_set_insert (List.map_filter parent libs) [])"

definition insert_loader_variables ::
  "env_map \<Rightarrow> app_id \<Rightarrow> runtime_requirements \<Rightarrow> path list \<Rightarrow> env_map" where
  "insert_loader_variables vars app req libs =
     (let v1 = (if profile req = QtfbCompat
                then bt_insert ''QTFB_KEY'' (decimal (qtfb_key_for_app app)) vars else vars);
          dirs = library_directories libs
      in if dirs = [] then v1 else bt_insert ''LD_LIBRARY_PATH'' (join_with '':'' dirs) v1)"

section \<open>Checking it\<close>

definition required_variable :: "env_map \<Rightarrow> string \<Rightarrow> runtime_validation_error + string" where
  "required_variable vars key = ok_or (bt_get vars key) (MissingLaunchVariable key)"

definition validate_exact_variable :: "env_map \<Rightarrow> string \<Rightarrow> string \<Rightarrow> runtime_validation_error + unit" where
  "validate_exact_variable vars key expected =
     res_bind (required_variable vars key) (\<lambda>v. guard (v \<noteq> expected) (PolicyVariableMismatch key))"

definition validate_optional_variable :: "env_map \<Rightarrow> string \<Rightarrow> string option \<Rightarrow> runtime_validation_error + unit" where
  "validate_optional_variable vars key expected =
     guard (bt_get vars key \<noteq> expected) (PolicyVariableMismatch key)"

definition validate_environment_variables :: "env_map \<Rightarrow> runtime_validation_error + unit" where
  "validate_environment_variables vars = for_each (\<lambda>(k, v). validate_environment_pair k v) vars"

definition validate_directory_variables :: "launch_environment \<Rightarrow> runtime_validation_error + unit" where
  "validate_directory_variables e =
     for_each (\<lambda>(key, expected).
         res_bind (required_variable (variables e) key) (\<lambda>actual.
         guard (\<not> path_eq actual expected) (MismatchedLaunchVariable key expected actual)))
       [(''HOME'', home (env_directories e)), (''XDG_CONFIG_HOME'', config_home (env_directories e)),
        (''XDG_DATA_HOME'', data_home (env_directories e)), (''XDG_STATE_HOME'', state_home (env_directories e)),
        (''XDG_CACHE_HOME'', cache_home (env_directories e)),
        (''XDG_RUNTIME_DIR'', runtime_dir (env_directories e))]"

definition validate_network_variables :: "launch_environment \<Rightarrow> runtime_validation_error + unit" where
  "validate_network_variables e =
     (let vars = variables e; n = env_network e in
      chk (validate_exact_variable vars ''REMAGIC_NETWORK_POLICY_MODE'' (mode_str (mode n)))
     (chk (validate_exact_variable vars ''REMAGIC_NETWORK_ALLOWED_HOSTS'' (join_with '','' (allowed_hosts n)))
     (chk (validate_exact_variable vars ''REMAGIC_NETWORK_LISTEN_PORT'' (port_text (listen_port n)))
     (chk (validate_exact_variable vars ''REMAGIC_LISTEN_ADDR'' (listen_address (listen_port n)))
     (res_bind (required_variable vars ''REMAGIC_NETWORK_POLICY_ENFORCEMENT'') (\<lambda>enforcement.
      res_bind (required_variable vars ''REMAGIC_NETWORK_ISOLATED'') (\<lambda>isolated.
      res_bind (if enforcement = ''metadata_only'' \<and> isolated = ''0'' then Inr False
                else if enforcement = ''enforced'' \<and> isolated = ''1'' then Inr True
                else Inl (PolicyVariableMismatch ''REMAGIC_NETWORK_POLICY_ENFORCEMENT'')) (\<lambda>enforced.
      guard (require_enforcement n \<and> \<not> enforced) RequiredNetworkEnforcementUnavailable))))))))"

definition validate_platform_path :: "env_map \<Rightarrow> runtime_validation_error + unit" where
  "validate_platform_path vars =
     res_bind (required_variable vars ''PATH'') (\<lambda>p.
     guard (p = [] \<or> list_ex (\<lambda>entry. \<not> is_absolute entry \<or> ParentDir \<in> set (path_components entry))
                       (split_on (CHR '':'') p))
       (InvalidPolicyValue ''PATH'' p))"

definition device_json :: "profile_codec \<Rightarrow> device_profile \<Rightarrow> runtime_validation_error + string" where
  "device_json codec d =
     map_err (\<lambda>e. InvalidPolicyValue DEVICE_PROFILE_ENV (error_text codec e)) (to_json (encode_profile codec) d)"

definition validate_identity_variables ::
  "profile_codec \<Rightarrow> launch_environment \<Rightarrow> runtime_validation_error + unit" where
  "validate_identity_variables codec e =
     (let vars = variables e in
      chk (validate_exact_variable vars ''REMAGIC_APP_ID'' (as_str (env_app e)))
     (chk (validate_exact_variable vars ''REMAGIC_RUNTIME_PROFILE'' (profile_str (env_profile e)))
     (res_bind (device_json codec (device e)) (\<lambda>json.
      chk (validate_exact_variable vars DEVICE_PROFILE_ENV json)
     (chk (validate_platform_path vars)
     (let key = bt_get vars ''QTFB_KEY''; expected = decimal (qtfb_key_for_app (env_app e)) in
      if env_profile e = QtfbCompat
      then guard (case key of None \<Rightarrow> False | Some actual \<Rightarrow> actual \<noteq> expected) (PolicyVariableMismatch ''QTFB_KEY'')
      else guard (key \<noteq> None) (PolicyVariableMismatch ''QTFB_KEY'')))))))"

definition validate_locale_variables :: "launch_environment \<Rightarrow> runtime_validation_error + unit" where
  "validate_locale_variables e =
     chk (validate_exact_variable (variables e) ''LANG'' (lang (env_locale e)))
    (chk (validate_exact_variable (variables e) ''TZ'' (env_timezone e))
         (validate_optional_variable (variables e) ''LC_ALL'' (lc_all (env_locale e))))"

definition validate_font_variables :: "launch_environment \<Rightarrow> runtime_validation_error + unit" where
  "validate_font_variables e =
     chk (validate_optional_variable (variables e) ''FONTCONFIG_FILE'' (fontconfig_file (env_fonts e)))
    (res_bind (if font_directories (env_fonts e) = [] then Inr None
               else res_bind (encode_path_list (font_directories (env_fonts e))) (\<lambda>d. Inr (Some d))) (\<lambda>dirs.
     for_each (\<lambda>key. validate_optional_variable (variables e) key dirs)
       [''QT_QPA_FONTDIR'', ''REMAGIC_FONT_DIRECTORIES'']))"

definition validate_certificate_variables :: "launch_environment \<Rightarrow> runtime_validation_error + unit" where
  "validate_certificate_variables e =
     chk (validate_optional_variable (variables e) ''SSL_CERT_FILE'' (ca_bundle (env_certificates e)))
         (validate_optional_variable (variables e) ''SSL_CERT_DIR'' (ca_directory (env_certificates e)))"

definition validate_library_paths :: "path list \<Rightarrow> runtime_validation_error + unit" where
  "validate_library_paths libs =
     for_unique (validate_absolute ''resolved_libraries'') path_components
       (DuplicatePath ''resolved_libraries'') [] libs"

definition environment_validate ::
  "profile_codec \<Rightarrow> launch_environment \<Rightarrow> runtime_validation_error + unit" where
  "environment_validate codec e =
     chk (directories_validate (env_directories e))
    (chk (validate_environment_variables (variables e))
    (chk (validate_directory_variables e)
    (chk (validate_network_variables e)
    (chk (validate_identity_variables codec e)
    (chk (validate_locale_variables e)
    (chk (validate_font_variables e)
    (chk (validate_certificate_variables e)
    (chk (validate_library_paths (resolved_libraries e))
         (requirements_validate
            \<lparr>profile = env_profile e, required_libraries = [], directories = Some (env_directories e),
             locale_req = env_locale e, timezone = env_timezone e, fonts = env_fonts e,
             certificates = env_certificates e, network = env_network e,
             background_exec = Continue\<rparr> True)))))))))"

section \<open>Resolving it\<close>

definition resolve_environment ::
  "profile_codec \<Rightarrow> app_id \<Rightarrow> runtime_requirements \<Rightarrow> env_map \<Rightarrow> path list \<Rightarrow> capability list \<Rightarrow> string
    \<Rightarrow> network_enforcement \<Rightarrow> device_profile \<Rightarrow> runtime_validation_error + launch_environment" where
  "resolve_environment codec app req app_env libs caps platform_path enf dev =
     chk (requirements_validate req True)
    (res_bind (ok_or (directories req) MissingDirectories) (\<lambda>dirs.
     chk (validate_application_environment app_env)
    (chk (validate_required_libraries req libs)
    (let v1 = base_variables app req dirs app_env platform_path in
     res_bind (device_json codec dev) (\<lambda>json.
     let v2 = bt_insert DEVICE_PROFILE_ENV json v1 in
     res_bind (insert_network_variables v2 req enf) (\<lambda>v3.
     res_bind (insert_optional_policy_variables v3 req) (\<lambda>v4.
     let v5 = insert_loader_variables v4 app req libs;
         env = \<lparr>env_app = app, device = dev, env_profile = profile req, env_directories = dirs,
                variables = v5, resolved_libraries = libs, platform_capabilities = caps,
                env_locale = locale_req req, env_timezone = timezone req, env_fonts = fonts req,
                env_certificates = certificates req, env_network = network req\<rparr>
     in chk (environment_validate codec env) (Inr env))))))))"

section \<open>The preflight report\<close>

datatype preflight_status = Passed | Warning | Failed

record preflight_check =
  check_id :: string
  status :: preflight_status
  message :: string

record preflight_report =
  report_app :: app_id
  report_profile :: runtime_profile
  compatible :: bool
  checks :: "preflight_check list"
  missing_capabilities :: "capability list"
  missing_libraries :: "string list"
  report_environment :: "launch_environment option"

definition valid_check_id :: "string \<Rightarrow> bool" where
  "valid_check_id s =
     (s \<noteq> [] \<and> length s \<le> 64
      \<and> list_all (\<lambda>b. is_ascii_lowercase b \<or> is_ascii_digit b
            \<or> b \<in> set [CHR ''-'', CHR ''_'', CHR ''.'']) s)"

definition computed_compatible :: "preflight_report \<Rightarrow> bool" where
  "computed_compatible r =
     (list_all (\<lambda>c. status c \<noteq> Failed) (checks r) \<and> missing_capabilities r = [] \<and> missing_libraries r = [])"

definition preflight_validate :: "profile_codec \<Rightarrow> preflight_report \<Rightarrow> runtime_validation_error + unit" where
  "preflight_validate codec r =
     chk (for_unique (\<lambda>c. guard (\<not> valid_check_id (check_id c)) (InvalidCheckId (check_id c))) check_id
            (\<lambda>c. DuplicateCheckId (check_id c)) [] (checks r))
    (chk (guard (compatible r \<noteq> computed_compatible r) IncoherentPreflight)
         (if compatible r then
            res_bind (ok_or (report_environment r) MissingLaunchEnvironment) (\<lambda>env.
            chk (guard (env_app env \<noteq> report_app r \<or> env_profile env \<noteq> report_profile r)
                   PreflightEnvironmentMismatch)
                (environment_validate codec env))
          else Inr ()))"

section \<open>What the platform sets\<close>

text \<open>All the variables the platform sets, in the order it inserts them.\<close>

definition opt_pair :: "string \<Rightarrow> string option \<Rightarrow> (string \<times> string) list" where
  "opt_pair key v = (case v of None \<Rightarrow> [] | Some x \<Rightarrow> [(key, x)])"

definition policy_pairs :: "runtime_requirements \<Rightarrow> string option \<Rightarrow> (string \<times> string) list" where
  "policy_pairs req fds =
     opt_pair ''LC_ALL'' (lc_all (locale_req req)) @ opt_pair ''FONTCONFIG_FILE'' (fontconfig_file (fonts req))
     @ opt_pair ''QT_QPA_FONTDIR'' fds @ opt_pair ''REMAGIC_FONT_DIRECTORIES'' fds
     @ opt_pair ''SSL_CERT_FILE'' (ca_bundle (certificates req))
     @ opt_pair ''SSL_CERT_DIR'' (ca_directory (certificates req))"

definition loader_pairs :: "app_id \<Rightarrow> runtime_requirements \<Rightarrow> path list \<Rightarrow> (string \<times> string) list" where
  "loader_pairs app req libs =
     (if profile req = QtfbCompat then [(''QTFB_KEY'', decimal (qtfb_key_for_app app))] else [])
     @ (if library_directories libs = [] then []
        else [(''LD_LIBRARY_PATH'', join_with '':'' (library_directories libs))])"

definition launch_pairs ::
  "app_id \<Rightarrow> runtime_requirements \<Rightarrow> runtime_directories \<Rightarrow> string \<Rightarrow> string \<Rightarrow> network_enforcement
    \<Rightarrow> string option \<Rightarrow> path list \<Rightarrow> (string \<times> string) list" where
  "launch_pairs app req dirs platform_path json enf fds libs =
     base_pairs app req dirs platform_path @ [(DEVICE_PROFILE_ENV, json)] @ network_pairs (network req) enf
     @ policy_pairs req fds @ loader_pairs app req libs"

definition font_list :: "runtime_requirements \<Rightarrow> runtime_validation_error + string option" where
  "font_list req =
     (if font_directories (fonts req) = [] then Inr None
      else res_bind (encode_path_list (font_directories (fonts req))) (\<lambda>d. Inr (Some d)))"

lemma insert_all_append: "insert_all ins (xs @ ys) m = insert_all ins ys (insert_all ins xs m)"
  by (induction ins xs m rule: insert_all.induct) auto

lemma insert_opt_pair: "insert_opt key v m = insert_all bt_insert (opt_pair key v) m"
  by (simp add: insert_opt_def opt_pair_def split: option.split)

lemma optional_pairs:
  "insert_optional_policy_variables vars req =
     res_bind (font_list req) (\<lambda>fds. Inr (insert_all bt_insert (policy_pairs req fds) vars))"
  by (cases "encode_path_list (font_directories (fonts req))")
    (simp_all add: insert_optional_policy_variables_def font_list_def policy_pairs_def insert_opt_pair
      insert_all_append Let_def opt_pair_def)

lemma loader_pairs_insert:
  "insert_loader_variables vars app req libs = insert_all bt_insert (loader_pairs app req libs) vars"
  by (simp add: insert_loader_variables_def loader_pairs_def Let_def)

lemma map_of_rev_distinct: "distinct (map fst xs) \<Longrightarrow> map_of (rev xs) k = map_of xs k"
proof (cases "map_of xs k")
  case None
  then have "k \<notin> fst ` set (rev xs)" by (simp add: map_of_eq_None_iff)
  with None show ?thesis by (metis map_of_eq_None_iff)
next
  case (Some v)
  assume "distinct (map fst xs)"
  then have "distinct (map fst (rev xs))" by (simp add: rev_map [symmetric])
  moreover have "(k, v) \<in> set (rev xs)" using Some by (simp add: map_of_SomeD)
  ultimately show ?thesis using Some by simp
qed

text \<open>The keys the platform sets, without repetition, are reserved and well formed.\<close>

definition platform_keys :: "string list" where
  "platform_keys =
     [''HOME'', ''XDG_CONFIG_HOME'', ''XDG_DATA_HOME'', ''XDG_STATE_HOME'', ''XDG_CACHE_HOME'',
      ''XDG_RUNTIME_DIR'', ''LANG'', ''TZ'', ''PATH'', ''REMAGIC_APP_ID'', ''REMAGIC_RUNTIME_PROFILE''] @
     [''REMAGIC_DEVICE_PROFILE''] @
     [''REMAGIC_NETWORK_POLICY_MODE'', ''REMAGIC_NETWORK_POLICY_ENFORCEMENT'',
      ''REMAGIC_NETWORK_ISOLATED'', ''REMAGIC_NETWORK_ALLOWED_HOSTS'', ''REMAGIC_NETWORK_LISTEN_PORT'',
      ''REMAGIC_LISTEN_ADDR''] @
     [''LC_ALL'', ''FONTCONFIG_FILE'', ''QT_QPA_FONTDIR'', ''REMAGIC_FONT_DIRECTORIES'',
      ''SSL_CERT_FILE'', ''SSL_CERT_DIR''] @
     [''QTFB_KEY'', ''LD_LIBRARY_PATH'']"

lemma platform_keys_distinct: "distinct platform_keys"
  by (simp add: platform_keys_def)

lemma platform_keys_good:
  "k \<in> set platform_keys \<Longrightarrow> is_platform_reserved_environment k \<and> valid_key k \<and> length k \<le> 128"
proof -
  have "list_all (\<lambda>k. is_platform_reserved_environment k \<and> valid_key k \<and> length k \<le> 128) platform_keys"
    by (simp add: platform_keys_def is_platform_reserved_environment_def valid_key_def
        is_ascii_uppercase_def is_ascii_digit_def less_eq_char_def)
  then show "k \<in> set platform_keys \<Longrightarrow> is_platform_reserved_environment k \<and> valid_key k \<and> length k \<le> 128"
    by (simp add: list_all_iff)
qed

lemma launch_keys_subseq: "subseq (map fst (launch_pairs app req dirs p json enf fds libs)) platform_keys"
proof -
  have "subseq (map fst (policy_pairs req fds))
      [''LC_ALL'', ''FONTCONFIG_FILE'', ''QT_QPA_FONTDIR'', ''REMAGIC_FONT_DIRECTORIES'',
       ''SSL_CERT_FILE'', ''SSL_CERT_DIR'']"
    by (auto simp: policy_pairs_def opt_pair_def split: option.split)
  moreover have "subseq (map fst (loader_pairs app req libs)) [''QTFB_KEY'', ''LD_LIBRARY_PATH'']"
    by (simp add: loader_pairs_def)
  ultimately show ?thesis
    unfolding launch_pairs_def platform_keys_def map_append
    by (intro list_emb_append_mono) (simp_all add: base_pairs_def network_pairs_def DEVICE_PROFILE_ENV_def)
qed

lemma launch_keys_distinct: "distinct (map fst (launch_pairs app req dirs p json enf fds libs))"
  using launch_keys_subseq platform_keys_distinct by (metis distinct_nthsI subseq_conv_nths)

lemma launch_keys_good:
  "(k, v) \<in> set (launch_pairs app req dirs p json enf fds libs) \<Longrightarrow>
     is_platform_reserved_environment k \<and> valid_key k \<and> length k \<le> 128"
proof -
  assume "(k, v) \<in> set (launch_pairs app req dirs p json enf fds libs)"
  then have "k \<in> set (map fst (launch_pairs app req dirs p json enf fds libs))"
    by (metis fst_conv image_eqI set_map)
  then have "k \<in> set platform_keys"
    using launch_keys_subseq by (metis set_nths_subset subseq_conv_nths subsetD)
  then show ?thesis by (rule platform_keys_good)
qed

text \<open>Looking one of them up.\<close>

lemma map_of_launch_pairs:
  "map_of (launch_pairs app req dirs p json enf fds libs) k =
     (case map_of (base_pairs app req dirs p) k of Some v \<Rightarrow> Some v | None \<Rightarrow>
      if k = DEVICE_PROFILE_ENV then Some json else
      case map_of (network_pairs (network req) enf) k of Some v \<Rightarrow> Some v | None \<Rightarrow>
      case map_of (policy_pairs req fds) k of Some v \<Rightarrow> Some v | None \<Rightarrow>
      map_of (loader_pairs app req libs) k)"
  by (simp add: launch_pairs_def map_add_def split: option.split)

lemma map_of_opt_pair: "map_of (opt_pair key v) k = (if k = key then v else None)"
  by (simp add: opt_pair_def split: option.split)

lemma map_of_policy_pairs:
  "map_of (policy_pairs req fds) k =
     (if k = ''LC_ALL'' then lc_all (locale_req req)
      else if k = ''FONTCONFIG_FILE'' then fontconfig_file (fonts req)
      else if k = ''QT_QPA_FONTDIR'' \<or> k = ''REMAGIC_FONT_DIRECTORIES'' then fds
      else if k = ''SSL_CERT_FILE'' then ca_bundle (certificates req)
      else if k = ''SSL_CERT_DIR'' then ca_directory (certificates req) else None)"
  by (simp add: policy_pairs_def map_add_def map_of_opt_pair split: option.split)

lemma map_of_loader_pairs:
  "map_of (loader_pairs app req libs) k =
     (if k = ''QTFB_KEY'' then (if profile req = QtfbCompat then Some (decimal (qtfb_key_for_app app)) else None)
      else if k = ''LD_LIBRARY_PATH'' then
        (if library_directories libs = [] then None else Some (join_with '':'' (library_directories libs)))
      else None)"
  by (simp add: loader_pairs_def)

lemma map_of_base_pairs:
  "map_of (base_pairs app req dirs p) k =
     (if k = ''HOME'' then Some (home dirs)
      else if k = ''XDG_CONFIG_HOME'' then Some (config_home dirs)
      else if k = ''XDG_DATA_HOME'' then Some (data_home dirs)
      else if k = ''XDG_STATE_HOME'' then Some (state_home dirs)
      else if k = ''XDG_CACHE_HOME'' then Some (cache_home dirs)
      else if k = ''XDG_RUNTIME_DIR'' then Some (runtime_dir dirs)
      else if k = ''LANG'' then Some (lang (locale_req req))
      else if k = ''TZ'' then Some (timezone req)
      else if k = ''PATH'' then Some p
      else if k = ''REMAGIC_APP_ID'' then Some (as_str app)
      else if k = ''REMAGIC_RUNTIME_PROFILE'' then Some (profile_str (profile req)) else None)"
  by (simp add: base_pairs_def)

lemma map_of_network_pairs:
  "map_of (network_pairs n enf) k =
     (if k = ''REMAGIC_NETWORK_POLICY_MODE'' then Some (mode_str (mode n))
      else if k = ''REMAGIC_NETWORK_POLICY_ENFORCEMENT'' then Some (enforcement_str enf)
      else if k = ''REMAGIC_NETWORK_ISOLATED'' then Some (if is_enforced enf then ''1'' else ''0'')
      else if k = ''REMAGIC_NETWORK_ALLOWED_HOSTS'' then Some (join_with '','' (allowed_hosts n))
      else if k = ''REMAGIC_NETWORK_LISTEN_PORT'' then Some (port_text (listen_port n))
      else if k = ''REMAGIC_LISTEN_ADDR'' then Some (listen_address (listen_port n)) else None)"
  by (simp add: network_pairs_def)

lemmas launch_lookup = map_of_launch_pairs map_of_base_pairs map_of_network_pairs map_of_policy_pairs
  map_of_loader_pairs DEVICE_PROFILE_ENV_def

section \<open>Building and checking agree\<close>

definition path_list_ok :: "string \<Rightarrow> bool" where
  "path_list_ok p \<longleftrightarrow>
     p \<noteq> [] \<and> (\<forall>entry \<in> set (split_on (CHR '':'') p). is_absolute entry \<and> ParentDir \<notin> set (path_components entry))"

definition built_environment ::
  "app_id \<Rightarrow> runtime_requirements \<Rightarrow> runtime_directories \<Rightarrow> env_map \<Rightarrow> path list \<Rightarrow> capability list \<Rightarrow> string
    \<Rightarrow> network_enforcement \<Rightarrow> device_profile \<Rightarrow> string \<Rightarrow> string option \<Rightarrow> launch_environment" where
  "built_environment app req dirs app_env libs caps platform_path enf dev json fds =
     \<lparr>env_app = app, device = dev, env_profile = profile req, env_directories = dirs,
      variables = insert_all bt_insert (launch_pairs app req dirs platform_path json enf fds libs) app_env,
      resolved_libraries = libs, platform_capabilities = caps,
      env_locale = locale_req req, env_timezone = timezone req, env_fonts = fonts req,
      env_certificates = certificates req, env_network = network req\<rparr>"

lemma launch_get:
  "bt_get (insert_all bt_insert (launch_pairs app req dirs p json enf fds libs) app_env) k =
     (case map_of (launch_pairs app req dirs p json enf fds libs) k of
        Some v \<Rightarrow> Some v | None \<Rightarrow> bt_get app_env k)"
  unfolding bt.get_insert_all map_of_rev_distinct [OF launch_keys_distinct] ..

lemma app_env_unreserved:
  assumes "bt_ok app_env" "validate_application_environment app_env = Inr ()"
  shows "is_platform_reserved_environment k \<Longrightarrow> bt_get app_env k = None"
    and "bt_get app_env k = Some v \<Longrightarrow> validate_environment_pair k v = Inr ()"
  using assms(2) unfolding validate_application_environment_def for_each_Inr
  by (cases "bt_get app_env k"; force simp: bt_entry_iff [OF assms(1), symmetric])+

lemma reserved_keys:
  "is_platform_reserved_environment ''LC_ALL''" "is_platform_reserved_environment ''FONTCONFIG_FILE''"
  "is_platform_reserved_environment ''QT_QPA_FONTDIR''"
  "is_platform_reserved_environment ''REMAGIC_FONT_DIRECTORIES''"
  "is_platform_reserved_environment ''SSL_CERT_FILE''" "is_platform_reserved_environment ''SSL_CERT_DIR''"
  "is_platform_reserved_environment ''QTFB_KEY''" "is_platform_reserved_environment ''LD_LIBRARY_PATH''"
  by (simp_all add: is_platform_reserved_environment_def)

lemma path_eq_refl [simp]: "path_eq p p"
  by (simp add: path_eq_def)

lemma built_environment_valid:
  assumes env: "bt_ok app_env" "validate_application_environment app_env = Inr ()"
    and req: "requirements_validate req True = Inr ()" "directories req = Some dirs"
    and json: "device_json codec dev = Inr json" and fds: "font_list req = Inr fds"
    and enf: "require_enforcement (network req) \<longrightarrow> is_enforced enf"
    and e_def: "e = built_environment app req dirs app_env libs caps p enf dev json fds"
  shows "environment_validate codec e = Inr () \<longleftrightarrow>
     validate_environment_variables (variables e) = Inr () \<and> path_list_ok p \<and> validate_library_paths libs = Inr ()"
proof -
  note none = app_env_unreserved(1) [OF env]
  have get: "bt_get (variables e) k = (case map_of (launch_pairs app req dirs p json enf fds libs) k of
        Some v \<Rightarrow> Some v | None \<Rightarrow> bt_get app_env k)" for k
    by (simp add: e_def built_environment_def launch_get)
  have dirs: "directories_validate dirs = Inr ()"
    using req by (simp add: requirements_validate_def validate_directories_def)
  have "validate_directory_variables e = Inr ()"
    by (simp add: validate_directory_variables_def required_variable_def get launch_lookup)
      (simp add: e_def built_environment_def)
  moreover have "validate_network_variables e = Inr ()"
    using enf
    by (simp add: validate_network_variables_def validate_exact_variable_def required_variable_def get
        launch_lookup Let_def)
      (auto simp: e_def built_environment_def enforcement_str_def is_enforced_def split: network_enforcement.splits)
  moreover have "validate_identity_variables codec e = Inr () \<longleftrightarrow> path_list_ok p"
  proof -
    have "device_json codec (device e) = Inr json" "env_app e = app" "env_profile e = profile req"
      using json by (simp_all add: e_def built_environment_def)
    moreover have "validate_platform_path (variables e) = Inr () \<longleftrightarrow> path_list_ok p"
      by (simp add: validate_platform_path_def required_variable_def get launch_lookup path_list_ok_def list_ex_iff)
    ultimately show ?thesis
      using none [OF reserved_keys(7)]
      by (simp add: validate_identity_variables_def validate_exact_variable_def required_variable_def get
          launch_lookup Let_def)
  qed
  moreover have "validate_locale_variables e = Inr ()"
    using none [OF reserved_keys(1)]
    by (simp add: validate_locale_variables_def validate_exact_variable_def validate_optional_variable_def
        required_variable_def get launch_lookup split: option.split)
      (simp add: e_def built_environment_def)
  moreover have "validate_font_variables e = Inr ()"
  proof -
    have "env_fonts e = fonts req" by (simp add: e_def built_environment_def)
    moreover have "bt_get (variables e) ''FONTCONFIG_FILE'' = fontconfig_file (fonts req)"
      "bt_get (variables e) ''QT_QPA_FONTDIR'' = fds" "bt_get (variables e) ''REMAGIC_FONT_DIRECTORIES'' = fds"
      using none [OF reserved_keys(2)] none [OF reserved_keys(3)] none [OF reserved_keys(4)]
      by (simp_all add: get launch_lookup split: option.split)
    ultimately show ?thesis
      using fds
      by (auto simp: validate_font_variables_def validate_optional_variable_def font_list_def split: if_splits)
  qed
  moreover have "validate_certificate_variables e = Inr ()"
  proof -
    have "env_certificates e = certificates req" by (simp add: e_def built_environment_def)
    moreover have "bt_get (variables e) ''SSL_CERT_FILE'' = ca_bundle (certificates req)"
      "bt_get (variables e) ''SSL_CERT_DIR'' = ca_directory (certificates req)"
      using none [OF reserved_keys(5)] none [OF reserved_keys(6)]
      by (simp_all add: get launch_lookup split: option.split)
    ultimately show ?thesis
      by (simp add: validate_certificate_variables_def validate_optional_variable_def)
  qed
  moreover have "requirements_validate
            \<lparr>profile = env_profile e, required_libraries = [], directories = Some (env_directories e),
             locale_req = env_locale e, timezone = env_timezone e, fonts = env_fonts e,
             certificates = env_certificates e, network = env_network e,
             background_exec = Continue\<rparr> True = Inr ()"
    using req by (simp add: e_def built_environment_def requirements_validate_def validate_libraries_def)
  moreover have "env_directories e = dirs" "resolved_libraries e = libs"
    by (simp_all add: e_def built_environment_def)
  ultimately show ?thesis
    using dirs by (auto simp: environment_validate_def)
qed

lemma built_variables_valid:
  assumes env: "bt_ok app_env" "validate_application_environment app_env = Inr ()"
  shows "validate_environment_variables
       (insert_all bt_insert (launch_pairs app req dirs p json enf fds libs) app_env) = Inr () \<longleftrightarrow>
     (\<forall>(k, v) \<in> set (launch_pairs app req dirs p json enf fds libs). nul \<notin> set v)"
proof -
  let ?ps = "launch_pairs app req dirs p json enf fds libs"
  have ok: "bt_ok (insert_all bt_insert ?ps app_env)" using env(1) by (rule bt.ok_insert_all)
  have "validate_environment_variables (insert_all bt_insert ?ps app_env) = Inr () \<longleftrightarrow>
      (\<forall>k v. bt_get (insert_all bt_insert ?ps app_env) k = Some v \<longrightarrow> validate_environment_pair k v = Inr ())"
    by (auto simp: validate_environment_variables_def bt_entry_iff [OF ok, symmetric])
  also have "\<dots> \<longleftrightarrow> (\<forall>k v. map_of ?ps k = Some v \<longrightarrow> validate_environment_pair k v = Inr ())"
    using app_env_unreserved(2) [OF env] unfolding launch_get by (auto split: option.splits)
  also have "\<dots> \<longleftrightarrow> (\<forall>(k, v) \<in> set ?ps. validate_environment_pair k v = Inr ())"
    using map_of_eq_Some_iff [OF launch_keys_distinct] by blast
  also have "\<dots> \<longleftrightarrow> (\<forall>(k, v) \<in> set ?ps. nul \<notin> set v)"
    using launch_keys_good by (fastforce simp: validate_environment_pair_def)
  finally show ?thesis .
qed

lemma resolve_iff:
  assumes "bt_ok app_env"
  shows "resolve_environment codec app req app_env libs caps p enf dev = Inr e \<longleftrightarrow>
     requirements_validate req True = Inr () \<and> validate_application_environment app_env = Inr ()
     \<and> validate_required_libraries req libs = Inr () \<and> validate_library_paths libs = Inr ()
     \<and> (require_enforcement (network req) \<longrightarrow> is_enforced enf) \<and> path_list_ok p
     \<and> (\<exists>dirs json fds. directories req = Some dirs \<and> device_json codec dev = Inr json \<and> font_list req = Inr fds
          \<and> (\<forall>(k, v) \<in> set (launch_pairs app req dirs p json enf fds libs). nul \<notin> set v)
          \<and> e = built_environment app req dirs app_env libs caps p enf dev json fds)"
proof -
  have vars: "insert_loader_variables (insert_all bt_insert (policy_pairs req fds)
       (insert_all bt_insert (network_pairs (network req) enf)
         (bt_insert DEVICE_PROFILE_ENV json (base_variables app req dirs app_env p)))) app req libs
     = insert_all bt_insert (launch_pairs app req dirs p json enf fds libs) app_env" for dirs json fds
    by (simp add: loader_pairs_insert base_variables_def launch_pairs_def insert_all_append)
  have "resolve_environment codec app req app_env libs caps p enf dev = Inr e \<longleftrightarrow>
      requirements_validate req True = Inr () \<and> validate_application_environment app_env = Inr ()
     \<and> validate_required_libraries req libs = Inr ()
     \<and> (require_enforcement (network req) \<longrightarrow> is_enforced enf)
     \<and> (\<exists>dirs json fds. directories req = Some dirs \<and> device_json codec dev = Inr json \<and> font_list req = Inr fds
          \<and> environment_validate codec (built_environment app req dirs app_env libs caps p enf dev json fds) = Inr ()
          \<and> e = built_environment app req dirs app_env libs caps p enf dev json fds)"
    unfolding resolve_environment_def Let_def chk_Inr res_bind_Inr ok_or_Inr insert_network_variables_def
      if_Inl_Inr optional_pairs built_environment_def
    by (auto simp: vars [symmetric])
  also have "\<dots> \<longleftrightarrow> requirements_validate req True = Inr () \<and> validate_application_environment app_env = Inr ()
     \<and> validate_required_libraries req libs = Inr () \<and> validate_library_paths libs = Inr ()
     \<and> (require_enforcement (network req) \<longrightarrow> is_enforced enf) \<and> path_list_ok p
     \<and> (\<exists>dirs json fds. directories req = Some dirs \<and> device_json codec dev = Inr json \<and> font_list req = Inr fds
          \<and> (\<forall>(k, v) \<in> set (launch_pairs app req dirs p json enf fds libs). nul \<notin> set v)
          \<and> e = built_environment app req dirs app_env libs caps p enf dev json fds)"
    using built_environment_valid [OF assms _ _ _ _ _ _ refl] built_variables_valid [OF assms]
    by (auto simp: built_environment_def)
  finally show ?thesis .
qed

section \<open>The properties\<close>

text \<open>C32: \<open>resolve\<close> succeeds exactly when its inputs are in order: the requirements, the application's own
  variables, the libraries, the network enforcement and the platform path pass their checks, the device
  profile can be encoded, no font directory contains the list separator and no platform value contains
  a NUL byte. Its own closing check of the finished environment rejects nothing else, and the result is
  the application's variables overwritten by the platform's.\<close>

theorem resolve_succeeds_exactly:
  assumes "bt_ok app_env"
  shows "resolve_environment codec app req app_env libs caps p enf dev = Inr e \<longleftrightarrow>
     requirements_validate req True = Inr () \<and> validate_application_environment app_env = Inr ()
     \<and> validate_required_libraries req libs = Inr () \<and> validate_library_paths libs = Inr ()
     \<and> (require_enforcement (network req) \<longrightarrow> is_enforced enf) \<and> path_list_ok p
     \<and> (\<exists>dirs json fds. directories req = Some dirs \<and> device_json codec dev = Inr json \<and> font_list req = Inr fds
          \<and> (\<forall>(k, v) \<in> set (launch_pairs app req dirs p json enf fds libs). nul \<notin> set v)
          \<and> e = built_environment app req dirs app_env libs caps p enf dev json fds)"
  using assms by (rule resolve_iff)

definition demo_codec :: profile_codec where
  "demo_codec = \<lparr>encode_profile = (\<lambda>d. Inr (codename d)), error_text = (\<lambda>_. [])\<rparr>"

definition demo_requirements :: runtime_requirements where
  "demo_requirements =
     \<lparr>profile = QtfbCompat, required_libraries = [''libqtfb.so''], directories = Some demo_directories,
      locale_req = locale_policy_default, timezone = ''UTC'',
      fonts = \<lparr>font_directories = [''/usr/share/fonts''], fontconfig_file = None\<rparr>,
      certificates = \<lparr>certificates_required = False, ca_bundle = None, ca_directory = None\<rparr>,
      network = \<lparr>mode = LanPeer, allowed_hosts = [], listen_port = Some 8080, require_enforcement = False\<rparr>,
      background_exec = Continue\<rparr>"

definition demo_resolve :: "env_map \<Rightarrow> runtime_validation_error + launch_environment" where
  "demo_resolve app_env =
     resolve_environment demo_codec (AppId ''reader'') demo_requirements app_env
       [''/opt/lib/libqtfb.so''] [] ''/usr/bin:/bin'' MetadataOnly (for_product PaperPro ''3.27.0'')"

theorem resolve_succeeds_exactly_witness:
  "validate_library_paths [''/opt/lib/libqtfb.so''] = Inr () \<and> path_list_ok ''/usr/bin:/bin''"
proof -
  have "bt_ok [(''FOO'', ''1'')]" by simp
  from resolve_succeeds_exactly [OF this, of demo_codec "AppId ''reader''" demo_requirements
      "[''/opt/lib/libqtfb.so'']" "[]" "''/usr/bin:/bin''" MetadataOnly "for_product PaperPro ''3.27.0''"]
  have "\<exists>e. demo_resolve [(''FOO'', ''1'')] = Inr e \<Longrightarrow> ?thesis" by (auto simp: demo_resolve_def)
  moreover have "demo_resolve [(''FOO'', ''1'')] = Inr (projr (demo_resolve [(''FOO'', ''1'')]))" by code_simp
  ultimately show ?thesis by blast
qed



text \<open>A preflight report that claims compatibility and passes its check can be launched: it carries an
  environment for the same application and profile that itself passes the check, no check failed and
  nothing is missing; and a report that withholds the claim does have a failure to show.\<close>

theorem compatible_report_can_launch:
  assumes "preflight_validate codec r = Inr ()"
  shows "(compatible r \<longrightarrow>
       (\<exists>e. report_environment r = Some e \<and> environment_validate codec e = Inr ()
          \<and> env_app e = report_app r \<and> env_profile e = report_profile r)
       \<and> (\<forall>c \<in> set (checks r). status c \<noteq> Failed) \<and> missing_capabilities r = [] \<and> missing_libraries r = [])
     \<and> (\<not> compatible r \<longrightarrow>
       (\<exists>c \<in> set (checks r). status c = Failed) \<or> missing_capabilities r \<noteq> [] \<or> missing_libraries r \<noteq> [])
     \<and> distinct (map check_id (checks r))"
  using assms
  by (auto simp: preflight_validate_def computed_compatible_def list_all_iff split: if_splits)

definition demo_report :: preflight_report where
  "demo_report =
     \<lparr>report_app = AppId ''reader'', report_profile = QtfbCompat, compatible = True,
      checks = [\<lparr>check_id = ''device'', status = Passed, message = []\<rparr>],
      missing_capabilities = [], missing_libraries = [],
      report_environment = Some (projr (demo_resolve []))\<rparr>"

theorem compatible_report_can_launch_witness:
  "\<exists>e. report_environment demo_report = Some e \<and> environment_validate demo_codec e = Inr ()"
proof -
  have "preflight_validate demo_codec demo_report = Inr ()" "compatible demo_report" by code_simp+
  then show ?thesis using compatible_report_can_launch by blast
qed

end
