(* ===== verification/Manifest.thy ===== *)
theory Manifest
  imports Launch_Environment
begin

text \<open>
  Application manifests: the data and the startup budget (\<open>remagic-core/src/manifest.rs\<close>), every check
  of \<open>validate\<close> (\<open>manifest/validation.rs\<close>) and the loading of a directory of manifests
  (\<open>manifest/store.rs\<close>). The TOML parser, the directory listing, the file reads and
  \<open>canonicalize\<close> are arguments.
\<close>

section \<open>Data\<close>

datatype park_strategy = Restart | Resident

datatype app_kind = User | System

datatype uninstall_policy = KeepData | Purge

definition MANIFEST_SCHEMA_V1 :: u32 where "MANIFEST_SCHEMA_V1 = 1"
definition MANIFEST_SCHEMA_V2 :: u32 where "MANIFEST_SCHEMA_V2 = 2"
definition REMAGIC_APP_API_VERSION :: u32 where "REMAGIC_APP_API_VERSION = 6"
definition MAX_STARTUP_TIMEOUT_MS :: u64 where "MAX_STARTUP_TIMEOUT_MS = 1450000"
definition SCHEMA_COMMIT_GRACE_MS :: u64 where "SCHEMA_COMMIT_GRACE_MS = 10000"
definition MAX_SHUTDOWN_KILL_TIMEOUT_MS :: u64 where "MAX_SHUTDOWN_KILL_TIMEOUT_MS = 5500"

datatype readiness_mode = Process | Lifecycle | FirstFrame | ReadyFile

record readiness_policy =
  ready_mode :: readiness_mode
  ready_timeout_ms :: u64
  ready_path :: "path option"

definition readiness_policy_default :: readiness_policy where
  "readiness_policy_default = \<lparr>ready_mode = Process, ready_timeout_ms = 15000, ready_path = None\<rparr>"

record shutdown_policy =
  graceful_timeout_ms :: u64
  term_timeout_ms :: u64
  kill_timeout_ms :: u64

definition shutdown_policy_default :: shutdown_policy where
  "shutdown_policy_default = \<lparr>graceful_timeout_ms = 3500, term_timeout_ms = 4500, kill_timeout_ms = 5500\<rparr>"

datatype background_restart_policy = Never | OnFailure | Always

datatype background_service =
    ManagedService path "string list" path background_restart_policy
  | SystemdUnit string

record data_schema =
  data_version :: u32
  migrator :: "path option"
  backup_paths :: "path list"
  backup_timeout_ms :: u64
  migration_timeout_ms :: u64

record sync_provider =
  sync_schema :: u32
  exporter :: path
  importer :: path
  data_kinds :: "string list"
  sync_timeout_ms :: u64

record app_manifest =
  m_schema :: u32
  m_id :: app_id
  m_name :: string
  m_kind :: app_kind
  m_description :: string
  m_version :: string
  m_icon :: "path option"
  m_package :: "string option"
  m_supported_devices :: "device_product list"
  m_supported_os :: "string list"
  m_required_remagic_api :: u32
  m_uninstall_policy :: uninstall_policy
  m_exec :: path
  m_args :: "string list"
  m_working_dir :: path
  m_display :: string
  m_park_strategy :: park_strategy
  m_resident :: bool
  m_capabilities :: "capability list"
  m_readiness :: readiness_policy
  m_shutdown :: shutdown_policy
  m_background_service :: "background_service option"
  m_data_schema :: "data_schema option"
  m_sync_provider :: "sync_provider option"
  m_runtime :: runtime_requirements
  m_background_unit :: "string option"
  m_supports_open_path :: bool
  m_allowed_open_roots :: "path list"
  m_environment :: env_map

text \<open>\<open>ManifestError::InvalidId\<close>, the answer of \<open>AppId::new\<close>, is \<^typ>\<open>id_error\<close>.\<close>

datatype manifest_error =
    UnsupportedManifestSchema u32
  | EmptyName string
  | UnsafeManifestPath string path
  | UnsupportedDisplay string
  | UnsafeEnvironment string
  | InvalidArgument
  | DuplicateCapability string
  | DuplicateSupportedDevice device_product
  | InvalidSupportedOs string
  | UnsupportedRemagicApi u32
  | InvalidReadinessTimeout u64
  | MissingReadinessPath
  | UnexpectedReadinessPath
  | InvalidShutdownPolicy u64 u64 u64
  | InvalidSystemdUnit string
  | ConflictingResidentPolicy
  | FreezeRequiresV2
  | FreezeRequiresResident
  | FreezeRequiresLifecycleV2
  | LegacyFieldInV2 string
  | RuntimeDisplayMismatch runtime_profile string string
  | MissingRuntimeCapability runtime_profile string
  | HeadlessDisplayCapability
  | NetworkCapabilityMismatch network_mode string
  | InvalidDataSchemaVersion
  | DataSchemaRequiresV2
  | SyncProviderRequiresV2
  | InvalidSyncProviderSchema u32
  | InvalidSyncProviderTimeout u64
  | InvalidSyncDataKind string
  | InvalidBackupTimeout u64
  | InvalidMigrationTimeout u64
  | DuplicateBackupPath path
  | OverlappingBackupPaths path path
  | RuntimeError runtime_validation_error
  | OpenPathUnsupported string
  | OpenPathDenied path
  | CanonicalizeError path string
  | ReadDirError path string
  | ReadManifestError path string
  | ParseError path string
  | DuplicateId path

section \<open>The startup budget\<close>

definition startup_timeout_ms :: "app_manifest \<Rightarrow> u64" where
  "startup_timeout_ms m =
     (let (backup, migration, grace) =
            (case m_data_schema m of
               None \<Rightarrow> (0, 0, 0)
             | Some d \<Rightarrow> (backup_timeout_ms d, migration_timeout_ms d, SCHEMA_COMMIT_GRACE_MS));
          ready = ready_timeout_ms (m_readiness m)
      in min (sat_add (sat_add (sat_add (sat_add backup migration) grace) ready)
                (if m_display m = ''qtfb'' then ready else 0))
             MAX_STARTUP_TIMEOUT_MS)"

section \<open>Checks\<close>

definition manifest_absolute :: "string \<Rightarrow> path \<Rightarrow> manifest_error + unit" where
  "manifest_absolute field p =
     guard (\<not> is_absolute p \<or> list_ex (\<lambda>c. c = ParentDir \<or> c = CurDir) (path_components p))
       (UnsafeManifestPath field p)"

definition has_capability :: "app_manifest \<Rightarrow> string \<Rightarrow> bool" where
  "has_capability m required = list_ex (\<lambda>c. cap_str c = required) (m_capabilities m)"

definition in_range :: "u64 \<Rightarrow> u64 \<Rightarrow> u64 \<Rightarrow> bool" where
  "in_range lo hi x = (lo \<le> x \<and> x \<le> hi)"

definition validate_background_execution :: "app_manifest \<Rightarrow> manifest_error + unit" where
  "validate_background_execution m =
     (if \<not> freezes_process (background_exec (m_runtime m)) then Inr ()
      else chk (guard (m_schema m \<noteq> MANIFEST_SCHEMA_V2) FreezeRequiresV2)
          (chk (guard (\<not> m_resident m) FreezeRequiresResident)
               (guard (\<not> has_capability m ''lifecycle:v2'') FreezeRequiresLifecycleV2)))"

definition validate_identity_and_paths :: "app_manifest \<Rightarrow> manifest_error + unit" where
  "validate_identity_and_paths m =
     chk (guard (\<not> (m_schema m = MANIFEST_SCHEMA_V1 \<or> m_schema m = MANIFEST_SCHEMA_V2))
            (UnsupportedManifestSchema (m_schema m)))
    (chk (guard (is_blank (m_name m)) (EmptyName (as_str (m_id m))))
    (chk (manifest_absolute ''exec'' (m_exec m))
    (chk (manifest_absolute ''working_dir'' (m_working_dir m))
    (chk (opt_check (manifest_absolute ''icon'') (m_icon m))
    (chk (for_each (manifest_absolute ''allowed_open_roots'') (m_allowed_open_roots m))
         (guard (m_display m \<notin> set [''qtfb'', ''quill'', ''einkface'', ''none''])
            (UnsupportedDisplay (m_display m))))))))"

definition RESERVED_ENV :: "string list" where
  "RESERVED_ENV = [''PATH'', ''REMAGIC_SOCKET'', ''REMAGIC_APP_ID'', ''REMAGIC_LAUNCH_ID'']"

definition validate_manifest_environment :: "app_manifest \<Rightarrow> manifest_error + unit" where
  "validate_manifest_environment m =
     for_each (\<lambda>(key, val).
         guard (key = [] \<or> CHR ''='' \<in> set key \<or> nul \<in> set key \<or> key \<in> set RESERVED_ENV \<or> nul \<in> set val
                \<or> (m_schema m = MANIFEST_SCHEMA_V2
                   \<and> (is_platform_reserved_environment key
                      \<or> validate_environment_pair key val \<noteq> Inr ())))
           (UnsafeEnvironment key))
       (m_environment m)"

definition validate_arguments_and_capabilities :: "app_manifest \<Rightarrow> manifest_error + unit" where
  "validate_arguments_and_capabilities m =
     chk (guard (list_ex (\<lambda>arg. nul \<in> set arg) (m_args m)) InvalidArgument)
         (for_unique (\<lambda>_. Inr ()) (\<lambda>c. c) (\<lambda>c. DuplicateCapability (cap_str c)) [] (m_capabilities m))"

definition validate_compatibility :: "app_manifest \<Rightarrow> manifest_error + unit" where
  "validate_compatibility m =
     chk (guard (\<not> (1 \<le> m_required_remagic_api m \<and> m_required_remagic_api m \<le> REMAGIC_APP_API_VERSION))
            (UnsupportedRemagicApi (m_required_remagic_api m)))
    (chk (for_unique (\<lambda>_. Inr ()) (\<lambda>d. d) DuplicateSupportedDevice [] (m_supported_devices m))
         (for_unique (\<lambda>v. guard (is_blank v) (InvalidSupportedOs v)) (\<lambda>v. v) InvalidSupportedOs []
            (m_supported_os m)))"

definition validate_readiness :: "app_manifest \<Rightarrow> manifest_error + unit" where
  "validate_readiness m =
     (let r = m_readiness m in
      chk (guard (\<not> in_range 100 120000 (ready_timeout_ms r)) (InvalidReadinessTimeout (ready_timeout_ms r)))
          (case ready_path r of
             Some p \<Rightarrow>
               if ready_mode r = ReadyFile then manifest_absolute ''readiness.path'' p
               else Inl UnexpectedReadinessPath
           | None \<Rightarrow> guard (ready_mode r = ReadyFile) MissingReadinessPath))"

definition validate_shutdown :: "app_manifest \<Rightarrow> manifest_error + unit" where
  "validate_shutdown m =
     (let p = m_shutdown m in
      guard (graceful_timeout_ms p < 100 \<or> graceful_timeout_ms p > term_timeout_ms p
             \<or> term_timeout_ms p > kill_timeout_ms p \<or> kill_timeout_ms p > MAX_SHUTDOWN_KILL_TIMEOUT_MS)
        (InvalidShutdownPolicy (graceful_timeout_ms p) (term_timeout_ms p) (kill_timeout_ms p)))"

definition validate_background_service :: "app_manifest \<Rightarrow> manifest_error + unit" where
  "validate_background_service m =
     (case m_background_service m of
        None \<Rightarrow> Inr ()
      | Some (ManagedService exec args working_dir _) \<Rightarrow>
          chk (manifest_absolute ''background_service.exec'' exec)
         (chk (manifest_absolute ''background_service.working_dir'' working_dir)
              (guard (list_ex (\<lambda>a. nul \<in> set a) args) InvalidArgument))
      | Some (SystemdUnit unt) \<Rightarrow>
          guard (\<not> (unt \<noteq> [] \<and> length unt \<le> 128 \<and> ends_with unt ''.service''
                    \<and> list_all (\<lambda>b. is_ascii_alphanumeric b
                         \<or> b \<in> set [CHR ''-'', CHR ''_'', CHR ''.'', CHR ''@'']) unt))
            (InvalidSystemdUnit unt))"

text \<open>The two nested loops over the backup paths.\<close>

fun overlap_scan :: "path list \<Rightarrow> manifest_error + unit" where
  "overlap_scan [] = Inr ()"
| "overlap_scan (p # ps) =
     chk (for_each (\<lambda>q. guard (path_starts_with p q \<or> path_starts_with q p) (OverlappingBackupPaths p q)) ps)
         (overlap_scan ps)"

definition validate_data_schema :: "app_manifest \<Rightarrow> manifest_error + unit" where
  "validate_data_schema m =
     (case m_data_schema m of
        None \<Rightarrow> Inr ()
      | Some d \<Rightarrow>
          chk (guard (m_schema m \<noteq> MANIFEST_SCHEMA_V2) DataSchemaRequiresV2)
         (chk (guard (data_version d = 0) InvalidDataSchemaVersion)
         (chk (guard (\<not> in_range 100 600000 (backup_timeout_ms d)) (InvalidBackupTimeout (backup_timeout_ms d)))
         (chk (guard (\<not> in_range 100 600000 (migration_timeout_ms d))
                 (InvalidMigrationTimeout (migration_timeout_ms d)))
         (chk (opt_check (manifest_absolute ''data_schema.migrator'') (migrator d))
         (chk (for_unique (manifest_absolute ''data_schema.backup_paths'') path_components DuplicateBackupPath []
                 (backup_paths d))
              (overlap_scan (backup_paths d))))))))"

definition validate_sync_provider :: "app_manifest \<Rightarrow> manifest_error + unit" where
  "validate_sync_provider m =
     (case m_sync_provider m of
        None \<Rightarrow> Inr ()
      | Some s \<Rightarrow>
          chk (guard (m_schema m \<noteq> MANIFEST_SCHEMA_V2) SyncProviderRequiresV2)
         (chk (guard (sync_schema s \<noteq> 1) (InvalidSyncProviderSchema (sync_schema s)))
         (chk (guard (\<not> in_range 1000 120000 (sync_timeout_ms s)) (InvalidSyncProviderTimeout (sync_timeout_ms s)))
         (chk (manifest_absolute ''sync_provider.exporter'' (exporter s))
         (chk (manifest_absolute ''sync_provider.importer'' (importer s))
              (for_unique
                 (\<lambda>k. guard (\<not> (k \<noteq> [] \<and> length k \<le> 64
                                \<and> list_all (\<lambda>b. is_ascii_lowercase b \<or> is_ascii_digit b \<or> b = CHR ''_'') k))
                        (InvalidSyncDataKind k))
                 (\<lambda>k. k) InvalidSyncDataKind [] (data_kinds s)))))))"

definition validate_v2_runtime_contract :: "app_manifest \<Rightarrow> manifest_error + unit" where
  "validate_v2_runtime_contract m =
     (let prof = profile (m_runtime m);
          expected_display = (case prof of QtfbCompat \<Rightarrow> ''qtfb'' | NativeV2 \<Rightarrow> ''quill'' | Headless \<Rightarrow> ''none'');
          required = (case prof of QtfbCompat \<Rightarrow> Some ''display:qtfb-v1''
                      | NativeV2 \<Rightarrow> Some ''display:surface-v2'' | Headless \<Rightarrow> None);
          outbound = has_capability m ''network:outbound-v1'';
          inbound = has_capability m ''network:listen-v1'';
          lan_peer = has_capability m ''network:lan-peer-v1'';
          net = mode (network (m_runtime m))
      in
      chk (guard (m_display m \<noteq> expected_display)
             (RuntimeDisplayMismatch prof expected_display (m_display m)))
     (chk (case required of
             Some r \<Rightarrow> guard (\<not> has_capability m r) (MissingRuntimeCapability prof r)
           | None \<Rightarrow> guard (list_ex (\<lambda>c. starts_with (cap_str c) ''display:'') (m_capabilities m))
                      HeadlessDisplayCapability)
          (case net of
             Deny \<Rightarrow> guard (outbound \<or> inbound \<or> lan_peer)
                       (NetworkCapabilityMismatch Deny ''no network capability'')
           | HttpsOnly \<Rightarrow> guard (\<not> outbound \<or> inbound \<or> lan_peer)
                       (NetworkCapabilityMismatch net ''only network:outbound-v1'')
           | Outbound \<Rightarrow> guard (\<not> outbound \<or> inbound \<or> lan_peer)
                       (NetworkCapabilityMismatch net ''only network:outbound-v1'')
           | Inbound \<Rightarrow> guard (\<not> inbound \<or> outbound \<or> lan_peer)
                       (NetworkCapabilityMismatch net ''only network:listen-v1'')
           | LanPeer \<Rightarrow> guard (\<not> lan_peer \<or> outbound \<or> inbound)
                       (NetworkCapabilityMismatch net ''only network:lan-peer-v1''))))"

definition validate_v2_fields :: "app_manifest \<Rightarrow> manifest_error + unit" where
  "validate_v2_fields m =
     chk (guard (m_park_strategy m = Resident \<and> \<not> m_resident m) ConflictingResidentPolicy)
    (chk (guard (m_background_unit m \<noteq> None) (LegacyFieldInV2 ''background_unit''))
         (validate_v2_runtime_contract m))"

definition manifest_validate :: "app_manifest \<Rightarrow> manifest_error + unit" where
  "manifest_validate m =
     chk (validate_identity_and_paths m)
    (chk (validate_manifest_environment m)
    (chk (validate_arguments_and_capabilities m)
    (chk (validate_compatibility m)
    (chk (validate_readiness m)
    (chk (validate_shutdown m)
    (chk (validate_background_service m)
    (chk (validate_data_schema m)
    (chk (validate_sync_provider m)
    (chk (map_err RuntimeError (requirements_validate (m_runtime m) (m_schema m = MANIFEST_SCHEMA_V2)))
    (chk (validate_background_execution m)
         (if m_schema m = MANIFEST_SCHEMA_V2 then validate_v2_fields m else Inr ())))))))))))"

section \<open>Queries\<close>

definition is_resident :: "app_manifest \<Rightarrow> bool" where
  "is_resident m =
     (if m_schema m = MANIFEST_SCHEMA_V1 then m_park_strategy m = Resident else m_resident m)"

definition manifest_profile :: "app_manifest \<Rightarrow> runtime_profile" where
  "manifest_profile m =
     (if m_schema m = MANIFEST_SCHEMA_V1
      then (if m_display m = ''qtfb'' \<or> m_display m = ''einkface'' then QtfbCompat
            else if m_display m = ''none'' then Headless else NativeV2)
      else profile (m_runtime m))"

definition effective_background_service :: "app_manifest \<Rightarrow> background_service option" where
  "effective_background_service m =
     (case m_background_service m of
        Some s \<Rightarrow> Some s
      | None \<Rightarrow> map_option SystemdUnit (m_background_unit m))"

definition validate_open_path :: "(path \<Rightarrow> string + path) \<Rightarrow> app_manifest \<Rightarrow> path \<Rightarrow> manifest_error + path" where
  "validate_open_path canonicalize m p =
     (if \<not> m_supports_open_path m then Inl (OpenPathUnsupported (as_str (m_id m)))
      else res_bind (map_err (CanonicalizeError p) (canonicalize p)) (\<lambda>canonical.
        if list_ex (\<lambda>root. case canonicalize root of
             Inl _ \<Rightarrow> False
           | Inr r \<Rightarrow> path_eq canonical r \<or> path_starts_with canonical r) (m_allowed_open_roots m)
        then Inr canonical
        else Inl (OpenPathDenied canonical)))"

section \<open>The store\<close>

text \<open>What \<open>read_dir\<close> answers, and for each entry an error or its path.\<close>

datatype dir_failure = DirNotFound | DirFailure string

type_synonym dir_listing = "dir_failure + (string + path) list"

fun load_entries ::
  "path \<Rightarrow> (path \<Rightarrow> string + string) \<Rightarrow> (string \<Rightarrow> string + app_manifest) \<Rightarrow> (string + path) list
    \<Rightarrow> (app_id, app_manifest) btree \<Rightarrow> manifest_error + (app_id, app_manifest) btree" where
  "load_entries root read toml [] acc = Inr acc"
| "load_entries root read toml (entry # entries) acc =
     res_bind (map_err (ReadDirError root) entry) (\<lambda>p.
     if extension p \<noteq> Some ''toml'' then load_entries root read toml entries acc
     else
       res_bind (map_err (ReadManifestError p) (read p)) (\<lambda>txt.
       res_bind (map_err (ParseError p) (toml txt)) (\<lambda>m.
       chk (manifest_validate m)
           (if bt_get acc (m_id m) \<noteq> None then Inl (DuplicateId p)
            else load_entries root read toml entries (bt_insert (m_id m) m acc)))))"

definition load_all ::
  "path \<Rightarrow> (path \<Rightarrow> string + string) \<Rightarrow> (string \<Rightarrow> string + app_manifest) \<Rightarrow> dir_listing
    \<Rightarrow> manifest_error + (app_id, app_manifest) btree" where
  "load_all root read toml listing =
     (case listing of
        Inl DirNotFound \<Rightarrow> Inr []
      | Inl (DirFailure e) \<Rightarrow> Inl (ReadDirError root e)
      | Inr entries \<Rightarrow> load_entries root read toml entries [])"

section \<open>Lemmas\<close>

lemma manifest_absolute_Inr [simp]:
  "manifest_absolute field p = Inr u \<longleftrightarrow> is_absolute p \<and> ParentDir \<notin> set (path_components p)"
  using absolute_no_CurDir [of p] by (auto simp: manifest_absolute_def list_ex_iff)

lemma unat_min_word: "unat (min a b) = min (unat a) (unat b)" for a b :: "'w::len word"
  by (simp add: min_def word_le_nat_alt)

lemma in_range_nat:
  "in_range lo hi x \<Longrightarrow> unat lo \<le> unat x \<and> unat x \<le> unat hi"
  by (simp add: in_range_def word_le_nat_alt)

lemma small_sum: "unat a + unat b < 2 ^ 64 \<Longrightarrow> unat (sat_add a b) = unat a + unat b" for a b :: u64
  by (simp add: unat_sat_add)

lemma overlap_scan_Inr:
  "overlap_scan ps = Inr () \<longleftrightarrow>
     (\<forall>i j. i < j \<and> j < length ps \<longrightarrow>
        \<not> path_starts_with (ps ! i) (ps ! j) \<and> \<not> path_starts_with (ps ! j) (ps ! i))"
proof (induction ps)
  case (Cons p ps)
  have "(\<forall>i j. i < j \<and> j < length (p # ps) \<longrightarrow>
        \<not> path_starts_with ((p # ps) ! i) ((p # ps) ! j) \<and> \<not> path_starts_with ((p # ps) ! j) ((p # ps) ! i))
    \<longleftrightarrow> (\<forall>q \<in> set ps. \<not> path_starts_with p q \<and> \<not> path_starts_with q p)
      \<and> (\<forall>i j. i < j \<and> j < length ps \<longrightarrow>
           \<not> path_starts_with (ps ! i) (ps ! j) \<and> \<not> path_starts_with (ps ! j) (ps ! i))" (is "?l = (?a \<and> ?b)")
  proof
    assume l: ?l
    have ?a using l by (metis Suc_less_eq2 in_set_conv_nth length_Cons nth_Cons_0 nth_Cons_Suc zero_less_Suc)
    moreover have ?b using l by (metis Suc_less_eq length_Cons nth_Cons_Suc)
    ultimately show "?a \<and> ?b" ..
  next
    assume "?a \<and> ?b"
    then show ?l by (auto simp: nth_Cons split: nat.splits)
  qed
  with Cons.IH show ?case by simp
qed simp

lemma validated_app_environment:
  assumes "validate_manifest_environment m = Inr ()" "m_schema m = MANIFEST_SCHEMA_V2"
  shows "validate_application_environment (m_environment m) = Inr ()"
  using assms by (auto simp: validate_manifest_environment_def validate_application_environment_def)

lemma load_entries_ok:
  assumes "load_entries root read toml entries acc = Inr res" and "bt_ok acc"
  shows "bt_ok res
    \<and> (\<forall>a m. bt_get res a = Some m \<longleftrightarrow>
         bt_get acc a = Some m
         \<or> m_id m = a \<and> (\<exists>p txt. Inr p \<in> set entries \<and> extension p = Some ''toml'' \<and> read p = Inr txt \<and> toml txt = Inr m))
    \<and> (\<forall>p. Inr p \<in> set entries \<and> extension p = Some ''toml'' \<longrightarrow>
         (\<exists>txt m. read p = Inr txt \<and> toml txt = Inr m \<and> manifest_validate m = Inr ()))"
  using assms
proof (induction root read toml entries acc rule: load_entries.induct)
  case (1 root read toml acc)
  then show ?case by simp
next
  case (2 root read toml entry entries acc)
  from "2.prems"(1) obtain p where p: "entry = Inr p" by auto
  show ?case
  proof (cases "extension p = Some ''toml''")
    case False
    with "2.prems" p "2.IH"(1) [of p] show ?thesis by auto
  next
    case True
    with "2.prems"(1) p obtain tx m where m: "read p = Inr tx" "toml tx = Inr m" "manifest_validate m = Inr ()"
      "bt_get acc (m_id m) = None" "load_entries root read toml entries (bt_insert (m_id m) m acc) = Inr res"
      by (auto split: if_splits)
    have IH: "bt_ok res
    \<and> (\<forall>a n. bt_get res a = Some n \<longleftrightarrow>
         bt_get (bt_insert (m_id m) m acc) a = Some n
         \<or> m_id n = a \<and> (\<exists>p txt. Inr p \<in> set entries \<and> extension p = Some ''toml'' \<and> read p = Inr txt \<and> toml txt = Inr n))
    \<and> (\<forall>p. Inr p \<in> set entries \<and> extension p = Some ''toml'' \<longrightarrow>
         (\<exists>txt m. read p = Inr txt \<and> toml txt = Inr m \<and> manifest_validate m = Inr ()))"
      using "2.IH"(2) [of p m] p True m "2.prems"(2) by simp
    have ins: "bt_get (bt_insert (m_id m) m acc) a = Some n \<longleftrightarrow> bt_get acc a = Some n \<or> a = m_id m \<and> n = m" for a n
      using m(4) by auto
    have more: "(\<exists>q t. Inr q \<in> set (entry # entries) \<and> extension q = Some ''toml'' \<and> read q = Inr t \<and> toml t = Inr n)
      \<longleftrightarrow> n = m \<or> (\<exists>q t. Inr q \<in> set entries \<and> extension q = Some ''toml'' \<and> read q = Inr t \<and> toml t = Inr n)" for n
      using m(1,2) True p by auto
    have every: "(\<forall>q. Inr q \<in> set (entry # entries) \<and> extension q = Some ''toml'' \<longrightarrow>
         (\<exists>t n. read q = Inr t \<and> toml t = Inr n \<and> manifest_validate n = Inr ()))
      \<longleftrightarrow> (\<forall>q. Inr q \<in> set entries \<and> extension q = Some ''toml'' \<longrightarrow>
         (\<exists>t n. read q = Inr t \<and> toml t = Inr n \<and> manifest_validate n = Inr ()))"
      using m(1-3) p by auto
    show ?thesis
      using IH unfolding ins more every by blast
  qed
qed

section \<open>The properties\<close>

text \<open>C40: the startup budget of a checked manifest is exact: it is the sum of the allowances of the phases
  that run one after the other, with the readiness time counted twice for the bridge display, so
  neither the saturating additions nor the platform maximum ever cut a phase short.\<close>

theorem startup_budget_is_exact:
  assumes "manifest_validate m = Inr ()"
  shows "unat (startup_timeout_ms m) =
       (case m_data_schema m of
          None \<Rightarrow> 0
        | Some d \<Rightarrow> unat (backup_timeout_ms d) + unat (migration_timeout_ms d) + unat SCHEMA_COMMIT_GRACE_MS)
       + (if m_display m = ''qtfb'' then 2 else 1) * unat (ready_timeout_ms (m_readiness m))"
proof -
  define r where r: "r = ready_timeout_ms (m_readiness m)"
  have ready: "unat r \<le> 120000"
    using assms in_range_nat [of 100 120000 r] by (simp add: manifest_validate_def validate_readiness_def Let_def r)
  define q where q: "q = (if m_display m = ''qtfb'' then r else 0)"
  have sum: "unat (min (sat_add (sat_add (sat_add (sat_add b g) c) r) q) MAX_STARTUP_TIMEOUT_MS)
      = unat b + unat g + unat c + unat r + unat q"
    if "unat b \<le> 600000" "unat g \<le> 600000" "unat c \<le> 10000" for b g c :: u64
  proof -
    have "unat q \<le> 120000" using ready by (simp add: q)
    then show ?thesis
      using ready that by (simp add: unat_min_word small_sum MAX_STARTUP_TIMEOUT_MS_def)
  qed
  have q2: "unat r + unat q = (if m_display m = ''qtfb'' then 2 else 1) * unat r"
    by (simp add: q)
  show ?thesis
  proof (cases "m_data_schema m")
    case None
    then have "startup_timeout_ms m = min (sat_add (sat_add (sat_add (sat_add 0 0) 0) r) q) MAX_STARTUP_TIMEOUT_MS"
      by (simp add: startup_timeout_ms_def Let_def r q)
    then show ?thesis
      using sum [of 0 0 0] q2 None by (simp add: r [symmetric])
  next
    case (Some d)
    have "unat (backup_timeout_ms d) \<le> 600000" "unat (migration_timeout_ms d) \<le> 600000"
      using assms Some in_range_nat [of 100 600000 "backup_timeout_ms d"]
        in_range_nat [of 100 600000 "migration_timeout_ms d"]
      by (simp_all add: manifest_validate_def validate_data_schema_def)
    moreover have "unat SCHEMA_COMMIT_GRACE_MS \<le> 10000" by (simp add: SCHEMA_COMMIT_GRACE_MS_def)
    moreover have "startup_timeout_ms m =
        min (sat_add (sat_add (sat_add (sat_add (backup_timeout_ms d) (migration_timeout_ms d))
               SCHEMA_COMMIT_GRACE_MS) r) q) MAX_STARTUP_TIMEOUT_MS"
      using Some by (simp add: startup_timeout_ms_def Let_def r q)
    ultimately show ?thesis
      using sum [of "backup_timeout_ms d" "migration_timeout_ms d" SCHEMA_COMMIT_GRACE_MS] q2 Some
      by (simp add: r [symmetric])
  qed
qed

definition demo_manifest :: app_manifest where
  "demo_manifest =
     \<lparr>m_schema = 2, m_id = AppId ''reader'', m_name = ''Reader'', m_kind = User, m_description = [],
      m_version = ''1.0'', m_icon = None, m_package = None, m_supported_devices = [PaperPro],
      m_supported_os = [], m_required_remagic_api = 6, m_uninstall_policy = KeepData,
      m_exec = ''/opt/reader/bin'', m_args = [], m_working_dir = ''/opt/reader'', m_display = ''qtfb'',
      m_park_strategy = Restart, m_resident = True,
      m_capabilities = [Capability ''display:qtfb-v1'', Capability ''network:lan-peer-v1'', Capability ''lifecycle:v2''],
      m_readiness = readiness_policy_default, m_shutdown = shutdown_policy_default,
      m_background_service = None,
      m_data_schema = Some \<lparr>data_version = 1, migrator = None,
        backup_paths = [''/data/a'', ''/data/b''], backup_timeout_ms = 600000, migration_timeout_ms = 600000\<rparr>,
      m_sync_provider = None, m_runtime = demo_requirements\<lparr>background_exec := Freeze\<rparr>,
      m_background_unit = None, m_supports_open_path = True, m_allowed_open_roots = [''/home/root/books''],
      m_environment = [(''FOO'', ''1'')]\<rparr>"

lemma demo_manifest_valid: "manifest_validate demo_manifest = Inr ()"
  by code_simp

theorem startup_budget_is_exact_witness:
  "unat (startup_timeout_ms demo_manifest) = 1240000"
  using startup_budget_is_exact [OF demo_manifest_valid]
  by (simp add: demo_manifest_def readiness_policy_default_def SCHEMA_COMMIT_GRACE_MS_def)

text \<open>A checked manifest of the second schema can be resolved as far as the application is concerned:
  \<open>resolve\<close> refuses its launch only for what the platform contributes, the libraries, the network
  enforcement, the path list, the device profile, a separator in a font directory or a NUL byte, never
  for the manifest's requirements or variables.\<close>

theorem checked_manifest_resolves:
  assumes "manifest_validate m = Inr ()" "m_schema m = MANIFEST_SCHEMA_V2" "bt_ok (m_environment m)"
  shows "\<exists>dirs. directories (m_runtime m) = Some dirs \<and>
     (resolve_environment codec (m_id m) (m_runtime m) (m_environment m) libs caps p enf dev = Inr e \<longleftrightarrow>
       validate_required_libraries (m_runtime m) libs = Inr () \<and> validate_library_paths libs = Inr ()
       \<and> (require_enforcement (network (m_runtime m)) \<longrightarrow> is_enforced enf) \<and> path_list_ok p
       \<and> (\<exists>json fds. device_json codec dev = Inr json \<and> font_list (m_runtime m) = Inr fds
            \<and> (\<forall>(k, v) \<in> set (launch_pairs (m_id m) (m_runtime m) dirs p json enf fds libs). nul \<notin> set v)
            \<and> e = built_environment (m_id m) (m_runtime m) dirs (m_environment m) libs caps p enf dev json fds))"
proof -
  have req: "requirements_validate (m_runtime m) True = Inr ()"
    and env: "validate_manifest_environment m = Inr ()"
    using assms(1,2) by (simp_all add: manifest_validate_def)
  have app: "validate_application_environment (m_environment m) = Inr ()"
    using env assms(2) by (rule validated_app_environment)
  from req obtain dirs where dirs: "directories (m_runtime m) = Some dirs"
    by (auto simp: requirements_validate_def validate_directories_def split: option.splits)
  show ?thesis
    unfolding resolve_iff [OF assms(3)] using req app dirs by auto
qed

theorem checked_manifest_resolves_witness:
  "\<exists>e. resolve_environment demo_codec (m_id demo_manifest) (m_runtime demo_manifest) (m_environment demo_manifest)
       [''/opt/lib/libqtfb.so''] [] ''/usr/bin'' MetadataOnly (for_product PaperPro ''3.27.0'') = Inr e
     \<and> validate_library_paths [''/opt/lib/libqtfb.so''] = Inr ()"
proof -
  have "m_schema demo_manifest = MANIFEST_SCHEMA_V2" "bt_ok (m_environment demo_manifest)" by code_simp+
  note resolves = checked_manifest_resolves [OF demo_manifest_valid this]
  have "resolve_environment demo_codec (m_id demo_manifest) (m_runtime demo_manifest) (m_environment demo_manifest)
       [''/opt/lib/libqtfb.so''] [] ''/usr/bin'' MetadataOnly (for_product PaperPro ''3.27.0'')
     = Inr (projr (resolve_environment demo_codec (m_id demo_manifest) (m_runtime demo_manifest) (m_environment demo_manifest)
       [''/opt/lib/libqtfb.so''] [] ''/usr/bin'' MetadataOnly (for_product PaperPro ''3.27.0'')))" by code_simp
  with resolves show ?thesis by blast
qed

text \<open>The backup paths of a checked manifest are disjoint: none is the same as another or lies below
  it, so no file is backed up or restored twice.\<close>

theorem checked_backup_paths_are_disjoint:
  assumes "manifest_validate m = Inr ()" "m_data_schema m = Some d"
    and "i < length (backup_paths d)" "j < length (backup_paths d)" "i \<noteq> j"
  shows "\<not> path_starts_with (backup_paths d ! i) (backup_paths d ! j)
    \<and> is_absolute (backup_paths d ! i) \<and> ParentDir \<notin> set (path_components (backup_paths d ! i))"
proof -
  have scan: "overlap_scan (backup_paths d) = Inr ()"
    and each: "\<forall>p \<in> set (backup_paths d). is_absolute p \<and> ParentDir \<notin> set (path_components p)"
    using assms(1,2) by (auto simp: manifest_validate_def validate_data_schema_def)
  from assms(5) consider "i < j" | "j < i" by linarith
  then have "\<not> path_starts_with (backup_paths d ! i) (backup_paths d ! j)"
    using scan [unfolded overlap_scan_Inr] assms(3,4) by cases blast+
  with each assms(3) show ?thesis by simp
qed

theorem checked_backup_paths_are_disjoint_witness:
  "\<not> path_starts_with ''/data/a'' ''/data/b''"
  using checked_backup_paths_are_disjoint [OF demo_manifest_valid, of _ 0 1]
  by (simp add: demo_manifest_def)

text \<open>What a checked manifest promises the supervisor: the shutdown deadlines are ordered and end
  within the platform's limit, an application that is frozen in the background is resident and speaks
  the lifecycle protocol, and in the second schema the display, the display capability and the network
  capability fit the runtime profile and the network mode.\<close>

theorem checked_manifest_contract:
  assumes "manifest_validate m = Inr ()"
  shows "100 \<le> graceful_timeout_ms (m_shutdown m)
     \<and> graceful_timeout_ms (m_shutdown m) \<le> term_timeout_ms (m_shutdown m)
     \<and> term_timeout_ms (m_shutdown m) \<le> kill_timeout_ms (m_shutdown m)
     \<and> kill_timeout_ms (m_shutdown m) \<le> MAX_SHUTDOWN_KILL_TIMEOUT_MS
     \<and> (freezes_process (background_exec (m_runtime m)) \<longrightarrow>
          is_resident m \<and> m_schema m = MANIFEST_SCHEMA_V2 \<and> has_capability m ''lifecycle:v2'')
     \<and> (m_schema m = MANIFEST_SCHEMA_V2 \<longrightarrow>
          (m_display m = ''qtfb'' \<longleftrightarrow> manifest_profile m = QtfbCompat)
          \<and> (manifest_profile m = QtfbCompat \<longrightarrow> has_capability m ''display:qtfb-v1'')
          \<and> (manifest_profile m = NativeV2 \<longrightarrow> has_capability m ''display:surface-v2'')
          \<and> (has_capability m ''network:outbound-v1'' \<longleftrightarrow>
               mode (network (m_runtime m)) \<in> {HttpsOnly, Outbound})
          \<and> (has_capability m ''network:listen-v1'' \<longleftrightarrow> mode (network (m_runtime m)) = Inbound)
          \<and> (has_capability m ''network:lan-peer-v1'' \<longleftrightarrow> mode (network (m_runtime m)) = LanPeer))"
proof -
  have shut: "validate_shutdown m = Inr ()" and bg: "validate_background_execution m = Inr ()"
    and v2: "m_schema m = MANIFEST_SCHEMA_V2 \<Longrightarrow> validate_v2_runtime_contract m = Inr ()"
    using assms by (simp_all add: manifest_validate_def validate_v2_fields_def)
  have "MANIFEST_SCHEMA_V1 \<noteq> MANIFEST_SCHEMA_V2"
    by (simp add: MANIFEST_SCHEMA_V1_def MANIFEST_SCHEMA_V2_def)
  moreover have "m_schema m = MANIFEST_SCHEMA_V2 \<Longrightarrow>
      (m_display m = ''qtfb'' \<longleftrightarrow> profile (m_runtime m) = QtfbCompat)
          \<and> (profile (m_runtime m) = QtfbCompat \<longrightarrow> has_capability m ''display:qtfb-v1'')
          \<and> (profile (m_runtime m) = NativeV2 \<longrightarrow> has_capability m ''display:surface-v2'')"
    using v2 by (cases "profile (m_runtime m)") (simp_all add: validate_v2_runtime_contract_def Let_def)
  moreover have "m_schema m = MANIFEST_SCHEMA_V2 \<Longrightarrow>
      (has_capability m ''network:outbound-v1'' \<longleftrightarrow> mode (network (m_runtime m)) \<in> {HttpsOnly, Outbound})
          \<and> (has_capability m ''network:listen-v1'' \<longleftrightarrow> mode (network (m_runtime m)) = Inbound)
          \<and> (has_capability m ''network:lan-peer-v1'' \<longleftrightarrow> mode (network (m_runtime m)) = LanPeer)"
    using v2 by (cases "mode (network (m_runtime m))") (simp_all add: validate_v2_runtime_contract_def Let_def)
  ultimately show ?thesis
    using shut bg
    by (auto simp: validate_shutdown_def validate_background_execution_def Let_def not_less
        is_resident_def manifest_profile_def)
qed

theorem checked_manifest_contract_witness:
  "is_resident demo_manifest \<and> has_capability demo_manifest ''lifecycle:v2''"
proof -
  have "freezes_process (background_exec (m_runtime demo_manifest))" by code_simp
  with checked_manifest_contract [OF demo_manifest_valid] show ?thesis by blast
qed

text \<open>A file is opened only below an allowed root: the answer is the canonical form of the path, and
  the canonical form of one of the manifest's roots is a prefix of it, component by component; the path
  as it was given decides nothing.\<close>

theorem opened_path_is_below_a_root:
  "validate_open_path canonicalize m p = Inr q \<longleftrightarrow>
     m_supports_open_path m \<and> canonicalize p = Inr q
     \<and> (\<exists>root \<in> set (m_allowed_open_roots m). \<exists>r. canonicalize root = Inr r \<and> path_starts_with q r)"
proof -
  have "list_ex (\<lambda>root. case canonicalize root of Inl _ \<Rightarrow> False
        | Inr r \<Rightarrow> path_eq c r \<or> path_starts_with c r) (m_allowed_open_roots m)
    \<longleftrightarrow> (\<exists>root \<in> set (m_allowed_open_roots m). \<exists>r. canonicalize root = Inr r \<and> path_starts_with c r)" for c
    unfolding list_ex_iff by (intro bex_cong refl) (auto split: sum.splits intro: path_starts_with_refl)
  then show ?thesis by (auto simp: validate_open_path_def split: if_splits)
qed

text \<open>A loaded store is the directory: it holds exactly the manifests the \<open>.toml\<close> entries parse to,
  each under its own id and each checked; an entry of another name is ignored.\<close>

theorem loaded_store_is_the_directory:
  assumes "load_all root read toml (Inr entries) = Inr store"
  shows "(bt_get store a = Some m \<longleftrightarrow>
       m_id m = a \<and> (\<exists>p t. Inr p \<in> set entries \<and> extension p = Some ''toml'' \<and> read p = Inr t \<and> toml t = Inr m))
     \<and> (bt_get store a = Some m \<longrightarrow> manifest_validate m = Inr ())"
proof -
  have "load_entries root read toml entries [] = Inr store" using assms by (simp add: load_all_def)
  from load_entries_ok [OF this] have
    a: "bt_get store a = Some m \<longleftrightarrow>
       m_id m = a \<and> (\<exists>p t. Inr p \<in> set entries \<and> extension p = Some ''toml'' \<and> read p = Inr t \<and> toml t = Inr m)"
    and b: "\<forall>p. Inr p \<in> set entries \<and> extension p = Some ''toml'' \<longrightarrow>
         (\<exists>txt m. read p = Inr txt \<and> toml txt = Inr m \<and> manifest_validate m = Inr ())" by auto
  from a b show ?thesis by (metis Inr_inject)
qed

theorem loaded_store_is_the_directory_witness:
  "\<exists>store. load_all ''/apps'' (\<lambda>p. Inr p) (\<lambda>t. Inr demo_manifest) (Inr [Inr ''/apps/a.toml'', Inr ''/apps/b.txt''])
       = Inr store \<and> bt_get store (AppId ''reader'') = Some demo_manifest"
proof -
  have l: "load_all ''/apps'' (\<lambda>p. Inr p) (\<lambda>t. Inr demo_manifest) (Inr [Inr ''/apps/a.toml'', Inr ''/apps/b.txt''])
       = Inr [(AppId ''reader'', demo_manifest)]" by code_simp
  have "m_id demo_manifest = AppId ''reader''" "extension ''/apps/a.toml'' = Some ''toml''" by code_simp+
  then show ?thesis
    using loaded_store_is_the_directory [OF l, of "AppId ''reader''" demo_manifest] l by auto
qed

end
