(* ===== verification/Signed_Words.thy ===== *)
theory Signed_Words
  imports Prelude "HOL-Library.Signed_Division"
begin

text \<open>
  The signed machine integers: \<open>i32\<close> as a 32-bit word read by \<^term>\<open>sint\<close>, its saturating
  operations, its comparison and \<open>clamp\<close>, and the truncating division that Rust's \<open>/\<close> is.
  Plain \<open>+\<close>, \<open>-\<close> and \<open>*\<close> of words wrap, as the release profile does.
\<close>

type_synonym i32 = "32 word"

definition i32_min :: int where
  "i32_min = - 2147483648"

definition i32_max :: int where
  "i32_max = 2147483647"

definition i32_sat :: "int \<Rightarrow> i32" where
  "i32_sat n = word_of_int (if n < i32_min then i32_min else if i32_max < n then i32_max else n)"

definition i32_sat_add :: "i32 \<Rightarrow> i32 \<Rightarrow> i32" where
  "i32_sat_add a b = i32_sat (sint a + sint b)"

definition i32_sat_sub :: "i32 \<Rightarrow> i32 \<Rightarrow> i32" where
  "i32_sat_sub a b = i32_sat (sint a - sint b)"

definition i32_sat_mul :: "i32 \<Rightarrow> i32 \<Rightarrow> i32" where
  "i32_sat_mul a b = i32_sat (sint a * sint b)"

definition i32_max_of :: "i32 \<Rightarrow> i32 \<Rightarrow> i32" where
  "i32_max_of a b = (if sint a \<le> sint b then b else a)"

definition i32_min_of :: "i32 \<Rightarrow> i32 \<Rightarrow> i32" where
  "i32_min_of a b = (if sint a \<le> sint b then a else b)"

text \<open>\<open>Ord::clamp\<close> asserts that its bounds are ordered; \<^term>\<open>None\<close> is that panic.\<close>

definition i32_clamp :: "i32 \<Rightarrow> i32 \<Rightarrow> i32 \<Rightarrow> i32 option" where
  "i32_clamp v lo hi =
     (if sint hi < sint lo then None
      else Some (if sint v < sint lo then lo else if sint hi < sint v then hi else v))"

lemma sint_i32_bounds:
  "i32_min \<le> sint (w :: i32)" "sint (w :: i32) \<le> i32_max"
  using sint_ge [of w] sint_lt [of w] by (simp_all add: i32_min_def i32_max_def)

lemma sint_of_int_i32: "i32_min \<le> n \<Longrightarrow> n \<le> i32_max \<Longrightarrow> sint (word_of_int n :: i32) = n"
  by (simp add: i32_min_def i32_max_def signed_of_int signed_take_bit_int_eq_self_iff)

lemma sint_i32_sat: "sint (i32_sat n) = max i32_min (min i32_max n)"
  unfolding i32_sat_def
  by (subst sint_of_int_i32) (auto simp: i32_min_def i32_max_def)

lemma sint_sat_ops:
  "sint (i32_sat_add a b) = max i32_min (min i32_max (sint a + sint b))"
  "sint (i32_sat_sub a b) = max i32_min (min i32_max (sint a - sint b))"
  "sint (i32_sat_mul a b) = max i32_min (min i32_max (sint a * sint b))"
  by (simp_all add: i32_sat_add_def i32_sat_sub_def i32_sat_mul_def sint_i32_sat)

lemma sint_max_of [simp]: "sint (i32_max_of a b) = max (sint a) (sint b)"
  by (simp add: i32_max_of_def)

lemma sint_min_of [simp]: "sint (i32_min_of a b) = min (sint a) (sint b)"
  by (simp add: i32_min_of_def)

lemma sint_eq_iff: "a = b \<longleftrightarrow> sint a = sint b" for a b :: "'w::len word"
  using signed_word_eqI [of a b] by blast

lemma sint_clamp:
  "i32_clamp v lo hi = Some c \<longleftrightarrow>
     sint lo \<le> sint hi \<and> sint c = max (sint lo) (min (sint hi) (sint v))"
  by (auto simp: i32_clamp_def max_def min_def sint_eq_iff)

lemma i32_clamp_total: "sint lo \<le> sint hi \<Longrightarrow> \<exists>c. i32_clamp v lo hi = Some c"
  by (simp add: i32_clamp_def)

lemma sint_sub_i32:
  "i32_min \<le> sint a - sint b \<Longrightarrow> sint a - sint b \<le> i32_max \<Longrightarrow> sint (a - b :: i32) = sint a - sint b"
  by (simp add: i32_min_def i32_max_def sint_word_ariths(2) signed_take_bit_int_eq_self_iff)

lemma sint_0_i32 [simp]: "sint (0 :: i32) = 0"
  by simp

lemma tdiv_nonneg: "0 \<le> n \<Longrightarrow> 0 < d \<Longrightarrow> n sdiv d = n div d" for n d :: int
  by (cases "n = 0") (simp_all add: signed_divide_int_def)

end
