(* ===== verification/Display_Geometry.thy ===== *)
theory Display_Geometry
  imports Signed_Words
begin

text \<open>
  Rectangles and the scaling between an application's canvas and the panel's framebuffer
  (\<open>native/remagic-display-host/src/geometry.rs\<close>). A \<open>Rect\<close> and a \<open>Geometry\<close> are records of \<open>i32\<close>;
  \<^term>\<open>None\<close> is the panic of \<open>clamp\<close> on reversed bounds. The \<open>i64\<close> intermediates of the scaling are
  integers here: \<open>scale_fits_i64\<close> shows that they never leave the width.
\<close>

section \<open>Rectangles\<close>

record rect =
  rx :: i32
  ry :: i32
  rwidth :: i32
  rheight :: i32

definition rect_new :: "i32 \<Rightarrow> i32 \<Rightarrow> i32 \<Rightarrow> i32 \<Rightarrow> rect" where
  "rect_new x y w h = \<lparr>rx = x, ry = y, rwidth = w, rheight = h\<rparr>"

definition rect_is_empty :: "rect \<Rightarrow> bool" where
  "rect_is_empty r = (sint (rwidth r) \<le> 0 \<or> sint (rheight r) \<le> 0)"

definition rect_right :: "rect \<Rightarrow> i32" where
  "rect_right r = i32_sat_add (rx r) (rwidth r)"

definition rect_bottom :: "rect \<Rightarrow> i32" where
  "rect_bottom r = i32_sat_add (ry r) (rheight r)"

definition rect_clip :: "rect \<Rightarrow> i32 \<Rightarrow> i32 \<Rightarrow> rect option" where
  "rect_clip r width height =
     (case (i32_clamp (rx r) 0 width, i32_clamp (ry r) 0 height,
            i32_clamp (rect_right r) 0 width, i32_clamp (rect_bottom r) 0 height) of
        (Some x0, Some y0, Some x1, Some y1) \<Rightarrow>
          Some (rect_new x0 y0 (i32_max_of (x1 - x0) 0) (i32_max_of (y1 - y0) 0))
      | _ \<Rightarrow> None)"

definition rect_union :: "rect \<Rightarrow> rect \<Rightarrow> rect" where
  "rect_union r s =
     (if rect_is_empty r then s
      else if rect_is_empty s then r
      else
        let x0 = i32_min_of (rx r) (rx s);
            y0 = i32_min_of (ry r) (ry s);
            x1 = i32_max_of (rect_right r) (rect_right s);
            y1 = i32_max_of (rect_bottom r) (rect_bottom s)
        in rect_new x0 y0 (x1 - x0) (y1 - y0))"

definition rect_expand :: "rect \<Rightarrow> i32 \<Rightarrow> rect" where
  "rect_expand r amount =
     (if rect_is_empty r then r
      else rect_new (i32_sat_sub (rx r) amount) (i32_sat_sub (ry r) amount)
        (i32_sat_add (rwidth r) (i32_sat_mul amount 2))
        (i32_sat_add (rheight r) (i32_sat_mul amount 2)))"

section \<open>Scaling\<close>

record geometry =
  logical_width :: i32
  logical_height :: i32
  physical_width :: i32
  physical_height :: i32

definition geometry_new :: "i32 \<Rightarrow> i32 \<Rightarrow> i32 \<Rightarrow> i32 \<Rightarrow> geometry option" where
  "geometry_new lw lh pw ph =
     (if list_ex (\<lambda>value. sint value \<le> 0) [lw, lh, pw, ph] then None
      else Some \<lparr>logical_width = lw, logical_height = lh,
                 physical_width = pw, physical_height = ph\<rparr>)"

definition scale_round :: "i32 \<Rightarrow> i32 \<Rightarrow> i32 \<Rightarrow> i32" where
  "scale_round v source target =
     (let numerator = sint v * sint target
      in word_of_int ((numerator + sint source sdiv 2) sdiv sint source))"

definition scale_floor :: "i32 \<Rightarrow> i32 \<Rightarrow> i32 \<Rightarrow> i32" where
  "scale_floor v source target = word_of_int (sint v * sint target sdiv sint source)"

definition scale_ceil :: "i32 \<Rightarrow> i32 \<Rightarrow> i32 \<Rightarrow> i32" where
  "scale_ceil v source target =
     word_of_int ((sint v * sint target + sint source - 1) sdiv sint source)"

definition scale_point :: "i32 \<Rightarrow> i32 \<Rightarrow> i32 \<Rightarrow> i32 option" where
  "scale_point v source target = i32_clamp (scale_round v source target) 0 (target - 1)"

definition both :: "'a option \<Rightarrow> 'b option \<Rightarrow> ('a \<times> 'b) option" where
  "both a b = (case (a, b) of (Some x, Some y) \<Rightarrow> Some (x, y) | _ \<Rightarrow> None)"

definition logical_to_physical_point :: "geometry \<Rightarrow> i32 \<Rightarrow> i32 \<Rightarrow> (i32 \<times> i32) option" where
  "logical_to_physical_point g x y =
     both (scale_point x (logical_width g) (physical_width g))
          (scale_point y (logical_height g) (physical_height g))"

definition physical_to_logical_point :: "geometry \<Rightarrow> i32 \<Rightarrow> i32 \<Rightarrow> (i32 \<times> i32) option" where
  "physical_to_logical_point g x y =
     both (scale_point x (physical_width g) (logical_width g))
          (scale_point y (physical_height g) (logical_height g))"

definition logical_to_physical_rect :: "geometry \<Rightarrow> rect \<Rightarrow> rect option" where
  "logical_to_physical_rect g rect =
     (case rect_clip rect (logical_width g) (logical_height g) of
        None \<Rightarrow> None
      | Some r \<Rightarrow>
          if rect_is_empty r then Some r
          else
            let x0 = scale_floor (rx r) (logical_width g) (physical_width g);
                y0 = scale_floor (ry r) (logical_height g) (physical_height g);
                x1 = scale_ceil (rect_right r) (logical_width g) (physical_width g);
                y1 = scale_ceil (rect_bottom r) (logical_height g) (physical_height g)
            in rect_clip (rect_new x0 y0 (x1 - x0) (y1 - y0))
                 (physical_width g) (physical_height g))"

definition geometry_ok :: "geometry \<Rightarrow> bool" where
  "geometry_ok g = (0 < sint (logical_width g) \<and> 0 < sint (logical_height g)
     \<and> 0 < sint (physical_width g) \<and> 0 < sint (physical_height g))"

lemma geometry_new_iff:
  "geometry_new lw lh pw ph = Some g \<longleftrightarrow>
     geometry_ok g \<and> g = \<lparr>logical_width = lw, logical_height = lh,
                          physical_width = pw, physical_height = ph\<rparr>"
  by (auto simp: geometry_new_def geometry_ok_def)

lemma rect_new_sel [simp]:
  "rx (rect_new x y w h) = x" "ry (rect_new x y w h) = y"
  "rwidth (rect_new x y w h) = w" "rheight (rect_new x y w h) = h"
  by (simp_all add: rect_new_def)

section \<open>The pixels of a rectangle\<close>

text \<open>The specification side: a rectangle is the set of pixels it covers, with no saturation.\<close>

definition span :: "i32 \<Rightarrow> i32 \<Rightarrow> int set" where
  "span a n = {sint a ..< sint a + sint n}"

definition pixels :: "rect \<Rightarrow> (int \<times> int) set" where
  "pixels r = span (rx r) (rwidth r) \<times> span (ry r) (rheight r)"

definition canvas :: "i32 \<Rightarrow> i32 \<Rightarrow> (int \<times> int) set" where
  "canvas w h = {0 ..< sint w} \<times> {0 ..< sint h}"

text \<open>Logical column \<open>p\<close> covers the physical interval from \<open>p * t / s\<close> to \<open>(p + 1) * t / s\<close>;
  \<open>touches s t p q\<close> says that it meets the physical column \<open>q\<close>.\<close>

definition touches :: "int \<Rightarrow> int \<Rightarrow> int \<Rightarrow> int \<Rightarrow> bool" where
  "touches s t p q = (q * s < (p + 1) * t \<and> p * t < (q + 1) * s)"

definition damaged :: "geometry \<Rightarrow> (int \<times> int) set \<Rightarrow> (int \<times> int) set" where
  "damaged g ps = {(qx, qy). \<exists>(px, py)\<in>ps.
     touches (sint (logical_width g)) (sint (physical_width g)) px qx \<and>
     touches (sint (logical_height g)) (sint (physical_height g)) py qy}"

text \<open>One axis of \<open>clip\<close>: the clamped interval is the intersection with the canvas.\<close>

definition axis_clip :: "i32 \<Rightarrow> i32 \<Rightarrow> i32 \<Rightarrow> (i32 \<times> i32) option" where
  "axis_clip a n limit =
     (case (i32_clamp a 0 limit, i32_clamp (i32_sat_add a n) 0 limit) of
        (Some x0, Some x1) \<Rightarrow> Some (x0, i32_max_of (x1 - x0) 0) | _ \<Rightarrow> None)"

lemma rect_clip_axes:
  "rect_clip r w h = map_option (\<lambda>((x, n), y, m). rect_new x y n m)
     (both (axis_clip (rx r) (rwidth r) w) (axis_clip (ry r) (rheight r) h))"
  by (auto simp: rect_clip_def axis_clip_def both_def rect_right_def rect_bottom_def
      split: option.splits)

lemma axis_clip_total:
  assumes "0 \<le> sint limit"
  obtains x n where "axis_clip a n0 limit = Some (x, n)"
    "sint x = max 0 (min (sint limit) (sint a))"
    "sint n = max 0 (max 0 (min (sint limit) (sint a + sint n0)) - sint x)"
proof -
  obtain x x1 where c: "i32_clamp a 0 limit = Some x" "i32_clamp (i32_sat_add a n0) 0 limit = Some x1"
    using assms i32_clamp_total [of 0 limit a] i32_clamp_total [of 0 limit "i32_sat_add a n0"] by auto
  then have x: "sint x = max 0 (min (sint limit) (sint a))"
    and x1: "sint x1 = max 0 (min (sint limit) (sint (i32_sat_add a n0)))"
    by (simp_all add: sint_clamp)
  have range: "i32_min \<le> 0" "(0::int) \<le> i32_max" "i32_min \<le> - i32_max"
    by (simp_all add: i32_min_def i32_max_def)
  note lim = sint_i32_bounds(2) [of limit] range
  have x1': "sint x1 = max 0 (min (sint limit) (sint a + sint n0))"
    using lim assms unfolding x1 sint_sat_ops by linarith
  have "sint (x1 - x) = sint x1 - sint x"
    using lim x x1' assms by (intro sint_sub_i32) linarith+
  then show thesis
    using c x x1' by (intro that [of x "i32_max_of (x1 - x) 0"]) (simp_all add: axis_clip_def max.commute)
qed

lemma axis_clip_span:
  assumes "0 \<le> sint limit" "axis_clip a n0 limit = Some (x, n)"
  shows "span x n = span a n0 \<inter> {0 ..< sint limit}" "0 \<le> sint n" "0 \<le> sint x"
    "sint x + sint n \<le> sint limit"
proof -
  obtain x' n' where e: "axis_clip a n0 limit = Some (x', n')"
    and x: "sint x' = max 0 (min (sint limit) (sint a))"
    and n: "sint n' = max 0 (max 0 (min (sint limit) (sint a + sint n0)) - sint x')"
    by (rule axis_clip_total [OF assms(1)])
  have same: "x' = x" "n' = n" using e assms(2) by auto
  show "span x n = span a n0 \<inter> {0 ..< sint limit}"
    using assms(1) unfolding span_def x [unfolded same] n [unfolded same] by (auto simp: min_def max_def)
  show "0 \<le> sint n" "0 \<le> sint x" "sint x + sint n \<le> sint limit"
    using assms(1) x n unfolding same by linarith+
qed

lemma rect_clip_Some:
  assumes "rect_clip r w h = Some q"
  shows "axis_clip (rx r) (rwidth r) w = Some (rx q, rwidth q)"
    "axis_clip (ry r) (rheight r) h = Some (ry q, rheight q)"
  using assms by (auto simp: rect_clip_axes both_def split: option.splits)

lemma rect_clip_exists: "0 \<le> sint w \<Longrightarrow> 0 \<le> sint h \<Longrightarrow> \<exists>q. rect_clip r w h = Some q"
  by (rule axis_clip_total [of w "rx r" "rwidth r"], assumption,
      rule axis_clip_total [of h "ry r" "rheight r"], assumption)
     (auto simp: rect_clip_axes both_def)

text \<open>Clipping is intersection with the canvas.\<close>

lemma rect_clip_pixels:
  assumes "0 \<le> sint w" "0 \<le> sint h" "rect_clip r w h = Some q"
  shows "pixels q = pixels r \<inter> canvas w h"
  using axis_clip_span(1) [OF assms(1) rect_clip_Some(1) [OF assms(3)]]
    axis_clip_span(1) [OF assms(2) rect_clip_Some(2) [OF assms(3)]]
  by (auto simp: pixels_def canvas_def)

section \<open>Damage is never lost\<close>

lemma scale_fits_i64:
  assumes "0 < sint source"
  shows "\<bar>sint (v :: i32) * sint (target :: i32)\<bar> + sint (source :: i32) < 2 ^ 63"
proof -
  have v: "\<bar>sint v\<bar> \<le> 2147483648" for v :: i32
    using sint_i32_bounds [of v] by (simp add: i32_min_def i32_max_def)
  have "\<bar>sint v\<bar> * \<bar>sint target\<bar> \<le> 2147483648 * 2147483648"
    by (rule mult_mono) (simp_all add: v)
  then show ?thesis using v [of source] by (simp add: abs_mult)
qed

lemma le_div_iff:
  fixes k n d :: int
  assumes "0 < d"
  shows "k \<le> n div d \<longleftrightarrow> k * d \<le> n"
proof
  note d = assms
  assume "k \<le> n div d"
  then have "k * d \<le> n div d * d" using d by simp
  also have "\<dots> \<le> n" using d pos_mod_sign [of d n] by (simp flip: minus_mod_eq_div_mult)
  finally show "k * d \<le> n" .
next
  note d = assms
  assume "k * d \<le> n"
  then have "k * d div d \<le> n div d" using d by (rule zdiv_mono1)
  then show "k \<le> n div d" using d by simp
qed

lemma div_less_iff: "0 < d \<Longrightarrow> n div d < k \<longleftrightarrow> n < k * d" for k n d :: int
  by (simp add: le_div_iff flip: not_le)

text \<open>The leading edge is the floor and the trailing edge the ceiling of the exact image, and the
  columns between them are exactly those that the interval touches.\<close>

lemma floor_ceil_touches:
  fixes s t a b :: int
  assumes s: "0 < s" and t: "0 < t" and a: "0 \<le> a" and ab: "a < b"
  shows "{a * t div s ..< (b * t + s - 1) div s} = {q. \<exists>p\<in>{a ..< b}. touches s t p q}"
proof (intro set_eqI iffI)
  fix q
  assume "q \<in> {q. \<exists>p\<in>{a ..< b}. touches s t p q}"
  then obtain p where p: "a \<le> p" "p < b" "q * s < (p + 1) * t" "p * t < (q + 1) * s"
    by (auto simp: touches_def)
  have "a * t \<le> p * t" "(p + 1) * t \<le> b * t"
    using p t by (simp_all add: mult_right_mono)
  then have "a * t < (q + 1) * s" "(q + 1) * s \<le> b * t + s - 1"
    using p by (simp_all add: algebra_simps)
  then have "a * t div s < q + 1" "q + 1 \<le> (b * t + s - 1) div s"
    using s by (simp_all only: div_less_iff le_div_iff)
  then show "q \<in> {a * t div s ..< (b * t + s - 1) div s}" by simp
next
  fix q
  assume "q \<in> {a * t div s ..< (b * t + s - 1) div s}"
  then have lo: "a * t div s < q + 1" and hi: "q + 1 \<le> (b * t + s - 1) div s" by auto
  have lo': "a * t < (q + 1) * s"
    using lo s by (simp only: div_less_iff)
  have "(q + 1) * s \<le> b * t + s - 1"
    using hi s by (simp only: le_div_iff)
  then have hi': "q * s < b * t" by (simp add: algebra_simps)
  define p where "p = max a (q * s div t)"
  have fl: "q * s div t * t \<le> q * s" "q * s < (q * s div t + 1) * t"
    using t le_div_iff [of t "q * s div t" "q * s"] div_less_iff [of t "q * s" "q * s div t + 1"]
    by simp_all
  have "q * s div t * t < b * t" using fl hi' by linarith
  then have "q * s div t < b" using t by simp
  moreover have "(q * s div t + 1) * t \<le> (p + 1) * t"
    using t by (intro mult_right_mono) (simp_all add: p_def)
  moreover have "p * t < (q + 1) * s"
  proof (cases "a \<le> q * s div t")
    case True
    then show ?thesis using fl(1) s by (simp add: p_def max_def algebra_simps)
  next
    case False
    then show ?thesis using lo' by (simp add: p_def max_def)
  qed
  ultimately have "p \<in> {a ..< b}" "touches s t p q"
    using ab fl(2) by (simp_all add: p_def touches_def) 
  then show "q \<in> {q. \<exists>p\<in>{a ..< b}. touches s t p q}" by blast
qed

lemma scale_edges:
  assumes s: "0 < sint s" and t: "0 < sint t" and v: "0 \<le> sint v" "sint v \<le> sint s"
  shows "sint (scale_floor v s t) = sint v * sint t div sint s"
    "sint (scale_ceil v s t) = (sint v * sint t + sint s - 1) div sint s"
    "0 \<le> sint (scale_floor v s t)" "sint (scale_ceil v s t) \<le> sint t"
    "sint (scale_floor v s t) \<le> sint t"
proof -
  let ?n = "sint v * sint t"
  have n: "0 \<le> ?n" "?n \<le> sint t * sint s"
    using assms by (simp_all add: mult.commute mult_left_mono)
  have f: "0 \<le> ?n div sint s" "?n div sint s \<le> sint t"
    using s n div_less_iff [of "sint s" ?n "sint t + 1"]
    by (simp_all add: pos_imp_zdiv_nonneg_iff algebra_simps)
  have c: "0 \<le> (?n + sint s - 1) div sint s" "(?n + sint s - 1) div sint s \<le> sint t"
    using s n div_less_iff [of "sint s" "?n + sint s - 1" "sint t + 1"]
    by (simp_all add: pos_imp_zdiv_nonneg_iff algebra_simps)
  have b: "i32_min \<le> 0" "sint t \<le> i32_max" by (simp_all add: i32_min_def sint_i32_bounds)
  have tf: "?n sdiv sint s = ?n div sint s"
    using s n by (simp add: tdiv_nonneg)
  have tc: "(?n + sint s - 1) sdiv sint s = (?n + sint s - 1) div sint s"
    using s n by (intro tdiv_nonneg) linarith+
  show sf: "sint (scale_floor v s t) = ?n div sint s"
    unfolding scale_floor_def tf by (rule sint_of_int_i32) (use f b in linarith)+
  show sc: "sint (scale_ceil v s t) = (?n + sint s - 1) div sint s"
    unfolding scale_ceil_def tc by (rule sint_of_int_i32) (use c b in linarith)+
  show "0 \<le> sint (scale_floor v s t)" "sint (scale_floor v s t) \<le> sint t" using f sf by simp_all
  show "sint (scale_ceil v s t) \<le> sint t" using c sc by simp
qed

lemma scaled_span:
  assumes s: "0 < sint s" and t: "0 < sint t"
    and x: "0 \<le> sint x" "0 < sint n" "sint x + sint n \<le> sint s"
    and c: "axis_clip (scale_floor x s t) (scale_ceil (i32_sat_add x n) s t - scale_floor x s t) t
      = Some (x', n')"
  shows "span x' n' = {q. \<exists>p\<in>span x n. touches (sint s) (sint t) p q}"
proof -
  have r: "sint (i32_sat_add x n) = sint x + sint n"
    using x sint_i32_bounds(2) [of s] by (simp add: sint_sat_ops i32_min_def)
  note f = scale_edges [OF s t, of x]
  have g: "sint (scale_ceil (i32_sat_add x n) s t) = ((sint x + sint n) * sint t + sint s - 1) div sint s"
    "sint (scale_ceil (i32_sat_add x n) s t) \<le> sint t"
    using scale_edges [OF s t, of "i32_sat_add x n"] x by (simp_all add: r)
  have le: "sint (scale_floor x s t) \<le> sint (scale_ceil (i32_sat_add x n) s t)"
  proof -
    have "sint x * sint t \<le> (sint x + sint n) * sint t + sint s - 1"
      using x s t mult_right_mono [of "sint x" "sint x + sint n" "sint t"] by linarith
    then show ?thesis using f(1) g(1) x s by (simp add: zdiv_mono1)
  qed
  have d: "sint (scale_ceil (i32_sat_add x n) s t - scale_floor x s t)
      = sint (scale_ceil (i32_sat_add x n) s t) - sint (scale_floor x s t)"
    using f(3) g(2) le x sint_i32_bounds(2) [of t] i32_min_def by (intro sint_sub_i32) linarith+
  have "span x' n' = {sint (scale_floor x s t) ..< sint (scale_ceil (i32_sat_add x n) s t)}
      \<inter> {0 ..< sint t}"
    using axis_clip_span(1) [OF _ c] t by (simp add: span_def d)
  also have "\<dots> = {sint (scale_floor x s t) ..< sint (scale_ceil (i32_sat_add x n) s t)}"
    using f(3) g(2) x by auto
  also have "\<dots> = {q. \<exists>p\<in>{sint x ..< sint x + sint n}. touches (sint s) (sint t) p q}"
    using f(1) g(1) x floor_ceil_touches [OF s t x(1), of "sint x + sint n"] by simp
  finally show ?thesis by (simp add: span_def)
qed

lemma damaged_product:
  "damaged g (A \<times> B) =
     {q. \<exists>p\<in>A. touches (sint (logical_width g)) (sint (physical_width g)) p q} \<times>
     {q. \<exists>p\<in>B. touches (sint (logical_height g)) (sint (physical_height g)) p q}"
  by (auto simp: damaged_def)

lemma empty_pixels: "rect_is_empty r \<longleftrightarrow> pixels r = {}"
  by (auto simp: rect_is_empty_def pixels_def span_def)

lemma damage_maps_nonempty:
  assumes g: "geometry_ok g" and c: "rect_clip r (logical_width g) (logical_height g) = Some c"
    and ne: "\<not> rect_is_empty c"
  shows "\<exists>q. logical_to_physical_rect g r = Some q \<and> pixels q = damaged g (pixels c)"
proof -
  let ?sw = "logical_width g" and ?sh = "logical_height g"
  let ?tw = "physical_width g" and ?th = "physical_height g"
  have pos: "0 < sint ?sw" "0 < sint ?sh" "0 < sint ?tw" "0 < sint ?th"
    using g by (auto simp: geometry_ok_def)
  define q0 where "q0 = rect_new (scale_floor (rx c) ?sw ?tw) (scale_floor (ry c) ?sh ?th)
    (scale_ceil (rect_right c) ?sw ?tw - scale_floor (rx c) ?sw ?tw)
    (scale_ceil (rect_bottom c) ?sh ?th - scale_floor (ry c) ?sh ?th)"
  obtain q where q: "rect_clip q0 ?tw ?th = Some q"
    using rect_clip_exists [of ?tw ?th q0] pos by auto
  have out: "logical_to_physical_rect g r = Some q"
    using q c ne by (simp add: logical_to_physical_rect_def Let_def q0_def)
  have w: "0 < sint (rwidth c)" "0 < sint (rheight c)" using ne by (auto simp: rect_is_empty_def)
  have cx: "0 \<le> sint (rx c)" "sint (rx c) + sint (rwidth c) \<le> sint ?sw"
    using axis_clip_span(3,4) [OF less_imp_le [OF pos(1)] rect_clip_Some(1) [OF c]] .
  have cy: "0 \<le> sint (ry c)" "sint (ry c) + sint (rheight c) \<le> sint ?sh"
    using axis_clip_span(3,4) [OF less_imp_le [OF pos(2)] rect_clip_Some(2) [OF c]] .
  have "span (rx q) (rwidth q) = {q. \<exists>p\<in>span (rx c) (rwidth c). touches (sint ?sw) (sint ?tw) p q}"
    using rect_clip_Some(1) [OF q] scaled_span [OF pos(1) pos(3) cx(1) w(1) cx(2)]
    by (simp add: q0_def rect_right_def)
  moreover have "span (ry q) (rheight q) = {q. \<exists>p\<in>span (ry c) (rheight c). touches (sint ?sh) (sint ?th) p q}"
    using rect_clip_Some(2) [OF q] scaled_span [OF pos(2) pos(4) cy(1) w(2) cy(2)]
    by (simp add: q0_def rect_bottom_def)
  ultimately show ?thesis using out by (simp add: pixels_def damaged_product)
qed

lemma logical_to_physical_exact:
  assumes "geometry_new lw lh pw ph = Some g"
  shows "\<exists>q. logical_to_physical_rect g r = Some q \<and> pixels q = damaged g (pixels r \<inter> canvas lw lh)"
proof -
  have g: "geometry_ok g" and lw: "logical_width g = lw" "logical_height g = lh"
    using assms unfolding geometry_new_iff by auto
  then have nonneg: "0 \<le> sint lw" "0 \<le> sint lh" by (auto simp: geometry_ok_def)
  obtain c where c: "rect_clip r lw lh = Some c" using rect_clip_exists nonneg by blast
  have px: "pixels c = pixels r \<inter> canvas lw lh" using nonneg c by (rule rect_clip_pixels)
  show ?thesis
  proof (cases "rect_is_empty c")
    case True
    then show ?thesis
      using c px lw by (simp add: logical_to_physical_rect_def empty_pixels damaged_def)
  next
    case False
    then show ?thesis using damage_maps_nonempty [OF g, of r c] c px lw by simp
  qed
qed

definition rect_inside :: "rect \<Rightarrow> i32 \<Rightarrow> i32 \<Rightarrow> bool" where
  "rect_inside r w h =
     (0 \<le> sint (rx r) \<and> 0 \<le> sint (rwidth r) \<and> sint (rx r) + sint (rwidth r) \<le> sint w
      \<and> 0 \<le> sint (ry r) \<and> 0 \<le> sint (rheight r) \<and> sint (ry r) + sint (rheight r) \<le> sint h)"

lemma rect_clip_inside:
  assumes "0 \<le> sint w" "0 \<le> sint h" "rect_clip r w h = Some q"
  shows "rect_inside q w h"
  using axis_clip_span [OF assms(1) rect_clip_Some(1) [OF assms(3)]]
    axis_clip_span [OF assms(2) rect_clip_Some(2) [OF assms(3)]]
  by (simp add: rect_inside_def)

lemma logical_to_physical_inside:
  assumes "geometry_ok g" "logical_to_physical_rect g r = Some q"
  shows "rect_is_empty q \<or> rect_inside q (physical_width g) (physical_height g)"
  using assms by (auto simp: logical_to_physical_rect_def geometry_ok_def Let_def
      intro!: rect_clip_inside split: option.splits if_splits)

text \<open>C35: mapping a damage rectangle to the panel never panics and covers exactly the physical
  pixels that the damaged pixels of the canvas touch: none is lost to rounding, saturation or
  clipping, and none is repainted needlessly.\<close>

theorem damage_is_exact:
  assumes "geometry_new lw lh pw ph = Some g"
  shows "\<exists>q. logical_to_physical_rect g r = Some q \<and> pixels q = damaged g (pixels r \<inter> canvas lw lh)"
  using assms by (rule logical_to_physical_exact)

definition move_geometry :: geometry where
  "move_geometry = \<lparr>logical_width = 954, logical_height = 1696,
     physical_width = 960, physical_height = 1696\<rparr>"

lemma damage_is_exact_witness:
  "\<exists>q. logical_to_physical_rect move_geometry (rect_new 100 (- 5) 1 40) = Some q \<and>
     pixels q = damaged move_geometry (pixels (rect_new 100 (- 5) 1 40) \<inter> canvas 954 1696)"
  by (rule damage_is_exact [of _ _ 960 1696]) (simp add: geometry_new_def move_geometry_def)

section \<open>Points\<close>

lemma half_nonneg: "0 \<le> n \<Longrightarrow> n sdiv 2 = n div 2" for n :: int
  by (simp add: tdiv_nonneg)

lemma sint_pred: "0 < sint t \<Longrightarrow> sint (t - 1 :: i32) = sint t - 1"
  using sint_i32_bounds(2) [of t] by (subst sint_sub_i32) (simp_all add: i32_min_def)

lemma scale_point_total:
  "0 < sint target \<Longrightarrow> \<exists>c. scale_point v source target = Some c \<and> 0 \<le> sint c \<and> sint c < sint target"
  using i32_clamp_total [of 0 "target - 1" "scale_round v source target"]
  by (auto simp: scale_point_def sint_clamp sint_pred)

lemma scale_point_exact:
  assumes s: "0 < sint s" and t: "0 < sint t" and v: "0 \<le> sint v" "sint v < sint s"
    and c: "scale_point v s t = Some c"
  shows "sint c = min (sint t - 1) ((sint v * sint t + sint s div 2) div sint s)"
proof -
  let ?n = "sint v * sint t + sint s div 2"
  have m: "0 \<le> sint v * sint t" "sint v * sint t \<le> (sint s - 1) * sint t"
    using s t v by (simp_all add: mult_right_mono)
  have h: "sint s div 2 < sint s" "0 \<le> sint s div 2" using s by linarith+
  have n: "0 \<le> ?n" using m h by linarith
  have "?n < (sint t + 1) * sint s"
    using m h s t by (simp add: algebra_simps)
  then have up: "?n div sint s \<le> sint t"
    using div_less_iff [OF s, of ?n "sint t + 1"] by simp
  have low: "0 \<le> ?n div sint s" using n s by (simp add: pos_imp_zdiv_nonneg_iff)
  have "sint (scale_round v s t) = ?n div sint s"
    unfolding scale_round_def Let_def half_nonneg [OF less_imp_le [OF s]] tdiv_nonneg [OF n s]
    by (rule sint_of_int_i32)
       (use low up sint_i32_bounds(2) [of t] i32_min_def in linarith)+
  then show ?thesis using c t low by (simp add: scale_point_def sint_clamp sint_pred)
qed

text \<open>The rounding back of the arithmetic: \<open>s\<close> columns scaled up to \<open>t\<close> and back.\<close>

lemma round_back:
  fixes s t v :: int
  assumes st: "0 < s" "s \<le> t" and v: "0 \<le> v" "v < s"
  defines "y \<equiv> (v * t + s div 2) div s"
  shows "y < t" "(y * s + t div 2) div t = v"
proof -
  have y: "y * s \<le> v * t + s div 2" "v * t + s div 2 < (y + 1) * s"
    using le_div_iff [of s y "v * t + s div 2"] div_less_iff [of s "v * t + s div 2" "y + 1"] st
    by (simp_all add: y_def)
  have "v * t + s div 2 < t * s"
  proof -
    have "(v + 1) * t \<le> s * t" using v st by (intro mult_right_mono) linarith+
    then have "v * t + t \<le> t * s" by (simp add: algebra_simps)
    moreover have "s div 2 < t" using st by linarith
    ultimately show ?thesis by linarith
  qed
  then show "y < t" using st by (simp add: y_def div_less_iff)
  have t: "0 < t" using st by linarith
  show "(y * s + t div 2) div t = v"
  proof (rule antisym)
    have "y * s + t div 2 < (v + 1) * t"
    proof (cases "s = t")
      case True
      then have "y = v" using t v by (simp add: y_def)
      then show ?thesis using True t by (simp add: algebra_simps) 
    next
      case False
      then have "s div 2 + t div 2 < t" using st by linarith
      then show ?thesis using y(1) by (simp add: algebra_simps)
    qed
    then show "(y * s + t div 2) div t \<le> v" using div_less_iff [OF t, of _ "v + 1"] by fastforce
    have "v * t \<le> y * s + t div 2"
      using y(2) st by (simp add: algebra_simps)
    then show "v \<le> (y * s + t div 2) div t" using le_div_iff [OF t] by fastforce
  qed
qed

lemma scale_point_back:
  assumes s: "0 < sint s" "sint s \<le> sint t" and v: "0 \<le> sint v" "sint v < sint s"
    and c: "scale_point v s t = Some c"
  shows "scale_point c t s = Some v"
proof -
  have t: "0 < sint t" using s by linarith
  have r: "sint c = (sint v * sint t + sint s div 2) div sint s"
    using scale_point_exact [OF s(1) t v c] round_back(1) [OF s v] by simp
  obtain b where b: "scale_point c t s = Some b" "0 \<le> sint c" "sint c < sint t"
    using scale_point_total [OF s(1), of c t] scale_point_total [OF t, of v s] c by auto
  have "sint b = sint v"
    using scale_point_exact [OF t s(1) b(2,3,1)] round_back(2) [OF s v] v
    by (simp add: r)
  then show ?thesis using b(1) by (simp add: signed_word_eqI)
qed

text \<open>On a panel at least as fine as the canvas, a point of the canvas mapped to the panel lies
  on the panel, and mapping it back gives the same point, so touches land on the pixel drawn.\<close>

theorem point_round_trip:
  assumes "geometry_new lw lh pw ph = Some g" "sint lw \<le> sint pw" "sint lh \<le> sint ph"
    and "(sint x, sint y) \<in> canvas lw lh"
  shows "\<exists>px py. logical_to_physical_point g x y = Some (px, py)
    \<and> (sint px, sint py) \<in> canvas pw ph \<and> physical_to_logical_point g px py = Some (x, y)"
proof -
  have g: "g = \<lparr>logical_width = lw, logical_height = lh, physical_width = pw, physical_height = ph\<rparr>"
    and pos: "0 < sint lw" "0 < sint lh" "0 < sint pw" "0 < sint ph"
    using assms(1) unfolding geometry_new_iff by (auto simp: geometry_ok_def)
  obtain px where px: "scale_point x lw pw = Some px" "0 \<le> sint px" "sint px < sint pw"
    using scale_point_total [OF pos(3)] by blast
  obtain py where py: "scale_point y lh ph = Some py" "0 \<le> sint py" "sint py < sint ph"
    using scale_point_total [OF pos(4)] by blast
  have "scale_point px pw lw = Some x"
    by (rule scale_point_back [OF pos(1) assms(2) _ _ px(1)]) (use assms(4) in \<open>auto simp: canvas_def\<close>)
  moreover have "scale_point py ph lh = Some y"
    by (rule scale_point_back [OF pos(2) assms(3) _ _ py(1)]) (use assms(4) in \<open>auto simp: canvas_def\<close>)
  ultimately show ?thesis
    using px py
    by (intro exI [of _ px] exI [of _ py])
       (simp add: g logical_to_physical_point_def physical_to_logical_point_def both_def canvas_def)
qed

lemma point_round_trip_witness:
  "\<exists>px py. logical_to_physical_point move_geometry 953 1695 = Some (px, py)
    \<and> (sint px, sint py) \<in> canvas 960 1696
    \<and> physical_to_logical_point move_geometry px py = Some (953, 1695)"
  by (rule point_round_trip [of 954 1696]) (simp_all add: geometry_new_def move_geometry_def canvas_def)

text \<open>The union of two rectangles inside a canvas covers both.\<close>

lemma union_covers:
  assumes "pixels r \<subseteq> canvas w h" "pixels s \<subseteq> canvas w h" 
    "0 \<le> sint (rx r)" "0 \<le> sint (ry r)" "0 \<le> sint (rx s)" "0 \<le> sint (ry s)"
  shows "pixels r \<union> pixels s \<subseteq> pixels (rect_union r s)"
proof (cases "rect_is_empty r \<or> rect_is_empty s")
  case True
  then show ?thesis by (auto simp: rect_union_def empty_pixels)
next
  case False
  have edges: "sint (rect_right q) = sint (rx q) + sint (rwidth q)"
      "sint (rect_bottom q) = sint (ry q) + sint (rheight q)"
      "0 < sint (rwidth q)" "0 < sint (rheight q)"
    if q: "pixels q \<subseteq> canvas w h" "\<not> rect_is_empty q" "0 \<le> sint (rx q)" "0 \<le> sint (ry q)" for q
  proof -
    show pos: "0 < sint (rwidth q)" "0 < sint (rheight q)" using q by (auto simp: rect_is_empty_def)
    have "(sint (rx q) + sint (rwidth q) - 1, sint (ry q) + sint (rheight q) - 1) \<in> pixels q"
      using pos by (simp add: pixels_def span_def)
    then have "sint (rx q) + sint (rwidth q) \<le> sint w" "sint (ry q) + sint (rheight q) \<le> sint h"
      using q(1) by (auto simp: canvas_def)
    then show "sint (rect_right q) = sint (rx q) + sint (rwidth q)"
      "sint (rect_bottom q) = sint (ry q) + sint (rheight q)"
      using q(3,4) pos sint_i32_bounds(2) [of w] sint_i32_bounds(2) [of h]
      by (simp_all add: rect_right_def rect_bottom_def sint_sat_ops i32_min_def)
  qed
  have er: "\<not> rect_is_empty r" "\<not> rect_is_empty s" using False by auto
  note R = edges [OF assms(1) er(1) assms(3,4)] and S = edges [OF assms(2) er(2) assms(5,6)]
  let ?x0 = "i32_min_of (rx r) (rx s)" and ?y0 = "i32_min_of (ry r) (ry s)"
  let ?x1 = "i32_max_of (rect_right r) (rect_right s)"
  let ?y1 = "i32_max_of (rect_bottom r) (rect_bottom s)"
  have dx: "sint (?x1 - ?x0) = sint ?x1 - sint ?x0"
    by (rule sint_sub_i32)
       (use R S assms(3,5) i32_min_def sint_i32_bounds(2) [of ?x1] in \<open>simp_all add: min_def max_def\<close>)
  have dy: "sint (?y1 - ?y0) = sint ?y1 - sint ?y0"
    by (rule sint_sub_i32)
       (use R S assms(4,6) i32_min_def sint_i32_bounds(2) [of ?y1] in \<open>simp_all add: min_def max_def\<close>)
  show ?thesis
    using False R S by (auto simp: rect_union_def Let_def pixels_def span_def dx dy)
qed

end
