(* ===== verification/Display_Protocol.thy ===== *)
theory Display_Protocol
  imports Display_Geometry
begin

text \<open>
  The QTFB wire protocol between an application and the display host: the host's side
  (\<open>native/remagic-display-host/src/protocol.rs\<close>), and the messages its two clients build and
  parse (\<open>crates/remagic-app-sdk/src/qtfb.rs\<close>, \<open>crates/remagic-home/src/qtfb.rs\<close>). A packet is the
  list of its bytes, 24 from a client and 32 from the host.
\<close>

section \<open>Little-endian integers\<close>

fun le_value :: "u8 list \<Rightarrow> int" where
  "le_value [] = 0"
| "le_value (b # bs) = uint b + 256 * le_value bs"

fun le_bytes :: "nat \<Rightarrow> int \<Rightarrow> u8 list" where
  "le_bytes 0 n = []"
| "le_bytes (Suc k) n = word_of_int n # le_bytes k (n div 256)"

definition i32_to_le :: "i32 \<Rightarrow> u8 list" where
  "i32_to_le v = le_bytes 4 (uint v)"

definition u64_to_le :: "u64 \<Rightarrow> u8 list" where
  "u64_to_le v = le_bytes 8 (uint v)"

definition slice :: "nat \<Rightarrow> nat \<Rightarrow> 'a list \<Rightarrow> 'a list" where
  "slice from until xs = take (until - from) (drop from xs)"

definition i32_at :: "u8 list \<Rightarrow> nat \<Rightarrow> i32" where
  "i32_at bytes offset = word_of_int (le_value (slice offset (offset + 4) bytes))"

definition u16_at :: "u8 list \<Rightarrow> nat \<Rightarrow> u16" where
  "u16_at bytes offset = word_of_int (le_value (slice offset (offset + 2) bytes))"

definition u64_at :: "u8 list \<Rightarrow> nat \<Rightarrow> u64" where
  "u64_at bytes offset = word_of_int (le_value (slice offset (offset + 8) bytes))"

text \<open>\<open>bytes[offset..offset + n].copy_from_slice(data)\<close>.\<close>

definition put_slice :: "nat \<Rightarrow> 'a list \<Rightarrow> 'a list \<Rightarrow> 'a list" where
  "put_slice offset data bytes = take offset bytes @ data @ drop (offset + length data) bytes"

lemma length_le_bytes [simp]: "length (le_bytes k n) = k"
  by (induction k arbitrary: n) simp_all

lemma le_value_le_bytes: "le_value (le_bytes k n) = n mod 256 ^ k"
proof (induction k arbitrary: n)
  case (Suc k)
  have "n mod (256 * 256 ^ k) = 256 * (n div 256 mod 256 ^ k) + n mod 256"
    by (rule zmod_zmult2_eq) simp
  then show ?case
    by (simp add: Suc.IH uint_word_of_int)
qed simp

lemma length_to_le [simp]: "length (i32_to_le v) = 4" "length (u64_to_le w) = 8"
  by (simp_all add: i32_to_le_def u64_to_le_def)

lemma le_round_trip [simp]:
  "word_of_int (le_value (i32_to_le v)) = v" "word_of_int (le_value (u64_to_le w)) = w"
  using uint_bounded [of v] uint_bounded [of w]
  by (simp_all add: i32_to_le_def u64_to_le_def le_value_le_bytes)

lemma length_put_slice [simp]:
  "offset + length data \<le> length bytes \<Longrightarrow> length (put_slice offset data bytes) = length bytes"
  by (simp add: put_slice_def)

lemma slice_put_same:
  "offset + length data \<le> length bytes \<Longrightarrow> until = offset + length data \<Longrightarrow>
     slice offset until (put_slice offset data bytes) = data"
  by (simp add: slice_def put_slice_def)

lemma slice_put_other:
  assumes "until \<le> offset \<or> offset + length data \<le> from" "offset + length data \<le> length bytes"
  shows "slice from until (put_slice offset data bytes) = slice from until bytes"
proof (cases "until \<le> offset")
  case True
  then show ?thesis
    using assms(2) by (cases "from \<le> offset") (simp_all add: slice_def put_slice_def drop_take min_def)
next
  case False
  then have "offset + length data \<le> from" using assms(1) by simp
  then show ?thesis using assms(2)
    by (simp add: slice_def put_slice_def)
qed

lemma nth_put_other:
  "n < offset \<or> offset + length data \<le> n \<Longrightarrow> offset + length data \<le> length bytes \<Longrightarrow> n < length bytes \<Longrightarrow>
     put_slice offset data bytes ! n = bytes ! n"
  by (auto simp: put_slice_def nth_append)

lemmas read_back = i32_at_def u64_at_def slice_put_same slice_put_other

section \<open>Client packets\<close>

definition QTFB_CLIENT_MESSAGE_SIZE :: nat where
  "QTFB_CLIENT_MESSAGE_SIZE = 24"

definition QTFB_SERVER_MESSAGE_SIZE :: nat where
  "QTFB_SERVER_MESSAGE_SIZE = 32"

definition MESSAGE_INITIALIZE :: u8 where "MESSAGE_INITIALIZE = 0"
definition MESSAGE_UPDATE :: u8 where "MESSAGE_UPDATE = 1"
definition MESSAGE_CUSTOM_INITIALIZE :: u8 where "MESSAGE_CUSTOM_INITIALIZE = 2"
definition MESSAGE_TERMINATE :: u8 where "MESSAGE_TERMINATE = 3"
definition MESSAGE_USERINPUT :: u8 where "MESSAGE_USERINPUT = 4"
definition MESSAGE_SET_REFRESH_MODE :: u8 where "MESSAGE_SET_REFRESH_MODE = 5"
definition MESSAGE_REQUEST_FULL_REFRESH :: u8 where "MESSAGE_REQUEST_FULL_REFRESH = 6"

definition UPDATE_ALL :: i32 where "UPDATE_ALL = 0"
definition UPDATE_PARTIAL :: i32 where "UPDATE_PARTIAL = 1"

definition REFRESH_MODE_UFAST :: i32 where "REFRESH_MODE_UFAST = 0"
definition REFRESH_MODE_FAST :: i32 where "REFRESH_MODE_FAST = 1"
definition REFRESH_MODE_ANIMATE :: i32 where "REFRESH_MODE_ANIMATE = 2"
definition REFRESH_MODE_CONTENT :: i32 where "REFRESH_MODE_CONTENT = 3"
definition REFRESH_MODE_UI :: i32 where "REFRESH_MODE_UI = 4"

definition INPUT_TOUCH_PRESS :: i32 where "INPUT_TOUCH_PRESS = 0x10"
definition INPUT_TOUCH_RELEASE :: i32 where "INPUT_TOUCH_RELEASE = 0x11"
definition INPUT_TOUCH_UPDATE :: i32 where "INPUT_TOUCH_UPDATE = 0x12"
definition INPUT_PEN_PRESS :: i32 where "INPUT_PEN_PRESS = 0x20"
definition INPUT_PEN_RELEASE :: i32 where "INPUT_PEN_RELEASE = 0x21"
definition INPUT_PEN_UPDATE :: i32 where "INPUT_PEN_UPDATE = 0x22"

lemmas message_codes = MESSAGE_INITIALIZE_def MESSAGE_UPDATE_def MESSAGE_CUSTOM_INITIALIZE_def
  MESSAGE_TERMINATE_def MESSAGE_USERINPUT_def MESSAGE_SET_REFRESH_MODE_def
  MESSAGE_REQUEST_FULL_REFRESH_def UPDATE_ALL_def UPDATE_PARTIAL_def

lemmas refresh_codes = REFRESH_MODE_UFAST_def REFRESH_MODE_FAST_def REFRESH_MODE_ANIMATE_def
  REFRESH_MODE_CONTENT_def REFRESH_MODE_UI_def

lemmas input_codes = INPUT_TOUCH_PRESS_def INPUT_TOUCH_RELEASE_def INPUT_TOUCH_UPDATE_def
  INPUT_PEN_PRESS_def INPUT_PEN_RELEASE_def INPUT_PEN_UPDATE_def

lemmas packet_sizes = QTFB_CLIENT_MESSAGE_SIZE_def QTFB_SERVER_MESSAGE_SIZE_def

datatype pixel_format = Rgb565 | Rgb888 | Rgba8888

definition from_qtfb :: "u8 \<Rightarrow> pixel_format option" where
  "from_qtfb v =
     (if v = 0 \<or> v = 3 \<or> v = 6 then Some Rgb565
      else if v = 1 \<or> v = 4 then Some Rgb888
      else if v = 2 \<or> v = 5 then Some Rgba8888
      else None)"

fun bytes_per_pixel :: "pixel_format \<Rightarrow> nat" where
  "bytes_per_pixel Rgb565 = 2"
| "bytes_per_pixel Rgb888 = 3"
| "bytes_per_pixel Rgba8888 = 4"

datatype client_packet =
    Initialize i32 pixel_format i32 i32
  | Update "rect option"
  | Terminate
  | SetRefreshMode i32
  | RequestFullRefresh

definition default_dimensions :: "u8 \<Rightarrow> string + (i32 \<times> i32)" where
  "default_dimensions format =
     (if format = 0 then Inr (1404, 1872)
      else if 1 \<le> format \<and> format \<le> 3 then Inr (1620, 2160)
      else if 4 \<le> format \<and> format \<le> 6 then Inr (954, 1696)
      else Inl ''unsupported pixel format'')"

definition decode_initialize :: "u8 list \<Rightarrow> string + client_packet" where
  "decode_initialize bytes =
     res_bind (ok_or (from_qtfb (bytes ! 8)) ''unsupported pixel format'') (\<lambda>format.
     res_bind (default_dimensions (bytes ! 8)) (\<lambda>(width, height).
     Inr (Initialize (i32_at bytes 4) format width height)))"

definition decode_custom_initialize :: "u8 list \<Rightarrow> string + client_packet" where
  "decode_custom_initialize bytes =
     res_bind (ok_or (from_qtfb (bytes ! 8)) ''unsupported pixel format'') (\<lambda>format.
     let width = ucast (u16_at bytes 10) :: i32;
         height = ucast (u16_at bytes 12) :: i32
     in if sint width \<le> 0 \<or> sint height \<le> 0 then Inl ''invalid custom dimensions''
        else Inr (Initialize (i32_at bytes 4) format width height))"

definition decode_update :: "u8 list \<Rightarrow> string + client_packet" where
  "decode_update bytes =
     (if i32_at bytes 4 = UPDATE_ALL then Inr (Update None)
      else if i32_at bytes 4 = UPDATE_PARTIAL then
        Inr (Update (Some (rect_new (i32_at bytes 8) (i32_at bytes 12)
                             (i32_at bytes 16) (i32_at bytes 20))))
      else Inl ''unsupported update type'')"

definition decode_packet :: "u8 list \<Rightarrow> string + client_packet" where
  "decode_packet bytes =
     (let tag = bytes ! 0 in
      if tag = MESSAGE_INITIALIZE then decode_initialize bytes
      else if tag = MESSAGE_CUSTOM_INITIALIZE then decode_custom_initialize bytes
      else if tag = MESSAGE_UPDATE then decode_update bytes
      else if tag = MESSAGE_TERMINATE then Inr Terminate
      else if tag = MESSAGE_SET_REFRESH_MODE then
        (let mode = i32_at bytes 4 in
         if \<not> (sint REFRESH_MODE_UFAST \<le> sint mode \<and> sint mode \<le> sint REFRESH_MODE_UI)
         then Inl ''invalid refresh mode'' else Inr (SetRefreshMode mode))
      else if tag = MESSAGE_REQUEST_FULL_REFRESH then Inr RequestFullRefresh
      else Inl ''unknown QTFB packet'')"

section \<open>Server packets\<close>

definition initialize_reply :: "i32 \<Rightarrow> u64 \<Rightarrow> u8 list" where
  "initialize_reply shm_key shm_size =
     put_slice 16 (u64_to_le shm_size) (put_slice 8 (i32_to_le shm_key)
       ((replicate QTFB_SERVER_MESSAGE_SIZE 0)[0 := MESSAGE_INITIALIZE]))"

fun put_values :: "nat \<Rightarrow> i32 list \<Rightarrow> u8 list \<Rightarrow> u8 list" where
  "put_values offset [] bytes = bytes"
| "put_values offset (v # vs) bytes =
     put_values (offset + 4) vs (put_slice offset (i32_to_le v) bytes)"

definition input_packet :: "i32 \<Rightarrow> i32 \<Rightarrow> i32 \<Rightarrow> i32 \<Rightarrow> i32 \<Rightarrow> u8 list" where
  "input_packet input_type device_id x y detail =
     put_values 8 [input_type, device_id, x, y, detail]
       ((replicate QTFB_SERVER_MESSAGE_SIZE 0)[0 := MESSAGE_USERINPUT])"

lemma length_put_values [simp]:
  "offset + 4 * length vs \<le> length bytes \<Longrightarrow> length (put_values offset vs bytes) = length bytes"
  by (induction offset vs bytes rule: put_values.induct) simp_all

lemma nth_put_values:
  "n < offset \<Longrightarrow> offset + 4 * length vs \<le> length bytes \<Longrightarrow> put_values offset vs bytes ! n = bytes ! n"
  by (induction offset vs bytes rule: put_values.induct) (simp_all add: nth_put_other)

lemma i32_at_put_values_before:
  "n + 4 \<le> offset \<Longrightarrow> offset + 4 * length vs \<le> length bytes \<Longrightarrow>
     i32_at (put_values offset vs bytes) n = i32_at bytes n"
  by (induction offset vs bytes rule: put_values.induct) (simp_all add: read_back)

lemma i32_at_put_values:
  "k < length vs \<Longrightarrow> offset + 4 * length vs \<le> length bytes \<Longrightarrow>
     i32_at (put_values offset vs bytes) (offset + 4 * k) = vs ! k"
proof (induction offset vs bytes arbitrary: k rule: put_values.induct)
  case (2 offset v vs bytes)
  show ?case
  proof (cases k)
    case 0
    then show ?thesis using 2(3)
      by (simp add: i32_at_put_values_before) (simp add: read_back)
  next
    case (Suc j)
    then show ?thesis using 2(1) [of j] 2(2,3) by (simp add: algebra_simps)
  qed
qed simp

lemma input_packet_fields:
  "length (input_packet t d x y v) = QTFB_SERVER_MESSAGE_SIZE"
  "input_packet t d x y v ! 0 = MESSAGE_USERINPUT"
  "i32_at (input_packet t d x y v) 8 = t" "i32_at (input_packet t d x y v) 12 = d"
  "i32_at (input_packet t d x y v) 16 = x" "i32_at (input_packet t d x y v) 20 = y"
  "i32_at (input_packet t d x y v) 24 = v"
  using i32_at_put_values [of 0 "[t, d, x, y, v]" 8] i32_at_put_values [of 1 "[t, d, x, y, v]" 8]
    i32_at_put_values [of 2 "[t, d, x, y, v]" 8] i32_at_put_values [of 3 "[t, d, x, y, v]" 8]
    i32_at_put_values [of 4 "[t, d, x, y, v]" 8]
  by (simp_all add: input_packet_def packet_sizes nth_put_other)

lemma initialize_reply_fields:
  "length (initialize_reply k n) = QTFB_SERVER_MESSAGE_SIZE"
  "initialize_reply k n ! 0 = MESSAGE_INITIALIZE"
  "i32_at (initialize_reply k n) 8 = k" "u64_at (initialize_reply k n) 16 = n"
  by (simp_all add: initialize_reply_def packet_sizes nth_put_other read_back)

section \<open>What a decoded packet may hold\<close>

text \<open>The well-formed packets: a surface has a positive size that fits sixteen bits and the
  refresh mode is one of the five.\<close>

fun packet_ok :: "client_packet \<Rightarrow> bool" where
  "packet_ok (Initialize key format width height) =
     (0 < sint width \<and> sint width < 65536 \<and> 0 < sint height \<and> sint height < 65536)"
| "packet_ok (SetRefreshMode mode) = (0 \<le> sint mode \<and> sint mode \<le> 4)"
| "packet_ok _ = True"

lemma sint_widen: "sint (ucast (w :: u16) :: i32) = uint w"
proof -
  have u: "uint w < 65536" "0 \<le> uint w" using uint_bounded [of w] by simp_all
  then have "ucast w = (word_of_int (uint w) :: i32)" by simp
  moreover have "sint (word_of_int (uint w) :: i32) = uint w"
    by (rule sint_of_int_i32) (use u in \<open>unfold i32_min_def i32_max_def, linarith+\<close>)
  ultimately show ?thesis by simp
qed



section \<open>The clients\<close>

definition blank_message :: "u8 \<Rightarrow> u8 list" where
  "blank_message tag = (replicate QTFB_CLIENT_MESSAGE_SIZE 0)[0 := tag]"

definition sdk_initialize_message :: "i32 \<Rightarrow> u8 \<Rightarrow> u8 list" where
  "sdk_initialize_message key format =
     (put_slice 4 (i32_to_le key) (blank_message MESSAGE_INITIALIZE))[8 := format]"

definition sdk_update_all_message :: "u8 list" where
  "sdk_update_all_message = put_slice 4 (i32_to_le UPDATE_ALL) (blank_message MESSAGE_UPDATE)"

definition sdk_update_partial_message :: "i32 \<Rightarrow> i32 \<Rightarrow> i32 \<Rightarrow> i32 \<Rightarrow> u8 list" where
  "sdk_update_partial_message x y width height =
     put_values 8 [x, y, width, height]
       (put_slice 4 (i32_to_le UPDATE_PARTIAL) (blank_message MESSAGE_UPDATE))"

definition sdk_refresh_mode_message :: "i32 \<Rightarrow> u8 list" where
  "sdk_refresh_mode_message mode =
     put_slice 4 (i32_to_le mode) (blank_message MESSAGE_SET_REFRESH_MODE)"

definition sdk_terminate_message :: "u8 list" where
  "sdk_terminate_message = blank_message MESSAGE_TERMINATE"

definition home_update_message :: "i32 \<Rightarrow> i32 \<Rightarrow> i32 \<Rightarrow> i32 \<Rightarrow> u8 list" where
  "home_update_message x y width height =
     put_values 4 [UPDATE_PARTIAL, x, y, width, height] (blank_message MESSAGE_UPDATE)"

text \<open>What a client may ask for, and the bytes that its library sends for it.\<close>

datatype client_request =
    Open_Surface i32 u8 | Redraw_All | Redraw i32 i32 i32 i32 | Set_Mode i32 | Goodbye

fun client_message :: "client_request \<Rightarrow> u8 list" where
  "client_message (Open_Surface key format) = sdk_initialize_message key format"
| "client_message Redraw_All = sdk_update_all_message"
| "client_message (Redraw x y w h) = sdk_update_partial_message x y w h"
| "client_message (Set_Mode mode) = sdk_refresh_mode_message mode"
| "client_message Goodbye = sdk_terminate_message"

fun requested_packet :: "client_request \<Rightarrow> client_packet option" where
  "requested_packet (Open_Surface key format) =
     (case (from_qtfb format, default_dimensions format) of
        (Some f, Inr (w, h)) \<Rightarrow> Some (Initialize key f w h) | _ \<Rightarrow> None)"
| "requested_packet Redraw_All = Some (Update None)"
| "requested_packet (Redraw x y w h) = Some (Update (Some (rect_new x y w h)))"
| "requested_packet (Set_Mode mode) =
     (if 0 \<le> sint mode \<and> sint mode \<le> 4 then Some (SetRefreshMode mode) else None)"
| "requested_packet Goodbye = Some Terminate"

lemma length_blank [simp]: "length (blank_message tag) = 24"
  by (simp add: blank_message_def packet_sizes)

lemma blank_tag [simp]: "blank_message tag ! 0 = tag"
  by (simp add: blank_message_def packet_sizes)

lemma home_same_message: "home_update_message x y w h = sdk_update_partial_message x y w h"
  by (simp add: home_update_message_def sdk_update_partial_message_def)

lemma update_partial_decodes:
  "decode_packet (sdk_update_partial_message x y w h) = Inr (Update (Some (rect_new x y w h)))"
proof -
  let ?m = "sdk_update_partial_message x y w h"
  let ?b = "put_slice 4 (i32_to_le UPDATE_PARTIAL) (blank_message MESSAGE_UPDATE)"
  have tag: "?m ! 0 = MESSAGE_UPDATE" and kind: "i32_at ?m 4 = UPDATE_PARTIAL"
    by (simp_all add: sdk_update_partial_message_def nth_put_other read_back)
  have "i32_at ?m 8 = x" "i32_at ?m 12 = y" "i32_at ?m 16 = w" "i32_at ?m 20 = h"
    using i32_at_put_values [of 0 "[x, y, w, h]" 8 ?b] i32_at_put_values [of 1 "[x, y, w, h]" 8 ?b]
      i32_at_put_values [of 2 "[x, y, w, h]" 8 ?b] i32_at_put_values [of 3 "[x, y, w, h]" 8 ?b]
    by (simp_all add: sdk_update_partial_message_def)
  then show ?thesis
    using kind by (simp add: decode_packet_def tag decode_update_def message_codes)
qed

lemma initialize_message_fields:
  "sdk_initialize_message key format ! 0 = MESSAGE_INITIALIZE"
  "sdk_initialize_message key format ! 8 = format"
  "i32_at (sdk_initialize_message key format) 4 = key"
proof -
  let ?b = "put_slice 4 (i32_to_le key) (blank_message MESSAGE_INITIALIZE)"
  have "slice 4 8 (?b[8 := format]) = slice 4 8 ?b"
    by (simp add: slice_def drop_update_swap)
  then show "i32_at (sdk_initialize_message key format) 4 = key"
    by (simp add: sdk_initialize_message_def i32_at_def slice_put_same)
qed (simp_all add: sdk_initialize_message_def nth_put_other)

lemma one_field_messages:
  "sdk_update_all_message ! 0 = MESSAGE_UPDATE" "i32_at sdk_update_all_message 4 = UPDATE_ALL"
  "sdk_refresh_mode_message mode ! 0 = MESSAGE_SET_REFRESH_MODE"
  "i32_at (sdk_refresh_mode_message mode) 4 = mode"
  by (simp_all add: sdk_update_all_message_def sdk_refresh_mode_message_def nth_put_other
      i32_at_def slice_put_same)


section \<open>Input at the client\<close>

datatype sdk_touch_phase = Sdk_Press | Sdk_Move | Sdk_Release

record sdk_input_event =
  sdk_phase :: sdk_touch_phase
  sdk_finger :: i32
  sdk_x :: i32
  sdk_y :: i32

text \<open>The phase of a raw input type in \<open>drain_touch\<close>, and the event of one packet there; \<open>n\<close> is
  the number of bytes that \<open>recv\<close> returned.\<close>

definition sdk_phase_of :: "i32 \<Rightarrow> sdk_touch_phase option" where
  "sdk_phase_of raw =
     (if raw = 0x10 then Some Sdk_Press else if raw = 0x11 then Some Sdk_Release
      else if raw = 0x12 then Some Sdk_Move else None)"

definition sdk_parse_input :: "u8 list \<Rightarrow> nat \<Rightarrow> sdk_input_event option" where
  "sdk_parse_input packet n =
     (if packet ! 0 = MESSAGE_USERINPUT \<and> 28 \<le> n then
        map_option (\<lambda>phase. \<lparr>sdk_phase = phase, sdk_finger = i32_at packet 12,
                             sdk_x = i32_at packet 16, sdk_y = i32_at packet 20\<rparr>)
          (sdk_phase_of (i32_at packet 8))
      else None)"

datatype recv_result = Received "u8 list" nat | Would_Block | Interrupted | Hung_Up | Recv_Error string

definition MAX_EVENTS_PER_PUMP :: nat where
  "MAX_EVENTS_PER_PUMP = 256"

text \<open>\<open>drain_touch\<close> over the results that its \<open>recv\<close> calls return; \<^term>\<open>None\<close> when the given
  results end before the loop does.\<close>

fun drain_touch :: "sdk_input_event list \<Rightarrow> recv_result list \<Rightarrow> (string + sdk_input_event list) option" where
  "drain_touch events [] = None"
| "drain_touch events (Hung_Up # rs) = Some (Inl ''disconnected'')"
| "drain_touch events (Would_Block # rs) = Some (Inr events)"
| "drain_touch events (Interrupted # rs) = drain_touch events rs"
| "drain_touch events (Recv_Error e # rs) = Some (Inl e)"
| "drain_touch events (Received packet n # rs) =
     (let events' = events @ (case sdk_parse_input packet n of None \<Rightarrow> [] | Some e \<Rightarrow> [e]) in
      if packet ! 0 = MESSAGE_USERINPUT \<and> 28 \<le> n \<and> length events' = MAX_EVENTS_PER_PUMP
      then Some (Inr events') else drain_touch events' rs)"

definition sdk_event_of :: "i32 \<times> i32 \<times> i32 \<times> i32 \<times> i32 \<Rightarrow> sdk_input_event option" where
  "sdk_event_of = (\<lambda>(t, d, x, y, v).
     map_option (\<lambda>phase. \<lparr>sdk_phase = phase, sdk_finger = d, sdk_x = x, sdk_y = y\<rparr>) (sdk_phase_of t))"

lemma sdk_parses_input_packet:
  "sdk_parse_input (input_packet t d x y v) QTFB_SERVER_MESSAGE_SIZE = sdk_event_of (t, d, x, y, v)"
  by (simp add: sdk_parse_input_def input_packet_fields sdk_event_of_def packet_sizes)

text \<open>A pump is bounded: it never returns more than \<^term>\<open>MAX_EVENTS_PER_PUMP\<close> events.\<close>

lemma drain_touch_bounded:
  "length events < MAX_EVENTS_PER_PUMP \<Longrightarrow> drain_touch events rs = Some (Inr out) \<Longrightarrow>
     length out \<le> MAX_EVENTS_PER_PUMP"
proof (induction events rs rule: drain_touch.induct)
  case (6 events packet n rs)
  then show ?case
    by (cases "sdk_parse_input packet n")
       (auto simp: Let_def sdk_parse_input_def split: if_splits)
qed auto

text \<open>The events of the packets the host sent, in order.\<close>

lemma drain_touch_delivers:
  "length events + length sent < MAX_EVENTS_PER_PUMP \<Longrightarrow>
   drain_touch events
       (map (\<lambda>(t, d, x, y, v). Received (input_packet t d x y v) QTFB_SERVER_MESSAGE_SIZE) sent
        @ [Would_Block]) =
     Some (Inr (events @ List.map_filter sdk_event_of sent))"
proof (induction sent arbitrary: events)
  case (Cons s sent)
  obtain t d x y v where s: "s = (t, d, x, y, v)" by (cases s) auto
  show ?case
    using Cons by (cases "sdk_event_of s")
       (auto simp: s sdk_parses_input_packet input_packet_fields Let_def map_filter_simps)
qed (simp add: map_filter_simps)

text \<open>The home screen follows the first finger only.\<close>

datatype home_touch = Home_Press i32 i32 | Home_Release i32 i32

record home_pointer =
  primary_touch :: "i32 option"
  last_touch :: "i32 \<times> i32"

definition home_touch_step :: "home_pointer \<Rightarrow> u8 list \<Rightarrow> nat \<Rightarrow> home_pointer \<times> home_touch list" where
  "home_touch_step c packet n =
     (if n \<noteq> length packet \<or> packet ! 0 \<noteq> MESSAGE_USERINPUT then (c, [])
      else
        let input_type = i32_at packet 8; device_id = i32_at packet 12;
            x = i32_at packet 16; y = i32_at packet 20
        in if input_type = INPUT_TOUCH_PRESS \<and> primary_touch c = None then
             (c\<lparr>primary_touch := Some device_id, last_touch := (x, y)\<rparr>, [Home_Press x y])
           else if primary_touch c = Some device_id then
             (if input_type = INPUT_TOUCH_RELEASE
              then (c\<lparr>last_touch := (x, y), primary_touch := None\<rparr>, [Home_Release x y])
              else (c\<lparr>last_touch := (x, y)\<rparr>, []))
           else (c, []))"

fun home_touch_run :: "home_pointer \<Rightarrow> (u8 list \<times> nat) list \<Rightarrow> home_pointer \<times> home_touch list" where
  "home_touch_run c [] = (c, [])"
| "home_touch_run c ((packet, n) # ps) =
     (case home_touch_step c packet n of (c1, es) \<Rightarrow>
        case home_touch_run c1 ps of (c2, es') \<Rightarrow> (c2, es @ es'))"

text \<open>Presses and releases alternate, starting from the state of the pointer.\<close>

fun paired :: "bool \<Rightarrow> home_touch list \<Rightarrow> bool" where
  "paired down [] = True"
| "paired down (Home_Press x y # es) = (\<not> down \<and> paired True es)"
| "paired down (Home_Release x y # es) = (down \<and> paired False es)"

lemma home_touches_pair: "paired (primary_touch c \<noteq> None) (snd (home_touch_run c ps))"
proof (induction c ps rule: home_touch_run.induct)
  case (2 c packet n ps)
  obtain c1 es where s: "home_touch_step c packet n = (c1, es)" by fastforce
  obtain c2 es' where r: "home_touch_run c1 ps = (c2, es')" by fastforce
  have "paired (primary_touch c1 \<noteq> None) es'" using 2 s r by simp
  then show ?case
    using s r by (auto simp: home_touch_step_def Let_def split: if_splits)
qed simp

end
