(* ===== verification/Input_Decoder.thy ===== *)
theory Input_Decoder
  imports Display_Geometry
begin

text \<open>
  From kernel input events to pen and touch frames
  (\<open>native/remagic-display-host/src/input.rs\<close>, \<open>input/decoder.rs\<close>): the two decoders are state
  machines fed one event at a time. A slot index out of the decoder's slots would panic;
  \<open>touch_ok\<close> is the invariant that it never does.
\<close>

section \<open>Frames\<close>

definition EV_SYN :: u16 where "EV_SYN = 0"
definition EV_KEY :: u16 where "EV_KEY = 1"
definition EV_ABS :: u16 where "EV_ABS = 3"
definition SYN_REPORT :: u16 where "SYN_REPORT = 0"
definition SYN_DROPPED :: u16 where "SYN_DROPPED = 3"
definition ABS_X :: u16 where "ABS_X = 0"
definition ABS_Y :: u16 where "ABS_Y = 1"
definition ABS_PRESSURE :: u16 where "ABS_PRESSURE = 24"
definition ABS_MT_SLOT :: u16 where "ABS_MT_SLOT = 47"
definition ABS_MT_POSITION_X :: u16 where "ABS_MT_POSITION_X = 53"
definition ABS_MT_POSITION_Y :: u16 where "ABS_MT_POSITION_Y = 54"
definition ABS_MT_TRACKING_ID :: u16 where "ABS_MT_TRACKING_ID = 57"
definition ABS_MT_PRESSURE :: u16 where "ABS_MT_PRESSURE = 58"
definition BTN_TOOL_PEN :: u16 where "BTN_TOOL_PEN = 320"
definition BTN_TOOL_RUBBER :: u16 where "BTN_TOOL_RUBBER = 321"
definition BTN_TOUCH :: u16 where "BTN_TOUCH = 330"

lemmas event_codes = EV_SYN_def EV_KEY_def EV_ABS_def SYN_REPORT_def SYN_DROPPED_def ABS_X_def
  ABS_Y_def ABS_PRESSURE_def ABS_MT_SLOT_def ABS_MT_POSITION_X_def ABS_MT_POSITION_Y_def
  ABS_MT_TRACKING_ID_def ABS_MT_PRESSURE_def BTN_TOOL_PEN_def BTN_TOOL_RUBBER_def BTN_TOUCH_def

datatype pen_phase = Pen_Down | Pen_Move | Pen_Up | Pen_Cancel

datatype pen_tool = Pen | Eraser

record pen_frame =
  pen_sequence :: u64
  pen_time_ns :: u64
  pen_phase :: pen_phase
  pen_tool :: pen_tool
  pen_x :: i32
  pen_y :: i32
  pen_pressure :: i32
  pen_pressure_max :: i32

datatype touch_phase = Touch_Down | Touch_Move | Touch_Up | Touch_Cancel

record touch_frame =
  touch_sequence :: u64
  touch_time_ns :: u64
  touch_phase :: touch_phase
  touch_device_id :: i32
  touch_x :: i32
  touch_y :: i32
  touch_pressure :: i32

datatype input_frame = Pen_Frame pen_frame | Touch_Frame touch_frame

record captured_input =
  captured_epoch :: u64
  captured_frame :: input_frame

record axis_range =
  axis_minimum :: i32
  axis_maximum :: i32

text \<open>\<open>clamp\<close> where the code before it has ordered the bounds.\<close>

definition i32_clamped :: "i32 \<Rightarrow> i32 \<Rightarrow> i32 \<Rightarrow> i32" where
  "i32_clamped v lo hi = (case i32_clamp v lo hi of Some c \<Rightarrow> c | None \<Rightarrow> v)"

definition axis_scale :: "axis_range \<Rightarrow> i32 \<Rightarrow> i32 \<Rightarrow> i32" where
  "axis_scale r v extent =
     (if sint extent \<le> 1 \<or> sint (axis_maximum r) \<le> sint (axis_minimum r) then 0
      else
        let offset = i32_clamped v (axis_minimum r) (axis_maximum r) - axis_minimum r;
            source = axis_maximum r - axis_minimum r
        in word_of_int ((sint offset * sint (extent - 1) + sint source sdiv 2) sdiv sint source))"

record raw_event =
  time_ns :: u64
  event_type :: u16
  event_code :: u16
  event_value :: i32

text \<open>The sequence number of the next frame: it wraps to one, never to zero.\<close>

definition next_sequence :: "u64 \<Rightarrow> u64" where
  "next_sequence s = max (s + 1) 1"

section \<open>The pen\<close>

record marker_decoder =
  m_width :: i32
  m_height :: i32
  m_x_range :: axis_range
  m_y_range :: axis_range
  m_pressure_range :: axis_range
  m_x :: i32
  m_y :: i32
  m_pressure :: i32
  m_touching :: bool
  m_reported_down :: bool
  m_tool :: pen_tool
  m_dirty :: bool
  m_sequence :: u64
  m_last_time :: u64

definition marker_new :: "i32 \<Rightarrow> i32 \<Rightarrow> axis_range \<Rightarrow> axis_range \<Rightarrow> axis_range \<Rightarrow> marker_decoder" where
  "marker_new w h xr yr pr =
     \<lparr>m_width = w, m_height = h, m_x_range = xr, m_y_range = yr, m_pressure_range = pr,
      m_x = 0, m_y = 0, m_pressure = 0, m_touching = False, m_reported_down = False,
      m_tool = Pen, m_dirty = False, m_sequence = 0, m_last_time = 0\<rparr>"

definition pressure_limit :: "marker_decoder \<Rightarrow> i32" where
  "pressure_limit m = i32_max_of (axis_maximum (m_pressure_range m)) 1"

definition marker_frame :: "pen_phase \<Rightarrow> marker_decoder \<Rightarrow> pen_frame \<times> marker_decoder" where
  "marker_frame phase m =
     (let m' = m\<lparr>m_sequence := next_sequence (m_sequence m)\<rparr> in
      (\<lparr>pen_sequence = m_sequence m', pen_time_ns = m_last_time m', pen_phase = phase,
        pen_tool = m_tool m', pen_x = m_x m', pen_y = m_y m', pen_pressure = m_pressure m',
        pen_pressure_max = pressure_limit m'\<rparr>, m'))"

definition marker_dropped :: "marker_decoder \<Rightarrow> pen_frame option \<times> marker_decoder" where
  "marker_dropped m =
     (let m = m\<lparr>m_dirty := False\<rparr> in
      if m_reported_down m then
        (case marker_frame Pen_Cancel (m\<lparr>m_reported_down := False, m_touching := False\<rparr>) of
           (frame, m') \<Rightarrow> (Some frame, m'))
      else (None, m))"

definition marker_report :: "marker_decoder \<Rightarrow> pen_frame option \<times> marker_decoder" where
  "marker_report m =
     (let m = m\<lparr>m_dirty := False\<rparr>;
          emit = (\<lambda>phase. case marker_frame phase (m\<lparr>m_reported_down := m_touching m\<rparr>) of
                    (frame, m') \<Rightarrow> (Some frame, m'))
      in case (m_reported_down m, m_touching m) of
           (False, True) \<Rightarrow> emit Pen_Down
         | (True, True) \<Rightarrow> emit Pen_Move
         | (True, False) \<Rightarrow> emit Pen_Up
         | (False, False) \<Rightarrow> (None, m))"

definition marker_update :: "raw_event \<Rightarrow> marker_decoder \<Rightarrow> marker_decoder" where
  "marker_update e m =
     (if event_type e = EV_ABS \<and> event_code e = ABS_X then
        m\<lparr>m_x := axis_scale (m_x_range m) (event_value e) (m_width m), m_dirty := True\<rparr>
      else if event_type e = EV_ABS \<and> event_code e = ABS_Y then
        m\<lparr>m_y := axis_scale (m_y_range m) (event_value e) (m_height m), m_dirty := True\<rparr>
      else if event_type e = EV_ABS \<and> event_code e = ABS_PRESSURE then
        m\<lparr>m_pressure := i32_clamped (event_value e) 0 (pressure_limit m), m_dirty := True\<rparr>
      else if event_type e = EV_KEY \<and> event_code e = BTN_TOUCH then
        m\<lparr>m_touching := (event_value e \<noteq> 0), m_dirty := True\<rparr>
      else if event_type e = EV_KEY \<and> event_code e = BTN_TOOL_RUBBER \<and> event_value e \<noteq> 0 then
        m\<lparr>m_tool := Eraser, m_dirty := True\<rparr>
      else if event_type e = EV_KEY \<and> event_code e = BTN_TOOL_PEN \<and> event_value e \<noteq> 0 then
        m\<lparr>m_tool := Pen, m_dirty := True\<rparr>
      else m)"

definition marker_consume :: "raw_event \<Rightarrow> marker_decoder \<Rightarrow> pen_frame option \<times> marker_decoder" where
  "marker_consume e m0 =
     (let m = m0\<lparr>m_last_time := time_ns e\<rparr> in
      if event_type e = EV_SYN \<and> event_code e = SYN_DROPPED then marker_dropped m
      else if event_type e = EV_SYN \<and> event_code e = SYN_REPORT then
        (if m_dirty m then marker_report m else (None, m))
      else (None, marker_update e m))"

fun marker_run :: "raw_event list \<Rightarrow> marker_decoder \<Rightarrow> pen_frame list \<times> marker_decoder" where
  "marker_run [] m = ([], m)"
| "marker_run (e # es) m =
     (case marker_consume e m of (frame, m1) \<Rightarrow>
        case marker_run es m1 of (frames, m2) \<Rightarrow>
          ((case frame of None \<Rightarrow> [] | Some f \<Rightarrow> [f]) @ frames, m2))"

text \<open>The language of a pen's phases: a contact is a \<open>Down\<close>, moves, then an \<open>Up\<close> or a \<open>Cancel\<close>;
  \<open>pen_contact d phases\<close> is the state after them from \<open>d\<close>, if they are in the language.\<close>

fun pen_contact :: "bool \<Rightarrow> pen_phase list \<Rightarrow> bool option" where
  "pen_contact d [] = Some d"
| "pen_contact d (Pen_Down # ps) = (if d then None else pen_contact True ps)"
| "pen_contact d (Pen_Move # ps) = (if d then pen_contact True ps else None)"
| "pen_contact d (Pen_Up # ps) = (if d then pen_contact False ps else None)"
| "pen_contact d (Pen_Cancel # ps) = (if d then pen_contact False ps else None)"

lemmas marker_defs = marker_consume_def marker_dropped_def marker_report_def marker_frame_def Let_def

lemma marker_update_keeps [simp]:
  "m_reported_down (marker_update e m) = m_reported_down m"
  "m_sequence (marker_update e m) = m_sequence m"
  "m_width (marker_update e m) = m_width m" "m_height (marker_update e m) = m_height m"
  "m_x_range (marker_update e m) = m_x_range m" "m_y_range (marker_update e m) = m_y_range m"
  "m_pressure_range (marker_update e m) = m_pressure_range m"
  by (simp_all add: marker_update_def)

lemma marker_consume_phase:
  "marker_consume e m = (frame, m') \<Longrightarrow>
     pen_contact (m_reported_down m) (case frame of None \<Rightarrow> [] | Some f \<Rightarrow> [pen_phase f])
       = Some (m_reported_down m')"
  by (auto simp: marker_defs split: if_splits bool.splits)

lemma pen_contact_append:
  "pen_contact d (ps @ qs) = Option.bind (pen_contact d ps) (\<lambda>d'. pen_contact d' qs)"
  by (induction d ps rule: pen_contact.induct) auto

lemma marker_run_contact:
  "pen_contact (m_reported_down m) (map pen_phase (fst (marker_run es m)))
     = Some (m_reported_down (snd (marker_run es m)))"
proof (induction es m rule: marker_run.induct)
  case (2 e es m)
  obtain frame m1 where c: "marker_consume e m = (frame, m1)" by fastforce
  obtain frames m2 where r: "marker_run es m1 = (frames, m2)" by fastforce
  define ps where "ps = (case frame of None \<Rightarrow> [] | Some f \<Rightarrow> [pen_phase f])"
  have run: "map pen_phase (fst (marker_run (e # es) m)) = ps @ map pen_phase frames"
      "snd (marker_run (e # es) m) = m2"
    by (cases frame; simp add: c r ps_def)+
  have head: "pen_contact (m_reported_down m) ps = Some (m_reported_down m1)"
    using marker_consume_phase [OF c] by (simp only: ps_def)
  have tail: "pen_contact (m_reported_down m1) (map pen_phase frames) = Some (m_reported_down m2)"
    using 2 c r by simp
  show ?case by (simp only: run pen_contact_append head tail bind.bind_lunit)
qed simp

text \<open>Whatever the kernel sends, the frames of a pen form proper contacts: every contact starts
  with one down frame, moves only while it is down, and ends with one up or cancel frame.\<close>

theorem pen_frames_form_contacts:
  "pen_contact False (map pen_phase (fst (marker_run es (marker_new w h xr yr pr))))
     = Some (m_reported_down (snd (marker_run es (marker_new w h xr yr pr))))"
  using marker_run_contact [of "marker_new w h xr yr pr" es] by (simp add: marker_new_def)

section \<open>Frames lie on the display\<close>

text \<open>The range of an axis is usable when its width fits an \<open>i32\<close>; kernel axes are far smaller.\<close>

definition range_fits :: "axis_range \<Rightarrow> bool" where
  "range_fits r = (sint (axis_maximum r) - sint (axis_minimum r) \<le> i32_max)"

lemma i32_clamped_bounds:
  "sint lo \<le> sint hi \<Longrightarrow> sint lo \<le> sint (i32_clamped v lo hi) \<and> sint (i32_clamped v lo hi) \<le> sint hi"
  by (auto simp: i32_clamped_def i32_clamp_def)

lemma axis_scale_bounds:
  assumes ext: "0 < sint extent" and fits: "range_fits r"
  shows "0 \<le> sint (axis_scale r v extent)" "sint (axis_scale r v extent) < sint extent"
proof -
  have "0 \<le> sint (axis_scale r v extent) \<and> sint (axis_scale r v extent) < sint extent"
  proof (cases "sint extent \<le> 1 \<or> sint (axis_maximum r) \<le> sint (axis_minimum r)")
    case True
    then show ?thesis using ext by (simp add: axis_scale_def)
  next
    case False
    let ?lo = "axis_minimum r" and ?hi = "axis_maximum r"
    let ?c = "i32_clamped v ?lo ?hi"
    have c: "sint ?lo \<le> sint ?c" "sint ?c \<le> sint ?hi"
      using False i32_clamped_bounds [of ?lo ?hi v] by auto
    have fit: "sint ?hi - sint ?lo \<le> i32_max" using fits by (simp add: range_fits_def)
    have src: "sint (?hi - ?lo) = sint ?hi - sint ?lo"
      using False fit by (intro sint_sub_i32) (unfold i32_min_def, linarith+)
    have off: "sint (?c - ?lo) = sint ?c - sint ?lo"
      using c fit by (intro sint_sub_i32) (unfold i32_min_def, linarith+)
    define k where "k = sint (?c - ?lo)"
    define n where "n = sint (?hi - ?lo)"
    define m where "m = k * (sint extent - 1) + n div 2"
    have k: "0 \<le> k" "k \<le> n" and n: "0 < n" using c False by (simp_all add: k_def n_def off src)
    have half: "0 \<le> n div 2" "n div 2 < n" using n by linarith+
    have km: "0 \<le> k * (sint extent - 1)" "k * (sint extent - 1) \<le> n * (sint extent - 1)"
      using k ext by (simp_all add: mult_right_mono)
    have m0: "0 \<le> m" using half km by (simp add: m_def)
    have "m < sint extent * n" using half km by (simp add: m_def algebra_simps)
    then have up: "m div n < sint extent" using div_less_iff [OF n, of m "sint extent"] by simp
    have low: "0 \<le> m div n" using m0 n by (simp add: pos_imp_zdiv_nonneg_iff)
    have "axis_scale r v extent = word_of_int (m div n)"
      using False n m0 half ext
      by (simp add: axis_scale_def Let_def sint_pred tdiv_nonneg m_def flip: k_def n_def)
    moreover have "sint (word_of_int (m div n) :: i32) = m div n"
      by (rule sint_of_int_i32) (use low up sint_i32_bounds(2) [of extent] i32_min_def in linarith)+
    ultimately show ?thesis using low up by simp
  qed
  then show "0 \<le> sint (axis_scale r v extent)" "sint (axis_scale r v extent) < sint extent" by auto
qed

definition pen_frame_ok :: "i32 \<Rightarrow> i32 \<Rightarrow> pen_frame \<Rightarrow> bool" where
  "pen_frame_ok w h f =
     ((sint (pen_x f), sint (pen_y f)) \<in> canvas w h
      \<and> 0 \<le> sint (pen_pressure f) \<and> sint (pen_pressure f) \<le> sint (pen_pressure_max f)
      \<and> pen_sequence f \<noteq> 0)"

definition marker_ok :: "marker_decoder \<Rightarrow> bool" where
  "marker_ok m =
     (0 < sint (m_width m) \<and> 0 < sint (m_height m)
      \<and> range_fits (m_x_range m) \<and> range_fits (m_y_range m)
      \<and> (sint (m_x m), sint (m_y m)) \<in> canvas (m_width m) (m_height m)
      \<and> 0 \<le> sint (m_pressure m) \<and> sint (m_pressure m) \<le> sint (pressure_limit m))"

lemma next_sequence_nonzero [simp]: "next_sequence s \<noteq> 0"
  by (auto simp: next_sequence_def max_def)

lemma marker_update_ok: "marker_ok m \<Longrightarrow> marker_ok (marker_update e m)"
  using axis_scale_bounds [of "m_width m" "m_x_range m" "event_value e"]
    axis_scale_bounds [of "m_height m" "m_y_range m" "event_value e"]
    i32_clamped_bounds [of 0 "pressure_limit m" "event_value e"]
  by (auto simp: marker_update_def marker_ok_def canvas_def pressure_limit_def)

lemma marker_ok_flags [simp]:
  "marker_ok (m\<lparr>m_dirty := b\<rparr>) = marker_ok m" "marker_ok (m\<lparr>m_last_time := t\<rparr>) = marker_ok m"
  "marker_ok (m\<lparr>m_reported_down := b\<rparr>) = marker_ok m" "marker_ok (m\<lparr>m_touching := b\<rparr>) = marker_ok m"
  "marker_ok (m\<lparr>m_sequence := n\<rparr>) = marker_ok m"
  by (simp_all add: marker_ok_def pressure_limit_def)

text \<open>A step from \<open>m\<close> that ends in \<open>m'\<close> with the frame \<open>fr\<close>.\<close>

definition pen_step_ok :: "marker_decoder \<Rightarrow> pen_frame option \<times> marker_decoder \<Rightarrow> bool" where
  "pen_step_ok m r =
     (marker_ok (snd r) \<and> m_width (snd r) = m_width m \<and> m_height (snd r) = m_height m
      \<and> (case fst r of None \<Rightarrow> True | Some f \<Rightarrow> pen_frame_ok (m_width m) (m_height m) f))"

lemma marker_frame_ok:
  "marker_ok m \<Longrightarrow> pen_step_ok m (case marker_frame phase m of (f, m') \<Rightarrow> (Some f, m'))"
  by (simp add: marker_frame_def Let_def pen_step_ok_def)
     (simp add: marker_ok_def pen_frame_ok_def pressure_limit_def)

lemma pen_step_ok_same:
  "m_width n = m_width m \<Longrightarrow> m_height n = m_height m \<Longrightarrow> pen_step_ok n r = pen_step_ok m r"
  by (simp add: pen_step_ok_def cong: option.case_cong)

lemma marker_dropped_ok: "marker_ok m \<Longrightarrow> pen_step_ok m (marker_dropped m)"
  using marker_frame_ok [of "m\<lparr>m_dirty := False, m_reported_down := False, m_touching := False\<rparr>" Pen_Cancel]
    pen_step_ok_same [of "m\<lparr>m_dirty := False, m_reported_down := False, m_touching := False\<rparr>" m]
  by (simp add: marker_dropped_def Let_def) (simp add: pen_step_ok_def)

lemma marker_report_ok: "marker_ok m \<Longrightarrow> pen_step_ok m (marker_report m)"
  using marker_frame_ok [of "m\<lparr>m_dirty := False, m_reported_down := m_touching m\<rparr>"]
    pen_step_ok_same [of "m\<lparr>m_dirty := False, m_reported_down := m_touching m\<rparr>" m]
  by (cases "m_reported_down m"; cases "m_touching m"; simp add: marker_report_def Let_def)
     (simp add: pen_step_ok_def)

lemma marker_consume_ok:
  assumes "marker_ok m"
  shows "pen_step_ok m (marker_consume e m)"
proof -
  let ?m = "m\<lparr>m_last_time := time_ns e\<rparr>"
  have ok: "marker_ok ?m" using assms by simp
  have same: "pen_step_ok ?m r = pen_step_ok m r" for r by (rule pen_step_ok_same) simp_all
  have "pen_step_ok m (None, ?m)" "pen_step_ok m (None, marker_update e ?m)"
    using ok marker_update_ok [OF ok, of e] by (simp_all add: pen_step_ok_def)
  then show ?thesis
    using marker_dropped_ok [OF ok] marker_report_ok [OF ok] by (simp add: marker_consume_def Let_def same)
qed

lemma marker_run_ok:
  "marker_ok m \<Longrightarrow> \<forall>f\<in>set (fst (marker_run es m)). pen_frame_ok (m_width m) (m_height m) f"
proof (induction es arbitrary: m)
  case (Cons e es)
  obtain frame m1 where c: "marker_consume e m = (frame, m1)" by fastforce
  obtain frames m2 where r: "marker_run es m1 = (frames, m2)" by fastforce
  have ok: "pen_step_ok m (frame, m1)" using marker_consume_ok [OF Cons.prems, of e] c by simp
  then have "\<forall>f\<in>set frames. pen_frame_ok (m_width m) (m_height m) f"
    using Cons.IH [of m1] r by (simp add: pen_step_ok_def)
  then show ?case using ok c r by (simp add: pen_step_ok_def split: option.splits)
qed simp

text \<open>Every frame of a pen lies on the logical display, its pressure is between zero and the
  frame's own maximum, and its sequence number is never zero, also after the counter wraps.\<close>

theorem pen_frames_lie_on_the_display:
  assumes "0 < sint w" "0 < sint h" "range_fits xr" "range_fits yr"
    and "f \<in> set (fst (marker_run es (marker_new w h xr yr pr)))"
  shows "pen_frame_ok w h f"
proof -
  have "marker_ok (marker_new w h xr yr pr)"
    using assms by (simp add: marker_ok_def marker_new_def pressure_limit_def canvas_def)
  from marker_run_ok [OF this] assms(5) show ?thesis by (simp add: marker_new_def)
qed

definition demo_stroke :: "raw_event list" where
  "demo_stroke =
     [\<lparr>time_ns = 1, event_type = EV_ABS, event_code = ABS_X, event_value = 4000\<rparr>,
      \<lparr>time_ns = 1, event_type = EV_KEY, event_code = BTN_TOUCH, event_value = 1\<rparr>,
      \<lparr>time_ns = 2, event_type = EV_SYN, event_code = SYN_REPORT, event_value = 0\<rparr>]"

definition demo_axis :: axis_range where
  "demo_axis = \<lparr>axis_minimum = 0, axis_maximum = 4095\<rparr>"

lemma pen_frames_lie_on_the_display_witness:
  "pen_frame_ok 954 1696 (hd (fst (marker_run demo_stroke (marker_new 954 1696 demo_axis demo_axis demo_axis))))"
  by (rule pen_frames_lie_on_the_display
      [of _ _ demo_axis demo_axis _ demo_stroke demo_axis]) code_simp+

section \<open>Touches\<close>

record touch_slot =
  tracking_id :: i32
  reported_id :: i32
  slot_x :: i32
  slot_y :: i32
  slot_pressure :: i32
  slot_dirty :: bool

definition slot_default :: touch_slot where
  "slot_default = \<lparr>tracking_id = 0, reported_id = 0, slot_x = 0, slot_y = 0,
     slot_pressure = 0, slot_dirty = False\<rparr>"

record touch_decoder =
  t_width :: i32
  t_height :: i32
  t_x_range :: axis_range
  t_y_range :: axis_range
  t_slot :: nat
  t_slots :: "touch_slot list"
  t_sequence :: u64
  t_last_time :: u64

definition touch_new :: "i32 \<Rightarrow> i32 \<Rightarrow> axis_range \<Rightarrow> axis_range \<Rightarrow> nat \<Rightarrow> touch_decoder" where
  "touch_new w h xr yr slot_count =
     \<lparr>t_width = w, t_height = h, t_x_range = xr, t_y_range = yr, t_slot = 0,
      t_slots = replicate (max slot_count 1) (slot_default\<lparr>tracking_id := - 1, reported_id := - 1\<rparr>),
      t_sequence = 0, t_last_time = 0\<rparr>"

definition slot_frame :: "u64 \<Rightarrow> u64 \<Rightarrow> touch_phase \<Rightarrow> i32 \<Rightarrow> touch_slot \<Rightarrow> touch_frame" where
  "slot_frame sequence time phase device s =
     \<lparr>touch_sequence = sequence, touch_time_ns = time, touch_phase = phase, touch_device_id = device,
      touch_x = slot_x s, touch_y = slot_y s, touch_pressure = slot_pressure s\<rparr>"

text \<open>One round of the loop of \<open>flush\<close>: the frame of a slot, if it has one, and the slot after it.\<close>

definition flush_phase :: "touch_slot \<Rightarrow> touch_phase option" where
  "flush_phase s =
     (if \<not> slot_dirty s then None
      else case (0 \<le> sint (reported_id s), 0 \<le> sint (tracking_id s)) of
          (False, True) \<Rightarrow> Some Touch_Down
        | (True, True) \<Rightarrow> Some Touch_Move
        | (True, False) \<Rightarrow> Some Touch_Up
        | (False, False) \<Rightarrow> None)"

definition flush_slot :: "u64 \<Rightarrow> u64 \<Rightarrow> touch_slot \<Rightarrow> touch_frame option \<times> touch_slot" where
  "flush_slot sequence time s0 =
     (let s = s0\<lparr>slot_dirty := False\<rparr> in
      case flush_phase s0 of
        None \<Rightarrow> (None, s)
      | Some phase \<Rightarrow>
          let device_id = (if 0 \<le> sint (tracking_id s) then tracking_id s else reported_id s);
              s' = s\<lparr>reported_id := tracking_id s\<rparr>
          in (Some (slot_frame (next_sequence sequence) time phase device_id s'), s'))"

fun flush_slots :: "u64 \<Rightarrow> u64 \<Rightarrow> touch_slot list \<Rightarrow> touch_frame list \<times> touch_slot list \<times> u64" where
  "flush_slots sequence time [] = ([], [], sequence)"
| "flush_slots sequence time (s # ss) =
     (case flush_slot sequence time s of
        (None, s') \<Rightarrow>
          (case flush_slots sequence time ss of (fs, ss', n) \<Rightarrow> (fs, s' # ss', n))
      | (Some f, s') \<Rightarrow>
          (case flush_slots (next_sequence sequence) time ss of (fs, ss', n) \<Rightarrow> (f # fs, s' # ss', n)))"

definition touch_flush :: "touch_decoder \<Rightarrow> touch_frame list \<times> touch_decoder" where
  "touch_flush t =
     (case flush_slots (t_sequence t) (t_last_time t) (t_slots t) of
        (frames, slots, sequence) \<Rightarrow> (frames, t\<lparr>t_slots := slots, t_sequence := sequence\<rparr>))"

fun cancel_slots :: "u64 \<Rightarrow> u64 \<Rightarrow> touch_slot list \<Rightarrow> touch_frame list \<times> touch_slot list \<times> u64" where
  "cancel_slots sequence time [] = ([], [], sequence)"
| "cancel_slots sequence time (s # ss) =
     (if sint (reported_id s) < 0 then
        (case cancel_slots sequence time ss of (fs, ss', n) \<Rightarrow> (fs, s # ss', n))
      else
        (case cancel_slots (next_sequence sequence) time ss of (fs, ss', n) \<Rightarrow>
           (slot_frame (next_sequence sequence) time Touch_Cancel (reported_id s) s # fs,
            s\<lparr>tracking_id := - 1, reported_id := - 1, slot_dirty := False\<rparr> # ss', n)))"

definition touch_cancel_all :: "touch_decoder \<Rightarrow> touch_frame list \<times> touch_decoder" where
  "touch_cancel_all t =
     (case cancel_slots (t_sequence t) (t_last_time t) (t_slots t) of
        (frames, slots, sequence) \<Rightarrow> (frames, t\<lparr>t_slots := slots, t_sequence := sequence\<rparr>))"

definition on_slot :: "(touch_slot \<Rightarrow> touch_slot) \<Rightarrow> touch_decoder \<Rightarrow> touch_decoder" where
  "on_slot f t = t\<lparr>t_slots := (t_slots t)[t_slot t := (f (t_slots t ! t_slot t))\<lparr>slot_dirty := True\<rparr>]\<rparr>"

definition touch_update :: "raw_event \<Rightarrow> touch_decoder \<Rightarrow> touch_decoder" where
  "touch_update e t =
     (if event_type e = EV_ABS \<and> event_code e = ABS_MT_SLOT then
        t\<lparr>t_slot := min (nat (sint (i32_max_of (event_value e) 0))) (length (t_slots t) - 1)\<rparr>
      else if event_type e = EV_ABS \<and> event_code e = ABS_MT_TRACKING_ID then
        on_slot (\<lambda>s. s\<lparr>tracking_id := event_value e\<rparr>) t
      else if event_type e = EV_ABS \<and> event_code e = ABS_MT_POSITION_X then
        on_slot (\<lambda>s. s\<lparr>slot_x := axis_scale (t_x_range t) (event_value e) (t_width t)\<rparr>) t
      else if event_type e = EV_ABS \<and> event_code e = ABS_MT_POSITION_Y then
        on_slot (\<lambda>s. s\<lparr>slot_y := axis_scale (t_y_range t) (event_value e) (t_height t)\<rparr>) t
      else if event_type e = EV_ABS \<and> event_code e = ABS_MT_PRESSURE then
        on_slot (\<lambda>s. s\<lparr>slot_pressure := i32_clamped (event_value e) 0 255\<rparr>) t
      else t)"

definition touch_consume :: "raw_event \<Rightarrow> touch_decoder \<Rightarrow> touch_frame list \<times> touch_decoder" where
  "touch_consume e t0 =
     (let t = t0\<lparr>t_last_time := time_ns e\<rparr> in
      if event_type e = EV_SYN \<and> event_code e = SYN_DROPPED then touch_cancel_all t
      else if event_type e = EV_SYN \<and> event_code e = SYN_REPORT then touch_flush t
      else ([], touch_update e t))"

fun touch_run :: "raw_event list \<Rightarrow> touch_decoder \<Rightarrow> touch_frame list \<times> touch_decoder" where
  "touch_run [] t = ([], t)"
| "touch_run (e # es) t =
     (case touch_consume e t of (frames, t1) \<Rightarrow>
        case touch_run es t1 of (later, t2) \<Rightarrow> (frames @ later, t2))"

definition touch_ok :: "touch_decoder \<Rightarrow> bool" where
  "touch_ok t = (t_slot t < length (t_slots t))"

text \<open>Contacts that were reported down and not yet ended.\<close>

definition slot_open :: "touch_slot \<Rightarrow> bool" where
  "slot_open s = (0 \<le> sint (reported_id s))"

definition open_contacts :: "touch_decoder \<Rightarrow> nat" where
  "open_contacts t = length (filter slot_open (t_slots t))"

definition touch_downs :: "touch_frame list \<Rightarrow> nat" where
  "touch_downs fs = length (filter (\<lambda>f. touch_phase f = Touch_Down) fs)"

definition touch_ends :: "touch_frame list \<Rightarrow> nat" where
  "touch_ends fs = length (filter (\<lambda>f. touch_phase f \<in> {Touch_Up, Touch_Cancel}) fs)"

lemma contact_counts [simp]:
  "touch_downs [] = 0" "touch_ends [] = 0"
  "touch_downs (fs @ gs) = touch_downs fs + touch_downs gs"
  "touch_ends (fs @ gs) = touch_ends fs + touch_ends gs"
  "touch_downs (f # fs) = (if touch_phase f = Touch_Down then 1 else 0) + touch_downs fs"
  "touch_ends (f # fs) = (if touch_phase f \<in> {Touch_Up, Touch_Cancel} then 1 else 0) + touch_ends fs"
  by (simp_all add: touch_downs_def touch_ends_def)

lemma slot_frame_phase [simp]: "touch_phase (slot_frame n time p d s) = p"
  by (simp add: slot_frame_def)

lemma flush_slot_cases:
  "flush_slot n time s = (None, s') \<Longrightarrow> slot_open s' = slot_open s"
  "flush_slot n time s = (Some f, s') \<Longrightarrow>
     touch_phase f = (if \<not> slot_open s then Touch_Down else if slot_open s' then Touch_Move else Touch_Up)
     \<and> (\<not> slot_open s \<longrightarrow> slot_open s')"
  by (auto simp: flush_slot_def flush_phase_def slot_open_def Let_def split: if_splits bool.splits)

lemma flush_slots_balance:
  "flush_slots n time ss = (fs, ss', n') \<Longrightarrow>
     length ss' = length ss \<and>
     length (filter slot_open ss) + touch_downs fs = length (filter slot_open ss') + touch_ends fs"
proof (induction ss arbitrary: n fs ss' n')
  case (Cons s ss)
  obtain fo s1 where one: "flush_slot n time s = (fo, s1)" by fastforce
  define n1 where "n1 = (case fo of None \<Rightarrow> n | Some _ \<Rightarrow> next_sequence n)"
  obtain gs rs k where rest: "flush_slots n1 time ss = (gs, rs, k)" by (metis prod_cases3)
  show ?case
  proof (cases fo)
    case None
    then have eqs: "fs = gs" "ss' = s1 # rs" and same: "slot_open s1 = slot_open s"
      using Cons.prems one rest flush_slot_cases(1) [of n time s s1] by (simp_all add: n1_def)
    show ?thesis using Cons.IH [OF rest] by (simp add: eqs same)
  next
    case (Some f)
    then have eqs: "fs = f # gs" "ss' = s1 # rs"
      using Cons.prems one rest by (simp_all add: n1_def)
    show ?thesis
      using Cons.IH [OF rest] flush_slot_cases(2) [of n time s f s1] one Some
      by (cases "slot_open s"; cases "slot_open s1"; simp add: eqs)
  qed
qed simp

lemma cancel_slots_balance:
  "cancel_slots n time ss = (fs, ss', n') \<Longrightarrow>
     length ss' = length ss \<and> filter slot_open ss' = [] \<and>
     length (filter slot_open ss) + touch_downs fs = touch_ends fs \<and>
     map touch_device_id fs = map reported_id (filter slot_open ss)"
proof (induction ss arbitrary: n fs ss' n')
  case (Cons s ss)
  define n1 where "n1 = (if sint (reported_id s) < 0 then n else next_sequence n)"
  obtain gs rs k where rest: "cancel_slots n1 time ss = (gs, rs, k)" by (metis prod_cases3)
  show ?case
  proof (cases "slot_open s")
    case True
    then have "fs = slot_frame (next_sequence n) time Touch_Cancel (reported_id s) s # gs"
      "ss' = s\<lparr>tracking_id := - 1, reported_id := - 1, slot_dirty := False\<rparr> # rs"
      using Cons.prems rest by (simp_all add: n1_def slot_open_def)
    then show ?thesis using Cons.IH [OF rest] True
      by (simp add: slot_frame_def) (simp add: slot_open_def)
  next
    case False
    then have "fs = gs" "ss' = s # rs"
      using Cons.prems rest by (simp_all add: n1_def slot_open_def)
    then show ?thesis using Cons.IH [OF rest] False by simp
  qed
qed simp

lemma on_slot_keeps:
  "(\<And>s. reported_id (f s) = reported_id s) \<Longrightarrow>
     map reported_id (t_slots (on_slot f t)) = map reported_id (t_slots t) \<and> t_slot (on_slot f t) = t_slot t"
  using list_update_id [of "map reported_id (t_slots t)" "t_slot t"]
  by (cases "t_slot t < length (t_slots t)") (simp_all add: on_slot_def map_update list_update_beyond)

lemma touch_update_keeps:
  "map reported_id (t_slots (touch_update e t)) = map reported_id (t_slots t)"
  by (auto simp: touch_update_def on_slot_keeps)

lemma open_contacts_reported: "open_contacts t = length (filter (\<lambda>i. 0 \<le> sint i) (map reported_id (t_slots t)))"
  unfolding open_contacts_def slot_open_def [abs_def] by (simp add: filter_map comp_def)

lemma touch_consume_balance:
  assumes "touch_consume e t = (fs, t')"
  shows "open_contacts t + touch_downs fs = open_contacts t' + touch_ends fs"
proof -
  have "open_contacts t + 0 = open_contacts (touch_update e (t\<lparr>t_last_time := time_ns e\<rparr>)) + 0"
    by (simp add: open_contacts_reported touch_update_keeps)
  then show ?thesis
    using assms by (auto simp: touch_consume_def touch_cancel_all_def touch_flush_def Let_def open_contacts_def
        dest!: flush_slots_balance cancel_slots_balance split: if_splits prod.splits)
qed

lemma touch_update_ok: "touch_ok t \<Longrightarrow> touch_ok (touch_update e t)"
  by (auto simp: touch_ok_def touch_update_def on_slot_def min_def)

lemma touch_consume_ok: "touch_ok t \<Longrightarrow> touch_consume e t = (fs, t') \<Longrightarrow> touch_ok t'"
  using touch_update_ok [of "t\<lparr>t_last_time := time_ns e\<rparr>" e]
  by (auto simp: touch_consume_def touch_cancel_all_def touch_flush_def Let_def touch_ok_def
      dest!: flush_slots_balance cancel_slots_balance split: if_splits prod.splits)

lemma touch_run_balance:
  "touch_ok t \<Longrightarrow> touch_run es t = (fs, t') \<Longrightarrow>
     touch_ok t' \<and> open_contacts t + touch_downs fs = open_contacts t' + touch_ends fs"
proof (induction es arbitrary: t fs t')
  case (Cons e es)
  obtain gs t1 where c: "touch_consume e t = (gs, t1)" by fastforce
  obtain hs t2 where r: "touch_run es t1 = (hs, t2)" by fastforce
  show ?case
    using Cons.prems c r Cons.IH [OF touch_consume_ok [OF Cons.prems(1) c] r] touch_consume_balance [OF c]
    by auto
qed simp

text \<open>A touch decoder never indexes past its slots, and over any run of kernel events the contacts
  it has reported down are those it has reported up or cancelled plus the ones still open; after the
  kernel drops events none is open.\<close>

theorem touch_contacts_balance:
  "case touch_run es (touch_new w h xr yr slot_count) of (fs, t) \<Rightarrow>
     t_slot t < length (t_slots t)
     \<and> touch_downs fs = touch_ends fs + open_contacts t
     \<and> open_contacts (snd (touch_cancel_all t)) = 0"
proof -
  obtain fs t where r: "touch_run es (touch_new w h xr yr slot_count) = (fs, t)" by fastforce
  have start: "touch_ok (touch_new w h xr yr slot_count)"
    "open_contacts (touch_new w h xr yr slot_count) = 0"
    by (simp_all add: touch_new_def touch_ok_def open_contacts_def slot_open_def slot_default_def)
  obtain gs ss k where c: "cancel_slots (t_sequence t) (t_last_time t) (t_slots t) = (gs, ss, k)"
    by (metis prod_cases3)
  show ?thesis
    using touch_run_balance [OF start(1) r] start(2) cancel_slots_balance [OF c]
    by (simp add: r touch_ok_def touch_cancel_all_def c open_contacts_def)
qed

text \<open>A contact replaced within one slot, which the kernel reports as a new tracking id with no
  release between, is not ended: the new contact starts with a move and the old id is never
  released.\<close>

definition replaced_contact :: "raw_event list" where
  "replaced_contact = concat (map (\<lambda>i.
     [\<lparr>time_ns = 1, event_type = EV_ABS, event_code = ABS_MT_TRACKING_ID, event_value = i\<rparr>,
      \<lparr>time_ns = 1, event_type = EV_SYN, event_code = SYN_REPORT, event_value = 0\<rparr>]) [5, 7, - 1])"

lemma replaced_contact_is_not_released:
  "map (\<lambda>f. (touch_phase f, touch_device_id f))
     (fst (touch_run replaced_contact (touch_new 954 1696 demo_axis demo_axis 2)))
   = [(Touch_Down, 5), (Touch_Move, 7), (Touch_Up, 7)]"
  by code_simp

end
