(* ===== verification/Input_Queue.thy ===== *)
theory Input_Queue
  imports Display_Protocol "HOL-Library.Sublist"
begin

text \<open>
  The bounded queue of input packets between the display host and the writer thread of one client
  (\<open>native/remagic-display-host/src/qtfb/queue.rs\<close>). The mutex makes every operation atomic, so a
  run is a sequence of operations; a \<open>pop\<close> that finds the queue empty and open waits, which is the
  outcome \<open>Must_Wait\<close> here, and is tried again later.
\<close>

definition INPUT_QUEUE_CAPACITY :: nat where
  "INPUT_QUEUE_CAPACITY = 512"

record input_queue =
  packets :: "u8 list list"
  closed :: bool
  queue_capacity :: nat

datatype input_push = Queued | Coalesced | Closed | BoundaryOverflow

definition queue_new :: "nat \<Rightarrow> input_queue" where
  "queue_new capacity = \<lparr>packets = [], closed = False, queue_capacity = max capacity 1\<rparr>"

definition is_input_boundary :: "u8 list \<Rightarrow> bool" where
  "is_input_boundary packet =
     (if packet ! 0 \<noteq> MESSAGE_USERINPUT then False
      else i32_at packet 8 \<in> set [INPUT_PEN_PRESS, INPUT_PEN_RELEASE, INPUT_TOUCH_PRESS, INPUT_TOUCH_RELEASE])"

fun position :: "('a \<Rightarrow> bool) \<Rightarrow> 'a list \<Rightarrow> nat option" where
  "position p [] = None"
| "position p (x # xs) = (if p x then Some 0 else map_option Suc (position p xs))"

definition remove_at :: "nat \<Rightarrow> 'a list \<Rightarrow> 'a list" where
  "remove_at i xs = take i xs @ drop (Suc i) xs"

definition queue_push :: "u8 list \<Rightarrow> input_queue \<Rightarrow> input_push \<times> input_queue" where
  "queue_push packet q =
     (if closed q then (Closed, q)
      else if queue_capacity q \<le> length (packets q) then
        (case position (\<lambda>candidate. \<not> is_input_boundary candidate) (packets q) of
           Some index \<Rightarrow> (Coalesced, q\<lparr>packets := remove_at index (packets q) @ [packet]\<rparr>)
         | None \<Rightarrow> (BoundaryOverflow, q\<lparr>closed := True\<rparr>))
      else (Queued, q\<lparr>packets := packets q @ [packet]\<rparr>))"

datatype pop_outcome = Popped "u8 list" | End_Of_Input | Must_Wait

definition queue_pop :: "input_queue \<Rightarrow> pop_outcome \<times> input_queue" where
  "queue_pop q =
     (case packets q of
        packet # rest \<Rightarrow> (Popped packet, q\<lparr>packets := rest\<rparr>)
      | [] \<Rightarrow> if closed q then (End_Of_Input, q) else (Must_Wait, q))"

definition queue_close :: "input_queue \<Rightarrow> input_queue" where
  "queue_close q = q\<lparr>closed := True\<rparr>"

lemma position_None: "position p xs = None \<longleftrightarrow> (\<forall>x\<in>set xs. \<not> p x)"
  by (induction xs) auto

lemma position_Some:
  "position p xs = Some i \<Longrightarrow> \<exists>ys x zs. xs = ys @ x # zs \<and> i = length ys \<and> p x \<and> (\<forall>y\<in>set ys. \<not> p y)"
proof (induction xs arbitrary: i)
  case (Cons a xs)
  show ?case
  proof (cases "p a")
    case True
    then show ?thesis using Cons.prems by (intro exI [of _ "[]"]) auto
  next
    case False
    then obtain j where j: "position p xs = Some j" "i = Suc j" using Cons.prems by auto
    from Cons.IH [OF j(1)] obtain ys x zs where
      "xs = ys @ x # zs" "j = length ys" "p x" "\<forall>y\<in>set ys. \<not> p y" by blast
    then show ?thesis using False j(2) by (intro exI [of _ "a # ys"]) auto
  qed
qed simp

text \<open>The three ways a push ends, with the packet that it evicts.\<close>

lemma queue_push_cases:
  obtains (shut) "closed q" "queue_push packet q = (Closed, q)"
  | (room) "\<not> closed q" "length (packets q) < queue_capacity q"
      "queue_push packet q = (Queued, q\<lparr>packets := packets q @ [packet]\<rparr>)"
  | (evict) ys x zs where "\<not> closed q" "queue_capacity q \<le> length (packets q)" "packets q = ys @ x # zs"
      "\<not> is_input_boundary x"
      "queue_push packet q = (Coalesced, q\<lparr>packets := ys @ zs @ [packet]\<rparr>)"
  | (full) "\<not> closed q" "queue_capacity q \<le> length (packets q)" "list_all is_input_boundary (packets q)"
      "queue_push packet q = (BoundaryOverflow, q\<lparr>closed := True\<rparr>)"
proof (cases "closed q \<or> length (packets q) < queue_capacity q")
  case True
  then show thesis using that(1,2) by (auto simp: queue_push_def)
next
  case False
  show thesis
  proof (cases "position (\<lambda>candidate. \<not> is_input_boundary candidate) (packets q)")
    case None
    then have "list_all is_input_boundary (packets q)"
      by (simp add: position_None list_all_iff)
    moreover have "queue_push packet q = (BoundaryOverflow, q\<lparr>closed := True\<rparr>)"
      using None False by (simp add: queue_push_def)
    ultimately show thesis using False that(4) by simp
  next
    case (Some i)
    from position_Some [OF Some] obtain ys x zs where
      "packets q = ys @ x # zs" "i = length ys" "\<not> is_input_boundary x" by blast
    then show thesis using False Some that(3)
      by (auto simp: queue_push_def remove_at_def)
  qed
qed

section \<open>Runs\<close>

text \<open>The ghost lists \<open>offered\<close> and \<open>taken\<close> record the packets that were accepted and the packets
  that the writer got, in order.\<close>

datatype queue_op = Push "u8 list" | Pop | Close

record queue_run =
  queue :: input_queue
  offered :: "u8 list list"
  taken :: "u8 list list"

definition run_push :: "u8 list \<Rightarrow> queue_run \<Rightarrow> queue_run" where
  "run_push packet s =
     (case queue_push packet (queue s) of (outcome, q) \<Rightarrow>
        s\<lparr>queue := q,
          offered := offered s @ (if outcome = Queued \<or> outcome = Coalesced then [packet] else [])\<rparr>)"

definition run_pop :: "queue_run \<Rightarrow> queue_run" where
  "run_pop s =
     (case queue_pop (queue s) of (outcome, q) \<Rightarrow>
        s\<lparr>queue := q, taken := taken s @ (case outcome of Popped p \<Rightarrow> [p] | _ \<Rightarrow> [])\<rparr>)"

fun queue_step :: "queue_op \<Rightarrow> queue_run \<Rightarrow> queue_run" where
  "queue_step (Push packet) s = run_push packet s"
| "queue_step Pop s = run_pop s"
| "queue_step Close s = s\<lparr>queue := queue_close (queue s)\<rparr>"

definition queue_start :: "nat \<Rightarrow> queue_run" where
  "queue_start capacity = \<lparr>queue = queue_new capacity, offered = [], taken = []\<rparr>"

definition boundaries :: "u8 list list \<Rightarrow> u8 list list" where
  "boundaries ps = filter is_input_boundary ps"

lemma boundaries_append [simp]: "boundaries (xs @ ys) = boundaries xs @ boundaries ys"
  by (simp add: boundaries_def)

lemma boundaries_Cons [simp]:
  "boundaries (x # xs) = (if is_input_boundary x then x # boundaries xs else boundaries xs)"
  by (simp add: boundaries_def)

lemma boundaries_Nil [simp]: "boundaries [] = []"
  by (simp add: boundaries_def)

definition queue_inv :: "nat \<Rightarrow> queue_run \<Rightarrow> bool" where
  "queue_inv capacity s =
     (queue_capacity (queue s) = max capacity 1
      \<and> length (packets (queue s)) \<le> max capacity 1
      \<and> boundaries (taken s @ packets (queue s)) = boundaries (offered s)
      \<and> subseq (taken s @ packets (queue s)) (offered s))"

lemma run_push_inv: "queue_inv capacity s \<Longrightarrow> queue_inv capacity (run_push packet s)"
proof (cases rule: queue_push_cases [of "queue s" packet])
  case (evict ys x zs)
  assume inv: "queue_inv capacity s"
  have "subseq (taken s @ ys @ zs) (taken s @ ys @ x # zs)"
    by (intro list_emb_append_mono list_emb.intros(2) subseq_order.order_refl)
  then have "subseq (taken s @ ys @ zs) (offered s)"
    using inv evict(3) by (auto simp: queue_inv_def intro: subseq_order.trans)
  then have "subseq ((taken s @ ys @ zs) @ [packet]) (offered s @ [packet])"
    by (simp only: subseq_append)
  then show ?thesis
    using inv evict by (simp add: queue_inv_def run_push_def)
next
  case room
  assume inv: "queue_inv capacity s"
  have "subseq ((taken s @ packets (queue s)) @ [packet]) (offered s @ [packet])"
    using inv by (simp only: queue_inv_def subseq_append)
  then show ?thesis
    using inv room by (simp add: queue_inv_def run_push_def)
qed (simp_all add: queue_inv_def run_push_def)

lemma run_pop_inv: "queue_inv capacity s \<Longrightarrow> queue_inv capacity (run_pop s)"
  by (cases "packets (queue s)")
     (auto simp: queue_inv_def run_pop_def queue_pop_def split: list.splits)

lemma queue_step_inv: "queue_inv capacity s \<Longrightarrow> queue_inv capacity (queue_step a s)"
  by (cases a) (simp_all add: run_push_inv run_pop_inv, simp add: queue_inv_def queue_close_def)

lemma queue_start_inv: "queue_inv capacity (queue_start capacity)"
  by (simp add: queue_inv_def queue_start_def queue_new_def)

lemma queue_run_inv: "queue_inv capacity (fold queue_step ops (queue_start capacity))"
proof -
  have "queue_inv capacity s \<Longrightarrow> queue_inv capacity (fold queue_step ops s)" for s
    by (induction ops arbitrary: s) (simp_all add: queue_step_inv)
  then show ?thesis by (simp add: queue_start_inv)
qed

text \<open>C38: whatever the interleaving of pushes, pops and closes, the queue holds at most its capacity,
  the press and release packets that the client gets or is about to get are exactly those that
  were accepted, in their order, and nothing is duplicated or reordered: only moves are dropped.\<close>

theorem boundaries_are_never_lost:
  "let s = fold queue_step ops (queue_start capacity) in
    length (packets (queue s)) \<le> max capacity 1
    \<and> filter is_input_boundary (taken s @ packets (queue s)) = filter is_input_boundary (offered s)
    \<and> subseq (taken s @ packets (queue s)) (offered s)"
  using queue_run_inv [of capacity ops] unfolding Let_def queue_inv_def boundaries_def by blast

text \<open>A queue that refuses a boundary shuts the client down: overflow needs a full queue of nothing
  but boundaries, and after it nothing more is accepted.\<close>

lemma overflow_needs_a_full_queue:
  "queue_push packet q = (BoundaryOverflow, q') \<Longrightarrow>
     queue_capacity q \<le> length (boundaries (packets q)) \<and> closed q'"
  by (cases rule: queue_push_cases [of q packet])
     (auto simp: boundaries_def list_all_iff intro!: arg_cong [of _ _ length])

lemma closed_stays_closed: "closed (queue s) \<Longrightarrow> closed (queue (queue_step a s))"
  by (cases a) (auto simp: run_push_def queue_push_def run_pop_def queue_pop_def queue_close_def
      split: list.splits)

section \<open>The writer drains a closed queue\<close>

text \<open>The writer's loop \<open>while let Some(packet) = queue.pop()\<close> on a queue that nobody pushes to any
  more: each round pops one packet, and the loop ends because the queue gets shorter.\<close>

fun drain_queue :: "nat \<Rightarrow> input_queue \<Rightarrow> (u8 list list \<times> input_queue) option" where
  "drain_queue 0 q = None"
| "drain_queue (Suc fuel) q =
     (case queue_pop q of
        (Popped packet, q') \<Rightarrow> map_option (\<lambda>(ps, r). (packet # ps, r)) (drain_queue fuel q')
      | (End_Of_Input, q') \<Rightarrow> Some ([], q')
      | (Must_Wait, q') \<Rightarrow> drain_queue fuel q')"


end
