(* ===== verification/Panel_Types.thy ===== *)
theory Panel_Types
  imports Input_Decoder Input_Queue Rust_Text
begin

text \<open>
  What the two halves of the display host share: foreground leases, refresh intents, the commands
  on the panel channel and the telemetry the panel worker publishes
  (\<open>native/remagic-display-host/src/panel.rs\<close>), and the shared framebuffers of the clients
  (\<open>src/surface.rs\<close>). An \<open>Arc<SharedSurface>\<close> is an address into a list of surfaces, so that the
  host, the panel and the client that draws see the same cell. An \<open>io::Error\<close> is its kind and its
  message; \<open>Panicked\<close> is a panic of the thread.
\<close>

section \<open>Errors and the state monad\<close>

datatype error_kind =
    K_NotFound | K_PermissionDenied | K_AlreadyExists | K_WouldBlock | K_InvalidInput
  | K_InvalidData | K_BrokenPipe | K_TimedOut | K_Other

datatype io_error = Io_Error (io_kind: error_kind) (io_message: string) | Panicked

text \<open>A method that may fail and changes the state \<open>'s\<close>; \<open>sbind\<close> is the \<open>?\<close> operator.\<close>

type_synonym ('s, 'a) action = "'s \<Rightarrow> (io_error + 'a) \<times> 's"

definition ret :: "'a \<Rightarrow> ('s, 'a) action" where
  "ret x s = (Inr x, s)"

definition fail :: "error_kind \<Rightarrow> string \<Rightarrow> ('s, 'a) action" where
  "fail kind message s = (Inl (Io_Error kind message), s)"

definition panic :: "('s, 'a) action" where
  "panic s = (Inl Panicked, s)"

definition change :: "('s \<Rightarrow> 's) \<Rightarrow> ('s, unit) action" where
  "change f s = (Inr (), f s)"

definition reading :: "('s \<Rightarrow> ('s, 'a) action) \<Rightarrow> ('s, 'a) action" where
  "reading f s = f s s"

definition sbind :: "('s, 'a) action \<Rightarrow> ('a \<Rightarrow> ('s, 'b) action) \<Rightarrow> ('s, 'b) action" where
  "sbind m k s = (case m s of (Inl e, t) \<Rightarrow> (Inl e, t) | (Inr x, t) \<Rightarrow> k x t)"

definition seq :: "('s, 'a) action \<Rightarrow> ('s, 'b) action \<Rightarrow> ('s, 'b) action" where
  "seq m k = sbind m (\<lambda>_. k)"

lemmas action_defs = ret_def fail_def panic_def change_def reading_def sbind_def seq_def

text \<open>\<open>kept P m\<close>: the action keeps \<open>P\<close>, whether it succeeds or fails.\<close>

definition kept :: "('s \<Rightarrow> bool) \<Rightarrow> ('s, 'a) action \<Rightarrow> bool" where
  "kept P m = (\<forall>s. P s \<longrightarrow> P (snd (m s)))"

lemma keptD: "kept P m \<Longrightarrow> P s \<Longrightarrow> P (snd (m s))"
  by (simp add: kept_def)

lemma kept_ret [keeps]: "kept P (ret x)"
  by (simp add: kept_def ret_def)

lemma kept_fail [keeps]: "kept P (fail k t)"
  by (simp add: kept_def fail_def)

lemma kept_panic [keeps]: "kept P panic"
  by (simp add: kept_def panic_def)

lemma kept_change [keeps]: "(\<And>s. P s \<Longrightarrow> P (f s)) \<Longrightarrow> kept P (change f)"
  by (simp add: kept_def change_def)

lemma kept_reading: "(\<And>s. kept P (f s)) \<Longrightarrow> kept P (reading f)"
  by (simp add: kept_def reading_def)

lemma kept_sbind [keeps]: "kept P m \<Longrightarrow> (\<And>x. kept P (k x)) \<Longrightarrow> kept P (sbind m k)"
  by (fastforce simp: kept_def sbind_def split: prod.splits sum.splits dest: spec)

lemma kept_seq [keeps]: "kept P m \<Longrightarrow> kept P k \<Longrightarrow> kept P (seq m k)"
  by (simp add: seq_def kept_sbind)

lemma kept_if [keeps]: "(b \<Longrightarrow> kept P m) \<Longrightarrow> (\<not> b \<Longrightarrow> kept P k) \<Longrightarrow> kept P (if b then m else k)"
  by simp

lemma kept_option [keeps]:
  "(v = None \<Longrightarrow> kept P m) \<Longrightarrow> (\<And>x. v = Some x \<Longrightarrow> kept P (k x)) \<Longrightarrow>
     kept P (case v of None \<Rightarrow> m | Some x \<Rightarrow> k x)"
  by (cases v) simp_all

section \<open>Shared surfaces\<close>

record shared_surface =
  surf_key :: i32
  surf_width :: i32
  surf_height :: i32
  surf_stride :: nat
  surf_format :: pixel_format
  surf_shm_key :: i32
  surf_len :: nat
  surf_bytes :: "u8 list"
  surf_refresh_mode :: i32
  surf_commits :: u64

text \<open>\<open>SharedSurface::create\<close> up to the system calls; \<open>opened\<close> is their outcome. The two checked
  multiplications never overflow: both factors are at most 8192, the product below \<open>2 ^ 28\<close>.\<close>

definition surface_create ::
    "i32 \<Rightarrow> i32 \<Rightarrow> i32 \<Rightarrow> pixel_format \<Rightarrow> i32 \<Rightarrow> io_error + unit \<Rightarrow> io_error + shared_surface" where
  "surface_create key width height format shm_key opened =
     (if sint width \<le> 0 \<or> sint height \<le> 0 \<or> 8192 < sint width \<or> 8192 < sint height
      then Inl (Io_Error K_InvalidInput ''invalid surface dimensions'')
      else
        let stride = nat (sint width) * bytes_per_pixel format;
            len = stride * nat (sint height)
        in res_bind opened (\<lambda>_. Inr
             \<lparr>surf_key = key, surf_width = width, surf_height = height, surf_stride = stride,
              surf_format = format, surf_shm_key = shm_key, surf_len = len,
              surf_bytes = replicate len 0xff, surf_refresh_mode = REFRESH_MODE_UI,
              surf_commits = 0\<rparr>))"

definition surface_mark_commit :: "shared_surface \<Rightarrow> u64 \<times> shared_surface" where
  "surface_mark_commit s = (surf_commits s + 1, s\<lparr>surf_commits := surf_commits s + 1\<rparr>)"

definition surface_full_rect :: "shared_surface \<Rightarrow> rect" where
  "surface_full_rect s = rect_new 0 0 (surf_width s) (surf_height s)"

text \<open>What \<open>create\<close> establishes and nobody changes: the mapping is as large as the image.\<close>

definition surface_ok :: "shared_surface \<Rightarrow> bool" where
  "surface_ok s =
     (0 < sint (surf_width s) \<and> sint (surf_width s) \<le> 8192
      \<and> 0 < sint (surf_height s) \<and> sint (surf_height s) \<le> 8192
      \<and> surf_stride s = nat (sint (surf_width s)) * bytes_per_pixel (surf_format s)
      \<and> length (surf_bytes s) = surf_stride s * nat (sint (surf_height s))
      \<and> surf_len s = length (surf_bytes s))"

lemma surface_create_ok: "surface_create k w h f n opened = Inr s \<Longrightarrow> surface_ok s"
  by (auto simp: surface_create_def surface_ok_def Let_def split: if_splits)

lemma surface_size_fits:
  assumes "surface_ok s"
  shows "surf_len s \<le> 2 ^ 28"
proof -
  have b: "bytes_per_pixel (surf_format s) \<le> 4" by (cases "surf_format s") simp_all
  have w: "nat (sint (surf_width s)) \<le> 8192" and h: "nat (sint (surf_height s)) \<le> 8192"
    using assms by (simp_all add: surface_ok_def nat_le_iff)
  have "surf_len s \<le> 8192 * 4 * 8192"
    using assms mult_mono [OF mult_mono [OF w b] h] by (simp add: surface_ok_def)
  then show ?thesis by simp
qed

section \<open>Leases, intents and commands\<close>

record panel_lease =
  lease_key :: i32
  lease_generation :: u64
  lease_epoch :: u64

datatype refresh_intent = Ink | MonoQuality | Ui | Content | Full

fun intent_rank :: "refresh_intent \<Rightarrow> nat" where
  "intent_rank Ink = 0"
| "intent_rank MonoQuality = 1"
| "intent_rank Ui = 2"
| "intent_rank Content = 3"
| "intent_rank Full = 4"

definition stronger_intent :: "refresh_intent \<Rightarrow> refresh_intent \<Rightarrow> refresh_intent" where
  "stronger_intent left right = (if intent_rank left < intent_rank right then right else left)"

datatype submission_reason =
    ForegroundSwitch | SurfaceDamage | FullRefresh_Reason | LockScreen | LockRefresh
  | UnlockScreen | LiveInk | CanonicalSettle

record submission_record =
  sub_sequence :: u64
  sub_surface_sequence :: u64
  sub_lease :: panel_lease
  sub_intent :: refresh_intent
  sub_reason :: submission_reason
  sub_signature :: u64
  sub_marker :: "u64 option"
  sub_success :: bool

record deferred_damage =
  damage_rect :: rect
  damage_intent :: refresh_intent

datatype panel_command =
    RegisterSurface nat
  | DropSurface i32
  | Damage panel_lease rect refresh_intent
  | SetForeground panel_lease bool
  | ActivateForeground panel_lease bool bool
  | ClearForeground panel_lease
  | ConfigureInk panel_lease bool "rect option"
  | Pen_Input panel_lease pen_frame
  | FullRefresh panel_lease
  | ShowLock panel_lease u64
  | RefreshLock panel_lease u64
  | CancelLock panel_lease u64 u64
  | Shutdown

section \<open>Telemetry\<close>

definition SUBMISSION_HISTORY_CAPACITY :: nat where
  "SUBMISSION_HISTORY_CAPACITY = 64"

record telemetry =
  submission_count :: u64
  last_marker :: u64
  failure_count :: u64
  visible_signature :: u64
  full_refresh_count :: u64
  queue_depth :: u64
  last_presented :: "(i32 \<times> u64) option"
  committed_foreground :: "panel_lease option"
  committed_ink :: "(panel_lease \<times> bool) option"
  committed_lock_epoch :: u64
  cancelled_lock_epoch :: u64
  next_submission_sequence :: u64
  recent_submissions :: "submission_record list"
  deferred :: "panel_lease \<Rightarrow> deferred_damage option"

definition telemetry_default :: telemetry where
  "telemetry_default =
     \<lparr>submission_count = 0, last_marker = 0, failure_count = 0, visible_signature = 0,
      full_refresh_count = 0, queue_depth = 0, last_presented = None,
      committed_foreground = None, committed_ink = None, committed_lock_epoch = 0,
      cancelled_lock_epoch = 0, next_submission_sequence = 0, recent_submissions = [],
      deferred = Map.empty\<rparr>"

definition mark_failure :: "telemetry \<Rightarrow> telemetry" where
  "mark_failure t = t\<lparr>failure_count := failure_count t + 1\<rparr>"

definition command_enqueued :: "telemetry \<Rightarrow> telemetry" where
  "command_enqueued t = t\<lparr>queue_depth := queue_depth t + 1\<rparr>"

definition command_dequeued :: "telemetry \<Rightarrow> telemetry" where
  "command_dequeued t = (if queue_depth t = 0 then t else t\<lparr>queue_depth := queue_depth t - 1\<rparr>)"

definition defer_damage :: "panel_lease \<Rightarrow> rect \<Rightarrow> refresh_intent \<Rightarrow> telemetry \<Rightarrow> telemetry" where
  "defer_damage lease rect intent t =
     t\<lparr>deferred := (deferred t)(lease \<mapsto>
        (case deferred t lease of
           Some d \<Rightarrow> \<lparr>damage_rect = rect_union (damage_rect d) rect,
                      damage_intent = stronger_intent (damage_intent d) intent\<rparr>
         | None \<Rightarrow> \<lparr>damage_rect = rect, damage_intent = intent\<rparr>))\<rparr>"

definition discard_deferred_damage :: "panel_lease \<Rightarrow> telemetry \<Rightarrow> telemetry" where
  "discard_deferred_damage lease t = t\<lparr>deferred := (deferred t)(lease := None)\<rparr>"

definition take_deferred_damage :: "panel_lease \<Rightarrow> telemetry \<Rightarrow> deferred_damage option \<times> telemetry" where
  "take_deferred_damage lease t = (deferred t lease, discard_deferred_damage lease t)"

definition discard_deferred_damage_for_key :: "i32 \<Rightarrow> telemetry \<Rightarrow> telemetry" where
  "discard_deferred_damage_for_key key t =
     t\<lparr>deferred := (\<lambda>lease. if lease_key lease \<noteq> key then deferred t lease else None)\<rparr>"

definition mark_presented :: "i32 \<Rightarrow> u64 \<Rightarrow> telemetry \<Rightarrow> telemetry" where
  "mark_presented key sequence t = t\<lparr>last_presented := Some (key, sequence)\<rparr>"

definition commit_foreground :: "panel_lease \<Rightarrow> telemetry \<Rightarrow> telemetry" where
  "commit_foreground lease t = t\<lparr>committed_foreground := Some lease\<rparr>"

definition commit_ink :: "panel_lease \<Rightarrow> bool \<Rightarrow> telemetry \<Rightarrow> telemetry" where
  "commit_ink lease enabled t = t\<lparr>committed_ink := Some (lease, enabled)\<rparr>"

definition clear_committed_foreground :: "panel_lease \<Rightarrow> telemetry \<Rightarrow> telemetry" where
  "clear_committed_foreground lease t =
     (let t1 = (if committed_foreground t = Some lease then t\<lparr>committed_foreground := None\<rparr> else t)
      in case committed_ink t1 of
           Some (ink_lease, _) \<Rightarrow> if ink_lease = lease then t1\<lparr>committed_ink := None\<rparr> else t1
         | None \<Rightarrow> t1)"

definition commit_lock :: "u64 \<Rightarrow> telemetry \<Rightarrow> telemetry" where
  "commit_lock sleep_epoch t = t\<lparr>committed_lock_epoch := sleep_epoch\<rparr>"

definition clear_committed_lock :: "u64 \<Rightarrow> telemetry \<Rightarrow> telemetry" where
  "clear_committed_lock sleep_epoch t =
     (if committed_lock_epoch t = sleep_epoch then t\<lparr>committed_lock_epoch := 0\<rparr> else t)"

definition record_lock_cancelled :: "u64 \<Rightarrow> telemetry \<Rightarrow> telemetry" where
  "record_lock_cancelled sleep_epoch t = t\<lparr>cancelled_lock_epoch := sleep_epoch\<rparr>"

definition mark_full_refresh :: "telemetry \<Rightarrow> telemetry" where
  "mark_full_refresh t = t\<lparr>full_refresh_count := full_refresh_count t + 1\<rparr>"

definition push_submission :: "submission_record \<Rightarrow> telemetry \<Rightarrow> telemetry" where
  "push_submission record t =
     (let sequence = max (next_submission_sequence t + 1) 1;
          history = recent_submissions t;
          history = (if length history = SUBMISSION_HISTORY_CAPACITY then tl history else history)
      in t\<lparr>next_submission_sequence := next_submission_sequence t + 1,
           recent_submissions := history @ [record\<lparr>sub_sequence := sequence\<rparr>]\<rparr>)"

text \<open>The history is a ring of at most \<^term>\<open>SUBMISSION_HISTORY_CAPACITY\<close> records.\<close>

lemma push_submission_bounded:
  "length (recent_submissions t) \<le> SUBMISSION_HISTORY_CAPACITY \<Longrightarrow>
     length (recent_submissions (push_submission r t)) \<le> SUBMISSION_HISTORY_CAPACITY"
  by (auto simp: push_submission_def Let_def SUBMISSION_HISTORY_CAPACITY_def)

text \<open>Deferred damage that leaves the range of an \<open>i32\<close> overflows in \<open>Rect::union\<close> and is lost: a
  rectangle far left of the canvas swallows a visible one.\<close>

lemma union_overflow_loses_damage:
  "rect_is_empty (rect_union (rect_new (- 2147483648) 0 10 10) (rect_new 0 0 100 100))"
  by code_simp

end
