(* ===== verification/Panel_Render.thy ===== *)
theory Panel_Render
  imports Panel_Types
begin

unbundle bit_operations_syntax

text \<open>
  The panel's framebuffer: the backends (\<open>panel/backend.rs\<close>), copying a client surface into it and
  the live ink of the pen (\<open>panel/render.rs\<close>). \<^term>\<open>None\<close> is an index out of bounds, a panic;
  coordinates of the brush are integers, the panel being far smaller than an \<open>i32\<close>.
\<close>

section \<open>Backends\<close>

datatype waveform = Mono_Fast | Mono_Quality | Color | Color_Full

fun quill_waveform :: "refresh_intent \<Rightarrow> waveform" where
  "quill_waveform Ink = Mono_Fast"
| "quill_waveform MonoQuality = Mono_Quality"
| "quill_waveform Ui = Mono_Quality"
| "quill_waveform Content = Color"
| "quill_waveform Full = Color_Full"

text \<open>The vendor library is a parameter: \<open>b_answers n\<close> is the marker it returns for the \<open>n\<close>-th
  submission, zero when it rejects it. \<open>b_log\<close> is what was submitted.\<close>

record backend =
  b_width :: i32
  b_height :: i32
  b_stride :: nat
  b_pixels :: "u8 list"
  b_answers :: "nat \<Rightarrow> u64"
  b_log :: "(rect \<times> waveform) list"

definition valid_marker :: "u64 \<Rightarrow> io_error + u64" where
  "valid_marker marker =
     (if marker = 0 then Inl (Io_Error K_Other ''quill rejected the panel submission'') else Inr marker)"

definition backend_submit :: "rect \<Rightarrow> refresh_intent \<Rightarrow> backend \<Rightarrow> (io_error + u64) \<times> backend" where
  "backend_submit rect intent b =
     (valid_marker (b_answers b (length (b_log b))),
      b\<lparr>b_log := b_log b @ [(rect, quill_waveform intent)]\<rparr>)"

text \<open>\<open>QuillBackend::open\<close> rejects a framebuffer whose rows are too short; \<open>MemoryBackend::new\<close>
  numbers its submissions from one, wrapping past zero.\<close>

definition quill_open :: "i32 \<Rightarrow> i32 \<Rightarrow> i32 \<Rightarrow> u8 list option \<Rightarrow> (nat \<Rightarrow> u64) \<Rightarrow> io_error + backend" where
  "quill_open width height stride buffer answers =
     (case buffer of
        None \<Rightarrow> Inl (Io_Error K_Other ''quill returned an invalid framebuffer'')
      | Some memory \<Rightarrow>
          if sint width \<le> 0 \<or> sint height \<le> 0 \<or> sint stride < sint (width * 4)
          then Inl (Io_Error K_Other ''quill returned an invalid framebuffer'')
          else Inr \<lparr>b_width = width, b_height = height, b_stride = nat (sint stride),
                    b_pixels = take (nat (sint stride) * nat (sint height)) memory,
                    b_answers = answers, b_log = []\<rparr>)"

fun memory_marker :: "nat \<Rightarrow> u64" where
  "memory_marker 0 = 1"
| "memory_marker (Suc n) = max (memory_marker n + 1) 1"

definition memory_backend :: "i32 \<Rightarrow> i32 \<Rightarrow> io_error + backend" where
  "memory_backend width height =
     (if sint width \<le> 0 \<or> sint height \<le> 0
      then Inl (Io_Error K_InvalidInput ''invalid mock geometry'')
      else
        let stride = nat (sint width) * 4
        in Inr \<lparr>b_width = width, b_height = height, b_stride = stride,
                b_pixels = replicate (stride * nat (sint height)) 0xff,
                b_answers = memory_marker, b_log = []\<rparr>)"

definition backend_ok :: "backend \<Rightarrow> bool" where
  "backend_ok b =
     (0 < sint (b_width b) \<and> 0 < sint (b_height b)
      \<and> nat (sint (b_width b)) * 4 \<le> b_stride b
      \<and> length (b_pixels b) = b_stride b * nat (sint (b_height b)))"

lemma memory_backend_ok: "memory_backend w h = Inr b \<Longrightarrow> backend_ok b"
  by (auto simp: memory_backend_def backend_ok_def Let_def split: if_splits)

lemma backend_submit_ok [simp]:
  "backend_ok (snd (backend_submit rect intent b)) = backend_ok b"
  "b_pixels (snd (backend_submit rect intent b)) = b_pixels b"
  "b_width (snd (backend_submit rect intent b)) = b_width b"
  "b_height (snd (backend_submit rect intent b)) = b_height b"
  "b_stride (snd (backend_submit rect intent b)) = b_stride b"
  by (simp_all add: backend_submit_def backend_ok_def)

section \<open>Copying a surface\<close>

definition u16_le :: "u8 \<Rightarrow> u8 \<Rightarrow> u16" where
  "u16_le lo hi = word_of_int (le_value [lo, hi])"

definition widen5 :: "u16 \<Rightarrow> u8" where
  "widen5 v = ucast ((ucast (v AND 0x1f) :: u32) * 255 div 31)"

definition widen6 :: "u16 \<Rightarrow> u8" where
  "widen6 v = ucast ((ucast (v AND 0x3f) :: u32) * 255 div 63)"

text \<open>The bytes blue, green, red and alpha of a source pixel.\<close>

definition decode_pixel :: "pixel_format \<Rightarrow> u8 list \<Rightarrow> nat \<Rightarrow> u8 list option" where
  "decode_pixel format source index =
     (if length source < index + bytes_per_pixel format then None
      else Some (case format of
          Rgb565 \<Rightarrow>
            (let v = u16_le (source ! index) (source ! (index + 1))
             in [widen5 v, widen6 (drop_bit 5 v), widen5 (drop_bit 11 v), 0xff])
        | Rgb888 \<Rightarrow> [source ! (index + 2), source ! (index + 1), source ! index, 0xff]
        | Rgba8888 \<Rightarrow>
            [source ! (index + 2), source ! (index + 1), source ! index, source ! (index + 3)]))"

fun fold_opt :: "('a \<Rightarrow> 's \<Rightarrow> 's option) \<Rightarrow> 'a list \<Rightarrow> 's \<Rightarrow> 's option" where
  "fold_opt f [] s = Some s"
| "fold_opt f (x # xs) s = (case f x s of None \<Rightarrow> None | Some t \<Rightarrow> fold_opt f xs t)"

text \<open>The range \<open>a..b\<close> of an \<open>i32\<close> loop.\<close>

definition i32_range :: "i32 \<Rightarrow> i32 \<Rightarrow> i32 list" where
  "i32_range a b = map word_of_int [sint a .. sint b - 1]"

definition copy_source :: "shared_surface \<Rightarrow> geometry \<Rightarrow> i32 \<times> i32 \<Rightarrow> u8 list option" where
  "copy_source s g = (\<lambda>(px, py).
     case physical_to_logical_point g px py of
       None \<Rightarrow> None
     | Some (sx, sy) \<Rightarrow>
         decode_pixel (surf_format s) (surf_bytes s)
           (nat (sint sy) * surf_stride s + nat (sint sx) * bytes_per_pixel (surf_format s)))"

definition pixel_offset :: "nat \<Rightarrow> i32 \<times> i32 \<Rightarrow> nat" where
  "pixel_offset stride = (\<lambda>(px, py). nat (sint py) * stride + nat (sint px) * 4)"

definition copy_pixel :: "shared_surface \<Rightarrow> nat \<Rightarrow> geometry \<Rightarrow> i32 \<times> i32 \<Rightarrow> u8 list \<Rightarrow> u8 list option" where
  "copy_pixel s stride g p destination =
     (case copy_source s g p of
        None \<Rightarrow> None
      | Some bgra \<Rightarrow>
          let dst = pixel_offset stride p
          in Some (if dst + 3 < length destination then put_slice dst bgra destination
                   else destination))"

definition rect_points :: "rect \<Rightarrow> (i32 \<times> i32) list" where
  "rect_points r =
     concat (map (\<lambda>py. map (\<lambda>px. (px, py)) (i32_range (rx r) (rect_right r)))
       (i32_range (ry r) (rect_bottom r)))"

definition copy_surface_rect ::
    "shared_surface \<Rightarrow> u8 list \<Rightarrow> nat \<Rightarrow> geometry \<Rightarrow> rect \<Rightarrow> u8 list option" where
  "copy_surface_rect s destination stride g r =
     fold_opt (copy_pixel s stride g) (rect_points r) destination"

lemma decode_pixel_length: "decode_pixel f src i = Some p \<Longrightarrow> length p = 4"
  by (cases f) (auto simp: decode_pixel_def Let_def split: if_splits)

lemma decode_pixel_total: "i + bytes_per_pixel f \<le> length src \<Longrightarrow> \<exists>p. decode_pixel f src i = Some p"
  by (simp add: decode_pixel_def)

definition point_in :: "i32 \<Rightarrow> i32 \<Rightarrow> i32 \<times> i32 \<Rightarrow> bool" where
  "point_in w h p = ((sint (fst p), sint (snd p)) \<in> canvas w h)"

lemma row_offset_bound:
  fixes x y w h k stride n :: nat
  assumes "x < w" "y < h" "w * k \<le> stride" "n = stride * h"
  shows "y * stride + x * k + k \<le> n"
proof -
  have "x * k + k \<le> w * k" using assms(1) mult_le_mono1 [of "Suc x" w k] by simp
  moreover have "y * stride + stride \<le> h * stride" using assms(2) mult_le_mono1 [of "Suc y" h stride] by simp
  ultimately show ?thesis using assms(3,4) by (simp add: mult.commute)
qed

text \<open>A source pixel is always read inside the mapping.\<close>

lemma copy_source_total:
  assumes s: "surface_ok s" and g: "geometry_new (surf_width s) (surf_height s) pw ph = Some g"
  shows "\<exists>bgra. copy_source s g p = Some bgra \<and> length bgra = 4"
proof -
  obtain px py where p: "p = (px, py)" by (cases p)
  have lg: "logical_width g = surf_width s" "logical_height g = surf_height s"
    using g unfolding geometry_new_iff by auto
  have pos: "0 < sint (surf_width s)" "0 < sint (surf_height s)" using s by (auto simp: surface_ok_def)
  obtain sx where sx: "scale_point px (physical_width g) (surf_width s) = Some sx"
      "0 \<le> sint sx" "sint sx < sint (surf_width s)"
    using scale_point_total [OF pos(1)] by blast
  obtain sy where sy: "scale_point py (physical_height g) (surf_height s) = Some sy"
      "0 \<le> sint sy" "sint sy < sint (surf_height s)"
    using scale_point_total [OF pos(2)] by blast
  have pt: "physical_to_logical_point g px py = Some (sx, sy)"
    using sx sy by (simp add: physical_to_logical_point_def both_def lg)
  have "nat (sint sy) * surf_stride s + nat (sint sx) * bytes_per_pixel (surf_format s)
      + bytes_per_pixel (surf_format s) \<le> length (surf_bytes s)"
    by (rule row_offset_bound [of _ "nat (sint (surf_width s))" _ "nat (sint (surf_height s))"])
       (use s sx sy in \<open>auto simp: surface_ok_def\<close>)
  then show ?thesis
    using decode_pixel_total decode_pixel_length by (fastforce simp: copy_source_def p pt)
qed

text \<open>Distinct pixels of the framebuffer occupy disjoint bytes.\<close>

lemma pixel_disjoint:
  assumes "point_in w h p" "point_in w h q" "p \<noteq> q" "nat (sint w) * 4 \<le> stride"
  shows "pixel_offset stride p + 4 \<le> pixel_offset stride q \<or> pixel_offset stride q + 4 \<le> pixel_offset stride p"
proof -
  obtain px py qx qy where pq: "p = (px, py)" "q = (qx, qy)" by (cases p; cases q)
  define a b c d where "a = nat (sint px)" and "b = nat (sint py)" and "c = nat (sint qx)" and "d = nat (sint qy)"
  have inb: "a < nat (sint w)" "c < nat (sint w)" "0 \<le> sint px" "0 \<le> sint py" "0 \<le> sint qx" "0 \<le> sint qy"
    using assms(1,2) by (auto simp: point_in_def canvas_def pq a_def c_def)
  have ne: "a \<noteq> c \<or> b \<noteq> d"
    using assms(3) inb by (auto simp: pq a_def b_def c_def d_def sint_eq_iff)
  have ax: "a * 4 + 4 \<le> stride" "c * 4 + 4 \<le> stride" using inb(1,2) assms(4) by linarith+
  have row: "b' * stride + stride \<le> d' * stride" if "b' < d'" for b' d'
    using that mult_le_mono1 [of "Suc b'" d' stride] by simp
  show ?thesis
    using ne ax row [of b d] row [of d b]
    by (cases "b = d") (auto simp: pixel_offset_def pq a_def b_def c_def d_def not_less nat_neq_iff)
qed

definition pixel_at :: "nat \<Rightarrow> u8 list \<Rightarrow> i32 \<times> i32 \<Rightarrow> u8 list" where
  "pixel_at stride bytes p = slice (pixel_offset stride p) (pixel_offset stride p + 4) bytes"

lemma pixel_offset_in:
  assumes "point_in w h p" "nat (sint w) * 4 \<le> stride" "n = stride * nat (sint h)"
  shows "pixel_offset stride p + 4 \<le> n"
proof -
  obtain px py where p: "p = (px, py)" by (cases p)
  show ?thesis
    unfolding p pixel_offset_def
    using row_offset_bound [of "nat (sint px)" "nat (sint w)" "nat (sint py)" "nat (sint h)" 4 stride n] assms
    by (auto simp: point_in_def canvas_def p)
qed

lemma fold_copy_pixels:
  assumes s: "surface_ok s" and g: "geometry_new (surf_width s) (surf_height s) w h = Some g"
    and str: "nat (sint w) * 4 \<le> stride"
  shows "length destination = stride * nat (sint h) \<Longrightarrow> \<forall>p\<in>set ps. point_in w h p \<Longrightarrow>
    \<exists>result. fold_opt (copy_pixel s stride g) ps destination = Some result
      \<and> length result = length destination
      \<and> (\<forall>q. point_in w h q \<longrightarrow> pixel_at stride result q =
           (if q \<in> set ps then the (copy_source s g q) else pixel_at stride destination q))"
proof (induction ps arbitrary: destination)
  case (Cons p ps)
  obtain bgra where b: "copy_source s g p = Some bgra" "length bgra = 4"
    using copy_source_total [OF s g] by blast
  have p: "point_in w h p" and ps: "\<forall>p\<in>set ps. point_in w h p" using Cons.prems by auto
  have off: "pixel_offset stride p + 4 \<le> length destination"
    using pixel_offset_in [OF p str] Cons.prems(1) by simp
  define d where "d = put_slice (pixel_offset stride p) bgra destination"
  have step: "copy_pixel s stride g p destination = Some d"
    using b off by (simp add: copy_pixel_def d_def Let_def)
  have len: "length d = length destination" using b off by (simp add: d_def)
  obtain result where r: "fold_opt (copy_pixel s stride g) ps d = Some result" "length result = length d"
    and px: "\<And>q. point_in w h q \<Longrightarrow> pixel_at stride result q =
       (if q \<in> set ps then the (copy_source s g q) else pixel_at stride d q)"
    using Cons.IH [of d] Cons.prems(1) len ps by auto
  have one: "pixel_at stride d q = (if q = p then bgra else pixel_at stride destination q)"
    if "point_in w h q" for q
    using that b off pixel_disjoint [OF p that _ str]
    by (auto simp: pixel_at_def d_def slice_put_same slice_put_other)
  show ?case using r px one step len b by auto
qed simp

lemma i32_range_set: "p \<in> set (i32_range a b) \<longleftrightarrow> sint a \<le> sint p \<and> sint p < sint b"
proof
  assume "p \<in> set (i32_range a b)"
  then obtain n where n: "p = word_of_int n" "sint a \<le> n" "n \<le> sint b - 1" by (auto simp: i32_range_def)
  moreover have "sint p = n"
    unfolding n(1) by (rule sint_of_int_i32) (use n sint_i32_bounds [of a] sint_i32_bounds [of b] in linarith)+
  ultimately show "sint a \<le> sint p \<and> sint p < sint b" by simp
next
  assume "sint a \<le> sint p \<and> sint p < sint b"
  then show "p \<in> set (i32_range a b)"
    by (auto simp: i32_range_def intro!: image_eqI [of _ _ "sint p"])
qed

lemma rect_points_set:
  assumes "rect_is_empty r \<or> rect_inside r w h"
  shows "p \<in> set (rect_points r) \<longleftrightarrow> (sint (fst p), sint (snd p)) \<in> pixels r"
proof (cases "rect_is_empty r")
  case True
  have "sint (rect_right r) \<le> sint (rx r) \<or> sint (rect_bottom r) \<le> sint (ry r)"
    using True sint_i32_bounds(1) [of "rx r"] sint_i32_bounds(1) [of "ry r"]
    by (auto simp: rect_is_empty_def rect_right_def rect_bottom_def sint_sat_ops)
  then have "rect_points r = []"
    by (auto simp: rect_points_def i32_range_def concat_eq_Nil_conv)
  then show ?thesis using True by (simp add: empty_pixels)
next
  case False
  then have inside: "rect_inside r w h" using assms by simp
  have "sint (rect_right r) = sint (rx r) + sint (rwidth r)"
    "sint (rect_bottom r) = sint (ry r) + sint (rheight r)"
    using inside sint_i32_bounds(2) [of w] sint_i32_bounds(2) [of h]
    by (auto simp: rect_right_def rect_bottom_def sint_sat_ops rect_inside_def i32_min_def)
  moreover have "p \<in> set (rect_points r) \<longleftrightarrow>
      fst p \<in> set (i32_range (rx r) (rect_right r)) \<and> snd p \<in> set (i32_range (ry r) (rect_bottom r))"
    by (cases p) (auto simp: rect_points_def)
  ultimately show ?thesis
    by (simp add: i32_range_set pixels_def span_def)
qed

lemma copy_rect_pixels:
  assumes s: "surface_ok s" and g: "geometry_new (surf_width s) (surf_height s) w h = Some g"
    and q: "logical_to_physical_rect g r = Some q"
    and str: "nat (sint w) * 4 \<le> stride" and len: "length destination = stride * nat (sint h)"
  shows "\<exists>result. copy_surface_rect s destination stride g q = Some result
      \<and> length result = length destination
      \<and> (\<forall>p. point_in w h p \<longrightarrow> pixel_at stride result p =
           (if (sint (fst p), sint (snd p)) \<in> pixels q then the (copy_source s g p)
            else pixel_at stride destination p))"
proof -
  have gok: "geometry_ok g" and dims: "physical_width g = w" "physical_height g = h"
    using g unfolding geometry_new_iff by auto
  have e: "rect_is_empty q \<or> rect_inside q w h"
    using logical_to_physical_inside [OF gok q] by (simp add: dims)
  have "\<forall>p\<in>set (rect_points q). point_in w h p"
  proof
    fix p assume "p \<in> set (rect_points q)"
    then have px: "(sint (fst p), sint (snd p)) \<in> pixels q" using rect_points_set [OF e] by simp
    then have "\<not> rect_is_empty q" by (auto simp: empty_pixels)
    then show "point_in w h p"
      using e px by (auto simp: point_in_def canvas_def pixels_def span_def rect_inside_def)
  qed
  from fold_copy_pixels [OF s g str len this] show ?thesis
    by (simp add: copy_surface_rect_def rect_points_set [OF e])
qed


definition demo_surface :: shared_surface where
  "demo_surface =
     (case surface_create 7 2 2 Rgb565 1 (Inr ()) of Inr s \<Rightarrow> s\<lparr>surf_bytes := replicate 8 0x1f\<rparr>)"

lemma demo_surface_ok: "surface_ok demo_surface"
  by code_simp


section \<open>The visible signature\<close>

fun step_by :: "nat \<Rightarrow> 'a list \<Rightarrow> 'a list" where
  "step_by n [] = []"
| "step_by n (x # xs) = x # step_by n (drop (n - 1) xs)"

definition fnv_offset :: u64 where
  "fnv_offset = 0xcbf29ce484222325"

definition fnv_step :: "u64 \<Rightarrow> u8 \<Rightarrow> u64" where
  "fnv_step hash byte = (hash XOR ucast byte) * 0x100000001b3"

text \<open>\<open>pixels.get(start..end).unwrap_or_default()\<close>.\<close>

definition get_range :: "nat \<Rightarrow> nat \<Rightarrow> 'a list \<Rightarrow> 'a list" where
  "get_range from until xs = (if until < from \<or> length xs < until then [] else slice from until xs)"

definition sampled_signature :: "u8 list \<Rightarrow> nat \<Rightarrow> rect \<Rightarrow> u64" where
  "sampled_signature bytes stride r =
     (let y_end = i32_max_of (rect_bottom r) (ry r);
          rows = step_by 16 (i32_range (i32_max_of (ry r) 0) y_end);
          row_hash = (\<lambda>y hash.
            let start = nat (sint y) * stride + nat (sint (i32_max_of (rx r) 0)) * 4;
                until = min (start + nat (sint (i32_max_of (rwidth r) 0)) * 4) (length bytes)
            in fold (\<lambda>b h. fnv_step h b) (step_by 32 (get_range start until bytes)) hash)
      in fold row_hash rows fnv_offset
           XOR push_bit 32 (scast (rwidth r)) XOR scast (rheight r))"

definition surface_signature :: "shared_surface \<Rightarrow> u64" where
  "surface_signature s =
     (let row_bytes = nat (sint (i32_max_of (surf_width s) 0)) * bytes_per_pixel (surf_format s);
          rows = step_by 16 [0 ..< nat (sint (i32_max_of (surf_height s) 0))];
          row_hash = (\<lambda>y hash.
            let start = y * surf_stride s;
                until = min (start + row_bytes) (length (surf_bytes s))
            in fold (\<lambda>b h. fnv_step h b) (step_by 32 (get_range start until (surf_bytes s))) hash)
      in fold row_hash rows fnv_offset
           XOR push_bit 32 (scast (surf_width s)) XOR scast (surf_height s))"

section \<open>Live ink\<close>

definition MAGIC_PAPER_PEN_MIN_RADIUS :: i32 where "MAGIC_PAPER_PEN_MIN_RADIUS = 2"
definition MAGIC_PAPER_PEN_PRESSURE_SPAN :: i32 where "MAGIC_PAPER_PEN_PRESSURE_SPAN = 3"
definition MAGIC_PAPER_ERASER_RADIUS :: i32 where "MAGIC_PAPER_ERASER_RADIUS = 22"

record live_pen_point =
  live_x :: i32
  live_y :: i32
  live_radius :: i32
  live_tool :: pen_tool

definition live_brush_radius :: "pen_tool \<Rightarrow> i32 \<Rightarrow> i32 \<Rightarrow> i32" where
  "live_brush_radius tool pressure pressure_max =
     (case tool of
        Pen \<Rightarrow>
          let limit = i32_max_of pressure_max 1
          in MAGIC_PAPER_PEN_MIN_RADIUS + word_of_int
               (sint (i32_clamped pressure 0 limit * MAGIC_PAPER_PEN_PRESSURE_SPAN) sdiv sint limit)
      | Eraser \<Rightarrow> MAGIC_PAPER_ERASER_RADIUS)"

definition live_segment_radius :: "pen_tool \<Rightarrow> i32 \<Rightarrow> live_pen_point option \<Rightarrow> i32" where
  "live_segment_radius tool desired previous =
     (if tool \<noteq> Pen then desired
      else case previous of
          None \<Rightarrow> desired
        | Some point \<Rightarrow>
            if live_tool point = Pen then i32_min_of desired (i32_sat_add (live_radius point) 1)
            else desired)"

definition point_inside :: "rect \<Rightarrow> i32 \<Rightarrow> i32 \<Rightarrow> bool" where
  "point_inside r x y =
     (sint (rx r) \<le> sint x \<and> sint (ry r) \<le> sint y
      \<and> sint x < sint (rect_right r) \<and> sint y < sint (rect_bottom r))"

text \<open>The pixel of a disc at an offset, if it is inside the panel and the framebuffer.\<close>

definition draw_dot :: "nat \<Rightarrow> int \<Rightarrow> int \<Rightarrow> u8 list \<Rightarrow> int \<times> int \<Rightarrow> u8 list \<Rightarrow> u8 list" where
  "draw_dot stride width height color = (\<lambda>(px, py) bytes.
     if px < 0 \<or> py < 0 \<or> width \<le> px \<or> height \<le> py then bytes
     else
       let index = nat py * stride + nat px * 4
       in if index + 3 < length bytes then put_slice index color bytes else bytes)"

definition disc_points :: "int \<Rightarrow> int \<Rightarrow> int \<Rightarrow> (int \<times> int) list" where
  "disc_points x y radius =
     concat (map (\<lambda>dy. map (\<lambda>dx. (x + dx, y + dy))
       (filter (\<lambda>dx. dx * dx + dy * dy \<le> radius * radius) [- radius .. radius])) [- radius .. radius])"

definition draw_disc :: "nat \<Rightarrow> int \<Rightarrow> int \<Rightarrow> u8 list \<Rightarrow> int \<Rightarrow> int \<times> int \<Rightarrow> u8 list \<Rightarrow> u8 list" where
  "draw_disc stride width height color radius = (\<lambda>(x, y) bytes.
     fold (draw_dot stride width height color) (disc_points x y radius) bytes)"

definition line_points :: "int \<Rightarrow> int \<Rightarrow> int \<Rightarrow> int \<Rightarrow> (int \<times> int) list" where
  "line_points x0 y0 x1 y1 =
     (let steps = max (max \<bar>x1 - x0\<bar> \<bar>y1 - y0\<bar>) 1
      in map (\<lambda>step. (x0 + (x1 - x0) * step sdiv steps, y0 + (y1 - y0) * step sdiv steps)) [0 .. steps])"

definition draw_line ::
    "u8 list \<Rightarrow> nat \<Rightarrow> i32 \<Rightarrow> i32 \<Rightarrow> i32 \<times> i32 \<Rightarrow> i32 \<times> i32 \<Rightarrow> i32 \<Rightarrow> u8 list
      \<Rightarrow> u8 list \<times> rect option" where
  "draw_line bytes stride width height p0 p1 radius color =
     (let x0 = sint (fst p0); y0 = sint (snd p0); x1 = sint (fst p1); y1 = sint (snd p1);
          r = sint radius
      in (fold (draw_disc stride (sint width) (sint height) color r) (line_points x0 y0 x1 y1) bytes,
          rect_clip
            (rect_new (word_of_int (min x0 x1 - r)) (word_of_int (min y0 y1 - r))
               (word_of_int (\<bar>x1 - x0\<bar> + r * 2 + 1)) (word_of_int (\<bar>y1 - y0\<bar> + r * 2 + 1)))
            width height))"

lemma fold_keeps_length: "(\<And>x s. length (f x s) = length s) \<Longrightarrow> length (fold f xs s) = length s"
  by (induction xs arbitrary: s) simp_all

lemma draw_dot_length: "length color = 4 \<Longrightarrow> length (draw_dot stride w h color p bytes) = length bytes"
  by (cases p) (simp add: draw_dot_def Let_def)

lemma draw_line_length:
  "length color = 4 \<Longrightarrow> length (fst (draw_line bytes stride w h p0 p1 r color)) = length bytes"
  by (simp add: draw_line_def Let_def draw_disc_def case_prod_beta fold_keeps_length draw_dot_length)

text \<open>The brush grows with the pressure from two to five pixels.\<close>

lemma live_brush_radius_bounds:
  assumes "sint limit \<le> 2 ^ 24"
  shows "2 \<le> sint (live_brush_radius Pen p limit) \<and> sint (live_brush_radius Pen p limit) \<le> 5"
proof -
  define m where "m = i32_max_of limit 1"
  define c where "c = i32_clamped p 0 m"
  have m: "1 \<le> sint m" "sint m \<le> 2 ^ 24" using assms by (auto simp: m_def)
  have c: "0 \<le> sint c" "sint c \<le> sint m" using i32_clamped_bounds [of 0 m p] m by (simp_all add: c_def)
  have "c * 3 = word_of_int (sint c * 3)" by simp
  moreover have "sint (word_of_int (sint c * 3) :: i32) = sint c * 3"
    by (rule sint_of_int_i32) (use c m in \<open>simp_all add: i32_min_def i32_max_def\<close>)
  ultimately have c3: "sint (c * 3) = sint c * 3" by simp
  have q: "0 \<le> sint c * 3 div sint m" "sint c * 3 div sint m \<le> 3"
    using c m div_less_iff [of "sint m" "sint c * 3" 4] by (simp_all add: pos_imp_zdiv_nonneg_iff)
  have "live_brush_radius Pen p limit = word_of_int (2 + sint c * 3 div sint m)"
    using c m by (simp add: live_brush_radius_def Let_def MAGIC_PAPER_PEN_MIN_RADIUS_def
        MAGIC_PAPER_PEN_PRESSURE_SPAN_def c3 tdiv_nonneg flip: m_def c_def)
  moreover have "sint (word_of_int (2 + sint c * 3 div sint m) :: i32) = 2 + sint c * 3 div sint m"
    by (rule sint_of_int_i32) (use q in \<open>simp_all add: i32_min_def i32_max_def\<close>)
  ultimately show ?thesis using q by simp
qed

end
