(* ===== verification/Panel_Runtime.thy ===== *)
theory Panel_Runtime
  imports Panel_Render
begin

text \<open>
  The panel worker (\<open>panel/runtime.rs\<close>, \<open>panel/runtime/presentation.rs\<close>, \<open>panel/ink.rs\<close>): the
  thread that owns the framebuffer and serves the commands of the host in order. Its state is
  \<open>panel_runtime\<close>; \<open>panel_world\<close> adds what it shares with the host, the telemetry and the surfaces.
  An \<open>Instant\<close> is an integer of nanoseconds, handed to the operations that read the clock.
\<close>

section \<open>State\<close>

definition LIVE_SWAP_INTERVAL :: int where "LIVE_SWAP_INTERVAL = 8000000"
definition CANONICAL_SETTLE_DELAY :: int where "CANONICAL_SETTLE_DELAY = 280000000"
definition CANONICAL_SETTLE_RETRY :: int where "CANONICAL_SETTLE_RETRY = 40000000"
definition CANONICAL_SETTLE_LIMIT :: int where "CANONICAL_SETTLE_LIMIT = 800000000"

record ink_lease =
  ink_of :: panel_lease
  ink_enabled :: bool
  ink_region :: "rect option"

definition no_lease :: panel_lease where
  "no_lease = \<lparr>lease_key = 0, lease_generation = 0, lease_epoch = 0\<rparr>"

definition ink_default :: ink_lease where
  "ink_default = \<lparr>ink_of = no_lease, ink_enabled = False, ink_region = None\<rparr>"

definition rect_default :: rect where
  "rect_default = rect_new 0 0 0 0"

record panel_lock =
  plock_epoch :: u64
  plock_lease :: panel_lease
  plock_frozen :: u64

record panel_runtime =
  backend :: backend
  p_surfaces :: "i32 \<Rightarrow> nat option"
  p_foreground :: "panel_lease option"
  p_lock :: "panel_lock option"
  p_ink :: ink_lease
  p_active_pen :: bool
  p_last_pen :: "live_pen_point option"
  p_live_dirty :: rect
  p_canonical_dirty :: rect
  p_last_live_submit :: int
  p_settle_deadline :: "int option"
  p_settle_started :: "int option"
  p_ink_begin :: u64

record panel_world =
  tel :: telemetry
  cells :: "shared_surface list"
  prt :: panel_runtime

definition panel_new :: "backend \<Rightarrow> int \<Rightarrow> panel_runtime" where
  "panel_new b now =
     \<lparr>backend = b, p_surfaces = Map.empty, p_foreground = None, p_lock = None, p_ink = ink_default,
      p_active_pen = False, p_last_pen = None, p_live_dirty = rect_default,
      p_canonical_dirty = rect_default, p_last_live_submit = now - LIVE_SWAP_INTERVAL,
      p_settle_deadline = None, p_settle_started = None, p_ink_begin = 0\<rparr>"

type_synonym ('z, 'a) panel_action = "('z panel_world_scheme, 'a) action"

definition on_prt :: "(panel_runtime \<Rightarrow> panel_runtime) \<Rightarrow> 'z panel_world_scheme \<Rightarrow> 'z panel_world_scheme" where
  "on_prt f w = w\<lparr>prt := f (prt w)\<rparr>"

definition on_tel :: "(telemetry \<Rightarrow> telemetry) \<Rightarrow> 'z panel_world_scheme \<Rightarrow> 'z panel_world_scheme" where
  "on_tel f w = w\<lparr>tel := f (tel w)\<rparr>"

definition cell_at :: "nat \<Rightarrow> 'z panel_world_scheme \<Rightarrow> shared_surface option" where
  "cell_at a w = (if a < length (cells w) then Some (cells w ! a) else None)"

definition panel_surface :: "i32 \<Rightarrow> 'z panel_world_scheme \<Rightarrow> shared_surface option" where
  "panel_surface key w = Option.bind (p_surfaces (prt w) key) (\<lambda>a. cell_at a w)"

definition surface_commits :: "i32 \<Rightarrow> 'z panel_world_scheme \<Rightarrow> u64" where
  "surface_commits key w = (case panel_surface key w of None \<Rightarrow> 0 | Some s \<Rightarrow> surf_commits s)"

lemma on_sel [simp]:
  "prt (on_prt f w) = f (prt w)" "tel (on_prt f w) = tel w" "cells (on_prt f w) = cells w"
  "prt (on_tel g w) = prt w" "tel (on_tel g w) = g (tel w)" "cells (on_tel g w) = cells w"
  by (simp_all add: on_prt_def on_tel_def)

section \<open>Presentation\<close>

definition effective_intent :: "shared_surface \<Rightarrow> refresh_intent \<Rightarrow> refresh_intent" where
  "effective_intent s intent =
     (if intent \<noteq> Ui then intent
      else if surf_refresh_mode s = REFRESH_MODE_UFAST then Ink
      else if surf_refresh_mode s = REFRESH_MODE_FAST then MonoQuality
      else if surf_refresh_mode s = REFRESH_MODE_ANIMATE then Ui
      else if surf_refresh_mode s = REFRESH_MODE_CONTENT then Content
      else MonoQuality)"

definition submission_of ::
    "panel_lease \<Rightarrow> u64 \<Rightarrow> refresh_intent \<Rightarrow> submission_reason \<Rightarrow> u64 \<Rightarrow> u64 option \<Rightarrow> bool \<Rightarrow> submission_record" where
  "submission_of lease surface_sequence intent reason signature marker success =
     \<lparr>sub_sequence = 0, sub_surface_sequence = surface_sequence, sub_lease = lease,
      sub_intent = intent, sub_reason = reason, sub_signature = signature,
      sub_marker = marker, sub_success = success\<rparr>"

definition submit ::
    "rect \<Rightarrow> refresh_intent \<Rightarrow> panel_lease \<Rightarrow> u64 \<Rightarrow> submission_reason \<Rightarrow> ('z, u64) panel_action" where
  "submit rect intent lease surface_sequence reason w =
     (let b = backend (prt w);
          signature = sampled_signature (b_pixels b) (b_stride b) rect
      in case backend_submit rect intent b of
           (Inr marker, b') \<Rightarrow>
             (Inr marker,
              on_tel (\<lambda>t. push_submission
                  (submission_of lease surface_sequence intent reason signature (Some marker) True)
                  ((if intent = Full then mark_full_refresh t else t)
                     \<lparr>submission_count := submission_count t + 1, last_marker := marker,
                      visible_signature := signature\<rparr>))
                (on_prt (backend_update (\<lambda>_. b')) w))
         | (Inl e, b') \<Rightarrow>
             (Inl e,
              on_tel (\<lambda>t. push_submission
                  (submission_of lease surface_sequence intent reason signature None False)
                  (t\<lparr>failure_count := failure_count t + 1\<rparr>))
                (on_prt (backend_update (\<lambda>_. b')) w)))"

text \<open>The part that \<open>present_surface\<close> and \<open>sync_surface_buffer\<close> share: clip, scale and copy into the
  framebuffer. The answer is the physical rectangle, \<^term>\<open>None\<close> when there is nothing to show.\<close>

definition copy_damage :: "panel_lease \<Rightarrow> rect \<Rightarrow> ('z, (shared_surface \<times> rect) option) panel_action" where
  "copy_damage lease logical_rect = reading (\<lambda>w.
     if p_foreground (prt w) \<noteq> Some lease then ret None
     else case panel_surface (lease_key lease) w of
         None \<Rightarrow> ret None
       | Some surface \<Rightarrow>
           (case rect_clip logical_rect (surf_width surface) (surf_height surface) of
              None \<Rightarrow> panic
            | Some clipped \<Rightarrow>
                if rect_is_empty clipped then ret None
                else let b = backend (prt w) in
                  case geometry_new (surf_width surface) (surf_height surface) (b_width b) (b_height b) of
                    None \<Rightarrow> panic
                  | Some geometry \<Rightarrow>
                      (case logical_to_physical_rect geometry clipped of
                         None \<Rightarrow> panic
                       | Some physical_rect \<Rightarrow>
                           (case copy_surface_rect surface (b_pixels b) (b_stride b) geometry physical_rect of
                              None \<Rightarrow> panic
                            | Some bytes \<Rightarrow>
                                seq (change (on_prt (backend_update (b_pixels_update (\<lambda>_. bytes)))))
                                  (ret (Some (surface, physical_rect)))))))"

definition present_surface ::
    "panel_lease \<Rightarrow> rect \<Rightarrow> refresh_intent \<Rightarrow> submission_reason \<Rightarrow> ('z, unit) panel_action" where
  "present_surface lease logical_rect intent reason =
     sbind (copy_damage lease logical_rect) (\<lambda>copied.
       case copied of
         None \<Rightarrow> ret ()
       | Some (surface, physical_rect) \<Rightarrow>
           sbind (submit physical_rect (effective_intent surface intent) lease (surf_commits surface) reason)
             (\<lambda>_. change (on_tel (mark_presented (lease_key lease) (surf_commits surface)))))"

definition sync_surface_buffer :: "panel_lease \<Rightarrow> rect \<Rightarrow> ('z, unit) panel_action" where
  "sync_surface_buffer lease logical_rect = sbind (copy_damage lease logical_rect) (\<lambda>_. ret ())"

section \<open>Foreground, ink and lock\<close>

definition abort_ink :: "panel_runtime \<Rightarrow> panel_runtime" where
  "abort_ink p = p\<lparr>p_active_pen := False, p_last_pen := None, p_live_dirty := rect_default,
     p_canonical_dirty := rect_default, p_settle_deadline := None, p_settle_started := None,
     p_ink_begin := 0\<rparr>"

definition clear_foreground_unchecked :: "'z panel_world_scheme \<Rightarrow> 'z panel_world_scheme" where
  "clear_foreground_unchecked w =
     (let w1 = (case p_foreground (prt w) of
                  Some lease \<Rightarrow>
                    on_tel (\<lambda>t. clear_committed_foreground lease (discard_deferred_damage lease t)) w
                | None \<Rightarrow> w)
      in on_prt (\<lambda>p. (abort_ink p)\<lparr>p_foreground := None, p_ink := ink_default\<rparr>) w1)"

definition panel_clear_foreground :: "panel_lease \<Rightarrow> 'z panel_world_scheme \<Rightarrow> 'z panel_world_scheme" where
  "panel_clear_foreground lease w =
     (if p_foreground (prt w) \<noteq> Some lease then w else clear_foreground_unchecked w)"

definition drop_surface :: "i32 \<Rightarrow> 'z panel_world_scheme \<Rightarrow> 'z panel_world_scheme" where
  "drop_surface key w =
     (let w1 = on_tel (discard_deferred_damage_for_key key)
                 (on_prt (p_surfaces_update (\<lambda>m. m(key := None))) w)
      in case p_lock (prt w1) of
           Some lock \<Rightarrow>
             if lease_key (plock_lease lock) = key then w1
             else (case p_foreground (prt w1) of
                     Some foreground \<Rightarrow>
                       if lease_key foreground = key then clear_foreground_unchecked w1 else w1
                   | None \<Rightarrow> w1)
         | None \<Rightarrow>
             (case p_foreground (prt w1) of
                Some foreground \<Rightarrow>
                  if lease_key foreground = key then clear_foreground_unchecked w1 else w1
              | None \<Rightarrow> w1))"

definition handle_damage :: "panel_lease \<Rightarrow> rect \<Rightarrow> refresh_intent \<Rightarrow> ('z, unit) panel_action" where
  "handle_damage lease rect intent = reading (\<lambda>w. let p = prt w in
     if p_foreground p \<noteq> Some lease then ret ()
     else if (p_active_pen p \<or> p_settle_deadline p \<noteq> None) \<and> ink_enabled (p_ink p)
             \<and> lease_key (ink_of (p_ink p)) = lease_key lease
     then change (on_prt (\<lambda>p. p\<lparr>p_canonical_dirty := rect_union (p_canonical_dirty p) rect\<rparr>))
     else present_surface lease rect intent SurfaceDamage)"

definition foreground_intent :: "shared_surface \<Rightarrow> bool \<Rightarrow> refresh_intent" where
  "foreground_intent s full_refresh =
     (if full_refresh then Full
      else if surf_refresh_mode s = REFRESH_MODE_CONTENT then Content
      else MonoQuality)"

text \<open>What both foreground transitions do before they present: the deferred damage of the previous
  lease is dropped, the pen is aborted and the new lease and its ink policy are installed.\<close>

definition install_foreground :: "panel_lease \<Rightarrow> ink_lease \<Rightarrow> 'z panel_world_scheme \<Rightarrow> 'z panel_world_scheme" where
  "install_foreground lease ink w =
     (let w1 = (case p_foreground (prt w) of
                  Some previous \<Rightarrow>
                    if previous \<noteq> lease then on_tel (discard_deferred_damage previous) w else w
                | None \<Rightarrow> w)
      in on_prt (\<lambda>p. (abort_ink p)\<lparr>p_ink := ink, p_foreground := Some lease\<rparr>) w1)"

text \<open>\<open>if let Err(error) = action { undo; return Err(error) }\<close>.\<close>

definition or_undo :: "('s, unit) action \<Rightarrow> ('s \<Rightarrow> 's) \<Rightarrow> ('s, unit) action" where
  "or_undo m undo s = (case m s of (Inl e, t) \<Rightarrow> (Inl e, undo t) | (Inr _, t) \<Rightarrow> (Inr (), t))"

definition missing_foreground :: "panel_lease \<Rightarrow> string" where
  "missing_foreground lease =
     ''foreground surface '' @ decimal (sint (lease_key lease)) @ '' is not connected''"

definition set_foreground_with ::
    "panel_lease \<Rightarrow> refresh_intent \<Rightarrow> submission_reason \<Rightarrow> ('z, unit) panel_action" where
  "set_foreground_with lease intent reason = reading (\<lambda>w.
     case panel_surface (lease_key lease) w of
       None \<Rightarrow> fail K_NotFound (missing_foreground lease)
     | Some surface \<Rightarrow>
         seq (change (install_foreground lease ink_default))
        (seq (or_undo (present_surface lease (surface_full_rect surface) intent reason)
               (on_prt (p_foreground_update (\<lambda>_. p_foreground (prt w)))))
             (change (on_tel (\<lambda>t. commit_ink lease False (commit_foreground lease t))))))"

definition panel_set_foreground :: "panel_lease \<Rightarrow> bool \<Rightarrow> ('z, unit) panel_action" where
  "panel_set_foreground lease full_refresh = reading (\<lambda>w.
     case panel_surface (lease_key lease) w of
       None \<Rightarrow> fail K_NotFound ''foreground surface is not connected''
     | Some surface \<Rightarrow>
         set_foreground_with lease (foreground_intent surface full_refresh) ForegroundSwitch)"

definition panel_activate_foreground :: "panel_lease \<Rightarrow> bool \<Rightarrow> bool \<Rightarrow> ('z, unit) panel_action" where
  "panel_activate_foreground lease enabled full_refresh = reading (\<lambda>w.
     case panel_surface (lease_key lease) w of
       None \<Rightarrow> fail K_NotFound (missing_foreground lease)
     | Some surface \<Rightarrow>
         seq (change (install_foreground lease \<lparr>ink_of = lease, ink_enabled = enabled, ink_region = None\<rparr>))
        (seq (or_undo (present_surface lease (surface_full_rect surface)
                         (foreground_intent surface full_refresh) ForegroundSwitch)
               (on_prt (\<lambda>p. p\<lparr>p_foreground := p_foreground (prt w), p_ink := ink_default\<rparr>)))
             (change (on_tel (\<lambda>t. commit_foreground lease (commit_ink lease enabled t))))))"

definition panel_configure_ink :: "panel_lease \<Rightarrow> bool \<Rightarrow> rect option \<Rightarrow> ('z, unit) panel_action" where
  "panel_configure_ink lease enabled region = reading (\<lambda>w.
     if enabled \<and> p_foreground (prt w) \<noteq> Some lease
     then fail K_PermissionDenied ''direct ink lease does not match the foreground epoch''
     else
       seq (change (on_prt (\<lambda>p. (abort_ink p)\<lparr>p_ink :=
              \<lparr>ink_of = lease, ink_enabled = enabled, ink_region = region\<rparr>\<rparr>)))
           (change (on_tel (commit_ink lease enabled))))"

definition panel_full_refresh :: "panel_lease \<Rightarrow> ('z, unit) panel_action" where
  "panel_full_refresh lease = reading (\<lambda>w.
     if p_foreground (prt w) \<noteq> Some lease then ret ()
     else case panel_surface (lease_key lease) w of
         None \<Rightarrow> ret ()
       | Some surface \<Rightarrow> present_surface lease (surface_full_rect surface) Full FullRefresh_Reason)"

definition panel_show_lock :: "panel_lease \<Rightarrow> u64 \<Rightarrow> ('z, unit) panel_action" where
  "panel_show_lock lease sleep_epoch =
     seq (set_foreground_with lease Full LockScreen) (reading (\<lambda>w.
       case last_presented (tel w) of
         Some (key, sequence) \<Rightarrow>
           if key = lease_key lease \<and> 0 < sequence then
             seq (change (on_prt (p_lock_update (\<lambda>_. Some
                    \<lparr>plock_epoch = sleep_epoch, plock_lease = lease, plock_frozen = sequence\<rparr>))))
                 (change (on_tel (commit_lock sleep_epoch)))
           else fail K_Other ''lock pixels were not recorded as presented''
       | None \<Rightarrow> fail K_Other ''lock pixels were not recorded as presented''))"

definition panel_refresh_lock :: "panel_lease \<Rightarrow> u64 \<Rightarrow> ('z, unit) panel_action" where
  "panel_refresh_lock lease sleep_epoch = reading (\<lambda>w.
     let mismatch = fail K_PermissionDenied ''lock refresh does not match the committed lock lease'' in
     case p_lock (prt w) of
       None \<Rightarrow> mismatch
     | Some lock \<Rightarrow>
         if p_foreground (prt w) \<noteq> Some lease \<or> plock_epoch lock \<noteq> sleep_epoch \<or> plock_lease lock \<noteq> lease
         then mismatch
         else
           let b = backend (prt w) in
           sbind (submit (rect_new 0 0 (b_width b) (b_height b)) Full lease (plock_frozen lock) LockRefresh)
             (\<lambda>_. change (on_tel (mark_presented (lease_key lease) (plock_frozen lock)))))"

definition lock_matches :: "panel_lease \<Rightarrow> u64 \<Rightarrow> 'z panel_world_scheme \<Rightarrow> bool" where
  "lock_matches lease sleep_epoch w =
     (case p_lock (prt w) of
        None \<Rightarrow> False
      | Some lock \<Rightarrow> plock_epoch lock = sleep_epoch \<and> plock_lease lock = lease)"

definition panel_cancel_lock :: "panel_lease \<Rightarrow> u64 \<Rightarrow> u64 \<Rightarrow> ('z, unit) panel_action" where
  "panel_cancel_lock lease sleep_epoch replacement = reading (\<lambda>w.
     if \<not> lock_matches lease sleep_epoch w
     then fail K_PermissionDenied ''lock cancellation does not match the committed lock lease''
     else case panel_surface (lease_key lease) w of
         None \<Rightarrow> fail K_NotFound ''unlock replacement surface is not connected''
       | Some surface \<Rightarrow>
           if replacement = 0 \<or> surf_commits surface < replacement
           then fail K_WouldBlock ''unlock replacement surface has not reached the required commit''
           else
             seq (or_undo (present_surface lease (surface_full_rect surface) Full UnlockScreen)
                   (on_prt (backend_update (b_pixels_update (\<lambda>_. b_pixels (backend (prt w)))))))
            (seq (change (on_prt (p_lock_update (\<lambda>_. None))))
                 (change (on_tel (\<lambda>t. record_lock_cancelled sleep_epoch (clear_committed_lock sleep_epoch t))))))"

section \<open>The pen\<close>

text \<open>One live segment. \<open>geometry_for_logical\<close> unwraps, so a bad geometry is a panic.\<close>

definition draw_live_segment ::
    "pen_tool \<Rightarrow> i32 \<Rightarrow> i32 \<Rightarrow> i32 \<Rightarrow> i32 \<Rightarrow> i32 \<Rightarrow> ('z, unit) panel_action" where
  "draw_live_segment tool x0 y0 x1 y1 radius = reading (\<lambda>w. let p = prt w; b = backend p in
     case panel_surface (lease_key (ink_of (p_ink p))) w of
       None \<Rightarrow> ret ()
     | Some surface \<Rightarrow>
         (case geometry_new (surf_width surface) (surf_height surface) (b_width b) (b_height b) of
            None \<Rightarrow> panic
          | Some g \<Rightarrow>
              (case (logical_to_physical_point g x0 y0, logical_to_physical_point g x1 y1) of
                 (Some p0, Some p1) \<Rightarrow>
                   let color = (case tool of Pen \<Rightarrow> [0, 0, 0, 0xff] | Eraser \<Rightarrow> [0xff, 0xff, 0xff, 0xff])
                   in (case draw_line (b_pixels b) (b_stride b) (b_width b) (b_height b) p0 p1 radius color of
                         (_, None) \<Rightarrow> panic
                       | (bytes, Some dirty) \<Rightarrow>
                           change (on_prt (\<lambda>p. p
                             \<lparr>backend := b\<lparr>b_pixels := bytes\<rparr>,
                              p_live_dirty := rect_union (p_live_dirty p) dirty,
                              p_canonical_dirty := rect_union (p_canonical_dirty p)
                                (rect_expand (rect_new x1 y1 1 1) (radius + 3))\<rparr>)))
               | _ \<Rightarrow> panic)))"

definition pen_point :: "pen_frame \<Rightarrow> i32 \<Rightarrow> live_pen_point" where
  "pen_point f radius = \<lparr>live_x = pen_x f, live_y = pen_y f, live_radius = radius, live_tool = pen_tool f\<rparr>"

definition frame_radius :: "pen_frame \<Rightarrow> i32" where
  "frame_radius f = live_brush_radius (pen_tool f) (pen_pressure f) (pen_pressure_max f)"

definition begin_pen :: "pen_frame \<Rightarrow> ('z, unit) panel_action" where
  "begin_pen f = reading (\<lambda>w.
     seq (change (on_prt (\<lambda>p. p
            \<lparr>p_active_pen := True, p_settle_deadline := None, p_settle_started := None,
             p_ink_begin := surface_commits (lease_key (ink_of (p_ink p))) w,
             p_last_pen := Some (pen_point f (frame_radius f))\<rparr>)))
         (draw_live_segment (pen_tool f) (pen_x f) (pen_y f) (pen_x f) (pen_y f) (frame_radius f)))"

definition move_pen :: "pen_frame \<Rightarrow> ('z, unit) panel_action" where
  "move_pen f = reading (\<lambda>w.
     let previous = (case p_last_pen (prt w) of Some q \<Rightarrow> q | None \<Rightarrow> pen_point f (frame_radius f));
         radius = live_segment_radius (pen_tool f) (frame_radius f) (Some previous)
     in seq (draw_live_segment (pen_tool f) (live_x previous) (live_y previous) (pen_x f) (pen_y f) radius)
            (change (on_prt (p_last_pen_update (\<lambda>_. Some (pen_point f (frame_radius f)))))))"

definition flush_live :: "int \<Rightarrow> bool \<Rightarrow> ('z, unit) panel_action" where
  "flush_live now force = reading (\<lambda>w. let p = prt w in
     if rect_is_empty (p_live_dirty p)
        \<or> (\<not> force \<and> now - p_last_live_submit p < LIVE_SWAP_INTERVAL)
     then ret ()
     else
       seq (change (on_prt (p_live_dirty_update (\<lambda>_. rect_default))))
         (case rect_clip (p_live_dirty p) (b_width (backend p)) (b_height (backend p)) of
            None \<Rightarrow> panic
          | Some dirty \<Rightarrow>
              if rect_is_empty dirty then ret ()
              else
                let lease = ink_of (p_ink p) in
                sbind (submit dirty Ink lease (surface_commits (lease_key lease) w) LiveInk)
                  (\<lambda>_. change (on_prt (p_last_live_submit_update (\<lambda>_. now))))))"

definition end_pen :: "int \<Rightarrow> ('z, unit) panel_action" where
  "end_pen now =
     seq (change (on_prt (\<lambda>p. p
            \<lparr>p_active_pen := False, p_last_pen := None, p_settle_started := Some now,
             p_settle_deadline := Some (now + CANONICAL_SETTLE_DELAY)\<rparr>)))
         (flush_live now True)"

definition valid_ink :: "panel_lease \<Rightarrow> pen_frame \<Rightarrow> panel_runtime \<Rightarrow> bool" where
  "valid_ink lease f p =
     (ink_enabled (p_ink p) \<and> p_foreground p = Some lease \<and> ink_of (p_ink p) = lease
      \<and> (case ink_region (p_ink p) of
           None \<Rightarrow> True
         | Some region \<Rightarrow> point_inside region (pen_x f) (pen_y f)))"

definition handle_pen :: "int \<Rightarrow> panel_lease \<Rightarrow> pen_frame \<Rightarrow> ('z, unit) panel_action" where
  "handle_pen now lease f = reading (\<lambda>w.
     if \<not> valid_ink lease f (prt w) then ret ()
     else case pen_phase f of
         Pen_Down \<Rightarrow> begin_pen f
       | Pen_Move \<Rightarrow> if p_active_pen (prt w) then move_pen f else ret ()
       | Pen_Up \<Rightarrow> if p_active_pen (prt w) then end_pen now else ret ()
       | Pen_Cancel \<Rightarrow> change (on_prt abort_ink))"

text \<open>\<open>flush_deadlines\<close>: submit the live ink that is due, then settle the canonical buffer once the
  application has drawn the stroke itself or the settle limit has passed.\<close>

definition settle :: "int \<Rightarrow> ('z, unit) panel_action" where
  "settle now = reading (\<lambda>w. let p = prt w in
     case p_settle_deadline p of
       None \<Rightarrow> ret ()
     | Some deadline \<Rightarrow>
         if now < deadline then ret ()
         else
           let newer = (case panel_surface (lease_key (ink_of (p_ink p))) w of
                          None \<Rightarrow> False | Some s \<Rightarrow> p_ink_begin p < surf_commits s);
               retry = (case p_settle_started p of
                          None \<Rightarrow> False | Some started \<Rightarrow> now - started < CANONICAL_SETTLE_LIMIT)
           in if \<not> newer \<and> retry
              then change (on_prt (p_settle_deadline_update (\<lambda>_. Some (now + CANONICAL_SETTLE_RETRY))))
              else
                seq (change (on_prt (\<lambda>p. p\<lparr>p_settle_deadline := None, p_settle_started := None,
                                            p_canonical_dirty := rect_default\<rparr>)))
                  (if newer \<and> \<not> rect_is_empty (p_canonical_dirty p) \<and> ink_enabled (p_ink p)
                   then sync_surface_buffer (ink_of (p_ink p)) (p_canonical_dirty p)
                   else ret ()))"

definition flush_deadlines :: "int \<Rightarrow> ('z, unit) panel_action" where
  "flush_deadlines now = seq (flush_live now False) (settle now)"

definition flush_deferred_damage :: "('z, unit) panel_action" where
  "flush_deferred_damage = reading (\<lambda>w.
     case p_foreground (prt w) of
       None \<Rightarrow> ret ()
     | Some lease \<Rightarrow>
         (case take_deferred_damage lease (tel w) of
            (None, t) \<Rightarrow> change (on_tel (\<lambda>_. t))
          | (Some d, t) \<Rightarrow>
              seq (change (on_tel (\<lambda>_. t))) (handle_damage lease (damage_rect d) (damage_intent d))))"

section \<open>Commands\<close>

text \<open>The arm for \<open>Shutdown\<close> is \<open>unreachable!()\<close>.\<close>

fun handle :: "int \<Rightarrow> panel_command \<Rightarrow> ('z, unit) panel_action" where
  "handle now (RegisterSurface a) = reading (\<lambda>w.
     case cell_at a w of
       None \<Rightarrow> panic
     | Some s \<Rightarrow> change (on_prt (p_surfaces_update (\<lambda>m. m(surf_key s \<mapsto> a)))))"
| "handle now (DropSurface key) = change (drop_surface key)"
| "handle now (Damage lease rect intent) = handle_damage lease rect intent"
| "handle now (SetForeground lease full) = panel_set_foreground lease full"
| "handle now (ActivateForeground lease enabled full) = panel_activate_foreground lease enabled full"
| "handle now (ClearForeground lease) = change (panel_clear_foreground lease)"
| "handle now (ConfigureInk lease enabled region) = panel_configure_ink lease enabled region"
| "handle now (Pen_Input lease frame) = handle_pen now lease frame"
| "handle now (FullRefresh lease) = panel_full_refresh lease"
| "handle now (ShowLock lease epoch) = panel_show_lock lease epoch"
| "handle now (RefreshLock lease epoch) = panel_refresh_lock lease epoch"
| "handle now (CancelLock lease epoch replacement) = panel_cancel_lock lease epoch replacement"
| "handle now Shutdown = panic"

fun is_stale_control_error :: "io_error \<Rightarrow> bool" where
  "is_stale_control_error (Io_Error kind message) =
     (kind \<in> set [K_NotFound, K_PermissionDenied, K_AlreadyExists, K_WouldBlock, K_InvalidInput])"
| "is_stale_control_error Panicked = False"

text \<open>One round of the loop of \<open>run\<close>: \<open>received\<close> is the command that \<open>recv_timeout\<close> returned, if
  any. The round goes on (\<^term>\<open>True\<close>) unless the command is \<open>Shutdown\<close>; an error ends the thread.\<close>

definition panel_round :: "int \<Rightarrow> panel_command option \<Rightarrow> ('z, bool) panel_action" where
  "panel_round now received =
     (let flush = seq flush_deferred_damage (seq (flush_deadlines now) (ret True)) in
      case received of
        None \<Rightarrow> flush
      | Some command \<Rightarrow>
          seq (change (on_tel command_dequeued))
            (if command = Shutdown then ret False
             else (\<lambda>w. case handle now command w of
                 (Inr _, w1) \<Rightarrow> flush w1
               | (Inl e, w1) \<Rightarrow> if is_stale_control_error e then flush w1 else (Inl e, w1))))"

text \<open>How long the loop waits for a command.\<close>

definition next_timeout :: "int \<Rightarrow> panel_runtime \<Rightarrow> int" where
  "next_timeout now p =
     (let timeout = 500000000;
          timeout = (if rect_is_empty (p_live_dirty p) then timeout
                     else min timeout (max 0 (p_last_live_submit p + LIVE_SWAP_INTERVAL - now)))
      in case p_settle_deadline p of
           None \<Rightarrow> timeout
         | Some deadline \<Rightarrow> min timeout (max 0 (deadline - now)))"

text \<open>The worker is never asleep past a deadline: with nothing received in between, the next round
  runs no later than the live ink or the settling is due.\<close>

lemma next_timeout_meets_deadline:
  "p_settle_deadline p = Some d \<Longrightarrow> now \<le> d \<Longrightarrow> now + next_timeout now p \<le> d"
  "\<not> rect_is_empty (p_live_dirty p) \<Longrightarrow> now \<le> p_last_live_submit p + LIVE_SWAP_INTERVAL \<Longrightarrow>
     now + next_timeout now p \<le> p_last_live_submit p + LIVE_SWAP_INTERVAL"
  by (auto simp: next_timeout_def Let_def split: option.splits)

end
