(* ===== verification/Panel_Safety.thy ===== *)
theory Panel_Safety
  imports Panel_Runtime
begin

text \<open>
  The invariant of the panel worker and the proof that every command keeps it and that none makes
  the thread panic: what the worker publishes in the telemetry is what it holds, direct ink is only
  ever enabled for the lease on screen, and the framebuffer keeps its size.
\<close>

section \<open>What presenting changes\<close>

text \<open>\<open>calm w0 w\<close>: as far as leases, locks, ink and sizes go, \<open>w\<close> is still \<open>w0\<close>.\<close>

definition calm :: "'z panel_world_scheme \<Rightarrow> 'z panel_world_scheme \<Rightarrow> bool" where
  "calm w0 w =
     (p_foreground (prt w) = p_foreground (prt w0) \<and> p_lock (prt w) = p_lock (prt w0)
      \<and> p_ink (prt w) = p_ink (prt w0) \<and> p_surfaces (prt w) = p_surfaces (prt w0)
      \<and> cells w = cells w0
      \<and> committed_foreground (tel w) = committed_foreground (tel w0)
      \<and> committed_ink (tel w) = committed_ink (tel w0)
      \<and> committed_lock_epoch (tel w) = committed_lock_epoch (tel w0)
      \<and> cancelled_lock_epoch (tel w) = cancelled_lock_epoch (tel w0)
      \<and> b_width (backend (prt w)) = b_width (backend (prt w0))
      \<and> b_height (backend (prt w)) = b_height (backend (prt w0))
      \<and> b_stride (backend (prt w)) = b_stride (backend (prt w0))
      \<and> length (b_pixels (backend (prt w))) = length (b_pixels (backend (prt w0)))
      \<and> (\<forall>l. deferred (tel w0) l = None \<longrightarrow> deferred (tel w) l = None)
      \<and> length (recent_submissions (tel w)) \<le> SUBMISSION_HISTORY_CAPACITY)"

lemma calm_refl: "calm w w \<longleftrightarrow> length (recent_submissions (tel w)) \<le> SUBMISSION_HISTORY_CAPACITY"
  by (simp add: calm_def)

lemma calm_trans: "calm w0 w1 \<Longrightarrow> calm w1 w2 \<Longrightarrow> calm w0 w2"
  by (simp add: calm_def)

definition calmly :: "('z, 'a) panel_action \<Rightarrow> bool" where
  "calmly m = (\<forall>w. calm w w \<longrightarrow> calm w (snd (m w)))"

lemma calmlyD: "calmly m \<Longrightarrow> calm w w \<Longrightarrow> m w = (r, w') \<Longrightarrow> calm w w'"
  unfolding calmly_def by (metis snd_conv)

lemma calm_self: "calm w0 w \<Longrightarrow> calm w w"
  by (simp add: calm_def)

lemma calmly_sbind:
  assumes "calmly m" "\<And>x. calmly (k x)"
  shows "calmly (sbind m k)"
  unfolding calmly_def
proof (intro allI impI)
  fix w :: "'a panel_world_scheme"
  assume w: "calm w w"
  obtain r w1 where m: "m w = (r, w1)" by fastforce
  have c1: "calm w w1" using calmlyD [OF assms(1) w m] .
  show "calm w (snd (sbind m k w))"
  proof (cases r)
    case (Inl e)
    then show ?thesis using c1 m by (simp add: sbind_def)
  next
    case (Inr x)
    have "calm w1 (snd (k x w1))"
      using assms(2) [of x] calm_self [OF c1] unfolding calmly_def by blast
    then show ?thesis using calm_trans [OF c1] m Inr by (simp add: sbind_def)
  qed
qed

lemma calmly_seq: "calmly m \<Longrightarrow> calmly k \<Longrightarrow> calmly (seq m k)"
  unfolding seq_def by (rule calmly_sbind)

lemma calmly_reading: "(\<And>w. calmly (f w)) \<Longrightarrow> calmly (reading f)"
  by (simp add: calmly_def reading_def)

lemma calmly_reading_at: "(\<And>w. calm w w \<Longrightarrow> calm w (snd (f w w))) \<Longrightarrow> calmly (reading f)"
  by (simp add: calmly_def reading_def)

lemma calmly_const: "calmly (ret x)" "calmly (fail k t)" "calmly panic"
  by (simp_all add: calmly_def action_defs)

lemma copy_pixel_length: "copy_pixel s stride g p d = Some d' \<Longrightarrow> length d' = length d"
  by (auto simp: copy_pixel_def copy_source_def Let_def split: option.splits prod.splits if_splits
      dest!: decode_pixel_length)

lemma fold_opt_length:
  "(\<And>x s t. f x s = Some t \<Longrightarrow> length t = length s) \<Longrightarrow> fold_opt f xs s = Some t \<Longrightarrow> length t = length s"
  by (induction xs arbitrary: s) (auto split: option.splits)

lemma copy_surface_rect_length: "copy_surface_rect s d stride g r = Some d' \<Longrightarrow> length d' = length d"
  unfolding copy_surface_rect_def by (rule fold_opt_length [of "copy_pixel s stride g"]) (rule copy_pixel_length)

lemma calm_pixels:
  "calm w w \<Longrightarrow> length bytes = length (b_pixels (backend (prt w))) \<Longrightarrow>
     calm w (on_prt (backend_update (b_pixels_update (\<lambda>_. bytes))) w)"
  by (simp add: calm_def)

lemma calmly_copy: "calmly (copy_damage lease r)"
  unfolding copy_damage_def
proof (rule calmly_reading_at, goal_cases)
  case (1 w)
  then show ?case
    by (auto simp: action_defs Let_def intro: calm_pixels dest: copy_surface_rect_length
        split: option.splits)
qed

lemma calm_after_submit:
  "calm w w \<Longrightarrow> length (b_pixels b) = length (b_pixels (backend (prt w))) \<Longrightarrow>
   b_width b = b_width (backend (prt w)) \<Longrightarrow> b_height b = b_height (backend (prt w)) \<Longrightarrow>
   b_stride b = b_stride (backend (prt w)) \<Longrightarrow>
   committed_foreground t = committed_foreground (tel w) \<Longrightarrow> committed_ink t = committed_ink (tel w) \<Longrightarrow>
   committed_lock_epoch t = committed_lock_epoch (tel w) \<Longrightarrow>
   cancelled_lock_epoch t = cancelled_lock_epoch (tel w) \<Longrightarrow> deferred t = deferred (tel w) \<Longrightarrow>
   length (recent_submissions t) \<le> SUBMISSION_HISTORY_CAPACITY \<Longrightarrow>
     calm w (on_tel (\<lambda>_. t) (on_prt (backend_update (\<lambda>_. b)) w))"
  by (simp add: calm_def)

lemma push_submission_sel [simp]:
  "committed_foreground (push_submission r t) = committed_foreground t"
  "committed_ink (push_submission r t) = committed_ink t"
  "committed_lock_epoch (push_submission r t) = committed_lock_epoch t"
  "cancelled_lock_epoch (push_submission r t) = cancelled_lock_epoch t"
  "last_presented (push_submission r t) = last_presented t"
  "failure_count (push_submission r t) = failure_count t"
  "deferred (push_submission r t) = deferred t"
  by (simp_all add: push_submission_def Let_def)

lemma mark_full_refresh_sel [simp]:
  "committed_foreground (mark_full_refresh t) = committed_foreground t"
  "committed_ink (mark_full_refresh t) = committed_ink t"
  "committed_lock_epoch (mark_full_refresh t) = committed_lock_epoch t"
  "cancelled_lock_epoch (mark_full_refresh t) = cancelled_lock_epoch t"
  "recent_submissions (mark_full_refresh t) = recent_submissions t"
  "last_presented (mark_full_refresh t) = last_presented t"
  "deferred (mark_full_refresh t) = deferred t"
  by (simp_all add: mark_full_refresh_def)

lemma submit_result:
  obtains (accepted) marker t b where "submit r i l n why w = (Inr marker, on_tel (\<lambda>_. t) (on_prt (backend_update (\<lambda>_. b)) w))"
      "b = snd (backend_submit r i (backend (prt w)))"
      "committed_foreground t = committed_foreground (tel w)" "committed_ink t = committed_ink (tel w)"
      "committed_lock_epoch t = committed_lock_epoch (tel w)"
      "cancelled_lock_epoch t = cancelled_lock_epoch (tel w)"
      "last_presented t = last_presented (tel w)" "deferred t = deferred (tel w)"
      "length (recent_submissions (tel w)) \<le> SUBMISSION_HISTORY_CAPACITY \<longrightarrow>
         length (recent_submissions t) \<le> SUBMISSION_HISTORY_CAPACITY"
  | (rejected) why' t b where "submit r i l n why w = (Inl (Io_Error K_Other why'), on_tel (\<lambda>_. t) (on_prt (backend_update (\<lambda>_. b)) w))"
      "b = snd (backend_submit r i (backend (prt w)))"
      "committed_foreground t = committed_foreground (tel w)" "committed_ink t = committed_ink (tel w)"
      "committed_lock_epoch t = committed_lock_epoch (tel w)"
      "cancelled_lock_epoch t = cancelled_lock_epoch (tel w)"
      "last_presented t = last_presented (tel w)" "deferred t = deferred (tel w)"
      "length (recent_submissions (tel w)) \<le> SUBMISSION_HISTORY_CAPACITY \<longrightarrow>
         length (recent_submissions t) \<le> SUBMISSION_HISTORY_CAPACITY"
proof -
  let ?b = "backend (prt w)"
  let ?sig = "sampled_signature (b_pixels ?b) (b_stride ?b) r"
  show thesis
  proof (cases "fst (backend_submit r i ?b)")
    case (Inl e)
    then have e: "\<exists>why'. e = Io_Error K_Other why'"
      by (auto simp: backend_submit_def valid_marker_def split: if_splits)
    obtain b' where b': "backend_submit r i ?b = (Inl e, b')" using Inl by (cases "backend_submit r i ?b") auto
    define t where "t = push_submission (submission_of l n i why ?sig None False)
        (tel w\<lparr>failure_count := failure_count (tel w) + 1\<rparr>)"
    have "submit r i l n why w = (Inl e, on_tel (\<lambda>_. t) (on_prt (backend_update (\<lambda>_. b')) w))"
      by (simp add: submit_def Let_def b' t_def on_tel_def on_prt_def)
    moreover obtain why' where "e = Io_Error K_Other why'" using e by blast
    moreover have "length (recent_submissions (tel w)) \<le> SUBMISSION_HISTORY_CAPACITY \<longrightarrow>
         length (recent_submissions t) \<le> SUBMISSION_HISTORY_CAPACITY"
      unfolding t_def by (intro impI push_submission_bounded) simp
    ultimately show thesis
      by (intro that(2) [of why' t b']) (simp_all add: b', simp_all add: t_def)
  next
    case (Inr marker)
    then obtain b' where b': "backend_submit r i ?b = (Inr marker, b')" by (cases "backend_submit r i ?b") auto
    define t where "t = push_submission (submission_of l n i why ?sig (Some marker) True)
        ((if i = Full then mark_full_refresh (tel w) else tel w)
           \<lparr>submission_count := submission_count (tel w) + 1, last_marker := marker, visible_signature := ?sig\<rparr>)"
    have "submit r i l n why w = (Inr marker, on_tel (\<lambda>_. t) (on_prt (backend_update (\<lambda>_. b')) w))"
      by (simp add: submit_def Let_def b' t_def on_tel_def on_prt_def mark_full_refresh_def)
    moreover have "length (recent_submissions (tel w)) \<le> SUBMISSION_HISTORY_CAPACITY \<longrightarrow>
         length (recent_submissions t) \<le> SUBMISSION_HISTORY_CAPACITY"
      unfolding t_def by (intro impI push_submission_bounded) simp
    ultimately show thesis
      by (intro that(1) [of marker t b']) (simp_all add: b', simp_all add: t_def)
  qed
qed

lemma calmly_submit: "calmly (submit r i l n why)"
  unfolding calmly_def
proof (intro allI impI)
  fix w :: "'a panel_world_scheme"
  assume w: "calm w w"
  show "calm w (snd (submit r i l n why w))"
    by (cases rule: submit_result [of r i l n why w])
       (use w in \<open>auto intro!: calm_after_submit simp: calm_refl\<close>)
qed

lemma calmly_change:
  "(\<And>w. calm w w \<Longrightarrow> calm w (f w)) \<Longrightarrow> calmly (change f)"
  by (simp add: calmly_def change_def)

lemma calmly_option:
  "calmly m \<Longrightarrow> (\<And>x. calmly (k x)) \<Longrightarrow> calmly (case v of None \<Rightarrow> m | Some x \<Rightarrow> k x)"
  by (cases v) simp_all

lemma calmly_present: "calmly (present_surface lease r intent why)"
  unfolding present_surface_def
  by (intro calmly_sbind calmly_copy calmly_option calmly_const)
     (auto intro!: calmly_sbind calmly_submit calmly_change split: prod.split
       simp: calm_def mark_presented_def)

lemma calmly_draw: "length (case tool of Pen \<Rightarrow> [0, 0, 0, 0xff] | Eraser \<Rightarrow> [0xff, 0xff, 0xff, 0xff :: u8]) = 4"
  by (cases tool) simp_all

lemma calmly_draw_live: "calmly (draw_live_segment tool x0 y0 x1 y1 radius)"
  unfolding draw_live_segment_def
proof (rule calmly_reading_at, goal_cases)
  case (1 w)
  have len: "length bytes = length (b_pixels (backend (prt w)))"
    if "draw_line (b_pixels (backend (prt w))) st bw bh p0 p1 radius
        (case tool of Pen \<Rightarrow> [0, 0, 0, 0xff] | Eraser \<Rightarrow> [0xff, 0xff, 0xff, 0xff]) = (bytes, d)"
    for st bw bh p0 p1 bytes d
    using draw_line_length [OF calmly_draw [of tool], of "b_pixels (backend (prt w))" st bw bh p0 p1 radius]
    by (simp add: that)
  show ?case
    using 1 by (auto simp: action_defs Let_def calm_def dest: len split: option.splits prod.splits)
qed

lemma calmly_prt: "(\<And>p. p_foreground (f p) = p_foreground p \<and> p_lock (f p) = p_lock p \<and> p_ink (f p) = p_ink p
      \<and> p_surfaces (f p) = p_surfaces p \<and> backend (f p) = backend p) \<Longrightarrow> calmly (change (on_prt f))"
  by (rule calmly_change) (simp add: calm_def)

lemma calmly_begin_pen: "calmly (begin_pen f)"
  unfolding begin_pen_def by (intro calmly_reading calmly_seq calmly_draw_live calmly_prt) simp

lemma calmly_move_pen: "calmly (move_pen f)"
  unfolding move_pen_def Let_def by (intro calmly_reading calmly_seq calmly_draw_live calmly_prt) simp

lemma calmly_if: "calmly m \<Longrightarrow> calmly k \<Longrightarrow> calmly (if b then m else k)"
  by simp

lemmas calmly_rules = calmly_reading calmly_seq calmly_sbind calmly_const calmly_if calmly_option calmly_prt
  calmly_submit calmly_copy calmly_present calmly_draw_live

lemma calmly_flush_live: "calmly (flush_live now force)"
  unfolding flush_live_def Let_def by (intro calmly_rules) simp_all

lemma calmly_end_pen: "calmly (end_pen now)"
  unfolding end_pen_def by (intro calmly_rules calmly_flush_live) simp

lemma calmly_abort: "calmly (change (on_prt abort_ink))"
  by (rule calmly_prt) (simp add: abort_ink_def)

lemma calmly_handle_pen: "calmly (handle_pen now lease f)"
  unfolding handle_pen_def
  by (intro calmly_reading calmly_if calmly_const)
     (cases "pen_phase f"; simp add: calmly_begin_pen calmly_move_pen calmly_end_pen calmly_abort calmly_const)

lemma calmly_handle_damage: "calmly (handle_damage lease r intent)"
  unfolding handle_damage_def Let_def by (intro calmly_rules) simp

lemma calmly_sync: "calmly (sync_surface_buffer lease r)"
  unfolding sync_surface_buffer_def by (intro calmly_rules)

lemma calmly_settle: "calmly (settle now)"
  unfolding settle_def Let_def by (intro calmly_rules calmly_sync) simp_all

lemma calmly_flush_deadlines: "calmly (flush_deadlines now)"
  unfolding flush_deadlines_def by (intro calmly_rules calmly_flush_live calmly_settle)

lemma calmly_flush_deferred: "calmly flush_deferred_damage"
  unfolding flush_deferred_damage_def
proof (rule calmly_reading_at, goal_cases)
  case (1 w)
  have tel: "calm w (on_tel (\<lambda>_. discard_deferred_damage lease (tel w)) w)" for lease
    using 1 by (simp add: calm_def discard_deferred_damage_def)
  have "calm w (snd (handle_damage lease r i (on_tel (\<lambda>_. discard_deferred_damage lease (tel w)) w)))" for lease r i
    using calmly_handle_damage [of lease r i] calm_trans [OF tel] calm_self [OF tel]
    unfolding calmly_def by blast
  then show ?case
    using 1 tel by (auto simp: action_defs take_deferred_damage_def split: option.splits)
qed

lemma calmly_full_refresh: "calmly (panel_full_refresh lease)"
  unfolding panel_full_refresh_def by (intro calmly_rules)

lemma calmly_refresh_lock: "calmly (panel_refresh_lock lease e)"
  unfolding panel_refresh_lock_def Let_def
  by (intro calmly_rules calmly_change) (simp add: calm_def mark_presented_def)

section \<open>Nothing panics\<close>

definition world_ok :: "'z panel_world_scheme \<Rightarrow> bool" where
  "world_ok w =
     (backend_ok (backend (prt w)) \<and> list_all surface_ok (cells w)
      \<and> length (recent_submissions (tel w)) \<le> SUBMISSION_HISTORY_CAPACITY)"

lemma calm_ok: "calm w w' \<Longrightarrow> world_ok w \<Longrightarrow> world_ok w'"
  by (simp add: calm_def world_ok_def backend_ok_def)

lemma world_ok_calm: "world_ok w \<Longrightarrow> calm w w"
  by (simp add: world_ok_def calm_refl)

definition survives :: "('z, 'a) panel_action \<Rightarrow> bool" where
  "survives m = (calmly m \<and> (\<forall>w. world_ok w \<longrightarrow> fst (m w) \<noteq> Inl Panicked))"

lemma survives_sbind: "survives m \<Longrightarrow> (\<And>x. survives (k x)) \<Longrightarrow> survives (sbind m k)"
  unfolding survives_def
proof (intro conjI allI impI)
  assume m: "calmly m \<and> (\<forall>w. world_ok w \<longrightarrow> fst (m w) \<noteq> Inl Panicked)"
    and k: "\<And>x. calmly (k x) \<and> (\<forall>w. world_ok w \<longrightarrow> fst (k x w) \<noteq> Inl Panicked)"
  show "calmly (sbind m k)" using m k by (intro calmly_sbind) simp_all
  fix w :: "'a panel_world_scheme"
  assume w: "world_ok w"
  obtain r w1 where r: "m w = (r, w1)" by fastforce
  have cm: "calmly m" using m by simp
  have "calm w w1" by (rule calmlyD [OF cm world_ok_calm [OF w] r])
  then have "world_ok w1" using w by (rule calm_ok)
  then show "fst (sbind m k w) \<noteq> Inl Panicked"
    using m k w r by (cases r) (auto simp: sbind_def dest: spec [of _ w])
qed

lemma survives_seq: "survives m \<Longrightarrow> survives k \<Longrightarrow> survives (seq m k)"
  unfolding seq_def by (rule survives_sbind)

lemma survives_reading: "(\<And>w. survives (f w)) \<Longrightarrow> survives (reading f)"
  by (auto simp: survives_def reading_def calmly_def)

lemma survives_const: "survives (ret x)" "survives (fail kd t)"
  by (simp_all add: survives_def calmly_const) (simp_all add: action_defs)

lemma survives_change: "calmly (change f) \<Longrightarrow> survives (change f)"
  by (simp add: survives_def action_defs)

lemma survives_if: "survives m \<Longrightarrow> survives k \<Longrightarrow> survives (if b then m else k)"
  by simp

lemma survives_option:
  "survives m \<Longrightarrow> (\<And>x. survives (k x)) \<Longrightarrow> survives (case v of None \<Rightarrow> m | Some x \<Rightarrow> k x)"
  by (cases v) simp_all

lemma survives_submit: "survives (submit r i l n why)"
  unfolding survives_def
proof (intro conjI allI impI)
  fix w :: "'a panel_world_scheme"
  show "fst (submit r i l n why w) \<noteq> Inl Panicked"
    by (cases rule: submit_result [of r i l n why w]) simp_all
qed (rule calmly_submit)

lemma panel_surface_ok: "world_ok w \<Longrightarrow> panel_surface key w = Some s \<Longrightarrow> surface_ok s"
  by (auto simp: panel_surface_def cell_at_def world_ok_def list_all_length bind_eq_Some_conv split: if_splits)

lemma panel_geometry:
  "world_ok w \<Longrightarrow> panel_surface key w = Some s \<Longrightarrow>
     \<exists>g. geometry_new (surf_width s) (surf_height s) (b_width (backend (prt w))) (b_height (backend (prt w))) = Some g"
  using panel_surface_ok [of w key s]
  by (auto simp: world_ok_def backend_ok_def surface_ok_def geometry_new_def)

lemma copy_damage_survives: "survives (copy_damage lease r)"
  unfolding survives_def
proof (intro conjI allI impI)
  fix w :: "'a panel_world_scheme"
  assume w: "world_ok w"
  let ?b = "backend (prt w)"
  show "fst (copy_damage lease r w) \<noteq> Inl Panicked"
  proof (cases "panel_surface (lease_key lease) w")
    case None
    then show ?thesis by (simp add: copy_damage_def action_defs)
  next
    case (Some s)
    have s: "surface_ok s" using panel_surface_ok [OF w Some] .
    obtain g where g: "geometry_new (surf_width s) (surf_height s) (b_width ?b) (b_height ?b) = Some g"
      using panel_geometry [OF w Some] by blast
    have "0 \<le> sint (surf_width s)" "0 \<le> sint (surf_height s)" using s by (simp_all add: surface_ok_def)
    then obtain c where c: "rect_clip r (surf_width s) (surf_height s) = Some c"
      using rect_clip_exists by blast
    obtain q where q: "logical_to_physical_rect g c = Some q"
      using logical_to_physical_exact [OF g] by blast
    have "nat (sint (b_width ?b)) * 4 \<le> b_stride ?b"
      "length (b_pixels ?b) = b_stride ?b * nat (sint (b_height ?b))"
      using w by (auto simp: world_ok_def backend_ok_def)
    from copy_rect_pixels [OF s g q this] obtain bytes where
      "copy_surface_rect s (b_pixels ?b) (b_stride ?b) g q = Some bytes" by blast
    then show ?thesis using Some g c q by (simp add: copy_damage_def action_defs Let_def)
  qed
qed (rule calmly_copy)

lemma survives_present: "survives (present_surface lease r intent why)"
  unfolding present_surface_def
  by (intro survives_sbind copy_damage_survives survives_option survives_const)
     (auto intro!: survives_sbind survives_submit survives_change calmly_change split: prod.split
       simp: calm_def mark_presented_def)

lemma survives_draw_live: "survives (draw_live_segment tool x0 y0 x1 y1 radius)"
  unfolding survives_def
proof (intro conjI allI impI)
  fix w :: "'a panel_world_scheme"
  assume w: "world_ok w"
  let ?b = "backend (prt w)"
  let ?key = "lease_key (ink_of (p_ink (prt w)))"
  show "fst (draw_live_segment tool x0 y0 x1 y1 radius w) \<noteq> Inl Panicked"
  proof (cases "panel_surface ?key w")
    case None
    then show ?thesis by (simp add: draw_live_segment_def action_defs Let_def)
  next
    case (Some s)
    obtain g where g: "geometry_new (surf_width s) (surf_height s) (b_width ?b) (b_height ?b) = Some g"
      using panel_geometry [OF w Some] by blast
    then have pos: "0 < sint (physical_width g)" "0 < sint (physical_height g)"
      unfolding geometry_new_iff geometry_ok_def by auto
    have pt: "\<exists>p. logical_to_physical_point g x y = Some p" for x y
      using scale_point_total [OF pos(1), of x "logical_width g"] scale_point_total [OF pos(2), of y "logical_height g"]
      by (auto simp: logical_to_physical_point_def both_def)
    obtain p0 p1 where p: "logical_to_physical_point g x0 y0 = Some p0"
        "logical_to_physical_point g x1 y1 = Some p1"
      using pt by blast
    have "0 \<le> sint (b_width ?b)" "0 \<le> sint (b_height ?b)"
      using w by (simp_all add: world_ok_def backend_ok_def)
    then have clip: "\<exists>d. snd (draw_line (b_pixels ?b) (b_stride ?b) (b_width ?b) (b_height ?b) p0 p1 radius c) = Some d"
      for c using rect_clip_exists by (simp add: draw_line_def Let_def)
    obtain bytes d where "draw_line (b_pixels ?b) (b_stride ?b) (b_width ?b) (b_height ?b) p0 p1 radius
        (case tool of Pen \<Rightarrow> [0, 0, 0, 0xff] | Eraser \<Rightarrow> [0xff, 0xff, 0xff, 0xff]) = (bytes, Some d)"
      using clip [of "case tool of Pen \<Rightarrow> [0, 0, 0, 0xff] | Eraser \<Rightarrow> [0xff, 0xff, 0xff, 0xff]"]
      by (metis prod.collapse)
    then show ?thesis
      using Some g p by (simp add: draw_live_segment_def action_defs Let_def)
  qed
qed (rule calmly_draw_live)

lemmas survives_rules = survives_reading survives_seq survives_sbind survives_const survives_if
  survives_option survives_submit survives_present survives_draw_live copy_damage_survives

lemma flush_live_survives: "survives (flush_live now force)"
  unfolding survives_def
proof (intro conjI allI impI)
  fix w :: "'a panel_world_scheme"
  assume w: "world_ok w"
  let ?p = "prt w"
  show "fst (flush_live now force w) \<noteq> Inl Panicked"
  proof (cases "rect_is_empty (p_live_dirty ?p) \<or> (\<not> force \<and> now - p_last_live_submit ?p < LIVE_SWAP_INTERVAL)")
    case True
    then show ?thesis by (simp add: flush_live_def action_defs Let_def)
  next
    case False
    have "0 \<le> sint (b_width (backend ?p))" "0 \<le> sint (b_height (backend ?p))"
      using w by (simp_all add: world_ok_def backend_ok_def)
    then obtain d where d: "rect_clip (p_live_dirty ?p) (b_width (backend ?p)) (b_height (backend ?p)) = Some d"
      using rect_clip_exists by blast
    let ?rest = "seq (change (on_prt (p_live_dirty_update (\<lambda>_. rect_default))))
         (if rect_is_empty d then ret ()
          else sbind (submit d Ink (ink_of (p_ink ?p)) (surface_commits (lease_key (ink_of (p_ink ?p))) w) LiveInk)
                 (\<lambda>_. change (on_prt (p_last_live_submit_update (\<lambda>_. now)))))"
    have "survives ?rest"
      by (intro survives_rules survives_change calmly_prt) simp_all
    then have "fst (?rest w) \<noteq> Inl Panicked" using w unfolding survives_def by blast
    moreover have "flush_live now force w = ?rest w"
      unfolding flush_live_def reading_def Let_def if_not_P [OF False] d by simp
    ultimately show ?thesis by simp
  qed
qed (rule calmly_flush_live)

lemma pen_survives: "survives (handle_pen now lease f)"
proof -
  have b: "survives (begin_pen f)"
    unfolding begin_pen_def by (intro survives_rules survives_change calmly_prt) simp
  have m: "survives (move_pen f)"
    unfolding move_pen_def Let_def by (intro survives_rules survives_change calmly_prt) simp
  have e: "survives (end_pen now)"
    unfolding end_pen_def by (intro survives_rules survives_change calmly_prt flush_live_survives) simp
  show ?thesis
    unfolding handle_pen_def
    by (intro survives_reading survives_if survives_const)
       (cases "pen_phase f"; simp add: b m e survives_const survives_change calmly_abort)
qed

lemma handle_damage_survives: "survives (handle_damage lease r intent)"
  unfolding handle_damage_def Let_def by (intro survives_rules survives_change calmly_prt) simp

lemma full_refresh_survives: "survives (panel_full_refresh lease)"
  unfolding panel_full_refresh_def by (intro survives_rules)

lemma refresh_lock_survives: "survives (panel_refresh_lock lease e)"
  unfolding panel_refresh_lock_def Let_def
  by (intro survives_rules survives_change calmly_change) (simp add: calm_def mark_presented_def)

lemma settle_survives: "survives (settle now)"
  unfolding settle_def Let_def sync_surface_buffer_def
  by (intro survives_rules survives_change calmly_prt) simp_all

lemma flush_deferred_survives: "survives flush_deferred_damage"
  unfolding survives_def
proof (intro conjI allI impI)
  fix w :: "'a panel_world_scheme"
  assume w: "world_ok w"
  have "world_ok (on_tel (\<lambda>_. discard_deferred_damage lease (tel w)) w)" for lease
    using w by (simp add: world_ok_def discard_deferred_damage_def)
  then have "fst (handle_damage lease r i (on_tel (\<lambda>_. discard_deferred_damage lease (tel w)) w)) \<noteq> Inl Panicked"
    for lease r i using handle_damage_survives [of lease r i] unfolding survives_def by blast
  then show "fst (flush_deferred_damage w) \<noteq> Inl Panicked"
    by (auto simp: flush_deferred_damage_def action_defs take_deferred_damage_def split: option.splits)
qed (rule calmly_flush_deferred)

section \<open>The invariant\<close>

text \<open>The foreground and the lock that the telemetry publishes are those the worker holds, and direct
  ink is enabled for the lease on screen only, and then published as such.\<close>

definition published :: "'z panel_world_scheme \<Rightarrow> bool" where
  "published w =
     (committed_foreground (tel w) = p_foreground (prt w)
      \<and> committed_lock_epoch (tel w) = (case p_lock (prt w) of None \<Rightarrow> 0 | Some l \<Rightarrow> plock_epoch l)
      \<and> (ink_enabled (p_ink (prt w)) \<longrightarrow>
           p_foreground (prt w) = Some (ink_of (p_ink (prt w)))
           \<and> committed_ink (tel w) = Some (ink_of (p_ink (prt w)), True)))"

definition panel_inv :: "'z panel_world_scheme \<Rightarrow> bool" where
  "panel_inv w = (world_ok w \<and> published w)"

lemma calm_inv: "calm w w' \<Longrightarrow> panel_inv w \<Longrightarrow> panel_inv w'"
  using calm_ok [of w w'] by (simp add: panel_inv_def published_def calm_def)

text \<open>An action is sound when it keeps the invariant and does not panic.\<close>

definition sound :: "('z, 'a) panel_action \<Rightarrow> bool" where
  "sound m = (\<forall>w. panel_inv w \<longrightarrow> panel_inv (snd (m w)) \<and> fst (m w) \<noteq> Inl Panicked)"

lemma soundD: "sound m \<Longrightarrow> panel_inv w \<Longrightarrow> m w = (r, w') \<Longrightarrow> panel_inv w' \<and> r \<noteq> Inl Panicked"
  unfolding sound_def by (metis fst_conv snd_conv)

lemma sound_at: "sound m \<Longrightarrow> panel_inv w \<Longrightarrow> panel_inv (snd (m w)) \<and> fst (m w) \<noteq> Inl Panicked"
  by (simp add: sound_def)

lemma survives_sound: "survives m \<Longrightarrow> sound m"
  using calm_inv world_ok_calm unfolding sound_def survives_def calmly_def panel_inv_def by blast

lemma sound_sbind: "sound m \<Longrightarrow> (\<And>x. sound (k x)) \<Longrightarrow> sound (sbind m k)"
  unfolding sound_def
proof (intro allI impI)
  fix w :: "'a panel_world_scheme"
  assume m: "\<forall>w. panel_inv w \<longrightarrow> panel_inv (snd (m w)) \<and> fst (m w) \<noteq> Inl Panicked"
    and k: "\<And>x. \<forall>w. panel_inv w \<longrightarrow> panel_inv (snd (k x w)) \<and> fst (k x w) \<noteq> Inl Panicked"
    and w: "panel_inv w"
  obtain r w1 where r: "m w = (r, w1)" by fastforce
  have "panel_inv w1" "r \<noteq> Inl Panicked" using m w r by (metis fst_conv snd_conv)+
  then show "panel_inv (snd (sbind m k w)) \<and> fst (sbind m k w) \<noteq> Inl Panicked"
    using k r by (cases r) (auto simp: sbind_def)
qed

lemma sound_seq: "sound m \<Longrightarrow> sound k \<Longrightarrow> sound (seq m k)"
  unfolding seq_def by (rule sound_sbind)

lemma sound_change: "(\<And>w. panel_inv w \<Longrightarrow> panel_inv (f w)) \<Longrightarrow> sound (change f)"
  by (simp add: sound_def change_def)

lemma inv_clear:
  assumes "panel_inv w"
  shows "panel_inv (clear_foreground_unchecked w)"
  using assms
  by (auto simp: clear_foreground_unchecked_def panel_inv_def world_ok_def published_def Let_def
      abort_ink_def ink_default_def clear_committed_foreground_def discard_deferred_damage_def
      split: option.splits)

lemma sound_clear: "sound (change (panel_clear_foreground lease))"
  by (rule sound_change) (simp add: panel_clear_foreground_def inv_clear)

lemma sound_drop: "sound (change (drop_surface key))"
proof (rule sound_change)
  fix w :: "'a panel_world_scheme"
  assume "panel_inv w"
  then have "panel_inv (on_tel (discard_deferred_damage_for_key key)
      (on_prt (p_surfaces_update (\<lambda>m. m(key := None))) w))"
    by (simp add: panel_inv_def world_ok_def published_def discard_deferred_damage_for_key_def)
  then show "panel_inv (drop_surface key w)"
    by (auto simp: drop_surface_def Let_def inv_clear simp del: on_sel split: option.split)
qed

text \<open>A foreground transition: install, present, and publish or undo.\<close>

lemma install_ok: "world_ok w \<Longrightarrow> world_ok (install_foreground lease ink w)"
  by (auto simp: install_foreground_def world_ok_def Let_def abort_ink_def discard_deferred_damage_def
      split: option.splits)

lemma install_sel:
  "p_foreground (prt (install_foreground lease ink w)) = Some lease"
  "p_ink (prt (install_foreground lease ink w)) = ink"
  "p_lock (prt (install_foreground lease ink w)) = p_lock (prt w)"
  "committed_foreground (tel (install_foreground lease ink w)) = committed_foreground (tel w)"
  "committed_ink (tel (install_foreground lease ink w)) = committed_ink (tel w)"
  "committed_lock_epoch (tel (install_foreground lease ink w)) = committed_lock_epoch (tel w)"
  by (auto simp: install_foreground_def Let_def abort_ink_def discard_deferred_damage_def split: option.splits)

lemma presented:
  assumes w: "world_ok w" and p: "present_surface lease r intent why (install_foreground lease ink w) = (res, w1)"
  shows "world_ok w1" "res \<noteq> Inl Panicked" "calm (install_foreground lease ink w) w1"
    "p_foreground (prt w1) = Some lease" "p_ink (prt w1) = ink" "p_lock (prt w1) = p_lock (prt w)"
    "committed_foreground (tel w1) = committed_foreground (tel w)"
    "committed_ink (tel w1) = committed_ink (tel w)"
    "committed_lock_epoch (tel w1) = committed_lock_epoch (tel w)"
proof -
  let ?w0 = "install_foreground lease ink w"
  have w0: "world_ok ?w0" using install_ok [OF w] .
  show calm: "calm ?w0 w1" by (rule calmlyD [OF calmly_present world_ok_calm [OF w0] p])
  show "world_ok w1" by (rule calm_ok [OF calm w0])
  show "res \<noteq> Inl Panicked"
    using survives_present [of lease r intent why] w0 p unfolding survives_def by (metis fst_conv)
  show "p_foreground (prt w1) = Some lease" "p_ink (prt w1) = ink" "p_lock (prt w1) = p_lock (prt w)"
    "committed_foreground (tel w1) = committed_foreground (tel w)"
    "committed_ink (tel w1) = committed_ink (tel w)"
    "committed_lock_epoch (tel w1) = committed_lock_epoch (tel w)"
    using calm by (simp_all add: calm_def install_sel)
qed

text \<open>Both transitions are instances of one action.\<close>

definition transition ::
    "panel_lease \<Rightarrow> ink_lease \<Rightarrow> rect \<Rightarrow> refresh_intent \<Rightarrow> submission_reason
      \<Rightarrow> (panel_runtime \<Rightarrow> panel_runtime) \<Rightarrow> (telemetry \<Rightarrow> telemetry) \<Rightarrow> ('z, unit) panel_action" where
  "transition lease ink r intent why undo publish =
     seq (change (install_foreground lease ink))
    (seq (or_undo (present_surface lease r intent why) (on_prt undo)) (change (on_tel publish)))"

lemma transition_run:
  assumes "present_surface lease r intent why (install_foreground lease ink w) = (res, w1)"
  shows "transition lease ink r intent why undo publish w =
    (case res of Inl e \<Rightarrow> (Inl e, on_prt undo w1) | Inr _ \<Rightarrow> (Inr (), on_tel publish w1))"
  using assms by (cases res) (simp_all add: transition_def seq_def sbind_def change_def or_undo_def)

lemma transition_inv:
  assumes inv: "panel_inv w"
    and undo: "\<And>p. p_foreground (undo p) = p_foreground (prt w) \<and> p_lock (undo p) = p_lock p
      \<and> (p_ink p = ink \<longrightarrow> \<not> ink_enabled (p_ink (undo p))) \<and> backend (undo p) = backend p"
    and publish: "\<And>t. committed_foreground (publish t) = Some lease \<and> committed_lock_epoch (publish t) = committed_lock_epoch t
      \<and> committed_ink (publish t) = Some (lease, ink_enabled ink) \<and> recent_submissions (publish t) = recent_submissions t"
    and ink: "ink_enabled ink \<longrightarrow> ink_of ink = lease"
  shows "panel_inv (snd (transition lease ink r intent why undo publish w))
    \<and> fst (transition lease ink r intent why undo publish w) \<noteq> Inl Panicked"
proof -
  obtain res w1 where p: "present_surface lease r intent why (install_foreground lease ink w) = (res, w1)"
    by fastforce
  have w: "world_ok w" and pub: "published w" using inv by (simp_all add: panel_inv_def)
  note f = presented [OF w p]
  have "panel_inv (on_prt undo w1)"
    using f undo [of "prt w1"] pub by (simp add: panel_inv_def world_ok_def published_def)
  moreover have "panel_inv (on_tel publish w1)"
    using f publish [of "tel w1"] pub ink by (simp add: panel_inv_def world_ok_def published_def)
  ultimately show ?thesis
    using f(2) by (cases res) (simp_all add: transition_run [OF p])
qed

lemma sound_set_foreground_with: "sound (set_foreground_with lease intent why)"
  unfolding sound_def
proof (intro allI impI)
  fix w :: "'a panel_world_scheme"
  assume inv: "panel_inv w"
  show "panel_inv (snd (set_foreground_with lease intent why w))
      \<and> fst (set_foreground_with lease intent why w) \<noteq> Inl Panicked"
  proof (cases "panel_surface (lease_key lease) w")
    case None
    then show ?thesis using inv by (simp add: set_foreground_with_def reading_def fail_def)
  next
    case (Some s)
    have "set_foreground_with lease intent why w =
        transition lease ink_default (surface_full_rect s) intent why
          (p_foreground_update (\<lambda>_. p_foreground (prt w)))
          (\<lambda>t. commit_ink lease False (commit_foreground lease t)) w"
      by (simp add: set_foreground_with_def reading_def Some transition_def)
    then show ?thesis
      using transition_inv [OF inv, of "p_foreground_update (\<lambda>_. p_foreground (prt w))" ink_default
          "\<lambda>t. commit_ink lease False (commit_foreground lease t)" lease]
      by (simp add: ink_default_def commit_ink_def commit_foreground_def)
  qed
qed

lemma sound_activate: "sound (panel_activate_foreground lease enabled full)"
  unfolding sound_def
proof (intro allI impI)
  fix w :: "'a panel_world_scheme"
  assume inv: "panel_inv w"
  let ?ink = "\<lparr>ink_of = lease, ink_enabled = enabled, ink_region = None\<rparr>"
  show "panel_inv (snd (panel_activate_foreground lease enabled full w))
      \<and> fst (panel_activate_foreground lease enabled full w) \<noteq> Inl Panicked"
  proof (cases "panel_surface (lease_key lease) w")
    case None
    then show ?thesis using inv by (simp add: panel_activate_foreground_def reading_def fail_def)
  next
    case (Some s)
    have "panel_activate_foreground lease enabled full w =
        transition lease ?ink (surface_full_rect s) (foreground_intent s full) ForegroundSwitch
          (\<lambda>p. p\<lparr>p_foreground := p_foreground (prt w), p_ink := ink_default\<rparr>)
          (\<lambda>t. commit_foreground lease (commit_ink lease enabled t)) w"
      by (simp add: panel_activate_foreground_def reading_def Some transition_def)
    then show ?thesis
      using transition_inv [OF inv, of "\<lambda>p. p\<lparr>p_foreground := p_foreground (prt w), p_ink := ink_default\<rparr>" ?ink
          "\<lambda>t. commit_foreground lease (commit_ink lease enabled t)" lease]
      by (simp add: ink_default_def commit_ink_def commit_foreground_def)
  qed
qed

lemma sound_reading: "(\<And>w. sound (f w)) \<Longrightarrow> sound (reading f)"
  by (simp add: sound_def reading_def)

lemma sound_const: "sound (ret x)" "sound (fail kd t)"
  by (simp_all add: sound_def action_defs)

lemma sound_option:
  "sound m \<Longrightarrow> (\<And>x. sound (k x)) \<Longrightarrow> sound (case v of None \<Rightarrow> m | Some x \<Rightarrow> k x)"
  by (cases v) simp_all

lemma sound_set_foreground: "sound (panel_set_foreground lease full)"
  unfolding panel_set_foreground_def
  by (intro sound_reading sound_option sound_const sound_set_foreground_with)

lemma sound_configure_ink: "sound (panel_configure_ink lease enabled region)"
  by (auto simp: sound_def panel_configure_ink_def action_defs panel_inv_def world_ok_def
      published_def abort_ink_def commit_ink_def)

lemma sound_commit_lock:
  "sound (seq (change (on_prt (p_lock_update (\<lambda>_. Some
        \<lparr>plock_epoch = e, plock_lease = lease, plock_frozen = n\<rparr>)))) (change (on_tel (commit_lock e))))"
  by (simp add: sound_def action_defs panel_inv_def world_ok_def published_def commit_lock_def)

lemma sound_show_lock: "sound (panel_show_lock lease e)"
  unfolding panel_show_lock_def
  by (intro sound_seq sound_set_foreground_with sound_reading sound_option sound_const)
     (simp add: sound_const sound_commit_lock split: prod.split)

text \<open>Undoing the copy of a rejected unlock puts the frozen pixels back.\<close>

lemma unlock_run:
  assumes inv: "panel_inv w"
    and p: "present_surface lease r Full UnlockScreen w = (res, w1)"
  defines "undo \<equiv> on_prt (backend_update (b_pixels_update (\<lambda>_. b_pixels (backend (prt w)))))"
  shows "panel_inv w1" "res \<noteq> Inl Panicked" "panel_inv (undo w1)" "p_lock (prt w1) = p_lock (prt w)"
proof -
  have ok: "world_ok w" using inv by (simp add: panel_inv_def)
  have calm: "calm w w1" by (rule calmlyD [OF calmly_present world_ok_calm [OF ok] p])
  show "panel_inv w1" by (rule calm_inv [OF calm inv])
  show "res \<noteq> Inl Panicked"
    using survives_present [of lease r Full UnlockScreen] ok p unfolding survives_def by (metis fst_conv)
  have "calm w (undo w1)" using calm by (simp add: undo_def calm_def)
  then show "panel_inv (undo w1)" using inv by (rule calm_inv)
  show "p_lock (prt w1) = p_lock (prt w)" using calm by (simp add: calm_def)
qed

lemma sound_cancel_lock: "sound (panel_cancel_lock lease e replacement)"
  unfolding sound_def
proof (intro allI impI)
  fix w :: "'a panel_world_scheme"
  assume inv: "panel_inv w"
  let ?r = "panel_cancel_lock lease e replacement w"
  show "panel_inv (snd ?r) \<and> fst ?r \<noteq> Inl Panicked"
  proof (cases "lock_matches lease e w \<and> (\<exists>s. panel_surface (lease_key lease) w = Some s
      \<and> \<not> (replacement = 0 \<or> surf_commits s < replacement))")
    case False
    then show ?thesis
      using inv by (auto simp: panel_cancel_lock_def reading_def fail_def split: option.split)
  next
    case True
    then obtain s where s: "panel_surface (lease_key lease) w = Some s" and m: "lock_matches lease e w"
      and n: "\<not> (replacement = 0 \<or> surf_commits s < replacement)" by blast
    obtain res w1 where p: "present_surface lease (surface_full_rect s) Full UnlockScreen w = (res, w1)"
      by fastforce
    note f = unlock_run [OF inv p]
    have lock: "committed_lock_epoch (tel w1) = e"
      using f(1,4) m by (auto simp: panel_inv_def published_def lock_matches_def split: option.splits)
    have "panel_inv (on_tel (\<lambda>t. record_lock_cancelled e (clear_committed_lock e t))
        (on_prt (p_lock_update (\<lambda>_. None)) w1))"
      using f(1) lock by (simp add: panel_inv_def published_def world_ok_def record_lock_cancelled_def
          clear_committed_lock_def)
    then show ?thesis
      using f(2,3) by (cases res) (simp_all add: panel_cancel_lock_def reading_def m s n seq_def sbind_def
          change_def or_undo_def p)
  qed
qed

lemma sound_register:
  assumes "a < length (cells w)" "panel_inv w"
  shows "panel_inv (snd (handle now (RegisterSurface a) w)) \<and> fst (handle now (RegisterSurface a) w) \<noteq> Inl Panicked"
  using assms by (simp add: action_defs cell_at_def panel_inv_def published_def world_ok_def)

text \<open>The commands that the channel may carry: \<open>Shutdown\<close> is handled by the loop, and a registered
  surface exists.\<close>

definition command_ok :: "'z panel_world_scheme \<Rightarrow> panel_command \<Rightarrow> bool" where
  "command_ok w command =
     (command \<noteq> Shutdown \<and> (\<forall>a. command = RegisterSurface a \<longrightarrow> a < length (cells w)))"

lemma sound_handle:
  "command \<noteq> Shutdown \<Longrightarrow> \<nexists>a. command = RegisterSurface a \<Longrightarrow> sound (handle now command)"
  by (cases command; simp add: sound_drop sound_clear sound_set_foreground sound_activate
        sound_configure_ink sound_show_lock sound_cancel_lock survives_sound
        handle_damage_survives pen_survives full_refresh_survives refresh_lock_survives)

lemma handle_inv:
  assumes "panel_inv w" "command_ok w command"
  shows "panel_inv (snd (handle now command w)) \<and> fst (handle now command w) \<noteq> Inl Panicked"
proof (cases "\<exists>a. command = RegisterSurface a")
  case True
  then obtain a where a: "command = RegisterSurface a" "a < length (cells w)"
    using assms(2) by (auto simp: command_ok_def)
  show ?thesis unfolding a(1) by (rule sound_register [OF a(2) assms(1)])
next
  case False
  then show ?thesis
    using assms(2) by (intro sound_at [OF sound_handle assms(1)]) (auto simp: command_ok_def)
qed

lemma seq_change [simp]: "seq (change f) k w = k (f w)"
  by (simp add: seq_def sbind_def change_def)

lemma sound_flush: "sound (seq flush_deferred_damage (seq (flush_deadlines now) (ret True)))"
  unfolding flush_deadlines_def
  by (intro sound_seq sound_const survives_sound flush_deferred_survives flush_live_survives settle_survives)

lemma round_inv:
  assumes inv: "panel_inv w" and ok: "\<And>c. received = Some c \<Longrightarrow> c = Shutdown \<or> command_ok w c"
  shows "panel_inv (snd (panel_round now received w)) \<and> fst (panel_round now received w) \<noteq> Inl Panicked"
proof (cases received)
  case None
  then show ?thesis using sound_at [OF sound_flush inv] by (simp add: panel_round_def)
next
  case (Some c)
  let ?w = "on_tel command_dequeued w"
  have w: "panel_inv ?w"
    using inv by (simp add: panel_inv_def world_ok_def published_def command_dequeued_def)
  show ?thesis
  proof (cases "c = Shutdown")
    case True
    then show ?thesis using w Some by (simp add: panel_round_def action_defs)
  next
    case False
    then have "command_ok ?w c" using ok [OF Some] by (simp add: command_ok_def)
    then have h: "panel_inv (snd (handle now c ?w))" "fst (handle now c ?w) \<noteq> Inl Panicked"
      using handle_inv [OF w] by blast+
    obtain r w1 where r: "handle now c ?w = (r, w1)" by fastforce
    have "panel_inv (snd (seq flush_deferred_damage (seq (flush_deadlines now) (ret True)) w1))
        \<and> fst (seq flush_deferred_damage (seq (flush_deadlines now) (ret True)) w1) \<noteq> Inl Panicked"
      using h r by (intro sound_at [OF sound_flush]) simp
    then show ?thesis
      using False Some h r
      by (cases r) (simp_all add: panel_round_def Let_def)
  qed
qed

text \<open>C23: a round of the panel worker never panics, whatever command it serves and whatever the
  hardware answers, and afterwards the foreground and the lock epoch it publishes are those it holds
  and direct ink is enabled for nothing but the published lease.\<close>

theorem panel_round_keeps_the_invariant:
  assumes "world_ok w" "published w"
    and "\<And>c. received = Some c \<Longrightarrow> c = Shutdown \<or> command_ok w c"
  shows "world_ok (snd (panel_round now received w)) \<and> published (snd (panel_round now received w))
    \<and> fst (panel_round now received w) \<noteq> Inl Panicked"
proof -
  have "panel_inv w" using assms(1,2) by (simp add: panel_inv_def)
  from round_inv [OF this assms(3)] show ?thesis by (simp add: panel_inv_def)
qed

definition demo_world :: panel_world where
  "demo_world =
     (case memory_backend 3 2 of Inr b \<Rightarrow>
        \<lparr>tel = telemetry_default, cells = [demo_surface], prt = panel_new b 0\<rparr>)"

lemma panel_round_keeps_the_invariant_witness:
  "world_ok (snd (panel_round 5 (Some (RegisterSurface 0)) demo_world))
    \<and> published (snd (panel_round 5 (Some (RegisterSurface 0)) demo_world))
    \<and> fst (panel_round 5 (Some (RegisterSurface 0)) demo_world) \<noteq> Inl Panicked"
proof (rule panel_round_keeps_the_invariant)
  show "world_ok demo_world" by code_simp
  show "published demo_world" by code_simp
  show "c = Shutdown \<or> command_ok demo_world c" if "Some (RegisterSurface 0) = Some c" for c
  proof -
    have "length (cells demo_world) = 1" by code_simp
    then show ?thesis using that by (auto simp: command_ok_def)
  qed
qed

end
