(* ===== verification/Display_Host.thy ===== *)
theory Display_Host
  imports Panel_Safety
begin

text \<open>
  The display host (\<open>native/remagic-display-host/src/qtfb/state.rs\<close>, \<open>qtfb/surfaces.rs\<close>,
  \<open>surfaces/registration.rs\<close>, \<open>surfaces/lock.rs\<close>, \<open>qtfb/input.rs\<close>, \<open>qtfb/server.rs\<close>,
  \<open>control.rs\<close>): who may draw, who is in the foreground, whether the display is locked, and where
  input goes. The record \<open>display\<close> extends the panel's world with the fields of \<open>HostState\<close> and
  the channel to the panel worker. Every method that takes the mutex \<open>foreground_ops\<close> is one
  action; the two methods that hold it while they wait for the panel are split in two, the first
  half leaving its wait in \<open>h_pending\<close>. The order of a \<open>HashSet\<close> is that of the list modelling it.
\<close>

section \<open>State\<close>

record client_sink =
  sink_id :: int
  sink_queue :: nat

record surface_entry =
  entry_cell :: nat
  entry_clients :: "client_sink list"

record foreground_lease =
  fg_key :: i32
  fg_generation :: u64
  fg_epoch :: u64
  fg_ink :: bool

record lock_lease =
  lock_sleep_epoch :: u64
  lock_foreground :: foreground_lease

datatype pending =
    No_Wait
  | Wait_Ink panel_lease bool
  | Wait_Cancel lock_lease

record display = panel_world +
  h_surfaces :: "i32 \<Rightarrow> surface_entry option"
  h_queues :: "input_queue list"
  h_foreground :: "foreground_lease option"
  h_prepared :: "foreground_lease option"
  h_lock :: "lock_lease option"
  h_active_touches :: "i32 list"
  h_suppressed_touches :: "i32 list"
  h_active_pen :: "(panel_lease \<times> pen_frame) option"
  h_suppressed_pen :: bool
  h_input_epoch :: u64
  h_pending :: pending
  h_fences :: "i32 \<Rightarrow> (u64 \<times> u64) option"
  h_channel :: "panel_command list"
  h_capacity :: nat
  h_receiver_gone :: bool
  h_next_shm :: u32
  h_width :: i32
  h_height :: i32
  h_stride :: nat
  h_shutdown :: bool
  h_backpressure :: u64
  h_last_sleep :: u64
  h_last_cancelled :: u64
  h_injected :: u64

type_synonym 'a host_action = "(display, 'a) action"

definition panel_lease_of :: "foreground_lease \<Rightarrow> panel_lease" where
  "panel_lease_of f = \<lparr>lease_key = fg_key f, lease_generation = fg_generation f, lease_epoch = fg_epoch f\<rparr>"

definition host_new :: "panel_world \<Rightarrow> nat \<Rightarrow> i32 \<Rightarrow> i32 \<Rightarrow> nat \<Rightarrow> display" where
  "host_new w capacity width height stride = panel_world.extend w
     \<lparr>h_surfaces = Map.empty, h_queues = [], h_foreground = None, h_prepared = None, h_lock = None,
      h_active_touches = [], h_suppressed_touches = [], h_active_pen = None,
      h_suppressed_pen = False, h_input_epoch = 1, h_pending = No_Wait, h_fences = Map.empty,
      h_channel = [], h_capacity = capacity, h_receiver_gone = False, h_next_shm = 1,
      h_width = width, h_height = height, h_stride = stride, h_shutdown = False,
      h_backpressure = 0, h_last_sleep = 0, h_last_cancelled = 0, h_injected = 1\<rparr>"

section \<open>The panel channel\<close>

definition enqueue_panel :: "panel_command \<Rightarrow> unit host_action" where
  "enqueue_panel command d =
     (let d1 = on_tel command_enqueued d in
      if h_receiver_gone d then
        (Inl (Io_Error K_BrokenPipe ''panel thread stopped''), on_tel command_dequeued d1)
      else if h_capacity d \<le> length (h_channel d) then
        (Inl (Io_Error K_WouldBlock ''panel command queue is full; transition was not committed''),
         on_tel command_dequeued d1)
      else (Inr (), d1\<lparr>h_channel := h_channel d @ [command]\<rparr>))"

text \<open>\<open>let _ = action\<close>.\<close>

definition ignoring :: "('s, 'a) action \<Rightarrow> 's \<Rightarrow> 's" where
  "ignoring m s = snd (m s)"

definition fail_closed :: "display \<Rightarrow> display" where
  "fail_closed d = d\<lparr>h_shutdown := True\<rparr>"

definition host_shutdown :: "display \<Rightarrow> display" where
  "host_shutdown d = ignoring (enqueue_panel Shutdown) (d\<lparr>h_shutdown := True\<rparr>)"

section \<open>Input to the clients\<close>

definition queue_at :: "nat \<Rightarrow> input_queue list \<Rightarrow> input_queue" where
  "queue_at a qs = (if a < length qs then qs ! a else queue_new 1)"

text \<open>\<open>entry.clients.retain(..)\<close>: the sinks that stay, the queues, whether one took the packet, and the
  back-pressure count.\<close>

fun push_to_clients ::
    "u8 list \<Rightarrow> client_sink list \<Rightarrow> input_queue list \<times> bool \<times> u64
      \<Rightarrow> client_sink list \<times> input_queue list \<times> bool \<times> u64" where
  "push_to_clients packet [] (qs, delivered, pressure) = ([], qs, delivered, pressure)"
| "push_to_clients packet (sink # sinks) (qs, delivered, pressure) =
     (case queue_push packet (queue_at (sink_queue sink) qs) of
        (outcome, q) \<Rightarrow>
          let qs' = qs[sink_queue sink := q] in
          (case outcome of
             Queued \<Rightarrow>
               (case push_to_clients packet sinks (qs', True, pressure) of
                  (kept_sinks, result) \<Rightarrow> (sink # kept_sinks, result))
           | Coalesced \<Rightarrow>
               (case push_to_clients packet sinks (qs', True, pressure + 1) of
                  (kept_sinks, result) \<Rightarrow> (sink # kept_sinks, result))
           | Closed \<Rightarrow> push_to_clients packet sinks (qs', delivered, pressure)
           | BoundaryOverflow \<Rightarrow> push_to_clients packet sinks (qs', delivered, pressure + 1)))"

definition send_to_key :: "i32 \<Rightarrow> u8 list \<Rightarrow> display \<Rightarrow> bool \<times> display" where
  "send_to_key key packet d =
     (case h_surfaces d key of
        None \<Rightarrow> (False, d)
      | Some entry \<Rightarrow>
          (case push_to_clients packet (entry_clients entry) (h_queues d, False, h_backpressure d) of
             (sinks, qs, delivered, pressure) \<Rightarrow>
               (delivered,
                d\<lparr>h_surfaces := (h_surfaces d)(key \<mapsto> entry\<lparr>entry_clients := sinks\<rparr>),
                  h_queues := qs, h_backpressure := pressure\<rparr>)))"

definition pen_packet :: "pen_frame \<Rightarrow> u8 list" where
  "pen_packet f =
     input_packet
       (case pen_phase f of
          Pen_Down \<Rightarrow> INPUT_PEN_PRESS | Pen_Move \<Rightarrow> INPUT_PEN_UPDATE
        | Pen_Up \<Rightarrow> INPUT_PEN_RELEASE | Pen_Cancel \<Rightarrow> INPUT_PEN_RELEASE)
       (if pen_tool f = Eraser then 1 else 0) (pen_x f) (pen_y f)
       (word_of_int (sint (i32_sat_mul (pen_pressure f) 100) sdiv sint (i32_max_of (pen_pressure_max f) 1)))"

definition touch_packet :: "touch_frame \<Rightarrow> u8 list" where
  "touch_packet f =
     input_packet
       (case touch_phase f of
          Touch_Down \<Rightarrow> INPUT_TOUCH_PRESS | Touch_Move \<Rightarrow> INPUT_TOUCH_UPDATE
        | Touch_Up \<Rightarrow> INPUT_TOUCH_RELEASE | Touch_Cancel \<Rightarrow> INPUT_TOUCH_RELEASE)
       (touch_device_id f) (touch_x f) (touch_y f) (touch_pressure f)"

definition cancelled_pen :: "pen_frame \<Rightarrow> pen_frame" where
  "cancelled_pen f = f\<lparr>pen_phase := Pen_Cancel, pen_pressure := 0\<rparr>"

text \<open>End a pen contact: the client sees a release and the panel a cancel.\<close>

definition cancel_pen :: "panel_lease \<Rightarrow> pen_frame \<Rightarrow> display \<Rightarrow> display" where
  "cancel_pen lease last_frame d =
     ignoring (enqueue_panel (Pen_Input lease (cancelled_pen last_frame)))
       (snd (send_to_key (lease_key lease) (pen_packet (cancelled_pen last_frame)) d))"

definition release_touch :: "i32 \<Rightarrow> i32 \<Rightarrow> display \<Rightarrow> display" where
  "release_touch key device_id d =
     snd (send_to_key key (input_packet INPUT_TOUCH_RELEASE device_id 0 0 0) d)"

definition insert_new :: "'a \<Rightarrow> 'a list \<Rightarrow> 'a list" where
  "insert_new x xs = (if x \<in> set xs then xs else xs @ [x])"

definition fence_input_contacts :: "display \<Rightarrow> display" where
  "fence_input_contacts d0 =
     (let d1 = d0\<lparr>h_input_epoch := h_input_epoch d0 + 1\<rparr>;
          d2 = (case h_active_pen d1 of
                  None \<Rightarrow> d1
                | Some (lease, last_frame) \<Rightarrow>
                    (cancel_pen lease last_frame (d1\<lparr>h_active_pen := None\<rparr>))\<lparr>h_suppressed_pen := True\<rparr>);
          active = h_active_touches d2;
          d3 = d2\<lparr>h_active_touches := []\<rparr>;
          d4 = (case h_foreground d3 of
                  None \<Rightarrow> d3
                | Some foreground \<Rightarrow> fold (release_touch (fg_key foreground)) active d3)
      in d4\<lparr>h_suppressed_touches := fold insert_new active (h_suppressed_touches d4)\<rparr>)"

section \<open>Foreground transitions\<close>

definition check_unlocked :: "string \<Rightarrow> unit host_action" where
  "check_unlocked message = reading (\<lambda>d.
     if h_lock d \<noteq> None then fail K_PermissionDenied message else ret ())"

definition stale_fence :: "u64 \<times> u64 \<Rightarrow> u64 \<Rightarrow> u64 \<Rightarrow> bool" where
  "stale_fence previous generation epoch =
     (generation < fst previous \<or> (generation = fst previous \<and> epoch \<le> snd previous))"

definition u64_text :: "u64 \<Rightarrow> string" where
  "u64_text n = decimal (uint n)"

definition i32_text :: "i32 \<Rightarrow> string" where
  "i32_text n = decimal (sint n)"

definition validate_foreground_fence :: "i32 \<Rightarrow> u64 \<Rightarrow> u64 \<Rightarrow> unit host_action" where
  "validate_foreground_fence key generation epoch = reading (\<lambda>d.
     if generation = 0 \<or> epoch = 0
     then fail K_InvalidInput ''generation and foreground epoch must be non-zero''
     else if h_surfaces d key = None
     then fail K_NotFound (''surface '' @ i32_text key @ '' is not connected'')
     else case h_fences d key of
         Some previous \<Rightarrow>
           if stale_fence previous generation epoch
           then fail K_PermissionDenied
                  (''stale foreground fence for surface '' @ i32_text key @ '': generation=''
                   @ u64_text generation @ '' epoch='' @ u64_text epoch @ '', previous=''
                   @ u64_text (fst previous) @ ''/'' @ u64_text (snd previous))
           else ret ()
       | None \<Rightarrow> ret ())"

definition commit_foreground_fence :: "i32 \<Rightarrow> u64 \<Rightarrow> u64 \<Rightarrow> display \<Rightarrow> display" where
  "commit_foreground_fence key generation epoch d =
     d\<lparr>h_fences := (h_fences d)(key \<mapsto> (generation, epoch))\<rparr>"

definition new_lease :: "i32 \<Rightarrow> u64 \<Rightarrow> u64 \<Rightarrow> foreground_lease" where
  "new_lease key generation epoch =
     \<lparr>fg_key = key, fg_generation = generation, fg_epoch = epoch, fg_ink = False\<rparr>"

definition set_foreground :: "i32 \<Rightarrow> u64 \<Rightarrow> u64 \<Rightarrow> bool \<Rightarrow> unit host_action" where
  "set_foreground key generation epoch full_refresh =
     (let foreground = new_lease key generation epoch in
      seq (check_unlocked ''display is locked'')
     (seq (validate_foreground_fence key generation epoch)
     (seq (enqueue_panel (SetForeground (panel_lease_of foreground) full_refresh))
     (change (\<lambda>d. (fence_input_contacts (commit_foreground_fence key generation epoch d))
        \<lparr>h_prepared := None, h_foreground := Some foreground\<rparr>)))))"

definition prepare_foreground :: "i32 \<Rightarrow> u64 \<Rightarrow> u64 \<Rightarrow> unit host_action" where
  "prepare_foreground key generation epoch =
     seq (check_unlocked ''display is locked'')
    (seq (validate_foreground_fence key generation epoch)
    (change (\<lambda>d. (fence_input_contacts (commit_foreground_fence key generation epoch d))
       \<lparr>h_prepared := Some (new_lease key generation epoch)\<rparr>)))"

definition activate_foreground :: "i32 \<Rightarrow> u64 \<Rightarrow> u64 \<Rightarrow> bool \<Rightarrow> bool \<Rightarrow> unit host_action" where
  "activate_foreground key generation epoch ink full_refresh =
     seq (check_unlocked ''display is locked'') (reading (\<lambda>d.
       case h_prepared d of
         None \<Rightarrow> fail K_PermissionDenied ''no prepared lease''
       | Some prepared \<Rightarrow>
           if fg_key prepared \<noteq> key \<or> fg_generation prepared \<noteq> generation \<or> fg_epoch prepared \<noteq> epoch
           then fail K_PermissionDenied ''activation does not match the prepared foreground lease''
           else
             let active = prepared\<lparr>fg_ink := ink\<rparr> in
             seq (enqueue_panel (ActivateForeground (panel_lease_of active) ink full_refresh))
                 (change (\<lambda>d. d\<lparr>h_foreground := Some active, h_prepared := None\<rparr>))))"

definition clear_foreground_locked :: "panel_lease \<Rightarrow> unit host_action" where
  "clear_foreground_locked lease = reading (\<lambda>d.
     if map_option panel_lease_of (h_foreground d) \<noteq> Some lease then ret ()
     else
       seq (enqueue_panel (ClearForeground lease))
           (change (\<lambda>d. let d1 = fence_input_contacts d in
              if map_option panel_lease_of (h_foreground d1) = Some lease
              then d1\<lparr>h_foreground := None\<rparr> else d1)))"

definition clear_foreground :: "unit host_action" where
  "clear_foreground =
     seq (check_unlocked ''cannot clear foreground while display is locked'')
    (seq (change (h_prepared_update (\<lambda>_. None))) (reading (\<lambda>d.
       case map_option panel_lease_of (h_foreground d) of
         None \<Rightarrow> ret ()
       | Some lease \<Rightarrow> clear_foreground_locked lease)))"

text \<open>\<open>configure_ink\<close> up to its wait for the panel, which keeps the mutex.\<close>

definition configure_ink :: "i32 \<Rightarrow> u64 \<Rightarrow> u64 \<Rightarrow> bool \<Rightarrow> rect option \<Rightarrow> unit host_action" where
  "configure_ink key generation epoch enabled region =
     seq (check_unlocked ''cannot configure direct ink while display is locked'') (reading (\<lambda>d.
       case h_foreground d of
         None \<Rightarrow> fail K_PermissionDenied ''no foreground lease''
       | Some lease \<Rightarrow>
           if fg_key lease \<noteq> key \<or> fg_generation lease \<noteq> generation \<or> fg_epoch lease \<noteq> epoch
           then fail K_PermissionDenied ''ink request does not match foreground lease''
           else
             seq (enqueue_panel (ConfigureInk (panel_lease_of lease) enabled region))
                 (change (\<lambda>d. d\<lparr>h_foreground := Some (lease\<lparr>fg_ink := enabled\<rparr>),
                    h_pending := Wait_Ink (panel_lease_of lease) enabled\<rparr>))))"

text \<open>One poll of the wait: \<^term>\<open>Some\<close> is the method's result.\<close>

definition configure_ink_poll :: "bool \<Rightarrow> unit option host_action" where
  "configure_ink_poll timed_out = reading (\<lambda>d.
     case h_pending d of
       Wait_Ink lease enabled \<Rightarrow>
         if committed_ink (tel d) = Some (lease, enabled)
         then seq (change (h_pending_update (\<lambda>_. No_Wait))) (ret (Some ()))
         else if timed_out
         then seq (change (h_pending_update (\<lambda>_. No_Wait)))
                (fail K_TimedOut ''panel did not acknowledge the direct-ink policy'')
         else ret None
     | _ \<Rightarrow> ret None)"

definition request_full_refresh :: "unit host_action" where
  "request_full_refresh = reading (\<lambda>d.
     if h_prepared d \<noteq> None then ret ()
     else case h_lock d of
         Some lock \<Rightarrow> enqueue_panel (RefreshLock (panel_lease_of (lock_foreground lock)) (lock_sleep_epoch lock))
       | None \<Rightarrow>
           (case map_option panel_lease_of (h_foreground d) of
              None \<Rightarrow> ret ()
            | Some lease \<Rightarrow> enqueue_panel (FullRefresh lease)))"

text \<open>The lease of the foreground, if \<open>key\<close> holds it.\<close>

definition lease_of_key :: "i32 \<Rightarrow> display \<Rightarrow> panel_lease option" where
  "lease_of_key key d =
     (case h_foreground d of
        None \<Rightarrow> None
      | Some foreground \<Rightarrow> if fg_key foreground = key then Some (panel_lease_of foreground) else None)"

definition request_surface_full_refresh :: "i32 \<Rightarrow> unit host_action" where
  "request_surface_full_refresh key = reading (\<lambda>d.
     if h_prepared d \<noteq> None then ret ()
     else if h_lock d \<noteq> None then ret ()
     else case lease_of_key key d of
         None \<Rightarrow> ret ()
       | Some lease \<Rightarrow> enqueue_panel (FullRefresh lease))"

definition damage :: "i32 \<Rightarrow> rect \<Rightarrow> refresh_intent \<Rightarrow> unit host_action" where
  "damage key rect intent = reading (\<lambda>d.
     if h_prepared d \<noteq> None then ret ()
     else if h_lock d \<noteq> None then ret ()
     else case lease_of_key key d of
         None \<Rightarrow> ret ()
       | Some lease \<Rightarrow>
           (\<lambda>s. case enqueue_panel (Damage lease rect intent) s of
              (Inr u, t) \<Rightarrow> (Inr u, t)
            | (Inl (Io_Error K_WouldBlock m), t) \<Rightarrow> (Inr (), on_tel (defer_damage lease rect intent) t)
            | (Inl e, t) \<Rightarrow> (Inl e, t)))"

definition update_cell :: "nat \<Rightarrow> (shared_surface \<Rightarrow> shared_surface) \<Rightarrow> display \<Rightarrow> display" where
  "update_cell a f d = (if a < length (cells d) then d\<lparr>cells := (cells d)[a := f (cells d ! a)]\<rparr> else d)"

definition mark_commit :: "i32 \<Rightarrow> u64 host_action" where
  "mark_commit key = reading (\<lambda>d.
     case Option.bind (h_surfaces d key) (\<lambda>entry. cell_at (entry_cell entry) d) of
       None \<Rightarrow> fail K_NotFound ''surface disconnected''
     | Some surface \<Rightarrow>
         seq (change (\<lambda>d. update_cell (entry_cell (the (h_surfaces d key)))
                (\<lambda>s. snd (surface_mark_commit s)) d))
             (ret (fst (surface_mark_commit surface))))"

definition damage_intent_of :: "shared_surface \<Rightarrow> refresh_intent" where
  "damage_intent_of s =
     (if surf_refresh_mode s = REFRESH_MODE_UFAST then Ink
      else if surf_refresh_mode s = REFRESH_MODE_FAST then MonoQuality
      else if surf_refresh_mode s = REFRESH_MODE_CONTENT then Content
      else MonoQuality)"

definition commit_damage :: "i32 \<Rightarrow> rect option \<Rightarrow> unit host_action" where
  "commit_damage key rect =
     sbind (mark_commit key) (\<lambda>_. reading (\<lambda>d.
       case Option.bind (h_surfaces d key) (\<lambda>entry. cell_at (entry_cell entry) d) of
         None \<Rightarrow> fail K_NotFound ''surface disappeared''
       | Some surface \<Rightarrow>
           damage key (case rect of Some r \<Rightarrow> r | None \<Rightarrow> surface_full_rect surface)
             (damage_intent_of surface)))"

definition set_refresh_mode :: "i32 \<Rightarrow> i32 \<Rightarrow> unit host_action" where
  "set_refresh_mode key mode = reading (\<lambda>d.
     case h_surfaces d key of
       None \<Rightarrow> fail K_NotFound ''surface disconnected''
     | Some entry \<Rightarrow> change (update_cell (entry_cell entry) (surf_refresh_mode_update (\<lambda>_. mode))))"

end
