(* ===== verification/Display_Server.thy ===== *)
theory Display_Server
  imports Display_Host
begin

text \<open>
  The rest of the display host's operations: registering and dropping client surfaces
  (\<open>surfaces/registration.rs\<close>), the lock (\<open>surfaces/lock.rs\<close>), routing of captured input and the
  injected gestures of the control socket (\<open>qtfb/input.rs\<close>), the packet loop of a client
  (\<open>qtfb/server.rs\<close>) and the control commands (\<open>control.rs\<close>).
\<close>

unbundle bit_operations_syntax

section \<open>Registration\<close>

text \<open>\<open>create_surface\<close>: \<open>collisions\<close> is how many names already exist before the outcome \<open>opened\<close> of the
  system calls, so the loop ends after that many rounds and one more.\<close>

definition shm_candidate :: "u32 \<Rightarrow> i32" where
  "shm_candidate n = max (n AND 0x7fffffff) 1"

fun create_surface ::
    "i32 \<Rightarrow> i32 \<Rightarrow> i32 \<Rightarrow> pixel_format \<Rightarrow> nat \<Rightarrow> io_error + unit \<Rightarrow> shared_surface host_action" where
  "create_surface key width height format collisions opened d =
     (let candidate = shm_candidate (h_next_shm d);
          d1 = d\<lparr>h_next_shm := h_next_shm d + 1\<rparr> in
      case collisions of
        0 \<Rightarrow> (surface_create key width height format candidate opened, d1)
      | Suc n \<Rightarrow>
          (case surface_create key width height format candidate
                  (Inl (Io_Error K_AlreadyExists ''File exists'')) of
             Inl (Io_Error K_AlreadyExists m) \<Rightarrow> create_surface key width height format n opened d1
           | other \<Rightarrow> (other, d1)))"

definition validate_surface ::
    "surface_entry \<Rightarrow> i32 \<Rightarrow> i32 \<Rightarrow> pixel_format \<Rightarrow> unit host_action" where
  "validate_surface entry width height format = reading (\<lambda>d.
     let fits = (case cell_at (entry_cell entry) d of
                   None \<Rightarrow> False
                 | Some s \<Rightarrow> surf_width s = width \<and> surf_height s = height \<and> surf_format s = format)
     in if fits then ret ()
        else fail K_InvalidData ''QTFB key was reused with incompatible geometry or format'')"

definition live_owner :: "i32 \<Rightarrow> string" where
  "live_owner key = ''QTFB surface '' @ i32_text key @ '' already has a live owner''"

definition register ::
    "i32 \<Rightarrow> i32 \<Rightarrow> i32 \<Rightarrow> pixel_format \<Rightarrow> nat \<Rightarrow> io_error + unit \<Rightarrow> shared_surface host_action" where
  "register key width height format collisions opened = reading (\<lambda>d0.
     case h_surfaces d0 key of
       Some entry \<Rightarrow>
         seq (validate_surface entry width height format) (fail K_AlreadyExists (live_owner key))
     | None \<Rightarrow>
         sbind (create_surface key width height format collisions opened) (\<lambda>surface. reading (\<lambda>d.
           let a = length (cells d) in
           seq (change (\<lambda>d. d\<lparr>cells := cells d @ [surface],
                  h_surfaces := (h_surfaces d)(key \<mapsto> \<lparr>entry_cell = a, entry_clients = []\<rparr>)\<rparr>))
          (seq (or_undo (enqueue_panel (RegisterSurface a))
                 (h_surfaces_update (\<lambda>m. m(key := None))))
               (ret surface)))))"

definition activate_client :: "i32 \<Rightarrow> int \<Rightarrow> nat \<Rightarrow> unit host_action" where
  "activate_client key client q = reading (\<lambda>d.
     case h_surfaces d key of
       None \<Rightarrow> fail K_NotFound ''QTFB surface disappeared''
     | Some entry \<Rightarrow>
         if entry_clients entry \<noteq> [] then fail K_AlreadyExists (live_owner key)
         else change (\<lambda>d. d\<lparr>h_surfaces := (h_surfaces d)(key \<mapsto>
                entry\<lparr>entry_clients := [\<lparr>sink_id = client, sink_queue = q\<rparr>]\<rparr>)\<rparr>))"

definition abort_registration :: "i32 \<Rightarrow> display \<Rightarrow> display" where
  "abort_registration key d =
     (case h_surfaces d key of
        None \<Rightarrow> d
      | Some entry \<Rightarrow>
          if entry_clients entry \<noteq> [] then d
          else (case enqueue_panel (DropSurface key) (d\<lparr>h_surfaces := (h_surfaces d)(key := None)\<rparr>) of
                  (Inr _, d1) \<Rightarrow> d1
                | (Inl e, d1) \<Rightarrow> fail_closed d1))"

text \<open>\<open>unregister\<close> after the last client of the surface has gone.\<close>

definition clear_lease_for :: "i32 \<Rightarrow> display \<Rightarrow> panel_lease option" where
  "clear_lease_for key d =
     (case h_foreground d of
        None \<Rightarrow> None
      | Some foreground \<Rightarrow>
          if fg_key foreground = key
             \<and> \<not> (case h_lock d of None \<Rightarrow> False | Some lock \<Rightarrow> fg_key (lock_foreground lock) = key)
          then Some (panel_lease_of foreground) else None)"

definition remove_surface :: "i32 \<Rightarrow> display \<Rightarrow> display" where
  "remove_surface key d0 =
     (let lease = clear_lease_for key d0 in
      case enqueue_panel (DropSurface key) (d0\<lparr>h_surfaces := (h_surfaces d0)(key := None)\<rparr>) of
        (drop_result, d1) \<Rightarrow>
          let d2 = (if (case h_prepared d1 of None \<Rightarrow> False | Some p \<Rightarrow> fg_key p = key)
                    then d1\<lparr>h_prepared := None\<rparr> else d1);
              d3 = (case lease of
                      None \<Rightarrow> d2
                    | Some l \<Rightarrow>
                        (case clear_foreground_locked l (fence_input_contacts d2) of
                           (Inr _, t) \<Rightarrow> t
                         | (Inl e, t) \<Rightarrow> fail_closed t))
          in (case drop_result of Inr _ \<Rightarrow> d3 | Inl e \<Rightarrow> fail_closed d3))"

definition unregister :: "int \<Rightarrow> i32 option \<Rightarrow> display \<Rightarrow> display" where
  "unregister client owned d =
     (case owned of
        None \<Rightarrow> d
      | Some key \<Rightarrow>
          (case h_surfaces d key of
             None \<Rightarrow> d
           | Some entry \<Rightarrow>
               let sinks = filter (\<lambda>sink. sink_id sink \<noteq> client) (entry_clients entry);
                   d1 = d\<lparr>h_surfaces := (h_surfaces d)(key \<mapsto> entry\<lparr>entry_clients := sinks\<rparr>)\<rparr>
               in if sinks = [] then remove_surface key d1 else d1))"

section \<open>The lock\<close>

definition same_lock :: "i32 \<Rightarrow> u64 \<Rightarrow> u64 \<Rightarrow> u64 \<Rightarrow> lock_lease \<Rightarrow> bool" where
  "same_lock key generation epoch sleep_epoch current =
     (lock_sleep_epoch current = sleep_epoch \<and> fg_key (lock_foreground current) = key
      \<and> fg_generation (lock_foreground current) = generation \<and> fg_epoch (lock_foreground current) = epoch)"

definition show_lock :: "i32 \<Rightarrow> u64 \<Rightarrow> u64 \<Rightarrow> u64 \<Rightarrow> unit host_action" where
  "show_lock key generation epoch sleep_epoch = reading (\<lambda>d.
     if sleep_epoch = 0 then fail K_InvalidInput ''sleep epoch must be non-zero''
     else if h_prepared d \<noteq> None then fail K_WouldBlock ''a foreground lease is being prepared''
     else case h_lock d of
         Some current \<Rightarrow>
           if same_lock key generation epoch sleep_epoch current then ret ()
           else fail K_AlreadyExists
                  (''display is already locked for epoch '' @ u64_text (lock_sleep_epoch current))
       | None \<Rightarrow>
           if sleep_epoch \<le> h_last_sleep d
           then fail K_PermissionDenied
                  (''stale sleep epoch '' @ u64_text sleep_epoch @ ''; highest observed epoch is ''
                   @ u64_text (h_last_sleep d))
           else
             let foreground = new_lease key generation epoch in
             seq (validate_foreground_fence key generation epoch)
            (seq (enqueue_panel (ShowLock (panel_lease_of foreground) sleep_epoch))
            (change (\<lambda>d. (fence_input_contacts
                ((commit_foreground_fence key generation epoch d)\<lparr>h_last_sleep := sleep_epoch\<rparr>))
              \<lparr>h_foreground := Some foreground,
               h_lock := Some \<lparr>lock_sleep_epoch = sleep_epoch, lock_foreground = foreground\<rparr>\<rparr>))))"

definition absent_lock :: "u64 \<Rightarrow> string" where
  "absent_lock sleep_epoch = ''stale or absent display lock epoch '' @ u64_text sleep_epoch"

definition refresh_lock :: "u64 \<Rightarrow> unit host_action" where
  "refresh_lock sleep_epoch = reading (\<lambda>d.
     case h_lock d of
       None \<Rightarrow> fail K_PermissionDenied (absent_lock sleep_epoch)
     | Some lock \<Rightarrow>
         if lock_sleep_epoch lock \<noteq> sleep_epoch then fail K_PermissionDenied (absent_lock sleep_epoch)
         else enqueue_panel (RefreshLock (panel_lease_of (lock_foreground lock)) sleep_epoch))"

definition cancellable_lock :: "u64 \<Rightarrow> lock_lease option host_action" where
  "cancellable_lock sleep_epoch = reading (\<lambda>d.
     case h_lock d of
       None \<Rightarrow>
         if h_last_cancelled d = sleep_epoch then ret None
         else fail K_PermissionDenied (absent_lock sleep_epoch)
     | Some lock \<Rightarrow>
         if lock_sleep_epoch lock \<noteq> sleep_epoch
         then fail K_PermissionDenied (''stale display lock epoch '' @ u64_text sleep_epoch)
         else ret (Some lock))"

definition validate_replacement_sequence :: "lock_lease \<Rightarrow> u64 \<Rightarrow> unit host_action" where
  "validate_replacement_sequence lock replacement = reading (\<lambda>d.
     case Option.bind (h_surfaces d (fg_key (lock_foreground lock))) (\<lambda>entry. cell_at (entry_cell entry) d) of
       None \<Rightarrow> fail K_NotFound ''unlock surface disappeared''
     | Some surface \<Rightarrow>
         if surf_commits surface < replacement
         then fail K_WouldBlock
                (''unlock surface sequence '' @ u64_text (surf_commits surface)
                 @ '' has not reached '' @ u64_text replacement)
         else let committed = committed_lock_epoch (tel d) in
           if committed \<noteq> 0 \<and> committed \<noteq> lock_sleep_epoch lock
           then fail K_PermissionDenied
                  (''panel retained a different lock epoch '' @ u64_text committed)
           else ret ())"

definition finish_cancel :: "lock_lease \<Rightarrow> display \<Rightarrow> display" where
  "finish_cancel lock d =
     (fence_input_contacts d)\<lparr>h_lock := None, h_last_cancelled := lock_sleep_epoch lock, h_pending := No_Wait\<rparr>"

text \<open>\<open>cancel_lock\<close> up to its wait for the panel's acknowledgement.\<close>

definition cancel_lock :: "u64 \<Rightarrow> u64 \<Rightarrow> unit host_action" where
  "cancel_lock sleep_epoch replacement =
     sbind (cancellable_lock sleep_epoch) (\<lambda>found.
       case found of
         None \<Rightarrow> ret ()
       | Some lock \<Rightarrow>
           if replacement = 0
           then fail K_InvalidInput ''unlock replacement sequence must be non-zero''
           else
             seq (validate_replacement_sequence lock replacement) (reading (\<lambda>d.
               if cancelled_lock_epoch (tel d) = lock_sleep_epoch lock
               then change (finish_cancel lock)
               else
                 seq (enqueue_panel (CancelLock (panel_lease_of (lock_foreground lock))
                        (lock_sleep_epoch lock) replacement))
                     (change (h_pending_update (\<lambda>_. Wait_Cancel lock))))))"

definition cancel_lock_poll :: "bool \<Rightarrow> unit option host_action" where
  "cancel_lock_poll timed_out = reading (\<lambda>d.
     case h_pending d of
       Wait_Cancel lock \<Rightarrow>
         if cancelled_lock_epoch (tel d) = lock_sleep_epoch lock
         then seq (change (finish_cancel lock)) (ret (Some ()))
         else if timed_out
         then seq (change (h_pending_update (\<lambda>_. No_Wait)))
                (fail K_TimedOut ''panel did not acknowledge lock cancellation'')
         else ret None
     | _ \<Rightarrow> ret None)"

section \<open>Input\<close>

definition not_routed :: "string \<Rightarrow> 'a host_action" where
  "not_routed reason = fail K_WouldBlock reason"

text \<open>Contacts of an old foreground stay silent until they end.\<close>

definition suppress_fenced_contact :: "input_frame \<Rightarrow> display \<Rightarrow> bool \<times> display" where
  "suppress_fenced_contact frame d =
     (case frame of
        Touch_Frame touch \<Rightarrow>
          if touch_device_id touch \<in> set (h_suppressed_touches d) then
            (True,
             if touch_phase touch = Touch_Up \<or> touch_phase touch = Touch_Cancel
             then d\<lparr>h_suppressed_touches := removeAll (touch_device_id touch) (h_suppressed_touches d)\<rparr>
             else d)
          else (False, d)
      | Pen_Frame pen \<Rightarrow>
          if h_suppressed_pen d then
            (case pen_phase pen of
               Pen_Down \<Rightarrow> (False, d\<lparr>h_suppressed_pen := False\<rparr>)
             | Pen_Move \<Rightarrow> (True, d)
             | Pen_Up \<Rightarrow> (True, d\<lparr>h_suppressed_pen := False\<rparr>)
             | Pen_Cancel \<Rightarrow> (True, d\<lparr>h_suppressed_pen := False\<rparr>))
          else (False, d))"

definition route_foreground_touch :: "input_frame \<Rightarrow> display \<Rightarrow> bool \<times> display" where
  "route_foreground_touch frame d =
     (case frame of
        Pen_Frame pen \<Rightarrow> (True, d)
      | Touch_Frame touch \<Rightarrow>
          let id = touch_device_id touch; active = h_active_touches d in
          (case touch_phase touch of
             Touch_Down \<Rightarrow> (True, d\<lparr>h_active_touches := insert_new id active\<rparr>)
           | Touch_Move \<Rightarrow> (id \<in> set active, d)
           | Touch_Up \<Rightarrow> (id \<in> set active, d\<lparr>h_active_touches := removeAll id active\<rparr>)
           | Touch_Cancel \<Rightarrow> (id \<in> set active, d\<lparr>h_active_touches := removeAll id active\<rparr>)))"

definition track_pen_contact :: "input_frame \<Rightarrow> panel_lease \<Rightarrow> display \<Rightarrow> bool \<times> display" where
  "track_pen_contact frame lease d =
     (case frame of
        Touch_Frame touch \<Rightarrow> (True, d)
      | Pen_Frame pen \<Rightarrow>
          (case pen_phase pen of
             Pen_Down \<Rightarrow>
               let d1 = (case h_active_pen d of
                           None \<Rightarrow> d
                         | Some (previous_lease, previous) \<Rightarrow>
                             cancel_pen previous_lease previous (d\<lparr>h_active_pen := None\<rparr>))
               in (True, d1\<lparr>h_active_pen := Some (lease, pen)\<rparr>)
           | Pen_Move \<Rightarrow>
               (case h_active_pen d of
                  None \<Rightarrow> (False, d)
                | Some (owner, last_frame) \<Rightarrow>
                    if owner \<noteq> lease then (False, d)
                    else (True, d\<lparr>h_active_pen := Some (owner, pen)\<rparr>))
           | _ \<Rightarrow>
               (case h_active_pen d of
                  None \<Rightarrow> (False, d)
                | Some (owner, last_frame) \<Rightarrow> (owner = lease, d\<lparr>h_active_pen := None\<rparr>))))"

definition deliver_input :: "i32 \<Rightarrow> u8 list \<Rightarrow> unit host_action" where
  "deliver_input key packet d =
     (case send_to_key key packet d of
        (True, d1) \<Rightarrow> (Inr (), d1)
      | (False, d1) \<Rightarrow> not_routed ''foreground surface has no live input client'' d1)"

definition route_frame :: "input_frame \<Rightarrow> panel_lease \<Rightarrow> unit host_action" where
  "route_frame frame lease d =
     (case route_foreground_touch frame d of
        (False, d1) \<Rightarrow> not_routed ''touch sequence has no active contact'' d1
      | (True, d1) \<Rightarrow>
          (case track_pen_contact frame lease d1 of
             (False, d2) \<Rightarrow> not_routed ''pen sequence has no active contact'' d2
           | (True, d2) \<Rightarrow>
               (case frame of
                  Pen_Frame pen \<Rightarrow>
                    deliver_input (lease_key lease) (pen_packet pen)
                      (ignoring (enqueue_panel (Pen_Input lease pen)) d2)
                | Touch_Frame touch \<Rightarrow> deliver_input (lease_key lease) (touch_packet touch) d2)))"

definition dispatch_captured_input :: "captured_input \<Rightarrow> unit host_action" where
  "dispatch_captured_input captured d0 =
     (if captured_epoch captured \<noteq> h_input_epoch d0 then not_routed ''stale input epoch'' d0
      else
        case suppress_fenced_contact (captured_frame captured) d0 of
          (True, d) \<Rightarrow> not_routed ''contact belongs to an old foreground fence'' d
        | (False, d) \<Rightarrow>
            if h_prepared d \<noteq> None then not_routed ''foreground transition is still prepared'' d
            else if h_lock d \<noteq> None then not_routed ''all input is disabled while locked'' d
            else case committed_foreground (tel d) of
                None \<Rightarrow> not_routed ''panel has no committed foreground'' d
              | Some lease \<Rightarrow>
                  if map_option panel_lease_of (h_foreground d) \<noteq> Some lease
                  then not_routed ''requested and panel-committed foregrounds differ'' d
                  else route_frame (captured_frame captured) lease d)"

definition dispatch_input :: "input_frame \<Rightarrow> unit host_action" where
  "dispatch_input frame d =
     dispatch_captured_input \<lparr>captured_epoch = h_input_epoch d, captured_frame = frame\<rparr> d"

text \<open>The injected gestures; between two frames the mutex is free, which here means that a gesture is
  the sequence of its dispatches.\<close>

definition validate_point :: "i32 \<Rightarrow> i32 \<Rightarrow> unit host_action" where
  "validate_point x y = reading (\<lambda>d.
     let surface = Option.bind (Option.bind (h_foreground d) (\<lambda>lease. h_surfaces d (fg_key lease)))
           (\<lambda>entry. cell_at (entry_cell entry) d);
         (width, height) = (case surface of
            Some s \<Rightarrow> (surf_width s, surf_height s) | None \<Rightarrow> (h_width d, h_height d))
     in if (sint x, sint y) \<in> canvas width height then ret ()
        else fail K_InvalidInput
          (''input point '' @ i32_text x @ '','' @ i32_text y @ '' is outside the '' @ i32_text width
           @ ''x'' @ i32_text height @ '' logical display''))"

definition tap_frame :: "u64 \<Rightarrow> touch_phase \<Rightarrow> i32 \<Rightarrow> i32 \<Rightarrow> i32 \<Rightarrow> touch_frame" where
  "tap_frame sequence phase x y pressure =
     \<lparr>touch_sequence = sequence, touch_time_ns = 0, touch_phase = phase, touch_device_id = 10000,
      touch_x = x, touch_y = y, touch_pressure = pressure\<rparr>"

definition inject_tap :: "i32 \<Rightarrow> i32 \<Rightarrow> unit host_action" where
  "inject_tap x y =
     seq (validate_point x y) (reading (\<lambda>d.
       let sequence = h_injected d in
       seq (change (h_injected_update (\<lambda>n. n + 2)))
      (seq (dispatch_input (Touch_Frame (tap_frame sequence Touch_Down x y 64)))
           (dispatch_input (Touch_Frame (tap_frame (sequence + 1) Touch_Up x y 0))))))"

definition interpolate :: "i32 \<Rightarrow> i32 \<Rightarrow> nat \<Rightarrow> nat \<Rightarrow> i32" where
  "interpolate a b index points =
     word_of_int (sint a + (sint (b - a) * int index) sdiv (int points - 1))"

definition interpolated_pen_frame ::
    "u64 \<Rightarrow> nat \<Rightarrow> nat \<Rightarrow> i32 \<Rightarrow> i32 \<Rightarrow> i32 \<Rightarrow> i32 \<Rightarrow> pen_frame" where
  "interpolated_pen_frame base index points x0 y0 x1 y1 =
     \<lparr>pen_sequence = base + of_nat index, pen_time_ns = 0,
      pen_phase = (if index = 0 then Pen_Down else Pen_Move), pen_tool = Pen,
      pen_x = interpolate x0 x1 index points, pen_y = interpolate y0 y1 index points,
      pen_pressure = 2048, pen_pressure_max = 4096\<rparr>"

fun dispatch_all :: "input_frame list \<Rightarrow> unit host_action" where
  "dispatch_all [] = ret ()"
| "dispatch_all (frame # frames) = seq (dispatch_input frame) (dispatch_all frames)"

definition inject_pen_line :: "i32 \<Rightarrow> i32 \<Rightarrow> i32 \<Rightarrow> i32 \<Rightarrow> u16 \<Rightarrow> unit host_action" where
  "inject_pen_line x0 y0 x1 y1 points =
     seq (validate_point x0 y0) (seq (validate_point x1 y1) (reading (\<lambda>d.
       let n = nat (uint points); base = h_injected d in
       if \<not> (2 \<le> n \<and> n \<le> 256) then fail K_InvalidInput ''pen line points must be between 2 and 256''
       else
         seq (change (h_injected_update (\<lambda>k. k + of_nat n + 1)))
             (dispatch_all
               (map (\<lambda>index. Pen_Frame (interpolated_pen_frame base index n x0 y0 x1 y1)) [0 ..< n]
                @ [Pen_Frame \<lparr>pen_sequence = base + of_nat n, pen_time_ns = 0, pen_phase = Pen_Up,
                     pen_tool = Pen, pen_x = x1, pen_y = y1, pen_pressure = 0,
                     pen_pressure_max = 4096\<rparr>])))))"

section \<open>A client connection\<close>

text \<open>What the host knows of one connection: its descriptor, its input queue and the key it
  initialised. \<open>answer\<close> is the outcome of sending the initialise reply.\<close>

record connection =
  conn_fd :: int
  conn_queue :: nat
  conn_key :: "i32 option"

definition require_key :: "i32 option \<Rightarrow> i32 host_action" where
  "require_key key =
     (case key of None \<Rightarrow> fail K_InvalidData ''connection is not initialized'' | Some k \<Rightarrow> ret k)"

definition open_surface ::
    "connection \<Rightarrow> i32 \<Rightarrow> i32 \<Rightarrow> i32 \<Rightarrow> pixel_format \<Rightarrow> nat \<Rightarrow> io_error + unit \<Rightarrow> io_error + unit
      \<Rightarrow> (bool \<times> connection) host_action" where
  "open_surface conn requested width height format collisions opened answer =
     sbind (register requested width height format collisions opened) (\<lambda>surface.
       case answer of
         Inl e \<Rightarrow> (\<lambda>d. (Inl e, abort_registration requested d))
       | Inr _ \<Rightarrow>
           (\<lambda>d. case activate_client requested (conn_fd conn) (conn_queue conn) d of
              (Inl e, d1) \<Rightarrow> (Inl e, abort_registration requested d1)
            | (Inr _, d1) \<Rightarrow> (Inr (True, conn\<lparr>conn_key := Some requested\<rparr>), d1)))"

definition process_packet ::
    "connection \<Rightarrow> nat \<Rightarrow> io_error + unit \<Rightarrow> io_error + unit \<Rightarrow> client_packet
      \<Rightarrow> (bool \<times> connection) host_action" where
  "process_packet conn collisions opened answer packet =
     (case packet of
        Initialize requested format width height \<Rightarrow>
          if conn_key conn = None
          then open_surface conn requested width height format collisions opened answer
          else fail K_AlreadyExists ''connection initialized twice''
      | Update r \<Rightarrow>
          sbind (require_key (conn_key conn)) (\<lambda>key. seq (commit_damage key r) (ret (True, conn)))
      | SetRefreshMode mode \<Rightarrow>
          sbind (require_key (conn_key conn)) (\<lambda>key. seq (set_refresh_mode key mode) (ret (True, conn)))
      | RequestFullRefresh \<Rightarrow>
          sbind (require_key (conn_key conn))
            (\<lambda>key. seq (request_surface_full_refresh key) (ret (True, conn)))
      | Terminate \<Rightarrow> ret (False, conn))"

text \<open>The end of \<open>handle_client\<close>.\<close>

definition hang_up :: "connection \<Rightarrow> display \<Rightarrow> display" where
  "hang_up conn d =
     (let d1 = unregister (conn_fd conn) (conn_key conn) d
      in d1\<lparr>h_queues := (h_queues d1)[conn_queue conn := queue_close (queue_at (conn_queue conn) (h_queues d1))]\<rparr>)"

section \<open>The control socket\<close>

datatype display_control =
    C_Status
  | C_SetForeground i32 u64 u64 bool
  | C_PrepareForeground i32 u64 u64
  | C_ActivateForeground i32 u64 u64 bool bool
  | C_ClearForeground
  | C_ConfigureInk i32 u64 u64 bool "rect option"
  | C_RequestFullRefresh
  | C_ShowLock i32 u64 u64 u64
  | C_RefreshLock u64
  | C_CancelLock u64 u64
  | C_InjectTap i32 i32
  | C_InjectPenLine i32 i32 i32 i32 u16
  | C_Shutdown

fun control_dispatch :: "display_control \<Rightarrow> unit host_action" where
  "control_dispatch C_Status = ret ()"
| "control_dispatch (C_SetForeground key generation epoch full) = set_foreground key generation epoch full"
| "control_dispatch (C_PrepareForeground key generation epoch) = prepare_foreground key generation epoch"
| "control_dispatch (C_ActivateForeground key generation epoch ink full) =
     activate_foreground key generation epoch ink full"
| "control_dispatch C_ClearForeground = clear_foreground"
| "control_dispatch (C_ConfigureInk key generation epoch enabled region) =
     configure_ink key generation epoch enabled region"
| "control_dispatch C_RequestFullRefresh = request_full_refresh"
| "control_dispatch (C_ShowLock key generation epoch sleep) = show_lock key generation epoch sleep"
| "control_dispatch (C_RefreshLock sleep) = refresh_lock sleep"
| "control_dispatch (C_CancelLock sleep replacement) = cancel_lock sleep replacement"
| "control_dispatch (C_InjectTap x y) = inject_tap x y"
| "control_dispatch (C_InjectPenLine x0 y0 x1 y1 points) = inject_pen_line x0 y0 x1 y1 points"
| "control_dispatch C_Shutdown = change host_shutdown"

record display_snapshot =
  snap_physical_width :: i32
  snap_physical_height :: i32
  snap_stride :: nat
  snap_surface_sequences :: "i32 \<Rightarrow> u64 option"
  snap_surface_signatures :: "i32 \<Rightarrow> u64 option"
  snap_foreground_key :: "i32 option"
  snap_generation :: u64
  snap_foreground_epoch :: u64
  snap_ink_enabled :: bool
  snap_lock_epoch :: u64
  snap_lock_committed :: bool
  snap_queue_depth :: u64
  snap_input_backpressure :: u64
  snap_submission_count :: u64
  snap_last_marker :: u64
  snap_failure_count :: u64
  snap_visible_signature :: u64
  snap_full_refresh_count :: u64
  snap_last_presented_key :: "i32 option"
  snap_last_presented_sequence :: u64
  snap_recent_submissions :: "submission_record list"

definition surface_of_key :: "i32 \<Rightarrow> display \<Rightarrow> shared_surface option" where
  "surface_of_key key d = Option.bind (h_surfaces d key) (\<lambda>entry. cell_at (entry_cell entry) d)"

text \<open>The domain of the two maps is the list of surfaces.\<close>

definition host_snapshot :: "display \<Rightarrow> display_snapshot" where
  "host_snapshot d =
     (let foreground = committed_foreground (tel d); t = tel d in
      \<lparr>snap_physical_width = h_width d, snap_physical_height = h_height d, snap_stride = h_stride d,
       snap_surface_sequences = (\<lambda>key. map_option surf_commits (surface_of_key key d)),
       snap_surface_signatures = (\<lambda>key. map_option surface_signature (surface_of_key key d)),
       snap_foreground_key = map_option lease_key foreground,
       snap_generation = (case foreground of None \<Rightarrow> 0 | Some l \<Rightarrow> lease_generation l),
       snap_foreground_epoch = (case foreground of None \<Rightarrow> 0 | Some l \<Rightarrow> lease_epoch l),
       snap_ink_enabled =
         (case (foreground, h_foreground d) of
            (Some committed, Some requested) \<Rightarrow>
              panel_lease_of requested = committed \<and> fg_ink requested
              \<and> committed_ink t = Some (committed, True)
          | _ \<Rightarrow> False),
       snap_lock_epoch = (case h_lock d of None \<Rightarrow> 0 | Some lock \<Rightarrow> lock_sleep_epoch lock),
       snap_lock_committed =
         (case h_lock d of
            None \<Rightarrow> False
          | Some lock \<Rightarrow>
              committed_lock_epoch t = lock_sleep_epoch lock
              \<and> foreground = Some (panel_lease_of (lock_foreground lock))
              \<and> h_foreground d = Some (lock_foreground lock)),
       snap_queue_depth = queue_depth t, snap_input_backpressure = h_backpressure d,
       snap_submission_count = submission_count t, snap_last_marker = last_marker t,
       snap_failure_count = failure_count t, snap_visible_signature = visible_signature t,
       snap_full_refresh_count = full_refresh_count t,
       snap_last_presented_key = map_option fst (last_presented t),
       snap_last_presented_sequence = (case last_presented t of None \<Rightarrow> 0 | Some (key, n) \<Rightarrow> n),
       snap_recent_submissions = recent_submissions t\<rparr>)"

record control_reply =
  reply_protocol :: u32
  reply_request_id :: string
  reply_ok :: bool
  reply_status :: string
  reply_error :: "string option"
  reply_snapshot :: "display_snapshot option"

fun error_text :: "io_error \<Rightarrow> string" where
  "error_text (Io_Error kind message) = message"
| "error_text Panicked = ''panicked''"

text \<open>Only \<open>Status\<close> answers with a snapshot.\<close>

definition process_request :: "u32 \<Rightarrow> string \<Rightarrow> display_control \<Rightarrow> display \<Rightarrow> control_reply \<times> display" where
  "process_request protocol request_id command d =
     (let reply = \<lparr>reply_protocol = 1, reply_request_id = request_id, reply_ok = True, reply_status = ''ok'',
                   reply_error = None, reply_snapshot = None\<rparr>
      in if protocol \<noteq> 1 then
           (reply\<lparr>reply_ok := False, reply_status := ''unsupported_protocol'',
              reply_error := Some (''display protocol '' @ decimal (uint protocol) @ '' is not supported'')\<rparr>, d)
         else
           (case control_dispatch command d of
              (Inr _, d1) \<Rightarrow>
                (if command = C_Status then reply\<lparr>reply_snapshot := Some (host_snapshot d1)\<rparr> else reply, d1)
            | (Inl e, d1) \<Rightarrow>
                (reply\<lparr>reply_ok := False, reply_status := ''error'', reply_error := Some (error_text e)\<rparr>, d1)))"

section \<open>Activity reports\<close>

text \<open>\<open>activity.rs\<close>: the start of a contact is reported to the power policy. \<open>connected\<close> is whether a
  connection attempt succeeds, \<open>written\<close> the outcome of the write.\<close>

record activity_reporter =
  activity_stream :: bool
  activity_retry_after :: int

datatype write_outcome = Written | Write_Would_Block | Write_Error

definition activity_retry_delay :: int where "activity_retry_delay = 5000000000"

definition is_new_interaction :: "captured_input \<Rightarrow> bool" where
  "is_new_interaction captured =
     (case captured_frame captured of
        Pen_Frame f \<Rightarrow> pen_phase f = Pen_Down
      | Touch_Frame f \<Rightarrow> touch_phase f = Touch_Down)"

definition observe_activity ::
    "int \<Rightarrow> bool \<Rightarrow> write_outcome \<Rightarrow> captured_input \<Rightarrow> activity_reporter \<Rightarrow> bool \<times> activity_reporter" where
  "observe_activity now connected written captured a =
     (if \<not> is_new_interaction captured then (False, a)
      else if \<not> activity_stream a \<and> \<not> now \<ge> activity_retry_after a then (False, a)
      else if \<not> activity_stream a \<and> \<not> connected
      then (False, a\<lparr>activity_retry_after := now + activity_retry_delay\<rparr>)
      else case written of
          Written \<Rightarrow> (True, a\<lparr>activity_stream := True\<rparr>)
        | Write_Would_Block \<Rightarrow> (False, a\<lparr>activity_stream := True\<rparr>)
        | Write_Error \<Rightarrow>
            (False, a\<lparr>activity_stream := False, activity_retry_after := now + activity_retry_delay\<rparr>))"

end
