(* ===== verification/Panel_Lock.thy ===== *)
theory Panel_Lock
  imports Panel_Safety
begin

text \<open>
  What the panel worker does to its lock: only \<open>ShowLock\<close> creates one and only \<open>CancelLock\<close> ends it,
  and while it stands the commands that the host still sends leave the framebuffer as it is.
\<close>

section \<open>Actions that touch nothing but the framebuffer\<close>

definition same_prt :: "'z panel_world_scheme \<Rightarrow> 'z panel_world_scheme \<Rightarrow> bool" where
  "same_prt w w' = (backend_update (\<lambda>_. backend (prt w)) (prt w') = prt w)"

lemma same_prt_sel:
  assumes "same_prt w w'"
  shows "p_lock (prt w') = p_lock (prt w)" "p_foreground (prt w') = p_foreground (prt w)"
    "p_ink (prt w') = p_ink (prt w)" "p_live_dirty (prt w') = p_live_dirty (prt w)"
    "p_settle_deadline (prt w') = p_settle_deadline (prt w)" "p_surfaces (prt w') = p_surfaces (prt w)"
  using assms by (simp_all add: same_prt_def) (cases "prt w"; cases "prt w'"; simp)+

lemma copy_same: "same_prt w (snd (copy_damage lease r w))"
  by (auto simp: copy_damage_def action_defs same_prt_def Let_def split: option.splits)

lemma submit_same: "same_prt w (snd (submit r i l n why w))"
  by (cases rule: submit_result [of r i l n why w]) (auto simp: same_prt_def)

lemma same_prt_trans: "same_prt w w1 \<Longrightarrow> same_prt w1 w2 \<Longrightarrow> same_prt w w2"
  unfolding same_prt_def by (cases "prt w"; cases "prt w1"; cases "prt w2") simp

lemma present_same:
  assumes p: "present_surface lease r intent why w = (res, w')"
  shows "same_prt w w'"
proof -
  obtain c w1 where c: "copy_damage lease r w = (c, w1)" by fastforce
  have s1: "same_prt w w1" using copy_same [of w lease r] c by simp
  show ?thesis
  proof (cases "c = Inr None \<or> (\<exists>e. c = Inl e)")
    case True
    then show ?thesis using p c s1 by (auto simp: present_surface_def sbind_def ret_def)
  next
    case False
    then obtain s q where "c = Inr (Some (s, q))" by (cases c) auto
    then show ?thesis
      using p c same_prt_trans [OF s1 submit_same [of w1 q "effective_intent s intent" lease "surf_commits s" why]]
      by (auto simp: present_surface_def sbind_def change_def same_prt_def split: prod.splits sum.splits)
  qed
qed

section \<open>The lock and its acknowledgement\<close>

text \<open>\<open>lock_free m\<close>: the action neither makes nor ends a lock.\<close>

definition lock_kept :: "'z panel_world_scheme \<Rightarrow> 'z panel_world_scheme \<Rightarrow> bool" where
  "lock_kept w w' =
     (p_lock (prt w') = p_lock (prt w) \<and> cancelled_lock_epoch (tel w') = cancelled_lock_epoch (tel w)
      \<and> (\<forall>l. deferred (tel w) l = None \<longrightarrow> deferred (tel w') l = None) \<and> cells w' = cells w)"

lemma lock_kept_refl [simp]: "lock_kept w w"
  by (simp add: lock_kept_def)

lemma lock_kept_trans: "lock_kept w w1 \<Longrightarrow> lock_kept w1 w2 \<Longrightarrow> lock_kept w w2"
  by (simp add: lock_kept_def)

lemma calm_lock_kept: "calm w w' \<Longrightarrow> lock_kept w w'"
  by (simp add: calm_def lock_kept_def)

lemma calmly_lock_kept: "calmly m \<Longrightarrow> world_ok w \<Longrightarrow> lock_kept w (snd (m w))"
  using calm_lock_kept world_ok_calm unfolding calmly_def by blast

lemma install_lock_kept: "lock_kept w (install_foreground lease ink w)"
  by (auto simp: install_foreground_def lock_kept_def Let_def abort_ink_def discard_deferred_damage_def
      split: option.splits)

lemma transition_lock_kept:
  assumes w: "world_ok w"
    and undo: "\<And>p. p_lock (undo p) = p_lock p"
    and publish: "\<And>t. cancelled_lock_epoch (publish t) = cancelled_lock_epoch t \<and> deferred (publish t) = deferred t"
  shows "lock_kept w (snd (transition lease ink r intent why undo publish w))"
proof -
  obtain res w1 where p: "present_surface lease r intent why (install_foreground lease ink w) = (res, w1)"
    by fastforce
  have "lock_kept w w1"
    using lock_kept_trans [OF install_lock_kept calm_lock_kept [OF presented(3) [OF w p]]] .
  then show ?thesis
    using undo publish by (cases res) (simp_all add: transition_run [OF p] lock_kept_def)
qed

lemma set_foreground_with_transition:
  "set_foreground_with lease intent why w =
     (case panel_surface (lease_key lease) w of
        None \<Rightarrow> (Inl (Io_Error K_NotFound (missing_foreground lease)), w)
      | Some s \<Rightarrow>
          transition lease ink_default (surface_full_rect s) intent why
            (p_foreground_update (\<lambda>_. p_foreground (prt w)))
            (\<lambda>t. commit_ink lease False (commit_foreground lease t)) w)"
  by (simp add: set_foreground_with_def reading_def transition_def fail_def split: option.split)

lemma set_foreground_with_lock_kept: "world_ok w \<Longrightarrow> lock_kept w (snd (set_foreground_with lease intent why w))"
  by (auto simp: set_foreground_with_transition commit_ink_def commit_foreground_def
      intro!: transition_lock_kept split: option.split)

lemma activate_lock_kept: "world_ok w \<Longrightarrow> lock_kept w (snd (panel_activate_foreground lease enabled full w))"
proof (cases "panel_surface (lease_key lease) w")
  case None
  then show ?thesis by (simp add: panel_activate_foreground_def reading_def fail_def)
next
  case (Some s)
  assume w: "world_ok w"
  have "panel_activate_foreground lease enabled full w =
      transition lease \<lparr>ink_of = lease, ink_enabled = enabled, ink_region = None\<rparr>
        (surface_full_rect s) (foreground_intent s full) ForegroundSwitch
        (\<lambda>p. p\<lparr>p_foreground := p_foreground (prt w), p_ink := ink_default\<rparr>)
        (\<lambda>t. commit_foreground lease (commit_ink lease enabled t)) w"
    by (simp add: panel_activate_foreground_def reading_def Some transition_def)
  then show ?thesis
    using w by (auto simp: commit_ink_def commit_foreground_def intro!: transition_lock_kept)
qed

lemma clear_unchecked_lock_kept: "lock_kept w (clear_foreground_unchecked w)"
  by (auto simp: clear_foreground_unchecked_def lock_kept_def Let_def abort_ink_def
      discard_deferred_damage_def clear_committed_foreground_def split: option.splits)

lemma drop_surface_lock_kept: "lock_kept w (drop_surface key w)"
proof -
  let ?w = "on_tel (discard_deferred_damage_for_key key) (on_prt (p_surfaces_update (\<lambda>m. m(key := None))) w)"
  have "lock_kept w ?w" by (simp add: lock_kept_def discard_deferred_damage_for_key_def)
  then have "lock_kept w ?w" "lock_kept w (clear_foreground_unchecked ?w)"
    using lock_kept_trans [OF _ clear_unchecked_lock_kept] by blast+
  then show ?thesis
    by (auto simp: drop_surface_def Let_def simp del: on_sel split: option.split)
qed

definition show_or_cancel :: "panel_command \<Rightarrow> bool" where
  "show_or_cancel c = ((\<exists>l e. c = ShowLock l e) \<or> (\<exists>l e n. c = CancelLock l e n))"

lemma handle_lock_kept:
  assumes w: "world_ok w" and c: "\<not> show_or_cancel c"
  shows "lock_kept w (snd (handle now c w))"
proof (cases c)
  case (RegisterSurface a)
  then show ?thesis by (auto simp: action_defs lock_kept_def split: option.split)
next
  case (SetForeground lease full)
  then show ?thesis
    using set_foreground_with_lock_kept [OF w]
    by (auto simp: panel_set_foreground_def reading_def fail_def split: option.split)
next
  case (ConfigureInk lease enabled region)
  then show ?thesis
    by (simp add: panel_configure_ink_def action_defs lock_kept_def abort_ink_def commit_ink_def)
next
  case (ShowLock l e)
  then show ?thesis using c by (simp add: show_or_cancel_def)
next
  case (CancelLock l e n)
  then show ?thesis using c by (simp add: show_or_cancel_def)
qed (use w in \<open>simp_all add: change_def panic_def drop_surface_lock_kept activate_lock_kept
    panel_clear_foreground_def clear_unchecked_lock_kept calmly_lock_kept calmly_handle_damage
    calmly_handle_pen calmly_full_refresh calmly_refresh_lock\<close>)

text \<open>\<open>ShowLock\<close>: either the lock stands afterwards, with its lease on screen and no ink, or nothing
  about locks has changed.\<close>

definition lock_up :: "panel_lease \<Rightarrow> u64 \<Rightarrow> panel_runtime \<Rightarrow> bool" where
  "lock_up lease e p =
     ((\<exists>n. p_lock p = Some \<lparr>plock_epoch = e, plock_lease = lease, plock_frozen = n\<rparr>)
      \<and> p_foreground p = Some lease \<and> \<not> ink_enabled (p_ink p)
      \<and> p_live_dirty p = rect_default \<and> p_settle_deadline p = None)"

lemma install_sel_ink:
  "p_live_dirty (prt (install_foreground lease ink w)) = rect_default"
  "p_settle_deadline (prt (install_foreground lease ink w)) = None"
  by (auto simp: install_foreground_def Let_def abort_ink_def split: option.splits)

lemma show_lock_result:
  assumes w: "world_ok w" and h: "panel_show_lock lease e w = (res, w')"
  shows "(lock_up lease e (prt w') \<and> cancelled_lock_epoch (tel w') = cancelled_lock_epoch (tel w)
      \<and> (\<forall>l. deferred (tel w) l = None \<longrightarrow> deferred (tel w') l = None) \<and> cells w' = cells w)
    \<or> lock_kept w w'"
proof (cases "panel_surface (lease_key lease) w")
  case None
  then show ?thesis using h by (simp add: panel_show_lock_def seq_def sbind_def set_foreground_with_transition)
next
  case (Some s)
  obtain r1 w1 where p: "present_surface lease (surface_full_rect s) Full LockScreen
      (install_foreground lease ink_default w) = (r1, w1)" by fastforce
  have kept: "lock_kept w (snd (set_foreground_with lease Full LockScreen w))"
    by (rule set_foreground_with_lock_kept [OF w])
  show ?thesis
  proof (cases r1)
    case (Inl x)
    then have "set_foreground_with lease Full LockScreen w =
        (Inl x, on_prt (p_foreground_update (\<lambda>_. p_foreground (prt w))) w1)"
      by (simp add: set_foreground_with_transition Some transition_run [OF p])
    then show ?thesis using h kept by (simp add: panel_show_lock_def seq_def sbind_def)
  next
    case (Inr u)
    define w2 where "w2 = on_tel (\<lambda>t. commit_ink lease False (commit_foreground lease t)) w1"
    have f: "set_foreground_with lease Full LockScreen w = (Inr (), w2)"
      using Inr by (simp add: set_foreground_with_transition Some transition_run [OF p] w2_def)
    have k2: "lock_kept w w2" using kept f by simp
    have "p_live_dirty (prt w1) = rect_default" "p_settle_deadline (prt w1) = None"
      using same_prt_sel [OF present_same [OF p]] by (simp_all add: install_sel_ink)
    then have up: "p_foreground (prt w2) = Some lease" "\<not> ink_enabled (p_ink (prt w2))"
      "p_live_dirty (prt w2) = rect_default" "p_settle_deadline (prt w2) = None"
      using presented [OF w p] by (simp_all add: w2_def ink_default_def)
    show ?thesis
      using h up k2
      by (auto simp: panel_show_lock_def seq_def [of "set_foreground_with lease Full LockScreen"] sbind_def f
          action_defs lock_up_def lock_kept_def commit_lock_def split: option.splits if_splits prod.splits)
  qed
qed

text \<open>\<open>CancelLock\<close>: the lock is gone and its cancellation published, or all is as before, the frozen
  pixels included.\<close>

lemma cancel_lock_result:
  assumes inv: "panel_inv w" and h: "panel_cancel_lock lease e n w = (res, w')"
  shows "(p_lock (prt w') = None \<and> (\<exists>l. p_lock (prt w) = Some l \<and> plock_epoch l = e)
        \<and> cancelled_lock_epoch (tel w') = e
        \<and> (\<forall>l. deferred (tel w) l = None \<longrightarrow> deferred (tel w') l = None) \<and> cells w' = cells w)
    \<or> (lock_kept w w' \<and> same_prt w w' \<and> b_pixels (backend (prt w')) = b_pixels (backend (prt w)))"
proof (cases "lock_matches lease e w \<and> (\<exists>s. panel_surface (lease_key lease) w = Some s
      \<and> \<not> (n = 0 \<or> surf_commits s < n))")
  case False
  then have "w' = w"
    using h by (auto simp: panel_cancel_lock_def reading_def fail_def split: option.splits if_splits)
  then show ?thesis by (simp add: same_prt_def)
next
  case True
  then obtain s where s: "panel_surface (lease_key lease) w = Some s" and m: "lock_matches lease e w"
    and n: "\<not> (n = 0 \<or> surf_commits s < n)" by blast
  obtain r1 w1 where p: "present_surface lease (surface_full_rect s) Full UnlockScreen w = (r1, w1)" by fastforce
  have ok: "world_ok w" using inv by (simp add: panel_inv_def)
  have k: "lock_kept w w1"
    by (rule calm_lock_kept [OF calmlyD [OF calmly_present world_ok_calm [OF ok] p]])
  have l: "\<exists>l. p_lock (prt w) = Some l \<and> plock_epoch l = e"
    using m by (auto simp: lock_matches_def split: option.splits)
  show ?thesis
  proof (cases r1)
    case (Inl x)
    have "same_prt w w1" by (rule present_same [OF p])
    then have "same_prt w (on_prt (backend_update (b_pixels_update (\<lambda>_. b_pixels (backend (prt w))))) w1)"
      by (simp add: same_prt_def)
    then show ?thesis
      using h k Inl by (auto simp: panel_cancel_lock_def reading_def m s n seq_def sbind_def or_undo_def p lock_kept_def)
  next
    case (Inr u)
    then show ?thesis
      using h k l by (auto simp: panel_cancel_lock_def reading_def m s n seq_def sbind_def change_def or_undo_def p
          lock_kept_def record_lock_cancelled_def clear_committed_lock_def split: if_splits)
  qed
qed

section \<open>A standing lock is frozen\<close>

text \<open>The commands the host still sends while the display is locked.\<close>

fun harmless :: "panel_command \<Rightarrow> bool" where
  "harmless (RegisterSurface a) = True"
| "harmless (DropSurface key) = True"
| "harmless (Pen_Input lease frame) = True"
| "harmless (RefreshLock lease e) = True"
| "harmless (CancelLock lease e n) = True"
| "harmless Shutdown = True"
| "harmless _ = False"

definition frozen_as :: "'z panel_world_scheme \<Rightarrow> 'z panel_world_scheme \<Rightarrow> panel_lease \<Rightarrow> u64 \<Rightarrow> bool" where
  "frozen_as w w' lease e =
     (lock_up lease e (prt w') \<and> p_lock (prt w') = p_lock (prt w)
      \<and> b_pixels (backend (prt w')) = b_pixels (backend (prt w)) \<and> lock_kept w w')"

lemma same_prt_up: "same_prt w w' \<Longrightarrow> lock_up lease e (prt w) \<Longrightarrow> lock_up lease e (prt w')"
  using same_prt_sel [of w w'] by (simp add: lock_up_def)

lemma submit_pixels: "b_pixels (backend (prt (snd (submit r i l n why w)))) = b_pixels (backend (prt w))"
  by (cases rule: submit_result [of r i l n why w]) simp_all

lemma refresh_lock_frozen:
  assumes "world_ok w" "lock_up lease e (prt w)"
  shows "frozen_as w (snd (panel_refresh_lock lease' e' w)) lease e"
proof -
  let ?w' = "snd (panel_refresh_lock lease' e' w)"
  have k: "lock_kept w ?w'" by (rule calmly_lock_kept [OF calmly_refresh_lock assms(1)])
  have "same_prt w ?w' \<and> b_pixels (backend (prt ?w')) = b_pixels (backend (prt w))"
  proof -
    let ?q = "rect_new 0 0 (b_width (backend (prt w))) (b_height (backend (prt w)))"
    show ?thesis
      using submit_same [of w ?q Full lease'] submit_pixels [of ?q Full lease' _ LockRefresh w]
      by (auto simp: panel_refresh_lock_def action_defs Let_def same_prt_def
          split: option.splits prod.splits sum.splits; metis snd_conv)
  qed
  then show ?thesis using k assms(2) same_prt_up by (auto simp: frozen_as_def lock_kept_def)
qed

lemma harmless_frozen:
  assumes inv: "panel_inv w" and up: "lock_up lease e (prt w)" and c: "harmless c"
  shows "frozen_as w (snd (handle now c w)) lease e
    \<or> (p_lock (prt (snd (handle now c w))) = None \<and> cancelled_lock_epoch (tel (snd (handle now c w))) = e
        \<and> (\<forall>l. deferred (tel w) l = None \<longrightarrow> deferred (tel (snd (handle now c w))) l = None)
        \<and> cells (snd (handle now c w)) = cells w)"
proof (cases c)
  case (RegisterSurface a)
  then show ?thesis using up
    by (auto simp: action_defs frozen_as_def lock_kept_def lock_up_def split: option.split)
next
  case (DropSurface key)
  have "lease_key lease \<noteq> key \<Longrightarrow> drop_surface key w = on_tel (discard_deferred_damage_for_key key)
      (on_prt (p_surfaces_update (\<lambda>m. m(key := None))) w)"
    "lease_key lease = key \<Longrightarrow> drop_surface key w = on_tel (discard_deferred_damage_for_key key)
      (on_prt (p_surfaces_update (\<lambda>m. m(key := None))) w)"
    using up by (auto simp: drop_surface_def Let_def lock_up_def)
  then show ?thesis using DropSurface up
    by (cases "lease_key lease = key")
       (simp_all add: change_def frozen_as_def lock_up_def lock_kept_def discard_deferred_damage_for_key_def)
next
  case (Pen_Input l f)
  have "handle_pen now l f w = (Inr (), w)"
    using up by (simp add: handle_pen_def reading_def valid_ink_def lock_up_def ret_def)
  then show ?thesis using Pen_Input up by (simp add: frozen_as_def)
next
  case (RefreshLock l e')
  then show ?thesis using refresh_lock_frozen [OF _ up] inv by (simp add: panel_inv_def)
next
  case (CancelLock l e' n)
  obtain r w' where h: "panel_cancel_lock l e' n w = (r, w')" by fastforce
  show ?thesis
    using cancel_lock_result [OF inv h] up same_prt_up [of w w'] CancelLock h
    by (auto simp: frozen_as_def lock_kept_def lock_up_def)
next
  case Shutdown
  then show ?thesis using up by (simp add: panic_def frozen_as_def)
qed (use c in simp_all)

text \<open>The flushes after a command find nothing to do.\<close>

lemma flush_frozen:
  assumes up: "lock_up lease e (prt w)" and none: "deferred (tel w) lease = None"
  shows "\<exists>w'. seq flush_deferred_damage (seq (flush_deadlines now) (ret True)) w = (Inr True, w')
    \<and> prt w' = prt w \<and> lock_kept w w'"
proof -
  have "flush_deferred_damage w = (Inr (), on_tel (\<lambda>_. discard_deferred_damage lease (tel w)) w)"
    using up none by (simp add: flush_deferred_damage_def reading_def lock_up_def take_deferred_damage_def change_def)
  moreover have "flush_live now False v = (Inr (), v)" "settle now v = (Inr (), v)"
    if "prt v = prt w" for v :: "'a panel_world_scheme"
    using up that by (simp_all add: flush_live_def settle_def reading_def lock_up_def ret_def Let_def
        rect_default_def rect_is_empty_def)
  ultimately show ?thesis
    by (simp add: seq_def sbind_def flush_deadlines_def ret_def lock_kept_def discard_deferred_damage_def)
qed

end
