(* ===== verification/Display_System.thy ===== *)
theory Display_System
  imports Display_Server Panel_Lock
begin

text \<open>
  The host, its clients and the panel worker together: the steps that the threads of the display
  host interleave, the invariant of the whole, and what follows from it. The display is locked
  through a command on a bounded channel, so the host believes in a lock before the panel shows it;
  the invariant relates the host's lock, the commands still queued and the panel's lock.
\<close>

section \<open>Steps\<close>

text \<open>\<open>foreground_ops\<close> is free when no wait is pending; the packets that need it are those that
  reach \<open>damage\<close> or a refresh.\<close>

fun takes_mutex :: "client_packet \<Rightarrow> bool" where
  "takes_mutex (Initialize key format width height) = False"
| "takes_mutex (SetRefreshMode mode) = False"
| "takes_mutex _ = True"

text \<open>A round of the worker on the oldest command; the thread drops the channel when it ends.\<close>

definition worker_round :: "int \<Rightarrow> display \<Rightarrow> display" where
  "worker_round now d =
     (let received = (case h_channel d of [] \<Rightarrow> None | c # cs \<Rightarrow> Some c) in
      case panel_round now received (d\<lparr>h_channel := tl (h_channel d)\<rparr>) of
        (Inr True, d1) \<Rightarrow> d1
      | (_, d1) \<Rightarrow> d1\<lparr>h_receiver_gone := True, h_channel := []\<rparr>)"

inductive display_step :: "display \<Rightarrow> display \<Rightarrow> bool" where
  control: "h_pending d = No_Wait \<Longrightarrow> display_step d (snd (control_dispatch command d))"
| wait_ink: "display_step d (snd (configure_ink_poll timed_out d))"
| wait_cancel: "display_step d (snd (cancel_lock_poll timed_out d))"
| packet: "h_pending d = No_Wait \<or> \<not> takes_mutex p \<Longrightarrow>
    display_step d (snd (process_packet conn collisions opened answer p d))"
| gone: "h_pending d = No_Wait \<Longrightarrow> display_step d (hang_up conn d)"
| input: "h_pending d = No_Wait \<Longrightarrow> display_step d (snd (dispatch_captured_input captured d))"
| draw: "length bytes = surf_len (cells d ! a) \<Longrightarrow>
    display_step d (update_cell a (surf_bytes_update (\<lambda>_. bytes)) d)"
| writer: "display_step d (d\<lparr>h_queues := (h_queues d)[q := snd (queue_pop (queue_at q (h_queues d)))]\<rparr>)"
| worker: "\<not> h_receiver_gone d \<Longrightarrow> display_step d (worker_round now d)"

inductive display_reaches :: "display \<Rightarrow> display \<Rightarrow> bool" where
  start: "display_reaches d d"
| more: "display_reaches d0 d \<Longrightarrow> display_step d d' \<Longrightarrow> display_reaches d0 d'"

section \<open>The invariant\<close>

definition lease_le :: "u64 \<times> u64 \<Rightarrow> u64 \<times> u64 \<Rightarrow> bool" where
  "lease_le p q = (fst p < fst q \<or> (fst p = fst q \<and> snd p \<le> snd q))"

definition fenced :: "(i32 \<Rightarrow> (u64 \<times> u64) option) \<Rightarrow> panel_lease \<Rightarrow> bool" where
  "fenced m l = (case m (lease_key l) of
     None \<Rightarrow> False | Some p \<Rightarrow> lease_le (lease_generation l, lease_epoch l) p)"

definition is_show :: "panel_command \<Rightarrow> bool" where
  "is_show c = (\<exists>l e. c = ShowLock l e)"

text \<open>Where a lock of the host is on its way to the panel: still queued, shown, or refused or ended
  by the panel.\<close>

definition lock_stage :: "panel_lease \<Rightarrow> u64 \<Rightarrow> display \<Rightarrow> bool" where
  "lock_stage lease e d =
     ((\<exists>pre post. h_channel d = pre @ ShowLock lease e # post \<and> list_all (\<lambda>c. \<not> is_show c) pre
         \<and> list_all harmless post \<and> p_lock (prt d) = None \<and> cancelled_lock_epoch (tel d) \<noteq> e)
      \<or> (list_all harmless (h_channel d)
          \<and> (p_lock (prt d) = None \<or> (lock_up lease e (prt d) \<and> cancelled_lock_epoch (tel d) \<noteq> e))))"

definition lock_inv :: "display \<Rightarrow> bool" where
  "lock_inv d =
     (cancelled_lock_epoch (tel d) \<le> h_last_sleep d
      \<and> (case h_lock d of
           None \<Rightarrow> p_lock (prt d) = None \<and> list_all (\<lambda>c. \<not> is_show c) (h_channel d)
         | Some lock \<Rightarrow>
             lock_sleep_epoch lock = h_last_sleep d \<and> h_last_sleep d \<noteq> 0
             \<and> h_foreground d = Some (lock_foreground lock) \<and> h_prepared d = None
             \<and> deferred (tel d) (panel_lease_of (lock_foreground lock)) = None
             \<and> lock_stage (panel_lease_of (lock_foreground lock)) (lock_sleep_epoch lock) d))"

definition fence_inv :: "display \<Rightarrow> bool" where
  "fence_inv d =
     ((\<forall>f. h_foreground d = Some f \<or> h_prepared d = Some f \<longrightarrow> fenced (h_fences d) (panel_lease_of f))
      \<and> (\<forall>l. deferred (tel d) l \<noteq> None \<longrightarrow> fenced (h_fences d) l))"

definition chan_ok :: "display \<Rightarrow> bool" where
  "chan_ok d = (\<forall>a. RegisterSurface a \<in> set (h_channel d) \<longrightarrow> a < length (cells d))"

definition wait_inv :: "display \<Rightarrow> bool" where
  "wait_inv d = (\<forall>lock. h_pending d = Wait_Cancel lock \<longrightarrow> h_lock d = Some lock)"

definition sys_inv :: "display \<Rightarrow> bool" where
  "sys_inv d = (panel_inv d \<and> chan_ok d \<and> lock_inv d \<and> fence_inv d \<and> wait_inv d)"

lemmas sys_defs = sys_inv_def chan_ok_def lock_inv_def fence_inv_def wait_inv_def lock_stage_def panel_inv_def
  world_ok_def published_def

definition fences_grow :: "display \<Rightarrow> display \<Rightarrow> bool" where
  "fences_grow d d' =
     (\<forall>k p. h_fences d k = Some p \<longrightarrow> (\<exists>q. h_fences d' k = Some q \<and> lease_le p q))"

lemma lease_le_refl [simp]: "lease_le p p"
  by (simp add: lease_le_def)

lemma lease_le_trans: "lease_le p q \<Longrightarrow> lease_le q r \<Longrightarrow> lease_le p r"
  by (auto simp: lease_le_def)

lemma fences_grow_refl: "h_fences d' = h_fences d \<Longrightarrow> fences_grow d d'"
  by (simp add: fences_grow_def)

lemma fences_grow_trans: "fences_grow d d1 \<Longrightarrow> fences_grow d1 d2 \<Longrightarrow> fences_grow d d2"
  unfolding fences_grow_def using lease_le_trans by meson

lemma fenced_grow: "fences_grow d d' \<Longrightarrow> fenced (h_fences d) l \<Longrightarrow> fenced (h_fences d') l"
proof -
  assume g: "fences_grow d d'" and "fenced (h_fences d) l"
  then obtain p where p: "h_fences d (lease_key l) = Some p" "lease_le (lease_generation l, lease_epoch l) p"
    by (auto simp: fenced_def split: option.splits)
  obtain q where "h_fences d' (lease_key l) = Some q" "lease_le p q"
    using g p(1) unfolding fences_grow_def by blast
  then show ?thesis using lease_le_trans [OF p(2)] by (simp add: fenced_def)
qed

section \<open>Host steps that only send commands\<close>

definition host_same :: "display \<Rightarrow> display \<Rightarrow> panel_command list \<Rightarrow> bool" where
  "host_same d d' cs =
     (h_lock d' = h_lock d \<and> h_foreground d' = h_foreground d \<and> h_prepared d' = h_prepared d
      \<and> h_pending d' = h_pending d \<and> h_fences d' = h_fences d \<and> h_last_sleep d' = h_last_sleep d \<and> prt d' = prt d
      \<and> cells d' = cells d \<and> h_channel d' = h_channel d @ cs
      \<and> (\<exists>n. tel d' = (tel d)\<lparr>queue_depth := n\<rparr>))"

lemma tel_self [simp]: "\<exists>n. t = t\<lparr>queue_depth := n\<rparr>"
  by (rule exI [of _ "queue_depth t"]) simp

lemma tel_depth [simp]: "\<exists>n. t\<lparr>queue_depth := k\<rparr> = t\<lparr>queue_depth := n\<rparr>"
  by blast

lemma host_same_refl [simp]: "host_same d d []"
  by (simp add: host_same_def)

lemma host_same_trans: "host_same d d1 cs \<Longrightarrow> host_same d1 d2 cs' \<Longrightarrow> host_same d d2 (cs @ cs')"
  by (auto simp: host_same_def)

definition sendable :: "display \<Rightarrow> panel_command \<Rightarrow> bool" where
  "sendable d c =
     ((harmless c \<or> (h_lock d = None \<and> \<not> is_show c)) \<and> (\<forall>a. c = RegisterSurface a \<longrightarrow> a < length (cells d)))"

lemma harmless_not_show: "harmless c \<Longrightarrow> \<not> is_show c"
  by (cases c) (auto simp: is_show_def)

lemma same_tel:
  assumes "t' = t\<lparr>queue_depth := n\<rparr>"
  shows "committed_foreground t' = committed_foreground t" "committed_ink t' = committed_ink t"
    "committed_lock_epoch t' = committed_lock_epoch t" "cancelled_lock_epoch t' = cancelled_lock_epoch t"
    "recent_submissions t' = recent_submissions t" "deferred t' = deferred t"
  by (simp_all add: assms)

lemma lock_stage_append:
  assumes "lock_stage lease e d" "prt d' = prt d" "cancelled_lock_epoch (tel d') = cancelled_lock_epoch (tel d)"
    "h_channel d' = h_channel d @ cs" "list_all harmless cs"
  shows "lock_stage lease e d'"
  using assms(1) unfolding lock_stage_def
proof (elim disjE exE conjE, goal_cases)
  case (1 pre post)
  then show ?case using assms(2-)
    by (intro disjI1 exI [of _ pre] exI [of _ "post @ cs"]) simp
next
  case 2
  then show ?case using assms(2-) by (intro disjI2) simp
next
  case 3
  then show ?case using assms(2-) by (intro disjI2) simp
qed

lemma host_same_inv:
  assumes inv: "sys_inv d" and same: "host_same d d' cs" and cs: "list_all (sendable d) cs"
  shows "sys_inv d' \<and> fences_grow d d' \<and> prt d' = prt d"
proof -
  obtain n where "tel d' = (tel d)\<lparr>queue_depth := n\<rparr>" using same by (auto simp: host_same_def)
  note t = same_tel [OF this]
  have s: "h_lock d' = h_lock d" "h_foreground d' = h_foreground d" "h_prepared d' = h_prepared d"
    "h_pending d' = h_pending d" "h_fences d' = h_fences d" "h_last_sleep d' = h_last_sleep d" "prt d' = prt d"
    "cells d' = cells d" "h_channel d' = h_channel d @ cs" using same by (simp_all add: host_same_def)
  have p: "panel_inv d'" using inv s t by (simp add: sys_inv_def panel_inv_def world_ok_def published_def)
  have c: "chan_ok d'" using inv s cs by (auto simp: sys_inv_def chan_ok_def list_all_iff sendable_def)
  have f: "fence_inv d'" using inv s t by (simp add: sys_inv_def fence_inv_def)
  have l: "lock_inv d'"
  proof (cases "h_lock d")
    case None
    then have "list_all (\<lambda>c. \<not> is_show c) cs"
      using cs harmless_not_show by (auto simp: list_all_iff sendable_def)
    then show ?thesis using inv s t None by (simp add: sys_inv_def lock_inv_def)
  next
    case (Some lock)
    then have h: "list_all harmless cs" using cs by (auto simp: list_all_iff sendable_def)
    have "lock_stage (panel_lease_of (lock_foreground lock)) (lock_sleep_epoch lock) d"
      using inv unfolding sys_inv_def lock_inv_def Some option.case by blast
    from lock_stage_append [OF this, of d' cs] have
      "lock_stage (panel_lease_of (lock_foreground lock)) (lock_sleep_epoch lock) d'"
      using s t h by blast
    then show ?thesis using inv s t Some by (simp add: sys_inv_def lock_inv_def)
  qed
  have "wait_inv d'" using inv s by (simp add: sys_inv_def wait_inv_def)
  then show ?thesis using p c f l s by (simp add: sys_inv_def fences_grow_refl)
qed

lemma enqueue_cases:
  obtains (sent) d' where "enqueue_panel c d = (Inr (), d')" "host_same d d' [c]"
  | (refused) k m d' where "enqueue_panel c d = (Inl (Io_Error k m), d')" "host_same d d' []"
proof -
  have t: "command_enqueued t = t\<lparr>queue_depth := queue_depth t + 1\<rparr>" for t by (simp add: command_enqueued_def)
  have u: "\<exists>n. command_dequeued (command_enqueued t) = t\<lparr>queue_depth := n\<rparr>" for t
    by (rule exI [of _ "if queue_depth t + 1 = 0 then queue_depth t + 1 else queue_depth t"])
       (simp add: command_dequeued_def command_enqueued_def)
  consider (gone) "h_receiver_gone d" | (full) "\<not> h_receiver_gone d" "h_capacity d \<le> length (h_channel d)"
    | (room) "\<not> h_receiver_gone d" "\<not> h_capacity d \<le> length (h_channel d)" by blast
  then show thesis
  proof cases
    case room
    then show ?thesis using sent by (simp add: enqueue_panel_def host_same_def t on_tel_def)
  next
    case gone
    obtain n where "command_dequeued (command_enqueued (tel d)) = (tel d)\<lparr>queue_depth := n\<rparr>" using u by blast
    then show ?thesis using gone refused by (simp add: enqueue_panel_def host_same_def on_tel_def)
  next
    case full
    obtain n where "command_dequeued (command_enqueued (tel d)) = (tel d)\<lparr>queue_depth := n\<rparr>" using u by blast
    then show ?thesis using full refused by (simp add: enqueue_panel_def host_same_def on_tel_def)
  qed
qed

lemma ignoring_enqueue: "\<exists>cs. host_same d (ignoring (enqueue_panel c) d) cs \<and> set cs \<subseteq> {c}"
  by (cases rule: enqueue_cases [of c d]) (auto simp: ignoring_def)

lemma send_same: "host_same d (snd (send_to_key key packet d)) []"
  by (auto simp: send_to_key_def host_same_def split: option.split prod.split)

definition pens :: "panel_command list \<Rightarrow> bool" where
  "pens cs = (\<forall>c\<in>set cs. \<exists>l f. c = Pen_Input l f)"

lemma pens_sendable: "pens cs \<Longrightarrow> list_all (sendable d) cs"
  by (auto simp: pens_def list_all_iff sendable_def)

lemma cancel_pen_same: "\<exists>cs. host_same d (cancel_pen lease f d) cs \<and> pens cs"
proof -
  let ?d = "snd (send_to_key (lease_key lease) (pen_packet (cancelled_pen f)) d)"
  obtain cs where "host_same ?d (cancel_pen lease f d) cs" "set cs \<subseteq> {Pen_Input lease (cancelled_pen f)}"
    using ignoring_enqueue [of ?d] unfolding cancel_pen_def by blast
  then show ?thesis
    using host_same_trans [OF send_same] by (fastforce simp: pens_def)
qed

lemma release_same: "host_same d (fold (release_touch key) ids d) []"
proof (induction ids arbitrary: d)
  case (Cons i ids)
  show ?case
    using host_same_trans [OF send_same Cons.IH, of d key "input_packet INPUT_TOUCH_RELEASE i 0 0 0"]
    by (simp add: release_touch_def)
qed simp

lemma host_same_irrelevant:
  "host_same d (d'\<lparr>h_suppressed_pen := b\<rparr>) cs = host_same d d' cs"
  "host_same d (d'\<lparr>h_active_pen := v\<rparr>) cs = host_same d d' cs"
  "host_same d (d'\<lparr>h_active_touches := xs\<rparr>) cs = host_same d d' cs"
  "host_same d (d'\<lparr>h_suppressed_touches := xs\<rparr>) cs = host_same d d' cs"
  "host_same d (d'\<lparr>h_input_epoch := n\<rparr>) cs = host_same d d' cs"
  "host_same d (d'\<lparr>h_surfaces := m\<rparr>) cs = host_same d d' cs"
  "host_same d (d'\<lparr>h_queues := q\<rparr>) cs = host_same d d' cs"
  "host_same d (d'\<lparr>h_shutdown := b\<rparr>) cs = host_same d d' cs"
  "host_same d (d'\<lparr>h_injected := n\<rparr>) cs = host_same d d' cs"
  "host_same d (d'\<lparr>h_next_shm := k\<rparr>) cs = host_same d d' cs"
  "host_same d (d'\<lparr>h_last_cancelled := n\<rparr>) cs = host_same d d' cs"
  by (simp_all add: host_same_def)

lemma fence_same: "\<exists>cs. host_same d (fence_input_contacts d) cs \<and> pens cs"
proof -
  define d1 where "d1 = d\<lparr>h_input_epoch := h_input_epoch d + 1\<rparr>"
  define d2 where "d2 = (case h_active_pen d1 of
      None \<Rightarrow> d1
    | Some (lease, f) \<Rightarrow> (cancel_pen lease f (d1\<lparr>h_active_pen := None\<rparr>))\<lparr>h_suppressed_pen := True\<rparr>)"
  have "host_same d d1 []" by (simp add: d1_def host_same_irrelevant)
  moreover have "\<exists>cs. host_same d1 d2 cs \<and> pens cs"
  proof (cases "h_active_pen d1")
    case None
    then show ?thesis by (intro exI [of _ "[]"]) (simp add: d2_def pens_def)
  next
    case (Some a)
    obtain lease f where a: "a = (lease, f)" by (cases a)
    obtain cs where cs: "host_same (d1\<lparr>h_active_pen := None\<rparr>) (cancel_pen lease f (d1\<lparr>h_active_pen := None\<rparr>)) cs" "pens cs"
      using cancel_pen_same by blast
    have "host_same d1 (d1\<lparr>h_active_pen := None\<rparr>) []" by (simp add: host_same_irrelevant)
    from host_same_trans [OF this cs(1)] show ?thesis
      using cs(2) by (intro exI [of _ cs]) (simp add: d2_def Some a host_same_irrelevant)
  qed
  ultimately obtain cs where cs: "host_same d d2 cs" "pens cs"
    using host_same_trans by fastforce
  let ?d3 = "d2\<lparr>h_active_touches := []\<rparr>"
  have d3: "host_same d ?d3 cs" using cs(1) by (simp add: host_same_irrelevant)
  have "host_same d (case h_foreground ?d3 of None \<Rightarrow> ?d3
      | Some foreground \<Rightarrow> fold (release_touch (fg_key foreground)) (h_active_touches d2) ?d3) cs"
    using host_same_trans [OF d3 release_same] d3 by (auto split: option.split)
  then show ?thesis
    using cs(2) unfolding fence_input_contacts_def Let_def d1_def [symmetric] d2_def [symmetric]
    by (intro exI [of _ cs]) (simp only: host_same_irrelevant simp_thms)
qed

section \<open>Good actions\<close>

text \<open>A host action is good when it keeps the invariant, lets no fence go back and leaves the panel
  worker alone.\<close>

definition step_good :: "display \<Rightarrow> display \<Rightarrow> bool" where
  "step_good d d' = (sys_inv d' \<and> fences_grow d d' \<and> prt d' = prt d)"

lemma step_good_refl: "sys_inv d \<Longrightarrow> step_good d d"
  by (simp add: step_good_def fences_grow_refl)

lemma step_good_trans: "step_good d d1 \<Longrightarrow> step_good d1 d2 \<Longrightarrow> step_good d d2"
  using fences_grow_trans by (auto simp: step_good_def)

lemma same_good: "sys_inv d \<Longrightarrow> host_same d d' cs \<Longrightarrow> list_all (sendable d) cs \<Longrightarrow> step_good d d'"
  using host_same_inv by (simp add: step_good_def)

lemma same_good_nil: "sys_inv d \<Longrightarrow> host_same d d' [] \<Longrightarrow> step_good d d'"
  using same_good [of d d' "[]"] by simp

definition good :: "'a host_action \<Rightarrow> bool" where
  "good m = (\<forall>d. sys_inv d \<longrightarrow> step_good d (snd (m d)))"

lemma goodD: "good m \<Longrightarrow> sys_inv d \<Longrightarrow> m d = (r, d') \<Longrightarrow> step_good d d'"
  unfolding good_def by (metis snd_conv)

lemma goodI: "(\<And>d. sys_inv d \<Longrightarrow> step_good d (snd (m d))) \<Longrightarrow> good m"
  by (simp add: good_def)

lemma good_const: "good (ret x)" "good (fail k t)"
  by (simp_all add: good_def action_defs step_good_refl)

lemma good_sbind: "good m \<Longrightarrow> (\<And>x. good (k x)) \<Longrightarrow> good (sbind m k)"
proof (rule goodI)
  fix d
  assume m: "good m" and k: "\<And>x. good (k x)" and d: "sys_inv d"
  obtain r d1 where r: "m d = (r, d1)" by fastforce
  have s: "step_good d d1" by (rule goodD [OF m d r])
  then have "sys_inv d1" by (simp add: step_good_def)
  then show "step_good d (snd (sbind m k d))"
    using s k r step_good_trans [OF s] by (cases r) (auto simp: sbind_def good_def)
qed

lemma good_seq: "good m \<Longrightarrow> good k \<Longrightarrow> good (seq m k)"
  unfolding seq_def by (rule good_sbind)

lemma good_reading: "(\<And>d. good (f d)) \<Longrightarrow> good (reading f)"
  by (simp add: good_def reading_def)

lemma good_change: "(\<And>d. sys_inv d \<Longrightarrow> step_good d (f d)) \<Longrightarrow> good (change f)"
  by (simp add: good_def change_def)

lemma good_option: "good m \<Longrightarrow> (\<And>x. good (k x)) \<Longrightarrow> good (case v of None \<Rightarrow> m | Some x \<Rightarrow> k x)"
  by (cases v) simp_all

lemma good_if: "good m \<Longrightarrow> good k \<Longrightarrow> good (if b then m else k)"
  by simp

lemmas good_rules = good_reading good_seq good_sbind good_const good_option good_if

lemma enqueue_good: "sys_inv d \<Longrightarrow> sendable d c \<Longrightarrow> step_good d (snd (enqueue_panel c d))"
  by (cases rule: enqueue_cases [of c d]) (auto intro: same_good same_good_nil)

lemma good_enqueue: "(\<And>d. sendable d c) \<Longrightarrow> good (enqueue_panel c)"
  using enqueue_good by (simp add: good_def)

lemma fence_good: "sys_inv d \<Longrightarrow> step_good d (fence_input_contacts d)"
  using fence_same [of d] pens_sendable same_good by blast

section \<open>Foreground transitions keep the invariant\<close>

lemma set_leases_good:
  assumes inv: "sys_inv d" and lock: "h_lock d = None"
    and f: "\<And>f. fg = Some f \<or> prep = Some f \<Longrightarrow> fenced (h_fences d) (panel_lease_of f)"
  shows "step_good d (d\<lparr>h_prepared := prep, h_foreground := fg\<rparr>)"
  using inv lock f
  by (simp add: step_good_def sys_inv_def panel_inv_def world_ok_def published_def chan_ok_def
      lock_inv_def fence_inv_def wait_inv_def fences_grow_refl)

lemma set_prepared_good:
  assumes inv: "sys_inv d" and lock: "h_lock d = None"
    and f: "\<And>f. prep = Some f \<Longrightarrow> fenced (h_fences d) (panel_lease_of f)"
  shows "step_good d (d\<lparr>h_prepared := prep\<rparr>)"
  using inv lock f
  by (simp add: step_good_def sys_inv_def panel_inv_def world_ok_def published_def chan_ok_def
      lock_inv_def fence_inv_def wait_inv_def fences_grow_refl)

lemma not_stale_le: "\<not> stale_fence p g e \<Longrightarrow> lease_le p (g, e)"
  by (auto simp: stale_fence_def lease_le_def not_less)

definition fresh_fence :: "display \<Rightarrow> i32 \<Rightarrow> u64 \<Rightarrow> u64 \<Rightarrow> bool" where
  "fresh_fence d key g e = (\<forall>p. h_fences d key = Some p \<longrightarrow> \<not> stale_fence p g e)"

lemma commit_good:
  assumes inv: "sys_inv d" and fresh: "fresh_fence d key g e"
  shows "step_good d (commit_foreground_fence key g e d)"
proof -
  let ?d = "commit_foreground_fence key g e d"
  have grow: "fences_grow d ?d"
    using fresh not_stale_le by (auto simp: fences_grow_def commit_foreground_fence_def fresh_fence_def)
  have "fence_inv ?d"
    using inv fenced_grow [OF grow]
    by (auto simp: sys_inv_def fence_inv_def commit_foreground_fence_def)
  moreover have "panel_inv ?d" "chan_ok ?d" "lock_inv ?d" "wait_inv ?d"
    using inv by (simp_all add: sys_inv_def commit_foreground_fence_def panel_inv_def world_ok_def
        published_def chan_ok_def wait_inv_def lock_inv_def lock_stage_def cong: option.case_cong)
  ultimately show ?thesis using grow by (simp add: step_good_def sys_inv_def) (simp add: commit_foreground_fence_def)
qed

lemma fenced_commit: "fenced (h_fences (commit_foreground_fence key g e d)) (panel_lease_of (new_lease key g e))"
  by (simp add: fenced_def commit_foreground_fence_def panel_lease_of_def new_lease_def)

lemma validate_result:
  "validate_foreground_fence key g e d = (r, d') \<Longrightarrow>
     d' = d \<and> (r = Inr () \<longrightarrow> fresh_fence d key g e)"
  by (auto simp: validate_foreground_fence_def reading_def fail_def ret_def fresh_fence_def
      split: if_splits option.splits)

lemma check_result: "check_unlocked m d = (r, d') \<Longrightarrow> d' = d \<and> (r = Inr () \<longrightarrow> h_lock d = None)"
  by (auto simp: check_unlocked_def reading_def fail_def ret_def split: if_splits)

lemma seq_run: "seq m k d = (case m d of (Inl e, t) \<Rightarrow> (Inl e, t) | (Inr x, t) \<Rightarrow> k t)"
  by (simp add: seq_def sbind_def)

text \<open>The state changes of \<open>set_foreground\<close> and \<open>prepare_foreground\<close> after their checks.\<close>

lemma same_fences: "host_same d d' cs \<Longrightarrow> h_fences d' = h_fences d \<and> h_lock d' = h_lock d"
  by (simp add: host_same_def)

lemma fence_fences: "h_fences (fence_input_contacts d) = h_fences d \<and> h_lock (fence_input_contacts d) = h_lock d"
  using fence_same [of d] same_fences by blast

lemma fence_rest:
  "h_foreground (fence_input_contacts d) = h_foreground d \<and> h_prepared (fence_input_contacts d) = h_prepared d
     \<and> h_last_sleep (fence_input_contacts d) = h_last_sleep d \<and> prt (fence_input_contacts d) = prt d
     \<and> cancelled_lock_epoch (tel (fence_input_contacts d)) = cancelled_lock_epoch (tel d)
     \<and> deferred (tel (fence_input_contacts d)) = deferred (tel d)"
  using fence_same [of d] by (auto simp: host_same_def)

lemma commit_then_set_good:
  assumes inv: "sys_inv d" and lock: "h_lock d = None" and fresh: "fresh_fence d key g e"
  defines "d2 \<equiv> fence_input_contacts (commit_foreground_fence key g e d)"
  shows "step_good d (d2\<lparr>h_prepared := None, h_foreground := Some (new_lease key g e)\<rparr>)"
    "step_good d (d2\<lparr>h_prepared := Some (new_lease key g e)\<rparr>)"
proof -
  let ?d1 = "commit_foreground_fence key g e d"
  have s1: "step_good d ?d1" by (rule commit_good [OF inv fresh])
  then have i1: "sys_inv ?d1" by (simp add: step_good_def)
  have s2: "step_good ?d1 d2" unfolding d2_def by (rule fence_good [OF i1])
  then have i2: "sys_inv d2" by (simp add: step_good_def)
  have l2: "h_lock d2 = None" "fenced (h_fences d2) (panel_lease_of (new_lease key g e))"
    using fence_fences [of ?d1] fenced_commit [of key g e d] lock
    by (simp_all add: d2_def) (simp add: commit_foreground_fence_def)
  have "step_good d2 (d2\<lparr>h_prepared := None, h_foreground := Some (new_lease key g e)\<rparr>)"
    by (rule set_leases_good [OF i2 l2(1)]) (use l2(2) in auto)
  moreover have "step_good d2 (d2\<lparr>h_prepared := Some (new_lease key g e)\<rparr>)"
    by (rule set_prepared_good [OF i2 l2(1)]) (use l2(2) in simp)
  ultimately show "step_good d (d2\<lparr>h_prepared := None, h_foreground := Some (new_lease key g e)\<rparr>)"
    "step_good d (d2\<lparr>h_prepared := Some (new_lease key g e)\<rparr>)"
    using step_good_trans [OF step_good_trans [OF s1 s2]] by simp_all
qed

lemma checks_run:
  obtains (pass) "check_unlocked m d = (Inr (), d)" "validate_foreground_fence key g e d = (Inr (), d)"
      "h_lock d = None" "fresh_fence d key g e"
  | (stop) x where "\<And>k :: unit host_action. seq (check_unlocked m) (seq (validate_foreground_fence key g e) k) d = (Inl x, d)"
proof -
  obtain r where c: "check_unlocked m d = (r, d)" using check_result by (metis surj_pair)
  obtain v where v: "validate_foreground_fence key g e d = (v, d)" using validate_result by (metis surj_pair)
  show thesis
  proof (cases r)
    case (Inl x)
    then show ?thesis using c stop by (simp add: seq_run)
  next
    case r: (Inr u)
    show ?thesis
    proof (cases v)
      case (Inl x)
      then show ?thesis using c v r stop by (simp add: seq_run)
    next
      case (Inr u')
      then show ?thesis using c v r check_result [OF c] validate_result [OF v] pass by simp
    qed
  qed
qed

lemma good_set_foreground: "good (set_foreground key g e full)"
proof (rule goodI)
  fix d
  assume inv: "sys_inv d"
  let ?c = "SetForeground (panel_lease_of (new_lease key g e)) full"
  show "step_good d (snd (set_foreground key g e full d))"
  proof (cases rule: checks_run [of "''display is locked''" d key g e])
    case stop
    then show ?thesis by (simp add: set_foreground_def Let_def step_good_refl inv)
  next
    case pass
    have run: "set_foreground key g e full d = seq (enqueue_panel ?c)
        (change (\<lambda>d. (fence_input_contacts (commit_foreground_fence key g e d))
          \<lparr>h_prepared := None, h_foreground := Some (new_lease key g e)\<rparr>)) d"
      using pass by (simp add: set_foreground_def Let_def seq_run [of "check_unlocked _"]
          seq_run [of "validate_foreground_fence key g e"])
    have send: "sendable d ?c" using pass(3) by (simp add: sendable_def is_show_def)
    show ?thesis
    proof (cases rule: enqueue_cases [of ?c d])
      case (sent d1)
      have s: "step_good d d1" by (rule same_good [OF inv sent(2)]) (simp add: send)
      then have "sys_inv d1" by (simp add: step_good_def)
      moreover have "h_lock d1 = None" "fresh_fence d1 key g e"
        using same_fences [OF sent(2)] pass(3,4) by (simp_all add: fresh_fence_def)
      ultimately show ?thesis
        using step_good_trans [OF s commit_then_set_good(1)] sent by (simp add: run seq_run change_def)
    next
      case (refused k m d1)
      then show ?thesis using same_good_nil [OF inv] by (simp add: run seq_run)
    qed
  qed
qed

lemma good_prepare: "good (prepare_foreground key g e)"
proof (rule goodI)
  fix d
  assume inv: "sys_inv d"
  show "step_good d (snd (prepare_foreground key g e d))"
  proof (cases rule: checks_run [of "''display is locked''" d key g e])
    case stop
    then show ?thesis by (simp add: prepare_foreground_def step_good_refl inv)
  next
    case pass
    then show ?thesis
      using commit_then_set_good(2) [OF inv pass(3,4)] by (simp add: prepare_foreground_def seq_run change_def)
  qed
qed

lemma enqueue_then:
  assumes inv: "sys_inv d" and send: "sendable d c"
    and k: "\<And>d1. host_same d d1 [c] \<Longrightarrow> sys_inv d1 \<Longrightarrow> step_good d1 (f d1)"
  shows "step_good d (snd (seq (enqueue_panel c) (change f) d))"
proof (cases rule: enqueue_cases [of c d])
  case (sent d1)
  have s: "step_good d d1" by (rule same_good [OF inv sent(2)]) (simp add: send)
  then have "step_good d1 (f d1)" using k [OF sent(2)] by (simp add: step_good_def)
  then show ?thesis using step_good_trans [OF s] sent by (simp add: seq_run change_def)
next
  case (refused k m d1)
  then show ?thesis using same_good_nil [OF inv] by (simp add: seq_run)
qed

lemma good_activate: "good (activate_foreground key g e ink full)"
proof (rule goodI)
  fix d
  assume inv: "sys_inv d"
  obtain r where c: "check_unlocked ''display is locked'' d = (r, d)" using check_result by (metis surj_pair)
  let ?ok = "\<lambda>p. \<not> (fg_key p \<noteq> key \<or> fg_generation p \<noteq> g \<or> fg_epoch p \<noteq> e)"
  show "step_good d (snd (activate_foreground key g e ink full d))"
  proof (cases "h_lock d = None \<and> r = Inr () \<and> (\<exists>p. h_prepared d = Some p \<and> ?ok p)")
    case False
    then have "snd (activate_foreground key g e ink full d) = d"
      using check_result [OF c] c
      by (cases r) (auto simp: activate_foreground_def seq_run reading_def fail_def split: option.split)
    then show ?thesis using step_good_refl [OF inv] by simp
  next
    case True
    then obtain p where p: "h_prepared d = Some p" "?ok p" by blast
    let ?a = "p\<lparr>fg_ink := ink\<rparr>"
    have lease: "panel_lease_of ?a = panel_lease_of p" by (simp add: panel_lease_of_def)
    have run: "activate_foreground key g e ink full d =
        seq (enqueue_panel (ActivateForeground (panel_lease_of ?a) ink full))
          (change (\<lambda>d. d\<lparr>h_foreground := Some ?a, h_prepared := None\<rparr>)) d"
      using True p c by (simp add: activate_foreground_def seq_run [of "check_unlocked _"] reading_def Let_def)
    show ?thesis
      unfolding run
    proof (rule enqueue_then [OF inv])
      show "sendable d (ActivateForeground (panel_lease_of ?a) ink full)"
        using True by (simp add: sendable_def is_show_def)
      fix d1 assume same: "host_same d d1 [ActivateForeground (panel_lease_of ?a) ink full]" and i1: "sys_inv d1"
      have "fenced (h_fences d1) (panel_lease_of ?a)"
        using i1 same p lease by (simp add: sys_inv_def fence_inv_def host_same_def)
      then have "step_good d1 (d1\<lparr>h_prepared := None, h_foreground := Some ?a\<rparr>)"
        using same True by (intro set_leases_good [OF i1]) (auto simp: host_same_def)
      moreover have "d1\<lparr>h_foreground := Some ?a, h_prepared := None\<rparr> = d1\<lparr>h_prepared := None, h_foreground := Some ?a\<rparr>"
        by simp
      ultimately show "step_good d1 (d1\<lparr>h_foreground := Some ?a, h_prepared := None\<rparr>)" by (simp only:)
    qed
  qed
qed

lemma drop_foreground_good:
  "sys_inv d \<Longrightarrow> h_lock d = None \<Longrightarrow> step_good d (d\<lparr>h_foreground := None\<rparr>)"
  by (simp add: step_good_def sys_inv_def panel_inv_def world_ok_def published_def chan_ok_def
      lock_inv_def fence_inv_def wait_inv_def fences_grow_refl)

lemma clear_locked_good:
  assumes inv: "sys_inv d" and lock: "h_lock d = None"
  shows "step_good d (snd (clear_foreground_locked lease d))"
proof (cases "map_option panel_lease_of (h_foreground d) = Some lease")
  case False
  then show ?thesis using step_good_refl [OF inv] by (simp add: clear_foreground_locked_def reading_def ret_def)
next
  case True
  have run: "clear_foreground_locked lease d = seq (enqueue_panel (ClearForeground lease))
      (change (\<lambda>d. let d1 = fence_input_contacts d in
         if map_option panel_lease_of (h_foreground d1) = Some lease then d1\<lparr>h_foreground := None\<rparr> else d1)) d"
    by (simp only: clear_foreground_locked_def reading_def True not_True_eq_False simp_thms if_False)
  show ?thesis
    unfolding run
  proof (rule enqueue_then [OF inv])
    show "sendable d (ClearForeground lease)" using lock by (simp add: sendable_def is_show_def)
    fix d1 assume same: "host_same d d1 [ClearForeground lease]" and i1: "sys_inv d1"
    let ?d2 = "fence_input_contacts d1"
    have s2: "step_good d1 ?d2" by (rule fence_good [OF i1])
    have "h_lock ?d2 = None" using fence_fences [of d1] same lock by (simp add: host_same_def)
    then have "step_good ?d2 (?d2\<lparr>h_foreground := None\<rparr>)"
      using s2 by (intro drop_foreground_good) (simp_all add: step_good_def)
    then show "step_good d1 (let d2 = ?d2 in
        if map_option panel_lease_of (h_foreground d2) = Some lease then d2\<lparr>h_foreground := None\<rparr> else d2)"
      using s2 step_good_trans [OF s2] by (simp add: Let_def)
  qed
qed

lemma good_clear: "good clear_foreground"
proof (rule goodI)
  fix d
  assume inv: "sys_inv d"
  let ?m = "''cannot clear foreground while display is locked''"
  obtain r where c: "check_unlocked ?m d = (r, d)" using check_result by (metis surj_pair)
  show "step_good d (snd (clear_foreground d))"
  proof (cases r)
    case (Inl x)
    then show ?thesis using c step_good_refl [OF inv] by (simp add: clear_foreground_def seq_run)
  next
    case (Inr u)
    then have lock: "h_lock d = None" using check_result [OF c] by simp
    let ?d = "d\<lparr>h_prepared := None\<rparr>"
    have s: "step_good d ?d" by (rule set_prepared_good [OF inv lock]) simp
    then have "step_good ?d (snd (clear_foreground_locked lease ?d))" for lease
      using lock by (intro clear_locked_good) (simp_all add: step_good_def)
    then show ?thesis
      using step_good_trans [OF s] s c Inr
      by (auto simp: clear_foreground_def seq_run change_def reading_def ret_def split: option.split)
  qed
qed

lemma set_pending_good:
  "sys_inv d \<Longrightarrow> (\<And>lock. w = Wait_Cancel lock \<Longrightarrow> h_lock d = Some lock) \<Longrightarrow> step_good d (d\<lparr>h_pending := w\<rparr>)"
  by (simp add: step_good_def sys_inv_def panel_inv_def world_ok_def published_def chan_ok_def
      lock_inv_def lock_stage_def fence_inv_def wait_inv_def fences_grow_refl cong: option.case_cong)

lemma set_foreground_pending_good:
  "sys_inv d \<Longrightarrow> h_lock d = None \<Longrightarrow> fenced (h_fences d) (panel_lease_of f) \<Longrightarrow>
     step_good d (d\<lparr>h_foreground := Some f, h_pending := Wait_Ink l b\<rparr>)"
  by (simp add: step_good_def sys_inv_def panel_inv_def world_ok_def published_def chan_ok_def
      lock_inv_def fence_inv_def wait_inv_def fences_grow_refl)

lemma good_configure_ink: "good (configure_ink key g e enabled region)"
proof (rule goodI)
  fix d
  assume inv: "sys_inv d"
  let ?m = "''cannot configure direct ink while display is locked''"
  obtain r where c: "check_unlocked ?m d = (r, d)" using check_result by (metis surj_pair)
  let ?ok = "\<lambda>p. \<not> (fg_key p \<noteq> key \<or> fg_generation p \<noteq> g \<or> fg_epoch p \<noteq> e)"
  show "step_good d (snd (configure_ink key g e enabled region d))"
  proof (cases "h_lock d = None \<and> r = Inr () \<and> (\<exists>p. h_foreground d = Some p \<and> ?ok p)")
    case False
    then have "snd (configure_ink key g e enabled region d) = d"
      using check_result [OF c] c
      by (cases r) (auto simp: configure_ink_def seq_run reading_def fail_def split: option.split)
    then show ?thesis using step_good_refl [OF inv] by simp
  next
    case True
    then obtain p where p: "h_foreground d = Some p" "?ok p" by blast
    let ?c = "ConfigureInk (panel_lease_of p) enabled region"
    have run: "configure_ink key g e enabled region d = seq (enqueue_panel ?c)
        (change (\<lambda>d. d\<lparr>h_foreground := Some (p\<lparr>fg_ink := enabled\<rparr>),
           h_pending := Wait_Ink (panel_lease_of p) enabled\<rparr>)) d"
      using True p c by (simp add: configure_ink_def seq_run [of "check_unlocked _"] reading_def)
    show ?thesis
      unfolding run
    proof (rule enqueue_then [OF inv])
      show "sendable d ?c" using True by (simp add: sendable_def is_show_def)
      fix d1 assume same: "host_same d d1 [?c]" and i1: "sys_inv d1"
      have "panel_lease_of (p\<lparr>fg_ink := enabled\<rparr>) = panel_lease_of p" by (simp add: panel_lease_of_def)
      then have "fenced (h_fences d1) (panel_lease_of (p\<lparr>fg_ink := enabled\<rparr>))"
        using i1 same p by (simp add: sys_inv_def fence_inv_def host_same_def)
      then show "step_good d1 (d1\<lparr>h_foreground := Some (p\<lparr>fg_ink := enabled\<rparr>),
          h_pending := Wait_Ink (panel_lease_of p) enabled\<rparr>)"
        using same True i1 by (intro set_foreground_pending_good) (simp_all add: host_same_def)
    qed
  qed
qed

lemma good_ink_poll: "good (configure_ink_poll timed_out)"
  unfolding configure_ink_poll_def
proof (rule good_reading)
  fix d
  show "good (case h_pending d of
       Wait_Ink lease enabled \<Rightarrow>
         if committed_ink (tel d) = Some (lease, enabled)
         then seq (change (h_pending_update (\<lambda>_. No_Wait))) (ret (Some ()))
         else if timed_out
         then seq (change (h_pending_update (\<lambda>_. No_Wait)))
                (fail K_TimedOut ''panel did not acknowledge the direct-ink policy'')
         else ret None
     | _ \<Rightarrow> ret None)"
    by (cases "h_pending d") (auto intro!: good_rules good_change set_pending_good)
qed

text \<open>Commands that are always sendable, or sendable because the display is not locked.\<close>

lemma good_refresh_lock: "good (refresh_lock e)"
  unfolding refresh_lock_def by (intro good_rules good_enqueue) (simp add: sendable_def)

lemma good_full_refresh: "good request_full_refresh"
proof (rule goodI)
  fix d
  assume inv: "sys_inv d"
  have "sendable d (RefreshLock l e)" "h_lock d = None \<Longrightarrow> sendable d (FullRefresh l)" for l e
    by (simp_all add: sendable_def is_show_def)
  then show "step_good d (snd (request_full_refresh d))"
    using inv by (auto simp: request_full_refresh_def reading_def ret_def step_good_refl enqueue_good
        split: option.split)
qed

lemma good_surface_refresh: "good (request_surface_full_refresh key)"
proof (rule goodI)
  fix d
  assume inv: "sys_inv d"
  have "h_lock d = None \<Longrightarrow> sendable d (FullRefresh l)" for l by (simp add: sendable_def is_show_def)
  then show "step_good d (snd (request_surface_full_refresh key d))"
    using inv by (auto simp: request_surface_full_refresh_def reading_def ret_def step_good_refl enqueue_good
        split: option.split)
qed

lemma defer_good:
  assumes inv: "sys_inv d" and lock: "h_lock d = None" and f: "fenced (h_fences d) lease"
  shows "step_good d (on_tel (defer_damage lease r intent) d)"
proof -
  have tel: "committed_foreground (defer_damage lease r intent t) = committed_foreground t"
    "committed_ink (defer_damage lease r intent t) = committed_ink t"
    "committed_lock_epoch (defer_damage lease r intent t) = committed_lock_epoch t"
    "cancelled_lock_epoch (defer_damage lease r intent t) = cancelled_lock_epoch t"
    "recent_submissions (defer_damage lease r intent t) = recent_submissions t"
    "deferred (defer_damage lease r intent t) l \<noteq> None \<longrightarrow> l = lease \<or> deferred t l \<noteq> None" for t l
    by (auto simp: defer_damage_def)
  have same: "prt (on_tel f d) = prt d" "cells (on_tel f d) = cells d" "h_channel (on_tel f d) = h_channel d"
    "h_lock (on_tel f d) = h_lock d" "h_fences (on_tel f d) = h_fences d" "h_foreground (on_tel f d) = h_foreground d"
    "h_prepared (on_tel f d) = h_prepared d" "h_last_sleep (on_tel f d) = h_last_sleep d"
    "h_pending (on_tel f d) = h_pending d" "tel (on_tel f d) = f (tel d)" for f
    by (simp_all add: on_tel_def)
  have "fence_inv (on_tel (defer_damage lease r intent) d)"
    using inv f tel(6) [of "tel d"] by (auto simp: fence_inv_def sys_inv_def same)
  then show ?thesis
    using inv lock by (simp add: step_good_def sys_inv_def panel_inv_def world_ok_def published_def chan_ok_def
        lock_inv_def wait_inv_def fences_grow_refl same tel)
qed

lemma lease_fenced:
  "sys_inv d \<Longrightarrow> lease_of_key key d = Some lease \<Longrightarrow> fenced (h_fences d) lease"
  by (auto simp: lease_of_key_def sys_inv_def fence_inv_def split: option.splits if_splits)

lemma good_damage: "good (damage key r intent)"
proof (rule goodI)
  fix d
  assume inv: "sys_inv d"
  show "step_good d (snd (damage key r intent d))"
  proof (cases "h_prepared d = None \<and> h_lock d = None \<and> (\<exists>l. lease_of_key key d = Some l)")
    case False
    then have "damage key r intent d = (Inr (), d)"
      by (auto simp: damage_def reading_def ret_def split: option.split)
    then show ?thesis using step_good_refl [OF inv] by simp
  next
    case True
    then obtain lease where lease: "lease_of_key key d = Some lease" by blast
    let ?c = "Damage lease r intent"
    have send: "sendable d ?c" using True by (simp add: sendable_def is_show_def)
    show ?thesis
    proof (cases rule: enqueue_cases [of ?c d])
      case (sent d1)
      then show ?thesis
        using same_good [OF inv sent(2)] send True lease by (simp add: damage_def reading_def)
    next
      case (refused k m d1)
      have s: "step_good d d1" by (rule same_good_nil [OF inv refused(2)])
      have "step_good d1 (on_tel (defer_damage lease r intent) d1)"
        using s refused(2) lease_fenced [OF inv lease] True
        by (intro defer_good) (simp_all add: step_good_def host_same_def)
      then show ?thesis
        using step_good_trans [OF s] s refused(1) True lease
        by (cases k) (simp_all add: damage_def reading_def)
    qed
  qed
qed

section \<open>Surfaces\<close>

lemma cells_good:
  assumes inv: "sys_inv d" and len: "length (cells d) \<le> length cs" and ok: "list_all surface_ok cs"
  shows "step_good d (d\<lparr>cells := cs\<rparr>)"
  using assms
  by (auto simp: step_good_def sys_inv_def panel_inv_def world_ok_def published_def chan_ok_def
      lock_inv_def lock_stage_def fence_inv_def wait_inv_def fences_grow_refl cong: option.case_cong)

lemma update_cell_good:
  assumes inv: "sys_inv d" and f: "surface_ok (cells d ! a) \<Longrightarrow> surface_ok (f (cells d ! a))"
  shows "step_good d (update_cell a f d)"
proof (cases "a < length (cells d)")
  case True
  have ok: "list_all surface_ok (cells d)" using inv by (simp add: sys_inv_def panel_inv_def world_ok_def)
  then have "surface_ok (f (cells d ! a))" using f True by (simp add: list_all_length)
  then have "list_all surface_ok ((cells d)[a := f (cells d ! a)])"
    using ok set_update_subset_insert [of "cells d" a "f (cells d ! a)"] by (auto simp: list_all_iff)
  then show ?thesis using True cells_good [OF inv] by (simp add: update_cell_def)
next
  case False
  then show ?thesis using step_good_refl [OF inv] by (simp add: update_cell_def)
qed

lemma good_mark_commit: "good (mark_commit key)"
  unfolding mark_commit_def
  by (intro good_rules good_change update_cell_good) (simp_all add: surface_mark_commit_def surface_ok_def)

lemma good_commit_damage: "good (commit_damage key r)"
  unfolding commit_damage_def by (intro good_rules good_mark_commit good_damage)

lemma good_refresh_mode: "good (set_refresh_mode key mode)"
  unfolding set_refresh_mode_def
  by (intro good_rules good_change update_cell_good) (simp_all add: surface_ok_def)

lemma irrelevant_good:
  assumes "sys_inv d"
  shows "step_good d (d\<lparr>h_surfaces := m\<rparr>)" "step_good d (d\<lparr>h_queues := qs\<rparr>)"
    "step_good d (d\<lparr>h_shutdown := b\<rparr>)" "step_good d (d\<lparr>h_injected := n\<rparr>)" "step_good d (d\<lparr>h_next_shm := k\<rparr>)"
    "step_good d (d\<lparr>h_suppressed_touches := ids\<rparr>)" "step_good d (d\<lparr>h_active_touches := ids\<rparr>)"
    "step_good d (d\<lparr>h_suppressed_pen := b\<rparr>)" "step_good d (d\<lparr>h_active_pen := ap\<rparr>)"
  by (rule same_good_nil [OF assms]; simp add: host_same_irrelevant)+

end
