(* ===== verification/Display_Invariant.thy ===== *)
theory Display_Invariant
  imports Display_System
begin

text \<open>
  Every step of the display host keeps the invariant of \<open>Display_System\<close>: the registration of
  surfaces, the lock, the delivery of input, the clients' packets and the rounds of the panel worker.
  From the invariant follow the guarantees of the lock, of the fences and of the input routing.
\<close>

section \<open>Registration keeps the invariant\<close>

declare create_surface.simps [simp del]

lemma create_surface_Suc:
  "create_surface key w h format (Suc n) opened d =
     (let r = surface_create key w h format (shm_candidate (h_next_shm d)) (Inl (Io_Error K_AlreadyExists ''File exists''));
          d1 = d\<lparr>h_next_shm := h_next_shm d + 1\<rparr>
      in if \<exists>m. r = Inl (Io_Error K_AlreadyExists m) then create_surface key w h format n opened d1 else (r, d1))"
  by (simp add: create_surface.simps [of _ _ _ _ "Suc n"] Let_def split: sum.split io_error.split error_kind.split)

lemma create_surface_0:
  "create_surface key w h format 0 opened d =
     (surface_create key w h format (shm_candidate (h_next_shm d)) opened, d\<lparr>h_next_shm := h_next_shm d + 1\<rparr>)"
  by (simp add: create_surface.simps [of _ _ _ _ 0] Let_def)

lemma create_surface_result:
  "create_surface key w h format n opened d = (r, d') \<Longrightarrow>
     host_same d d' [] \<and> (\<forall>s. r = Inr s \<longrightarrow> surface_ok s)"
proof (induction n arbitrary: d)
  case 0
  then show ?case
    using surface_create_ok by (auto simp: create_surface_0 host_same_irrelevant)
next
  case (Suc n)
  define d1 where "d1 = d\<lparr>h_next_shm := h_next_shm d + 1\<rparr>"
  have s1: "host_same d d1 []" by (simp add: d1_def host_same_irrelevant)
  consider (again) "create_surface key w h format n opened d1 = (r, d')"
    | (ended) "r = surface_create key w h format (shm_candidate (h_next_shm d)) (Inl (Io_Error K_AlreadyExists ''File exists''))"
        "d' = d1"
    using Suc.prems unfolding create_surface_Suc Let_def d1_def [symmetric]
    by (cases "\<exists>m. surface_create key w h format (shm_candidate (h_next_shm d))
        (Inl (Io_Error K_AlreadyExists ''File exists'')) = Inl (Io_Error K_AlreadyExists m)") auto
  then show ?case
  proof cases
    case again
    from Suc.IH [OF this] show ?thesis using host_same_trans [OF s1] by fastforce
  next
    case ended
    then show ?thesis using s1 surface_create_ok by metis
  qed
qed

lemma surfaces_at: "h_surfaces_update f d = d\<lparr>h_surfaces := f (h_surfaces d)\<rparr>"
  by (cases d) simp

lemma good_register: "good (register key w h format n opened)"
proof (rule goodI)
  fix d
  assume inv: "sys_inv d"
  show "step_good d (snd (register key w h format n opened d))"
  proof (cases "h_surfaces d key")
    case (Some entry)
    then show ?thesis
      using step_good_refl [OF inv]
      by (simp add: register_def reading_def validate_surface_def seq_run fail_def ret_def Let_def split: option.split)
  next
    case None
    obtain r d1 where c: "create_surface key w h format n opened d = (r, d1)" by fastforce
    have s1: "step_good d d1" and ok: "\<And>s. r = Inr s \<Longrightarrow> surface_ok s"
      using create_surface_result [OF c] same_good_nil [OF inv] by auto
    show ?thesis
    proof (cases r)
      case (Inl e)
      then show ?thesis using c None s1 by (simp add: register_def reading_def sbind_def)
    next
      case (Inr s)
      let ?a = "length (cells d1)"
      define d2 where "d2 = d1\<lparr>cells := cells d1 @ [s]\<rparr>"
      define d3 where "d3 = d2\<lparr>h_surfaces := (h_surfaces d2)(key \<mapsto> \<lparr>entry_cell = ?a, entry_clients = []\<rparr>)\<rparr>"
      have i1: "sys_inv d1" using s1 by (simp add: step_good_def)
      have s2: "step_good d1 d2"
        unfolding d2_def
        by (rule cells_good [OF i1]) (use i1 ok [OF Inr] in \<open>simp_all add: sys_inv_def panel_inv_def world_ok_def\<close>)
      then have i2: "sys_inv d2" by (simp add: step_good_def)
      have s3: "step_good d2 d3" unfolding d3_def by (rule irrelevant_good(1) [OF i2])
      then have i3: "sys_inv d3" by (simp add: step_good_def)
      have send: "sendable d3 (RegisterSurface ?a)" by (simp add: sendable_def d3_def d2_def)
      let ?drop = "h_surfaces_update (\<lambda>m. m(key := None))"
      have run: "snd (register key w h format n opened d) =
          snd (or_undo (enqueue_panel (RegisterSurface ?a)) ?drop d3)"
        using c None Inr
        by (simp add: register_def reading_def sbind_def change_def seq_run ret_def d3_def d2_def Let_def
            split: prod.split sum.split)
      have "step_good d3 (snd (or_undo (enqueue_panel (RegisterSurface ?a)) ?drop d3))"
      proof (cases rule: enqueue_cases [of "RegisterSurface ?a" d3])
        case (sent d4)
        then show ?thesis using same_good [OF i3 sent(2)] send by (simp add: or_undo_def)
      next
        case (refused k m d4)
        have s4: "step_good d3 d4" by (rule same_good_nil [OF i3 refused(2)])
        then have "sys_inv d4" by (simp add: step_good_def)
        from irrelevant_good(1) [OF this, of "(h_surfaces d4)(key := None)"]
        have "step_good d4 (?drop d4)" by (subst surfaces_at)
        from step_good_trans [OF s4 this] show ?thesis by (simp add: or_undo_def refused(1))
      qed
      then show ?thesis
        unfolding run using step_good_trans [OF step_good_trans [OF step_good_trans [OF s1 s2] s3]] by blast
    qed
  qed
qed

lemma good_activate_client: "good (activate_client key client q)"
  unfolding activate_client_def by (intro good_rules good_change irrelevant_good(1))

lemma fail_closed_good: "sys_inv d \<Longrightarrow> step_good d (fail_closed d)"
  by (simp add: fail_closed_def irrelevant_good)

lemma abort_registration_good: "sys_inv d \<Longrightarrow> step_good d (abort_registration key d)"
proof -
  assume inv: "sys_inv d"
  let ?d = "d\<lparr>h_surfaces := (h_surfaces d)(key := None)\<rparr>"
  have s: "step_good d ?d" by (rule irrelevant_good(1) [OF inv])
  then have i: "sys_inv ?d" by (simp add: step_good_def)
  obtain r d1 where e: "enqueue_panel (DropSurface key) ?d = (r, d1)" by fastforce
  have s1: "step_good ?d d1" using enqueue_good [OF i, of "DropSurface key"] e by (simp add: sendable_def)
  then have "sys_inv d1" by (simp add: step_good_def)
  then show ?thesis
    using step_good_refl [OF inv] step_good_trans [OF s s1] step_good_trans [OF step_good_trans [OF s s1] fail_closed_good]
    by (auto simp: abort_registration_def e split: option.split sum.split)
qed

text \<open>A lease that \<open>unregister\<close> clears is not the locked one, for the lock is in the foreground.\<close>

lemma clear_lease_unlocked:
  "sys_inv d \<Longrightarrow> clear_lease_for key d = Some lease \<Longrightarrow> h_lock d = None"
  by (auto simp: clear_lease_for_def sys_inv_def lock_inv_def split: option.splits if_splits)

lemma enqueue_lock: "enqueue_panel c d = (r, d') \<Longrightarrow> h_lock d' = h_lock d \<and> h_prepared d' = h_prepared d"
  by (cases rule: enqueue_cases [of c d]) (auto simp: host_same_def)

lemma prepared_unlocked: "sys_inv d \<Longrightarrow> h_prepared d = Some p \<Longrightarrow> h_lock d = None"
  by (auto simp: sys_inv_def lock_inv_def split: option.splits)

lemma remove_surface_good:
  assumes inv: "sys_inv d0"
  shows "step_good d0 (remove_surface key d0)"
proof -
  let ?d = "d0\<lparr>h_surfaces := (h_surfaces d0)(key := None)\<rparr>"
  have s: "step_good d0 ?d" by (rule irrelevant_good(1) [OF inv])
  then have i: "sys_inv ?d" by (simp add: step_good_def)
  obtain r d1 where e: "enqueue_panel (DropSurface key) ?d = (r, d1)" by fastforce
  have s1: "step_good ?d d1" using enqueue_good [OF i, of "DropSurface key"] e by (simp add: sendable_def)
  then have i1: "sys_inv d1" by (simp add: step_good_def)
  define d2 where "d2 = (if (case h_prepared d1 of None \<Rightarrow> False | Some p \<Rightarrow> fg_key p = key)
      then d1\<lparr>h_prepared := None\<rparr> else d1)"
  have s2: "step_good d1 d2"
  proof (cases "h_prepared d1")
    case None
    then show ?thesis by (simp add: d2_def step_good_refl i1)
  next
    case (Some p)
    then show ?thesis
      using prepared_unlocked [OF i1] set_prepared_good [OF i1, of None] by (simp add: d2_def step_good_refl i1)
  qed
  then have i2: "sys_inv d2" by (simp add: step_good_def)
  have l2: "h_lock d2 = h_lock d0" using enqueue_lock [OF e] by (simp add: d2_def)
  define d3 where "d3 = (case clear_lease_for key d0 of
      None \<Rightarrow> d2
    | Some l \<Rightarrow> (case clear_foreground_locked l (fence_input_contacts d2) of
         (Inr _, t) \<Rightarrow> t | (Inl e, t) \<Rightarrow> fail_closed t))"
  have s3: "step_good d2 d3"
  proof (cases "clear_lease_for key d0")
    case None
    then show ?thesis by (simp add: d3_def step_good_refl i2)
  next
    case (Some l)
    have f: "step_good d2 (fence_input_contacts d2)" by (rule fence_good [OF i2])
    then have fi: "sys_inv (fence_input_contacts d2)" by (simp add: step_good_def)
    have "h_lock (fence_input_contacts d2) = None"
      using fence_fences [of d2] l2 clear_lease_unlocked [OF inv Some] by simp
    note c = clear_locked_good [OF fi this, of l]
    then have t: "sys_inv (snd (clear_foreground_locked l (fence_input_contacts d2)))" by (simp add: step_good_def)
    show ?thesis
      using step_good_trans [OF f c] step_good_trans [OF step_good_trans [OF f c] fail_closed_good [OF t]]
      by (auto simp: d3_def Some split: prod.split sum.split)
  qed
  then have i3: "sys_inv d3" by (simp add: step_good_def)
  have "remove_surface key d0 = (case r of Inr _ \<Rightarrow> d3 | Inl e \<Rightarrow> fail_closed d3)"
    by (simp only: remove_surface_def e Let_def d3_def d2_def prod.case)
  then show ?thesis
    using step_good_trans [OF step_good_trans [OF step_good_trans [OF s s1] s2] s3]
      step_good_trans [OF step_good_trans [OF step_good_trans [OF step_good_trans [OF s s1] s2] s3] fail_closed_good [OF i3]]
    by (auto split: sum.split)
qed

lemma unregister_good:
  assumes inv: "sys_inv d"
  shows "step_good d (unregister client owned d)"
proof -
  have s: "step_good d (d\<lparr>h_surfaces := m\<rparr>)" for m by (rule irrelevant_good(1) [OF inv])
  then have i: "sys_inv (d\<lparr>h_surfaces := m\<rparr>)" for m by (simp add: step_good_def)
  show ?thesis
    using step_good_refl [OF inv] s step_good_trans [OF s remove_surface_good [OF i]]
    by (auto simp: unregister_def Let_def split: option.split)
qed

section \<open>The lock keeps the invariant\<close>

text \<open>A lease beyond its fence has no deferred damage yet.\<close>

lemma fresh_not_deferred:
  assumes inv: "sys_inv d" and fresh: "fresh_fence d key g e"
  shows "deferred (tel d) (panel_lease_of (new_lease key g e)) = None"
proof (rule ccontr)
  assume "deferred (tel d) (panel_lease_of (new_lease key g e)) \<noteq> None"
  then have "fenced (h_fences d) (panel_lease_of (new_lease key g e))"
    using inv unfolding sys_inv_def fence_inv_def by blast
  then show False
    using fresh by (auto simp: fenced_def fresh_fence_def stale_fence_def lease_le_def panel_lease_of_def
        new_lease_def split: option.splits)
qed

lemma lock_none: "sys_inv d \<Longrightarrow> h_lock d = None \<Longrightarrow>
    p_lock (prt d) = None \<and> list_all (\<lambda>c. \<not> is_show c) (h_channel d)
    \<and> cancelled_lock_epoch (tel d) \<le> h_last_sleep d \<and> \<not> (\<exists>l. h_pending d = Wait_Cancel l)"
  by (auto simp: sys_inv_def lock_inv_def wait_inv_def)

lemma commit_grow: "fresh_fence d key g e \<Longrightarrow> h_fences d1 = h_fences d \<Longrightarrow>
    fences_grow d (commit_foreground_fence key g e d1)"
  using not_stale_le by (auto simp: fences_grow_def commit_foreground_fence_def fresh_fence_def)

definition locked_display :: "i32 \<Rightarrow> u64 \<Rightarrow> u64 \<Rightarrow> u64 \<Rightarrow> display \<Rightarrow> display" where
  "locked_display key g e sleep d =
     (fence_input_contacts ((commit_foreground_fence key g e d)\<lparr>h_last_sleep := sleep\<rparr>))
       \<lparr>h_foreground := Some (new_lease key g e),
         h_lock := Some \<lparr>lock_sleep_epoch = sleep, lock_foreground = new_lease key g e\<rparr>\<rparr>"

lemma locked_display_good:
  assumes inv: "sys_inv d" and lock: "h_lock d = None" and prep: "h_prepared d = None"
    and fresh: "fresh_fence d key g e" and sleep: "h_last_sleep d < sleep"
    and same: "host_same d d1 [ShowLock (panel_lease_of (new_lease key g e)) sleep]"
  shows "step_good d (locked_display key g e sleep d1)"
proof -
  let ?f = "new_lease key g e" and ?l = "panel_lease_of (new_lease key g e)"
  let ?d2 = "(commit_foreground_fence key g e d1)\<lparr>h_last_sleep := sleep\<rparr>"
  let ?L = "locked_display key g e sleep d1"
  obtain cs where cs: "host_same ?d2 (fence_input_contacts ?d2) cs" "pens cs" using fence_same by blast
  obtain n where "tel d1 = (tel d)\<lparr>queue_depth := n\<rparr>" using same by (auto simp: host_same_def)
  then obtain k where "tel ?L = (tel d)\<lparr>queue_depth := k\<rparr>"
    using cs(1) by (auto simp: host_same_def locked_display_def commit_foreground_fence_def)
  note t = same_tel [OF this]
  have L: "h_prepared ?L = None" "h_pending ?L = h_pending d" "h_last_sleep ?L = sleep" "prt ?L = prt d"
    "cells ?L = cells d" "h_channel ?L = h_channel d @ ShowLock ?l sleep # cs"
    "h_fences ?L = (h_fences d)(key \<mapsto> (g, e))" "h_foreground ?L = Some ?f"
    "h_lock ?L = Some \<lparr>lock_sleep_epoch = sleep, lock_foreground = ?f\<rparr>"
    using same cs(1) prep by (simp_all add: host_same_def locked_display_def commit_foreground_fence_def)
  have none: "p_lock (prt d) = None" "list_all (\<lambda>c. \<not> is_show c) (h_channel d)"
    "cancelled_lock_epoch (tel d) \<le> h_last_sleep d" "\<And>l. h_pending d \<noteq> Wait_Cancel l"
    using lock_none [OF inv lock] by blast+
  have grow: "fences_grow d ?L"
    using commit_grow [OF fresh, of d] L(7) by (simp add: fences_grow_def commit_foreground_fence_def)
  have here: "fenced (h_fences ?L) ?l"
    by (simp add: L(7) fenced_def panel_lease_of_def new_lease_def)
  have "panel_inv ?L" using inv L(4,5) t by (simp add: sys_inv_def panel_inv_def world_ok_def published_def)
  moreover have "chan_ok ?L"
    using inv L(5,6) cs(2) by (auto simp: sys_inv_def chan_ok_def pens_def)
  moreover have "fence_inv ?L"
    using inv fenced_grow [OF grow] here t L(1,8) by (auto simp: sys_inv_def fence_inv_def)
  moreover have "wait_inv ?L" using none(4) L(2) by (simp add: wait_inv_def)
  moreover have "lock_inv ?L"
  proof -
    have harm: "list_all harmless cs" using cs(2) by (auto simp: pens_def list_all_iff)
    have less: "cancelled_lock_epoch (tel d) < sleep" using none(3) sleep by (rule le_less_trans)
    have "lock_stage ?l sleep ?L"
      unfolding lock_stage_def
      by (intro disjI1 exI [of _ "h_channel d"] exI [of _ cs]) (use none L(4,6) t less harm in simp)
    then show ?thesis
      using L less_imp_le [OF less] word_gt_0 [of sleep] le_less_trans [OF word_zero_le less] t
        fresh_not_deferred [OF inv fresh]
      by (simp add: lock_inv_def)
  qed
  ultimately show ?thesis using grow L(4) by (simp add: step_good_def sys_inv_def)
qed

lemma good_show_lock: "good (show_lock key g e sleep)"
proof (rule goodI)
  fix d
  assume inv: "sys_inv d"
  let ?c = "ShowLock (panel_lease_of (new_lease key g e)) sleep"
  obtain v where v: "validate_foreground_fence key g e d = (v, d)" using validate_result by (metis surj_pair)
  show "step_good d (snd (show_lock key g e sleep d))"
  proof (cases "sleep \<noteq> 0 \<and> h_prepared d = None \<and> h_lock d = None \<and> h_last_sleep d < sleep \<and> v = Inr ()")
    case False
    then have "snd (show_lock key g e sleep d) = d"
      using v by (cases v) (auto simp: show_lock_def reading_def fail_def ret_def seq_run Let_def split: option.split)
    then show ?thesis using step_good_refl [OF inv] by simp
  next
    case True
    then have run: "show_lock key g e sleep d =
        seq (enqueue_panel ?c) (change (locked_display key g e sleep)) d"
      using v by (simp add: show_lock_def reading_def seq_run [of "validate_foreground_fence key g e"]
          change_def locked_display_def [abs_def] Let_def not_le [symmetric])
    show ?thesis
    proof (cases rule: enqueue_cases [of ?c d])
      case (sent d1)
      then show ?thesis
        using locked_display_good [OF inv _ _ _ _ sent(2)] True validate_result [OF v]
        by (simp add: run seq_run change_def)
    next
      case (refused k m d1)
      then show ?thesis using same_good_nil [OF inv] by (simp add: run seq_run)
    qed
  qed
qed

text \<open>The host unlocks once the panel has published the cancellation.\<close>

lemma finish_cancel_good:
  assumes inv: "sys_inv d" and lock: "h_lock d = Some lock"
    and gone: "cancelled_lock_epoch (tel d) = lock_sleep_epoch lock"
  shows "step_good d (finish_cancel lock d)"
proof -
  let ?d1 = "fence_input_contacts d"
  have s: "step_good d ?d1" by (rule fence_good [OF inv])
  then have i: "sys_inv ?d1" by (simp add: step_good_def)
  have f: "h_lock ?d1 = Some lock" "cancelled_lock_epoch (tel ?d1) = lock_sleep_epoch lock"
    using fence_fences [of d] fence_rest [of d] lock gone by simp_all
  have st: "lock_stage (panel_lease_of (lock_foreground lock)) (lock_sleep_epoch lock) ?d1"
    using i unfolding sys_inv_def lock_inv_def f(1) option.case by blast
  then have "p_lock (prt ?d1) = None" "list_all harmless (h_channel ?d1)"
    using f(2) by (auto simp: lock_stage_def)
  then have "step_good ?d1 (finish_cancel lock d)"
    using i harmless_not_show
    by (auto simp: finish_cancel_def step_good_def sys_inv_def panel_inv_def world_ok_def published_def chan_ok_def
        lock_inv_def fence_inv_def wait_inv_def fences_grow_refl f list_all_iff)
  then show ?thesis by (rule step_good_trans [OF s])
qed

lemma good_cancel_lock: "good (cancel_lock sleep replacement)"
proof (rule goodI)
  fix d
  assume inv: "sys_inv d"
  show "step_good d (snd (cancel_lock sleep replacement d))"
  proof (cases "\<exists>lock. h_lock d = Some lock \<and> lock_sleep_epoch lock = sleep \<and> replacement \<noteq> 0")
    case False
    then have "snd (cancel_lock sleep replacement d) = d"
      by (auto simp: cancel_lock_def cancellable_lock_def reading_def sbind_def fail_def ret_def split: option.split)
    then show ?thesis using step_good_refl [OF inv] by simp
  next
    case True
    then obtain lock where lock: "h_lock d = Some lock" "lock_sleep_epoch lock = sleep" by blast
    obtain v where v: "validate_replacement_sequence lock replacement d = (v, d)"
      by (rule that [of "fst (validate_replacement_sequence lock replacement d)"])
         (simp add: validate_replacement_sequence_def reading_def fail_def ret_def Let_def split: option.split)
    let ?c = "CancelLock (panel_lease_of (lock_foreground lock)) (lock_sleep_epoch lock) replacement"
    have run: "cancel_lock sleep replacement d = (case v of Inl x \<Rightarrow> (Inl x, d) | Inr u \<Rightarrow>
        if cancelled_lock_epoch (tel d) = lock_sleep_epoch lock then change (finish_cancel lock) d
        else seq (enqueue_panel ?c) (change (h_pending_update (\<lambda>_. Wait_Cancel lock))) d)"
      using True lock v by (auto simp: cancel_lock_def cancellable_lock_def reading_def sbind_def ret_def
          seq_run [of "validate_replacement_sequence lock replacement"] split: sum.split)
    have wait: "step_good d (snd (seq (enqueue_panel ?c) (change (h_pending_update (\<lambda>_. Wait_Cancel lock))) d))"
    proof (rule enqueue_then [OF inv])
      show "sendable d ?c" by (simp add: sendable_def)
      fix d1 assume "host_same d d1 [?c]" "sys_inv d1"
      then show "step_good d1 (h_pending_update (\<lambda>_. Wait_Cancel lock) d1)"
        using lock(1) by (intro set_pending_good) (simp_all add: host_same_def)
    qed
    show ?thesis
      using step_good_refl [OF inv] wait finish_cancel_good [OF inv lock(1)]
      by (simp add: run change_def split: sum.split)
  qed
qed

lemma good_cancel_poll: "good (cancel_lock_poll timed_out)"
proof (rule goodI)
  fix d
  assume inv: "sys_inv d"
  show "step_good d (snd (cancel_lock_poll timed_out d))"
  proof (cases "\<exists>lock. h_pending d = Wait_Cancel lock")
    case False
    then show ?thesis
      using step_good_refl [OF inv] by (auto simp: cancel_lock_poll_def reading_def ret_def split: pending.split)
  next
    case True
    then obtain lock where p: "h_pending d = Wait_Cancel lock" by blast
    then have "h_lock d = Some lock" using inv by (simp add: sys_inv_def wait_inv_def)
    then show ?thesis
      using finish_cancel_good [OF inv] set_pending_good [OF inv, of No_Wait] step_good_refl [OF inv] p
      by (auto simp: cancel_lock_poll_def reading_def seq_run change_def ret_def fail_def)
  qed
qed

section \<open>Input keeps the invariant\<close>

text \<open>Delivering input changes contacts and queues and sends pen frames to the panel, nothing else.\<close>

definition only_pens :: "display \<Rightarrow> display \<Rightarrow> bool" where
  "only_pens d d' = (\<exists>cs. host_same d d' cs \<and> pens cs)"

lemma only_pens_refl [simp]: "only_pens d d"
  unfolding only_pens_def by (rule exI [of _ "[]"]) (simp add: pens_def)

lemma only_pens_trans: "only_pens d d1 \<Longrightarrow> only_pens d1 d2 \<Longrightarrow> only_pens d d2"
proof -
  assume "only_pens d d1" "only_pens d1 d2"
  then obtain cs cs' where "host_same d d1 cs" "host_same d1 d2 cs'" "pens cs" "pens cs'"
    by (auto simp: only_pens_def)
  then show ?thesis
    unfolding only_pens_def by (intro exI [of _ "cs @ cs'"]) (auto simp: host_same_trans pens_def)
qed

lemma only_pens_good: "sys_inv d \<Longrightarrow> only_pens d d' \<Longrightarrow> step_good d d'"
  using same_good pens_sendable unfolding only_pens_def by blast

lemma same_only_pens: "host_same d d' [] \<Longrightarrow> only_pens d d'"
  unfolding only_pens_def by (rule exI [of _ "[]"]) (simp add: pens_def)

lemma only_pens_irrelevant:
  "only_pens d (d'\<lparr>h_suppressed_pen := b\<rparr>) = only_pens d d'"
  "only_pens d (d'\<lparr>h_active_pen := v\<rparr>) = only_pens d d'"
  "only_pens d (d'\<lparr>h_active_touches := xs\<rparr>) = only_pens d d'"
  "only_pens d (d'\<lparr>h_suppressed_touches := xs\<rparr>) = only_pens d d'"
  by (simp_all add: only_pens_def host_same_irrelevant)

lemma suppress_pens: "only_pens d (snd (suppress_fenced_contact frame d))"
  by (auto simp: suppress_fenced_contact_def only_pens_irrelevant split: input_frame.split pen_phase.split)

lemma route_touch_pens: "only_pens d (snd (route_foreground_touch frame d))"
  by (auto simp: route_foreground_touch_def Let_def only_pens_irrelevant split: input_frame.split touch_phase.split)

lemma cancel_pens: "only_pens d (cancel_pen lease f d)"
  using cancel_pen_same by (simp add: only_pens_def)

lemma track_pens: "only_pens d (snd (track_pen_contact frame lease d))"
proof -
  have "only_pens d (cancel_pen l f (d\<lparr>h_active_pen := None\<rparr>))" for l f
    by (rule only_pens_trans [OF _ cancel_pens]) (simp add: only_pens_irrelevant)
  then show ?thesis
    by (auto simp: track_pen_contact_def Let_def only_pens_irrelevant
        split: input_frame.split pen_phase.split option.split)
qed

lemma deliver_pens: "only_pens d (snd (deliver_input key packet d))"
  using same_only_pens [OF send_same [of d key packet]]
  by (auto simp: deliver_input_def not_routed_def fail_def split: prod.splits bool.splits)

lemma ignoring_pens: "only_pens d (ignoring (enqueue_panel (Pen_Input lease f)) d)"
  using ignoring_enqueue [of d "Pen_Input lease f"] by (auto simp: only_pens_def pens_def)

lemma route_frame_pens: "only_pens d (snd (route_frame frame lease d))"
proof -
  obtain b d1 where r: "route_foreground_touch frame d = (b, d1)" by fastforce
  obtain b' d2 where t: "track_pen_contact frame lease d1 = (b', d2)" by fastforce
  have s: "only_pens d d1" "only_pens d1 d2"
    using route_touch_pens [of d frame] track_pens [of d1 frame lease] r t by simp_all
  note s2 = only_pens_trans [OF s]
  show ?thesis
    using s(1) s2 only_pens_trans [OF s2 deliver_pens]
      only_pens_trans [OF only_pens_trans [OF s2 ignoring_pens] deliver_pens]
    by (auto simp: route_frame_def r t not_routed_def fail_def split: bool.split input_frame.split)
qed

lemma dispatch_pens: "only_pens d (snd (dispatch_captured_input captured d))"
proof -
  obtain b d1 where s: "suppress_fenced_contact (captured_frame captured) d = (b, d1)" by fastforce
  have "only_pens d d1" using suppress_pens [of d "captured_frame captured"] s by simp
  then show ?thesis
    using only_pens_trans [OF _ route_frame_pens]
    by (auto simp: dispatch_captured_input_def s not_routed_def fail_def split: bool.split option.split)
qed

lemma good_dispatch: "good (dispatch_captured_input captured)"
  using only_pens_good [OF _ dispatch_pens] by (simp add: good_def)

lemma good_dispatch_input: "good (dispatch_input frame)"
  using good_dispatch by (simp add: good_def dispatch_input_def)

lemma good_dispatch_all: "good (dispatch_all frames)"
  by (induction frames) (simp_all add: good_const good_seq good_dispatch_input)

lemma injected_at: "h_injected_update f d = d\<lparr>h_injected := f (h_injected d)\<rparr>"
  by (cases d) simp

lemma good_injected: "good (change (h_injected_update f))"
  by (rule good_change, subst injected_at) (rule irrelevant_good(4))

lemma good_validate: "good (validate_point x y)"
  unfolding validate_point_def Let_def by (intro good_rules) (auto intro!: good_rules split: prod.split)

lemma good_inject_tap: "good (inject_tap x y)"
  unfolding inject_tap_def Let_def by (intro good_rules good_validate good_injected good_dispatch_input)

lemma good_inject_line: "good (inject_pen_line x0 y0 x1 y1 points)"
  unfolding inject_pen_line_def Let_def by (intro good_rules good_validate good_injected good_dispatch_all)

section \<open>Every operation of the host keeps the invariant\<close>

lemma host_shutdown_good: "sys_inv d \<Longrightarrow> step_good d (host_shutdown d)"
proof -
  assume inv: "sys_inv d"
  have s: "step_good d (d\<lparr>h_shutdown := True\<rparr>)" by (rule irrelevant_good(3) [OF inv])
  then have "sys_inv (d\<lparr>h_shutdown := True\<rparr>)" by (simp add: step_good_def)
  from step_good_trans [OF s enqueue_good [OF this, of Shutdown]] show ?thesis
    by (simp add: host_shutdown_def ignoring_def sendable_def)
qed

lemma good_control: "good (control_dispatch command)"
  by (cases command)
     (auto intro!: good_const good_set_foreground good_prepare good_activate good_clear good_configure_ink
       good_full_refresh good_show_lock good_refresh_lock good_cancel_lock good_inject_tap good_inject_line
       good_change host_shutdown_good)

lemma good_open: "good (open_surface conn key w h format n opened answer)"
  unfolding open_surface_def
proof (rule good_sbind [OF good_register])
  fix surface
  show "good (case answer of
       Inl e \<Rightarrow> (\<lambda>d. (Inl e, abort_registration key d))
     | Inr _ \<Rightarrow>
         (\<lambda>d. case activate_client key (conn_fd conn) (conn_queue conn) d of
            (Inl e, d1) \<Rightarrow> (Inl e, abort_registration key d1)
          | (Inr _, d1) \<Rightarrow> (Inr (True, conn\<lparr>conn_key := Some key\<rparr>), d1)))"
  proof (rule goodI)
    fix d
    assume inv: "sys_inv d"
    obtain r d1 where a: "activate_client key (conn_fd conn) (conn_queue conn) d = (r, d1)" by fastforce
    have s: "step_good d d1" by (rule goodD [OF good_activate_client inv a])
    then have "sys_inv d1" by (simp add: step_good_def)
    note ab = step_good_trans [OF s abort_registration_good [OF this]]
    show "step_good d (snd ((case answer of
         Inl e \<Rightarrow> (\<lambda>d. (Inl e, abort_registration key d))
       | Inr _ \<Rightarrow>
           (\<lambda>d. case activate_client key (conn_fd conn) (conn_queue conn) d of
              (Inl e, d1) \<Rightarrow> (Inl e, abort_registration key d1)
            | (Inr _, d1) \<Rightarrow> (Inr (True, conn\<lparr>conn_key := Some key\<rparr>), d1))) d))"
      using abort_registration_good [OF inv] s ab a by (auto split: sum.split)
  qed
qed

lemma good_require: "good (require_key key)"
  unfolding require_key_def by (intro good_rules)

lemma good_packet: "good (process_packet conn n opened answer packet)"
  by (cases packet)
     (auto simp: process_packet_def intro!: good_rules good_open good_require good_commit_damage good_refresh_mode
       good_surface_refresh)

lemma hang_up_good: "sys_inv d \<Longrightarrow> step_good d (hang_up conn d)"
proof -
  assume inv: "sys_inv d"
  let ?d = "unregister (conn_fd conn) (conn_key conn) d"
  have s: "step_good d ?d" by (rule unregister_good [OF inv])
  then have "sys_inv ?d" by (simp add: step_good_def)
  from step_good_trans [OF s irrelevant_good(2) [OF this]] show ?thesis
    by (simp add: hang_up_def Let_def)
qed

lemma draw_good: "sys_inv d \<Longrightarrow> length bytes = surf_len (cells d ! a) \<Longrightarrow>
    step_good d (update_cell a (surf_bytes_update (\<lambda>_. bytes)) d)"
  by (rule update_cell_good) (simp_all add: surface_ok_def)

end
