(* ===== verification/Display_Guarantees.thy ===== *)
theory Display_Guarantees
  imports Display_Invariant
begin

text \<open>
  What holds in every state that the display host can reach, over all interleavings of control
  commands, client packets, captured input and rounds of the panel worker.
\<close>

section \<open>The worker leaves the host's fields alone\<close>

abbreviation stays :: "'z \<Rightarrow> 'z panel_world_scheme \<Rightarrow> bool" where
  "stays z \<equiv> (\<lambda>w. panel_world.more w = z)"

lemma more_on [simp]: "panel_world.more (on_prt f w) = panel_world.more w"
  "panel_world.more (on_tel g w) = panel_world.more w"
  by (simp_all add: on_prt_def on_tel_def)

lemma stays_change: "kept (stays z) (change (on_prt f))" "kept (stays z) (change (on_tel g))"
  by (simp_all add: kept_def change_def)

lemma stays_submit: "kept (stays z) (submit r i l n why)"
  by (auto simp: kept_def submit_def Let_def split: prod.split sum.split)

lemma stays_undo: "kept (stays z) m \<Longrightarrow> kept (stays z) (or_undo m (on_prt f))"
  by (auto simp: kept_def or_undo_def split: prod.split sum.split)

lemmas stays_rules = kept_reading kept_seq kept_sbind kept_ret kept_fail kept_panic kept_option
  stays_change stays_submit stays_undo

lemma stays_copy: "kept (stays z) (copy_damage lease r)"
  unfolding copy_damage_def Let_def
  by (intro stays_rules) (auto intro!: stays_rules split: option.split)

lemma stays_present: "kept (stays z) (present_surface lease r i why)"
  unfolding present_surface_def
  by (intro stays_rules stays_copy) (auto intro!: stays_rules split: prod.split)

lemma stays_draw: "kept (stays z) (draw_live_segment tool x0 y0 x1 y1 radius)"
  unfolding draw_live_segment_def Let_def
  by (intro stays_rules) (auto intro!: stays_rules split: option.split prod.split)

lemma stays_flush_live: "kept (stays z) (flush_live now force)"
  unfolding flush_live_def Let_def by (intro stays_rules kept_if)

lemma stays_pen: "kept (stays z) (handle_pen now lease f)"
  unfolding handle_pen_def begin_pen_def move_pen_def end_pen_def Let_def
  by (intro stays_rules kept_if) (auto intro!: stays_rules kept_if stays_draw stays_flush_live split: pen_phase.split)

lemma more_install [simp]: "panel_world.more (install_foreground lease ink w) = panel_world.more w"
  by (auto simp: install_foreground_def Let_def split: option.split)

lemma stays_install: "kept (stays z) (change (install_foreground lease ink))"
  by (simp add: kept_def change_def)

lemma stays_set: "kept (stays z) (set_foreground_with lease i why)"
  unfolding set_foreground_with_def by (intro stays_rules stays_install stays_present)

lemma more_clear [simp]: "panel_world.more (clear_foreground_unchecked w) = panel_world.more w"
  by (auto simp: clear_foreground_unchecked_def Let_def split: option.split)

lemma stays_drop: "kept (stays z) (change (drop_surface key))"
  by (auto simp: kept_def change_def drop_surface_def Let_def split: option.split)

lemma stays_damage: "kept (stays z) (handle_damage lease r i)"
  unfolding handle_damage_def Let_def by (intro stays_rules kept_if stays_present)

lemma stays_handle: "kept (stays z) (handle now c)"
  by (cases c)
     (auto simp: panel_set_foreground_def panel_activate_foreground_def panel_configure_ink_def
       panel_full_refresh_def panel_show_lock_def panel_refresh_lock_def panel_cancel_lock_def Let_def
       intro!: stays_rules kept_if stays_drop stays_damage stays_pen stays_set stays_present stays_install
       split: prod.split,
      simp add: kept_def change_def panel_clear_foreground_def)

definition flush :: "int \<Rightarrow> ('z, bool) panel_action" where
  "flush now = seq flush_deferred_damage (seq (flush_deadlines now) (ret True))"

lemma stays_flush: "kept (stays z) (flush now)"
proof -
  have "kept (stays z) flush_deferred_damage"
    unfolding flush_deferred_damage_def
    by (intro stays_rules) (auto intro!: stays_rules stays_damage split: option.split prod.split)
  moreover have "kept (stays z) (settle now)"
    unfolding settle_def sync_surface_buffer_def Let_def by (intro stays_rules kept_if stays_copy)
  ultimately show ?thesis
    unfolding flush_def flush_deadlines_def by (intro kept_seq kept_ret stays_flush_live)
qed

lemma round_run:
  "panel_round now received w =
     (case received of
        None \<Rightarrow> flush now w
      | Some c \<Rightarrow>
          if c = Shutdown then (Inr False, on_tel command_dequeued w)
          else (case handle now c (on_tel command_dequeued w) of
              (Inr _, w1) \<Rightarrow> flush now w1
            | (Inl e, w1) \<Rightarrow> if is_stale_control_error e then flush now w1 else (Inl e, w1)))"
  unfolding panel_round_def Let_def flush_def [symmetric] by (simp add: ret_def split: option.split)

lemma stays_round: "panel_world.more (snd (panel_round now received w)) = panel_world.more w"
proof -
  have f: "panel_world.more (snd (flush now v)) = panel_world.more v" for v :: "'a panel_world_scheme"
    using keptD [OF stays_flush [of "panel_world.more v" now], of v] by simp
  have h: "panel_world.more (snd (handle now c (on_tel command_dequeued w))) = panel_world.more w" for c
    using keptD [OF stays_handle [of "panel_world.more w" now c], of "on_tel command_dequeued w"] by simp
  show ?thesis
  proof (cases received)
    case None
    then show ?thesis by (simp add: round_run f)
  next
    case (Some c)
    obtain r w1 where r: "handle now c (on_tel command_dequeued w) = (r, w1)" by fastforce
    then have "panel_world.more w1 = panel_world.more w" using h [of c] by simp
    then show ?thesis using f [of w1] Some r by (cases r) (simp_all add: round_run)
  qed
qed

lemma host_fields:
  fixes d d' :: display
  assumes "panel_world.more d' = panel_world.more d"
  shows "h_lock d' = h_lock d" "h_foreground d' = h_foreground d" "h_prepared d' = h_prepared d"
    "h_pending d' = h_pending d" "h_fences d' = h_fences d" "h_last_sleep d' = h_last_sleep d"
    "h_channel d' = h_channel d"
  using assms by (cases d; cases d'; simp)+

section \<open>A round of the worker keeps the invariant\<close>

definition lowered :: "'z panel_world_scheme \<Rightarrow> 'z panel_world_scheme \<Rightarrow> bool" where
  "lowered w w' = ((\<forall>l. deferred (tel w) l = None \<longrightarrow> deferred (tel w') l = None) \<and> cells w' = cells w)"

lemma kept_lowered: "lock_kept w w' \<Longrightarrow> lowered w w'"
  by (simp add: lock_kept_def lowered_def)

lemma lowered_trans: "lowered w w1 \<Longrightarrow> lowered w1 w2 \<Longrightarrow> lowered w w2"
  by (simp add: lowered_def)

lemma handle_unlocked:
  assumes inv: "panel_inv w" and free: "p_lock (prt w) = None" and c: "\<not> is_show c"
  shows "lock_kept w (snd (handle now c w))"
proof (cases "\<exists>l e n. c = CancelLock l e n")
  case True
  then obtain l e n where c: "c = CancelLock l e n" by blast
  obtain r w' where "panel_cancel_lock l e n w = (r, w')" by fastforce
  then show ?thesis using cancel_lock_result [OF inv] free c by fastforce
next
  case False
  then show ?thesis
    using handle_lock_kept [of w c now] inv c by (simp add: panel_inv_def show_or_cancel_def is_show_def)
qed

lemma handle_lowered:
  assumes inv: "panel_inv w"
  shows "lowered w (snd (handle now c w))"
proof -
  have ok: "world_ok w" using inv by (simp add: panel_inv_def)
  consider (shows_it) l e where "c = ShowLock l e" | (cancels_it) l e n where "c = CancelLock l e n"
    | (other) "\<not> show_or_cancel c"
    by (cases "show_or_cancel c") (auto simp: show_or_cancel_def)
  then show ?thesis
  proof cases
    case shows_it
    obtain r w' where h: "panel_show_lock l e w = (r, w')" by fastforce
    then show ?thesis using show_lock_result [OF ok h] kept_lowered shows_it by (auto simp: lowered_def)
  next
    case cancels_it
    obtain r w' where h: "panel_cancel_lock l e n w = (r, w')" by fastforce
    then show ?thesis using cancel_lock_result [OF inv h] kept_lowered cancels_it by (auto simp: lowered_def)
  next
    case other
    then show ?thesis using kept_lowered handle_lock_kept [OF ok] by blast
  qed
qed

lemma flush_kept: "panel_inv w \<Longrightarrow> lock_kept w (snd (flush now w))"
  unfolding flush_def
  by (rule calmly_lock_kept)
     (intro calmly_seq calmly_flush_deferred calmly_flush_deadlines calmly_const, simp add: panel_inv_def)

lemma flush_stage:
  assumes inv: "panel_inv d" and none: "deferred (tel d) lease = None" and st: "lock_stage lease e d"
  shows "lock_stage lease e (snd (flush now d))"
proof -
  let ?d = "snd (flush now d)"
  have ch: "h_channel ?d = h_channel d"
    by (rule host_fields(7)) (use keptD [OF stays_flush [of "panel_world.more d" now], of d] in simp)
  have k: "lock_kept d ?d" by (rule flush_kept [OF inv])
  have up: "prt ?d = prt d" if u: "lock_up lease e (prt d)"
  proof -
    obtain w' where "flush now d = (Inr True, w')" "prt w' = prt d"
      using flush_frozen [OF u none, of now] unfolding flush_def [symmetric] by blast
    then show ?thesis by simp
  qed
  have k: "p_lock (prt ?d) = p_lock (prt d)" "cancelled_lock_epoch (tel ?d) = cancelled_lock_epoch (tel d)"
    using k by (simp_all add: lock_kept_def)
  show ?thesis
    using st up unfolding lock_stage_def ch k by metis
qed

lemma handle_stage:
  assumes inv: "panel_inv d" and st: "lock_stage lease e (d\<lparr>h_channel := c # h_channel d\<rparr>)"
  shows "lock_stage lease e (snd (handle now c d))
    \<and> (cancelled_lock_epoch (tel (snd (handle now c d))) = cancelled_lock_epoch (tel d)
       \<or> cancelled_lock_epoch (tel (snd (handle now c d))) = e)"
proof -
  let ?d = "snd (handle now c d)"
  have ok: "world_ok d" using inv by (simp add: panel_inv_def)
  have ch: "h_channel ?d = h_channel d"
    by (rule host_fields(7)) (use keptD [OF stays_handle [of "panel_world.more d" now c], of d] in simp)
  consider (queued) pre post where "c # h_channel d = pre @ ShowLock lease e # post"
      "list_all (\<lambda>c. \<not> is_show c) pre" "list_all harmless post" "p_lock (prt d) = None"
      "cancelled_lock_epoch (tel d) \<noteq> e"
    | (free) "harmless c" "list_all harmless (h_channel d)" "p_lock (prt d) = None"
    | (up) "harmless c" "list_all harmless (h_channel d)" "lock_up lease e (prt d)" "cancelled_lock_epoch (tel d) \<noteq> e"
    using st by (auto simp: lock_stage_def)
  then show ?thesis
  proof cases
    case queued
    show ?thesis
    proof (cases pre)
      case Nil
      then have c: "c = ShowLock lease e" "list_all harmless (h_channel d)" using queued(1,3) by simp_all
      obtain r w' where h: "panel_show_lock lease e d = (r, w')" by fastforce
      then show ?thesis
        using show_lock_result [OF ok h] c queued(4,5) ch
        by (auto simp: lock_stage_def lock_kept_def)
    next
      case (Cons a pre')
      then have c: "\<not> is_show c" "h_channel d = pre' @ ShowLock lease e # post" "list_all (\<lambda>c. \<not> is_show c) pre'"
        using queued(1,2) by simp_all
      have k: "lock_kept d ?d" by (rule handle_unlocked [OF inv queued(4) c(1)])
      show ?thesis
        unfolding lock_stage_def ch
        using k queued(3-5) c(2,3) by (intro conjI disjI1) (auto simp: lock_kept_def)
    qed
  next
    case free
    have "lock_kept d ?d" by (rule handle_unlocked [OF inv free(3) harmless_not_show [OF free(1)]])
    then show ?thesis using free ch by (simp add: lock_stage_def lock_kept_def)
  next
    case up
    then show ?thesis
      using harmless_frozen [OF inv up(3,1), of now] ch
      by (auto simp: lock_stage_def frozen_as_def lock_kept_def)
  qed
qed

lemma lock_stage_cong:
  "prt d' = prt d \<Longrightarrow> cancelled_lock_epoch (tel d') = cancelled_lock_epoch (tel d) \<Longrightarrow>
     h_channel d' = h_channel d \<Longrightarrow> lock_stage l e d' = lock_stage l e d"
  by (simp add: lock_stage_def)

lemma lock_stage_pop:
  "lock_stage l e d \<Longrightarrow> h_channel d = Shutdown # cs \<Longrightarrow> lock_stage l e (d\<lparr>h_channel := cs\<rparr>)"
  by (auto simp: lock_stage_def Cons_eq_append_conv)

lemma lock_stage_end: "lock_stage l e d \<Longrightarrow> lock_stage l e (d\<lparr>h_receiver_gone := True, h_channel := []\<rparr>)"
  by (auto simp: lock_stage_def)

lemma dequeued_tel: "\<exists>n. command_dequeued t = t\<lparr>queue_depth := n\<rparr>"
  by (simp add: command_dequeued_def)

text \<open>What the invariant needs of the world that a round leaves behind.\<close>

definition afterwards :: "display \<Rightarrow> display \<Rightarrow> bool" where
  "afterwards d d' =
     (panel_inv d' \<and> lowered d d'
      \<and> (h_lock d = None \<longrightarrow>
           p_lock (prt d') = None \<and> cancelled_lock_epoch (tel d') = cancelled_lock_epoch (tel d))
      \<and> (\<forall>lock. h_lock d = Some lock \<longrightarrow>
           lock_stage (panel_lease_of (lock_foreground lock)) (lock_sleep_epoch lock) d'
           \<and> (cancelled_lock_epoch (tel d') = cancelled_lock_epoch (tel d)
              \<or> cancelled_lock_epoch (tel d') = lock_sleep_epoch lock)))"

lemma lock_some: "sys_inv d \<Longrightarrow> h_lock d = Some lock \<Longrightarrow>
    lock_stage (panel_lease_of (lock_foreground lock)) (lock_sleep_epoch lock) d
    \<and> deferred (tel d) (panel_lease_of (lock_foreground lock)) = None"
proof -
  assume "sys_inv d" "h_lock d = Some lock"
  then have "case Some lock of None \<Rightarrow> p_lock (prt d) = None \<and> list_all (\<lambda>c. \<not> is_show c) (h_channel d)
         | Some lock \<Rightarrow>
             lock_sleep_epoch lock = h_last_sleep d \<and> h_last_sleep d \<noteq> 0
             \<and> h_foreground d = Some (lock_foreground lock) \<and> h_prepared d = None
             \<and> deferred (tel d) (panel_lease_of (lock_foreground lock)) = None
             \<and> lock_stage (panel_lease_of (lock_foreground lock)) (lock_sleep_epoch lock) d"
    unfolding sys_inv_def lock_inv_def by metis
  then show ?thesis unfolding option.case by blast
qed

lemma lock_some_epoch: "sys_inv d \<Longrightarrow> h_lock d = Some lock \<Longrightarrow>
    lock_sleep_epoch lock = h_last_sleep d \<and> h_last_sleep d \<noteq> 0
    \<and> h_foreground d = Some (lock_foreground lock)"
  by (simp add: sys_inv_def lock_inv_def)

lemma afterwards_flush:
  assumes inv: "sys_inv d" and w: "afterwards d w"
  shows "afterwards d (snd (flush now w))"
proof -
  let ?w = "snd (flush now w)"
  have p: "panel_inv w" using w by (simp add: afterwards_def)
  then have p': "panel_inv ?w" using sound_at [OF sound_flush] unfolding flush_def by blast
  have k: "lock_kept w ?w" by (rule flush_kept [OF p])
  have st: "lock_stage (panel_lease_of (lock_foreground lock)) (lock_sleep_epoch lock) ?w"
    if "h_lock d = Some lock" for lock
  proof (rule flush_stage [OF p])
    show "deferred (tel w) (panel_lease_of (lock_foreground lock)) = None"
      using lock_some [OF inv that] w by (simp add: afterwards_def lowered_def)
    show "lock_stage (panel_lease_of (lock_foreground lock)) (lock_sleep_epoch lock) w"
      using w that by (simp add: afterwards_def)
  qed
  have c: "cancelled_lock_epoch (tel ?w) = cancelled_lock_epoch (tel w)" "p_lock (prt ?w) = p_lock (prt w)"
    using k by (simp_all add: lock_kept_def)
  show ?thesis
    using w p' st lowered_trans [OF _ kept_lowered [OF k]] by (simp add: afterwards_def c)
qed

definition popped :: "display \<Rightarrow> panel_command list \<Rightarrow> display" where
  "popped d cs = on_tel command_dequeued (d\<lparr>h_channel := cs\<rparr>)"

lemma popped_sel:
  "prt (popped d cs) = prt d" "cells (popped d cs) = cells d" "h_channel (popped d cs) = cs"
  "deferred (tel (popped d cs)) = deferred (tel d)"
  "cancelled_lock_epoch (tel (popped d cs)) = cancelled_lock_epoch (tel d)"
  "panel_inv (popped d cs) = panel_inv d"
  by (simp_all add: popped_def on_tel_def command_dequeued_def panel_inv_def world_ok_def published_def)

lemma afterwards_popped:
  assumes inv: "sys_inv d" and ch: "h_channel d = Shutdown # cs"
  shows "afterwards d (popped d cs)"
proof -
  have "lock_stage l e (popped d cs) = lock_stage l e (d\<lparr>h_channel := cs\<rparr>)" for l e
    by (rule lock_stage_cong) (simp_all add: popped_sel)
  then show ?thesis
    using inv lock_some [OF inv] lock_none [OF inv] lock_stage_pop [OF _ ch]
    by (simp add: afterwards_def popped_sel sys_inv_def lowered_def)
qed

lemma afterwards_handle:
  assumes inv: "sys_inv d" and ch: "h_channel d = c # cs" and c: "c \<noteq> Shutdown"
  shows "afterwards d (snd (handle now c (popped d cs)))"
proof -
  let ?w = "popped d cs"
  have p: "panel_inv ?w" using inv by (simp add: popped_sel sys_inv_def)
  have ok: "command_ok ?w c"
    using inv ch c by (simp add: command_ok_def popped_sel sys_inv_def chan_ok_def)
  have "lowered d ?w" by (simp add: lowered_def popped_sel)
  note low = lowered_trans [OF this handle_lowered [OF p]]
  have st: "lock_stage (panel_lease_of (lock_foreground lock)) (lock_sleep_epoch lock) (snd (handle now c ?w))
      \<and> (cancelled_lock_epoch (tel (snd (handle now c ?w))) = cancelled_lock_epoch (tel ?w)
         \<or> cancelled_lock_epoch (tel (snd (handle now c ?w))) = lock_sleep_epoch lock)"
    if "h_lock d = Some lock" for lock
  proof (rule handle_stage [OF p])
    have "lock_stage l e (?w\<lparr>h_channel := c # h_channel ?w\<rparr>) = lock_stage l e d" for l e
      by (rule lock_stage_cong) (simp_all add: popped_sel ch)
    then show "lock_stage (panel_lease_of (lock_foreground lock)) (lock_sleep_epoch lock) (?w\<lparr>h_channel := c # h_channel ?w\<rparr>)"
      using lock_some [OF inv that] by simp
  qed
  have free: "lock_kept ?w (snd (handle now c ?w))" if "h_lock d = None"
    using lock_none [OF inv that] ch by (intro handle_unlocked [OF p]) (simp_all add: popped_sel)
  show ?thesis
    using handle_inv [OF p ok] low st free lock_none [OF inv]
    by (simp add: afterwards_def popped_sel lock_kept_def)
qed

lemma afterwards_round:
  assumes inv: "sys_inv d"
    and ch: "h_channel d = c # cs \<and> received = Some c \<or> h_channel d = [] \<and> received = None \<and> cs = []"
  shows "afterwards d (snd (panel_round now received (d\<lparr>h_channel := cs\<rparr>)))"
proof (cases received)
  case None
  then have "d\<lparr>h_channel := cs\<rparr> = d" using ch by simp
  moreover have "afterwards d d"
    using inv lock_some [OF inv] lock_none [OF inv] by (simp add: afterwards_def sys_inv_def lowered_def)
  ultimately show ?thesis using afterwards_flush [OF inv] None by (simp add: round_run)
next
  case (Some c')
  then have ch: "h_channel d = c # cs" "received = Some c" using ch by simp_all
  show ?thesis
  proof (cases "c = Shutdown")
    case True
    then show ?thesis using afterwards_popped [OF inv] ch by (simp add: round_run popped_def [symmetric])
  next
    case False
    note a = afterwards_handle [OF inv ch(1) False, of now]
    obtain r w where r: "handle now c (popped d cs) = (r, w)" by fastforce
    have "snd (panel_round now received (d\<lparr>h_channel := cs\<rparr>)) \<in> {w, snd (flush now w)}"
      using r ch(2) False by (cases r) (simp_all add: round_run popped_def [symmetric])
    then show ?thesis using a afterwards_flush [OF inv a] r by auto
  qed
qed

lemma sys_after:
  assumes inv: "sys_inv d" and a: "afterwards d d1"
    and more: "panel_world.more d1 = panel_world.more (d\<lparr>h_channel := cs\<rparr>)" and cs: "set cs \<subseteq> set (h_channel d)"
  shows "sys_inv d1" "h_fences d1 = h_fences d" "h_lock d1 = h_lock d"
    "sys_inv (d1\<lparr>h_receiver_gone := True, h_channel := []\<rparr>)"
proof -
  have f: "h_lock d1 = h_lock d" "h_foreground d1 = h_foreground d" "h_prepared d1 = h_prepared d"
    "h_pending d1 = h_pending d" "h_fences d1 = h_fences d" "h_last_sleep d1 = h_last_sleep d" "h_channel d1 = cs"
    using host_fields [OF more] by simp_all
  have low: "cells d1 = cells d" "\<And>l. deferred (tel d1) l \<noteq> None \<Longrightarrow> deferred (tel d) l \<noteq> None"
    "\<And>l. deferred (tel d) l = None \<Longrightarrow> deferred (tel d1) l = None"
    using a by (auto simp: afterwards_def lowered_def)
  have "chan_ok d1" using inv f low cs by (auto simp: sys_inv_def chan_ok_def)
  moreover have "fence_inv d1"
    using inv f low(2) unfolding sys_inv_def fence_inv_def by simp
  moreover have "wait_inv d1" using inv f by (simp add: sys_inv_def wait_inv_def)
  moreover have "lock_inv d1"
  proof (cases "h_lock d")
    case None
    then show ?thesis
      using lock_none [OF inv None] a f cs by (auto simp: lock_inv_def afterwards_def list_all_iff)
  next
    case (Some lock)
    then have "h_prepared d = None" "cancelled_lock_epoch (tel d) \<le> h_last_sleep d"
      using inv by (simp_all add: sys_inv_def lock_inv_def)
    then show ?thesis
      using lock_some [OF inv Some] lock_some_epoch [OF inv Some] a f low(3) Some by (auto simp: lock_inv_def afterwards_def)
  qed
  ultimately show i: "sys_inv d1" using a by (simp add: sys_inv_def afterwards_def)
  show "h_fences d1 = h_fences d" "h_lock d1 = h_lock d" by (rule f)+
  show "sys_inv (d1\<lparr>h_receiver_gone := True, h_channel := []\<rparr>)"
  proof (cases "h_lock d1")
    case None
    then show ?thesis
      using i by (simp add: sys_inv_def panel_inv_def world_ok_def published_def chan_ok_def lock_inv_def
          fence_inv_def wait_inv_def)
  next
    case (Some lock)
    have e: "lock_sleep_epoch lock = h_last_sleep d1" using lock_some_epoch [OF i Some] by simp
    have "lock_stage (panel_lease_of (lock_foreground lock)) (h_last_sleep d1)
        (d1\<lparr>h_receiver_gone := True, h_channel := []\<rparr>)"
      using lock_some [OF i Some] lock_stage_end unfolding e by blast
    then show ?thesis
      using i Some by (simp add: sys_inv_def panel_inv_def world_ok_def published_def chan_ok_def
          lock_inv_def fence_inv_def wait_inv_def)
  qed
qed

lemma worker_good:
  assumes inv: "sys_inv d"
  shows "sys_inv (worker_round now d) \<and> h_fences (worker_round now d) = h_fences d"
proof -
  define received where "received = (case h_channel d of [] \<Rightarrow> None | c # cs \<Rightarrow> Some c)"
  let ?d = "d\<lparr>h_channel := tl (h_channel d)\<rparr>"
  obtain res d1 where r: "panel_round now received ?d = (res, d1)" by fastforce
  have "h_channel d = hd (h_channel d) # tl (h_channel d) \<and> received = Some (hd (h_channel d))
      \<or> h_channel d = [] \<and> received = None \<and> tl (h_channel d) = []"
    by (cases "h_channel d") (simp_all add: received_def)
  from afterwards_round [OF inv this, of now] have a: "afterwards d d1" using r by simp
  have m: "panel_world.more d1 = panel_world.more ?d"
    using stays_round [of now received ?d] r by simp
  have "set (tl (h_channel d)) \<subseteq> set (h_channel d)" by (cases "h_channel d") auto
  note s = sys_after [OF inv a m this]
  have "worker_round now d \<in> {d1, d1\<lparr>h_receiver_gone := True, h_channel := []\<rparr>}"
    by (auto simp: worker_round_def r received_def [symmetric] split: sum.split bool.split)
  then show ?thesis using s by auto
qed

section \<open>Reachable states\<close>

lemma initial_inv: "panel_inv w \<Longrightarrow> p_lock (prt w) = None \<Longrightarrow> cancelled_lock_epoch (tel w) = 0 \<Longrightarrow>
    (\<And>l. deferred (tel w) l = None) \<Longrightarrow> sys_inv (host_new w capacity width height stride)"
  by (simp add: host_new_def panel_world.defs sys_inv_def panel_inv_def world_ok_def published_def chan_ok_def
      lock_inv_def fence_inv_def wait_inv_def)

lemma step_inv:
  assumes "display_step d d'" "sys_inv d"
  shows "sys_inv d' \<and> fences_grow d d'"
  using assms
proof (induction rule: display_step.induct)
  case (control d command)
  then show ?case using good_control by (simp add: good_def step_good_def)
next
  case (wait_ink timed_out d)
  then show ?case using good_ink_poll by (simp add: good_def step_good_def)
next
  case (wait_cancel timed_out d)
  then show ?case using good_cancel_poll by (simp add: good_def step_good_def)
next
  case (packet d p conn collisions opened answer)
  then show ?case using good_packet by (simp add: good_def step_good_def)
next
  case (gone d conn)
  then show ?case using hang_up_good by (simp add: step_good_def)
next
  case (input d captured)
  then show ?case using good_dispatch by (simp add: good_def step_good_def)
next
  case (draw bytes d a)
  then show ?case using draw_good by (simp add: step_good_def)
next
  case (writer d q)
  then show ?case using irrelevant_good(2) by (simp add: step_good_def)
next
  case (worker d now)
  then show ?case using worker_good by (simp add: fences_grow_refl)
qed

lemma reach_inv: "display_reaches d0 d \<Longrightarrow> sys_inv d0 \<Longrightarrow> sys_inv d \<and> fences_grow d0 d"
proof (induction rule: display_reaches.induct)
  case (start d)
  then show ?case by (simp add: fences_grow_refl)
next
  case (more d0 d d')
  then show ?case using step_inv fences_grow_trans by blast
qed

end
