(* ===== verification/Display_Properties.thy ===== *)
theory Display_Properties
  imports Display_Guarantees
begin

text \<open>
  The guarantees of the running display host: while the panel shows a lock nothing else is drawn,
  leases are never granted twice, and input reaches the application on screen only. Each holds in
  every state that \<open>main\<close> can bring about.
\<close>

section \<open>Starting up\<close>

text \<open>\<open>main::validate_backend\<close> and the start of \<open>run\<close>; the channel to the panel has 1024 slots.\<close>

definition validate_backend :: "backend \<Rightarrow> i32 \<Rightarrow> i32 \<Rightarrow> (i32 \<times> i32 \<times> nat) option" where
  "validate_backend b lw lh =
     (if sint (b_width b) < sint lw \<or> sint (b_height b) < sint lh
         \<or> b_stride b < unat (scast (b_width b) :: u64) * 4
      then None else Some (b_width b, b_height b, b_stride b))"

definition display_boot :: "backend \<Rightarrow> int \<Rightarrow> i32 \<Rightarrow> i32 \<Rightarrow> display option" where
  "display_boot b now lw lh =
     map_option (\<lambda>(width, height, stride).
         host_new \<lparr>tel = telemetry_default, cells = [], prt = panel_new b now\<rparr> 1024 width height stride)
       (validate_backend b lw lh)"

text \<open>A display is reachable when it follows from the start on a framebuffer of the size that the
  backend claims, for a profile with a positive size.\<close>

definition reachable :: "display \<Rightarrow> bool" where
  "reachable d =
     (\<exists>b now width height d0.
        0 < sint width \<and> 0 < sint height \<and> length (b_pixels b) = b_stride b * nat (sint (b_height b))
        \<and> display_boot b now width height = Some d0 \<and> display_reaches d0 d)"

lemma boot_inv:
  assumes "0 < sint width" "0 < sint height" "length (b_pixels b) = b_stride b * nat (sint (b_height b))"
    and boot: "display_boot b now width height = Some d0"
  shows "sys_inv d0"
proof -
  have v: "\<not> sint (b_width b) < sint width" "\<not> sint (b_height b) < sint height"
    "\<not> b_stride b < unat (scast (b_width b) :: u64) * 4"
    and d0: "d0 = host_new \<lparr>tel = telemetry_default, cells = [], prt = panel_new b now\<rparr> 1024
      (b_width b) (b_height b) (b_stride b)"
    using boot by (auto simp: display_boot_def validate_backend_def split: if_splits)
  have w: "0 < sint (b_width b)" using v(1) assms(1) by simp
  have "sint (scast (b_width b) :: u64) = sint (b_width b)"
    by (simp add: sint_up_scast is_up)
  then have "uint (scast (b_width b) :: u64) = sint (b_width b)"
    using w sint_lt [of "b_width b"] by (simp add: uint_sint sint_sbintrunc' take_bit_int_eq_self_iff)
  then have "unat (scast (b_width b) :: u64) = nat (sint (b_width b))"
    by (simp only: unat_eq_nat_uint)
  then have "backend_ok b" using v assms w by (simp add: backend_ok_def)
  then show ?thesis
    unfolding d0
    by (intro initial_inv)
       (simp_all add: panel_inv_def world_ok_def published_def panel_new_def telemetry_default_def ink_default_def)
qed

lemma reachable_inv: "reachable d \<Longrightarrow> sys_inv d"
  using boot_inv reach_inv unfolding reachable_def by blast

lemma reachable_step: "reachable d \<Longrightarrow> display_step d d' \<Longrightarrow> reachable d'"
  unfolding reachable_def by (blast intro: display_reaches.more)

section \<open>A locked panel\<close>

lemma step_panel:
  assumes "display_step d d'" "sys_inv d"
  shows "prt d' = prt d \<or> (\<exists>now. d' = worker_round now d)"
  using assms
proof (induction rule: display_step.induct)
  case (control d command)
  then show ?case using good_control by (simp add: good_def step_good_def)
next
  case (wait_ink timed_out d)
  then show ?case using good_ink_poll by (simp add: good_def step_good_def)
next
  case (wait_cancel timed_out d)
  then show ?case using good_cancel_poll by (simp add: good_def step_good_def)
next
  case (packet d p conn collisions opened answer)
  then show ?case using good_packet by (simp add: good_def step_good_def)
next
  case (gone d conn)
  then show ?case using hang_up_good by (simp add: step_good_def)
next
  case (input d captured)
  then show ?case using good_dispatch by (simp add: good_def step_good_def)
next
  case (draw bytes d a)
  then show ?case using draw_good by (simp add: step_good_def)
qed auto

text \<open>The lock on the panel is the host's lock, fully up.\<close>

lemma panel_lock_up:
  assumes inv: "sys_inv d" and lock: "p_lock (prt d) = Some l"
  obtains host where "h_lock d = Some host" "lock_sleep_epoch host = plock_epoch l"
    "panel_lease_of (lock_foreground host) = plock_lease l"
    "lock_up (plock_lease l) (plock_epoch l) (prt d)" "list_all harmless (h_channel d)"
    "deferred (tel d) (plock_lease l) = None"
proof (cases "h_lock d")
  case None
  then show thesis using lock_none [OF inv] lock by simp
next
  case (Some host)
  then have up: "lock_up (panel_lease_of (lock_foreground host)) (lock_sleep_epoch host) (prt d)"
    and ch: "list_all harmless (h_channel d)"
    using lock_some [OF inv Some] lock unfolding lock_stage_def by auto
  then have "plock_epoch l = lock_sleep_epoch host" "plock_lease l = panel_lease_of (lock_foreground host)"
    using lock by (auto simp: lock_up_def)
  then show thesis using that [OF Some] up ch lock_some [OF inv Some] by simp
qed

definition lock_held :: "display \<Rightarrow> display \<Rightarrow> panel_lock \<Rightarrow> bool" where
  "lock_held d d' l =
     (p_lock (prt d') = Some l \<and> b_pixels (backend (prt d')) = b_pixels (backend (prt d))
      \<or> p_lock (prt d') = None \<and> cancelled_lock_epoch (tel d') = plock_epoch l)"

lemma flush_held:
  assumes inv: "panel_inv w" and held: "lock_held d w l" and none: "deferred (tel w) (plock_lease l) = None"
    and up: "p_lock (prt w) = Some l \<Longrightarrow> lock_up (plock_lease l) (plock_epoch l) (prt w)"
  shows "lock_held d (snd (flush now w)) l"
proof (cases "p_lock (prt w)")
  case None
  then show ?thesis using flush_kept [OF inv, of now] held by (simp add: lock_held_def lock_kept_def)
next
  case (Some l')
  then have l: "p_lock (prt w) = Some l" using held by (auto simp: lock_held_def)
  obtain w' where "flush now w = (Inr True, w')" "prt w' = prt w"
    using flush_frozen [OF up [OF l] none, of now] unfolding flush_def [symmetric] by blast
  then show ?thesis using held l by (simp add: lock_held_def)
qed

lemma worker_held:
  assumes inv: "sys_inv d" and lock: "p_lock (prt d) = Some l"
  shows "lock_held d (worker_round now d) l"
proof -
  obtain host where host: "h_lock d = Some host" "lock_sleep_epoch host = plock_epoch l"
    "panel_lease_of (lock_foreground host) = plock_lease l"
    and up: "lock_up (plock_lease l) (plock_epoch l) (prt d)" and ch: "list_all harmless (h_channel d)"
    and none: "deferred (tel d) (plock_lease l) = None"
    using panel_lock_up [OF inv lock] by blast
  define received where "received = (case h_channel d of [] \<Rightarrow> None | c # cs \<Rightarrow> Some c)"
  let ?d = "d\<lparr>h_channel := tl (h_channel d)\<rparr>" and ?w = "popped d (tl (h_channel d))"
  have p: "panel_inv ?d" "panel_inv ?w"
    using inv by (simp_all add: sys_inv_def popped_sel) (simp add: panel_inv_def world_ok_def published_def)
  have held: "lock_held d ?d l" "lock_held d ?w l" using lock by (simp_all add: lock_held_def popped_sel)
  have round: "lock_held d (snd (panel_round now received ?d)) l"
  proof (cases "h_channel d")
    case Nil
    have "lock_held d (snd (flush now ?d)) l"
      by (rule flush_held [OF p(1) held(1)]) (use none up in simp_all)
    then show ?thesis using Nil by (simp add: received_def round_run)
  next
    case (Cons c cs)
    show ?thesis
    proof (cases "c = Shutdown")
      case True
      then show ?thesis using Cons held(2) by (simp add: received_def round_run popped_def [symmetric])
    next
      case False
      let ?h = "snd (handle now c ?w)"
      have c: "harmless c" using ch Cons by simp
      have upw: "lock_up (plock_lease l) (plock_epoch l) (prt ?w)" using up by (simp add: popped_sel)
      note h = harmless_frozen [OF p(2) upw c, of now]
      have held': "lock_held d ?h l"
        using h lock by (auto simp: lock_held_def frozen_as_def popped_sel)
      have none': "deferred (tel ?h) (plock_lease l) = None"
        using handle_lowered [OF p(2)] none by (simp add: lowered_def popped_sel)
      have up': "lock_up (plock_lease l) (plock_epoch l) (prt ?h)" if "p_lock (prt ?h) = Some l"
        using h that by (auto simp: frozen_as_def)
      have "command_ok ?w c"
        using inv Cons False by (simp add: command_ok_def popped_sel sys_inv_def chan_ok_def)
      then have "panel_inv ?h" using handle_inv [OF p(2)] by blast
      note f = flush_held [OF this held' none' up', of now]
      obtain r w1 where r: "handle now c ?w = (r, w1)" by fastforce
      then have "snd (panel_round now received ?d) \<in> {w1, snd (flush now w1)}"
        using Cons False by (cases r) (simp_all add: received_def round_run popped_def [symmetric])
      then show ?thesis using held' f r by auto
    qed
  qed
  obtain res d1 where r: "panel_round now received ?d = (res, d1)" by fastforce
  have "worker_round now d \<in> {d1, d1\<lparr>h_receiver_gone := True, h_channel := []\<rparr>}"
    by (auto simp: worker_round_def r received_def [symmetric] split: sum.split bool.split)
  then show ?thesis using round r by (auto simp: lock_held_def)
qed

text \<open>C12: while the panel shows a lock, no step of any thread changes a pixel of the framebuffer or
  puts another lock in its place: application damage, pen input, foreground requests and refreshes
  that race with the lock are all without effect. The lock only ends by its own cancellation, which
  the panel then publishes; and it is always the lock that the host believes in.\<close>

theorem locked_panel_is_frozen:
  assumes "reachable d" "display_step d d'" "p_lock (prt d) = Some l"
  shows "(p_lock (prt d') = Some l \<and> b_pixels (backend (prt d')) = b_pixels (backend (prt d))
      \<or> p_lock (prt d') = None \<and> cancelled_lock_epoch (tel d') = plock_epoch l)
    \<and> (\<exists>host. h_lock d = Some host \<and> lock_sleep_epoch host = plock_epoch l
        \<and> panel_lease_of (lock_foreground host) = plock_lease l \<and> p_foreground (prt d) = Some (plock_lease l))"
proof -
  have inv: "sys_inv d" by (rule reachable_inv [OF assms(1)])
  have "lock_held d d' l"
    using step_panel [OF assms(2) inv]
  proof
    assume "prt d' = prt d"
    then show ?thesis using assms(3) by (simp add: lock_held_def)
  next
    assume "\<exists>now. d' = worker_round now d"
    then show ?thesis using worker_held [OF inv assms(3)] by blast
  qed
  moreover have "\<exists>host. h_lock d = Some host \<and> lock_sleep_epoch host = plock_epoch l
      \<and> panel_lease_of (lock_foreground host) = plock_lease l \<and> p_foreground (prt d) = Some (plock_lease l)"
    by (rule panel_lock_up [OF inv assms(3)]) (auto simp: lock_up_def)
  ultimately show ?thesis by (simp add: lock_held_def)
qed

section \<open>Leases are never granted twice\<close>

lemma set_foreground_fresh:
  assumes "set_foreground key g e full d = (Inr (), d')"
  shows "fresh_fence d key g e"
  by (cases rule: checks_run [of "''display is locked''" d key g e])
     (use assms in \<open>simp_all add: set_foreground_def Let_def\<close>)


text \<open>A concrete run of the mock backend: an application connects and draws, takes the foreground, and
  the display is locked.\<close>

definition demo_connection :: connection where
  "demo_connection = \<lparr>conn_fd = 7, conn_queue = 0, conn_key = None\<rparr>"

definition demo_packet :: "connection \<Rightarrow> client_packet \<Rightarrow> display \<Rightarrow> display" where
  "demo_packet conn packet d = snd (process_packet conn 0 (Inr ()) (Inr ()) packet d)"

definition demo_boot :: display where
  "demo_boot = (case memory_backend 3 2 of Inr b \<Rightarrow> the (display_boot b 0 3 2))"

definition demo_connected :: display where
  "demo_connected = demo_packet demo_connection (Initialize 5 Rgb565 3 2) demo_boot"

definition demo_drawn :: display where
  "demo_drawn = demo_packet (demo_connection\<lparr>conn_key := Some 5\<rparr>) (Update None) (worker_round 1 demo_connected)"

definition demo_foreground :: display where
  "demo_foreground = worker_round 2 (snd (control_dispatch (C_SetForeground 5 1 1 False) demo_drawn))"

definition demo_locked :: display where
  "demo_locked = worker_round 3 (snd (control_dispatch (C_ShowLock 5 1 2 9) demo_foreground))"

lemma demo_boot_reachable: "reachable demo_boot"
  unfolding reachable_def
proof (intro exI conjI)
  let ?b = "case memory_backend 3 2 of Inr b \<Rightarrow> b"
  show "0 < sint (3 :: i32)" "0 < sint (2 :: i32)" by simp_all
  show "length (b_pixels ?b) = b_stride ?b * nat (sint (b_height ?b))" by code_simp
  show "display_boot ?b 0 3 2 = Some demo_boot"
    by (simp add: demo_boot_def memory_backend_def display_boot_def validate_backend_def Let_def)
  show "display_reaches demo_boot demo_boot" by (rule display_reaches.start)
qed

lemma demo_packet_reachable:
  "reachable d \<Longrightarrow> h_pending d = No_Wait \<Longrightarrow> reachable (demo_packet conn packet d)"
  unfolding demo_packet_def by (rule reachable_step, assumption, rule display_step.packet) simp

lemma demo_worker_reachable: "reachable d \<Longrightarrow> \<not> h_receiver_gone d \<Longrightarrow> reachable (worker_round now d)"
  by (rule reachable_step, assumption, rule display_step.worker)

lemma demo_control_reachable:
  "reachable d \<Longrightarrow> h_pending d = No_Wait \<Longrightarrow> reachable (snd (control_dispatch c d))"
  by (rule reachable_step, assumption, rule display_step.control)

lemma demo_connected_reachable: "reachable demo_connected"
  unfolding demo_connected_def by (rule demo_packet_reachable [OF demo_boot_reachable]) code_simp

lemma demo_drawn_reachable: "reachable demo_drawn"
  unfolding demo_drawn_def
  by (rule demo_packet_reachable, rule demo_worker_reachable [OF demo_connected_reachable]) code_simp+

lemma demo_foreground_reachable: "reachable demo_foreground"
  unfolding demo_foreground_def
  by (rule demo_worker_reachable, rule demo_control_reachable [OF demo_drawn_reachable]) code_simp+

lemma demo_locked_reachable: "reachable demo_locked"
  unfolding demo_locked_def
  by (rule demo_worker_reachable, rule demo_control_reachable [OF demo_foreground_reachable]) code_simp+

section \<open>Input\<close>

lemma suppress_keeps:
  "suppress_fenced_contact frame d = (b, d') \<Longrightarrow>
     h_prepared d' = h_prepared d \<and> h_lock d' = h_lock d \<and> tel d' = tel d \<and> h_foreground d' = h_foreground d"
  by (auto simp: suppress_fenced_contact_def split: input_frame.splits pen_phase.splits if_splits)

text \<open>C16: captured input is delivered only when its epoch is still the current one, the display is
  neither locked nor about to change hands, and the lease that the host has put in the foreground is
  the one whose surface the panel really shows, which is not locked either.\<close>

theorem input_goes_to_the_application_on_screen:
  assumes "reachable d" and "dispatch_captured_input captured d = (Inr (), d')"
  shows "captured_epoch captured = h_input_epoch d \<and> h_lock d = None \<and> h_prepared d = None
    \<and> p_lock (prt d) = None
    \<and> (\<exists>f. h_foreground d = Some f \<and> p_foreground (prt d) = Some (panel_lease_of f))"
proof -
  have inv: "sys_inv d" by (rule reachable_inv [OF assms(1)])
  then have pub: "committed_foreground (tel d) = p_foreground (prt d)"
    by (simp add: sys_inv_def panel_inv_def published_def)
  obtain b d1 where s: "suppress_fenced_contact (captured_frame captured) d = (b, d1)" by fastforce
  note k = suppress_keeps [OF s]
  show ?thesis
    using assms(2) s k pub lock_none [OF inv]
    by (auto simp: dispatch_captured_input_def not_routed_def fail_def split: if_splits bool.splits option.splits)
qed

section \<open>What the host reports\<close>

text \<open>C25: the answer to a status request tells the truth about the panel: the foreground it names is the
  lease on screen, and it says that a lock is committed exactly when the panel shows one, whose
  epoch is then the reported one.\<close>

theorem status_is_truthful:
  assumes "reachable d"
  shows "let s = host_snapshot d; shown = p_foreground (prt d) in
    snap_foreground_key s = map_option lease_key shown
    \<and> snap_generation s = (case shown of None \<Rightarrow> 0 | Some l \<Rightarrow> lease_generation l)
    \<and> snap_foreground_epoch s = (case shown of None \<Rightarrow> 0 | Some l \<Rightarrow> lease_epoch l)
    \<and> (snap_lock_committed s \<longleftrightarrow> p_lock (prt d) \<noteq> None)
    \<and> (\<forall>l. p_lock (prt d) = Some l \<longrightarrow> snap_lock_epoch s = plock_epoch l)"
proof -
  have inv: "sys_inv d" by (rule reachable_inv [OF assms])
  then have pub: "committed_foreground (tel d) = p_foreground (prt d)"
    "committed_lock_epoch (tel d) = (case p_lock (prt d) of None \<Rightarrow> 0 | Some l \<Rightarrow> plock_epoch l)"
    by (simp_all add: sys_inv_def panel_inv_def published_def)
  have "snap_lock_committed (host_snapshot d) \<longleftrightarrow> p_lock (prt d) \<noteq> None"
  proof (cases "p_lock (prt d)")
    case None
    then show ?thesis
      using lock_some_epoch [OF inv] pub(2) by (auto simp: host_snapshot_def Let_def split: option.split)
  next
    case (Some l)
    show ?thesis
      by (rule panel_lock_up [OF inv Some])
         (use Some pub lock_some_epoch [OF inv] in \<open>auto simp: host_snapshot_def Let_def lock_up_def\<close>)
  qed
  moreover have "snap_lock_epoch (host_snapshot d) = plock_epoch l" if "p_lock (prt d) = Some l" for l
    by (rule panel_lock_up [OF inv that]) (simp add: host_snapshot_def Let_def)
  ultimately show ?thesis using pub(1) by (simp add: host_snapshot_def Let_def)
qed

lemma status_is_truthful_witness:
  "let s = host_snapshot demo_locked; shown = p_foreground (prt demo_locked) in
    snap_foreground_key s = map_option lease_key shown
    \<and> snap_generation s = (case shown of None \<Rightarrow> 0 | Some l \<Rightarrow> lease_generation l)
    \<and> snap_foreground_epoch s = (case shown of None \<Rightarrow> 0 | Some l \<Rightarrow> lease_epoch l)
    \<and> (snap_lock_committed s \<longleftrightarrow> p_lock (prt demo_locked) \<noteq> None)
    \<and> (\<forall>l. p_lock (prt demo_locked) = Some l \<longrightarrow> snap_lock_epoch s = plock_epoch l)"
  by (rule status_is_truthful [OF demo_locked_reachable])

section \<open>Witnesses\<close>

definition demo_lock :: panel_lock where
  "demo_lock = \<lparr>plock_epoch = 9, plock_lease = \<lparr>lease_key = 5, lease_generation = 1, lease_epoch = 2\<rparr>,
     plock_frozen = 1\<rparr>"

lemma locked_panel_is_frozen_witness:
  "(p_lock (prt (worker_round 4 demo_locked)) = Some demo_lock
      \<and> b_pixels (backend (prt (worker_round 4 demo_locked))) = b_pixels (backend (prt demo_locked))
      \<or> p_lock (prt (worker_round 4 demo_locked)) = None
      \<and> cancelled_lock_epoch (tel (worker_round 4 demo_locked)) = plock_epoch demo_lock)
    \<and> (\<exists>host. h_lock demo_locked = Some host \<and> lock_sleep_epoch host = plock_epoch demo_lock
        \<and> panel_lease_of (lock_foreground host) = plock_lease demo_lock
        \<and> p_foreground (prt demo_locked) = Some (plock_lease demo_lock))"
proof (rule locked_panel_is_frozen [OF demo_locked_reachable])
  show "display_step demo_locked (worker_round 4 demo_locked)" by (rule display_step.worker) code_simp
  show "p_lock (prt demo_locked) = Some demo_lock" by code_simp
qed


definition demo_touch :: captured_input where
  "demo_touch = \<lparr>captured_epoch = h_input_epoch demo_foreground,
     captured_frame = Touch_Frame (tap_frame 1 Touch_Down 1 1 64)\<rparr>"

lemma input_goes_to_the_application_on_screen_witness:
  "captured_epoch demo_touch = h_input_epoch demo_foreground \<and> h_lock demo_foreground = None
    \<and> h_prepared demo_foreground = None \<and> p_lock (prt demo_foreground) = None
    \<and> (\<exists>f. h_foreground demo_foreground = Some f \<and> p_foreground (prt demo_foreground) = Some (panel_lease_of f))"
proof (rule input_goes_to_the_application_on_screen [OF demo_foreground_reachable])
  have "fst (dispatch_captured_input demo_touch demo_foreground) = Inr ()" by code_simp
  then show "dispatch_captured_input demo_touch demo_foreground =
      (Inr (), snd (dispatch_captured_input demo_touch demo_foreground))"
    by (simp add: prod_eq_iff)
qed

end
