(* ===== verification/Package_Bundle.thy ===== *)
theory Package_Bundle
  imports Manifest
begin

text \<open>
  Application bundles (\<open>remagic-package/src/bundle.rs\<close>, \<open>bundle/installed.rs\<close>, \<open>filesystem.rs\<close>): unpacking
  an archive into the staging directory, the check of its inventory and of its manifest, and the
  check of a release that is already installed. A directory tree is the list of its entries, each
  under its path relative to the root; directories are implicit. The digest, the parsers of JSON and
  TOML and the tar reader are third-party code: the digest and the parsers are parameters, and the
  archive is the list of what the reader yields.
\<close>

unbundle bit_operations_syntax

section \<open>Data\<close>

record bundle_file =
  bf_path :: string
  bf_sha256 :: string
  bf_size :: u64
  bf_mode :: string

record package_bundle =
  b_schema :: u32
  b_app_id :: string
  b_package :: string
  b_version :: string
  b_content_id :: string
  b_manifest_path :: string
  b_payload_sha256 :: string
  b_files :: "bundle_file list"

datatype node = Regular (node_mode: u32) (node_bytes: string) | Link path | Special

type_synonym file_tree = "(string \<times> node) list"

datatype package_error =
    P_Io path string
  | P_Archive string
  | P_ArchiveLimit
  | P_UnsafePath path
  | P_UnsupportedEntry path
  | P_UnsafeMode path u32
  | P_Bundle string
  | P_InventoryMismatch
  | P_FileMismatch string
  | P_PayloadMismatch
  | P_ContentIdMismatch
  | P_Manifest string
  | P_Compatibility string
  | P_State string
  | P_ReleaseExists string
  | P_NoRollback string
  | P_SystemApp string
  | P_UnsafePurge path
  | P_UnsafeDataPath path

record prepared_package =
  pp_bundle :: package_bundle
  pp_manifest :: app_manifest
  pp_manifest_bytes :: string
  pp_stage :: file_tree

definition PACKAGE_SCHEMA_V1 :: u32 where "PACKAGE_SCHEMA_V1 = 1"
definition MAX_FILES :: int where "MAX_FILES = 100000"
definition MAX_EXPANDED_BYTES :: u64 where "MAX_EXPANDED_BYTES = 2 * 1024 * 1024 * 1024"

section \<open>Names\<close>

definition safe_relative :: "path \<Rightarrow> bool" where
  "safe_relative p =
     (p \<noteq> [] \<and> \<not> is_absolute p \<and> list_all (\<lambda>c. case c of Normal _ \<Rightarrow> True | _ \<Rightarrow> False) (path_components p))"

definition safe_identifier :: "string \<Rightarrow> bool" where
  "safe_identifier v =
     (v \<noteq> [] \<and> length v \<le> 64 \<and> \<not> starts_with v ''-'' \<and> \<not> ends_with v ''-''
      \<and> list_all (\<lambda>c. is_ascii_lowercase c \<or> is_ascii_digit c \<or> c = CHR ''-'') v)"

definition lower_hex_64 :: "string \<Rightarrow> bool" where
  "lower_hex_64 v =
     (length v = 64 \<and> list_all (\<lambda>c. is_ascii_digit c \<or> (CHR ''a'' \<le> c \<and> c \<le> CHR ''f'')) v)"

text \<open>\<open>u32::from_str_radix(value, 8)\<close> on four bytes, a leading plus sign allowed.\<close>

definition octal_digit :: "char \<Rightarrow> bool" where
  "octal_digit c = (CHR ''0'' \<le> c \<and> c \<le> CHR ''7'')"

definition octal_value :: "string \<Rightarrow> u32" where
  "octal_value s = foldl (\<lambda>n c. n * 8 + (of_nat (of_char c) - 48)) 0 s"

definition from_octal :: "string \<Rightarrow> u32 option" where
  "from_octal s =
     (let digits = (case s of c # cs \<Rightarrow> if c = CHR ''+'' then cs else s | [] \<Rightarrow> [])
      in if digits \<noteq> [] \<and> list_all octal_digit digits then Some (octal_value digits) else None)"

definition parse_mode :: "string \<Rightarrow> u32 option" where
  "parse_mode v =
     (if length v = 4 then
        Option.bind (from_octal v) (\<lambda>bits.
          if bits AND 0x0E12 = 0 \<and> bits AND 0x100 \<noteq> 0 then Some bits else None)
      else None)"

text \<open>\<open>{:o}\<close>.\<close>

function octal :: "int \<Rightarrow> string" where
  "octal n = (if n < 8 then [char_of (48 + n)] else octal (n div 8) @ [char_of (48 + n mod 8)])"
  by auto

termination by (relation "measure nat") auto

declare octal.simps [simp del]

text \<open>\<open>to_string_lossy\<close>: each maximal invalid sequence of bytes becomes U+FFFD.\<close>

definition replacement :: "nat list" where
  "replacement = [0xEF, 0xBF, 0xBD]"

definition continuation :: "nat \<Rightarrow> bool" where
  "continuation b = (0x80 \<le> b \<and> b \<le> 0xBF)"

definition second_ok :: "nat \<Rightarrow> nat \<Rightarrow> bool" where
  "second_ok a b =
     (if a = 0xE0 then 0xA0 \<le> b \<and> b \<le> 0xBF
      else if a = 0xED then 0x80 \<le> b \<and> b \<le> 0x9F
      else if a = 0xF0 then 0x90 \<le> b \<and> b \<le> 0xBF
      else if a = 0xF4 then 0x80 \<le> b \<and> b \<le> 0x8F
      else continuation b)"

fun utf8_width :: "nat \<Rightarrow> nat" where
  "utf8_width a =
     (if a < 0x80 then 1 else if 0xC2 \<le> a \<and> a \<le> 0xDF then 2
      else if 0xE0 \<le> a \<and> a \<le> 0xEF then 3 else if 0xF0 \<le> a \<and> a \<le> 0xF4 then 4 else 0)"

fun lossy_bytes :: "nat list \<Rightarrow> nat list" where
  "lossy_bytes [] = []"
| "lossy_bytes (a # s) =
     (if utf8_width a = 1 then a # lossy_bytes s
      else if utf8_width a = 0 then replacement @ lossy_bytes s
      else case s of
          [] \<Rightarrow> replacement
        | b # t \<Rightarrow>
            if \<not> second_ok a b then replacement @ lossy_bytes s
            else if utf8_width a = 2 then a # b # lossy_bytes t
            else (case t of
                [] \<Rightarrow> replacement
              | c # u \<Rightarrow>
                  if \<not> continuation c then replacement @ lossy_bytes t
                  else if utf8_width a = 3 then a # b # c # lossy_bytes u
                  else (case u of
                      [] \<Rightarrow> replacement
                    | d # v \<Rightarrow>
                        if \<not> continuation d then replacement @ lossy_bytes u
                        else a # b # c # d # lossy_bytes v)))"

definition to_string_lossy :: "string \<Rightarrow> string" where
  "to_string_lossy s = map char_of (lossy_bytes (map of_char s))"

definition is_utf8 :: "string \<Rightarrow> bool" where
  "is_utf8 s = (from_utf8 s = Some s)"

section \<open>Unpacking\<close>

datatype tar_kind = Tar_Directory | Tar_File | Tar_Other

record tar_entry =
  te_path :: path
  te_kind :: tar_kind
  te_size :: u64
  te_mode :: "u32 option"
  te_data :: "string + string"

text \<open>The files and directories written so far, by their names below the staging root.\<close>

record extraction =
  x_seen :: "component list list"
  x_dirs :: "string list list"
  x_files :: "(string list \<times> node) list"
  x_count :: int
  x_expanded :: u64

definition names_of :: "path \<Rightarrow> string list" where
  "names_of p = map (\<lambda>c. case c of Normal s \<Rightarrow> s | _ \<Rightarrow> []) (path_components p)"

definition has_nul :: "path \<Rightarrow> bool" where
  "has_nul p = (nul \<in> set p)"

definition file_at :: "string list \<Rightarrow> extraction \<Rightarrow> bool" where
  "file_at names x = (map_of (x_files x) names \<noteq> None)"

text \<open>\<open>create_dir_all\<close> fails where a file is in the way, and every call on a name with a NUL byte does.\<close>

definition create_dirs :: "path \<Rightarrow> string list \<Rightarrow> extraction \<Rightarrow> package_error + extraction" where
  "create_dirs p names x =
     (if has_nul p \<and> names \<noteq> [] then Inl (P_Io p ''file name contained an unexpected NUL byte'')
      else if list_ex (\<lambda>d. file_at d x) (prefixes names) then Inl (P_Io p ''File exists'')
      else Inr (x\<lparr>x_dirs := prefixes names @ x_dirs x\<rparr>))"

definition unsafe_mode :: "u32 \<Rightarrow> bool" where
  "unsafe_mode bits = (bits AND 0x0E12 \<noteq> 0 \<or> bits AND 0x100 = 0)"

definition extract_file :: "tar_entry \<Rightarrow> extraction \<Rightarrow> package_error + extraction" where
  "extract_file e x =
     (let count = x_count x + 1; names = names_of (te_path e) in
      case checked_add (x_expanded x) (te_size e) of
        None \<Rightarrow> Inl P_ArchiveLimit
      | Some expanded \<Rightarrow>
          if MAX_FILES < count \<or> MAX_EXPANDED_BYTES < expanded then Inl P_ArchiveLimit
          else case te_mode e of
              None \<Rightarrow> Inl (P_Archive ''numeric field was not a number'')
            | Some raw \<Rightarrow>
                let bits = raw AND 0x0FFF in
                if unsafe_mode bits then Inl (P_UnsafeMode (te_path e) bits)
                else res_bind (create_dirs (te_path e) (butlast names) x) (\<lambda>x1.
                  if has_nul (te_path e)
                  then Inl (P_Io (te_path e) ''file name contained an unexpected NUL byte'')
                  else if file_at names x1 \<or> names \<in> set (x_dirs x1)
                  then Inl (P_Io (te_path e) ''File exists'')
                  else case te_data e of
                      Inl m \<Rightarrow> Inl (P_Io (te_path e) m)
                    | Inr bytes \<Rightarrow>
                        Inr (x1\<lparr>x_files := x_files x1 @ [(names, Regular bits bytes)],
                                x_count := count, x_expanded := expanded\<rparr>)))"

definition extract_entry :: "tar_entry \<Rightarrow> extraction \<Rightarrow> package_error + extraction" where
  "extract_entry e x =
     (let key = path_components (te_path e) in
      if \<not> safe_relative (te_path e) \<or> key \<in> set (x_seen x) then Inl (P_UnsafePath (te_path e))
      else
        let x1 = x\<lparr>x_seen := key # x_seen x\<rparr> in
        case te_kind e of
          Tar_Directory \<Rightarrow> create_dirs (te_path e) (names_of (te_path e)) x1
        | Tar_Other \<Rightarrow> Inl (P_UnsupportedEntry (te_path e))
        | Tar_File \<Rightarrow> extract_file e x1)"

fun extract_all :: "(string + tar_entry) list \<Rightarrow> extraction \<Rightarrow> package_error + extraction" where
  "extract_all [] x = Inr x"
| "extract_all (Inl m # es) x = Inl (P_Archive m)"
| "extract_all (Inr e # es) x = res_bind (extract_entry e x) (extract_all es)"

definition extraction_start :: extraction where
  "extraction_start = \<lparr>x_seen = [], x_dirs = [], x_files = [], x_count = 0, x_expanded = 0\<rparr>"

definition tree_of :: "extraction \<Rightarrow> file_tree" where
  "tree_of x = map (\<lambda>(names, n). (join_with ''/'' names, n)) (x_files x)"

section \<open>The inventory\<close>

text \<open>\<open>regular_files\<close>: the names, made printable, of all files below a directory.\<close>

fun regular_files :: "file_tree \<Rightarrow> (string, string) btree \<Rightarrow> package_error + (string, string) btree" where
  "regular_files [] acc = Inr acc"
| "regular_files ((name, Regular bits bytes) # t) acc = regular_files t (bt_insert (to_string_lossy name) name acc)"
| "regular_files ((name, _) # t) acc = Inl (P_UnsupportedEntry name)"

definition read_limited :: "file_tree \<Rightarrow> string \<Rightarrow> int \<Rightarrow> package_error + string" where
  "read_limited t name limit =
     (case map_of t name of
        Some (Regular bits bytes) \<Rightarrow> if limit < int (length bytes) then Inl P_ArchiveLimit else Inr bytes
      | _ \<Rightarrow> Inl (P_Io name ''No such file or directory''))"

definition inventory_entry :: "bundle_file \<Rightarrow> package_error + unit" where
  "inventory_entry f =
     guard (\<not> safe_relative (bf_path f) \<or> bf_path f = ''bundle.json'' \<or> \<not> lower_hex_64 (bf_sha256 f)
            \<or> parse_mode (bf_mode f) = None)
       (P_Bundle (''invalid inventory entry '' @ bf_path f))"

definition validate_bundle :: "package_bundle \<Rightarrow> package_error + unit" where
  "validate_bundle b =
     chk (guard (b_schema b \<noteq> PACKAGE_SCHEMA_V1)
            (P_Bundle (''unsupported package schema '' @ decimal (uint (b_schema b)))))
    (chk (guard (\<not> safe_identifier (b_app_id b) \<or> \<not> safe_identifier (b_package b))
            (P_Bundle ''invalid app or package id''))
    (chk (guard (is_blank (b_version b) \<or> \<not> lower_hex_64 (b_content_id b)
                 \<or> \<not> lower_hex_64 (b_payload_sha256 b) \<or> b_manifest_path b \<noteq> ''manifest.toml''
                 \<or> b_files b = [])
            (P_Bundle ''invalid package metadata''))
    (chk (for_unique inventory_entry bf_path (\<lambda>f. P_Bundle (''invalid inventory entry '' @ bf_path f)) []
            (b_files b))
         (guard (b_manifest_path b \<notin> bf_path ` set (b_files b)) (P_Bundle ''manifest is not in inventory'')))))"

definition canonical :: "bundle_file \<Rightarrow> u32 \<Rightarrow> string" where
  "canonical f bits =
     bf_path f @ [nul] @ octal (uint bits) @ [nul] @ decimal (uint (bf_size f)) @ [nul] @ bf_sha256 f @ [CHR 0x0A]"

definition size_is :: "string \<Rightarrow> u64 \<Rightarrow> bool" where
  "size_is bytes n = (int (length bytes) = uint n)"

definition check_file :: "(string \<Rightarrow> string) \<Rightarrow> file_tree \<Rightarrow> bundle_file \<Rightarrow> package_error + string" where
  "check_file digest t f =
     (case map_of t (bf_path f) of
        Some (Regular raw bytes) \<Rightarrow>
          let bits = raw AND 0x0FFF in
          res_bind (ok_or (parse_mode (bf_mode f)) (P_Bundle (''invalid mode for '' @ bf_path f))) (\<lambda>expected.
            if \<not> size_is bytes (bf_size f) \<or> bits \<noteq> expected \<or> digest bytes \<noteq> bf_sha256 f
            then Inl (P_FileMismatch (bf_path f))
            else Inr (canonical f bits))
      | _ \<Rightarrow> Inl (P_Io (bf_path f) ''No such file or directory''))"

fun check_files ::
  "(string \<Rightarrow> string) \<Rightarrow> file_tree \<Rightarrow> bundle_file list \<Rightarrow> package_error + (bundle_file \<times> string) list" where
  "check_files digest t [] = Inr []"
| "check_files digest t (f # fs) =
     res_bind (check_file digest t f) (\<lambda>line.
     res_bind (check_files digest t fs) (\<lambda>rest. Inr ((f, line) # rest)))"

definition content_header :: "package_bundle \<Rightarrow> string" where
  "content_header b =
     ''remagic-bundle-content-v1'' @ [nul] @ b_app_id b @ [nul] @ b_package b @ [nul] @ b_version b @ [nul]"

definition ordered_files :: "package_bundle \<Rightarrow> bundle_file list" where
  "ordered_files b = sort_key bf_path (b_files b)"

definition verify_inventory :: "(string \<Rightarrow> string) \<Rightarrow> file_tree \<Rightarrow> package_bundle \<Rightarrow> package_error + unit" where
  "verify_inventory digest t b =
     res_bind (regular_files t []) (\<lambda>actual.
       if set (map bf_path (b_files b)) \<noteq> set (filter (\<lambda>p. p \<noteq> ''bundle.json'') (map fst actual))
       then Inl P_InventoryMismatch
       else res_bind (check_files digest t (ordered_files b)) (\<lambda>lines.
         let payload = concat (map snd (filter (\<lambda>(f, _). starts_with (bf_path f) ''payload/'') lines));
             content = content_header b @ concat (map snd lines)
         in if digest payload \<noteq> b_payload_sha256 b then Inl P_PayloadMismatch
            else if digest content \<noteq> b_content_id b then Inl P_ContentIdMismatch
            else Inr ()))"

definition validate_manifest_contract :: "package_bundle \<Rightarrow> app_manifest \<Rightarrow> device_profile \<Rightarrow> package_error + unit" where
  "validate_manifest_contract b m dev =
     chk (guard (as_str (m_id m) \<noteq> b_app_id b \<or> m_package m \<noteq> Some (b_package b) \<or> m_version m \<noteq> b_version b)
            (P_Manifest ''manifest identity does not match bundle''))
    (chk (guard (REMAGIC_APP_API_VERSION < m_required_remagic_api m)
            (P_Compatibility (''requires ReMagic API '' @ decimal (uint (m_required_remagic_api m)))))
    (chk (guard (m_supported_devices m \<noteq> [] \<and> product_id dev \<notin> set (m_supported_devices m))
            (P_Compatibility ''unsupported device''))
    (chk (guard (m_supported_os m \<noteq> [] \<and> os_version dev \<notin> set (m_supported_os m))
            (P_Compatibility (''unsupported OS '' @ os_version dev)))
         (for_each (\<lambda>p. guard (\<not> path_starts_with p (path_join ''/home/root/apps'' (b_app_id b)))
                          (P_Manifest (''runtime path escapes application release: '' @ p)))
            [m_exec m, m_working_dir m]))))"

text \<open>\<open>prepare_at\<close>, with the directory it fills in the result.\<close>

definition prepare_at ::
  "(string \<Rightarrow> string) \<Rightarrow> (string \<Rightarrow> string + package_bundle) \<Rightarrow> (string \<Rightarrow> string + app_manifest)
    \<Rightarrow> (string + tar_entry) list \<Rightarrow> device_profile \<Rightarrow> package_error + prepared_package" where
  "prepare_at digest json toml items dev =
     res_bind (extract_all items extraction_start) (\<lambda>x.
     let t = tree_of x in
     res_bind (read_limited t ''bundle.json'' (4 * 1024 * 1024)) (\<lambda>bundle_bytes.
     res_bind (map_err P_Bundle (json bundle_bytes)) (\<lambda>b.
     chk (validate_bundle b)
    (chk (verify_inventory digest t b)
    (res_bind (read_limited t (b_manifest_path b) (1024 * 1024)) (\<lambda>bytes.
     res_bind (ok_or (from_utf8 bytes) (P_Manifest ''invalid utf-8 sequence'')) (\<lambda>txt.
     res_bind (map_err P_Manifest (toml txt)) (\<lambda>m.
     chk (map_err (\<lambda>_. P_Manifest ''invalid manifest'') (manifest_validate m))
    (chk (validate_manifest_contract b m dev)
         (Inr \<lparr>pp_bundle = b, pp_manifest = m, pp_manifest_bytes = bytes, pp_stage = t\<rparr>))))))))))"

section \<open>Installed releases\<close>

definition read_only_node :: "node \<Rightarrow> node" where
  "read_only_node n =
     (case n of
        Regular bits bytes \<Rightarrow> Regular (if bits AND 0x49 \<noteq> 0 then 0x16D else 0x124) bytes
      | _ \<Rightarrow> n)"

definition make_read_only :: "file_tree \<Rightarrow> path + file_tree" where
  "make_read_only t =
     (case filter (\<lambda>(_, n). case n of Regular _ _ \<Rightarrow> False | _ \<Rightarrow> True) t of
        [] \<Rightarrow> Inr (map (\<lambda>(name, n). (name, read_only_node n)) t)
      | (name, _) # _ \<Rightarrow> Inl name)"

definition installed_mode :: "u32 \<Rightarrow> u32" where
  "installed_mode bits = (if bits AND 0x49 \<noteq> 0 then 0x16D else 0x124)"

definition installed_file :: "(string \<Rightarrow> string) \<Rightarrow> file_tree \<Rightarrow> bundle_file \<Rightarrow> package_error + unit" where
  "installed_file digest t f =
     (case map_of t (bf_path f) of
        Some (Regular raw bytes) \<Rightarrow>
          res_bind (ok_or (parse_mode (bf_mode f)) (P_Bundle (''invalid mode for '' @ bf_path f))) (\<lambda>bits.
            guard (\<not> size_is bytes (bf_size f) \<or> raw AND 0x0FFF \<noteq> installed_mode bits
                   \<or> digest bytes \<noteq> bf_sha256 f)
              (P_FileMismatch (bf_path f)))
      | _ \<Rightarrow> Inl (P_Io (bf_path f) ''No such file or directory''))"

definition file_digest :: "(string \<Rightarrow> string) \<Rightarrow> file_tree \<Rightarrow> string \<Rightarrow> package_error + string" where
  "file_digest digest t name =
     (case map_of t name of
        Some (Regular bits bytes) \<Rightarrow> Inr (digest bytes)
      | _ \<Rightarrow> Inl (P_Io name ''No such file or directory''))"

definition verify_installed_release ::
  "(string \<Rightarrow> string) \<Rightarrow> file_tree \<Rightarrow> file_tree \<Rightarrow> package_bundle \<Rightarrow> package_error + unit" where
  "verify_installed_release digest t stage b =
     res_bind (regular_files t []) (\<lambda>actual.
       if insert ''bundle.json'' (set (map bf_path (b_files b))) \<noteq> set (map fst actual)
       then Inl P_InventoryMismatch
       else chk (for_each (installed_file digest t) (b_files b))
         (res_bind (file_digest digest t ''bundle.json'') (\<lambda>installed.
          res_bind (file_digest digest stage ''bundle.json'') (\<lambda>verified.
            guard (installed \<noteq> verified) (P_FileMismatch ''bundle.json'')))))"

end
