(* ===== verification/Package_Verify.thy ===== *)
theory Package_Verify
  imports Package_Bundle
begin

text \<open>
  What an accepted bundle is: its staging directory is exactly its inventory, its content id stands
  for its identity and its inventory, and the release made from it is recognised when the same
  bundle is installed again.
\<close>

section \<open>Names and numbers\<close>

lemma split_join:
  "ws \<noteq> [] \<Longrightarrow> \<forall>w\<in>set ws. d \<notin> set w \<Longrightarrow> split_on d (join_with [d] ws) = ws"
proof (induction ws rule: induct_list012)
  case 1
  then show ?case by simp
next
  case (2 w)
  have "d \<notin> set w \<Longrightarrow> split_on d w = [w]"
    by (induction w) auto
  with 2 show ?case by simp
next
  case (3 v w ws)
  have "d \<notin> set v \<Longrightarrow> split_on d (v @ d # s) = v # split_on d s" for s
    by (induction v) (auto split: list.splits)
  with 3 show ?case by simp
qed

lemma join_inj:
  "ws \<noteq> [] \<Longrightarrow> vs \<noteq> [] \<Longrightarrow> \<forall>w\<in>set ws. d \<notin> set w \<Longrightarrow> \<forall>v\<in>set vs. d \<notin> set v
    \<Longrightarrow> join_with [d] ws = join_with [d] vs \<longleftrightarrow> ws = vs"
  by (metis split_join)

lemma digit_char:
  "0 \<le> k \<Longrightarrow> k < 10 \<Longrightarrow> of_char (char_of (48 + k) :: char) = 48 + k" for k :: int
  by (simp add: take_bit_int_eq_self)

lemma digit_not_nul: "0 \<le> k \<Longrightarrow> k < 10 \<Longrightarrow> char_of (48 + k) \<noteq> nul" for k :: int
proof
  assume k: "0 \<le> k" "k < 10" and n: "char_of (48 + k) = nul"
  from n have "of_char (char_of (48 + k)) = (of_char nul :: int)" by simp
  with digit_char [OF k] k show False by (simp add: nul_def)
qed

text \<open>The numeral of \<open>n\<close> to a base can be read back, and has no NUL byte.\<close>

definition read_base :: "int \<Rightarrow> string \<Rightarrow> int" where
  "read_base b s = foldl (\<lambda>n c. n * b + (of_char c - 48)) 0 s"

lemma read_base_snoc: "read_base b (s @ [c]) = read_base b s * b + (of_char c - 48)"
  by (simp add: read_base_def)

lemma octal_reads: "0 \<le> n \<Longrightarrow> read_base 8 (octal n) = n \<and> nul \<notin> set (octal n)"
proof (induction n rule: octal.induct)
  case (1 n)
  show ?case
  proof (cases "n < 8")
    case True
    with "1.prems" show ?thesis
      using digit_char [of n] digit_not_nul [of n]
      by (subst (1 2) octal.simps) (simp add: read_base_def)
  next
    case False
    have split: "octal n = octal (n div 8) @ [char_of (48 + n mod 8)]"
      using False by (subst octal.simps) simp
    have digit: "of_char (char_of (48 + n mod 8) :: char) = 48 + n mod 8" "char_of (48 + n mod 8) \<noteq> nul"
      by (rule digit_char digit_not_nul; simp)+
    have "read_base 8 (octal (n div 8)) = n div 8" "nul \<notin> set (octal (n div 8))"
      using "1.IH" [OF False] "1.prems" by simp_all
    then have "read_base 8 (octal n) = n div 8 * 8 + (48 + n mod 8 - 48)" "nul \<notin> set (octal n)"
      unfolding split read_base_snoc digit(1) using digit(2) by auto
    then show ?thesis by simp
  qed
qed

lemma decimal_reads: "0 \<le> n \<Longrightarrow> read_base 10 (decimal n) = n \<and> nul \<notin> set (decimal n)"
proof (induction n rule: decimal.induct)
  case (1 n)
  show ?case
  proof (cases "n < 10")
    case True
    with "1.prems" show ?thesis
      using digit_char [of n] digit_not_nul [of n]
      by (subst (1 2) decimal.simps) (simp add: read_base_def)
  next
    case False
    have split: "decimal n = decimal (n div 10) @ [char_of (48 + n mod 10)]"
      using False by (subst decimal.simps) simp
    have digit: "of_char (char_of (48 + n mod 10) :: char) = 48 + n mod 10" "char_of (48 + n mod 10) \<noteq> nul"
      by (rule digit_char digit_not_nul; simp)+
    have "read_base 10 (decimal (n div 10)) = n div 10" "nul \<notin> set (decimal (n div 10))"
      using "1.IH" [OF False] "1.prems" by simp_all
    then have "read_base 10 (decimal n) = n div 10 * 10 + (48 + n mod 10 - 48)" "nul \<notin> set (decimal n)"
      unfolding split read_base_snoc digit(1) using digit(2) by auto
    then show ?thesis by simp
  qed
qed

lemma octal_inj: "octal (uint m) = octal (uint n) \<longleftrightarrow> m = n" for m n :: "'w::len word"
  by (metis octal_reads uint_0_iff unsigned_greater_eq word_uint_eq_iff)

lemma decimal_inj: "decimal (uint m) = decimal (uint n) \<longleftrightarrow> m = n" for m n :: "'w::len word"
  by (metis decimal_reads unsigned_greater_eq word_uint_eq_iff)

lemma nul_free_split:
  "nul \<notin> set a \<Longrightarrow> nul \<notin> set b \<Longrightarrow> a @ nul # x = b @ nul # y \<longleftrightarrow> a = b \<and> x = y"
proof (induction a arbitrary: b)
  case Nil
  then show ?case by (cases b) auto
next
  case (Cons c a)
  then show ?case by (cases b) auto
qed

section \<open>The content id\<close>

definition file_key :: "bundle_file \<Rightarrow> string \<times> u32 \<times> u64 \<times> string" where
  "file_key f = (bf_path f, the (parse_mode (bf_mode f)), bf_size f, bf_sha256 f)"

definition file_line :: "bundle_file \<Rightarrow> string" where
  "file_line f = canonical f (the (parse_mode (bf_mode f)))"

definition line_ok :: "bundle_file \<Rightarrow> bool" where
  "line_ok f = (nul \<notin> set (bf_path f) \<and> length (bf_sha256 f) = 64)"

lemma file_line_split:
  assumes "line_ok f" "line_ok g" and eq: "file_line f @ x = file_line g @ y"
  shows "file_key f = file_key g \<and> x = y"
proof -
  note nn = octal_reads [THEN conjunct2, OF unsigned_greater_eq] decimal_reads [THEN conjunct2, OF unsigned_greater_eq]
  from eq assms(1,2) have
    "bf_path f = bf_path g \<and> octal (uint (the (parse_mode (bf_mode f)))) = octal (uint (the (parse_mode (bf_mode g))))
     \<and> decimal (uint (bf_size f)) = decimal (uint (bf_size g))
     \<and> bf_sha256 f @ CHR 0x0A # x = bf_sha256 g @ CHR 0x0A # y"
    by (simp add: file_line_def canonical_def line_ok_def nul_free_split nn)
  then show ?thesis
    using assms(1,2) by (simp add: octal_inj decimal_inj file_key_def line_ok_def append_eq_append_conv)
qed

lemma file_line_not_Nil: "file_line f \<noteq> []"
  by (simp add: file_line_def canonical_def)

lemma file_lines_inj:
  "\<forall>f\<in>set fs. line_ok f \<Longrightarrow> \<forall>g\<in>set gs. line_ok g
    \<Longrightarrow> concat (map file_line fs) = concat (map file_line gs) \<Longrightarrow> map file_key fs = map file_key gs"
proof (induction fs arbitrary: gs)
  case Nil
  then show ?case by (cases gs) (auto simp: file_line_not_Nil)
next
  case (Cons f fs)
  then obtain g hs where gs: "gs = g # hs"
    by (cases gs) (auto simp: file_line_not_Nil)
  with Cons.prems file_line_split [of f g "concat (map file_line fs)" "concat (map file_line hs)"]
  have "file_key f = file_key g" "concat (map file_line fs) = concat (map file_line hs)"
    by simp_all
  with Cons gs show ?case by simp
qed

definition key_line :: "string \<times> u32 \<times> u64 \<times> string \<Rightarrow> string" where
  "key_line = (\<lambda>(p, bits, n, d).
     p @ [nul] @ octal (uint bits) @ [nul] @ decimal (uint n) @ [nul] @ d @ [CHR 0x0A])"

lemma lines_of_keys: "map file_key fs = map file_key gs \<Longrightarrow> map file_line fs = map file_line gs"
proof -
  have lines: "map file_line hs = map key_line (map file_key hs)" for hs
    by (simp add: key_line_def file_key_def file_line_def canonical_def)
  show "map file_key fs = map file_key gs \<Longrightarrow> ?thesis" by (simp only: lines)
qed

definition content_text :: "package_bundle \<Rightarrow> string" where
  "content_text b = content_header b @ concat (map file_line (ordered_files b))"

definition package_identity ::
  "package_bundle \<Rightarrow> string \<times> string \<times> string \<times> (string \<times> u32 \<times> u64 \<times> string) list" where
  "package_identity b = (b_app_id b, b_package b, b_version b, map file_key (ordered_files b))"

section \<open>Unpacking\<close>

definition name_ok :: "string list \<Rightarrow> bool" where
  "name_ok ns = (ns \<noteq> [] \<and> (\<forall>s\<in>set ns. CHR ''/'' \<notin> set s \<and> nul \<notin> set s))"

definition stored_ok :: "node \<Rightarrow> bool" where
  "stored_ok n = (case n of Regular bits _ \<Rightarrow> \<not> unsafe_mode bits \<and> bits AND 0x0FFF = bits | _ \<Rightarrow> False)"

definition extraction_ok :: "extraction \<Rightarrow> bool" where
  "extraction_ok x =
     (distinct (map fst (x_files x)) \<and> (\<forall>(ns, n)\<in>set (x_files x). name_ok ns \<and> stored_ok n)
      \<and> x_count x = int (length (x_files x)) \<and> x_count x \<le> MAX_FILES)"

lemma safe_names:
  assumes "safe_relative p" "\<not> has_nul p"
  shows "name_ok (names_of p)"
proof -
  let ?segs = "filter (\<lambda>s. s \<noteq> [] \<and> s \<noteq> ''.'') (split_on (CHR ''/'') p)"
  have normal: "list_all (\<lambda>c. case c of Normal _ \<Rightarrow> True | _ \<Rightarrow> False) (path_components p)" and rel: "\<not> is_absolute p" and "p \<noteq> []"
    using assms(1) by (auto simp: safe_relative_def)
  then have comps: "path_components p = map component_of ?segs"
    by (auto simp: path_components_def Let_def split: if_splits)
  with normal have "\<forall>s\<in>set ?segs. component_of s = Normal s"
    by (auto simp: list_all_iff component_of_def split: if_splits)
  then have "map (\<lambda>s. case component_of s of Normal t \<Rightarrow> t | _ \<Rightarrow> []) ?segs = map (\<lambda>s. s) ?segs"
    by (intro map_cong) (auto simp: component_of_def split: if_splits)
  then have names: "names_of p = ?segs"
    by (simp add: names_of_def comps comp_def)
  have "?segs \<noteq> []"
  proof
    assume none: "?segs = []"
    then have "path_components p = []" by (simp add: comps)
    have "\<forall>s\<in>set (split_on (CHR ''/'') p). s = [] \<or> s = ''.''"
      using none by (auto simp: filter_empty_conv)
    moreover have "hd (split_on (CHR ''/'') p) \<noteq> ''.''"
      using \<open>path_components p = []\<close> by (auto simp: path_components_def Let_def split: if_splits)
    ultimately have "hd (split_on (CHR ''/'') p) = []"
      by (metis hd_in_set split_on_not_Nil)
    then have "prefix ''/'' p"
      using \<open>p \<noteq> []\<close> by (cases p) (auto split: if_splits list.splits)
    with rel show False by (simp add: is_absolute_def)
  qed
  moreover have "nul \<notin> set s" if "s \<in> set (split_on (CHR ''/'') p)" for s
  proof -
    have "set s \<subseteq> set (join_with [CHR ''/''] ws)" if "s \<in> set ws" for ws
      using that by (induction ws rule: induct_list012) auto
    from this [OF that] show ?thesis
      using assms(2) by (auto simp: join_split_on has_nul_def)
  qed
  ultimately show ?thesis
    by (auto simp: name_ok_def names dest: split_on_no_sep)
qed

lemma extract_file_ok:
  assumes "extract_file e x = Inr y" "extraction_ok x" "safe_relative (te_path e)"
  shows "extraction_ok y"
proof -
  from assms(1) obtain n raw x1 bytes where
      raw: "te_mode e = Some raw" "\<not> unsafe_mode (raw AND 0x0FFF)"
      and x1: "create_dirs (te_path e) (butlast (names_of (te_path e))) x = Inr x1"
      and new: "\<not> has_nul (te_path e)" "\<not> file_at (names_of (te_path e)) x1"
      and count: "\<not> MAX_FILES < x_count x + 1"
      and y: "y = x1\<lparr>x_files := x_files x1 @ [(names_of (te_path e), Regular (raw AND 0x0FFF) bytes)],
                     x_count := x_count x + 1, x_expanded := n\<rparr>"
    by (cases "te_data e") (auto simp: extract_file_def Let_def split: option.splits if_splits)
  from x1 have "x_files x1 = x_files x"
    by (auto simp: create_dirs_def split: if_splits)
  with assms(2) new raw count safe_names [OF assms(3) new(1)] show ?thesis
    by (auto simp: extraction_ok_def y file_at_def stored_ok_def map_of_eq_None_iff image_iff and.assoc)
qed

lemma extract_entry_ok:
  "extract_entry e x = Inr y \<Longrightarrow> extraction_ok x \<Longrightarrow> extraction_ok y"
  using extract_file_ok [of e "x\<lparr>x_seen := path_components (te_path e) # x_seen x\<rparr>" y]
  by (auto simp: extract_entry_def create_dirs_def extraction_ok_def Let_def split: tar_kind.splits if_splits)

lemma extract_all_ok:
  "extract_all es x = Inr y \<Longrightarrow> extraction_ok x \<Longrightarrow> extraction_ok y"
  by (induction es x rule: extract_all.induct) (auto dest: extract_entry_ok)

lemma extraction_start_ok: "extraction_ok extraction_start"
  by (simp add: extraction_ok_def extraction_start_def MAX_FILES_def)

definition tree_ok :: "file_tree \<Rightarrow> bool" where
  "tree_ok t = (distinct (map fst t) \<and> (\<forall>(name, n)\<in>set t. nul \<notin> set name \<and> stored_ok n) \<and> length t \<le> 100000)"

lemma join_no_nul: "\<forall>s\<in>set ns. nul \<notin> set s \<Longrightarrow> nul \<notin> set (join_with ''/'' ns)"
  by (induction ns rule: induct_list012) (auto simp: nul_def)

lemma tree_of_ok:
  assumes "extraction_ok x"
  shows "tree_ok (tree_of x)"
proof -
  have names: "\<forall>ns\<in>set (map fst (x_files x)). name_ok ns"
    using assms by (auto simp: extraction_ok_def)
  have "map fst (tree_of x) = map (join_with ''/'') (map fst (x_files x))"
    by (auto simp: tree_of_def)
  moreover have "inj_on (join_with ''/'') (set (map fst (x_files x)))"
  proof (rule inj_onI)
    fix ns ms assume "ns \<in> set (map fst (x_files x))" "ms \<in> set (map fst (x_files x))"
      and eq: "join_with ''/'' ns = join_with ''/'' ms"
    with names have "name_ok ns" "name_ok ms" by blast+
    with eq show "ns = ms" by (simp add: name_ok_def join_inj)
  qed
  moreover have "distinct (map fst (x_files x))"
    using assms by (simp add: extraction_ok_def)
  ultimately have "distinct (map fst (tree_of x))"
    by (metis distinct_map)
  moreover have "nul \<notin> set (join_with ''/'' ns) \<and> stored_ok n" if "(ns, n) \<in> set (x_files x)" for ns n
  proof -
    from assms that have "name_ok ns" "stored_ok n" by (auto simp: extraction_ok_def)
    then show ?thesis by (simp add: name_ok_def join_no_nul)
  qed
  then have "\<forall>(name, n)\<in>set (tree_of x). nul \<notin> set name \<and> stored_ok n"
    by (auto simp: tree_of_def)
  moreover have "length (tree_of x) \<le> 100000"
    using assms by (simp add: tree_of_def extraction_ok_def MAX_FILES_def)
  ultimately show ?thesis unfolding tree_ok_def by blast
qed

section \<open>Accepted bundles\<close>

lemma regular_files_Inr:
  "regular_files t acc = Inr m \<Longrightarrow>
     fst ` set m = fst ` set acc \<union> to_string_lossy ` fst ` set t
     \<and> (\<forall>(name, n)\<in>set t. \<exists>bits bytes. n = Regular bits bytes)"
  by (induction t acc rule: regular_files.induct) (auto simp: keys_bt_insert)

lemma regular_files_total:
  "\<forall>(name, n)\<in>set t. \<exists>bits bytes. n = Regular bits bytes \<Longrightarrow> \<exists>m. regular_files t acc = Inr m"
  by (induction t acc rule: regular_files.induct) auto

lemma check_files_Inr:
  "check_files digest t fs = Inr ls \<Longrightarrow>
     map fst ls = fs \<and> (\<forall>(f, line)\<in>set ls. check_file digest t f = Inr line)"
  by (induction fs arbitrary: ls) auto

definition file_matches :: "(string \<Rightarrow> string) \<Rightarrow> file_tree \<Rightarrow> bundle_file \<Rightarrow> bool" where
  "file_matches digest t f =
     (case map_of t (bf_path f) of
        Some (Regular bits bytes) \<Rightarrow>
          size_is bytes (bf_size f) \<and> parse_mode (bf_mode f) = Some (bits AND 0x0FFF) \<and> digest bytes = bf_sha256 f
      | _ \<Rightarrow> False)"

lemma check_file_Inr:
  "check_file digest t f = Inr line \<longleftrightarrow> file_matches digest t f \<and> line = file_line f"
  by (auto simp: check_file_def file_matches_def file_line_def Let_def split: option.splits node.splits)

lemma check_files_lines:
  assumes "check_files digest t fs = Inr ls"
  shows "map snd ls = map file_line fs \<and> (\<forall>f\<in>set fs. file_matches digest t f)"
  using assms
  by (induction fs arbitrary: ls) (auto simp: check_file_Inr)

lemma verify_inventory_facts:
  assumes "verify_inventory digest t b = Inr u"
  shows "bf_path ` set (b_files b) = to_string_lossy ` fst ` set t - {''bundle.json''}"
    "\<forall>f\<in>set (b_files b). file_matches digest t f"
    "digest (content_text b) = b_content_id b"
proof -
  from assms obtain actual ls where actual: "regular_files t [] = Inr actual"
      and same: "set (map bf_path (b_files b)) = set (filter (\<lambda>p. p \<noteq> ''bundle.json'') (map fst actual))"
      and ls: "check_files digest t (ordered_files b) = Inr ls"
      and cid: "digest (content_header b @ concat (map snd ls)) = b_content_id b"
    by (auto simp: verify_inventory_def Let_def split: if_splits)
  show "bf_path ` set (b_files b) = to_string_lossy ` fst ` set t - {''bundle.json''}"
    using same regular_files_Inr [OF actual] by auto
  from check_files_lines [OF ls] show "\<forall>f\<in>set (b_files b). file_matches digest t f"
    by (simp add: ordered_files_def)
  from check_files_lines [OF ls] cid show "digest (content_text b) = b_content_id b"
    by (simp add: content_text_def)
qed

lemma validate_bundle_facts:
  assumes "validate_bundle b = Inr u"
  shows "safe_identifier (b_app_id b)" "safe_identifier (b_package b)" "b_manifest_path b = ''manifest.toml''"
    "distinct (map bf_path (b_files b))" "''manifest.toml'' \<in> bf_path ` set (b_files b)"
    "\<forall>f\<in>set (b_files b). bf_path f \<noteq> ''bundle.json'' \<and> lower_hex_64 (bf_sha256 f)"
    "lower_hex_64 (b_content_id b)"
  using assms by (auto simp: validate_bundle_def inventory_entry_def intro: rev_image_eqI)

lemma accepted_facts:
  assumes "prepare_at digest json toml items dev = Inr p"
  shows "tree_ok (pp_stage p)" "validate_bundle (pp_bundle p) = Inr ()"
    "verify_inventory digest (pp_stage p) (pp_bundle p) = Inr ()"
    "read_limited (pp_stage p) (b_manifest_path (pp_bundle p)) (1024 * 1024) = Inr (pp_manifest_bytes p)"
    "manifest_validate (pp_manifest p) = Inr ()"
    "validate_manifest_contract (pp_bundle p) (pp_manifest p) dev = Inr ()"
    "toml (pp_manifest_bytes p) = Inr (pp_manifest p)"
    "\<exists>bytes. read_limited (pp_stage p) ''bundle.json'' (4 * 1024 * 1024) = Inr bytes"
  using assms
  by (auto simp: prepare_at_def Let_def from_utf8_def tree_of_ok extract_all_ok [OF _ extraction_start_ok]
      split: if_splits)

lemma safe_identifier_no_nul: "safe_identifier v \<Longrightarrow> nul \<notin> set v"
  by (auto simp: safe_identifier_def list_all_iff is_ascii_lowercase_def is_ascii_digit_def nul_def)

lemma lower_hex_length: "lower_hex_64 v \<Longrightarrow> length v = 64"
  by (simp add: lower_hex_64_def)

lemma file_in_tree:
  assumes "file_matches digest t f"
  shows "\<exists>bits bytes. (bf_path f, Regular bits bytes) \<in> set t \<and> size_is bytes (bf_size f)
    \<and> parse_mode (bf_mode f) = Some (bits AND 0x0FFF) \<and> digest bytes = bf_sha256 f"
  using assms by (auto simp: file_matches_def split: option.splits node.splits dest: map_of_SomeD)

lemma accepted_lines_ok:
  assumes "prepare_at digest json toml items dev = Inr p"
  shows "\<forall>f\<in>set (ordered_files (pp_bundle p)). line_ok f"
proof
  note facts = accepted_facts [OF assms]
  fix f assume "f \<in> set (ordered_files (pp_bundle p))"
  then have f: "f \<in> set (b_files (pp_bundle p))" by (simp add: ordered_files_def)
  with file_in_tree [of digest "pp_stage p" f] verify_inventory_facts(2) [OF facts(3)]
  obtain n where "(bf_path f, n) \<in> set (pp_stage p)" by blast
  with facts(1) have "nul \<notin> set (bf_path f)" by (auto simp: tree_ok_def)
  with f validate_bundle_facts(6) [OF facts(2)] show "line_ok f"
    by (simp add: line_ok_def lower_hex_length)
qed

lemma accepted_stored:
  assumes "prepare_at digest json toml items dev = Inr p" "(name, n) \<in> set (pp_stage p)"
  shows "\<exists>bits bytes. n = Regular bits bytes \<and> \<not> unsafe_mode bits \<and> bits AND 0x0FFF = bits"
proof -
  from accepted_facts(1) [OF assms(1)] assms(2) have "stored_ok n" by (auto simp: tree_ok_def)
  then show ?thesis by (cases n) (auto simp: stored_ok_def)
qed

lemma accepted_file:
  assumes "prepare_at digest json toml items dev = Inr p" "f \<in> set (b_files (pp_bundle p))"
  shows "\<exists>bits bytes. map_of (pp_stage p) (bf_path f) = Some (Regular bits bytes)
    \<and> size_is bytes (bf_size f) \<and> parse_mode (bf_mode f) = Some bits \<and> digest bytes = bf_sha256 f"
proof -
  from verify_inventory_facts(2) [OF accepted_facts(3) [OF assms(1)]] assms(2)
  have "file_matches digest (pp_stage p) f" by blast
  then obtain bits bytes where f: "map_of (pp_stage p) (bf_path f) = Some (Regular bits bytes)"
      "size_is bytes (bf_size f)" "parse_mode (bf_mode f) = Some (bits AND 0x0FFF)" "digest bytes = bf_sha256 f"
    by (auto simp: file_matches_def split: option.splits node.splits)
  moreover from accepted_stored [OF assms(1) map_of_SomeD [OF f(1)]] have "bits AND 0x0FFF = bits" by simp
  ultimately show ?thesis by simp
qed

lemma accepted_bundle_json:
  assumes "prepare_at digest json toml items dev = Inr p"
  shows "\<exists>bits bytes. map_of (pp_stage p) ''bundle.json'' = Some (Regular bits bytes)"
  using accepted_facts(8) [OF assms] by (auto simp: read_limited_def split: option.splits node.splits)

lemma accepted_names:
  assumes "prepare_at digest json toml items dev = Inr p"
  shows "to_string_lossy ` fst ` set (pp_stage p) = insert ''bundle.json'' (bf_path ` set (b_files (pp_bundle p)))"
proof -
  from accepted_bundle_json [OF assms] have "''bundle.json'' \<in> fst ` set (pp_stage p)"
    by (force dest: map_of_SomeD)
  moreover have "to_string_lossy ''bundle.json'' = ''bundle.json''"
    by code_simp
  ultimately show ?thesis
    using verify_inventory_facts(1) [OF accepted_facts(3) [OF assms]] by (metis image_eqI insert_Diff)
qed


text \<open>C27: the content id stands for the whole bundle. Two accepted bundles whose versions have no NUL byte
  have the same content id exactly when they have the same application, package, version and
  inventory (paths, modes, sizes and digests), provided the digest does not collide on their two
  canonical texts.\<close>

theorem content_id_identifies_the_bundle:
  assumes "prepare_at digest json toml items dev = Inr p" "prepare_at digest json toml items' dev = Inr q"
    and "nul \<notin> set (b_version (pp_bundle p))" "nul \<notin> set (b_version (pp_bundle q))"
    and "digest (content_text (pp_bundle p)) = digest (content_text (pp_bundle q))
      \<Longrightarrow> content_text (pp_bundle p) = content_text (pp_bundle q)"
  shows "b_content_id (pp_bundle p) = b_content_id (pp_bundle q)
    \<longleftrightarrow> package_identity (pp_bundle p) = package_identity (pp_bundle q)"
proof
  let ?b = "pp_bundle p" and ?c = "pp_bundle q"
  note P = accepted_facts [OF assms(1)] and Q = accepted_facts [OF assms(2)]
  note ids = validate_bundle_facts(1,2) [OF P(2)] validate_bundle_facts(1,2) [OF Q(2)]
  show "package_identity ?b = package_identity ?c" if "b_content_id ?b = b_content_id ?c"
  proof -
    have "content_text ?b = content_text ?c"
      using that verify_inventory_facts(3) [OF P(3)] verify_inventory_facts(3) [OF Q(3)] assms(5) by simp
    then have "b_app_id ?b = b_app_id ?c \<and> b_package ?b = b_package ?c \<and> b_version ?b = b_version ?c
        \<and> concat (map file_line (ordered_files ?b)) = concat (map file_line (ordered_files ?c))"
      using ids assms(3,4) by (simp add: content_text_def content_header_def nul_free_split safe_identifier_no_nul)
    with file_lines_inj [OF accepted_lines_ok [OF assms(1)] accepted_lines_ok [OF assms(2)]]
    show ?thesis by (simp add: package_identity_def)
  qed
  show "b_content_id ?b = b_content_id ?c" if "package_identity ?b = package_identity ?c"
  proof -
    from that have "content_text ?b = content_text ?c"
      using lines_of_keys [of "ordered_files ?b" "ordered_files ?c"]
      by (simp add: package_identity_def content_text_def content_header_def)
    then show ?thesis
      using verify_inventory_facts(3) [OF P(3)] verify_inventory_facts(3) [OF Q(3)] by metis
  qed
qed

section \<open>Releases\<close>

lemma read_only_node_Regular:
  "read_only_node (Regular bits bytes) = Regular (installed_mode bits) bytes"
  by (simp add: read_only_node_def installed_mode_def)

lemma make_read_only_total:
  assumes "\<forall>(name, n)\<in>set t. \<exists>bits bytes. n = Regular bits bytes"
  shows "make_read_only t = Inr (map (\<lambda>(name, n). (name, read_only_node n)) t)"
proof -
  have "filter (\<lambda>(_, n). case n of Regular _ _ \<Rightarrow> False | _ \<Rightarrow> True) t = []"
    using assms by (auto simp: filter_empty_conv)
  then show ?thesis by (simp add: make_read_only_def)
qed

lemma map_of_read_only:
  "map_of (map (\<lambda>(name, n). (name, read_only_node n)) t) name = map_option read_only_node (map_of t name)"
  by (induction t) auto

text \<open>The release made read-only from an accepted bundle passes the check that is made when the same
  bundle is installed again.\<close>

theorem installed_release_is_recognised:
  assumes "prepare_at digest json toml items dev = Inr p"
  shows "\<exists>release. make_read_only (pp_stage p) = Inr release
    \<and> verify_installed_release digest release (pp_stage p) (pp_bundle p) = Inr ()"
proof -
  let ?t = "pp_stage p" and ?b = "pp_bundle p"
  let ?r = "map (\<lambda>(name, n). (name, read_only_node n)) ?t"
  have regular: "\<forall>(name, n)\<in>set ?t. \<exists>bits bytes. n = Regular bits bytes"
    using accepted_stored [OF assms] by blast
  then have "\<forall>(name, n)\<in>set ?r. \<exists>bits bytes. n = Regular bits bytes"
    by (auto simp: read_only_node_Regular dest!: bspec)
  then obtain actual where actual: "regular_files ?r [] = Inr actual"
    using regular_files_total by blast
  have "map fst ?r = map fst ?t" by (simp add: comp_def case_prod_beta)
  then have "fst ` set ?r = fst ` set ?t" by (metis set_map)
  with regular_files_Inr [OF actual] accepted_names [OF assms]
  have names: "set (map fst actual) = insert ''bundle.json'' (set (map bf_path (b_files ?b)))" by simp
  have "installed_file digest ?r f = Inr ()" if "f \<in> set (b_files ?b)" for f
  proof -
    have "installed_mode bits AND 0x0FFF = installed_mode bits" for bits
      by (simp add: installed_mode_def)
    with accepted_file [OF assms that] show ?thesis
      by (auto simp: installed_file_def map_of_read_only read_only_node_Regular)
  qed
  moreover from accepted_bundle_json [OF assms]
  have "file_digest digest ?r ''bundle.json'' = file_digest digest ?t ''bundle.json''"
    "\<exists>d. file_digest digest ?t ''bundle.json'' = Inr d"
    by (auto simp: file_digest_def map_of_read_only read_only_node_Regular)
  ultimately have "verify_installed_release digest ?r ?t ?b = Inr ()"
    using actual names by (auto simp: verify_installed_release_def)
  with make_read_only_total [OF regular] show ?thesis by blast
qed

section \<open>Two bundles of one application\<close>

text \<open>Witness data: the digest only tells apart texts with and without the version \<open>Z\<close>, the parsers
  read the version and the path of the program.\<close>

definition demo_digest :: "string \<Rightarrow> string" where
  "demo_digest s = replicate 64 (if CHR ''Z'' \<in> set s then CHR ''b'' else CHR ''a'')"

definition demo_text :: "string \<Rightarrow> string" where
  "demo_text v = v @ '' /home/root/apps/reader/current/bin''"

definition demo_toml :: "string \<Rightarrow> string + app_manifest" where
  "demo_toml s =
     Inr (demo_manifest\<lparr>m_version := take 1 s, m_exec := drop 2 s, m_package := Some ''reader-app'',
                        m_working_dir := ''/home/root/apps/reader''\<rparr>)"

definition demo_bundle :: "string \<Rightarrow> package_bundle" where
  "demo_bundle v =
     \<lparr>b_schema = 1, b_app_id = ''reader'', b_package = ''reader-app'', b_version = v,
      b_content_id = demo_digest v, b_manifest_path = ''manifest.toml'', b_payload_sha256 = demo_digest [],
      b_files = [\<lparr>bf_path = ''payload/bin'', bf_sha256 = demo_digest [], bf_size = 3, bf_mode = ''0755''\<rparr>,
                 \<lparr>bf_path = ''manifest.toml'', bf_sha256 = demo_digest v, bf_size = 36, bf_mode = ''0644''\<rparr>]\<rparr>"

definition demo_entry :: "path \<Rightarrow> u32 \<Rightarrow> string \<Rightarrow> tar_entry" where
  "demo_entry p bits bytes =
     \<lparr>te_path = p, te_kind = Tar_File, te_size = of_nat (length bytes), te_mode = Some bits, te_data = Inr bytes\<rparr>"

definition demo_archive :: "string \<Rightarrow> (string + tar_entry) list" where
  "demo_archive v =
     [Inr (demo_entry ''bundle.json'' 0x1A4 v), Inr (demo_entry ''manifest.toml'' 0x1A4 (demo_text v)),
      Inr (demo_entry ''payload/bin'' 0x1ED ''run'')]"

definition demo_prepare :: "string \<Rightarrow> package_error + prepared_package" where
  "demo_prepare v =
     prepare_at demo_digest (\<lambda>s. Inr (demo_bundle s)) demo_toml (demo_archive v) (for_product PaperPro ''3.27.0'')"

definition demo_package :: "string \<Rightarrow> prepared_package" where
  "demo_package v = projr (demo_prepare v)"

lemma demo_prepared_bundles:
  "map_sum (\<lambda>e. e) pp_bundle (demo_prepare ''Y'') = Inr (demo_bundle ''Y'')"
  "map_sum (\<lambda>e. e) pp_bundle (demo_prepare ''Z'') = Inr (demo_bundle ''Z'')"
  by code_simp+

lemma demo_prepared:
  "demo_prepare ''Y'' = Inr (demo_package ''Y'')" "demo_prepare ''Z'' = Inr (demo_package ''Z'')"
  "pp_bundle (demo_package ''Y'') = demo_bundle ''Y''" "pp_bundle (demo_package ''Z'') = demo_bundle ''Z''"
  using demo_prepared_bundles
  by (cases "demo_prepare ''Y''"; cases "demo_prepare ''Z''"; simp add: demo_package_def)+


theorem content_id_identifies_the_bundle_witness:
  "package_identity (demo_bundle ''Y'') \<noteq> package_identity (demo_bundle ''Z'')"
proof -
  have "demo_digest (content_text (demo_bundle ''Y'')) \<noteq> demo_digest (content_text (demo_bundle ''Z''))"
    "b_content_id (demo_bundle ''Y'') \<noteq> b_content_id (demo_bundle ''Z'')"
    "nul \<notin> set (b_version (demo_bundle ''Y''))" "nul \<notin> set (b_version (demo_bundle ''Z''))"
    by code_simp+
  then show ?thesis
    using content_id_identifies_the_bundle [OF demo_prepared(1,2) [unfolded demo_prepare_def]]
    by (simp add: demo_prepared(3,4))
qed

theorem installed_release_is_recognised_witness:
  "\<exists>release. make_read_only (pp_stage (demo_package ''Y'')) = Inr release
    \<and> verify_installed_release demo_digest release (pp_stage (demo_package ''Y'')) (demo_bundle ''Y'') = Inr ()"
  using installed_release_is_recognised [OF demo_prepared(1) [unfolded demo_prepare_def]]
  by (simp add: demo_prepared(3))

end
