(* ===== verification/Fallible_Actions.thy ===== *)
theory Fallible_Actions
  imports Prelude
begin

text \<open>
  Programs that work on a state outside of themselves: a run returns, fails with an error, or dies
  with the process, and in each case leaves a state. The \<open>?\<close> operator is \<open>io_bind\<close>. A Hoare logic
  for them has a second postcondition, for the runs that fail or die.
\<close>

section \<open>Actions\<close>

datatype ('e, 'a) outcome = Done 'a | Failed 'e | Died

type_synonym ('s, 'e, 'a) fallible = "'s \<Rightarrow> ('e, 'a) outcome \<times> 's"

definition pure :: "'a \<Rightarrow> ('s, 'e, 'a) fallible" where
  "pure x s = (Done x, s)"

definition io_bind :: "('s, 'e, 'a) fallible \<Rightarrow> ('a \<Rightarrow> ('s, 'e, 'b) fallible) \<Rightarrow> ('s, 'e, 'b) fallible" where
  "io_bind m f s =
     (case m s of (Done x, t) \<Rightarrow> f x t | (Failed e, t) \<Rightarrow> (Failed e, t) | (Died, t) \<Rightarrow> (Died, t))"

definition io_seq :: "('s, 'e, unit) fallible \<Rightarrow> ('s, 'e, 'b) fallible \<Rightarrow> ('s, 'e, 'b) fallible" where
  "io_seq m n = io_bind m (\<lambda>_. n)"

text \<open>\<open>?\<close> on a result that needs no disk, an expression read from the state, and an assignment.\<close>

definition io_of :: "'e + 'a \<Rightarrow> ('s, 'e, 'a) fallible" where
  "io_of r s = (case r of Inl e \<Rightarrow> (Failed e, s) | Inr x \<Rightarrow> (Done x, s))"

definition looking :: "('s \<Rightarrow> 'a) \<Rightarrow> ('s, 'e, 'a) fallible" where
  "looking f s = (Done (f s), s)"

definition assign :: "('s \<Rightarrow> 's) \<Rightarrow> ('s, 'e, unit) fallible" where
  "assign f s = (Done (), f s)"

definition giving_up :: "'e \<Rightarrow> ('s, 'e, 'a) fallible" where
  "giving_up e s = (Failed e, s)"

text \<open>A condition on the state that must hold.\<close>

definition present :: "'e \<Rightarrow> ('s \<Rightarrow> bool) \<Rightarrow> ('s, 'e, unit) fallible" where
  "present e f s = (if f s then (Done (), s) else (Failed e, s))"

text \<open>\<open>match m\<close> on the result, with the error as a value; \<open>let _ = m\<close>; \<open>map_err\<close>.\<close>

definition trying :: "('s, 'e, 'a) fallible \<Rightarrow> ('s, 'f, 'e + 'a) fallible" where
  "trying m s =
     (case m s of (Done x, t) \<Rightarrow> (Done (Inr x), t) | (Failed e, t) \<Rightarrow> (Done (Inl e), t) | (Died, t) \<Rightarrow> (Died, t))"

definition ignoring_result :: "('s, 'e, unit) fallible \<Rightarrow> ('s, 'e, unit) fallible" where
  "ignoring_result m s = (case m s of (Failed e, t) \<Rightarrow> (Done (), t) | r \<Rightarrow> r)"

definition or_else :: "('s, 'e, 'a) fallible \<Rightarrow> ('e \<Rightarrow> ('s, 'f, 'a) fallible) \<Rightarrow> ('s, 'f, 'a) fallible" where
  "or_else m f = io_bind (trying m) (\<lambda>r. case r of Inl e \<Rightarrow> f e | Inr x \<Rightarrow> pure x)"

definition failing_as :: "('e \<Rightarrow> 'f) \<Rightarrow> ('s, 'e, 'a) fallible \<Rightarrow> ('s, 'f, 'a) fallible" where
  "failing_as g m = or_else m (\<lambda>e. giving_up (g e))"

fun for_all :: "('a \<Rightarrow> ('s, 'e, unit) fallible) \<Rightarrow> 'a list \<Rightarrow> ('s, 'e, unit) fallible" where
  "for_all f [] = pure ()"
| "for_all f (x # xs) = io_seq (f x) (for_all f xs)"

section \<open>Triples\<close>

definition triple ::
  "('s \<Rightarrow> bool) \<Rightarrow> ('s, 'e, 'a) fallible \<Rightarrow> ('a \<Rightarrow> 's \<Rightarrow> bool) \<Rightarrow> ('s \<Rightarrow> bool) \<Rightarrow> bool" where
  "triple P m Q R =
     (\<forall>s. P s \<longrightarrow> (case m s of (Done x, t) \<Rightarrow> Q x t | (_, t) \<Rightarrow> R t))"

lemma triple_bind:
  "triple P m Q R \<Longrightarrow> (\<And>x. triple (Q x) (f x) Q' R) \<Longrightarrow> triple P (io_bind m f) Q' R"
  by (fastforce simp: triple_def io_bind_def split: outcome.splits prod.splits)

lemma triple_seq:
  "triple P m (\<lambda>_. Q) R \<Longrightarrow> triple Q n Q' R \<Longrightarrow> triple P (io_seq m n) Q' R"
  unfolding io_seq_def by (rule triple_bind)

lemma triple_weaken:
  "triple P m Q R \<Longrightarrow> (\<And>s. P' s \<Longrightarrow> P s) \<Longrightarrow> (\<And>x s. Q x s \<Longrightarrow> Q' x s) \<Longrightarrow> (\<And>s. R s \<Longrightarrow> R' s)
    \<Longrightarrow> triple P' m Q' R'"
  by (fastforce simp: triple_def split: outcome.splits prod.splits)

lemma triple_pure: "(\<And>s. P s \<Longrightarrow> Q x s) \<Longrightarrow> triple P (pure x) Q R"
  by (simp add: triple_def pure_def)

lemma triple_io_of:
  "(\<And>s x. P s \<Longrightarrow> r = Inr x \<Longrightarrow> Q x s) \<Longrightarrow> (\<And>s. P s \<Longrightarrow> R s) \<Longrightarrow> triple P (io_of r) Q R"
  by (auto simp: triple_def io_of_def split: sum.splits)

lemma triple_checked:
  assumes "\<And>x. r = Inr x \<Longrightarrow> triple P (f x) Q R" "\<And>s. P s \<Longrightarrow> R s"
  shows "triple P (io_bind (io_of r) f) Q R"
  using assms by (cases r) (auto simp: triple_def io_bind_def io_of_def)

lemma triple_check:
  "(r = Inr () \<Longrightarrow> triple P m Q R) \<Longrightarrow> (\<And>s. P s \<Longrightarrow> R s) \<Longrightarrow> triple P (io_seq (io_of r) m) Q R"
  unfolding io_seq_def by (rule triple_checked) auto

lemma triple_looking: "(\<And>s. P s \<Longrightarrow> Q (f s) s) \<Longrightarrow> triple P (looking f) Q R"
  by (simp add: triple_def looking_def)

lemma triple_assign: "(\<And>s. P s \<Longrightarrow> Q () (f s)) \<Longrightarrow> triple P (assign f) Q R"
  by (simp add: triple_def assign_def)

lemma triple_giving_up: "(\<And>s. P s \<Longrightarrow> R s) \<Longrightarrow> triple P (giving_up e) Q R"
  by (simp add: triple_def giving_up_def)

lemma triple_present:
  "(\<And>s. P s \<Longrightarrow> f s \<Longrightarrow> Q () s) \<Longrightarrow> (\<And>s. P s \<Longrightarrow> R s) \<Longrightarrow> triple P (present e f) Q R"
  by (auto simp: triple_def present_def)

lemma triple_for_all:
  "(\<And>x. x \<in> set xs \<Longrightarrow> triple P (f x) (\<lambda>_. P) R) \<Longrightarrow> triple P (for_all f xs) (\<lambda>_. P) R"
  by (induction xs) (auto intro: triple_pure triple_seq)

end
