(* ===== verification/Package_Disk.thy ===== *)
theory Package_Disk
  imports Package_Bundle Fallible_Actions
begin

text \<open>
  The disk the package manager works on, and its system calls (\<open>remagic-package/src/filesystem.rs\<close>). For
  each application: the \<open>current\<close> link, the published manifest, the state file, the journal and the
  releases. A system call takes the next entry of a script of faults: it works, or it stops, with an
  error or with the process, before its effect, after it, or part of the way; what a stopped removal
  of a tree leaves behind is arbitrary. \<open>atomic_write\<close> and \<open>atomic_symlink\<close> work on a temporary name
  and rename it, so they have no intermediate effect on the path they publish. Looking up whether a
  path exists (\<open>exists\<close>, \<open>symlink_metadata\<close>) does not fail.
\<close>

section \<open>Data\<close>

record installed_state =
  is_schema :: u32
  is_app_id :: string
  is_package :: string
  is_current :: string
  is_previous :: "string option"
  is_version :: string

record transaction_journal =
  j_schema :: u32
  j_app_id :: string
  j_target :: string
  j_preexisted :: bool
  j_previous :: "string option"
  j_manifest :: "string option"
  j_state :: "string option"

type_synonym releases = "(string \<times> file_tree) list"

record app_disk =
  d_home :: bool
  d_link :: "path option"
  d_manifest :: "string option"
  d_state :: "string option"
  d_journal :: "string option"
  d_releases :: releases

definition empty_app :: app_disk where
  "empty_app = \<lparr>d_home = False, d_link = None, d_manifest = None, d_state = None, d_journal = None, d_releases = []\<rparr>"

datatype data_node = D_Dir u32 | D_Link | D_File

datatype progress = Before | After | Partly bool releases

datatype fault = Works | Stops bool progress

record package_store =
  s_app :: "app_id \<Rightarrow> app_disk"
  s_stage :: "file_tree option"
  s_data :: "(component list \<times> data_node) list"
  s_faults :: "fault list"

text \<open>serde and toml.\<close>

record codecs =
  c_state_text :: "installed_state \<Rightarrow> string + string"
  c_state_of :: "string \<Rightarrow> string + installed_state"
  c_journal_text :: "transaction_journal \<Rightarrow> string + string"
  c_journal_of :: "string \<Rightarrow> string + transaction_journal"
  c_toml :: "string \<Rightarrow> string + app_manifest"

definition PACKAGE_STATE_SCHEMA_V1 :: u32 where "PACKAGE_STATE_SCHEMA_V1 = 1"

section \<open>Actions\<close>

type_synonym 'a action = "(package_store, package_error, 'a) fallible"

definition syscall ::
  "package_error \<Rightarrow> (package_store \<Rightarrow> package_store) \<Rightarrow> (bool \<Rightarrow> releases \<Rightarrow> package_store \<Rightarrow> package_store)
    \<Rightarrow> unit action" where
  "syscall e eff part s =
     (case s_faults s of
        [] \<Rightarrow> (Done (), eff s)
      | Works # fs \<Rightarrow> (Done (), eff (s\<lparr>s_faults := fs\<rparr>))
      | Stops dead far # fs \<Rightarrow>
          (if dead then Died else Failed e,
           case far of
             Before \<Rightarrow> s\<lparr>s_faults := fs\<rparr>
           | After \<Rightarrow> eff (s\<lparr>s_faults := fs\<rparr>)
           | Partly k ls \<Rightarrow> part k ls (s\<lparr>s_faults := fs\<rparr>)))"

text \<open>A call without an intermediate effect, and a call that reads.\<close>

definition atomically :: "package_error \<Rightarrow> (package_store \<Rightarrow> package_store) \<Rightarrow> unit action" where
  "atomically e eff = syscall e eff (\<lambda>_ _ s. s)"

definition reading :: "package_error \<Rightarrow> (package_store \<Rightarrow> 'a) \<Rightarrow> 'a action" where
  "reading e f = io_bind (atomically e (\<lambda>s. s)) (\<lambda>_. looking f)"

text \<open>A read whose error is an absent value.\<close>

definition reading_ok :: "(package_store \<Rightarrow> 'a option) \<Rightarrow> 'a option action" where
  "reading_ok f s =
     (case reading P_ArchiveLimit f s of (Failed e, t) \<Rightarrow> (Done None, t) | r \<Rightarrow> r)"

section \<open>The files of an application\<close>

definition on_app :: "app_id \<Rightarrow> (app_disk \<Rightarrow> app_disk) \<Rightarrow> package_store \<Rightarrow> package_store" where
  "on_app a f s = s\<lparr>s_app := (s_app s)(a := f (s_app s a))\<rparr>"

abbreviation io_error :: "string \<Rightarrow> package_error" where
  "io_error p \<equiv> P_Io p ''I/O error''"

definition write_manifest :: "app_id \<Rightarrow> string \<Rightarrow> unit action" where
  "write_manifest a bytes = atomically (io_error ''manifest'') (on_app a (d_manifest_update (\<lambda>_. Some bytes)))"

definition write_state :: "app_id \<Rightarrow> string \<Rightarrow> unit action" where
  "write_state a bytes = atomically (io_error ''state'') (on_app a (d_state_update (\<lambda>_. Some bytes)))"

definition write_journal :: "app_id \<Rightarrow> string \<Rightarrow> unit action" where
  "write_journal a bytes = atomically (io_error ''journal'') (on_app a (d_journal_update (\<lambda>_. Some bytes)))"

definition write_link :: "app_id \<Rightarrow> path \<Rightarrow> unit action" where
  "write_link a target = atomically (io_error ''current'') (on_app a (d_link_update (\<lambda>_. Some target)))"

text \<open>\<open>remove_optional_file\<close>.\<close>

definition remove_optional_link :: "app_id \<Rightarrow> unit action" where
  "remove_optional_link a = atomically (io_error ''current'') (on_app a (d_link_update (\<lambda>_. None)))"

definition remove_optional_manifest :: "app_id \<Rightarrow> unit action" where
  "remove_optional_manifest a = atomically (io_error ''manifest'') (on_app a (d_manifest_update (\<lambda>_. None)))"

definition remove_optional_state :: "app_id \<Rightarrow> unit action" where
  "remove_optional_state a = atomically (io_error ''state'') (on_app a (d_state_update (\<lambda>_. None)))"

definition remove_optional_journal :: "app_id \<Rightarrow> unit action" where
  "remove_optional_journal a = atomically (io_error ''journal'') (on_app a (d_journal_update (\<lambda>_. None)))"

text \<open>\<open>fs::remove_file\<close> fails on an absent file.\<close>

definition remove_journal :: "app_id \<Rightarrow> unit action" where
  "remove_journal a =
     io_seq (present (io_error ''journal'') (\<lambda>s. d_journal (s_app s a) \<noteq> None)) (remove_optional_journal a)"

definition remove_manifest :: "app_id \<Rightarrow> unit action" where
  "remove_manifest a =
     io_seq (present (io_error ''manifest'') (\<lambda>s. d_manifest (s_app s a) \<noteq> None)) (remove_optional_manifest a)"

text \<open>\<open>remove_tree\<close> on a release, on the application's directory and on the staging directory.\<close>

definition without :: "string \<Rightarrow> releases \<Rightarrow> releases" where
  "without name rs = filter (\<lambda>(n, _). n \<noteq> name) rs"

definition leave :: "string \<Rightarrow> releases \<Rightarrow> releases \<Rightarrow> releases" where
  "leave name left rs =
     (case map_of left name of
        None \<Rightarrow> without name rs
      | Some t \<Rightarrow> map (\<lambda>(n, u). (n, if n = name then t else u)) rs)"

definition remove_release :: "app_id \<Rightarrow> string \<Rightarrow> unit action" where
  "remove_release a name =
     syscall (io_error ''releases'') (on_app a (d_releases_update (without name)))
       (\<lambda>_ left. on_app a (d_releases_update (leave name left)))"

definition remove_home :: "app_id \<Rightarrow> unit action" where
  "remove_home a =
     syscall (io_error ''apps'')
       (on_app a (\<lambda>d. d\<lparr>d_home := False, d_link := None, d_releases := []\<rparr>))
       (\<lambda>k left. on_app a (\<lambda>d. d\<lparr>d_link := (if k then d_link d else None), d_releases := left\<rparr>))"

definition remove_stage :: "unit action" where
  "remove_stage = atomically (io_error ''staging'') (s_stage_update (\<lambda>_. None))"

text \<open>\<open>fs::rename\<close> of the staging directory to a release, and \<open>make_read_only\<close> on it.\<close>

definition move_stage :: "app_id \<Rightarrow> string \<Rightarrow> unit action" where
  "move_stage a name =
     io_seq (present (io_error ''releases'')
               (\<lambda>s. s_stage s \<noteq> None \<and> map_of (d_releases (s_app s a)) name = None))
       (atomically (io_error ''releases'')
          (\<lambda>s. (on_app a (d_releases_update (\<lambda>rs. rs @ [(name, the (s_stage s))])) s)\<lparr>s_stage := None\<rparr>))"

definition set_release :: "app_id \<Rightarrow> string \<Rightarrow> file_tree \<Rightarrow> package_store \<Rightarrow> package_store" where
  "set_release a name t = on_app a (d_releases_update (map (\<lambda>(n, u). (n, if n = name then t else u))))"

definition release_of :: "app_id \<Rightarrow> string \<Rightarrow> package_store \<Rightarrow> file_tree" where
  "release_of a name s = (case map_of (d_releases (s_app s a)) name of None \<Rightarrow> [] | Some t \<Rightarrow> t)"

definition lock_release :: "app_id \<Rightarrow> string \<Rightarrow> unit action" where
  "lock_release a name =
     io_bind (looking (\<lambda>s. make_read_only (release_of a name s))) (\<lambda>r.
       case r of
         Inl p \<Rightarrow> io_of (Inl (P_UnsafePath p))
       | Inr t \<Rightarrow>
           syscall (io_error ''releases'') (set_release a name t)
             (\<lambda>_ left. case map_of left name of None \<Rightarrow> (\<lambda>s. s) | Some u \<Rightarrow> set_release a name u))"

text \<open>\<open>read_optional_text\<close>, \<open>current_content_id\<close>.\<close>

definition read_optional :: "(app_disk \<Rightarrow> string option) \<Rightarrow> app_id \<Rightarrow> string option action" where
  "read_optional f a =
     io_bind (reading (io_error ''read'') (\<lambda>s. f (s_app s a))) (\<lambda>v.
       case v of
         None \<Rightarrow> pure None
       | Some txt \<Rightarrow> io_of (if from_utf8 txt = None then Inl (io_error ''read'') else Inr (Some txt)))"

text \<open>\<open>fs::read_to_string\<close> and \<open>fs::read\<close>, which fail on an absent file.\<close>

definition read_text :: "(package_store \<Rightarrow> string option) \<Rightarrow> string action" where
  "read_text f =
     io_bind (reading (io_error ''read'') f) (\<lambda>v.
       io_of (case Option.bind v from_utf8 of None \<Rightarrow> Inl (io_error ''read'') | Some txt \<Rightarrow> Inr txt))"

definition read_bytes :: "(package_store \<Rightarrow> string option) \<Rightarrow> string action" where
  "read_bytes f =
     io_bind (reading (io_error ''read'') f) (\<lambda>v.
       io_of (case v of None \<Rightarrow> Inl (io_error ''read'') | Some txt \<Rightarrow> Inr txt))"

definition current_content_id :: "app_id \<Rightarrow> string option action" where
  "current_content_id a =
     reading_ok (\<lambda>s. Option.bind (d_link (s_app s a)) (\<lambda>target. Option.bind (file_name target) from_utf8))"

end
