(* ===== verification/Package_Install.thy ===== *)
theory Package_Install
  imports Package_Disk
begin

text \<open>
  The package manager (\<open>remagic-package/src/manager.rs\<close>, \<open>manager/install.rs\<close>, \<open>manager/manifest.rs\<close>,
  \<open>manager/transaction.rs\<close>): the journal and its recovery, installation, rollback and removal.
\<close>

section \<open>Manifests of a release\<close>

text \<open>\<open>str::replace\<close> for a pattern that is not empty.\<close>

function replace_str :: "string \<Rightarrow> string \<Rightarrow> string \<Rightarrow> string" where
  "replace_str old new s =
     (if s = [] \<or> old = [] then s
      else if prefix old s then new @ replace_str old new (drop (length old) s)
      else hd s # replace_str old new (tl s))"
  by auto

termination by (relation "measure (\<lambda>(_, _, s). length s)") auto

declare replace_str.simps [simp del]

definition current_dir :: "app_id \<Rightarrow> string" where
  "current_dir a = ''/home/root/apps/'' @ as_str a @ ''/current''"

definition release_dir :: "app_id \<Rightarrow> string \<Rightarrow> string" where
  "release_dir a cid = ''/home/root/apps/'' @ as_str a @ ''/releases/'' @ cid"

definition quote :: string where
  "quote = [CHR 0x22]"

definition materialize_manifest_bytes ::
  "codecs \<Rightarrow> string \<Rightarrow> app_id \<Rightarrow> string \<Rightarrow> package_error + string" where
  "materialize_manifest_bytes c bundled a cid =
     (if \<not> lower_hex_64 cid then Inl (P_State ''invalid package content id'')
      else
        res_bind (ok_or (from_utf8 bundled) (P_Manifest ''invalid utf-8 sequence'')) (\<lambda>txt.
        let current = current_dir a; release = release_dir a cid;
            materialized = replace_str (current @ quote) (release @ quote)
                             (replace_str (current @ ''/'') (release @ ''/'') txt)
        in if contains_str materialized (current @ ''/'') \<or> contains_str materialized (current @ quote)
           then Inl (P_Manifest ''application manifest retains a mutable current path'')
           else
             res_bind (map_err P_Manifest (c_toml c materialized)) (\<lambda>m.
             chk (map_err (\<lambda>_. P_Manifest ''invalid manifest'') (manifest_validate m))
                 (if m_id m \<noteq> a then Inl (P_Manifest ''materialized manifest identity changed'')
                  else Inr materialized))))"

section \<open>The journal\<close>

definition restore_file ::
  "(app_id \<Rightarrow> string \<Rightarrow> unit action) \<Rightarrow> (app_id \<Rightarrow> unit action) \<Rightarrow> app_id \<Rightarrow> string option \<Rightarrow> unit action" where
  "restore_file write remove a old = (case old of Some txt \<Rightarrow> write a txt | None \<Rightarrow> remove a)"

definition recover_journal :: "codecs \<Rightarrow> app_id \<Rightarrow> unit action" where
  "recover_journal c a =
     io_bind (read_bytes (\<lambda>s. d_journal (s_app s a))) (\<lambda>bytes.
     io_bind (io_of (map_err P_State (c_journal_of c bytes))) (\<lambda>j.
     io_seq (io_of (guard (j_schema j \<noteq> 1) (P_State ''unsupported transaction journal'')))
    (io_bind (io_of (map_err (\<lambda>_. P_State ''invalid id'') (app_id_new (j_app_id j)))) (\<lambda>b.
     io_seq (restore_file write_link remove_optional_link b
               (map_option (path_join ''releases'') (j_previous j)))
    (io_seq (restore_file write_manifest remove_optional_manifest b (j_manifest j))
    (io_seq (restore_file write_state remove_optional_state b (j_state j))
    (io_seq (if j_preexisted j then pure () else remove_release b (j_target j))
            (remove_optional_journal a))))))))"

definition recover_for :: "codecs \<Rightarrow> app_id \<Rightarrow> unit action" where
  "recover_for c a =
     io_bind (looking (\<lambda>s. d_journal (s_app s a) \<noteq> None)) (\<lambda>there.
       if there then recover_journal c a else pure ())"

text \<open>\<open>recover_all\<close> goes through the state directory as \<open>read_dir\<close> lists it, here the applications with a
  journal in it.\<close>

definition recover_all :: "codecs \<Rightarrow> app_id list \<Rightarrow> unit action" where
  "recover_all c listing =
     io_bind (reading (io_error ''state'') (\<lambda>s. filter (\<lambda>a. d_journal (s_app s a) \<noteq> None) listing))
       (for_all (recover_journal c))"

section \<open>The state\<close>

definition read_state :: "codecs \<Rightarrow> app_id \<Rightarrow> installed_state action" where
  "read_state c a =
     io_bind (read_text (\<lambda>s. d_state (s_app s a))) (\<lambda>txt.
     io_bind (io_of (map_err P_State (c_state_of c txt))) (\<lambda>st.
       io_of (if is_schema st \<noteq> PACKAGE_STATE_SCHEMA_V1 \<or> is_app_id st \<noteq> as_str a
              then Inl (P_State ''installed package state mismatch'') else Inr st)))"

section \<open>Application data\<close>

definition allowed_roots :: "path list" where
  "allowed_roots = [''/home/root/.config'', ''/home/root/.local/share'', ''/home/root/.local/state'', ''/home/root/.cache'']"

definition data_paths :: "app_manifest \<Rightarrow> path list" where
  "data_paths m =
     (case directories (m_runtime m) of
        None \<Rightarrow> []
      | Some d \<Rightarrow> [config_home d, data_home d, state_home d, cache_home d])"

definition purge_allowed :: "path \<Rightarrow> path \<Rightarrow> bool" where
  "purge_allowed books p =
     list_ex (\<lambda>root. path_starts_with p root \<and> \<not> path_eq p root \<and> \<not> path_starts_with p books) allowed_roots"

definition remove_data :: "path \<Rightarrow> unit action" where
  "remove_data p =
     atomically (P_Io p ''I/O error'') (s_data_update (filter (\<lambda>(q, _). \<not> prefix (path_components p) q)))"

definition purge_application_data :: "path \<Rightarrow> app_manifest \<Rightarrow> unit action" where
  "purge_application_data books m =
     for_all (\<lambda>p. io_seq (io_of (guard (\<not> purge_allowed books p) (P_UnsafePurge p))) (remove_data p)) (data_paths m)"

definition data_allowed :: "path \<Rightarrow> bool" where
  "data_allowed p = list_ex (\<lambda>root. path_starts_with p root \<and> \<not> path_eq p root) allowed_roots"

text \<open>\<open>create_dir_all\<close> follows a symbolic link to a directory and fails on a file.\<close>

definition create_data :: "path \<Rightarrow> unit action" where
  "create_data p =
     io_bind (looking (\<lambda>s. map_of (s_data s) (path_components p))) (\<lambda>n.
       case n of
         Some D_File \<Rightarrow> io_of (Inl (P_Io p ''File exists''))
       | Some _ \<Rightarrow> atomically (P_Io p ''I/O error'') (\<lambda>s. s)
       | None \<Rightarrow> atomically (P_Io p ''I/O error'') (s_data_update ((#) (path_components p, D_Dir 0x1ED))))"

definition ensure_directory :: "path \<Rightarrow> unit action" where
  "ensure_directory p =
     io_seq (io_of (guard (\<not> data_allowed p) (P_UnsafeDataPath p)))
    (io_seq (create_data p)
    (io_bind (reading (P_Io p ''I/O error'') (\<lambda>s. map_of (s_data s) (path_components p))) (\<lambda>n.
     io_seq (io_of (guard (case n of Some (D_Dir _) \<Rightarrow> False | _ \<Rightarrow> True) (P_UnsafeDataPath p)))
       (atomically (P_Io p ''I/O error'')
          (s_data_update (map (\<lambda>(q, n). (q, if q = path_components p then D_Dir 0x1C0 else n))))))))"

definition ensure_application_directories :: "app_manifest \<Rightarrow> unit action" where
  "ensure_application_directories m = for_all ensure_directory (data_paths m)"

section \<open>Installation\<close>

record install_outcome =
  io_app_id :: app_id
  io_version :: string
  io_content_id :: string
  io_previous :: "string option"

text \<open>The three roots are created outside the model; the application's directory is.\<close>

definition prepare_install_paths :: "app_id \<Rightarrow> prepared_package \<Rightarrow> unit action" where
  "prepare_install_paths a p =
     io_seq (for_all (\<lambda>r. atomically (io_error r) (\<lambda>s. s)) [''books'', ''manifests'', ''state''])
    (io_seq (ensure_application_directories (pp_manifest p))
       (atomically (io_error ''releases'') (on_app a (d_home_update (\<lambda>_. True)))))"

text \<open>The first half of \<open>begin_install\<close>: the text of the state, and the release that is current.\<close>

definition previous_install :: "codecs \<Rightarrow> app_id \<Rightarrow> (string option \<times> string option) action" where
  "previous_install c a =
     io_bind (read_optional d_state a) (\<lambda>state_text.
       case state_text of
         Some txt \<Rightarrow>
           io_bind (io_of (map_err P_State (c_state_of c txt))) (\<lambda>st. pure (state_text, Some (is_current st)))
       | None \<Rightarrow> io_bind (current_content_id a) (\<lambda>previous. pure (state_text, previous)))"

definition begin_install :: "codecs \<Rightarrow> app_id \<Rightarrow> prepared_package \<Rightarrow> bool \<Rightarrow> string option action" where
  "begin_install c a p preexisted =
     io_bind (previous_install c a) (\<lambda>(state_text, previous).
     io_bind (read_optional d_manifest a) (\<lambda>manifest_text.
     io_bind (io_of (map_err P_State (c_journal_text c
       \<lparr>j_schema = 1, j_app_id = as_str a, j_target = b_content_id (pp_bundle p), j_preexisted = preexisted,
        j_previous = previous, j_manifest = manifest_text, j_state = state_text\<rparr>))) (\<lambda>bytes.
     io_seq (write_journal a bytes) (pure previous))))"

definition new_state :: "app_id \<Rightarrow> prepared_package \<Rightarrow> string option \<Rightarrow> installed_state" where
  "new_state a p previous =
     \<lparr>is_schema = PACKAGE_STATE_SCHEMA_V1, is_app_id = as_str a, is_package = b_package (pp_bundle p),
      is_current = b_content_id (pp_bundle p),
      is_previous = (case previous of
          Some v \<Rightarrow> if v \<noteq> b_content_id (pp_bundle p) then Some v else None
        | None \<Rightarrow> None),
      is_version = b_version (pp_bundle p)\<rparr>"

definition install_result :: "app_id \<Rightarrow> prepared_package \<Rightarrow> string option \<Rightarrow> install_outcome" where
  "install_result a p previous =
     \<lparr>io_app_id = a, io_version = b_version (pp_bundle p), io_content_id = b_content_id (pp_bundle p),
      io_previous = previous\<rparr>"

text \<open>The directories of the releases are content ids, which \<open>to_string_lossy\<close> does not change.\<close>

definition remove_stale_releases :: "app_id \<Rightarrow> installed_state \<Rightarrow> unit action" where
  "remove_stale_releases a st =
     io_bind (reading (io_error ''releases'') (\<lambda>s. map fst (d_releases (s_app s a))))
       (\<lambda>names. for_all (remove_release a)
          (filter (\<lambda>n. n \<noteq> is_current st \<and> is_previous st \<noteq> Some n) names))"

text \<open>What both installations end with: the manifest, the link, the state, and then the journal goes.\<close>

definition publish :: "codecs \<Rightarrow> app_id \<Rightarrow> prepared_package \<Rightarrow> string option \<Rightarrow> string \<Rightarrow> unit action" where
  "publish c a p previous manifest_bytes =
     io_seq (write_manifest a manifest_bytes)
    (io_seq (write_link a (path_join ''releases'' (b_content_id (pp_bundle p))))
    (io_bind (io_of (map_err P_State (c_state_text c (new_state a p previous)))) (\<lambda>bytes.
     io_seq (write_state a bytes) (remove_journal a))))"

definition publish_install :: "codecs \<Rightarrow> app_id \<Rightarrow> prepared_package \<Rightarrow> string option \<Rightarrow> install_outcome action" where
  "publish_install c a p previous =
     io_bind (io_of (materialize_manifest_bytes c (pp_manifest_bytes p) a (b_content_id (pp_bundle p)))) (\<lambda>bytes.
     io_seq (move_stage a (b_content_id (pp_bundle p)))
    (io_seq (lock_release a (b_content_id (pp_bundle p)))
    (io_seq (publish c a p previous bytes)
    (io_seq (remove_stale_releases a (new_state a p previous))
       (pure (install_result a p previous))))))"

definition publish_existing_install ::
  "codecs \<Rightarrow> app_id \<Rightarrow> prepared_package \<Rightarrow> string option \<Rightarrow> install_outcome action" where
  "publish_existing_install c a p previous =
     io_bind (io_of (materialize_manifest_bytes c (pp_manifest_bytes p) a (b_content_id (pp_bundle p)))) (\<lambda>bytes.
     io_seq (publish c a p previous bytes)
    (io_seq remove_stage
    (io_seq (remove_stale_releases a (new_state a p previous))
       (pure (install_result a p previous)))))"

text \<open>\<open>if outcome.is_err() { let _ = self.recover_journal(..) }\<close>.\<close>

definition or_recover :: "codecs \<Rightarrow> app_id \<Rightarrow> 'a action \<Rightarrow> 'a action" where
  "or_recover c a m s =
     (case m s of
        (Failed e, t) \<Rightarrow>
          (case ignoring_result (recover_journal c a) t of (Died, u) \<Rightarrow> (Died, u) | (_, u) \<Rightarrow> (Failed e, u))
      | r \<Rightarrow> r)"

text \<open>The link is read only if the state names the same release.\<close>

definition state_matches :: "prepared_package \<Rightarrow> installed_state \<Rightarrow> bool" where
  "state_matches p st =
     (is_current st = b_content_id (pp_bundle p) \<and> is_version st = b_version (pp_bundle p)
      \<and> is_package st = b_package (pp_bundle p))"

definition is_current_install :: "prepared_package \<Rightarrow> installed_state \<Rightarrow> string option \<Rightarrow> bool" where
  "is_current_install p st linked = (state_matches p st \<and> linked = Some (b_content_id (pp_bundle p)))"

definition finish_existing_install ::
  "(string \<Rightarrow> string) \<Rightarrow> codecs \<Rightarrow> app_id \<Rightarrow> prepared_package \<Rightarrow> install_outcome action" where
  "finish_existing_install digest c a p =
     (let cid = b_content_id (pp_bundle p) in
      io_bind (read_state c a) (\<lambda>st.
      io_bind (if state_matches p st then current_content_id a else pure None) (\<lambda>linked.
        if is_current_install p st linked then
          io_bind (io_of (materialize_manifest_bytes c (pp_manifest_bytes p) a cid)) (\<lambda>bytes.
          io_seq (write_manifest a bytes)
         (io_seq remove_stage
            (pure \<lparr>io_app_id = a, io_version = is_version st, io_content_id = is_current st,
                   io_previous = is_previous st\<rparr>)))
        else
          io_bind (reading (io_error ''releases'') (release_of a cid)) (\<lambda>release.
          io_seq (io_of (verify_installed_release digest release (pp_stage p) (pp_bundle p)))
         (io_bind (begin_install c a p True) (\<lambda>previous.
            or_recover c a (publish_existing_install c a p previous)))))))"

definition install_at :: "(string \<Rightarrow> string) \<Rightarrow> codecs \<Rightarrow> prepared_package \<Rightarrow> install_outcome action" where
  "install_at digest c p =
     (let a = m_id (pp_manifest p); cid = b_content_id (pp_bundle p) in
      io_seq (recover_for c a)
     (io_seq (prepare_install_paths a p)
     (io_bind (looking (\<lambda>s. map_of (d_releases (s_app s a)) cid \<noteq> None)) (\<lambda>exists.
        if exists then finish_existing_install digest c a p
        else
          io_bind (begin_install c a p False) (\<lambda>previous.
            or_recover c a (publish_install c a p previous))))))"

text \<open>The prepared package is dropped on return, and its staging directory with it, if that still exists.\<close>

definition install :: "(string \<Rightarrow> string) \<Rightarrow> codecs \<Rightarrow> prepared_package \<Rightarrow> install_outcome action" where
  "install digest c p s =
     (case install_at digest c p s of
        (Died, t) \<Rightarrow> (Died, t)
      | (r, t) \<Rightarrow>
          (case ignoring_result remove_stage t of (Died, u) \<Rightarrow> (Died, u) | (_, u) \<Rightarrow> (r, u)))"

section \<open>Preparation\<close>

text \<open>\<open>PackageManager::prepare\<close> and \<open>bundle::prepare\<close>: the staging directory stays only if the bundle is accepted.\<close>

definition prepare ::
  "(string \<Rightarrow> string) \<Rightarrow> (string \<Rightarrow> string + package_bundle) \<Rightarrow> codecs \<Rightarrow> app_id list
    \<Rightarrow> (string + tar_entry) list \<Rightarrow> device_profile \<Rightarrow> prepared_package action" where
  "prepare digest json c listing items dev =
     io_seq (recover_all c listing)
    (io_seq (io_of (map_err (\<lambda>_. P_Compatibility ''device profile'') (device_profile_validate dev)))
    (io_bind (io_of (prepare_at digest json (c_toml c) items dev)) (\<lambda>p.
     io_seq (atomically (io_error ''staging'') (s_stage_update (\<lambda>_. Some (pp_stage p)))) (pure p))))"

section \<open>Rollback and removal\<close>

text \<open>\<open>release_for_version\<close>: the only release whose manifest has the version.\<close>

definition manifest_of_release :: "codecs \<Rightarrow> file_tree \<Rightarrow> app_manifest option" where
  "manifest_of_release c t =
     (case map_of t ''manifest.toml'' of
        Some (Regular _ bytes) \<Rightarrow>
          Option.bind (from_utf8 bytes) (\<lambda>txt. case c_toml c txt of Inl _ \<Rightarrow> None | Inr m \<Rightarrow> Some m)
      | _ \<Rightarrow> None)"

definition has_version :: "codecs \<Rightarrow> app_id \<Rightarrow> string \<Rightarrow> file_tree \<Rightarrow> bool" where
  "has_version c a version t =
     (case manifest_of_release c t of None \<Rightarrow> False | Some m \<Rightarrow> m_id m = a \<and> m_version m = version)"

definition release_for_version :: "codecs \<Rightarrow> app_id \<Rightarrow> string \<Rightarrow> string action" where
  "release_for_version c a version =
     io_seq (present (io_error ''releases'') (\<lambda>s. d_home (s_app s a)))
    (io_bind (reading (io_error ''releases'') (\<lambda>s. filter (\<lambda>(_, t). has_version c a version t) (d_releases (s_app s a))))
       (\<lambda>found. io_of (case found of
            [(name, _)] \<Rightarrow> Inr (to_string_lossy name)
          | _ \<Rightarrow> Inl (P_NoRollback (as_str a @ '' version '' @ version)))))"

definition release_file :: "app_id \<Rightarrow> string \<Rightarrow> string \<Rightarrow> package_store \<Rightarrow> string option" where
  "release_file a cid name s =
     (case Option.bind (map_of (d_releases (s_app s a)) cid) (\<lambda>t. map_of t name) of
        Some (Regular _ bytes) \<Rightarrow> Some bytes
      | _ \<Rightarrow> None)"

definition rollback_incompatible :: "app_id \<Rightarrow> app_manifest \<Rightarrow> device_profile \<Rightarrow> bool" where
  "rollback_incompatible a m dev =
     (m_id m \<noteq> a \<or> m_supported_devices m \<noteq> [] \<and> product_id dev \<notin> set (m_supported_devices m)
      \<or> m_supported_os m \<noteq> [] \<and> os_version dev \<notin> set (m_supported_os m))"

definition rollback :: "codecs \<Rightarrow> app_id \<Rightarrow> string option \<Rightarrow> device_profile \<Rightarrow> install_outcome action" where
  "rollback c a version dev =
     io_seq (recover_for c a)
    (io_bind (read_state c a) (\<lambda>st.
     io_bind (case version of
                Some v \<Rightarrow> release_for_version c a v
              | None \<Rightarrow> io_of (ok_or (is_previous st) (P_NoRollback (as_str a)))) (\<lambda>target.
     io_seq (io_of (guard (target = is_current st) (P_NoRollback (as_str a))))
    (io_bind (read_bytes (release_file a target ''manifest.toml'')) (\<lambda>bundled.
     io_bind (io_of (materialize_manifest_bytes c bundled a target)) (\<lambda>bytes.
     io_bind (io_of (map_err P_Manifest (c_toml c bytes))) (\<lambda>m.
     io_seq (io_of (map_err (\<lambda>_. P_Manifest ''invalid manifest'') (manifest_validate m)))
    (io_seq (io_of (guard (rollback_incompatible a m dev)
               (P_Compatibility ''rollback release is incompatible with this device'')))
    (io_seq (write_manifest a bytes)
    (io_seq (write_link a (path_join ''releases'' target))
    (io_bind (io_of (map_err P_State (c_state_text c
       \<lparr>is_schema = PACKAGE_STATE_SCHEMA_V1, is_app_id = as_str a, is_package = is_package st,
        is_current = target, is_previous = Some (is_current st), is_version = m_version m\<rparr>))) (\<lambda>txt.
     io_seq (write_state a txt)
       (pure \<lparr>io_app_id = a, io_version = m_version m, io_content_id = target,
              io_previous = Some (is_current st)\<rparr>)))))))))))))"

definition uninstall :: "codecs \<Rightarrow> path \<Rightarrow> app_id \<Rightarrow> bool \<Rightarrow> bool action" where
  "uninstall c books a purge =
     io_seq (recover_for c a)
    (io_bind (read_text (\<lambda>s. d_manifest (s_app s a))) (\<lambda>txt.
     io_bind (io_of (map_err P_Manifest (c_toml c txt))) (\<lambda>m.
     io_seq (io_of (map_err (\<lambda>_. P_Manifest ''invalid manifest'') (manifest_validate m)))
    (io_seq (io_of (guard (m_kind m = System) (P_SystemApp (as_str a))))
    (io_seq (if purge then purge_application_data books m else pure ())
    (io_seq (remove_manifest a)
    (io_seq (remove_home a)
    (io_seq (remove_optional_state a) (pure purge)))))))))"

end
