(* ===== verification/Package_Atomicity.thy ===== *)
theory Package_Atomicity
  imports Package_Install
begin

text \<open>
  An installation is atomic: whatever system call fails and wherever the process dies, in the
  installation or in the recoveries after it, the first recovery that is left to finish finds either
  the old installation or the new one, complete. The proof uses the Hoare logic of
  \<open>Fallible_Actions\<close>.
\<close>

section \<open>Triples\<close>

lemma triple_syscall:
  assumes "\<And>s fs. P s \<Longrightarrow> P (s\<lparr>s_faults := fs\<rparr>)" "\<And>s. P s \<Longrightarrow> Q () (eff s)"
    "\<And>s. P s \<Longrightarrow> R s" "\<And>s. P s \<Longrightarrow> R (eff s)" "\<And>s k ls. P s \<Longrightarrow> R (part k ls s)"
  shows "triple P (syscall e eff part) Q R"
  using assms
  by (auto simp: triple_def syscall_def split: list.splits fault.splits progress.splits)

lemma triple_atomically:
  assumes "\<And>s fs. P s \<Longrightarrow> P (s\<lparr>s_faults := fs\<rparr>)" "\<And>s. P s \<Longrightarrow> Q () (eff s)"
    "\<And>s. P s \<Longrightarrow> R s" "\<And>s. P s \<Longrightarrow> R (eff s)"
  shows "triple P (atomically e eff) Q R"
  unfolding atomically_def by (rule triple_syscall) (use assms in auto)

lemma triple_reading:
  assumes "\<And>s fs. P s \<Longrightarrow> P (s\<lparr>s_faults := fs\<rparr>)" "\<And>s. P s \<Longrightarrow> Q (f s) s" "\<And>s. P s \<Longrightarrow> R s"
  shows "triple P (reading e f) Q R"
  unfolding reading_def
  by (rule triple_bind [where Q = "\<lambda>_. P"], rule triple_atomically) (auto intro: assms triple_looking)

section \<open>One application's files\<close>

text \<open>\<open>within a others D\<close>: the files of \<open>a\<close> and the staging directory satisfy \<open>D\<close>, every other
  application's files are those of \<open>others\<close>.\<close>

definition within ::
  "app_id \<Rightarrow> (app_id \<Rightarrow> app_disk) \<Rightarrow> (app_disk \<Rightarrow> file_tree option \<Rightarrow> bool) \<Rightarrow> package_store \<Rightarrow> bool" where
  "within a others D s = ((\<forall>b. b \<noteq> a \<longrightarrow> s_app s b = others b) \<and> D (s_app s a) (s_stage s))"

lemma within_faults [simp]: "within a others D (s\<lparr>s_faults := fs\<rparr>) = within a others D s"
  by (simp add: within_def)

lemma within_on_app [simp]:
  "within a others D (on_app a f s) \<longleftrightarrow> within a others (\<lambda>d st. D (f d) st) s"
  by (auto simp: within_def on_app_def)

lemma within_mono: "within a others D s \<Longrightarrow> (\<And>d st. D d st \<Longrightarrow> E d st) \<Longrightarrow> within a others E s"
  by (simp add: within_def)

lemma triple_update:
  assumes "\<And>d st. D d st \<Longrightarrow> Q (f d) st" "\<And>d st. D d st \<Longrightarrow> R d st" "\<And>d st. D d st \<Longrightarrow> R (f d) st"
  shows "triple (within a oth D) (atomically e (on_app a f)) (\<lambda>_. within a oth Q) (within a oth R)"
  by (rule triple_atomically) (auto elim!: within_mono intro: assms)

lemma triple_tree:
  assumes "\<And>d st. D d st \<Longrightarrow> Q (f d) st" "\<And>d st. D d st \<Longrightarrow> R d st" "\<And>d st. D d st \<Longrightarrow> R (f d) st"
    "\<And>k ls d st. D d st \<Longrightarrow> R (g k ls d) st"
  shows "triple (within a oth D) (syscall e (on_app a f) (\<lambda>k ls. on_app a (g k ls)))
    (\<lambda>_. within a oth Q) (within a oth R)"
  by (rule triple_syscall) (auto elim!: within_mono intro: assms)

lemma triple_read_app:
  assumes "\<And>d st. D d st \<Longrightarrow> R d st"
  shows "triple (within a oth D) (reading e (\<lambda>s. f (s_app s a)))
    (\<lambda>x. within a oth (\<lambda>d st. D d st \<and> x = f d)) (within a oth R)"
  by (rule triple_reading) (auto simp: within_def intro: assms)

lemma triple_of:
  assumes "\<And>d st. D d st \<Longrightarrow> R d st"
  shows "triple (within a oth D) (io_of r) (\<lambda>x. within a oth (\<lambda>d st. D d st \<and> r = Inr x)) (within a oth R)"
  by (rule triple_io_of) (auto simp: within_def intro: assms)

lemma triple_read_optional:
  assumes "\<And>d st. D d st \<Longrightarrow> R d st"
  shows "triple (within a oth D) (read_optional f a)
    (\<lambda>x. within a oth (\<lambda>d st. D d st \<and> x = f d)) (within a oth R)"
  unfolding read_optional_def
  by (rule triple_bind, rule triple_read_app [where R = R])
    (auto simp: within_def io_of_def pure_def triple_def assms split: option.splits if_splits sum.splits)

section \<open>Undoing\<close>

text \<open>What a recovery that finishes makes of the files of an application.\<close>

definition undo :: "transaction_journal \<Rightarrow> app_disk \<Rightarrow> app_disk" where
  "undo j d =
     d\<lparr>d_link := map_option (path_join ''releases'') (j_previous j), d_manifest := j_manifest j,
       d_state := j_state j, d_journal := None,
       d_releases := (if j_preexisted j then d_releases d else without (j_target j) (d_releases d))\<rparr>"

definition journaled :: "codecs \<Rightarrow> app_id \<Rightarrow> transaction_journal \<Rightarrow> app_disk \<Rightarrow> bool" where
  "journaled c a j d =
     (\<exists>bytes. d_journal d = Some bytes \<and> c_journal_of c bytes = Inr j \<and> j_schema j = 1
        \<and> app_id_new (j_app_id j) = Inr a)"

text \<open>A transaction is pending that, undone, gives \<open>old\<close>.\<close>

definition pending :: "codecs \<Rightarrow> app_id \<Rightarrow> transaction_journal \<Rightarrow> app_disk \<Rightarrow> app_disk \<Rightarrow> bool" where
  "pending c a j old d = (journaled c a j d \<and> undo j d = old)"

lemma without_without [simp]: "without n (without n rs) = without n rs"
  by (simp add: without_def)

lemma without_leave [simp]: "without n (leave n left rs) = without n rs"
  by (induction rs) (auto simp: without_def leave_def split: option.splits)

lemma without_set [simp]: "without n (map (\<lambda>(m, u). (m, if m = n then t else u)) rs) = without n rs"
  by (induction rs) (auto simp: without_def)

lemma without_snoc [simp]: "without n (rs @ [(n, t)]) = without n rs"
  by (simp add: without_def)

lemma without_absent: "map_of rs n = None \<Longrightarrow> without n rs = rs"
  by (force simp: without_def map_of_eq_None_iff filter_id_conv)

lemma map_of_without: "map_of (without n rs) m = (if m = n then None else map_of rs m)"
  by (induction rs) (auto simp: without_def)

lemma map_of_leave: "m \<noteq> n \<Longrightarrow> map_of (leave n left rs) m = map_of rs m"
  by (induction rs) (auto simp: leave_def without_def split: option.splits)

lemma map_of_set:
  "map_of (map (\<lambda>(m, u). (m, if m = n then t else u)) rs) k
    = (if k = n then map_option (\<lambda>_. t) (map_of rs n) else map_of rs k)"
  by (induction rs) auto

lemma triple_fact:
  "(\<phi> \<Longrightarrow> triple (within a oth D) m Q R) \<Longrightarrow> triple (within a oth (\<lambda>d st. D d st \<and> \<phi>)) m Q R"
  by (cases \<phi>) (auto simp: triple_def within_def)

lemma pending_update [simp]:
  "pending c a j old (d_link_update f d) = pending c a j old d"
  "pending c a j old (d_manifest_update f d) = pending c a j old d"
  "pending c a j old (d_state_update f d) = pending c a j old d"
  by (simp_all add: pending_def journaled_def undo_def)

lemma pending_release:
  assumes "\<not> j_preexisted j" "without (j_target j) (f (d_releases d)) = without (j_target j) (d_releases d)"
  shows "pending c a j old (d_releases_update f d) = pending c a j old d"
  using assms by (simp add: pending_def journaled_def undo_def)

lemma pending_old:
  assumes "pending c a j old d"
  shows "d_link old = map_option (path_join ''releases'') (j_previous j)" "d_manifest old = j_manifest j"
    "d_state old = j_state j" "d_journal old = None" "d_home old = d_home d"
    "d_releases old = (if j_preexisted j then d_releases d else without (j_target j) (d_releases d))"
  using assms by (auto simp: pending_def undo_def)

text \<open>What the recovery has restored so far.\<close>

definition link_back :: "codecs \<Rightarrow> app_id \<Rightarrow> transaction_journal \<Rightarrow> app_disk \<Rightarrow> app_disk \<Rightarrow> bool" where
  "link_back c a j old d = (pending c a j old d \<and> d_link d = d_link old)"

definition manifest_back :: "codecs \<Rightarrow> app_id \<Rightarrow> transaction_journal \<Rightarrow> app_disk \<Rightarrow> app_disk \<Rightarrow> bool" where
  "manifest_back c a j old d = (link_back c a j old d \<and> d_manifest d = d_manifest old)"

definition state_back :: "codecs \<Rightarrow> app_id \<Rightarrow> transaction_journal \<Rightarrow> app_disk \<Rightarrow> app_disk \<Rightarrow> bool" where
  "state_back c a j old d = (manifest_back c a j old d \<and> d_state d = d_state old)"

definition all_back :: "codecs \<Rightarrow> app_id \<Rightarrow> transaction_journal \<Rightarrow> app_disk \<Rightarrow> app_disk \<Rightarrow> bool" where
  "all_back c a j old d = (state_back c a j old d \<and> d_releases d = d_releases old)"

lemmas back_defs = all_back_def state_back_def manifest_back_def link_back_def

lemma all_back_done: "all_back c a j old d \<Longrightarrow> d_journal_update (\<lambda>_. None) d = old"
  by (auto simp: back_defs intro!: app_disk.equality dest: pending_old)

lemma triple_back:
  assumes "\<And>d. D d \<Longrightarrow> pending c a j old d" "\<And>d. D d \<Longrightarrow> E (f d)" "\<And>d. E d \<Longrightarrow> pending c a j old d"
  shows "triple (within a oth (\<lambda>d _. D d)) (atomically e (on_app a f))
    (\<lambda>_. within a oth (\<lambda>d _. E d)) (within a oth (\<lambda>d _. pending c a j old d))"
  by (rule triple_update) (auto intro: assms)

lemma triple_link_back:
  "triple (within a oth (\<lambda>d _. pending c a j old d))
     (restore_file write_link remove_optional_link a (map_option (path_join ''releases'') (j_previous j)))
     (\<lambda>_. within a oth (\<lambda>d _. link_back c a j old d)) (within a oth (\<lambda>d _. pending c a j old d))"
  by (cases "j_previous j")
    (auto simp: restore_file_def write_link_def remove_optional_link_def back_defs pending_old intro!: triple_back)

lemma triple_manifest_back:
  "triple (within a oth (\<lambda>d _. link_back c a j old d))
     (restore_file write_manifest remove_optional_manifest a (j_manifest j))
     (\<lambda>_. within a oth (\<lambda>d _. manifest_back c a j old d)) (within a oth (\<lambda>d _. pending c a j old d))"
  by (cases "j_manifest j")
    (auto simp: restore_file_def write_manifest_def remove_optional_manifest_def back_defs pending_old
      intro!: triple_back)

lemma triple_state_back:
  "triple (within a oth (\<lambda>d _. manifest_back c a j old d))
     (restore_file write_state remove_optional_state a (j_state j))
     (\<lambda>_. within a oth (\<lambda>d _. state_back c a j old d)) (within a oth (\<lambda>d _. pending c a j old d))"
  by (cases "j_state j")
    (auto simp: restore_file_def write_state_def remove_optional_state_def back_defs pending_old
      intro!: triple_back)

lemma triple_release_back:
  "triple (within a oth (\<lambda>d _. state_back c a j old d))
     (if j_preexisted j then pure () else remove_release a (j_target j))
     (\<lambda>_. within a oth (\<lambda>d _. all_back c a j old d)) (within a oth (\<lambda>d _. pending c a j old d))"
proof (cases "j_preexisted j")
  case True
  then show ?thesis
    by (auto intro!: triple_pure elim!: within_mono simp: back_defs pending_old)
next
  case False
  note same = pending_release [OF False]
  show ?thesis
    unfolding if_not_P [OF False] remove_release_def
    by (rule triple_tree) (auto simp: back_defs same False dest: pending_old(6))
qed

lemma recover_pending:
  "triple (within a oth (\<lambda>d _. pending c a j old d)) (recover_journal c a)
     (\<lambda>_. within a oth (\<lambda>d _. d = old)) (within a oth (\<lambda>d _. pending c a j old d \<or> d = old))"
proof -
  let ?W = "within a oth"
  let ?P = "\<lambda>d _. pending c a j old d"
  let ?R = "?W (\<lambda>d _. pending c a j old d \<or> d = old)"
  have weak: "triple P m Q (?W ?P) \<Longrightarrow> triple P m Q ?R" for P Q and m :: "'x action"
    by (erule triple_weaken) (auto elim!: within_mono)
  have bytes: "triple (?W ?P) (read_bytes (\<lambda>s. d_journal (s_app s a)))
      (\<lambda>x. ?W (\<lambda>d _. pending c a j old d \<and> c_journal_of c x = Inr j)) ?R"
    unfolding read_bytes_def
    by (rule weak, rule triple_bind, rule triple_read_app [where R = ?P])
      (auto simp: triple_def within_def io_of_def pending_def journaled_def split: option.splits)
  have last: "triple (?W (\<lambda>d _. all_back c a j old d)) (remove_optional_journal a) (\<lambda>_. ?W (\<lambda>d _. d = old)) ?R"
    unfolding remove_optional_journal_def
    by (rule triple_update) (auto simp: all_back_done, auto simp: back_defs)
  have rest: "triple (?W ?P)
      (io_seq (restore_file write_link remove_optional_link a (map_option (path_join ''releases'') (j_previous j)))
      (io_seq (restore_file write_manifest remove_optional_manifest a (j_manifest j))
      (io_seq (restore_file write_state remove_optional_state a (j_state j))
      (io_seq (if j_preexisted j then pure () else remove_release a (j_target j))
              (remove_optional_journal a))))) (\<lambda>_. ?W (\<lambda>d _. d = old)) ?R"
    by (intro triple_seq [OF weak [OF triple_link_back]] triple_seq [OF weak [OF triple_manifest_back]]
        triple_seq [OF weak [OF triple_state_back]] triple_seq [OF weak [OF triple_release_back]] last)
  show ?thesis
    unfolding recover_journal_def
  proof (rule triple_bind [OF bytes], rule triple_fact)
    fix x assume x: "c_journal_of c x = Inr j"
    show "triple (?W ?P)
      (io_bind (io_of (map_err P_State (c_journal_of c x))) (\<lambda>j.
       io_seq (io_of (guard (j_schema j \<noteq> 1) (P_State ''unsupported transaction journal'')))
      (io_bind (io_of (map_err (\<lambda>_. P_State ''invalid id'') (app_id_new (j_app_id j)))) (\<lambda>b.
       io_seq (restore_file write_link remove_optional_link b (map_option (path_join ''releases'') (j_previous j)))
      (io_seq (restore_file write_manifest remove_optional_manifest b (j_manifest j))
      (io_seq (restore_file write_state remove_optional_state b (j_state j))
      (io_seq (if j_preexisted j then pure () else remove_release b (j_target j))
              (remove_optional_journal a)))))))) (\<lambda>_. ?W (\<lambda>d _. d = old)) ?R"
    proof (cases "j_schema j = 1 \<and> app_id_new (j_app_id j) = Inr a")
      case True
      then show ?thesis
        using rest x by (simp add: io_bind_def io_seq_def io_of_def triple_def map_err_def)
    next
      case False
      then show ?thesis by (auto simp: triple_def within_def pending_def journaled_def)
    qed
  qed
qed

lemma recover_pending_finishes:
  assumes "pending c a j old (s_app s a)" "s_faults s = []"
  shows "fst (recover_journal c a s) = Done ()"
  using assms
  by (cases "j_previous j"; cases "j_manifest j"; cases "j_state j"; cases "j_preexisted j")
    (auto simp: recover_journal_def pending_def journaled_def io_bind_def io_seq_def io_of_def read_bytes_def
      reading_def looking_def atomically_def syscall_def restore_file_def write_link_def write_manifest_def
      write_state_def remove_optional_link_def remove_optional_manifest_def remove_optional_state_def
      remove_optional_journal_def remove_release_def pure_def on_app_def map_err_def)

section \<open>Beginning\<close>

definition codecs_ok :: "codecs \<Rightarrow> bool" where
  "codecs_ok c =
     ((\<forall>x s. c_state_text c x = Inr s \<longrightarrow> c_state_of c s = Inr x)
      \<and> (\<forall>x s. c_journal_text c x = Inr s \<longrightarrow> c_journal_of c s = Inr x))"

text \<open>No transaction is open, and the link is that of the state.\<close>

definition coherent :: "codecs \<Rightarrow> app_disk \<Rightarrow> bool" where
  "coherent c d =
     (d_journal d = None
      \<and> (case d_state d of
           None \<Rightarrow> d_link d = None
         | Some tx \<Rightarrow> (case c_state_of c tx of
               Inl _ \<Rightarrow> True
             | Inr st \<Rightarrow> d_link d = Some (path_join ''releases'' (is_current st)))))"

definition previous_of :: "codecs \<Rightarrow> app_disk \<Rightarrow> string option" where
  "previous_of c d =
     (case d_state d of
        None \<Rightarrow> None
      | Some tx \<Rightarrow> (case c_state_of c tx of Inl _ \<Rightarrow> None | Inr st \<Rightarrow> Some (is_current st)))"

definition opened :: "codecs \<Rightarrow> app_id \<Rightarrow> prepared_package \<Rightarrow> bool \<Rightarrow> app_disk \<Rightarrow> transaction_journal" where
  "opened c a p pre d =
     \<lparr>j_schema = 1, j_app_id = as_str a, j_target = b_content_id (pp_bundle p), j_preexisted = pre,
      j_previous = previous_of c d, j_manifest = d_manifest d, j_state = d_state d\<rparr>"

lemma opened_pending:
  assumes "codecs_ok c" "app_id_new (as_str a) = Inr a" "coherent c old"
    and "\<not> pre \<Longrightarrow> map_of (d_releases old) (b_content_id (pp_bundle p)) = None"
    and "c_journal_text c (opened c a p pre old) = Inr bytes"
    and "\<And>tx. d_state old = Some tx \<Longrightarrow> \<exists>st. c_state_of c tx = Inr st"
  shows "pending c a (opened c a p pre old) old (d_journal_update (\<lambda>_. Some bytes) old)"
proof -
  have link: "d_link old = map_option (path_join ''releases'') (previous_of c old)"
    using assms(3,6) by (auto simp: coherent_def previous_of_def split: option.splits sum.splits)
  have "(if pre then d_releases old else without (b_content_id (pp_bundle p)) (d_releases old)) = d_releases old"
    using assms(4) by (simp add: without_absent)
  then show ?thesis
    using assms(1,2,3,5) link
    by (auto simp: pending_def journaled_def undo_def opened_def codecs_ok_def coherent_def
        intro!: app_disk.equality)
qed

lemma triple_current_content_id:
  assumes "\<And>d st. D d st \<Longrightarrow> R d st"
  shows "triple (within a oth (\<lambda>d st. D d st \<and> d_link d = None)) (current_content_id a)
    (\<lambda>x. within a oth (\<lambda>d st. D d st \<and> x = None)) (within a oth R)"
  using assms
  by (auto simp: triple_def current_content_id_def reading_ok_def reading_def io_bind_def looking_def
      atomically_def syscall_def within_def split: list.splits fault.splits progress.splits outcome.splits prod.splits)

definition state_read :: "codecs \<Rightarrow> app_disk \<Rightarrow> bool" where
  "state_read c d = (case d_state d of None \<Rightarrow> True | Some tx \<Rightarrow> \<exists>st. c_state_of c tx = Inr st)"

lemma triple_previous_install:
  assumes "coherent c old"
  shows "triple (within a oth (\<lambda>d st. d = old \<and> st = stage)) (previous_install c a)
    (\<lambda>(tx, previous). within a oth (\<lambda>d st. (d = old \<and> st = stage) \<and> (state_read c old \<and> tx = d_state old
        \<and> previous = previous_of c old)))
    (within a oth (\<lambda>d _. d = old))"
proof -
  let ?W = "within a oth" and ?O = "\<lambda>d st. d = old \<and> st = stage"
  let ?Q = "\<lambda>(tx, previous). ?W (\<lambda>d st. ?O d st \<and> (state_read c old \<and> tx = d_state old \<and> previous = previous_of c old))"
  have "triple (?W (\<lambda>d st. ?O d st \<and> x = d_state d)) (case x of
         Some tx \<Rightarrow> io_bind (io_of (map_err P_State (c_state_of c tx))) (\<lambda>st. pure (x, Some (is_current st)))
       | None \<Rightarrow> io_bind (current_content_id a) (\<lambda>previous. pure (x, previous))) ?Q (?W (\<lambda>d _. d = old))" for x
  proof (cases x)
    case None
    have "triple (?W (\<lambda>d st. (?O d st \<and> None = d_state d) \<and> d_link d = None)) (current_content_id a)
        (\<lambda>y. ?W (\<lambda>d st. (?O d st \<and> None = d_state d) \<and> y = None)) (?W (\<lambda>d _. d = old))"
      by (rule triple_current_content_id) simp
    then have link: "triple (?W (\<lambda>d st. ?O d st \<and> None = d_state d)) (current_content_id a)
        (\<lambda>y. ?W (\<lambda>d st. (?O d st \<and> None = d_state d) \<and> y = None)) (?W (\<lambda>d _. d = old))"
      by (rule triple_weaken) (insert assms, auto simp: within_def coherent_def)
    show ?thesis
      unfolding None option.case
      by (rule triple_bind [OF link], rule triple_pure)
        (auto simp: within_def state_read_def previous_of_def split: option.splits)
  next
    case (Some tx)
    then show ?thesis
      by (cases "c_state_of c tx")
        (auto simp: triple_def io_bind_def io_of_def pure_def map_err_def within_def state_read_def previous_of_def
          split: option.splits)
  qed
  then show ?thesis
    unfolding previous_install_def by (rule triple_bind [OF triple_read_optional, rotated]) simp
qed

lemma triple_begin:
  assumes "codecs_ok c" "app_id_new (as_str a) = Inr a" "coherent c old"
    and fresh: "\<not> pre \<Longrightarrow> map_of (d_releases old) (b_content_id (pp_bundle p)) = None"
    and j: "j = opened c a p pre old"
  shows "triple (within a oth (\<lambda>d st. d = old \<and> st = stage)) (begin_install c a p pre)
    (\<lambda>previous. within a oth (\<lambda>d st. (pending c a j old d \<and> d_releases d = d_releases old \<and> st = stage)
        \<and> previous = previous_of c old))
    (within a oth (\<lambda>d _. d = old \<or> pending c a j old d))"
proof -
  let ?W = "within a oth" and ?O = "\<lambda>d st. d = old \<and> st = stage"
  let ?Q = "\<lambda>previous. ?W (\<lambda>d st. (pending c a j old d \<and> d_releases d = d_releases old \<and> st = stage)
        \<and> previous = previous_of c old)"
  let ?R = "?W (\<lambda>d _. d = old \<or> pending c a j old d)"
  have written: "triple (?W ?O) (write_journal a bytes) (\<lambda>_. ?W (\<lambda>d st. pending c a j old d \<and> d_releases d = d_releases old \<and> st = stage)) ?R"
    if "c_journal_text c j = Inr bytes" "state_read c old" for bytes
  proof -
    have "\<exists>st. c_state_of c tx = Inr st" if "d_state old = Some tx" for tx
      using \<open>state_read c old\<close> that by (simp add: state_read_def)
    from opened_pending [OF assms(1-3) fresh \<open>c_journal_text c j = Inr bytes\<close> [unfolded j] this]
    show ?thesis
      unfolding write_journal_def j by (intro triple_update) auto
  qed
  have rest: "triple (?W ?O)
      (io_bind (read_optional d_manifest a) (\<lambda>manifest_text.
       io_bind (io_of (map_err P_State (c_journal_text c
         \<lparr>j_schema = 1, j_app_id = as_str a, j_target = b_content_id (pp_bundle p), j_preexisted = pre,
          j_previous = previous_of c old, j_manifest = manifest_text, j_state = d_state old\<rparr>))) (\<lambda>bytes.
       io_seq (write_journal a bytes) (pure (previous_of c old))))) ?Q ?R" if ok: "state_read c old"
  proof (rule triple_bind [OF triple_read_optional], force)
    fix tx
    have j': "tx = d_manifest old \<Longrightarrow>
        \<lparr>j_schema = 1, j_app_id = as_str a, j_target = b_content_id (pp_bundle p), j_preexisted = pre,
          j_previous = previous_of c old, j_manifest = tx, j_state = d_state old\<rparr> = j"
      by (simp add: j opened_def)
    show "triple (?W (\<lambda>d st. ?O d st \<and> tx = d_manifest d))
      (io_bind (io_of (map_err P_State (c_journal_text c
         \<lparr>j_schema = 1, j_app_id = as_str a, j_target = b_content_id (pp_bundle p), j_preexisted = pre,
          j_previous = previous_of c old, j_manifest = tx, j_state = d_state old\<rparr>))) (\<lambda>bytes.
       io_seq (write_journal a bytes) (pure (previous_of c old)))) ?Q ?R"
    proof (cases "tx = d_manifest old")
      case True
      show ?thesis
        unfolding j' [OF True]
      proof (cases "c_journal_text c j")
        case (Inr bytes)
        have "triple (?W ?O) (io_seq (write_journal a bytes) (pure (previous_of c old))) ?Q ?R"
          by (rule triple_seq [OF written [OF Inr ok]], rule triple_pure) (auto elim!: within_mono)
        then have "triple (?W (\<lambda>d st. ?O d st \<and> tx = d_manifest d))
            (io_seq (write_journal a bytes) (pure (previous_of c old))) ?Q ?R"
          by (rule triple_weaken) (auto elim!: within_mono)
        then show "triple (?W (\<lambda>d st. ?O d st \<and> tx = d_manifest d))
            (io_bind (io_of (map_err P_State (c_journal_text c j))) (\<lambda>bytes.
               io_seq (write_journal a bytes) (pure (previous_of c old)))) ?Q ?R"
          by (simp add: Inr map_err_def io_bind_def io_of_def triple_def)
      qed (auto simp: map_err_def io_bind_def io_of_def triple_def within_def)
    qed (auto simp: triple_def within_def)
  qed
  have previous: "triple (?W ?O) (previous_install c a)
      (\<lambda>(tx, previous). ?W (\<lambda>d st. ?O d st \<and> (state_read c old \<and> tx = d_state old \<and> previous = previous_of c old))) ?R"
    by (rule triple_weaken [OF triple_previous_install [OF assms(3)]]) (auto elim!: within_mono)
  show ?thesis
    unfolding begin_install_def
  proof (rule triple_bind [OF previous], goal_cases)
    case (1 x)
    obtain tx previous where x: "x = (tx, previous)" by (cases x)
    show ?case unfolding x prod.case by (rule triple_fact) (use rest in simp)
  qed
qed

section \<open>Publishing\<close>

text \<open>The release is there, made from the bundle or found before, and so is the release that was current.\<close>

definition releases_ok :: "codecs \<Rightarrow> prepared_package \<Rightarrow> app_disk \<Rightarrow> releases \<Rightarrow> bool" where
  "releases_ok c p old rs =
     ((\<exists>t. map_of rs (b_content_id (pp_bundle p)) = Some t
         \<and> (make_read_only (pp_stage p) = Inr t \<or> map_of (d_releases old) (b_content_id (pp_bundle p)) = Some t))
      \<and> (\<forall>v. previous_of c old = Some v \<longrightarrow> v \<noteq> b_content_id (pp_bundle p) \<longrightarrow> map_of rs v = map_of (d_releases old) v))"

definition current_state :: "codecs \<Rightarrow> app_id \<Rightarrow> prepared_package \<Rightarrow> string option \<Rightarrow> bool" where
  "current_state c a p state_text =
     (\<exists>tx st. state_text = Some tx \<and> c_state_of c tx = Inr st \<and> is_schema st = PACKAGE_STATE_SCHEMA_V1
        \<and> is_app_id st = as_str a \<and> is_current st = b_content_id (pp_bundle p)
        \<and> is_version st = b_version (pp_bundle p) \<and> is_package st = b_package (pp_bundle p))"

text \<open>The application is installed from \<open>p\<close>: link, manifest and state all say so, and the releases are
  there.\<close>

definition installed :: "codecs \<Rightarrow> prepared_package \<Rightarrow> app_disk \<Rightarrow> app_disk \<Rightarrow> bool" where
  "installed c p old d =
     (let a = m_id (pp_manifest p); cid = b_content_id (pp_bundle p) in
      d_journal d = None \<and> d_link d = Some (path_join ''releases'' cid)
      \<and> (\<exists>bytes. materialize_manifest_bytes c (pp_manifest_bytes p) a cid = Inr bytes \<and> d_manifest d = Some bytes)
      \<and> current_state c a p (d_state d) \<and> releases_ok c p old (d_releases d))"

definition manifest_put ::
  "codecs \<Rightarrow> prepared_package \<Rightarrow> transaction_journal \<Rightarrow> app_disk \<Rightarrow> app_disk \<Rightarrow> bool" where
  "manifest_put c p j old d =
     (pending c (m_id (pp_manifest p)) j old d \<and> releases_ok c p old (d_releases d)
      \<and> (\<exists>bytes. materialize_manifest_bytes c (pp_manifest_bytes p) (m_id (pp_manifest p)) (b_content_id (pp_bundle p))
                   = Inr bytes \<and> d_manifest d = Some bytes))"

definition link_put ::
  "codecs \<Rightarrow> prepared_package \<Rightarrow> transaction_journal \<Rightarrow> app_disk \<Rightarrow> app_disk \<Rightarrow> bool" where
  "link_put c p j old d =
     (manifest_put c p j old d \<and> d_link d = Some (path_join ''releases'' (b_content_id (pp_bundle p))))"

definition state_put ::
  "codecs \<Rightarrow> prepared_package \<Rightarrow> transaction_journal \<Rightarrow> app_disk \<Rightarrow> app_disk \<Rightarrow> bool" where
  "state_put c p j old d = (link_put c p j old d \<and> current_state c (m_id (pp_manifest p)) p (d_state d))"

lemmas put_defs = state_put_def link_put_def manifest_put_def

lemma new_state_current:
  "codecs_ok c \<Longrightarrow> c_state_text c (new_state a p previous) = Inr bytes \<Longrightarrow> current_state c a p (Some bytes)"
  by (auto simp: codecs_ok_def current_state_def new_state_def)

lemma state_put_done: "state_put c p j old d \<Longrightarrow> installed c p old (d_journal_update (\<lambda>_. None) d)"
  by (auto simp: installed_def put_defs Let_def)

lemma triple_publish:
  fixes p c j old oth
  defines "a \<equiv> m_id (pp_manifest p)"
  assumes "codecs_ok c"
    and bytes: "materialize_manifest_bytes c (pp_manifest_bytes p) a (b_content_id (pp_bundle p)) = Inr bytes"
  shows "triple (within a oth (\<lambda>d st. pending c a j old d \<and> releases_ok c p old (d_releases d)))
     (publish c a p previous bytes)
     (\<lambda>_. within a oth (\<lambda>d _. installed c p old d))
     (within a oth (\<lambda>d _. pending c a j old d \<or> installed c p old d))"
proof -
  let ?W = "within a oth"
  let ?R = "?W (\<lambda>d _. pending c a j old d \<or> installed c p old d)"
  have manifest: "triple (?W (\<lambda>d st. pending c a j old d \<and> releases_ok c p old (d_releases d)))
      (write_manifest a bytes) (\<lambda>_. ?W (\<lambda>d _. manifest_put c p j old d)) ?R"
    unfolding write_manifest_def
    by (rule triple_update) (use bytes in \<open>auto simp: put_defs a_def\<close>)
  have link: "triple (?W (\<lambda>d _. manifest_put c p j old d)) (write_link a (path_join ''releases'' (b_content_id (pp_bundle p))))
      (\<lambda>_. ?W (\<lambda>d _. link_put c p j old d)) ?R"
    unfolding write_link_def by (rule triple_update) (auto simp: put_defs a_def)
  have state: "triple (?W (\<lambda>d _. link_put c p j old d)) (write_state a tx) (\<lambda>_. ?W (\<lambda>d _. state_put c p j old d)) ?R"
    if "c_state_text c (new_state a p previous) = Inr tx" for tx
    unfolding write_state_def
    by (rule triple_update) (use new_state_current [OF assms(2) that] in \<open>auto simp: put_defs a_def\<close>)
  have journal: "triple (?W (\<lambda>d _. state_put c p j old d)) (remove_journal a) (\<lambda>_. ?W (\<lambda>d _. installed c p old d)) ?R"
    unfolding remove_journal_def remove_optional_journal_def
    by (rule triple_seq, rule triple_present [where Q = "\<lambda>_. ?W (\<lambda>d _. state_put c p j old d)"])
      (auto intro!: triple_update state_put_done elim!: within_mono simp: put_defs a_def)
  show ?thesis
    unfolding publish_def
  proof (intro triple_seq [OF manifest] triple_seq [OF link], cases "c_state_text c (new_state a p previous)")
    case (Inl e)
    then show "triple (?W (\<lambda>d _. link_put c p j old d))
      (io_bind (io_of (map_err P_State (c_state_text c (new_state a p previous)))) (\<lambda>bytes.
         io_seq (write_state a bytes) (remove_journal a))) (\<lambda>_. ?W (\<lambda>d _. installed c p old d)) ?R"
      by (auto simp: triple_def io_bind_def io_of_def map_err_def put_defs a_def elim!: within_mono)
  next
    case (Inr tx)
    have "triple (?W (\<lambda>d _. link_put c p j old d)) (io_seq (write_state a tx) (remove_journal a))
        (\<lambda>_. ?W (\<lambda>d _. installed c p old d)) ?R"
      by (rule triple_seq [OF state [OF Inr] journal])
    then show "triple (?W (\<lambda>d _. link_put c p j old d))
      (io_bind (io_of (map_err P_State (c_state_text c (new_state a p previous)))) (\<lambda>bytes.
         io_seq (write_state a bytes) (remove_journal a))) (\<lambda>_. ?W (\<lambda>d _. installed c p old d)) ?R"
      by (simp add: Inr triple_def io_bind_def io_of_def map_err_def)
  qed
qed

text \<open>Removing stale releases keeps the two that count.\<close>

lemma installed_release:
  assumes "installed c p old d" "n \<noteq> b_content_id (pp_bundle p)"
    and "\<And>v. previous_of c old = Some v \<Longrightarrow> v \<noteq> b_content_id (pp_bundle p) \<Longrightarrow> n \<noteq> v"
    and "\<And>m. m \<noteq> n \<Longrightarrow> map_of (f (d_releases d)) m = map_of (d_releases d) m"
  shows "installed c p old (d_releases_update f d)"
  using assms by (auto simp: installed_def Let_def releases_ok_def)

lemma triple_remove_other:
  assumes "n \<noteq> b_content_id (pp_bundle p)" "\<And>v. previous_of c old = Some v \<Longrightarrow> v \<noteq> b_content_id (pp_bundle p) \<Longrightarrow> n \<noteq> v"
  shows "triple (within a oth (\<lambda>d _. installed c p old d)) (remove_release a n)
    (\<lambda>_. within a oth (\<lambda>d _. installed c p old d)) (within a oth (\<lambda>d _. installed c p old d))"
  unfolding remove_release_def
  by (rule triple_tree) (blast intro: installed_release [OF _ assms] map_of_leave | simp add: installed_release [OF _ assms] map_of_without map_of_leave)+

lemma triple_remove_stale:
  "triple (within a oth (\<lambda>d _. installed c p old d)) (remove_stale_releases a (new_state a p (previous_of c old)))
    (\<lambda>_. within a oth (\<lambda>d _. installed c p old d)) (within a oth (\<lambda>d _. installed c p old d))"
proof -
  let ?I = "within a oth (\<lambda>d _. installed c p old d)"
  have names: "triple ?I (reading (io_error ''releases'') (\<lambda>s. map fst (d_releases (s_app s a)))) (\<lambda>_. ?I) ?I"
    by (rule triple_reading [where P = ?I and Q = "\<lambda>_. ?I" and R = ?I]) simp_all
  show ?thesis
    unfolding remove_stale_releases_def
  proof (rule triple_bind [OF names])
    fix names
    show "triple ?I (for_all (remove_release a)
        (filter (\<lambda>n. n \<noteq> is_current (new_state a p (previous_of c old))
          \<and> is_previous (new_state a p (previous_of c old)) \<noteq> Some n) names)) (\<lambda>_. ?I) ?I"
    proof (rule triple_for_all [where P = ?I and R = ?I], rule triple_remove_other, goal_cases)
      case (1 n)
      then show ?case by (simp add: new_state_def)
    next
      case (2 n v)
      then show ?case by (auto simp: new_state_def)
    qed
  qed
qed

text \<open>The two installations.\<close>

lemma triple_remove_stage:
  "triple (within a oth (\<lambda>d _. D d)) remove_stage (\<lambda>_. within a oth (\<lambda>d _. D d)) (within a oth (\<lambda>d _. D d))"
  unfolding remove_stage_def by (rule triple_atomically) (auto simp: within_def)

lemma triple_publish_existing:
  fixes p c j old oth
  defines "a \<equiv> m_id (pp_manifest p)"
  assumes "codecs_ok c"
  shows "triple (within a oth (\<lambda>d st. pending c a j old d \<and> releases_ok c p old (d_releases d)))
     (publish_existing_install c a p (previous_of c old))
     (\<lambda>_. within a oth (\<lambda>d _. installed c p old d))
     (within a oth (\<lambda>d _. pending c a j old d \<or> installed c p old d))"
proof (cases "materialize_manifest_bytes c (pp_manifest_bytes p) a (b_content_id (pp_bundle p))")
  case (Inl e)
  then show ?thesis
    by (auto simp: triple_def publish_existing_install_def io_bind_def io_of_def elim!: within_mono)
next
  case (Inr bytes)
  let ?I = "within a oth (\<lambda>d _. installed c p old d)"
  let ?R = "within a oth (\<lambda>d _. pending c a j old d \<or> installed c p old d)"
  have weak: "triple P m Q ?I \<Longrightarrow> triple P m Q ?R" for P Q and m :: "'x action"
    by (erule triple_weaken) (auto elim!: within_mono)
  have "triple (within a oth (\<lambda>d st. pending c a j old d \<and> releases_ok c p old (d_releases d)))
     (io_seq (publish c a p (previous_of c old) bytes)
     (io_seq remove_stage
     (io_seq (remove_stale_releases a (new_state a p (previous_of c old)))
        (pure (install_result a p (previous_of c old)))))) (\<lambda>_. ?I) ?R"
    unfolding a_def
    by (rule triple_seq [OF triple_publish [OF assms(2) Inr [unfolded a_def]]],
        rule triple_seq [OF weak [unfolded a_def, OF triple_remove_stage]],
        rule triple_seq [OF weak [unfolded a_def, OF triple_remove_stale]], rule triple_pure)
  then show ?thesis
    by (simp add: publish_existing_install_def Inr triple_def io_bind_def io_of_def)
qed

lemma triple_move_stage:
  assumes "\<not> j_preexisted j" "j_target j = n" "map_of rs n = None"
  shows "triple (within a oth (\<lambda>d st. pending c a j old d \<and> d_releases d = rs \<and> st = Some t)) (move_stage a n)
    (\<lambda>_. within a oth (\<lambda>d _. pending c a j old d \<and> d_releases d = rs @ [(n, t)]))
    (within a oth (\<lambda>d _. pending c a j old d))"
proof -
  have "pending c a j old (d_releases_update (\<lambda>rs. rs @ [(n, t)]) d)" if "pending c a j old d" for d
    using that assms by (simp add: pending_release)
  then show ?thesis
    unfolding move_stage_def
    by (intro triple_seq [where Q = "within a oth (\<lambda>d st. pending c a j old d \<and> d_releases d = rs \<and> st = Some t)"]
        triple_present triple_atomically) (auto simp: within_def on_app_def)
qed

lemma triple_lock_release:
  assumes "\<not> j_preexisted j" "j_target j = n" "map_of rs n = None"
  shows "triple (within a oth (\<lambda>d _. pending c a j old d \<and> d_releases d = rs @ [(n, t)])) (lock_release a n)
    (\<lambda>_. within a oth (\<lambda>d _. pending c a j old d \<and> (\<exists>u. make_read_only t = Inr u \<and> d_releases d = rs @ [(n, u)])))
    (within a oth (\<lambda>d _. pending c a j old d))"
proof -
  let ?P = "within a oth (\<lambda>d _. pending c a j old d \<and> d_releases d = rs @ [(n, t)])"
  let ?f = "\<lambda>u. map (\<lambda>(m, v). (m, if m = n then u else v))"
  have keep: "pending c a j old (d_releases_update (?f u) d)" if "pending c a j old d" for u d
    using that assms by (simp add: pending_release)
  have same: "map (\<lambda>(m, v). (m, if m = n then u else v)) rs = rs" for u
    using assms(3) by (intro map_idI) (auto simp: map_of_eq_None_iff image_iff)
  have look: "triple ?P (looking (\<lambda>s. make_read_only (release_of a n s))) (\<lambda>r. if r = make_read_only t then ?P else (\<lambda>_. False)) R" for R
    using assms(3) by (auto simp: triple_def looking_def within_def release_of_def map_add_def split: option.splits)
  show ?thesis
    unfolding lock_release_def
  proof (rule triple_bind [OF look])
    fix r
    show "triple (if r = make_read_only t then ?P else (\<lambda>_. False))
      (case r of
         Inl p \<Rightarrow> io_of (Inl (P_UnsafePath p))
       | Inr t \<Rightarrow>
           syscall (io_error ''releases'') (set_release a n t)
             (\<lambda>_ left. case map_of left n of None \<Rightarrow> (\<lambda>s. s) | Some u \<Rightarrow> set_release a n u))
      (\<lambda>_. within a oth (\<lambda>d _. pending c a j old d \<and> (\<exists>u. make_read_only t = Inr u \<and> d_releases d = rs @ [(n, u)])))
      (within a oth (\<lambda>d _. pending c a j old d))"
    proof (cases "r = make_read_only t")
      case True
      show ?thesis
      proof (cases r)
        case (Inl e)
        show ?thesis
          unfolding if_P [OF True] unfolding Inl sum.case
          by (rule triple_io_of) (auto elim!: within_mono)
      next
        case (Inr u)
        show ?thesis
          unfolding if_P [OF True] unfolding Inr sum.case
          by (rule triple_syscall)
            (use Inr True in \<open>auto simp: set_release_def same keep split: option.splits elim!: within_mono\<close>)
      qed
    qed (simp add: triple_def)
  qed
qed

lemma triple_publish_install:
  fixes p c old oth
  defines "a \<equiv> m_id (pp_manifest p)" and "cid \<equiv> b_content_id (pp_bundle p)"
  assumes "codecs_ok c" and j: "\<not> j_preexisted j" "j_target j = cid" and fresh: "map_of (d_releases old) cid = None"
  shows "triple (within a oth (\<lambda>d st. pending c a j old d \<and> d_releases d = d_releases old \<and> st = Some (pp_stage p)))
     (publish_install c a p (previous_of c old))
     (\<lambda>_. within a oth (\<lambda>d _. installed c p old d))
     (within a oth (\<lambda>d _. pending c a j old d \<or> installed c p old d))"
proof (cases "materialize_manifest_bytes c (pp_manifest_bytes p) a cid")
  case (Inl e)
  then show ?thesis
    by (auto simp: triple_def publish_install_def io_bind_def io_of_def cid_def elim!: within_mono)
next
  case (Inr bytes)
  let ?I = "within a oth (\<lambda>d _. installed c p old d)" and ?P = "within a oth (\<lambda>d _. pending c a j old d)"
  let ?R = "within a oth (\<lambda>d _. pending c a j old d \<or> installed c p old d)"
  have weak: "triple P m Q ?I \<Longrightarrow> triple P m Q ?R" "triple P m Q ?P \<Longrightarrow> triple P m Q ?R" for P Q and m :: "'x action"
    by (erule triple_weaken; auto elim!: within_mono)+
  have ready: "releases_ok c p old (d_releases old @ [(cid, u)])" if "make_read_only (pp_stage p) = Inr u" for u
    using that fresh by (auto simp: releases_ok_def cid_def map_add_def split: option.splits)
  have locked: "triple (within a oth (\<lambda>d _. pending c a j old d \<and> d_releases d = d_releases old @ [(cid, pp_stage p)]))
      (lock_release a cid) (\<lambda>_. within a oth (\<lambda>d _. pending c a j old d \<and> releases_ok c p old (d_releases d))) ?R"
    by (rule triple_weaken [OF triple_lock_release [OF j fresh]]) (auto elim!: within_mono simp: ready)
  have "triple (within a oth (\<lambda>d st. pending c a j old d \<and> d_releases d = d_releases old \<and> st = Some (pp_stage p)))
     (io_seq (move_stage a cid)
     (io_seq (lock_release a cid)
     (io_seq (publish c a p (previous_of c old) bytes)
     (io_seq (remove_stale_releases a (new_state a p (previous_of c old)))
        (pure (install_result a p (previous_of c old))))))) (\<lambda>_. ?I) ?R"
    by (rule triple_seq [OF weak(2) [OF triple_move_stage [OF j fresh]]], rule triple_seq [OF locked],
        rule triple_seq [OF triple_publish [OF assms(3) Inr [unfolded a_def cid_def], folded a_def]],
        rule triple_seq [OF weak(1) [OF triple_remove_stale]], rule triple_pure)
  then show ?thesis
    by (simp add: publish_install_def Inr [unfolded cid_def] triple_def io_bind_def io_of_def cid_def)
qed

section \<open>Recovering\<close>

definition settled :: "codecs \<Rightarrow> prepared_package \<Rightarrow> app_disk \<Rightarrow> app_disk \<Rightarrow> bool" where
  "settled c p old d =
     (d = old \<or> installed c p old d \<or> (\<exists>j. pending c (m_id (pp_manifest p)) j old d))"

lemma triple_ex:
  assumes "\<And>j. triple (within a oth (\<lambda>d st. D j d st)) m Q R"
  shows "triple (within a oth (\<lambda>d st. \<exists>j. D j d st)) m Q R"
  using assms by (fastforce simp: triple_def within_def)

lemma triple_or:
  "triple (within a oth D) m Q R \<Longrightarrow> triple (within a oth E) m Q R
    \<Longrightarrow> triple (within a oth (\<lambda>d st. D d st \<or> E d st)) m Q R"
  by (fastforce simp: triple_def within_def)

lemma recover_nothing:
  assumes "\<And>d. D d \<Longrightarrow> d_journal d = None"
  shows "triple (within a oth (\<lambda>d _. D d)) (recover_journal c a) Q (within a oth (\<lambda>d _. D d))"
proof -
  have "triple (within a oth (\<lambda>d _. D d)) (read_bytes (\<lambda>s. d_journal (s_app s a))) (\<lambda>_ _. False) (within a oth (\<lambda>d _. D d))"
    unfolding read_bytes_def
    by (rule triple_bind [OF triple_read_app [where R = "\<lambda>d _. D d"]])
      (auto simp: triple_def within_def io_of_def assms)
  then show ?thesis
    unfolding recover_journal_def by (rule triple_bind) (simp add: triple_def)
qed

lemma recover_settled:
  assumes "d_journal old = None" "a = m_id (pp_manifest p)"
  shows "triple (within a oth (\<lambda>d _. settled c p old d)) (recover_journal c a)
    (\<lambda>_. within a oth (\<lambda>d _. d = old \<or> installed c p old d)) (within a oth (\<lambda>d _. settled c p old d))"
proof -
  let ?Q = "\<lambda>_. within a oth (\<lambda>d _. d = old \<or> installed c p old d)" and ?R = "within a oth (\<lambda>d _. settled c p old d)"
  have "triple (within a oth (\<lambda>d _. d = old \<or> installed c p old d)) (recover_journal c a) ?Q ?R"
    by (rule triple_weaken [OF recover_nothing [where D = "\<lambda>d. d = old \<or> installed c p old d"]])
      (use assms in \<open>auto elim!: within_mono simp: settled_def installed_def Let_def\<close>)
  moreover have "triple (within a oth (\<lambda>d _. \<exists>j. pending c a j old d)) (recover_journal c a) ?Q ?R"
    by (rule triple_ex, rule triple_weaken [OF recover_pending]) (use assms in \<open>auto elim!: within_mono simp: settled_def\<close>)
  ultimately have "triple (within a oth (\<lambda>d _. (d = old \<or> installed c p old d) \<or> (\<exists>j. pending c a j old d)))
      (recover_journal c a) ?Q ?R"
    by (rule triple_or)
  then show ?thesis by (simp add: settled_def assms(2) disj_assoc)
qed

lemma recover_for_settled:
  assumes "d_journal old = None" "a = m_id (pp_manifest p)"
  shows "triple (within a oth (\<lambda>d _. settled c p old d)) (recover_for c a)
    (\<lambda>_. within a oth (\<lambda>d _. d = old \<or> installed c p old d)) (within a oth (\<lambda>d _. settled c p old d))"
proof -
  have none: "d = old \<or> installed c p old d" if "settled c p old d" "d_journal d = None" for d
    using that by (auto simp: settled_def pending_def journaled_def)
  show ?thesis
    unfolding triple_def
  proof (intro allI impI)
    fix s assume s: "within a oth (\<lambda>d _. settled c p old d) s"
    show "case recover_for c a s of (Done x, t) \<Rightarrow> within a oth (\<lambda>d _. d = old \<or> installed c p old d) t
        | (_, t) \<Rightarrow> within a oth (\<lambda>d _. settled c p old d) t"
    proof (cases "d_journal (s_app s a) = None")
      case True
      with s none show ?thesis
        by (auto simp: recover_for_def io_bind_def looking_def pure_def within_def)
    next
      case False
      with s recover_settled [OF assms, of oth c] show ?thesis
        by (simp add: recover_for_def io_bind_def looking_def triple_def split: outcome.splits prod.splits)
    qed
  qed
qed

lemma recover_for_finishes:
  assumes "d_journal old = None" "a = m_id (pp_manifest p)" "settled c p old (s_app s a)" "s_faults s = []"
  shows "fst (recover_for c a s) = Done ()"
proof (cases "d_journal (s_app s a) = None")
  case True
  then show ?thesis by (simp add: recover_for_def io_bind_def looking_def pure_def)
next
  case False
  with assms(1-3) obtain j where "pending c a j old (s_app s a)"
    by (auto simp: settled_def installed_def Let_def)
  with recover_pending_finishes [OF this assms(4)] False show ?thesis
    by (cases "recover_journal c a s") (simp add: recover_for_def io_bind_def looking_def split: outcome.splits)
qed

lemma triple_or_recover:
  assumes "d_journal old = None" "a = m_id (pp_manifest p)"
    and "triple P m Q (within a oth (\<lambda>d _. settled c p old d))"
  shows "triple P (or_recover c a m) Q (within a oth (\<lambda>d _. settled c p old d))"
proof -
  have post: "within a oth (\<lambda>d _. settled c p old d) u"
    if "within a oth (\<lambda>d _. settled c p old d) t" "recover_journal c a t = (r, u)" for t r u
    using that recover_settled [OF assms(1,2), of oth c]
    by (cases r) (force simp: triple_def settled_def elim!: within_mono split: outcome.splits prod.splits)+
  show ?thesis
    using assms(3)
    by (fastforce simp: triple_def or_recover_def ignoring_result_def dest: post split: outcome.splits prod.splits)
qed

section \<open>Installing\<close>

text \<open>Actions on the application's data touch neither its installation nor the staging directory.\<close>

definition quiet :: "'a action \<Rightarrow> bool" where
  "quiet m = (\<forall>s. s_app (snd (m s)) = s_app s \<and> s_stage (snd (m s)) = s_stage s)"

lemma quiet_bind: "quiet m \<Longrightarrow> (\<And>x. quiet (f x)) \<Longrightarrow> quiet (io_bind m f)"
  by (auto simp: quiet_def io_bind_def split: prod.splits outcome.splits) (metis snd_conv)+

lemma quiet_seq: "quiet m \<Longrightarrow> quiet n \<Longrightarrow> quiet (io_seq m n)"
  unfolding io_seq_def by (rule quiet_bind)

lemma quiet_of: "quiet (io_of r)" "quiet (pure x)" "quiet (looking f)"
  by (auto simp: quiet_def io_of_def pure_def looking_def split: sum.splits)

lemma quiet_atomically:
  "(\<And>s. s_app (eff s) = s_app s \<and> s_stage (eff s) = s_stage s) \<Longrightarrow> quiet (atomically e eff)"
  by (auto simp: quiet_def atomically_def syscall_def split: list.splits fault.splits progress.splits)

lemma quiet_reading: "quiet (reading e f)"
  unfolding reading_def by (intro quiet_bind quiet_atomically quiet_of) simp

lemma quiet_reading_ok: "quiet (reading_ok f)"
  unfolding quiet_def
proof
  fix s
  have "s_app (snd (reading P_ArchiveLimit f s)) = s_app s \<and> s_stage (snd (reading P_ArchiveLimit f s)) = s_stage s"
    using quiet_reading [of P_ArchiveLimit f] unfolding quiet_def by blast
  then show "s_app (snd (reading_ok f s)) = s_app s \<and> s_stage (snd (reading_ok f s)) = s_stage s"
    by (auto simp: reading_ok_def split: prod.splits outcome.splits)
qed

lemma quiet_for_all: "(\<And>x. quiet (f x)) \<Longrightarrow> quiet (for_all f xs)"
  by (induction xs) (auto intro: quiet_of quiet_seq)

lemma quiet_data: "quiet (ensure_application_directories m)"
proof -
  have "quiet (create_data q)" for q
    unfolding create_data_def
    by (auto intro!: quiet_bind quiet_of quiet_atomically split: option.split data_node.split)
  then show ?thesis
    unfolding ensure_application_directories_def ensure_directory_def
    by (intro quiet_for_all quiet_seq quiet_bind quiet_of quiet_reading quiet_atomically) simp_all
qed

lemma triple_quiet: "quiet m \<Longrightarrow> triple (within a oth D) m (\<lambda>_. within a oth D) (within a oth D)"
  unfolding triple_def
proof (intro allI impI)
  fix s assume "quiet m" and s: "within a oth D s"
  then have "within a oth D (snd (m s))" by (simp add: quiet_def within_def)
  then show "case m s of (Done x, t) \<Rightarrow> within a oth D t | (_, t) \<Rightarrow> within a oth D t"
    by (cases "m s"; cases "fst (m s)") simp_all
qed

lemma triple_prepare_paths:
  "triple (within a oth (\<lambda>d st. d = d0 \<and> st = stage)) (prepare_install_paths a p)
    (\<lambda>_. within a oth (\<lambda>d st. d = d0\<lparr>d_home := True\<rparr> \<and> st = stage))
    (within a oth (\<lambda>d _. d = d0 \<or> d = d0\<lparr>d_home := True\<rparr>))"
proof -
  let ?O = "within a oth (\<lambda>d st. d = d0 \<and> st = stage)"
  let ?R = "within a oth (\<lambda>d _. d = d0 \<or> d = d0\<lparr>d_home := True\<rparr>)"
  have quiet: "triple ?O m (\<lambda>_. ?O) ?R" if "quiet m" for m :: "unit action"
    by (rule triple_weaken [OF triple_quiet [OF that, where D = "\<lambda>d st. d = d0 \<and> st = stage"]])
      (auto elim!: within_mono)
  have roots: "quiet (for_all (\<lambda>r. atomically (io_error r) (\<lambda>s. s)) rs)" for rs
    by (intro quiet_for_all quiet_atomically) simp
  show ?thesis
    unfolding prepare_install_paths_def
    by (rule triple_seq [OF quiet [OF roots]], rule triple_seq [OF quiet [OF quiet_data]], rule triple_update) auto
qed

lemma settled_home:
  "coherent c (d\<lparr>d_home := h\<rparr>) = coherent c d" "previous_of c (d\<lparr>d_home := h\<rparr>) = previous_of c d"
  by (simp_all add: coherent_def previous_of_def split: option.split sum.split)

text \<open>The state that \<open>read_state\<close> returns.\<close>

definition valid_state :: "codecs \<Rightarrow> app_id \<Rightarrow> app_disk \<Rightarrow> installed_state \<Rightarrow> bool" where
  "valid_state c a d st =
     (\<exists>tx. d_state d = Some tx \<and> c_state_of c tx = Inr st \<and> is_schema st = PACKAGE_STATE_SCHEMA_V1
        \<and> is_app_id st = as_str a)"

lemma triple_read_state:
  assumes "\<And>d st. D d st \<Longrightarrow> R d st"
  shows "triple (within a oth D) (read_state c a) (\<lambda>x. within a oth (\<lambda>d st. D d st \<and> valid_state c a d x)) (within a oth R)"
proof -
  have "triple (within a oth D) (read_text (\<lambda>s. d_state (s_app s a)))
      (\<lambda>tx. within a oth (\<lambda>d st. D d st \<and> d_state d = Some tx)) (within a oth R)"
    unfolding read_text_def
    by (rule triple_bind [OF triple_read_app [where D = D and R = R]])
      (auto simp: triple_def within_def io_of_def assms from_utf8_def split: option.splits if_splits bind_splits)
  then show ?thesis
    unfolding read_state_def
    by (rule triple_bind)
      (auto simp: triple_def within_def io_of_def io_bind_def map_err_def valid_state_def assms
        split: sum.splits)
qed

lemma triple_finish_existing:
  fixes p oth
  defines "a \<equiv> m_id (pp_manifest p)" and "cid \<equiv> b_content_id (pp_bundle p)"
  assumes "codecs_ok c" "app_id_new (as_str a) = Inr a" "coherent c old" "map_of (d_releases old) cid \<noteq> None"
  shows "triple (within a oth (\<lambda>d st. d = old \<and> st = stage)) (finish_existing_install digest c a p)
    (\<lambda>_. within a oth (\<lambda>d _. installed c p old d)) (within a oth (\<lambda>d _. settled c p old d))"
proof -
  let ?O = "within a oth (\<lambda>d st. d = old \<and> st = stage)"
  let ?I = "within a oth (\<lambda>d _. installed c p old d)" and ?R = "within a oth (\<lambda>d _. settled c p old d)"
  let ?j = "opened c a p True old"
  have old: "d_journal old = None" using assms(5) by (simp add: coherent_def)
  have quiet: "triple ?O m (\<lambda>_. ?O) ?R" if "quiet m" for m :: "'x action"
    by (rule triple_weaken [OF triple_quiet [OF that, where D = "\<lambda>d st. d = old \<and> st = stage"]])
      (auto elim!: within_mono simp: settled_def)
  have releases: "releases_ok c p old (d_releases old)"
    using assms(6) by (auto simp: releases_ok_def cid_def)
  have current: "triple ?O
      (io_bind (io_of (materialize_manifest_bytes c (pp_manifest_bytes p) a cid)) (\<lambda>bytes.
       io_seq (write_manifest a bytes) (io_seq remove_stage (pure out)))) (\<lambda>_. ?I) ?R"
    if st: "valid_state c a old x" "is_current_install p x linked" for x linked and out :: install_outcome
  proof (cases "materialize_manifest_bytes c (pp_manifest_bytes p) a cid")
    case (Inl e)
    then show ?thesis
      by (auto simp: triple_def io_bind_def io_of_def settled_def elim!: within_mono)
  next
    case (Inr bytes)
    have "d_link old = Some (path_join ''releases'' cid)"
      using st assms(5) by (auto simp: coherent_def valid_state_def is_current_install_def state_matches_def cid_def)
    moreover have "current_state c a p (d_state old)"
      using st by (auto simp: current_state_def valid_state_def is_current_install_def state_matches_def)
    ultimately have inst: "installed c p old (d_manifest_update (\<lambda>_. Some bytes) old)"
      using Inr old releases by (simp add: installed_def Let_def a_def cid_def)
    have manifest: "triple ?O (write_manifest a bytes) (\<lambda>_. ?I) ?R"
      unfolding write_manifest_def by (rule triple_update) (auto simp: settled_def inst)
    have stage: "triple ?I remove_stage (\<lambda>_. ?I) ?R"
      by (rule triple_weaken [OF triple_remove_stage [where D = "installed c p old"]]) (auto elim!: within_mono simp: settled_def)
    have "triple ?O (io_seq (write_manifest a bytes) (io_seq remove_stage (pure out))) (\<lambda>_. ?I) ?R"
      by (rule triple_seq [OF manifest], rule triple_seq [OF stage], rule triple_pure)
    then show ?thesis by (simp add: Inr triple_def io_bind_def io_of_def)
  qed
  have publish: "triple ?O (io_bind (begin_install c a p True) (\<lambda>previous.
      or_recover c a (publish_existing_install c a p previous))) (\<lambda>_. ?I) ?R"
  proof (rule triple_bind)
    show "triple ?O (begin_install c a p True)
      (\<lambda>previous. within a oth (\<lambda>d st. (pending c a ?j old d \<and> d_releases d = d_releases old \<and> st = stage)
          \<and> previous = previous_of c old)) ?R"
      by (rule triple_weaken [OF triple_begin [OF assms(3-5) _ refl]])
        (auto elim!: within_mono simp: settled_def a_def)
    fix previous
    have "triple (within a oth (\<lambda>d st. pending c a ?j old d \<and> releases_ok c p old (d_releases d)))
        (publish_existing_install c a p (previous_of c old)) (\<lambda>_. ?I) ?R"
      by (rule triple_weaken [OF triple_publish_existing [OF assms(3), where p = p and j = ?j and old = old and oth = oth, folded a_def]])
        (auto elim!: within_mono simp: settled_def a_def)
    then have "triple (within a oth (\<lambda>d st. pending c a ?j old d \<and> d_releases d = d_releases old \<and> st = stage))
        (publish_existing_install c a p (previous_of c old)) (\<lambda>_. ?I) ?R"
      by (rule triple_weaken) (auto elim!: within_mono simp: releases)
    from triple_or_recover [OF old a_def [THEN meta_eq_to_obj_eq] this]
    show "triple (within a oth (\<lambda>d st. (pending c a ?j old d \<and> d_releases d = d_releases old \<and> st = stage)
          \<and> previous = previous_of c old))
        (or_recover c a (publish_existing_install c a p previous)) (\<lambda>_. ?I) ?R"
      by (intro triple_fact) simp
  qed
  have content: "quiet (if state_matches p x then current_content_id a else pure None)" for x
    unfolding current_content_id_def by (simp add: quiet_reading_ok quiet_of)
  show ?thesis
    unfolding finish_existing_install_def Let_def cid_def [symmetric]
  proof (rule triple_bind [OF triple_read_state [where R = "\<lambda>d _. settled c p old d"]], simp add: settled_def, rule triple_bind)
    fix x linked
    show "triple (within a oth (\<lambda>d st. (d = old \<and> st = stage) \<and> valid_state c a d x))
      (if state_matches p x then current_content_id a else pure None)
      (\<lambda>_. within a oth (\<lambda>d st. (d = old \<and> st = stage) \<and> valid_state c a old x)) ?R"
      by (rule triple_weaken [OF triple_quiet [OF content, where D = "\<lambda>d st. (d = old \<and> st = stage) \<and> valid_state c a d x"]])
        (auto elim!: within_mono simp: settled_def)
    have other: "triple ?O (io_bind (reading (io_error ''releases'') (release_of a cid)) (\<lambda>release.
          io_seq (io_of (verify_installed_release digest release (pp_stage p) (pp_bundle p)))
         (io_bind (begin_install c a p True) (\<lambda>previous.
            or_recover c a (publish_existing_install c a p previous))))) (\<lambda>_. ?I) ?R"
      by (rule triple_bind [OF quiet [OF quiet_reading]], rule triple_seq [OF quiet [OF quiet_of(1)] publish])
    show "triple (within a oth (\<lambda>d st. (d = old \<and> st = stage) \<and> valid_state c a old x))
      (if is_current_install p x linked then
          io_bind (io_of (materialize_manifest_bytes c (pp_manifest_bytes p) a cid)) (\<lambda>bytes.
          io_seq (write_manifest a bytes)
         (io_seq remove_stage
            (pure \<lparr>io_app_id = a, io_version = is_version x, io_content_id = is_current x,
                   io_previous = is_previous x\<rparr>)))
        else
          io_bind (reading (io_error ''releases'') (release_of a cid)) (\<lambda>release.
          io_seq (io_of (verify_installed_release digest release (pp_stage p) (pp_bundle p)))
         (io_bind (begin_install c a p True) (\<lambda>previous.
            or_recover c a (publish_existing_install c a p previous))))) (\<lambda>_. ?I) ?R"
      using current other by (intro triple_fact) simp
  qed
qed

lemma installed_home [simp]: "installed c p (d\<lparr>d_home := h\<rparr>) = installed c p d"
  by (rule ext) (simp add: installed_def releases_ok_def settled_home Let_def)

text \<open>The whole of \<open>install\<close>, from the files \<open>d0\<close>.\<close>

lemma triple_install_at:
  fixes p oth d0
  defines "a \<equiv> m_id (pp_manifest p)" and "old \<equiv> d0\<lparr>d_home := True\<rparr>"
  assumes "codecs_ok c" "app_id_new (as_str a) = Inr a" "coherent c d0"
  shows "triple (within a oth (\<lambda>d st. d = d0 \<and> st = Some (pp_stage p))) (install_at digest c p)
    (\<lambda>_. within a oth (\<lambda>d _. installed c p d0 d)) (within a oth (\<lambda>d _. d = d0 \<or> settled c p old d))"
proof -
  let ?cid = "b_content_id (pp_bundle p)"
  let ?S = "\<lambda>d. within a oth (\<lambda>e st. e = d \<and> st = Some (pp_stage p))"
  let ?I = "within a oth (\<lambda>d _. installed c p old d)" and ?R = "within a oth (\<lambda>d _. d = d0 \<or> settled c p old d)"
  have coh: "coherent c old" using assms(5) by (simp add: old_def settled_home)
  then have none: "d_journal old = None" "d_journal d0 = None" by (simp_all add: coherent_def old_def)
  have recover: "triple (?S d0) (recover_for c a) (\<lambda>_. ?S d0) ?R"
    using none by (auto simp: triple_def recover_for_def io_bind_def looking_def pure_def within_def)
  have paths: "triple (?S d0) (prepare_install_paths a p) (\<lambda>_. ?S old) ?R"
    by (rule triple_weaken [OF triple_prepare_paths]) (auto elim!: within_mono simp: old_def settled_def)
  have look: "triple (?S old) (looking (\<lambda>s. map_of (d_releases (s_app s a)) ?cid \<noteq> None))
      (\<lambda>x. within a oth (\<lambda>d st. (d = old \<and> st = Some (pp_stage p)) \<and> x = (map_of (d_releases old) ?cid \<noteq> None))) ?R"
    by (rule triple_looking) (auto simp: within_def)
  have existing: "triple (?S old) (finish_existing_install digest c a p) (\<lambda>_. ?I) ?R"
    if "map_of (d_releases old) ?cid \<noteq> None"
    by (rule triple_weaken [OF triple_finish_existing [OF assms(3) assms(4) [unfolded a_def] coh that,
          where oth = oth and stage = "Some (pp_stage p)", folded a_def]]) (auto elim!: within_mono)
  have fresh: "triple (?S old) (io_bind (begin_install c a p False) (\<lambda>previous.
      or_recover c a (publish_install c a p previous))) (\<lambda>_. ?I) ?R"
    if absent: "map_of (d_releases old) ?cid = None"
  proof (rule triple_bind)
    let ?j = "opened c a p False old"
    show "triple (?S old) (begin_install c a p False)
      (\<lambda>previous. within a oth (\<lambda>d st. (pending c a ?j old d \<and> d_releases d = d_releases old \<and> st = Some (pp_stage p))
          \<and> previous = previous_of c old)) ?R"
      by (rule triple_weaken [OF triple_begin [OF assms(3,4) coh absent refl, where oth = oth and stage = "Some (pp_stage p)"]])
        (auto elim!: within_mono simp: settled_def a_def)
    fix previous
    have "triple (within a oth (\<lambda>d st. pending c a ?j old d \<and> d_releases d = d_releases old \<and> st = Some (pp_stage p)))
        (publish_install c a p (previous_of c old)) (\<lambda>_. ?I) (within a oth (\<lambda>d _. settled c p old d))"
      by (rule triple_weaken [OF triple_publish_install [OF assms(3), where p = p and j = ?j and old = old and oth = oth, folded a_def]])
        (auto elim!: within_mono simp: settled_def a_def opened_def absent)
    from triple_or_recover [OF none(1) a_def [THEN meta_eq_to_obj_eq] this]
    have "triple (within a oth (\<lambda>d st. pending c a ?j old d \<and> d_releases d = d_releases old \<and> st = Some (pp_stage p)))
        (or_recover c a (publish_install c a p (previous_of c old))) (\<lambda>_. ?I) ?R"
      by (rule triple_weaken) (auto elim!: within_mono)
    then show "triple (within a oth (\<lambda>d st. (pending c a ?j old d \<and> d_releases d = d_releases old \<and> st = Some (pp_stage p))
          \<and> previous = previous_of c old))
        (or_recover c a (publish_install c a p previous)) (\<lambda>_. ?I) ?R"
      by (intro triple_fact) simp
  qed
  have "triple (?S d0) (install_at digest c p) (\<lambda>_. ?I) ?R"
    unfolding install_at_def Let_def a_def [symmetric]
  proof (rule triple_seq [OF recover], rule triple_seq [OF paths], rule triple_bind [OF look], rule triple_fact)
    fix x assume "x = (map_of (d_releases old) ?cid \<noteq> None)"
    then show "triple (?S old) (if x then finish_existing_install digest c a p
        else io_bind (begin_install c a p False) (\<lambda>previous. or_recover c a (publish_install c a p previous)))
        (\<lambda>_. ?I) ?R"
      using existing fresh by simp
  qed
  then show ?thesis by (simp add: old_def)
qed

lemma quiet_stage: "s_app (snd (ignoring_result remove_stage s)) = s_app s"
  by (auto simp: ignoring_result_def remove_stage_def atomically_def syscall_def
      split: list.splits fault.splits progress.splits outcome.splits)

text \<open>\<open>after_crashes\<close>: any number of recoveries, each with its own faults.\<close>

fun after_crashes :: "codecs \<Rightarrow> app_id \<Rightarrow> fault list list \<Rightarrow> package_store \<Rightarrow> package_store" where
  "after_crashes c a [] s = s"
| "after_crashes c a (fs # fss) s = after_crashes c a fss (snd (recover_for c a (s\<lparr>s_faults := fs\<rparr>)))"

lemma triple_snd: "triple P m (\<lambda>_. R) R \<Longrightarrow> P s \<Longrightarrow> R (snd (m s))"
  by (cases "m s"; cases "fst (m s)") (force simp: triple_def)+

lemma after_crashes_closed:
  assumes "d_journal (s_app s a) = None"
  shows "s_app (after_crashes c a fss s) = s_app s"
  using assms
  by (induction fss arbitrary: s) (simp_all add: recover_for_def io_bind_def looking_def pure_def)

lemma after_crashes_settled:
  assumes "d_journal old = None" "a = m_id (pp_manifest p)" "within a oth (\<lambda>d _. settled c p old d) s"
  shows "within a oth (\<lambda>d _. settled c p old d) (after_crashes c a fss s)"
  using assms(3)
proof (induction fss arbitrary: s)
  case Nil
  then show ?case by simp
next
  case (Cons fs fss)
  have "triple (within a oth (\<lambda>d _. settled c p old d)) (recover_for c a)
      (\<lambda>_. within a oth (\<lambda>d _. settled c p old d)) (within a oth (\<lambda>d _. settled c p old d))"
    by (rule triple_weaken [OF recover_for_settled [OF assms(1,2)]]) (auto elim!: within_mono simp: settled_def)
  from triple_snd [OF this] Cons.prems
  have "within a oth (\<lambda>d _. settled c p old d) (snd (recover_for c a (s\<lparr>s_faults := fs\<rparr>)))" by simp
  then show ?case by (simp add: Cons.IH)
qed

text \<open>The files a user would notice.\<close>

definition same_install :: "app_disk \<Rightarrow> app_disk \<Rightarrow> bool" where
  "same_install d e =
     (d_link e = d_link d \<and> d_manifest e = d_manifest d \<and> d_state e = d_state d \<and> d_journal e = d_journal d
      \<and> d_releases e = d_releases d)"

lemma install_files:
  "install digest c p s = (r, t) \<Longrightarrow> \<exists>r' t'. install_at digest c p s = (r', t') \<and> s_app t = s_app t'
     \<and> (\<forall>out. r = Done out \<longrightarrow> r' = Done out)"
  using quiet_stage
  by (cases "install_at digest c p s")
    (auto simp: install_def split: outcome.splits prod.splits, (metis snd_conv)+)

lemma clean_recovery:
  assumes "d_journal old = None" "a = m_id (pp_manifest p)" "within a oth (\<lambda>d _. settled c p old d) s" "s_faults s = []"
    and "recover_for c a s = (r, v)"
  shows "r = Done () \<and> within a oth (\<lambda>d _. d = old \<or> installed c p old d) v"
proof -
  have "r = Done ()"
    using recover_for_finishes [OF assms(1,2) _ assms(4), of c] assms(3,5) by (simp add: within_def)
  with recover_for_settled [OF assms(1,2), of oth c] assms(3,5) show ?thesis
    by (fastforce simp: triple_def)
qed

text \<open>C19: installing a package is atomic. From a coherent installation without an open transaction, whatever
  system calls of \<open>install\<close> fail or kill the process, and whatever recoveries fail or are killed after it,
  the first recovery that is left to run finishes and leaves the old installation, byte for byte, or the
  new one: link, manifest and state of the new release, the release itself made from the bundle (or the
  one that was there), the release that was current still there. It is the new one if \<open>install\<close> returned
  success, and no other application's files have changed.\<close>

theorem installation_is_atomic:
  assumes "codecs_ok c" "app_id_new (as_str (m_id (pp_manifest p))) = Inr (m_id (pp_manifest p))"
    and "coherent c (s_app s (m_id (pp_manifest p)))" "s_stage s = Some (pp_stage p)"
  shows "let a = m_id (pp_manifest p);
             (r, t) = install digest c p s;
             (r', v) = recover_for c a ((after_crashes c a fss t)\<lparr>s_faults := []\<rparr>)
         in r' = Done () \<and> d_journal (s_app v a) = None
            \<and> (same_install (s_app s a) (s_app v a) \<and> (\<forall>out. r \<noteq> Done out)
               \<or> installed c p (s_app s a) (s_app v a))
            \<and> (\<forall>b. b \<noteq> a \<longrightarrow> s_app v b = s_app s b)"
proof -
  define a where "a = m_id (pp_manifest p)"
  obtain r t where run: "install digest c p s = (r, t)" by fastforce
  let ?u = "(after_crashes c a fss t)\<lparr>s_faults := []\<rparr>"
  obtain r' v where rec: "recover_for c a ?u = (r', v)" by fastforce
  from install_files [OF run] obtain q w where at: "install_at digest c p s = (q, w)" "s_app t = s_app w"
      and done_at: "\<And>out. r = Done out \<Longrightarrow> q = Done out" by blast
  have start: "within a (s_app s) (\<lambda>d st. d = s_app s a \<and> st = Some (pp_stage p)) s"
    using assms(4) by (simp add: within_def)
  note T = triple_install_at [OF assms(1-3), of "s_app s" digest, folded a_def, unfolded triple_def, rule_format, OF start]
  have journal: "d_journal (s_app s a) = None" using assms(3) by (simp add: coherent_def a_def)
  have "r' = Done () \<and> d_journal (s_app v a) = None
      \<and> (same_install (s_app s a) (s_app v a) \<and> (\<forall>out. r \<noteq> Done out) \<or> installed c p (s_app s a) (s_app v a))
      \<and> (\<forall>b. b \<noteq> a \<longrightarrow> s_app v b = s_app s b)"
  proof (cases "\<exists>out. q = Done out")
    case True
    with T at have t: "installed c p (s_app s a) (s_app t a)" "\<forall>b. b \<noteq> a \<longrightarrow> s_app t b = s_app s b"
      by (auto simp: within_def)
    then have "d_journal (s_app t a) = None" by (simp add: installed_def Let_def)
    with rec have "r' = Done () \<and> s_app v = s_app t"
      by (auto simp: recover_for_def io_bind_def looking_def pure_def after_crashes_closed)
    with t show ?thesis by (auto simp: installed_def Let_def)
  next
    case False
    with T at have "within a (s_app s) (\<lambda>d _. d = s_app s a \<or> settled c p (s_app s a\<lparr>d_home := True\<rparr>) d) t"
      by (cases q) (auto simp: within_def)
    then obtain h where "within a (s_app s) (\<lambda>d _. settled c p (s_app s a\<lparr>d_home := h\<rparr>) d) t"
      by (auto simp: within_def settled_def) (metis app_disk.surjective app_disk.update_convs(1))+
    then have "within a (s_app s) (\<lambda>d _. settled c p (s_app s a\<lparr>d_home := h\<rparr>) d) ?u"
      using after_crashes_settled [of "s_app s a\<lparr>d_home := h\<rparr>" a p] journal a_def by simp
    from clean_recovery [OF _ a_def this _ rec] journal
    have "r' = Done ()" "within a (s_app s) (\<lambda>d _. d = s_app s a\<lparr>d_home := h\<rparr> \<or> installed c p (s_app s a) d) v"
      by simp_all
    with False done_at journal show ?thesis
      by (auto simp: within_def same_install_def installed_def Let_def)
  qed
  then show ?thesis by (simp add: a_def [symmetric] run rec)
qed

end
