(* ===== verification/Package_Properties.thy ===== *)
theory Package_Properties
  imports Package_Atomicity
begin

text \<open>
  Removal: what \<open>uninstall\<close> and its purge may touch. The check on the purged directories keeps them
  below the four data roots and out of the book library, but not from containing it.
\<close>

section \<open>Removal\<close>

definition removable :: "path \<Rightarrow> app_manifest \<Rightarrow> component list \<Rightarrow> bool" where
  "removable books m q =
     (\<exists>p\<in>set (data_paths m). prefix (path_components p) q \<and> \<not> path_starts_with p books
        \<and> (\<exists>root\<in>set allowed_roots. path_starts_with p root \<and> \<not> path_eq p root))"

definition purged :: "codecs \<Rightarrow> path \<Rightarrow> app_id \<Rightarrow> package_store \<Rightarrow> package_store \<Rightarrow> bool" where
  "purged c books a s t =
     (\<forall>x\<in>set (s_data s) - set (s_data t). \<exists>tx m. d_manifest (s_app s a) = Some tx \<and> c_toml c tx = Inr m
        \<and> m_kind m \<noteq> System \<and> removable books m (fst x))"

lemma purged_self: "purged c books a s s"
  by (simp add: purged_def)

lemma purged_same [simp]:
  "purged c books a s (t\<lparr>s_faults := fs\<rparr>) = purged c books a s t"
  "purged c books a s (on_app b f t) = purged c books a s t"
  by (simp_all add: purged_def on_app_def)

lemma triple_given: "(\<phi> \<Longrightarrow> triple P m Q R) \<Longrightarrow> triple (\<lambda>s. P s \<and> \<phi>) m Q R"
  by (cases \<phi>) (auto simp: triple_def)

lemma triple_purge:
  assumes "d_manifest (s_app s a) = Some tx" "c_toml c tx = Inr m" "m_kind m \<noteq> System"
  shows "triple (\<lambda>t. s_app t = s_app s \<and> purged c books a s t) (purge_application_data books m)
    (\<lambda>_ t. s_app t = s_app s \<and> purged c books a s t) (\<lambda>t. s_app t = s_app s \<and> purged c books a s t)"
  unfolding purge_application_data_def
proof (rule triple_for_all)
  let ?P = "\<lambda>t. s_app t = s_app s \<and> purged c books a s t"
  fix p assume p: "p \<in> set (data_paths m)"
  show "triple ?P (io_seq (io_of (guard (\<not> purge_allowed books p) (P_UnsafePurge p))) (remove_data p)) (\<lambda>_. ?P) ?P"
  proof (cases "purge_allowed books p")
    case False
    then show ?thesis by (simp add: triple_def io_seq_def io_bind_def io_of_def)
  next
    case True
    have gone: "removable books m q" if "prefix (path_components p) q" for q
      using that p True by (auto simp: purge_allowed_def removable_def list_ex_iff)
    have "purged c books a s (s_data_update (filter (\<lambda>(q, _). \<not> prefix (path_components p) q)) t)"
      if t: "purged c books a s t" for t
      unfolding purged_def
    proof
      fix x assume x: "x \<in> set (s_data s) - set (s_data (s_data_update (filter (\<lambda>(q, _). \<not> prefix (path_components p) q)) t))"
      show "\<exists>tx m. d_manifest (s_app s a) = Some tx \<and> c_toml c tx = Inr m \<and> m_kind m \<noteq> System \<and> removable books m (fst x)"
      proof (cases "x \<in> set (s_data t)")
        case True
        with x have "prefix (path_components p) (fst x)" by auto
        with gone assms show ?thesis by blast
      next
        case False
        with x t show ?thesis by (simp add: purged_def)
      qed
    qed
    then have "triple ?P (remove_data p) (\<lambda>_. ?P) ?P"
      unfolding remove_data_def by (intro triple_atomically) simp_all
    with True show ?thesis by (simp add: triple_def io_seq_def io_bind_def io_of_def)
  qed
qed

text \<open>The steps of \<open>uninstall\<close>, in the order of the code.\<close>

definition keeping :: "codecs \<Rightarrow> path \<Rightarrow> app_id \<Rightarrow> package_store \<Rightarrow> (app_disk \<Rightarrow> bool) \<Rightarrow> package_store \<Rightarrow> bool" where
  "keeping c books a s D t = ((\<forall>b. b \<noteq> a \<longrightarrow> s_app t b = s_app s b) \<and> D (s_app t a) \<and> purged c books a s t)"

lemma app_on_app [simp]: "s_app (on_app a f t) b = (if b = a then f (s_app t a) else s_app t b)"
  by (simp add: on_app_def)

lemma triple_keeping_syscall:
  assumes "\<And>d. D d \<Longrightarrow> E (f d)"
  shows "triple (keeping c books a s D) (syscall e (on_app a f) (\<lambda>k ls. on_app a (g k ls)))
    (\<lambda>_. keeping c books a s E) (keeping c books a s (\<lambda>_. True))"
  by (rule triple_syscall) (auto simp: keeping_def intro: assms)

lemma triple_keeping:
  assumes "\<And>d. D d \<Longrightarrow> E (f d)"
  shows "triple (keeping c books a s D) (atomically e (on_app a f))
    (\<lambda>_. keeping c books a s E) (keeping c books a s (\<lambda>_. True))"
  by (rule triple_atomically) (auto simp: keeping_def intro: assms)

lemma triple_removal:
  "triple (keeping c books a s (\<lambda>d. d_journal d = None))
     (io_seq (remove_manifest a) (io_seq (remove_home a) (io_seq (remove_optional_state a) (pure purge))))
     (\<lambda>_. keeping c books a s (\<lambda>d. d = empty_app)) (keeping c books a s (\<lambda>_. True))"
proof -
  let ?K = "keeping c books a s"
  have "triple (?K (\<lambda>d. d_journal d = None)) (remove_manifest a)
      (\<lambda>_. ?K (\<lambda>d. d_journal d = None \<and> d_manifest d = None)) (?K (\<lambda>_. True))"
    unfolding remove_manifest_def remove_optional_manifest_def
    by (rule triple_seq [OF triple_present [where Q = "\<lambda>_. ?K (\<lambda>d. d_journal d = None)"]])
      (auto simp: keeping_def intro!: triple_keeping)
  moreover have "triple (?K (\<lambda>d. d_journal d = None \<and> d_manifest d = None)) (remove_home a)
      (\<lambda>_. ?K (\<lambda>d. d = empty_app\<lparr>d_state := d_state d\<rparr>)) (?K (\<lambda>_. True))"
    unfolding remove_home_def
    by (rule triple_keeping_syscall) (auto simp: empty_app_def intro!: app_disk.equality)
  moreover have "triple (?K (\<lambda>d. d = empty_app\<lparr>d_state := d_state d\<rparr>)) (remove_optional_state a)
      (\<lambda>_. ?K (\<lambda>d. d = empty_app)) (?K (\<lambda>_. True))"
    unfolding remove_optional_state_def
    by (rule triple_keeping) (metis app_disk.update_convs(4) app_disk.surjective empty_app_def)
  ultimately show ?thesis
    by (auto intro!: triple_seq triple_pure)
qed


section \<open>A small store\<close>

definition demo_dirs :: runtime_directories where
  "demo_dirs =
     \<lparr>home = ''/home/root'', config_home = ''/home/root/.config/reader'',
      data_home = ''/home/root/.local/share/reader'', state_home = ''/home/root/.local/state/reader'',
      cache_home = ''/home/root/.cache/reader'', runtime_dir = ''/run/remagic/reader''\<rparr>"

definition demo_app_manifest :: app_manifest where
  "demo_app_manifest = demo_manifest\<lparr>m_runtime := (m_runtime demo_manifest)\<lparr>directories := Some demo_dirs\<rparr>\<rparr>"

definition demo_cid :: "char \<Rightarrow> string" where
  "demo_cid ch = replicate 64 ch"

definition demo_release_tree :: file_tree where
  "demo_release_tree = [(''manifest.toml'', Regular 0x1A4 ''/home/root/apps/reader/current/bin'')]"

definition demo_prepared_package :: prepared_package where
  "demo_prepared_package =
     \<lparr>pp_bundle = \<lparr>b_schema = 1, b_app_id = ''reader'', b_package = ''reader-app'', b_version = ''1.0'',
        b_content_id = demo_cid CHR ''a'', b_manifest_path = ''manifest.toml'', b_payload_sha256 = demo_cid CHR ''0'',
        b_files = []\<rparr>,
      pp_manifest = demo_app_manifest, pp_manifest_bytes = ''/home/root/apps/reader/current/bin'',
      pp_stage = demo_release_tree\<rparr>"

definition demo_state :: "char \<Rightarrow> char \<Rightarrow> installed_state" where
  "demo_state now before =
     \<lparr>is_schema = 1, is_app_id = ''reader'', is_package = ''reader-app'', is_current = demo_cid now,
      is_previous = (if before = CHR ''-'' then None else Some (demo_cid before)), is_version = ''1.0''\<rparr>"

definition demo_journal :: transaction_journal where
  "demo_journal =
     \<lparr>j_schema = 1, j_app_id = ''reader'', j_target = demo_cid CHR ''a'', j_preexisted = False, j_previous = None,
      j_manifest = None, j_state = None\<rparr>"

text \<open>Codecs that know three states and one journal.\<close>

definition demo_codecs :: codecs where
  "demo_codecs =
     \<lparr>c_state_text = (\<lambda>x. if x = demo_state CHR ''a'' CHR ''-'' then Inr ''a'' else if x = demo_state CHR ''a'' CHR ''b'' then Inr ''ab''
                          else if x = demo_state CHR ''b'' CHR ''a'' then Inr ''ba'' else Inl ''state''),
      c_state_of = (\<lambda>s. if s = ''a'' then Inr (demo_state CHR ''a'' CHR ''-'') else if s = ''ab'' then Inr (demo_state CHR ''a'' CHR ''b'')
                        else if s = ''ba'' then Inr (demo_state CHR ''b'' CHR ''a'') else Inl ''state''),
      c_journal_text = (\<lambda>x. if x = demo_journal then Inr ''j'' else Inl ''journal''),
      c_journal_of = (\<lambda>s. if s = ''j'' then Inr demo_journal else Inl ''journal''),
      c_toml = (\<lambda>_. Inr demo_app_manifest)\<rparr>"

lemma demo_codecs_ok: "codecs_ok demo_codecs"
  by (auto simp: codecs_ok_def demo_codecs_def split: if_splits)

definition demo_reader :: app_id where "demo_reader = AppId ''reader''"

definition demo_empty :: "fault list \<Rightarrow> package_store" where
  "demo_empty fs =
     \<lparr>s_app = (\<lambda>_. empty_app), s_stage = Some demo_release_tree, s_data = [], s_faults = fs\<rparr>"

definition demo_installed :: package_store where
  "demo_installed = snd (install (\<lambda>s. s) demo_codecs demo_prepared_package (demo_empty []))"

definition demo_killed :: package_store where
  "demo_killed = snd (install (\<lambda>s. s) demo_codecs demo_prepared_package (demo_empty (replicate 24 Works @ [Stops True After])))"

theorem installation_is_atomic_witness:
  "let (r, v) = recover_for demo_codecs demo_reader (demo_killed\<lparr>s_faults := []\<rparr>)
   in r = Done () \<and> d_journal (s_app v demo_reader) = None
     \<and> (same_install empty_app (s_app v demo_reader) \<or> installed demo_codecs demo_prepared_package empty_app (s_app v demo_reader))"
proof -
  have "m_id (pp_manifest demo_prepared_package) = demo_reader" "app_id_new (as_str demo_reader) = Inr demo_reader"
    by code_simp+
  then show ?thesis
    using installation_is_atomic [where c = demo_codecs and p = demo_prepared_package and digest = "\<lambda>s. s" and fss = "[]"
        and s = "demo_empty (replicate 24 Works @ [Stops True After])", OF demo_codecs_ok]
    by (auto simp: demo_empty_def demo_killed_def demo_prepared_package_def empty_app_def coherent_def
        split: prod.splits)
qed

definition demo_books :: path where
  "demo_books = ''/home/root/.local/share/remarkable/xochitl''"

definition demo_two_releases :: "fault list \<Rightarrow> package_store" where
  "demo_two_releases fs =
     \<lparr>s_app = (\<lambda>_. \<lparr>d_home = True, d_link = Some (''releases/'' @ demo_cid CHR ''a''), d_manifest = Some ''m'',
                     d_state = Some ''ab'', d_journal = None,
                     d_releases = [(demo_cid CHR ''a'', demo_release_tree), (demo_cid CHR ''b'', demo_release_tree)]\<rparr>),
      s_stage = None, s_data = [(path_components ''/home/root/.config/reader/x'', D_File)], s_faults = fs\<rparr>"


text \<open>A rollback has no journal: killed after it has written the manifest, it leaves the manifest of one
  release beside the link and the state of the other, and no recovery mends that.\<close>

lemma interrupted_rollback_is_not_undone:
  "let s = snd (rollback demo_codecs demo_reader None (for_product PaperPro ''3.27.0'')
                  (demo_two_releases [Works, Works, Stops True After]));
       d = s_app (snd (recover_for demo_codecs demo_reader s)) demo_reader
   in d_manifest d = Some (release_dir demo_reader (demo_cid CHR ''b'') @ ''/bin'')
      \<and> d_link d = Some (''releases/'' @ demo_cid CHR ''a'') \<and> d_state d = Some ''ab''"
  by code_simp

text \<open>The purge refuses a directory inside the book library, but not one that contains it: a valid manifest may
  declare the library's parent as its data directory.\<close>

lemma purge_can_reach_the_books:
  "purge_allowed demo_books ''/home/root/.local/share/remarkable''
   \<and> path_starts_with demo_books ''/home/root/.local/share/remarkable''
   \<and> manifest_validate (demo_app_manifest\<lparr>m_runtime := (m_runtime demo_app_manifest)\<lparr>directories :=
       Some (demo_dirs\<lparr>data_home := ''/home/root/.local/share/remarkable''\<rparr>)\<rparr>\<rparr>) = Inr ()"
  by code_simp

end
