(* ===== verification/Sleep_Transaction.thy ===== *)
theory Sleep_Transaction
  imports Prelude Rust_Text
begin

text \<open>
  The sleep transaction of the supervisor (\<open>remagicd/src/daemon/sleep.rs\<close>): the phase of a lock, the
  epoch that names it on the display, and a revision that every change moves on. A method holds the
  mutex for its whole body. The retained-lock marker of an error text and the two fences that reject
  stale recoveries and stale timers are here too.
\<close>

section \<open>Texts\<close>

definition RETAINED_LOCK_SUFFIX :: string where
  "RETAINED_LOCK_SUFFIX = ''; lock screen retained''"

definition retained_lock_error :: "string \<Rightarrow> string" where
  "retained_lock_error cause = cause @ RETAINED_LOCK_SUFFIX"

definition is_retained_lock_error :: "string \<Rightarrow> bool" where
  "is_retained_lock_error e = ends_with e RETAINED_LOCK_SUFFIX"

section \<open>The transaction\<close>

datatype sleep_phase = IdleSleep | PreparingSleep | LockedSleep | UnlockingSleep

record sleep_snapshot =
  sl_epoch :: u64
  sl_phase :: sleep_phase
  sl_revision :: u64

definition sleep_default :: sleep_snapshot where
  "sleep_default = \<lparr>sl_epoch = 0, sl_phase = IdleSleep, sl_revision = 0\<rparr>"

definition phase_text :: "sleep_phase \<Rightarrow> string" where
  "phase_text p =
     (case p of IdleSleep \<Rightarrow> ''Idle'' | PreparingSleep \<Rightarrow> ''Preparing'' | LockedSleep \<Rightarrow> ''Locked''
      | UnlockingSleep \<Rightarrow> ''Unlocking'')"

definition epoch_text :: "u64 \<Rightarrow> string" where
  "epoch_text n = decimal (uint n)"

text \<open>\<open>update\<close>: the transition decides on the current snapshot, then the revision moves on; neither
  error changes anything.\<close>

definition sleep_update ::
  "(sleep_snapshot \<Rightarrow> string + u64 \<times> sleep_phase) \<Rightarrow> sleep_snapshot \<Rightarrow> (string + sleep_snapshot) \<times> sleep_snapshot" where
  "sleep_update transition s =
     (case transition s of
        Inl e \<Rightarrow> (Inl e, s)
      | Inr (epoch, ph) \<Rightarrow>
          (case checked_add (sl_revision s) 1 of
             None \<Rightarrow> (Inl ''sleep transaction revision overflow'', s)
           | Some r \<Rightarrow> let t = \<lparr>sl_epoch = epoch, sl_phase = ph, sl_revision = r\<rparr> in (Inr t, t)))"

definition refused :: "string \<Rightarrow> u64 \<Rightarrow> sleep_snapshot \<Rightarrow> string" where
  "refused what epoch s =
     ''cannot '' @ what @ '' '' @ epoch_text epoch @ '' from '' @ phase_text (sl_phase s) @ '' epoch '' @ epoch_text (sl_epoch s)"

definition sleep_begin :: "u64 \<Rightarrow> sleep_snapshot \<Rightarrow> (string + sleep_snapshot) \<times> sleep_snapshot" where
  "sleep_begin epoch s =
     (if epoch = 0 then (Inl ''sleep transaction epoch must be nonzero'', s)
      else sleep_update (\<lambda>current.
        if sl_phase current \<noteq> IdleSleep
        then Inl (''sleep transaction is already '' @ phase_text (sl_phase current) @ '' at epoch '' @ epoch_text (sl_epoch current))
        else Inr (epoch, PreparingSleep)) s)"

definition mark_locked :: "u64 \<Rightarrow> sleep_snapshot \<Rightarrow> (string + sleep_snapshot) \<times> sleep_snapshot" where
  "mark_locked epoch = sleep_update (\<lambda>current.
     if sl_epoch current \<noteq> epoch \<or> sl_phase current \<noteq> PreparingSleep
     then Inl (refused ''commit sleep epoch'' epoch current) else Inr (epoch, LockedSleep))"

definition begin_unlock :: "u64 \<Rightarrow> sleep_snapshot \<Rightarrow> (string + sleep_snapshot) \<times> sleep_snapshot" where
  "begin_unlock epoch = sleep_update (\<lambda>current.
     if sl_epoch current \<noteq> epoch \<or> \<not> (sl_phase current = PreparingSleep \<or> sl_phase current = LockedSleep)
     then Inl (refused ''unlock sleep epoch'' epoch current) else Inr (epoch, UnlockingSleep))"

definition mark_awake :: "u64 \<Rightarrow> sleep_snapshot \<Rightarrow> (string + sleep_snapshot) \<times> sleep_snapshot" where
  "mark_awake epoch = sleep_update (\<lambda>current.
     if sl_epoch current \<noteq> epoch \<or> sl_phase current \<noteq> LockedSleep
     then Inl (''cannot mark sleep epoch '' @ epoch_text epoch @ '' awake from '' @ phase_text (sl_phase current)
               @ '' epoch '' @ epoch_text (sl_epoch current))
     else Inr (epoch, LockedSleep))"

definition finish_unlock :: "u64 \<Rightarrow> sleep_snapshot \<Rightarrow> (string + sleep_snapshot) \<times> sleep_snapshot" where
  "finish_unlock epoch = sleep_update (\<lambda>current.
     if sl_epoch current \<noteq> epoch \<or> sl_phase current \<noteq> UnlockingSleep
     then Inl (refused ''finish sleep epoch'' epoch current) else Inr (0, IdleSleep))"

definition abort_unlock :: "u64 \<Rightarrow> sleep_snapshot \<Rightarrow> (string + sleep_snapshot) \<times> sleep_snapshot" where
  "abort_unlock epoch = sleep_update (\<lambda>current.
     if sl_epoch current \<noteq> epoch \<or> sl_phase current \<noteq> UnlockingSleep
     then Inl (refused ''abort unlock epoch'' epoch current) else Inr (epoch, LockedSleep))"

definition sleep_reset :: "sleep_snapshot \<Rightarrow> (string + sleep_snapshot) \<times> sleep_snapshot" where
  "sleep_reset = sleep_update (\<lambda>_. Inr (0, IdleSleep))"

section \<open>Fences\<close>

definition recovery_fence_matches :: "u64 \<Rightarrow> u64 \<Rightarrow> u64 \<Rightarrow> u64 \<Rightarrow> bool" where
  "recovery_fence_matches current_sequence current_revision observed_sequence observed_revision =
     (current_sequence = observed_sequence \<and> current_revision = observed_revision)"

definition resuspend_fence_matches :: "sleep_snapshot \<Rightarrow> u64 \<Rightarrow> u64 \<Rightarrow> u64 \<Rightarrow> u64 \<Rightarrow> bool" where
  "resuspend_fence_matches current expected_epoch expected_revision interaction expected_interaction =
     (sl_phase current = LockedSleep \<and> sl_epoch current = expected_epoch
      \<and> sl_revision current = expected_revision \<and> interaction = expected_interaction)"

section \<open>Lemmas\<close>

lemmas sleep_ops =
  sleep_begin_def mark_locked_def begin_unlock_def mark_awake_def finish_unlock_def abort_unlock_def sleep_reset_def

lemma sleep_update_cases:
  "(\<exists>e. sleep_update f s = (Inl e, s)) \<or>
   (\<exists>epoch ph. f s = Inr (epoch, ph) \<and> sl_revision s \<noteq> - 1
      \<and> sleep_update f s = (Inr \<lparr>sl_epoch = epoch, sl_phase = ph, sl_revision = sl_revision s + 1\<rparr>,
                            \<lparr>sl_epoch = epoch, sl_phase = ph, sl_revision = sl_revision s + 1\<rparr>))"
  by (cases "f s") (auto simp: sleep_update_def checked_succ Let_def split: prod.splits)

text \<open>An operation that succeeds returns the new snapshot and moves the revision on by one; one that
  fails changes nothing.\<close>

lemma sleep_update_result:
  "sleep_update f s = (Inl e, t) \<Longrightarrow> t = s"
  "sleep_update f s = (Inr u, t) \<Longrightarrow> u = t \<and> unat (sl_revision t) = Suc (unat (sl_revision s))"
  using sleep_update_cases [of f s] by (auto simp: unat_succ)

lemma sleep_results:
  "snd (mark_locked epoch s) = t \<Longrightarrow> fst (mark_locked epoch s) = Inr u \<Longrightarrow>
     sl_phase s = PreparingSleep \<and> sl_epoch s = epoch \<and> sl_phase t = LockedSleep \<and> sl_epoch t = epoch"
  "snd (mark_awake epoch s) = t \<Longrightarrow> fst (mark_awake epoch s) = Inr u \<Longrightarrow>
     sl_phase s = LockedSleep \<and> sl_epoch s = epoch \<and> sl_phase t = LockedSleep \<and> sl_epoch t = epoch"
  by (auto simp: sleep_ops sleep_update_def Let_def split: sum.splits option.splits prod.splits if_splits)

lemma retained_marker [simp]: "is_retained_lock_error (retained_lock_error cause)"
  by (simp add: is_retained_lock_error_def retained_lock_error_def suffix_def)

end
