(* ===== verification/Daemon_World.thy ===== *)
theory Daemon_World
  imports Manifest Manager_Compat Power_Policy Fallible_Actions Sleep_Transaction
begin

text \<open>
  The supervisor's state (\<open>Daemon\<close>, \<open>remagicd/src/daemon/mod.rs\<close>) together with the part of the
  device it works on: the systemd units, the display host, the power key, the wake lock, the files. A
  call that leaves the process takes the next answer of a script: it works, it fails with or without
  its effect, or the process dies in it. While it waits other tasks run, and the device moves on: that
  is the \<open>meanwhile\<close> of the answer. Whatever a caller waits for (a frame, a phase file, a process that
  ends) happens there, so a polling loop is one call, which can only return what the device then shows.
\<close>

section \<open>Data\<close>

datatype input_mode = Writing | AnimationLocked | Modal

definition ink_enabled_mode :: "input_mode \<Rightarrow> bool" where
  "ink_enabled_mode m = (m = Writing)"

record runtime_input =
  ri_generation :: u64
  ri_epoch :: u64
  ri_lease :: u64
  ri_mode :: input_mode
  ri_dynamic :: bool
  ri_direct_ink :: bool
  ri_pending :: bool

datatype exit_source = RunnerReport | SyntheticReport | ControlledExit

record pending_exit =
  pe_generation :: u64
  pe_source :: exit_source

datatype session_status = BackgroundSession | ParkedSession | CrashedSession

text \<open>A \<open>serde_json::Value\<close> is its text.\<close>

record app_session =
  ss_schema :: u32
  ss_app :: app_id
  ss_status :: session_status
  ss_title :: string
  ss_subtitle :: string
  ss_payload :: "string option"
  ss_updated_at :: int
  ss_last_error :: "string option"

datatype request_fence = RequestPending | RequestCancelled | RequestCommitting

text \<open>What the display host reports (\<open>Snapshot\<close>, \<open>remagicd/src/display_host.rs\<close>), with the lease it
  prepared; \<open>p_surfaces\<close> has the connected surfaces and their sequences.\<close>

record panel_view =
  p_surfaces :: "(int \<times> u64) list"
  p_shown :: "(int \<times> u64 \<times> u64) option"
  p_ink :: bool
  p_prepared :: "(int \<times> u64 \<times> u64) option"
  p_lock :: u64
  p_committed :: bool

definition panel_off :: panel_view where
  "panel_off = \<lparr>p_surfaces = [], p_shown = None, p_ink = False, p_prepared = None, p_lock = 0, p_committed = False\<rparr>"

record lifecycle_note =
  ln_title :: "string option"
  ln_subtitle :: "string option"
  ln_payload :: "string option"

datatype app_command =
  EnterForeground "string option" "path option" u64 u64 | EnterBackground | ShutdownApp

section \<open>Other tasks and the device\<close>

datatype meanwhile =
    Interaction
  | RequestTimesOut
  | CoverMoves bool
  | UnitEnds string
  | SurfaceAt int u64
  | SurfaceGone int
  | InputModeRequest app_token input_mode
  | RunnerReports app_id u64
  | InputActivity
  | TimePasses nat
  | SchemaPhase app_id bool u64

record answer =
  a_died :: bool
  a_error :: "string option"
  a_effect :: bool
  a_meanwhile :: "meanwhile list"
  a_note :: lifecycle_note
  a_power_key :: bool

definition calm :: answer where
  "calm = \<lparr>a_died = False, a_error = None, a_effect = True, a_meanwhile = [],
           a_note = \<lparr>ln_title = None, ln_subtitle = None, ln_payload = None\<rparr>, a_power_key = True\<rparr>"

text \<open>A unit in \<open>w_units\<close> is active, the flag says that it is frozen; \<open>w_phases\<close> has the schema phase
  files, by application, with the generation in them, the second component telling \<open>complete\<close> from
  \<open>prepared\<close>.\<close>

record device =
  w_script :: "answer list"
  w_units :: "(string \<times> bool) list"
  w_panel :: panel_view
  w_grab :: bool
  w_guard :: bool
  w_wakelock :: bool
  w_lit :: bool
  w_marker :: "app_id option"
  w_store :: "(app_id, app_session) btree"
  w_phases :: "((app_id \<times> bool) \<times> u64) list"
  w_manifests :: "string + (app_id, app_manifest) btree"
  w_paperweight :: bool
  w_secret :: "string + string"
  w_clock :: instant
  w_unix_ms :: u64
  w_home :: "string list"
  w_commands :: "(app_id \<times> app_command) list"
  w_timers :: "(u64 \<times> u64 \<times> u64) list"

record daemon = device +
  d_state :: manager_state
  d_manifests :: "(app_id, app_manifest) btree"
  d_sessions :: "(app_id, app_session) btree"
  d_generations :: "(app_id, u64) btree"
  d_execution :: "(app_id, background_execution) btree"
  d_fences :: "(app_id, u64 \<times> u64) btree"
  d_modes :: "(app_id, runtime_input) btree"
  d_modes_locked :: bool
  d_exits :: "(app_id, pending_exit) btree"
  d_missing :: "(app_id, u64 \<times> u8) btree"
  d_power :: power_manager
  d_next_generation :: u64
  d_next_epoch :: u64
  d_next_sleep :: u64
  d_sleep :: sleep_snapshot
  d_interrupts :: u64
  d_cover_closed :: bool
  d_cover_resume :: "app_id option"
  d_recovery_pending :: bool
  d_fence :: request_fence

type_synonym 'a act = "(daemon, string, 'a) fallible"

definition domain_of :: "daemon \<Rightarrow> domain_state" where
  "domain_of d = mgr_domain (d_state d)"

section \<open>Tasks that run while a handler waits\<close>

text \<open>\<open>RequestFence\<close>.\<close>

definition fence_cancel :: "request_fence \<Rightarrow> bool \<times> request_fence" where
  "fence_cancel f = (if f = RequestPending then (True, RequestCancelled) else (False, f))"

definition fence_begin_commit :: "request_fence \<Rightarrow> bool \<times> request_fence" where
  "fence_begin_commit f = (if f = RequestPending then (True, RequestCommitting) else (False, f))"

definition fence_is_cancelled :: "request_fence \<Rightarrow> bool" where
  "fence_is_cancelled f = (f = RequestCancelled)"

definition fence_is_committing :: "request_fence \<Rightarrow> bool" where
  "fence_is_committing f = (f = RequestCommitting)"

text \<open>\<open>reserve_runner_report\<close>.\<close>

definition reserve_runner_report ::
  "(app_id, pending_exit) btree \<Rightarrow> app_id \<Rightarrow> pending_exit \<Rightarrow> bool \<times> (app_id, pending_exit) btree" where
  "reserve_runner_report reports a pending =
     (case bt_get reports a of
        Some existing \<Rightarrow>
          if existing = pending
             \<or> pe_generation existing = pe_generation pending \<and> pe_source existing = ControlledExit
          then (False, reports) else (True, bt_insert a pending reports)
      | None \<Rightarrow> (True, bt_insert a pending reports))"

text \<open>\<open>RuntimeInputState::matches\<close>, \<open>validate_mode\<close>.\<close>

definition input_matches :: "runtime_input \<Rightarrow> app_token \<Rightarrow> bool" where
  "input_matches i t =
     (ri_generation i = generation t \<and> ri_epoch i = foreground_epoch t \<and> lease_id t = Some (ri_lease i))"

definition validate_mode :: "runtime_input \<Rightarrow> app_id \<Rightarrow> input_mode \<Rightarrow> string + bool" where
  "validate_mode i a m =
     (if \<not> ri_dynamic i
      then Inl (''application '' @ as_str a @ '' cannot negotiate input mode without input:mode-v2'')
      else if ink_enabled_mode m \<and> \<not> ri_direct_ink i
      then Inl (''application '' @ as_str a @ '' cannot enter writing mode without ink:direct-v1'')
      else Inr (ink_enabled_mode m))"

definition in_transit_to :: "app_id \<Rightarrow> domain_state \<Rightarrow> bool" where
  "in_transit_to a now = (now = LaunchingD a \<or> now = ParkingD a)"

text \<open>The branch of \<open>set_input_mode\<close> that needs no transition lock: the token of a pending fence.\<close>

definition pending_mode_request ::
  "app_token \<Rightarrow> input_mode \<Rightarrow> (app_id, runtime_input) btree \<Rightarrow> (string + bool) \<times> (app_id, runtime_input) btree" where
  "pending_mode_request t m modes =
     (let a = app_id t in
      case bt_get modes a of
        None \<Rightarrow> (Inl (''application '' @ as_str a @ '' has no pending input fence''), modes)
      | Some i \<Rightarrow>
          if \<not> input_matches i t
          then (Inl (''application '' @ as_str a @ '' supplied a stale input-mode token''), modes)
          else if \<not> ri_pending i
          then (Inl (''application '' @ as_str a @ '' input fence is not pending''), modes)
          else case validate_mode i a m of
            Inl e \<Rightarrow> (Inl e, modes)
          | Inr ink \<Rightarrow> (Inr ink, bt_insert a (i\<lparr>ri_mode := m\<rparr>) modes))"

definition DISPLAY_UNIT :: string where "DISPLAY_UNIT = ''remagic-display-host.service''"
definition HOME_UNIT :: string where "HOME_UNIT = ''remagic-home.service''"
definition STOCK_UNIT :: string where "STOCK_UNIT = ''xochitl.service''"

text \<open>Home and the applications are bound to the display host (\<open>BindsTo\<close> in their unit files): starting
  one starts it, and they end with it. The display host's state ends with its unit.\<close>

definition bound_to_display :: "string \<Rightarrow> bool" where
  "bound_to_display n = (n = HOME_UNIT \<or> starts_with n ''remagic-app@'')"

definition unit_up :: "string \<Rightarrow> 'z device_scheme \<Rightarrow> bool" where
  "unit_up name d = list_ex (\<lambda>(n, _). n = name) (w_units d)"

definition keep_units :: "(string \<Rightarrow> bool) \<Rightarrow> 'z device_scheme \<Rightarrow> 'z device_scheme" where
  "keep_units keep d =
     d\<lparr>w_units := filter (\<lambda>(n, _). keep n \<and> (bound_to_display n \<longrightarrow> keep DISPLAY_UNIT)) (w_units d),
       w_panel := (if keep DISPLAY_UNIT then w_panel d else panel_off)\<rparr>"

definition at_surface :: "int \<Rightarrow> u64 option \<Rightarrow> panel_view \<Rightarrow> panel_view" where
  "at_surface key n p =
     p\<lparr>p_surfaces := (case n of None \<Rightarrow> [] | Some k \<Rightarrow> [(key, k)]) @ filter (\<lambda>(j, _). j \<noteq> key) (p_surfaces p)\<rparr>"

fun meanwhile_step :: "meanwhile \<Rightarrow> daemon \<Rightarrow> daemon" where
  "meanwhile_step Interaction d = d\<lparr>d_interrupts := d_interrupts d + 1\<rparr>"
| "meanwhile_step RequestTimesOut d = d\<lparr>d_fence := snd (fence_cancel (d_fence d))\<rparr>"
| "meanwhile_step (CoverMoves closed) d = d\<lparr>d_cover_closed := closed\<rparr>"
| "meanwhile_step (UnitEnds name) d = keep_units (\<lambda>n. n \<noteq> name) d"
| "meanwhile_step (SurfaceAt key n) d =
     (if unit_up DISPLAY_UNIT d then d\<lparr>w_panel := at_surface key (Some n) (w_panel d)\<rparr> else d)"
| "meanwhile_step (SurfaceGone key) d = d\<lparr>w_panel := at_surface key None (w_panel d)\<rparr>"
| "meanwhile_step (InputModeRequest t m) d =
     (if in_transit_to (app_id t) (domain_of d) \<and> \<not> d_modes_locked d
      then d\<lparr>d_modes := snd (pending_mode_request t m (d_modes d))\<rparr> else d)"
| "meanwhile_step (RunnerReports a g) d =
     d\<lparr>d_exits := snd (reserve_runner_report (d_exits d) a \<lparr>pe_generation = g, pe_source = RunnerReport\<rparr>)\<rparr>"
| "meanwhile_step InputActivity d = d\<lparr>d_power := note_activity (w_clock d) (w_unix_ms d) (d_power d)\<rparr>"
| "meanwhile_step (TimePasses n) d =
     d\<lparr>w_clock := w_clock d + int n, w_unix_ms := w_unix_ms d + of_nat n\<rparr>"
| "meanwhile_step (SchemaPhase a complete g) d =
     d\<lparr>w_phases := ((a, complete), g) # filter (\<lambda>(k, _). k \<noteq> (a, complete)) (w_phases d)\<rparr>"

section \<open>Calls\<close>

definition next_answer :: "daemon \<Rightarrow> answer \<times> daemon" where
  "next_answer d =
     (case w_script d of
        [] \<Rightarrow> (calm, d)
      | a # rest \<Rightarrow> (a, fold meanwhile_step (a_meanwhile a) (d\<lparr>w_script := rest\<rparr>)))"

text \<open>\<open>outside_with refusal able eff value\<close>: a call that can only work where \<open>able\<close> holds, and is refused
  elsewhere.\<close>

definition outside_with ::
  "string \<Rightarrow> (daemon \<Rightarrow> bool) \<Rightarrow> (daemon \<Rightarrow> daemon) \<Rightarrow> (answer \<Rightarrow> daemon \<Rightarrow> 'a) \<Rightarrow> 'a act" where
  "outside_with refusal able eff val d =
     (let (a, t) = next_answer d; u = (if able t \<and> a_effect a then eff t else t) in
      if a_died a then (Died, u)
      else case a_error a of
        Some e \<Rightarrow> (Failed e, u)
      | None \<Rightarrow> if able t then (Done (val a (eff t)), eff t) else (Failed refusal, t))"

definition outside :: "(daemon \<Rightarrow> daemon) \<Rightarrow> unit act" where
  "outside eff = outside_with [] (\<lambda>_. True) eff (\<lambda>_ _. ())"

definition outside_if :: "string \<Rightarrow> (daemon \<Rightarrow> bool) \<Rightarrow> (daemon \<Rightarrow> daemon) \<Rightarrow> unit act" where
  "outside_if refusal able eff = outside_with refusal able eff (\<lambda>_ _. ())"

definition asking :: "(daemon \<Rightarrow> 'a) \<Rightarrow> 'a act" where
  "asking f = outside_with [] (\<lambda>_. True) (\<lambda>d. d) (\<lambda>_ d. f d)"

text \<open>A pause, in which the process may die.\<close>

definition pausing :: "unit act" where
  "pausing d = (let (a, t) = next_answer d in (if a_died a then Died else Done (), t))"

text \<open>An operation on a part of the state that returns a result.\<close>

definition on_sleep :: "(sleep_snapshot \<Rightarrow> (string + sleep_snapshot) \<times> sleep_snapshot) \<Rightarrow> sleep_snapshot act" where
  "on_sleep f d =
     (case f (d_sleep d) of
        (Inl e, s) \<Rightarrow> (Failed e, d\<lparr>d_sleep := s\<rparr>)
      | (Inr x, s) \<Rightarrow> (Done x, d\<lparr>d_sleep := s\<rparr>))"

text \<open>\<open>ManagerState::apply\<close>; the text of a refused transition is not modelled.\<close>

definition apply_transition :: "transition \<Rightarrow> unit act" where
  "apply_transition t d =
     (case manager_apply (d_state d) t of
        (Inl _, m) \<Rightarrow> (Failed ''invalid transition'', d\<lparr>d_state := m\<rparr>)
      | (Inr _, m) \<Rightarrow> (Done (), d\<lparr>d_state := m\<rparr>))"

definition on_power :: "(power_manager \<Rightarrow> power_manager) \<Rightarrow> unit act" where
  "on_power f = assign (\<lambda>d. d\<lparr>d_power := f (d_power d)\<rparr>)"

definition on_power_at :: "(instant \<Rightarrow> u64 \<Rightarrow> power_manager \<Rightarrow> power_manager) \<Rightarrow> unit act" where
  "on_power_at f = assign (\<lambda>d. d\<lparr>d_power := f (w_clock d) (w_unix_ms d) (d_power d)\<rparr>)"

definition allocate_generation :: "u64 act" where
  "allocate_generation d = (Done (max (d_next_generation d) 1), d\<lparr>d_next_generation := d_next_generation d + 1\<rparr>)"

definition allocate_foreground_epoch :: "u64 act" where
  "allocate_foreground_epoch d = (Done (max (d_next_epoch d) 1), d\<lparr>d_next_epoch := d_next_epoch d + 1\<rparr>)"

definition allocate_sleep_epoch :: "u64 act" where
  "allocate_sleep_epoch d = (Done (max (d_next_sleep d) 1), d\<lparr>d_next_sleep := d_next_sleep d + 1\<rparr>)"

text \<open>A block that holds the write lock of the input modes: no mode request runs in it.\<close>

definition holding_modes :: "'a act \<Rightarrow> 'a act" where
  "holding_modes m d =
     (let (r, t) = m (d\<lparr>d_modes_locked := True\<rparr>) in (r, t\<lparr>d_modes_locked := False\<rparr>))"

definition begin_commit :: "string \<Rightarrow> unit act" where
  "begin_commit refusal d =
     (case fence_begin_commit (d_fence d) of
        (True, f) \<Rightarrow> (Done (), d\<lparr>d_fence := f\<rparr>)
      | (False, f) \<Rightarrow> (Failed refusal, d\<lparr>d_fence := f\<rparr>))"

end
