(* ===== verification/Daemon_Device.thy ===== *)
theory Daemon_Device
  imports Daemon_World
begin

text \<open>
  What the supervisor calls: systemd and the kernel (\<open>remagicd/src/system.rs\<close>, \<open>system/freezer.rs\<close>,
  \<open>system/background.rs\<close>), the display host (\<open>display_host.rs\<close>, \<open>display_host/lock.rs\<close>), the power input
  thread and the application's lifecycle socket (\<open>app_runtime.rs\<close>).
\<close>

section \<open>systemd\<close>

text \<open>A unit name with a \<open>*\<close> names every active unit it matches.\<close>

definition unit_matches :: "string \<Rightarrow> string \<Rightarrow> bool" where
  "unit_matches pat name =
     (case split_once CHR ''*'' pat of
        None \<Rightarrow> name = pat
      | Some (pre, post) \<Rightarrow>
          length pre + length post \<le> length name \<and> take (length pre) name = pre \<and> ends_with name post)"

definition unit_active :: "string \<Rightarrow> daemon \<Rightarrow> bool" where
  "unit_active pat d = list_ex (\<lambda>(n, _). unit_matches pat n) (w_units d)"

definition unit_stopped :: "string \<Rightarrow> daemon \<Rightarrow> daemon" where
  "unit_stopped pat = keep_units (\<lambda>n. \<not> unit_matches pat n)"

definition unit_added :: "string \<Rightarrow> daemon \<Rightarrow> daemon" where
  "unit_added name d = (if unit_up name d then d else d\<lparr>w_units := w_units d @ [(name, False)]\<rparr>)"

definition unit_started :: "string \<Rightarrow> daemon \<Rightarrow> daemon" where
  "unit_started name d = unit_added name (if bound_to_display name then unit_added DISPLAY_UNIT d else d)"

definition unit_frozen :: "bool \<Rightarrow> string \<Rightarrow> daemon \<Rightarrow> daemon" where
  "unit_frozen b name d = d\<lparr>w_units := map (\<lambda>(n, f). (n, if n = name then b else f)) (w_units d)\<rparr>"

definition start :: "string \<Rightarrow> unit act" where
  "start name = outside (unit_started name)"

definition stop :: "string \<Rightarrow> unit act" where
  "stop pat = outside (unit_stopped pat)"

definition is_active_checked :: "string \<Rightarrow> bool act" where
  "is_active_checked pat = asking (unit_active pat)"

definition is_active :: "string \<Rightarrow> bool act" where
  "is_active pat = or_else (is_active_checked pat) (\<lambda>_. pure True)"

definition wait_active :: "string \<Rightarrow> unit act" where
  "wait_active name = outside_if (name @ '' did not become active within 5 seconds'') (unit_active name) (\<lambda>d. d)"

definition wait_inactive :: "string \<Rightarrow> unit act" where
  "wait_inactive name =
     outside_if (name @ '' did not become inactive within 5 seconds'') (\<lambda>d. \<not> unit_active name d) (\<lambda>d. d)"

definition start_and_wait :: "string \<Rightarrow> unit act" where
  "start_and_wait name = io_seq (start name) (wait_active name)"

text \<open>\<open>systemctl kill --signal=KILL\<close> ends the unit's processes.\<close>

definition stop_and_wait :: "string \<Rightarrow> unit act" where
  "stop_and_wait pat =
     io_bind (trying (stop pat)) (\<lambda>first.
     io_bind (is_active_checked pat) (\<lambda>active.
       if \<not> active then pure ()
       else
         io_seq (ignoring_result (outside (unit_stopped pat)))
        (io_seq (ignoring_result (stop pat))
        (failing_as (\<lambda>wait_error. case first of
             Inl e \<Rightarrow> e @ ''; forced stop also failed: '' @ wait_error
           | Inr _ \<Rightarrow> wait_error)
          (wait_inactive pat)))))"

definition restart_unit :: "string \<Rightarrow> unit act" where
  "restart_unit name = outside (\<lambda>d. unit_started name (unit_stopped name d))"

definition freeze_and_wait :: "string \<Rightarrow> unit act" where
  "freeze_and_wait name =
     io_bind (is_active_checked name) (\<lambda>active.
       if \<not> active then giving_up (''cannot freeze inactive unit '' @ name)
       else outside (unit_frozen True name))"

definition thaw_and_wait :: "string \<Rightarrow> unit act" where
  "thaw_and_wait name =
     io_bind (is_active_checked name) (\<lambda>active.
       if \<not> active then giving_up (''cannot thaw inactive unit '' @ name)
       else outside (unit_frozen False name))"

definition MANAGED_DOMAIN_UNITS :: "string list" where
  "MANAGED_DOMAIN_UNITS =
     [''remagic-home.service'', ''remagic-runtime.service'', ''remagic-app@*.service'',
      ''remagic-display-host.service'']"

definition stop_managed_domain :: "unit act" where
  "stop_managed_domain =
     for_all (\<lambda>u. failing_as (\<lambda>e. ''cannot evict managed unit '' @ u @ '': '' @ e) (stop_and_wait u))
       MANAGED_DOMAIN_UNITS"

section \<open>The two domains\<close>

definition acquire_wakelock :: "unit act" where
  "acquire_wakelock = outside (\<lambda>d. d\<lparr>w_wakelock := True\<rparr>)"

definition release_wakelock :: "unit act" where
  "release_wakelock = outside (\<lambda>d. d\<lparr>w_wakelock := False\<rparr>)"

text \<open>Commands whose effect is not tracked: masks, \<open>reset-failed\<close>, the domain marker.\<close>

definition untracked :: "unit act" where
  "untracked = outside (\<lambda>d. d)"

definition start_paperweight_if_installed :: "unit act" where
  "start_paperweight_if_installed =
     io_bind (asking w_paperweight) (\<lambda>installed. if installed then start ''paperweight.service'' else pure ())"

text \<open>The stock shell becomes authoritative. What \<open>ensure_system\<close> does before it, the caller of
  \<open>restore_system\<close> has done.\<close>

definition controller_restore_system :: "unit act" where
  "controller_restore_system =
     io_seq untracked (io_seq untracked (io_seq untracked
    (io_seq (start STOCK_UNIT)
    (io_seq (wait_active STOCK_UNIT)
    (io_seq (ignoring_result release_wakelock)
    (ignoring_result start_paperweight_if_installed))))))"

definition ensure_system :: "unit act" where
  "ensure_system = io_seq stop_managed_domain controller_restore_system"

definition controller_enter_managed :: "unit act" where
  "controller_enter_managed =
     io_seq acquire_wakelock
    (io_seq stop_managed_domain
    (io_seq untracked
    (io_seq (stop_and_wait ''paperweight.service'')
    (io_seq (stop_and_wait STOCK_UNIT)
    (io_seq (ignoring_result untracked) untracked)))))"

text \<open>\<open>suspend\<close>: the checks before the release of the wake lock may fail, and after it the wait.\<close>

definition controller_suspend :: "unit act" where
  "controller_suspend = io_seq untracked (io_seq release_wakelock untracked)"

section \<open>The display host\<close>

definition HOME_KEY :: int where "HOME_KEY = REMAGIC_HOME_QTFB_KEY"

definition display_up :: "daemon \<Rightarrow> bool" where
  "display_up = unit_up DISPLAY_UNIT"

definition surface_sequence :: "int \<Rightarrow> panel_view \<Rightarrow> u64" where
  "surface_sequence key p = (case map_of (p_surfaces p) key of None \<Rightarrow> 0 | Some n \<Rightarrow> n)"

definition on_panel :: "(panel_view \<Rightarrow> panel_view) \<Rightarrow> daemon \<Rightarrow> daemon" where
  "on_panel f d = d\<lparr>w_panel := f (w_panel d)\<rparr>"

definition unreachable :: string where
  "unreachable = ''cannot connect to the display host''"

definition display_status :: "panel_view act" where
  "display_status = outside_with unreachable display_up (\<lambda>d. d) (\<lambda>_. w_panel)"

definition display_wait_ready :: "unit act" where
  "display_wait_ready = outside_if unreachable display_up (\<lambda>d. d)"

definition wait_surface :: "int \<Rightarrow> panel_view act" where
  "wait_surface key =
     outside_with ''application surface did not connect''
       (\<lambda>d. display_up d \<and> 0 < surface_sequence key (w_panel d)) (\<lambda>d. d) (\<lambda>_. w_panel)"

definition wait_surface_sequence :: "int \<Rightarrow> u64 \<Rightarrow> panel_view act" where
  "wait_surface_sequence key n =
     outside_with ''surface did not commit the lock sequence''
       (\<lambda>d. display_up d \<and> map_of (p_surfaces (w_panel d)) key \<noteq> None \<and> n \<le> surface_sequence key (w_panel d))
       (\<lambda>d. d) (\<lambda>_. w_panel)"

text \<open>The display host refuses a new foreground while it is locked, an activation of another lease than
  the prepared one, and a lock while a lease is prepared.\<close>

definition client_set_foreground :: "int \<Rightarrow> u64 \<Rightarrow> u64 \<Rightarrow> unit act" where
  "client_set_foreground key g e =
     io_bind display_status (\<lambda>_.
     outside_if ''display is locked'' (\<lambda>d. display_up d \<and> p_lock (w_panel d) = 0)
       (on_panel (\<lambda>p. p\<lparr>p_shown := Some (key, g, e), p_ink := False, p_prepared := None\<rparr>)))"

definition client_prepare_foreground :: "int \<Rightarrow> u64 \<Rightarrow> u64 \<Rightarrow> unit act" where
  "client_prepare_foreground key g e =
     outside_if ''display is locked'' (\<lambda>d. display_up d \<and> p_lock (w_panel d) = 0)
       (on_panel (\<lambda>p. p\<lparr>p_prepared := Some (key, g, e)\<rparr>))"

definition client_activate_foreground :: "int \<Rightarrow> u64 \<Rightarrow> u64 \<Rightarrow> bool \<Rightarrow> unit act" where
  "client_activate_foreground key g e ink =
     io_bind display_status (\<lambda>_.
     outside_if ''no prepared lease''
       (\<lambda>d. display_up d \<and> p_lock (w_panel d) = 0 \<and> p_prepared (w_panel d) = Some (key, g, e))
       (on_panel (\<lambda>p. p\<lparr>p_shown := Some (key, g, e), p_ink := ink, p_prepared := None\<rparr>)))"

definition client_clear_foreground :: "unit act" where
  "client_clear_foreground =
     outside_if ''cannot clear foreground while display is locked'' (\<lambda>d. display_up d \<and> p_lock (w_panel d) = 0)
       (on_panel (\<lambda>p. p\<lparr>p_shown := None, p_ink := False, p_prepared := None\<rparr>))"

definition client_configure_ink :: "int \<Rightarrow> u64 \<Rightarrow> u64 \<Rightarrow> bool \<Rightarrow> unit act" where
  "client_configure_ink key g e enabled =
     outside_if ''display host did not retain ink fence''
       (\<lambda>d. display_up d \<and> p_lock (w_panel d) = 0 \<and> p_shown (w_panel d) = Some (key, g, e))
       (on_panel (\<lambda>p. p\<lparr>p_ink := enabled\<rparr>))"

definition lock_is_committed_as :: "panel_view \<Rightarrow> int \<Rightarrow> u64 \<Rightarrow> u64 \<Rightarrow> u64 \<Rightarrow> bool" where
  "lock_is_committed_as p key g e sleep = (p_lock p = sleep \<and> p_committed p \<and> p_shown p = Some (key, g, e))"

text \<open>\<open>show_lock\<close>: the request, then the wait until the panel has committed the lock; a repeated request
  of the lock that stands is accepted.\<close>

definition client_show_lock :: "int \<Rightarrow> u64 \<Rightarrow> u64 \<Rightarrow> u64 \<Rightarrow> unit act" where
  "client_show_lock key g e sleep =
     io_bind display_status (\<lambda>_.
     io_seq (outside_if ''display is locked''
       (\<lambda>d. display_up d \<and> p_prepared (w_panel d) = None
         \<and> (p_lock (w_panel d) = 0 \<or> p_lock (w_panel d) = sleep \<and> p_shown (w_panel d) = Some (key, g, e)))
       (on_panel (\<lambda>p. if p_lock p = 0
          then p\<lparr>p_shown := Some (key, g, e), p_ink := False, p_lock := sleep, p_committed := False\<rparr> else p)))
    (io_bind display_status (\<lambda>current.
       if lock_is_committed_as current key g e sleep then pure ()
       else outside_if ''display host did not commit lock'' (\<lambda>d. display_up d \<and> p_lock (w_panel d) = sleep)
              (on_panel (p_committed_update (\<lambda>_. True))))))"

definition client_cancel_lock :: "u64 \<Rightarrow> u64 \<Rightarrow> unit act" where
  "client_cancel_lock sleep replacement =
     io_bind display_status (\<lambda>before.
       if p_lock before \<noteq> sleep \<or> \<not> p_committed before
       then giving_up (''display host has no committed lock epoch '' @ epoch_text sleep @ '' to replace'')
       else case p_shown before of
         None \<Rightarrow> giving_up ''display lock has no foreground surface''
       | Some (key, _, _) \<Rightarrow>
           outside_if ''display host retained the lock after cancellation''
             (\<lambda>d. display_up d \<and> p_lock (w_panel d) = sleep \<and> replacement \<noteq> 0
               \<and> replacement \<le> surface_sequence key (w_panel d))
             (on_panel (\<lambda>p. p\<lparr>p_lock := 0, p_committed := False\<rparr>)))"

section \<open>The power input thread\<close>

definition set_power_grab :: "bool \<Rightarrow> unit act" where
  "set_power_grab g = outside (\<lambda>d. d\<lparr>w_grab := g\<rparr>)"

definition arm_wake_guard :: "unit act" where
  "arm_wake_guard =
     outside_if ''power wake guard is already armed'' (\<lambda>d. \<not> w_guard d) (\<lambda>d. d\<lparr>w_guard := True\<rparr>)"

text \<open>The answer comes when the guard has ended, with what it has seen of the key.\<close>

definition resume_wake_guard :: "bool act" where
  "resume_wake_guard =
     outside_with ''power wake guard is not armed'' w_guard (\<lambda>d. d\<lparr>w_guard := False\<rparr>) (\<lambda>a _. a_power_key a)"

definition cancel_wake_guard :: "unit act" where
  "cancel_wake_guard = outside (\<lambda>d. d\<lparr>w_guard := False\<rparr>)"

section \<open>Files, Home, applications\<close>

definition set_foreground_marker :: "app_id option \<Rightarrow> unit act" where
  "set_foreground_marker m = outside (\<lambda>d. d\<lparr>w_marker := m\<rparr>)"

definition send_home_event :: "string \<Rightarrow> unit act" where
  "send_home_event line = outside (\<lambda>d. d\<lparr>w_home := w_home d @ [line]\<rparr>)"

definition store_save :: "app_session \<Rightarrow> unit act" where
  "store_save s = outside (\<lambda>d. d\<lparr>w_store := bt_insert (ss_app s) s (w_store d)\<rparr>)"

definition store_remove :: "app_id \<Rightarrow> unit act" where
  "store_remove a = outside (\<lambda>d. d\<lparr>w_store := bt_remove a (w_store d)\<rparr>)"

text \<open>The lifecycle socket, and the wait for the status of a token: \<open>wait_event\<close> and
  \<open>wait_background_ready\<close>.\<close>

definition app_send :: "app_id \<Rightarrow> app_command \<Rightarrow> unit act" where
  "app_send a c = outside (\<lambda>d. d\<lparr>w_commands := w_commands d @ [(a, c)]\<rparr>)"

definition wait_lifecycle :: "app_token \<Rightarrow> lifecycle_note act" where
  "wait_lifecycle t = outside_with [] (\<lambda>_. True) (\<lambda>d. d) (\<lambda>a _. a_note a)"

definition restore_desired :: "unit act" where
  "restore_desired = assign (\<lambda>d. d\<lparr>w_lit := True\<rparr>)"

text \<open>\<open>force_off\<close> says whether the light was on; then the supervisor waits for it to settle.\<close>

definition settle_frontlight_after_force_off :: "unit act" where
  "settle_frontlight_after_force_off =
     io_bind (looking w_lit) (\<lambda>lit. io_seq (assign (\<lambda>d. d\<lparr>w_lit := False\<rparr>)) (if lit then pausing else pure ()))"

end
