(* ===== verification/Daemon_Manager.thy ===== *)
theory Daemon_Manager
  imports Daemon_Device
begin

text \<open>
  The two domains of the tablet (\<open>remagicd/src/daemon/navigation.rs\<close>): the manager, whose Home is shown
  by the display host, and the stock shell. Entering the manager, showing Home, and giving the tablet
  back to the stock shell.
\<close>

definition app_unit :: "app_id \<Rightarrow> string" where
  "app_unit a = ''remagic-app@'' @ as_str a @ ''.service''"

section \<open>Sessions\<close>

definition save_session :: "app_session \<Rightarrow> unit act" where
  "save_session s = io_seq (store_save s) (assign (\<lambda>d. d\<lparr>d_sessions := bt_insert (ss_app s) s (d_sessions d)\<rparr>))"

definition unix_now :: "'z device_scheme \<Rightarrow> int" where
  "unix_now d = uint (w_unix_ms d) div 1000"

definition mark_session_process_stopped :: "app_id \<Rightarrow> unit act" where
  "mark_session_process_stopped a =
     io_bind (looking (\<lambda>d. (bt_get (d_sessions d) a, unix_now d))) (\<lambda>(found, now).
       case found of
         None \<Rightarrow> pure ()
       | Some s \<Rightarrow>
           if ss_status s \<noteq> BackgroundSession then pure ()
           else save_session (s\<lparr>ss_status := ParkedSession, ss_updated_at := now\<rparr>))"

section \<open>Home\<close>

definition show_manager_surface :: "unit act" where
  "show_manager_surface =
     io_bind (wait_surface HOME_KEY) (\<lambda>_.
     io_bind allocate_generation (\<lambda>g.
     io_bind allocate_foreground_epoch (\<lambda>e.
     io_seq (client_set_foreground HOME_KEY g e)
     (on_power (set_presentation Home)))))"

definition owns_panel :: "int \<Rightarrow> panel_view \<Rightarrow> bool" where
  "owns_panel key p = (case p_shown p of Some (k, _, _) \<Rightarrow> k = key | None \<Rightarrow> False)"

definition ensure_manager_surface :: "unit act" where
  "ensure_manager_surface =
     io_bind (looking domain_of) (\<lambda>domain.
       if domain \<noteq> ManagerD then pure ()
       else
         io_bind (is_active_checked DISPLAY_UNIT) (\<lambda>display.
           if \<not> display then giving_up ''managed display host stopped while manager owned the domain''
           else
             io_bind (is_active_checked HOME_UNIT) (\<lambda>running.
             io_seq (if running then pure () else start HOME_UNIT)
            (io_bind (wait_surface HOME_KEY) (\<lambda>_.
             io_bind (trying display_status) (\<lambda>status.
               case status of
                 Inr p \<Rightarrow> if owns_panel HOME_KEY p then pure () else show_manager_surface
               | Inl _ \<Rightarrow> show_manager_surface))))))"

definition restart_runtime_and_wait :: "unit act" where
  "restart_runtime_and_wait =
     io_seq (restart_unit HOME_UNIT) (io_bind (wait_surface HOME_KEY) (\<lambda>_. show_manager_surface))"

text \<open>\<open>queue_cover_closed_if_current\<close> only queues an event.\<close>

definition enter_manager :: "unit act" where
  "enter_manager =
     io_seq (apply_transition transition.TriplePower)
    (io_seq (set_power_grab True)
    (io_seq controller_enter_managed
    (io_seq (set_foreground_marker None)
    (io_seq (start DISPLAY_UNIT)
    (io_seq display_wait_ready
    (io_seq (start HOME_UNIT)
    (io_bind (wait_surface HOME_KEY) (\<lambda>_.
     io_seq show_manager_surface
    (io_seq (apply_transition ManagedReady)
    (io_seq (on_power_at enter_managed)
     restore_desired))))))))))"

section \<open>Back to the stock shell\<close>

definition freezes_now :: "app_id \<Rightarrow> daemon \<Rightarrow> bool" where
  "freezes_now a d = (case bt_get (d_execution d) a of Some b \<Rightarrow> freezes_process b | None \<Rightarrow> False)"

text \<open>\<open>a && b.await?\<close>: the second operand is only asked when the first holds.\<close>

definition and_active :: "bool \<Rightarrow> string \<Rightarrow> bool act" where
  "and_active b u = (if b then is_active_checked u else pure False)"

definition stop_managed_app :: "app_id \<Rightarrow> unit act" where
  "stop_managed_app a =
     io_bind (looking (freezes_now a)) (\<lambda>freezes.
     io_bind (and_active freezes (app_unit a)) (\<lambda>active.
     io_seq (if active
             then failing_as (\<lambda>e. ''could not thaw '' @ as_str a @ '' before system restore: '' @ e) (thaw_and_wait (app_unit a))
             else pure ())
    (io_seq (stop_and_wait (app_unit a))
    (ignoring_result (mark_session_process_stopped a)))))"

definition stop_managed_apps :: "unit act" where
  "stop_managed_apps =
     io_bind (looking (\<lambda>d. map m_id (bt_values (d_manifests d)))) (for_all stop_managed_app)"

definition forget_runtimes :: "daemon \<Rightarrow> daemon" where
  "forget_runtimes d = d\<lparr>d_generations := [], d_execution := [], d_fences := [], d_modes := []\<rparr>"

definition restore_system :: "unit act" where
  "restore_system =
     io_bind (looking domain_of) (\<lambda>domain.
       if domain = SystemD then pure ()
       else
         io_seq (assign (\<lambda>d. d\<lparr>d_state := (d_state d)\<lparr>mgr_domain := RestoringSystemD\<rparr>\<rparr>))
        (io_bind (on_sleep sleep_reset) (\<lambda>_.
         io_seq (ignoring_result cancel_wake_guard)
        (io_seq restore_desired
        (io_seq (ignoring_result client_clear_foreground)
        (io_seq (stop_and_wait HOME_UNIT)
        (io_seq stop_managed_apps
        (io_seq (stop_and_wait ''remagic-app@*.service'')
        (io_seq (stop_and_wait ''remagic-runtime.service'')
        (io_seq (stop_and_wait DISPLAY_UNIT)
        (io_seq (assign forget_runtimes)
        (io_seq (ignoring_result (set_foreground_marker None))
        (io_seq controller_restore_system
        (io_seq (set_power_grab False)
        (io_seq (apply_transition SystemReady)
        (on_power enter_stock))))))))))))))))"

definition ensure_manager_or_restore :: "unit act" where
  "ensure_manager_or_restore = or_else ensure_manager_surface (\<lambda>_. restore_system)"

end
