(* ===== verification/Daemon_Apps.thy ===== *)
theory Daemon_Apps
  imports Daemon_Manager
begin

text \<open>
  Parking, closing and the exits of applications (\<open>remagicd/src/daemon/applications.rs\<close>,
  \<open>applications/park.rs\<close>, \<open>applications/park/recovery.rs\<close>). A handler holds the transition lock for its
  whole body; what may still run beside it is in \<open>meanwhile_step\<close>.
\<close>

section \<open>Input modes\<close>

definition initial_input_mode :: "app_manifest \<Rightarrow> input_mode" where
  "initial_input_mode m =
     (if has_capability m ''input:mode-v2'' then AnimationLocked
      else if has_capability m ''ink:direct-v1'' then Writing
      else AnimationLocked)"

definition runtime_input_pending :: "app_token \<Rightarrow> app_manifest \<Rightarrow> string + runtime_input" where
  "runtime_input_pending t m =
     chk (map_err (\<lambda>_. ''invalid application token'') (app_token_validate t))
    (res_bind (ok_or (lease_id t) ''input-mode token has no display lease'') (\<lambda>lease.
     chk (guard (foreground_epoch t = 0) ''input-mode token has zero foreground epoch'')
    (Inr \<lparr>ri_generation = generation t, ri_epoch = foreground_epoch t, ri_lease = lease,
          ri_mode = initial_input_mode m, ri_dynamic = has_capability m ''input:mode-v2'',
          ri_direct_ink = has_capability m ''ink:direct-v1'', ri_pending = True\<rparr>)))"

section \<open>Tables\<close>

definition clear_runtime_tracking :: "app_id \<Rightarrow> daemon \<Rightarrow> daemon" where
  "clear_runtime_tracking a d =
     d\<lparr>d_generations := bt_remove a (d_generations d), d_execution := bt_remove a (d_execution d),
       d_fences := bt_remove a (d_fences d), d_modes := bt_remove a (d_modes d),
       d_exits := bt_remove a (d_exits d), d_missing := bt_remove a (d_missing d)\<rparr>"

text \<open>A table entry that must be there.\<close>

definition entry_of :: "string \<Rightarrow> (daemon \<Rightarrow> 'b option) \<Rightarrow> 'b act" where
  "entry_of refusal f = io_bind (looking f) (\<lambda>v. io_of (ok_or v refusal))"

section \<open>Parking\<close>

record foreground_fence =
  ff_generation :: u64
  ff_epoch :: u64
  ff_lease :: u64

definition fence_token :: "app_id \<Rightarrow> foreground_fence \<Rightarrow> app_token" where
  "fence_token a f =
     \<lparr>app_id = a, generation = ff_generation f, foreground_epoch = ff_epoch f, lease_id = Some (ff_lease f)\<rparr>"

definition supports_lifecycle_v2 :: "app_manifest \<Rightarrow> bool" where
  "supports_lifecycle_v2 m = has_capability m ''lifecycle:v2''"

definition background_session_status :: "bool \<Rightarrow> session_status" where
  "background_session_status resident = (if resident then BackgroundSession else ParkedSession)"

definition begin_park :: "app_id \<Rightarrow> bool \<Rightarrow> unit act" where
  "begin_park a returning_system =
     io_seq (present (''cannot park '' @ as_str a) (\<lambda>d. domain_of d = ForegroundD a))
       (apply_transition (if returning_system then transition.TriplePower else transition.SinglePower))"

definition foreground_fence_if_supported :: "app_id \<Rightarrow> app_manifest \<Rightarrow> foreground_fence option act" where
  "foreground_fence_if_supported a m =
     (if \<not> supports_lifecycle_v2 m then pure None
      else
        io_bind (entry_of (''application '' @ as_str a @ '' has no supervised generation'') (\<lambda>d. bt_get (d_generations d) a)) (\<lambda>g.
        io_bind (entry_of (''application '' @ as_str a @ '' has no foreground lease'') (\<lambda>d. bt_get (d_fences d) a)) (\<lambda>(e, l).
        pure (Some \<lparr>ff_generation = g, ff_epoch = e, ff_lease = l\<rparr>))))"

definition send_background_if_supported ::
  "app_id \<Rightarrow> app_manifest \<Rightarrow> foreground_fence option \<Rightarrow> lifecycle_note option act" where
  "send_background_if_supported a m fence =
     (if \<not> supports_lifecycle_v2 m then pure None
      else
        io_bind (io_of (ok_or (directories (m_runtime m)) (''application '' @ as_str a @ '' has no runtime directory''))) (\<lambda>_.
        io_bind (io_of (ok_or fence (''application '' @ as_str a @ '' lost its foreground fence''))) (\<lambda>f.
        io_seq (app_send a EnterBackground)
       (io_bind (wait_lifecycle (fence_token a f)) (\<lambda>note. pure (Some note))))))"

definition not_blank :: "string option \<Rightarrow> string option" where
  "not_blank v = (case v of Some s \<Rightarrow> if is_blank s then None else v | None \<Rightarrow> None)"

text \<open>The subtitles of a parked and of a crashed session, in UTF-8.\<close>

definition PARKED_SUBTITLE :: string where
  "PARKED_SUBTITLE = map char_of [229::nat, 183, 178, 230, 154, 130, 229, 129, 156, 239, 188, 140, 229, 143, 175,
     231, 187, 167, 231, 187, 173]"

definition CRASHED_SUBTITLE :: string where
  "CRASHED_SUBTITLE = map char_of [229::nat, 186, 148, 231, 148, 168, 229, 188, 130, 229, 184, 184, 233, 128, 128,
     229, 135, 186]"

definition parked_session :: "app_id \<Rightarrow> app_manifest \<Rightarrow> lifecycle_note option \<Rightarrow> daemon \<Rightarrow> app_session" where
  "parked_session a m note d =
     \<lparr>ss_schema = 1, ss_app = a, ss_status = background_session_status (is_resident m),
      ss_title = (case not_blank (Option.bind note ln_title) of Some t \<Rightarrow> t | None \<Rightarrow> m_name m),
      ss_subtitle = (case not_blank (Option.bind note ln_subtitle) of Some t \<Rightarrow> t | None \<Rightarrow> PARKED_SUBTITLE),
      ss_payload =
        (case Option.bind note ln_payload of
           Some p \<Rightarrow> Some p
         | None \<Rightarrow>
             (case Option.bind (bt_get (d_sessions d) a) ss_payload of
                Some p \<Rightarrow> Some p
              | None \<Rightarrow> if note = None then Some (''{'' @ [CHR 0x22] @ ''parked'' @ [CHR 0x22] @ '':true}'') else None)),
      ss_updated_at = unix_now d, ss_last_error = None\<rparr>"

definition finish_park_transition :: "app_id \<Rightarrow> unit act" where
  "finish_park_transition a =
     io_seq (set_foreground_marker None)
    (io_bind (looking domain_of) (\<lambda>domain.
       if domain = ParkingD a then apply_transition (AppParked a)
       else if domain = ManagerD then pure ()
       else giving_up ''application stopped in unexpected state''))"

text \<open>The second half of \<open>complete_park\<close>, after the application has saved its state.\<close>

definition hand_over :: "app_id \<Rightarrow> app_session \<Rightarrow> bool \<Rightarrow> unit act" where
  "hand_over a session show_manager =
     io_seq (save_session session)
    (io_seq (present (''park ownership for '' @ as_str a @ '' changed before display handoff'') (\<lambda>d. domain_of d = ParkingD a))
    (io_seq (set_foreground_marker None)
    (io_seq (if show_manager then show_manager_surface else client_clear_foreground)
    (io_bind (entry_of (''application '' @ as_str a @ '' lost its scheduling policy during park'') (\<lambda>d. bt_get (d_execution d) a)) (\<lambda>b.
     io_seq (if freezes_process b
             then failing_as (\<lambda>e. ''could not freeze background application '' @ as_str a @ '': '' @ e)
                    (freeze_and_wait (app_unit a))
             else pure ())
    (finish_park_transition a))))))"

text \<open>\<open>complete_park\<close>, with the payload it leaves in \<open>recovery_payload\<close>.\<close>

definition complete_park ::
  "app_id \<Rightarrow> app_manifest \<Rightarrow> foreground_fence option \<Rightarrow> bool \<Rightarrow> string option \<Rightarrow> ((string + unit) \<times> string option) act" where
  "complete_park a m fence show_manager payload =
     io_bind (trying (send_background_if_supported a m fence)) (\<lambda>parked.
       case parked of
         Inl e \<Rightarrow> pure (Inl e, payload)
       | Inr note \<Rightarrow>
           io_bind (looking (parked_session a m note)) (\<lambda>session.
           io_bind (trying (hand_over a session show_manager)) (\<lambda>r.
           pure (r, if ss_payload session \<noteq> None then ss_payload session else payload))))"

section \<open>Recovery of a failed park\<close>

definition validate_recovery_fence :: "app_id \<Rightarrow> foreground_fence \<Rightarrow> unit act" where
  "validate_recovery_fence a old =
     io_seq (present (''park recovery for '' @ as_str a @ '' no longer owns Parking'') (\<lambda>d. domain_of d = ParkingD a))
    (present (''park recovery for '' @ as_str a @ '' lost its original runtime fence'')
       (\<lambda>d. bt_get (d_generations d) a = Some (ff_generation old)
          \<and> bt_get (d_fences d) a = Some (ff_epoch old, ff_lease old)))"

definition settle_input :: "app_id \<Rightarrow> daemon \<Rightarrow> daemon" where
  "settle_input a d = d\<lparr>d_modes := bt_modify a (ri_pending_update (\<lambda>_. False)) (d_modes d)\<rparr>"

text \<open>The input fence of a token that is still pending; the two texts are those of the refusals.\<close>

definition pending_input :: "string \<times> string \<Rightarrow> app_token \<Rightarrow> runtime_input act" where
  "pending_input e t =
     io_bind (entry_of (''application '' @ as_str (app_id t) @ '' lost its '' @ fst e @ '' input fence'') (\<lambda>d. bt_get (d_modes d) (app_id t))) (\<lambda>i.
     io_seq (io_of (guard (\<not> input_matches i t \<or> \<not> ri_pending i)
               (''application '' @ as_str (app_id t) @ '' input fence changed '' @ snd e)))
     (pure i))"

definition commit_restored_foreground :: "app_token \<Rightarrow> unit act" where
  "commit_restored_foreground t =
     holding_modes (io_bind (pending_input (''recovery'', ''during park recovery'') t) (\<lambda>i.
     io_seq (client_activate_foreground (qtfb_key_for_app (app_id t)) (generation t) (foreground_epoch t) (ink_enabled_mode (ri_mode i)))
    (io_seq (apply_transition (AppRestored (app_id t)))
    (io_seq (assign (settle_input (app_id t)))
    (set_foreground_marker (Some (app_id t)))))))"

definition restore_foreground_after_failed_park ::
  "app_id \<Rightarrow> app_manifest \<Rightarrow> foreground_fence \<Rightarrow> string option \<Rightarrow> unit act" where
  "restore_foreground_after_failed_park a m old payload =
     io_seq (validate_recovery_fence a old)
    (io_bind (is_active_checked (app_unit a)) (\<lambda>active.
     io_seq (io_of (guard (\<not> active) (''application '' @ as_str a @ '' exited during park recovery'')))
    (io_bind (entry_of (''application '' @ as_str a @ '' lost its scheduling policy during recovery'') (\<lambda>d. bt_get (d_execution d) a)) (\<lambda>b.
     io_seq (if freezes_process b
             then failing_as (\<lambda>e. ''could not thaw '' @ as_str a @ '' for park recovery: '' @ e) (thaw_and_wait (app_unit a))
             else pure ())
    (io_bind (io_of (ok_or (directories (m_runtime m)) (''application '' @ as_str a @ '' has no runtime directory''))) (\<lambda>_.
     io_bind allocate_foreground_epoch (\<lambda>e.
       let t = \<lparr>app_id = a, generation = ff_generation old, foreground_epoch = e, lease_id = Some e\<rparr> in
       io_seq (assign (\<lambda>d. d\<lparr>d_fences := bt_insert a (e, e) (d_fences d)\<rparr>))
      (io_bind (io_of (runtime_input_pending t m)) (\<lambda>i.
       io_seq (assign (\<lambda>d. d\<lparr>d_modes := bt_insert a i (d_modes d)\<rparr>))
      (io_seq (client_prepare_foreground (qtfb_key_for_app a) (ff_generation old) e)
      (io_seq (app_send a (EnterForeground payload None e e))
      (io_bind (wait_lifecycle t) (\<lambda>_.
       io_bind (is_active_checked (app_unit a)) (\<lambda>still.
       io_seq (io_of (guard (\<not> still) (''application '' @ as_str a @ '' exited before foreground recovery commit'')))
      (commit_restored_foreground t)))))))))))))))"

definition force_stop_after_failed_park :: "app_id \<Rightarrow> unit act" where
  "force_stop_after_failed_park a =
     io_bind (looking (freezes_now a)) (\<lambda>freezes.
     io_bind (and_active freezes (app_unit a)) (\<lambda>active.
     io_seq (if active then thaw_and_wait (app_unit a) else pure ())
    (io_seq (failing_as (\<lambda>e. ''could not stop '' @ as_str a @ '': '' @ e) (stop_and_wait (app_unit a)))
    (io_seq (mark_session_process_stopped a)
    (io_seq (assign (clear_runtime_tracking a))
    (io_bind (looking domain_of) (\<lambda>domain.
     io_seq (if domain = ParkingD a \<or> domain = ForegroundD a then apply_transition (AppExited a)
             else if domain = ManagerD then pure ()
             else giving_up (''stopped '' @ as_str a @ '' while manager domain was unexpected''))
    (io_seq (set_foreground_marker None)
    show_manager_surface))))))))"

definition recover_failed_park ::
  "app_id \<Rightarrow> app_manifest \<Rightarrow> foreground_fence option \<Rightarrow> string option \<Rightarrow> string act" where
  "recover_failed_park a m fence payload =
     io_bind (trying (case fence of
         Some f \<Rightarrow> restore_foreground_after_failed_park a m f payload
       | None \<Rightarrow> giving_up ''application does not support fenced lifecycle recovery'')) (\<lambda>restore.
       case restore of
         Inr _ \<Rightarrow> pure ''application foreground was restored with a new lease''
       | Inl restore_error \<Rightarrow>
           io_seq (failing_as (\<lambda>stop_error.
               ''foreground restore failed ('' @ restore_error @ ''); forced stop failed ('' @ stop_error @ '')'')
               (force_stop_after_failed_park a))
           (pure (''foreground restore failed ('' @ restore_error
                  @ ''); application was stopped and manager ownership was restored'')))"

definition park :: "app_id \<Rightarrow> bool \<Rightarrow> bool \<Rightarrow> unit act" where
  "park a returning_system show_manager =
     io_bind (entry_of (''unknown application '' @ as_str a) (\<lambda>d. bt_get (d_manifests d) a)) (\<lambda>m.
     io_bind (looking (\<lambda>d. Option.bind (bt_get (d_sessions d) a) ss_payload)) (\<lambda>payload.
     io_bind (foreground_fence_if_supported a m) (\<lambda>fence.
     io_seq (begin_park a returning_system)
    (io_bind (complete_park a m fence show_manager payload) (\<lambda>(r, recovery_payload).
       case r of
         Inr _ \<Rightarrow> pure ()
       | Inl cause \<Rightarrow>
           io_bind (trying (recover_failed_park a m fence recovery_payload)) (\<lambda>recovery.
           giving_up (case recovery of
               Inr summary \<Rightarrow> cause @ ''; '' @ summary
             | Inl e \<Rightarrow> cause @ ''; park recovery failed: '' @ e)))))))"

text \<open>The callback of an application without the fenced lifecycle.\<close>

definition record_parked :: "app_session \<Rightarrow> unit act" where
  "record_parked s =
     (let a = ss_app s in
      io_bind (looking (\<lambda>d. (bt_get (d_manifests d) a, domain_of d))) (\<lambda>(m, domain).
        if (case m of Some m \<Rightarrow> supports_lifecycle_v2 m | None \<Rightarrow> False) then pure ()
        else if domain \<noteq> ParkingD a then pure ()
        else
          io_seq (save_session s)
         (io_seq (set_foreground_marker None)
         (io_bind (looking domain_of) (\<lambda>now. if now = ParkingD a then apply_transition (AppParked a) else pure ())))))"

section \<open>Closing\<close>

definition reserve_controlled_exit :: "app_id \<Rightarrow> pending_exit option act" where
  "reserve_controlled_exit a d =
     (case bt_get (d_generations d) a of
        None \<Rightarrow> (Done None, d)
      | Some g \<Rightarrow>
          let pending = \<lparr>pe_generation = g, pe_source = ControlledExit\<rparr> in
          (Done (Some pending), d\<lparr>d_exits := bt_insert a pending (d_exits d)\<rparr>))"

definition release_controlled_exit :: "app_id \<Rightarrow> pending_exit option \<Rightarrow> unit act" where
  "release_controlled_exit a pending =
     assign (\<lambda>d. if pending \<noteq> None \<and> bt_get (d_exits d) a = pending
                 then d\<lparr>d_exits := bt_remove a (d_exits d)\<rparr> else d)"

definition thaw_before_shutdown :: "app_id \<Rightarrow> unit act" where
  "thaw_before_shutdown a =
     io_bind (looking (freezes_now a)) (\<lambda>freezes.
     io_bind (and_active freezes (app_unit a)) (\<lambda>active.
       if active
       then failing_as (\<lambda>e. ''could not thaw '' @ as_str a @ '' before shutdown: '' @ e) (thaw_and_wait (app_unit a))
       else pure ()))"

definition request_shutdown :: "app_id \<Rightarrow> app_manifest option \<Rightarrow> unit act" where
  "request_shutdown a m =
     io_bind (is_active (app_unit a)) (\<lambda>active.
       if \<not> active \<or> Option.bind m (directories \<circ> m_runtime) = None then pure ()
       else ignoring_result (app_send a ShutdownApp))"

definition reveal_manager_before_close :: "unit act" where
  "reveal_manager_before_close =
     io_seq (apply_transition transition.SinglePower) (io_seq (set_foreground_marker None) show_manager_surface)"

definition managed_background_unit :: "app_id \<Rightarrow> string" where
  "managed_background_unit a = ''remagic-background-'' @ as_str a @ ''.service''"

definition background_unit_of :: "app_manifest \<Rightarrow> string option" where
  "background_unit_of m =
     (case effective_background_service m of
        Some (SystemdUnit u) \<Rightarrow> Some u
      | Some (ManagedService _ _ _ _) \<Rightarrow> Some (managed_background_unit (m_id m))
      | None \<Rightarrow> None)"

definition stop_background_service :: "app_manifest option \<Rightarrow> unit act" where
  "stop_background_service m =
     (case Option.bind m background_unit_of of None \<Rightarrow> pure () | Some u \<Rightarrow> stop_and_wait u)"

definition clear_closed_last_app :: "app_id \<Rightarrow> manager_state \<Rightarrow> manager_state" where
  "clear_closed_last_app a s = (if mgr_last_app s = Some a then s\<lparr>mgr_last_app := None\<rparr> else s)"

definition close_body :: "app_id \<Rightarrow> bool \<Rightarrow> bool \<Rightarrow> app_manifest option \<Rightarrow> unit act" where
  "close_body a complete was_foreground m =
     io_seq (thaw_before_shutdown a)
    (io_seq (request_shutdown a m)
    (io_seq (if was_foreground then reveal_manager_before_close else pure ())
    (io_seq (stop_and_wait (app_unit a))
    (io_seq (assign (clear_runtime_tracking a))
    (io_seq (if was_foreground then apply_transition (AppExited a) else pure ())
    (io_seq (assign (\<lambda>d. d\<lparr>d_state := clear_closed_last_app a (d_state d)\<rparr>))
    (io_seq (store_remove a)
    (io_seq (assign (\<lambda>d. d\<lparr>d_sessions := bt_remove a (d_sessions d)\<rparr>))
    (if complete then stop_background_service m else pure ())))))))))"

definition close_app :: "app_id \<Rightarrow> bool \<Rightarrow> unit act" where
  "close_app a complete =
     io_bind (looking (\<lambda>d. (domain_of d = ForegroundD a, bt_get (d_manifests d) a))) (\<lambda>(was_foreground, m).
     io_bind (reserve_controlled_exit a) (\<lambda>controlled.
     or_else (close_body a complete was_foreground m) (\<lambda>e.
       io_seq (release_controlled_exit a controlled) (giving_up e))))"

section \<open>Exits\<close>

definition consume_exit_report ::
  "(app_id, pending_exit) btree \<Rightarrow> app_id \<Rightarrow> pending_exit \<Rightarrow> bool \<times> (app_id, pending_exit) btree" where
  "consume_exit_report reports a e =
     (if bt_get reports a \<noteq> Some e then (False, reports) else (True, bt_remove a reports))"

definition consume_report :: "app_id \<Rightarrow> pending_exit \<Rightarrow> bool act" where
  "consume_report a e d =
     (let (accepted, reports) = consume_exit_report (d_exits d) a e in (Done accepted, d\<lparr>d_exits := reports\<rparr>))"

definition runtime_generation_matches :: "(app_id, u64) btree \<Rightarrow> app_id \<Rightarrow> u64 \<Rightarrow> bool" where
  "runtime_generation_matches generations a g = (g \<noteq> 0 \<and> bt_get generations a = Some g)"

definition take_matching_generation :: "app_id \<Rightarrow> u64 \<Rightarrow> bool act" where
  "take_matching_generation a g d =
     (if \<not> runtime_generation_matches (d_generations d) a g then (Done False, d)
      else (Done True, d\<lparr>d_generations := bt_remove a (d_generations d)\<rparr>))"

definition owns_domain :: "domain_state \<Rightarrow> app_id \<Rightarrow> bool" where
  "owns_domain dm a = (dm = LaunchingD a \<or> dm = ForegroundD a \<or> dm = ParkingD a)"

definition runtime_exit_is_crash :: "int \<Rightarrow> bool \<Rightarrow> bool" where
  "runtime_exit_is_crash exit_code reported = (reported \<or> exit_code \<noteq> 0)"

definition update_session_after_exit :: "app_id \<Rightarrow> int \<Rightarrow> bool \<Rightarrow> unit act" where
  "update_session_after_exit a exit_code crashed =
     (if \<not> crashed
      then io_seq (store_remove a) (assign (\<lambda>d. d\<lparr>d_sessions := bt_remove a (d_sessions d)\<rparr>))
      else
        io_bind (looking (\<lambda>d.
            \<lparr>ss_schema = 1, ss_app = a, ss_status = CrashedSession,
             ss_title = (case bt_get (d_manifests d) a of Some m \<Rightarrow> m_name m | None \<Rightarrow> as_str a),
             ss_subtitle = CRASHED_SUBTITLE, ss_payload = Option.bind (bt_get (d_sessions d) a) ss_payload,
             ss_updated_at = unix_now d,
             ss_last_error = Some (''process exited with code '' @ decimal exit_code)\<rparr>)) save_session)"

definition forget_exited :: "app_id \<Rightarrow> daemon \<Rightarrow> daemon" where
  "forget_exited a d =
     d\<lparr>d_fences := bt_remove a (d_fences d), d_execution := bt_remove a (d_execution d), d_modes := bt_remove a (d_modes d)\<rparr>"

definition record_runtime_exit :: "app_id \<Rightarrow> u64 \<Rightarrow> int \<Rightarrow> bool \<Rightarrow> exit_source \<Rightarrow> unit act" where
  "record_runtime_exit a g exit_code reported source =
     io_bind (consume_report a \<lparr>pe_generation = g, pe_source = source\<rparr>) (\<lambda>accepted.
       if \<not> accepted then pure ()
       else
         io_seq (assign (\<lambda>d. d\<lparr>d_missing := bt_remove a (d_missing d)\<rparr>))
        (io_bind (take_matching_generation a g) (\<lambda>current.
           if \<not> current then pure ()
           else
             io_seq (assign (forget_exited a))
            (io_bind (looking domain_of) (\<lambda>domain.
             let crashed = runtime_exit_is_crash exit_code reported; was_foreground = (domain = ForegroundD a) in
             io_seq (if was_foreground then set_foreground_marker None else pure ())
            (io_seq (if owns_domain domain a
                     then apply_transition (if crashed then AppCrashed a else AppExited a) else pure ())
            (io_seq (if was_foreground then show_manager_surface else pure ())
            (update_session_after_exit a exit_code crashed))))))))"

end
