(* ===== verification/Daemon_Launch.thy ===== *)
theory Daemon_Launch
  imports Daemon_Apps
begin

text \<open>
  Launching an application (\<open>remagicd/src/daemon/launch.rs\<close> and \<open>launch/\<close>): the route, the context, the
  background service, the process, the wait for readiness, the commit of the foreground, and the
  rollback when any of it fails.
\<close>

section \<open>Routing\<close>

datatype launch_route = AlreadyForeground | ParkFirst app_id | FromManager

definition launch_route_of :: "domain_state \<Rightarrow> app_id \<Rightarrow> bool \<Rightarrow> string + launch_route" where
  "launch_route_of dm a no_path =
     (case dm of
        ForegroundD current \<Rightarrow> if current = a \<and> no_path then Inr AlreadyForeground else Inr (ParkFirst current)
      | ManagerD \<Rightarrow> Inr FromManager
      | _ \<Rightarrow> Inl ''applications can only be launched from manager or foreground app'')"

definition ensure_foreground_capable :: "app_manifest \<Rightarrow> string + unit" where
  "ensure_foreground_capable m =
     guard (m_display m \<noteq> ''qtfb'')
       (''application '' @ as_str (m_id m) @ '' is a headless system component and cannot enter the foreground'')"

definition background_execution_of ::
  "bool \<Rightarrow> background_execution option \<Rightarrow> background_execution \<Rightarrow> app_id \<Rightarrow> string + background_execution" where
  "background_execution_of live captured declared a =
     (if live then ok_or captured (''active application '' @ as_str a @ '' lost its scheduling policy'')
      else Inr declared)"

record launch_context =
  lc_app :: app_id
  lc_manifest :: app_manifest
  lc_open_path :: "path option"
  lc_payload :: "string option"
  lc_active :: bool
  lc_generation :: u64
  lc_execution :: background_execution
  lc_epoch :: u64
  lc_lease :: u64
  lc_key :: int
  lc_quiesced :: bool

definition context_token :: "launch_context \<Rightarrow> app_token" where
  "context_token c =
     \<lparr>app_id = lc_app c, generation = lc_generation c, foreground_epoch = lc_epoch c, lease_id = Some (lc_lease c)\<rparr>"

definition context_unit :: "launch_context \<Rightarrow> string" where
  "context_unit c = app_unit (lc_app c)"

text \<open>The request has not timed out, and no newer interaction has been queued.\<close>

definition ensure_launch_current :: "u64 \<Rightarrow> unit act" where
  "ensure_launch_current epoch =
     present ''application launch was superseded by a newer interaction''
       (\<lambda>d. \<not> fence_is_cancelled (d_fence d) \<and> d_interrupts d = epoch)"

section \<open>Background services\<close>

definition background_pairs :: "app_manifest \<Rightarrow> runtime_directories \<Rightarrow> (string \<times> string) list" where
  "background_pairs m dirs =
     [(''HOME'', home dirs), (''XDG_CONFIG_HOME'', config_home dirs), (''XDG_DATA_HOME'', data_home dirs),
      (''XDG_STATE_HOME'', state_home dirs), (''XDG_CACHE_HOME'', cache_home dirs),
      (''LANG'', lang (locale_req (m_runtime m))), (''TZ'', timezone (m_runtime m)),
      (''REMAGIC_APP_ID'', as_str (m_id m)), (''REMAGIC_MANAGED'', ''1''), (''REMAGIC_BACKGROUND_SERVICE'', ''1''),
      (''REMAGIC_RUNTIME_SOCKET'', ''/run/remagic/runtime-app.sock'')]"

definition agent_pairs :: "string \<Rightarrow> u64 \<Rightarrow> (string \<times> string) list" where
  "agent_pairs secret g =
     [(''REMAGIC_AGENT_SOCKET'', ''/run/remagic/agent.sock''), (''REMAGIC_AGENT_TOKEN'', secret),
      (''REMAGIC_AGENT_PRINCIPAL'', ''background''), (''REMAGIC_APP_GENERATION'', epoch_text g)]"

definition insert_pairs :: "(string \<times> string) list \<Rightarrow> env_map \<Rightarrow> env_map" where
  "insert_pairs kvs m = fold (\<lambda>(k, v). bt_insert k v) kvs m"

text \<open>\<open>secret\<close> is what \<open>/dev/urandom\<close> gave.\<close>

definition managed_background_environment ::
  "app_manifest \<Rightarrow> u64 option \<Rightarrow> string + string \<Rightarrow> string + env_map" where
  "managed_background_environment m agent_generation secret =
     res_bind (ok_or (directories (m_runtime m)) (''application '' @ as_str (m_id m) @ '' has no runtime directories'')) (\<lambda>dirs.
       let vars = insert_pairs (background_pairs m dirs) (m_environment m) in
       if has_capability m ''agent:pi-v1''
       then res_bind (ok_or agent_generation (''application '' @ as_str (m_id m) @ '' has no background agent generation'')) (\<lambda>g.
            res_bind secret (\<lambda>tok. Inr (insert_pairs (agent_pairs tok g) vars)))
       else Inr vars)"

text \<open>\<open>systemd_run_arguments\<close> refuses a variable that cannot be passed on.\<close>

definition bad_variable :: "string \<times> string \<Rightarrow> bool" where
  "bad_variable = (\<lambda>(k, v). CHR ''='' \<in> set k \<or> nul \<in> set k \<or> nul \<in> set v)"

definition start_managed_background :: "app_id \<Rightarrow> env_map \<Rightarrow> unit act" where
  "start_managed_background a vars =
     (let u = managed_background_unit a in
      io_bind (is_active_checked u) (\<lambda>active.
        if active then pure ()
        else
          io_seq untracked
         (io_seq (io_of (guard (list_ex bad_variable vars) ''invalid managed background environment key''))
         (io_seq (outside (unit_started u)) (wait_active u)))))"

definition ensure_background_service :: "app_manifest \<Rightarrow> unit act" where
  "ensure_background_service m =
     (case effective_background_service m of
        Some (SystemdUnit u) \<Rightarrow>
          io_bind (is_active_checked u) (\<lambda>active. if active then pure () else start_and_wait u)
      | Some (ManagedService _ _ _ _) \<Rightarrow>
          io_bind (if has_capability m ''agent:pi-v1''
                   then io_bind allocate_generation (\<lambda>g. pure (Some g)) else pure None) (\<lambda>g.
          io_bind (asking w_secret) (\<lambda>secret.
          io_bind (io_of (managed_background_environment m g secret)) (start_managed_background (m_id m))))
      | None \<Rightarrow> pure ())"

definition start_declared_background_services :: "unit act" where
  "start_declared_background_services =
     io_bind (looking (\<lambda>d. bt_values (d_manifests d)))
       (for_all (\<lambda>m. ignoring_result (ensure_background_service m)))"

definition should_quiesce_background :: "bool \<Rightarrow> app_manifest \<Rightarrow> bool" where
  "should_quiesce_background live m = (\<not> live \<and> m_data_schema m \<noteq> None)"

section \<open>Schema phases\<close>

text \<open>\<open>phase_matches\<close> on a regular file: absent, of this generation, or stale.\<close>

definition phase_matches :: "app_id \<Rightarrow> bool \<Rightarrow> u64 \<Rightarrow> 'z device_scheme \<Rightarrow> string + bool" where
  "phase_matches a complete g d =
     (case map_of (w_phases d) (a, complete) of
        None \<Rightarrow> Inr False
      | Some n \<Rightarrow> if n = g then Inr True else Inl ''schema phase has a stale generation'')"

definition clear_phase_markers :: "launch_context \<Rightarrow> unit act" where
  "clear_phase_markers c =
     (if m_data_schema (lc_manifest c) = None then pure ()
      else for_all (\<lambda>complete.
        outside (\<lambda>d. d\<lparr>w_phases := filter (\<lambda>(k, _). k \<noteq> (lc_app c, complete)) (w_phases d)\<rparr>)) [False, True])"

definition wait_phase :: "launch_context \<Rightarrow> bool \<Rightarrow> unit act" where
  "wait_phase c complete =
     outside_if ''schema phase exceeded its deadline''
       (\<lambda>d. phase_matches (lc_app c) complete (lc_generation c) d = Inr True) (\<lambda>d. d)"

definition background_restore_is_safe :: "launch_context \<Rightarrow> bool act" where
  "background_restore_is_safe c =
     (if \<not> lc_quiesced c then pure True
      else or_else (asking (\<lambda>d. case phase_matches (lc_app c) True (lc_generation c) d of
                                   Inr b \<Rightarrow> b | Inl _ \<Rightarrow> False)) (\<lambda>_. pure False))"

section \<open>Preparing\<close>

definition validate_existing_runtime :: "app_id \<Rightarrow> bool act" where
  "validate_existing_runtime a =
     io_bind (is_active_checked (app_unit a)) (\<lambda>active.
     io_bind (looking (\<lambda>d. bt_get (d_generations d) a = None \<or> bt_get (d_fences d) a = None
                          \<or> bt_get (d_execution d) a = None)) (\<lambda>incomplete.
       if \<not> (active \<and> incomplete) then pure active
       else
         io_bind (trying (thaw_and_wait (app_unit a))) (\<lambda>thaw.
         io_seq (failing_as (\<lambda>stop_error. case thaw of
              Inl thaw_error \<Rightarrow> ''could not settle stale runtime: thaw failed: '' @ thaw_error @ ''; stop failed: '' @ stop_error
            | Inr _ \<Rightarrow> stop_error) (stop_and_wait (app_unit a)))
        (io_seq (mark_session_process_stopped a)
        (io_seq (assign (\<lambda>d. d\<lparr>d_generations := bt_remove a (d_generations d), d_fences := bt_remove a (d_fences d),
                              d_execution := bt_remove a (d_execution d)\<rparr>))
        (pure False))))))"

definition prepare_launch :: "(path \<Rightarrow> string + path) \<Rightarrow> app_id \<Rightarrow> path option \<Rightarrow> launch_context act" where
  "prepare_launch canonicalize a open_path =
     io_bind (entry_of (''unknown application '' @ as_str a) (\<lambda>d. bt_get (d_manifests d) a)) (\<lambda>m.
     io_seq (io_of (ensure_foreground_capable m))
    (io_seq untracked
    (io_bind (case open_path of
          None \<Rightarrow> pure None
        | Some p \<Rightarrow> io_bind (io_of (map_err (\<lambda>_. ''open path was refused'') (validate_open_path canonicalize m p))) (\<lambda>q. pure (Some q))) (\<lambda>path.
     io_bind (looking (\<lambda>d. Option.bind (bt_get (d_sessions d) a) ss_payload)) (\<lambda>payload.
     io_bind (validate_existing_runtime a) (\<lambda>active.
     let quiesced = should_quiesce_background active m in
     io_seq (if quiesced
             then (case background_unit_of m of None \<Rightarrow> pure () | Some u \<Rightarrow> stop_and_wait u)
             else ensure_background_service m)
    (io_bind (if active
              then entry_of (''active application '' @ as_str a @ '' lost its generation'') (\<lambda>d. bt_get (d_generations d) a)
              else allocate_generation) (\<lambda>g.
     io_bind (looking (\<lambda>d. bt_get (d_execution d) a)) (\<lambda>captured.
     io_bind (io_of (background_execution_of active captured (background_exec (m_runtime m)) a)) (\<lambda>b.
     io_bind allocate_foreground_epoch (\<lambda>e.
     io_bind (io_of (ok_or (directories (m_runtime m)) (''application '' @ as_str a @ '' has no runtime directory''))) (\<lambda>_.
     pure \<lparr>lc_app = a, lc_manifest = m, lc_open_path = path, lc_payload = payload, lc_active = active,
           lc_generation = g, lc_execution = b, lc_epoch = e, lc_lease = e, lc_key = qtfb_key_for_app a,
           lc_quiesced = quiesced\<rparr>))))))))))))"

section \<open>Activation\<close>

definition publish_launch_descriptor :: "launch_context \<Rightarrow> unit act" where
  "publish_launch_descriptor c = io_seq untracked untracked"

definition register_runtime :: "launch_context \<Rightarrow> unit act" where
  "register_runtime c =
     io_seq (assign (\<lambda>d. d\<lparr>d_generations := bt_insert (lc_app c) (lc_generation c) (d_generations d),
                          d_execution := bt_insert (lc_app c) (lc_execution c) (d_execution d),
                          d_fences := bt_insert (lc_app c) (lc_epoch c, lc_lease c) (d_fences d)\<rparr>))
    (io_bind (io_of (runtime_input_pending (context_token c) (lc_manifest c))) (\<lambda>i.
     assign (\<lambda>d. d\<lparr>d_modes := bt_insert (lc_app c) i (d_modes d)\<rparr>)))"

text \<open>The readiness of the application. The two other branches of the \<open>select!\<close>, which watch the unit,
  the display host and newer interactions, only end a wait with an error.\<close>

definition wait_for_application :: "launch_context \<Rightarrow> unit act" where
  "wait_for_application c =
     (let m = lc_manifest c; migrates = \<not> lc_active c \<and> m_data_schema m \<noteq> None in
      io_seq (if migrates then wait_phase c False else pure ())
     (io_seq (if migrates then wait_phase c True else pure ())
     (io_seq (case ready_mode (m_readiness m) of
                Lifecycle \<Rightarrow> io_bind (wait_lifecycle (context_token c)) (\<lambda>_. pure ())
              | FirstFrame \<Rightarrow> io_bind (wait_lifecycle (context_token c)) (\<lambda>_. pure ())
              | ReadyFile \<Rightarrow>
                  io_bind (io_of (ok_or (ready_path (m_readiness m)) (''application '' @ as_str (lc_app c) @ '' has no readiness file''))) (\<lambda>_. untracked)
              | Process \<Rightarrow> pure ())
     (if m_display m = ''qtfb'' then io_bind (wait_surface (lc_key c)) (\<lambda>_. pure ()) else pure ()))))"

definition activate_and_wait :: "launch_context \<Rightarrow> u64 \<Rightarrow> unit act" where
  "activate_and_wait c epoch =
     io_seq (ensure_launch_current epoch)
    (io_seq (publish_launch_descriptor c)
    (io_seq (register_runtime c)
    (io_seq (if lc_active c
             then io_seq (if freezes_process (lc_execution c)
                          then failing_as (\<lambda>e. ''could not thaw '' @ as_str (lc_app c) @ '' before foreground recall: '' @ e)
                                 (thaw_and_wait (context_unit c))
                          else pure ())
                    (app_send (lc_app c) (EnterForeground (lc_payload c) (lc_open_path c) (lc_epoch c) (lc_lease c)))
             else io_seq (clear_phase_markers c) (start (context_unit c)))
    (io_seq (wait_for_application c)
    (io_seq (ensure_launch_current epoch)
    (io_bind (is_active_checked (context_unit c)) (\<lambda>active.
     io_seq (io_of (guard (\<not> active) (context_unit c @ '' exited before foreground commit'')))
    (io_seq (ensure_background_service (lc_manifest c))
    (io_seq (ensure_launch_current epoch)
    (ensure_launch_current epoch))))))))))"

section \<open>Commit and rollback\<close>

definition publish_foreground :: "launch_context \<Rightarrow> unit act" where
  "publish_foreground c =
     holding_modes (io_bind (pending_input (''pending'', ''before foreground commit'') (context_token c)) (\<lambda>i.
     io_seq (client_prepare_foreground (lc_key c) (lc_generation c) (lc_epoch c))
    (io_seq (client_activate_foreground (lc_key c) (lc_generation c) (lc_epoch c) (ink_enabled_mode (ri_mode i)))
    (io_seq (apply_transition (AppReady (lc_app c)))
    (io_seq (assign (settle_input (lc_app c)))
    (set_foreground_marker (Some (lc_app c))))))))"

definition commit_launch :: "launch_context \<Rightarrow> u64 \<Rightarrow> unit act" where
  "commit_launch c epoch =
     io_seq (ensure_launch_current epoch)
    (io_seq (begin_commit ''application launch was cancelled before foreground commit'')
    (io_seq (present ''application launch was superseded at foreground commit'' (\<lambda>d. d_interrupts d = epoch))
    (io_seq (publish_foreground c)
    (on_power (set_presentation (ForegroundApp (lc_app c)))))))"

definition rollback_launch :: "launch_context \<Rightarrow> unit act" where
  "rollback_launch c =
     io_bind (and_active (freezes_process (lc_execution c)) (context_unit c)) (\<lambda>active.
     io_seq (if active
             then failing_as (\<lambda>e. ''could not thaw '' @ as_str (lc_app c) @ '' during launch rollback: '' @ e)
                    (thaw_and_wait (context_unit c))
             else pure ())
    (io_seq (failing_as (\<lambda>e. ''could not stop '' @ context_unit c @ '': '' @ e) (stop_and_wait (context_unit c)))
    (io_seq (mark_session_process_stopped (lc_app c))
    (io_seq (ignoring_result untracked)
    (io_seq (assign (clear_runtime_tracking (lc_app c)))
    (io_seq (failing_as (\<lambda>e. ''could not roll back launch state: '' @ e) (apply_transition (AppExited (lc_app c))))
    (io_seq (failing_as (\<lambda>e. ''could not restore manager surface: '' @ e) show_manager_surface)
    (io_bind (background_restore_is_safe c) (\<lambda>safe.
       if safe then failing_as (\<lambda>e. ''could not restore background service: '' @ e) (ensure_background_service (lc_manifest c))
       else pure ())))))))))"

definition rollback_error :: "launch_context \<Rightarrow> string \<Rightarrow> unit act" where
  "rollback_error c cause =
     io_bind (trying (rollback_launch c)) (\<lambda>r.
     giving_up (case r of
         Inr _ \<Rightarrow> cause @ ''; '' @ as_str (lc_app c) @ '' launch was rolled back''
       | Inl e \<Rightarrow> cause @ ''; '' @ as_str (lc_app c) @ '' rollback failed and requires domain recovery: '' @ e))"

definition launch_prepared :: "launch_context \<Rightarrow> u64 \<Rightarrow> unit act" where
  "launch_prepared c epoch =
     io_seq (or_else (apply_transition (Launch (lc_app c))) (\<lambda>e.
       io_seq (ignoring_result (ensure_background_service (lc_manifest c))) (giving_up e)))
    (io_seq (or_else (activate_and_wait c epoch) (rollback_error c))
    (or_else (commit_launch c epoch) (rollback_error c)))"

definition launch :: "(path \<Rightarrow> string + path) \<Rightarrow> app_id \<Rightarrow> path option \<Rightarrow> u64 \<Rightarrow> unit act" where
  "launch canonicalize a open_path epoch =
     io_seq (ensure_launch_current epoch)
    (io_bind (looking domain_of) (\<lambda>dm.
     io_bind (io_of (launch_route_of dm a (open_path = None))) (\<lambda>route.
       if route = AlreadyForeground then pure ()
       else
         io_seq (case route of ParkFirst current \<Rightarrow> park current False False | _ \<Rightarrow> pure ())
        (io_seq (ensure_launch_current epoch)
        (io_seq (present ''manager did not become ready for application launch'' (\<lambda>d. domain_of d = ManagerD))
        (io_bind (prepare_launch canonicalize a open_path) (\<lambda>c. launch_prepared c epoch)))))))"

end
