(* ===== verification/Daemon_Sleep.thy ===== *)
theory Daemon_Sleep
  imports Daemon_Launch
begin

text \<open>
  Locking the screen and suspending, waking, the retries of a suspend that a charger blocks, and the
  cover (\<open>remagicd/src/daemon/navigation/suspend.rs\<close>, \<open>suspend/retry.rs\<close>, \<open>daemon/power.rs\<close>). A timer that
  will queue a \<open>Resuspend\<close> event is an entry of \<open>w_timers\<close>: the lock's epoch and revision and the
  interaction epoch it was set at.
\<close>

section \<open>Rolling a lock back\<close>

definition abort_wake :: "u64 \<Rightarrow> string \<Rightarrow> 'a act" where
  "abort_wake epoch cause =
     io_bind (trying (on_sleep (abort_unlock epoch))) (\<lambda>r.
     giving_up (case r of
         Inr _ \<Rightarrow> cause
       | Inl e \<Rightarrow> cause @ ''; unlock transaction rollback failed: '' @ e))"

definition release_display_lock :: "u64 \<Rightarrow> unit act" where
  "release_display_lock epoch =
     io_bind display_status (\<lambda>p.
       if p_lock p = 0 then pure ()
       else if p_lock p = epoch
       then let replacement = surface_sequence HOME_KEY p in
            if replacement = 0 then giving_up ''display lock rollback has no committed manager surface''
            else client_cancel_lock epoch replacement
       else giving_up (''display retained unexpected lock epoch '' @ epoch_text (p_lock p)))"

definition rollback_sleep :: "u64 \<Rightarrow> string \<Rightarrow> 'a act" where
  "rollback_sleep epoch cause =
     io_bind (looking d_sleep) (\<lambda>s.
     io_seq (if sl_epoch s = epoch \<and> (sl_phase s = PreparingSleep \<or> sl_phase s = LockedSleep)
             then failing_as (\<lambda>e. cause @ ''; sleep rollback could not begin unlock: '' @ e)
                    (io_bind (on_sleep (begin_unlock epoch)) (\<lambda>_. pure ()))
             else pure ())
    (io_seq (or_else cancel_wake_guard (\<lambda>e. abort_wake epoch (cause @ ''; wake-guard rollback failed: '' @ e)))
    (io_seq (or_else (release_display_lock epoch) (\<lambda>e. abort_wake epoch (cause @ ''; display-lock rollback failed: '' @ e)))
    (io_seq (apply_transition Wake)
    (io_bind (on_sleep (finish_unlock epoch)) (\<lambda>_.
     io_seq (on_power_at (\<lambda>now unix. cancel_quiescing now unix ''sleep rollback''))
    (io_seq restore_desired
    (giving_up cause))))))))"

section \<open>Timers\<close>

text \<open>A line of text ends in a newline.\<close>

definition line :: "string \<Rightarrow> string" where
  "line s = s @ [CHR 0x0A]"

definition request_home_unlock :: "unit act" where
  "request_home_unlock = failing_as (\<lambda>e. ''cannot notify Home to unlock: '' @ e) (send_home_event (line ''resume_unlock''))"

definition schedule_resuspend :: "sleep_snapshot \<Rightarrow> u64 \<Rightarrow> daemon \<Rightarrow> daemon" where
  "schedule_resuspend s seen d = d\<lparr>w_timers := w_timers d @ [(sl_epoch s, sl_revision s, seen)]\<rparr>"

definition schedule_locked_resuspend :: "sleep_snapshot \<Rightarrow> unit act" where
  "schedule_locked_resuspend s = assign (\<lambda>d. schedule_resuspend s (d_interrupts d) d)"

definition suspend_error_requires_blocked_retry :: "string \<Rightarrow> bool" where
  "suspend_error_requires_blocked_retry e =
     (starts_with e ''kernel suspend is blocked by active wake locks:'' \<or> contains_str e ''active wakeup sources:'')"

definition schedule_failed_resuspend :: "string \<Rightarrow> sleep_snapshot \<Rightarrow> u64 \<Rightarrow> unit act" where
  "schedule_failed_resuspend e s seen =
     (if suspend_error_requires_blocked_retry e then assign (schedule_resuspend s seen)
      else schedule_locked_resuspend s)"

definition wake_lock_text_is_clear :: "string \<Rightarrow> bool" where
  "wake_lock_text_is_clear txt = list_all (\<lambda>w. w = ''remagic-managed'') (split_whitespace txt)"

section \<open>Sleeping\<close>

definition prepare_sleep_lock :: "u64 \<Rightarrow> (u64 \<times> u64) act" where
  "prepare_sleep_lock n =
     io_seq (present ''sleep button is only available in the manager'' (\<lambda>d. domain_of d = ManagerD))
    (io_seq (begin_commit ''sleep request was cancelled before commit'')
    (io_bind (looking d_interrupts) (\<lambda>seen.
     io_seq (io_of (guard (n = 0) ''sleep requires a committed ReMagic lock page''))
    (io_bind (wait_surface_sequence HOME_KEY n) (\<lambda>p.
     io_seq (io_of (guard (\<not> owns_panel HOME_KEY p) ''manager lock page is not the visible surface''))
    (io_bind allocate_sleep_epoch (\<lambda>epoch.
     io_bind (on_sleep (sleep_begin epoch)) (\<lambda>_.
     io_seq (or_else (apply_transition Sleep) (\<lambda>e.
         io_bind (trying (on_sleep sleep_reset)) (\<lambda>r.
         giving_up (case r of
             Inr _ \<Rightarrow> e
           | Inl reset_error \<Rightarrow> e @ ''; sleep transaction reset failed: '' @ reset_error))))
    (io_bind allocate_generation (\<lambda>g.
     io_bind allocate_foreground_epoch (\<lambda>fe.
     io_seq (or_else (client_show_lock HOME_KEY g fe epoch) (rollback_sleep epoch))
    (io_bind (or_else (on_sleep (mark_locked epoch)) (rollback_sleep epoch)) (\<lambda>_.
     io_seq settle_frontlight_after_force_off
    (io_seq (on_power begin_suspend)
    (pure (epoch, seen))))))))))))))))"

text \<open>The \<open>select!\<close> of the suspend with a newer interaction: an interaction ends it with an error.\<close>

definition suspend_or_user_interrupt :: "unit act" where
  "suspend_or_user_interrupt = controller_suspend"

definition user_requested_unlock :: "u64 \<Rightarrow> daemon \<Rightarrow> bool" where
  "user_requested_unlock seen d = (\<not> d_cover_closed d \<and> d_interrupts d \<noteq> seen)"

definition unlock_if_requested :: "u64 \<Rightarrow> unit act" where
  "unlock_if_requested seen =
     io_bind (looking (user_requested_unlock seen)) (\<lambda>b.
       if b then ignoring_result request_home_unlock else pure ())"

definition finish_physical_resume :: "u64 \<Rightarrow> bool \<Rightarrow> unit act" where
  "finish_physical_resume epoch by_key =
     io_bind display_status (\<lambda>p.
     io_seq (io_of (guard (p_lock p \<noteq> epoch \<or> \<not> p_committed p \<or> \<not> owns_panel HOME_KEY p)
               (''display lock epoch '' @ epoch_text epoch @ '' was not retained across suspend'')))
    (io_bind (on_sleep (mark_awake epoch)) (\<lambda>awake.
     io_bind (looking d_cover_closed) (\<lambda>closed.
       if closed
       then io_seq (on_power (retained_lock_resume ''cover remained closed after resume''))
           (io_seq (schedule_locked_resuspend awake)
           (giving_up (retained_lock_error ''physical resume retained the lock because the cover is closed'')))
       else if \<not> by_key
       then io_seq (on_power (retained_lock_resume ''non-user wake source''))
           (io_seq (schedule_locked_resuspend awake)
           (giving_up (retained_lock_error
              ''physical resume retained the lock because no power-key wake gesture was observed'')))
       else io_seq (schedule_locked_resuspend awake) (ignoring_result request_home_unlock)))))"

definition sleep_suspend_failed :: "string \<Rightarrow> string + unit \<Rightarrow> u64 \<Rightarrow> unit act" where
  "sleep_suspend_failed e wakelock seen =
     io_seq (on_power (externally_blocked e))
    (io_bind (trying cancel_wake_guard) (\<lambda>guarded.
     io_seq (io_of (map_err (\<lambda>w. e @ ''; wake-lock recovery: '' @ w) wakelock))
    (io_seq (io_of (map_err (\<lambda>g. e @ ''; wake-key recovery: '' @ g) guarded))
    (io_seq (unlock_if_requested seen)
    (io_bind (looking d_sleep) (\<lambda>s.
     io_seq (schedule_failed_resuspend e s seen)
    (giving_up (retained_lock_error e))))))))"

definition sleep_resumed :: "u64 \<Rightarrow> string + unit \<Rightarrow> unit act" where
  "sleep_resumed epoch wakelock =
     io_bind (trying resume_wake_guard) (\<lambda>guarded.
     io_seq (io_of wakelock)
    (io_bind (io_of guarded) (\<lambda>by_key.
     finish_physical_resume epoch by_key)))"

definition sleep_suspend :: "u64 \<Rightarrow> u64 \<Rightarrow> unit act" where
  "sleep_suspend epoch seen =
     io_seq (on_power suspended)
    (io_bind (trying suspend_or_user_interrupt) (\<lambda>suspend.
     io_bind (trying acquire_wakelock) (\<lambda>wakelock.
       case suspend of
         Inl e \<Rightarrow> sleep_suspend_failed e wakelock seen
       | Inr _ \<Rightarrow> sleep_resumed epoch wakelock)))"

definition sleep_now :: "u64 \<Rightarrow> unit act" where
  "sleep_now n =
     io_bind (prepare_sleep_lock n) (\<lambda>(epoch, seen).
     io_seq (or_else arm_wake_guard (rollback_sleep epoch))
    (io_bind (looking (\<lambda>d. d_interrupts d \<noteq> seen)) (\<lambda>newer.
       if newer then rollback_sleep epoch ''sleep cancelled by newer user interaction''
       else sleep_suspend epoch seen)))"

section \<open>Suspending again\<close>

definition arm_wake_guard_for_locked_resuspend :: "unit act" where
  "arm_wake_guard_for_locked_resuspend =
     or_else arm_wake_guard (\<lambda>e.
       if e = ''power wake guard is already armed'' then io_seq cancel_wake_guard arm_wake_guard else giving_up e)"

definition stage_failures :: "(string \<times> (string + unit)) list \<Rightarrow> string list" where
  "stage_failures rs =
     concat (map (\<lambda>(stage, r). case r of Inl e \<Rightarrow> [stage @ '': '' @ e] | Inr _ \<Rightarrow> []) rs)"

definition resuspend_failed :: "string list \<Rightarrow> string" where
  "resuspend_failed failures = ''locked resuspend transaction failed: '' @ join_with ''; '' failures"

definition resuspend_suspend_failed :: "string \<Rightarrow> string + unit \<Rightarrow> u64 \<Rightarrow> unit act" where
  "resuspend_suspend_failed e wakelock seen =
     io_seq (on_power (externally_blocked e))
    (io_bind (trying cancel_wake_guard) (\<lambda>guarded.
       if wakelock = Inr () \<and> guarded = Inr ()
       then
         io_seq (unlock_if_requested seen)
        (io_bind (looking d_sleep) (\<lambda>s.
         io_seq (schedule_failed_resuspend e s seen)
        (giving_up (retained_lock_error e))))
       else giving_up (resuspend_failed ((''suspend: '' @ e)
              # stage_failures [(''wake-lock recovery'', wakelock), (''wake-key recovery'', guarded)]))))"

definition resuspend_resumed :: "u64 \<Rightarrow> string + unit \<Rightarrow> unit act" where
  "resuspend_resumed epoch wakelock =
     io_bind (trying resume_wake_guard) (\<lambda>guarded.
     io_seq (io_of (guard (wakelock \<noteq> Inr () \<or> isl guarded)
         (resuspend_failed (stage_failures
            [(''wake-lock recovery'', wakelock), (''wake-key recovery'', map_sum id (\<lambda>_. ()) guarded)]))))
    (io_bind (io_of guarded) (\<lambda>by_key. finish_physical_resume epoch by_key)))"

definition resuspend_locked :: "u64 \<Rightarrow> u64 \<Rightarrow> u64 \<Rightarrow> unit act" where
  "resuspend_locked epoch revision seen =
     io_bind (looking (\<lambda>d. domain_of d = SleepingD
         \<and> resuspend_fence_matches (d_sleep d) epoch revision (d_interrupts d) seen)) (\<lambda>current.
       if \<not> current then pure ()
       else
         io_seq arm_wake_guard_for_locked_resuspend
        (io_bind (looking (\<lambda>d. d_interrupts d \<noteq> seen)) (\<lambda>newer.
           if newer then cancel_wake_guard
           else
             io_seq settle_frontlight_after_force_off
            (io_seq (on_power suspended)
            (io_bind (trying suspend_or_user_interrupt) (\<lambda>suspend.
             io_bind (trying acquire_wakelock) (\<lambda>wakelock.
               case suspend of
                 Inl e \<Rightarrow> resuspend_suspend_failed e wakelock seen
               | Inr _ \<Rightarrow> resuspend_resumed epoch wakelock)))))))"

section \<open>Waking\<close>

definition wake :: "u64 \<Rightarrow> unit act" where
  "wake n =
     io_bind (looking domain_of) (\<lambda>dm.
       if dm = ManagerD then pure ()
       else if dm \<noteq> SleepingD then giving_up ''ReMagic is not locked''
       else
         io_seq (begin_commit ''wake request was cancelled before commit'')
        (io_seq (io_of (guard (n = 0) ''wake requires a committed ReMagic manager page''))
        (io_bind (wait_surface_sequence HOME_KEY n) (\<lambda>p.
         io_seq (io_of (guard (\<not> owns_panel HOME_KEY p) ''manager replacement page does not own the locked surface''))
        (io_bind (looking d_sleep) (\<lambda>s.
         io_seq (io_of (guard (sl_epoch s = 0 \<or> sl_phase s \<noteq> LockedSleep) ''sleep state has no committed lock transaction''))
        (io_seq acquire_wakelock
        (io_bind (on_sleep (begin_unlock (sl_epoch s))) (\<lambda>_.
         io_seq (or_else cancel_wake_guard (abort_wake (sl_epoch s)))
        (io_seq (or_else (client_cancel_lock (sl_epoch s) n) (abort_wake (sl_epoch s)))
        (io_seq (apply_transition Wake)
        (io_bind (on_sleep (finish_unlock (sl_epoch s))) (\<lambda>_.
         io_seq (on_power_at (\<lambda>now unix. resumed now unix ''power key''))
         restore_desired)))))))))))))"

section \<open>Automatic sleep and the cover\<close>

definition handle_auto_sleep :: "u64 \<Rightarrow> u64 \<Rightarrow> unit act" where
  "handle_auto_sleep revision seen =
     io_seq pausing
    (io_bind (looking (\<lambda>d. d_interrupts d \<noteq> seen \<or> \<not> auto_sleep_is_current revision (d_power d))) (\<lambda>stale.
       if stale then pure ()
       else
         io_bind (looking domain_of) (\<lambda>dm.
           if (case dm of ForegroundD _ \<Rightarrow> True | ManagerD \<Rightarrow> True | _ \<Rightarrow> False)
           then
             io_seq (case dm of ForegroundD a \<Rightarrow> park a False True | _ \<Rightarrow> ensure_manager_surface)
            (io_bind (looking (\<lambda>d. auto_sleep_is_current revision (d_power d))) (\<lambda>current.
               if \<not> current then pure ()
               else or_else (send_home_event (line ''auto_sleep'')) (\<lambda>e.
                 io_seq (on_power_at (\<lambda>now unix. cancel_quiescing now unix ''Home lock renderer unavailable''))
                (giving_up (''cannot request Home lock rendering: '' @ e)))))
           else on_power_at (\<lambda>now unix. cancel_quiescing now unix
             (if dm = SystemD \<or> dm = SleepingD then ''automatic sleep no longer owns an awake managed domain''
              else ''automatic sleep yielded to a system transition'')))))"

definition if_still_closed :: "string \<Rightarrow> unit act" where
  "if_still_closed event =
     io_bind (looking d_cover_closed) (\<lambda>closed. if closed then send_home_event (line event) else pure ())"

text \<open>In a transitional domain a later \<open>CoverClosed\<close> event is scheduled.\<close>

definition handle_cover_closed :: "unit act" where
  "handle_cover_closed =
     io_seq (assign (\<lambda>d. d\<lparr>d_cover_closed := True\<rparr>))
    (io_bind (looking domain_of) (\<lambda>dm.
       case dm of
         ManagerD \<Rightarrow>
           io_seq (assign (\<lambda>d. d\<lparr>d_cover_resume := None\<rparr>))
          (io_seq ensure_manager_surface (if_still_closed ''cover_sleep''))
       | ForegroundD a \<Rightarrow>
           io_seq (assign (\<lambda>d. d\<lparr>d_cover_resume := Some a\<rparr>))
          (io_seq (park a False True) (if_still_closed (''cover_sleep_app '' @ as_str a)))
       | _ \<Rightarrow> pure ()))"

definition handle_cover_opened :: "unit act" where
  "handle_cover_opened =
     io_seq (assign (\<lambda>d. d\<lparr>d_cover_closed := False\<rparr>))
    (io_bind (looking (\<lambda>d. (domain_of d, d_cover_resume d))) (\<lambda>(dm, resume).
       if dm = SleepingD \<or> dm = ManagerD
       then
         io_seq (assign (\<lambda>d. d\<lparr>d_cover_resume := None\<rparr>))
        (send_home_event (line (case resume of Some a \<Rightarrow> ''cover_open_app '' @ as_str a | None \<Rightarrow> ''cover_open'')))
       else pure ()))"

end
