(* ===== verification/Daemon_Events.thy ===== *)
theory Daemon_Events
  imports Daemon_Sleep
begin

text \<open>
  The event loop of the supervisor (\<open>remagicd/src/daemon/navigation.rs\<close>, \<open>daemon/request.rs\<close>,
  \<open>daemon/server.rs\<close>, \<open>daemon/input_mode.rs\<close>): the power key, the dispatch of an event, and what the loop does
  after a failure. Events are handled one at a time; a handler takes the epoch its event was queued at.
\<close>

section \<open>Events\<close>

datatype launch_authority = LegacyPeer app_id | ForegroundToken app_token

datatype event =
    UserActivityEvent
  | SinglePowerEvent
  | TriplePowerEvent
  | LongPowerEvent
  | LaunchEvent app_id "path option"
  | RuntimeLaunchEvent launch_authority app_id "path option"
  | OpenManagerEvent
  | ReturnSystemEvent
  | CoverClosedEvent
  | CoverOpenedEvent
  | SleepEvent u64
  | WakeEvent u64
  | ResuspendEvent u64 u64 u64
  | AutoSleepEvent u64
  | CloseEvent app_id bool
  | RuntimeExitedEvent app_id u64 int bool exit_source
  | DisplayHostExitedEvent u64 u64
  | AppReadyEvent app_id
  | AppParkedEvent app_session
  | PackageEvent string
  | ReloadManifestsEvent

fun interrupts_launch :: "event \<Rightarrow> bool" where
  "interrupts_launch SinglePowerEvent = True"
| "interrupts_launch TriplePowerEvent = True"
| "interrupts_launch LongPowerEvent = True"
| "interrupts_launch (LaunchEvent _ _) = True"
| "interrupts_launch (RuntimeLaunchEvent _ _ _) = True"
| "interrupts_launch OpenManagerEvent = True"
| "interrupts_launch ReturnSystemEvent = True"
| "interrupts_launch CoverClosedEvent = True"
| "interrupts_launch CoverOpenedEvent = True"
| "interrupts_launch (SleepEvent _) = True"
| "interrupts_launch (WakeEvent _) = True"
| "interrupts_launch (CloseEvent _ _) = True"
| "interrupts_launch (DisplayHostExitedEvent _ _) = True"
| "interrupts_launch _ = False"

text \<open>\<open>QueuedEvent::new\<close>: the epoch the event runs at, and the counter.\<close>

definition queue_epoch :: "event \<Rightarrow> u64 \<Rightarrow> u64 \<times> u64" where
  "queue_epoch e counter = (if interrupts_launch e then (counter + 1, counter + 1) else (counter, counter))"

section \<open>The power key and the manager\<close>

definition retain_sleeping_unlock :: "unit act \<Rightarrow> unit act" where
  "retain_sleeping_unlock = failing_as retained_lock_error"

definition single_power :: "(path \<Rightarrow> string + path) \<Rightarrow> u64 \<Rightarrow> unit act" where
  "single_power canonicalize epoch =
     io_bind (looking domain_of) (\<lambda>dm.
       case dm of
         ManagerD \<Rightarrow>
           io_bind (looking (mgr_last_app \<circ> d_state)) (\<lambda>last.
             case last of Some a \<Rightarrow> launch canonicalize a None epoch | None \<Rightarrow> pure ())
       | ForegroundD a \<Rightarrow> park a False True
       | SleepingD \<Rightarrow> retain_sleeping_unlock request_home_unlock
       | _ \<Rightarrow> pure ())"

definition triple_power :: "unit act" where
  "triple_power =
     io_bind (looking domain_of) (\<lambda>dm.
       case dm of
         SystemD \<Rightarrow> enter_manager
       | ForegroundD a \<Rightarrow> io_seq (park a True False) restore_system
       | ManagerD \<Rightarrow> restore_system
       | SleepingD \<Rightarrow> restore_system
       | _ \<Rightarrow> pure ())"

definition open_manager :: "unit act" where
  "open_manager =
     io_bind (looking domain_of) (\<lambda>dm.
       case dm of
         SystemD \<Rightarrow> enter_manager
       | ForegroundD a \<Rightarrow> park a False True
       | ManagerD \<Rightarrow> ensure_manager_surface
       | SleepingD \<Rightarrow> retain_sleeping_unlock request_home_unlock
       | _ \<Rightarrow> pure ())"

section \<open>Authority and input modes\<close>

definition validate_active_foreground_token ::
  "domain_state \<Rightarrow> (app_id, runtime_input) btree \<Rightarrow> app_token \<Rightarrow> string + runtime_input" where
  "validate_active_foreground_token dm modes t =
     (let a = app_id t in
      chk (map_err (\<lambda>_. ''invalid application token'') (app_token_validate t))
     (chk (guard (dm \<noteq> ForegroundD a) (''application '' @ as_str a @ '' is not the current foreground application''))
     (res_bind (ok_or (bt_get modes a) (''application '' @ as_str a @ '' has no active input fence'')) (\<lambda>i.
      chk (guard (\<not> input_matches i t) (''application '' @ as_str a @ '' supplied a stale input-mode token''))
     (chk (guard (ri_pending i) (''application '' @ as_str a @ '' input fence is still pending''))
     (Inr i))))))"

definition validate_runtime_launch_authority :: "launch_authority \<Rightarrow> unit act" where
  "validate_runtime_launch_authority authority =
     (case authority of
        LegacyPeer a \<Rightarrow>
          present (''application '' @ as_str a @ '' is not the current foreground application'') (\<lambda>d. domain_of d = ForegroundD a)
      | ForegroundToken t \<Rightarrow>
          io_bind (looking (\<lambda>d. validate_active_foreground_token (domain_of d) (d_modes d) t)) (\<lambda>r.
          io_bind (io_of r) (\<lambda>_. pure ())))"

definition set_input_mode :: "app_token \<Rightarrow> input_mode \<Rightarrow> bool act" where
  "set_input_mode t m =
     io_seq (io_of (map_err (\<lambda>_. ''invalid application token'') (app_token_validate t)))
    (io_bind (looking domain_of) (\<lambda>dm.
       if in_transit_to (app_id t) dm
       then (\<lambda>d. case pending_mode_request t m (d_modes d) of
                   (Inl e, modes) \<Rightarrow> (Failed e, d\<lparr>d_modes := modes\<rparr>)
                 | (Inr ink, modes) \<Rightarrow> (Done ink, d\<lparr>d_modes := modes\<rparr>))
       else
         holding_modes (io_bind (looking (\<lambda>d. validate_active_foreground_token (domain_of d) (d_modes d) t)) (\<lambda>r.
         io_bind (io_of r) (\<lambda>i.
         io_bind (io_of (validate_mode i (app_id t) m)) (\<lambda>ink.
         io_seq (client_configure_ink (qtfb_key_for_app (app_id t)) (generation t) (foreground_epoch t) ink)
        (io_seq (assign (\<lambda>d. d\<lparr>d_modes := bt_modify (app_id t) (ri_mode_update (\<lambda>_. m)) (d_modes d)\<rparr>))
        (pure ink))))))))"

section \<open>Dispatch\<close>

definition record_app_ready :: "app_id \<Rightarrow> unit act" where
  "record_app_ready a =
     io_bind (looking domain_of) (\<lambda>dm.
       if dm \<noteq> LaunchingD a then pure ()
       else
         io_seq (apply_transition (AppReady a))
        (io_seq (set_foreground_marker (Some a))
        (on_power (set_presentation (ForegroundApp a)))))"

definition reload_manifests :: "unit act" where
  "reload_manifests =
     io_bind (asking w_manifests) (\<lambda>loaded.
     io_bind (io_of loaded) (\<lambda>ms.
     io_seq (assign (\<lambda>d. d\<lparr>d_manifests := ms\<rparr>))
    (io_seq start_declared_background_services
    (io_bind (looking domain_of) (\<lambda>dm.
       if dm = ManagerD then or_else restart_runtime_and_wait (\<lambda>_. restore_system) else pure ())))))"

definition package_operation :: "unit act" where
  "package_operation =
     io_seq (present ''package operations are only available in the manager'' (\<lambda>d. domain_of d = ManagerD)) untracked"

definition handle_display_host_exited :: "u64 \<Rightarrow> u64 \<Rightarrow> unit act" where
  "handle_display_host_exited sequence revision =
     io_bind (looking (\<lambda>d. recovery_fence_matches (mgr_sequence (d_state d)) (sl_revision (d_sleep d)) sequence revision)) (\<lambda>current.
       if \<not> current then assign (\<lambda>d. d\<lparr>d_recovery_pending := False\<rparr>)
       else
         io_bind (trying restore_system) (\<lambda>r.
         io_seq (assign (\<lambda>d. d\<lparr>d_recovery_pending := False\<rparr>)) (io_of r)))"

fun handle_event_body :: "(path \<Rightarrow> string + path) \<Rightarrow> event \<Rightarrow> u64 \<Rightarrow> unit act" where
  "handle_event_body cz UserActivityEvent epoch = on_power_at note_activity"
| "handle_event_body cz SinglePowerEvent epoch = single_power cz epoch"
| "handle_event_body cz TriplePowerEvent epoch = triple_power"
| "handle_event_body cz LongPowerEvent epoch = restore_system"
| "handle_event_body cz (LaunchEvent a p) epoch = launch cz a p epoch"
| "handle_event_body cz (RuntimeLaunchEvent authority a p) epoch =
     io_seq (validate_runtime_launch_authority authority) (launch cz a p epoch)"
| "handle_event_body cz OpenManagerEvent epoch = open_manager"
| "handle_event_body cz ReturnSystemEvent epoch = restore_system"
| "handle_event_body cz CoverClosedEvent epoch = handle_cover_closed"
| "handle_event_body cz CoverOpenedEvent epoch = handle_cover_opened"
| "handle_event_body cz (SleepEvent n) epoch = sleep_now n"
| "handle_event_body cz (WakeEvent n) epoch = wake n"
| "handle_event_body cz (ResuspendEvent e r i) epoch = resuspend_locked e r i"
| "handle_event_body cz (AutoSleepEvent r) epoch = handle_auto_sleep r epoch"
| "handle_event_body cz (CloseEvent a complete) epoch = close_app a complete"
| "handle_event_body cz (RuntimeExitedEvent a g exit_code crashed source) epoch =
     record_runtime_exit a g exit_code crashed source"
| "handle_event_body cz (DisplayHostExitedEvent s r) epoch = handle_display_host_exited s r"
| "handle_event_body cz (AppReadyEvent a) epoch = record_app_ready a"
| "handle_event_body cz (AppParkedEvent s) epoch = record_parked s"
| "handle_event_body cz (PackageEvent _) epoch = package_operation"
| "handle_event_body cz ReloadManifestsEvent epoch = reload_manifests"

definition is_power_event :: "event \<Rightarrow> bool" where
  "is_power_event e = (e = SinglePowerEvent \<or> e = TriplePowerEvent \<or> e = LongPowerEvent)"

definition handle_event :: "(path \<Rightarrow> string + path) \<Rightarrow> event \<Rightarrow> u64 \<Rightarrow> unit act" where
  "handle_event cz e epoch =
     io_seq (if is_power_event e then on_power_at note_activity else pure ()) (handle_event_body cz e epoch)"

section \<open>After a failure\<close>

definition should_retain_sleeping_failure :: "string \<Rightarrow> bool \<Rightarrow> bool" where
  "should_retain_sleeping_failure e healthy = (is_retained_lock_error e \<and> healthy)"

definition retained_sleep_lock_is_healthy :: "bool act" where
  "retained_sleep_lock_is_healthy =
     io_bind (looking d_sleep) (\<lambda>s.
       if sl_epoch s = 0 \<or> sl_phase s \<noteq> LockedSleep then pure False
       else io_bind (trying display_status) (\<lambda>r.
         pure (case r of Inr p \<Rightarrow> p_committed p \<and> p_lock p = sl_epoch s | Inl _ \<Rightarrow> False)))"

definition recover_after_failure :: "string + unit \<Rightarrow> unit act" where
  "recover_after_failure r =
     (case r of
        Inr _ \<Rightarrow> pure ()
      | Inl e \<Rightarrow>
          io_bind (looking domain_of) (\<lambda>dm.
            case dm of
              SystemD \<Rightarrow> pure ()
            | ForegroundD _ \<Rightarrow> pure ()
            | ManagerD \<Rightarrow> ensure_manager_or_restore
            | SleepingD \<Rightarrow>
                io_bind retained_sleep_lock_is_healthy (\<lambda>healthy.
                  if should_retain_sleeping_failure e healthy then pure () else restore_system)
            | _ \<Rightarrow> restore_system))"

text \<open>One turn of the loop returns the reply; an error ends the loop, and the process.\<close>

definition event_step :: "(path \<Rightarrow> string + path) \<Rightarrow> event \<Rightarrow> u64 \<Rightarrow> (string + unit) act" where
  "event_step cz e epoch =
     io_bind (looking (fence_is_cancelled \<circ> d_fence)) (\<lambda>cancelled.
     io_bind (if cancelled then pure (Inl ''request was cancelled before execution'')
              else trying (handle_event cz e epoch)) (\<lambda>r.
     io_seq (recover_after_failure r) (pure r)))"

text \<open>The start of the process, and the signal handler at its end.\<close>

definition initialize_system :: "unit act" where
  "initialize_system = io_seq ensure_system (ignoring_result (set_foreground_marker None))"

definition shutdown_restore :: "unit act" where
  "shutdown_restore =
     io_seq (ignoring_result (set_foreground_marker None))
    (io_bind (trying (on_sleep sleep_reset)) (\<lambda>_.
     io_seq restore_desired ensure_system))"

end
