(* ===== verification/Action_Logic.thy ===== *)
theory Action_Logic
  imports Fallible_Actions
begin

text \<open>
  More rules for triples. \<open>maintains I m\<close>: however \<open>m\<close> ends, it leaves \<open>I\<close>; the collection
  \<open>maintain\<close> has a rule for every construct of the actions, and the components add their calls.
\<close>

section \<open>Rules\<close>

definition maintains :: "('s \<Rightarrow> bool) \<Rightarrow> ('s, 'e, 'a) fallible \<Rightarrow> bool" where
  "maintains I m = triple I m (\<lambda>_. I) I"

named_theorems maintain

lemma maintains_triple: "maintains I m \<Longrightarrow> triple I m (\<lambda>_. I) I"
  by (simp add: maintains_def)

lemma maintains_snd: "maintains I m \<longleftrightarrow> (\<forall>s. I s \<longrightarrow> I (snd (m s)))"
proof -
  have "(case m s of (Done x, t) \<Rightarrow> I t | (Failed e, t) \<Rightarrow> I t | (Died, t) \<Rightarrow> I t) = I (snd (m s))" for s
    by (auto split: prod.splits outcome.splits)
  then show ?thesis by (simp add: maintains_def triple_def)
qed

lemma triple_conseq:
  "triple P m Q R \<Longrightarrow> (\<And>s. P' s \<Longrightarrow> P s) \<Longrightarrow> (\<And>x s. Q x s \<Longrightarrow> Q' x s) \<Longrightarrow> (\<And>s. R s \<Longrightarrow> R' s)
    \<Longrightarrow> triple P' m Q' R'"
  by (rule triple_weaken)

lemma triple_Done: "triple P m Q R \<Longrightarrow> P s \<Longrightarrow> m s = (Done x, t) \<Longrightarrow> Q x t"
  by (fastforce simp: triple_def)

lemma triple_end: "triple P m Q R \<Longrightarrow> P s \<Longrightarrow> (\<And>x t. Q x t \<Longrightarrow> R t) \<Longrightarrow> R (snd (m s))"
  by (cases "m s"; cases "fst (m s)") (fastforce simp: triple_def)+

lemma triple_trying:
  "triple P m (\<lambda>x. Q (Inr x)) R \<Longrightarrow> (\<And>e s. R s \<Longrightarrow> Q (Inl e) s) \<Longrightarrow> triple P (trying m) Q R"
  by (fastforce simp: triple_def trying_def split: prod.splits outcome.splits)

lemma triple_or_else:
  assumes "triple P m Q R'" "\<And>e. triple R' (f e) Q R" "\<And>s. R' s \<Longrightarrow> R s"
  shows "triple P (or_else m f) Q R"
  unfolding or_else_def
  using assms by (fastforce simp: triple_def trying_def io_bind_def pure_def split: prod.splits outcome.splits)

lemma triple_failing_as: "triple P m Q R \<Longrightarrow> triple P (failing_as g m) Q R"
  by (fastforce simp: triple_def failing_as_def or_else_def trying_def io_bind_def pure_def giving_up_def
      split: prod.splits outcome.splits)

lemma triple_ignoring:
  "triple P m (\<lambda>_. Q) R \<Longrightarrow> (\<And>s. R s \<Longrightarrow> Q s) \<Longrightarrow> triple P (ignoring_result m) (\<lambda>_. Q) R"
  by (fastforce simp: triple_def ignoring_result_def split: prod.splits outcome.splits)

lemma triple_case_prod: "(\<And>a b. x = (a, b) \<Longrightarrow> triple P (f a b) Q R) \<Longrightarrow> triple P (case x of (a, b) \<Rightarrow> f a b) Q R"
  by (cases x) simp

lemma triple_if: "(b \<Longrightarrow> triple P m Q R) \<Longrightarrow> (\<not> b \<Longrightarrow> triple P n Q R) \<Longrightarrow> triple P (if b then m else n) Q R"
  by simp

lemma triple_fact_pre: "(\<phi> \<Longrightarrow> triple P m Q R) \<Longrightarrow> triple (\<lambda>s. P s \<and> \<phi>) m Q R"
  by (cases \<phi>) (auto simp: triple_def)

lemma maintains_pure [maintain]: "maintains I (pure x)"
  by (simp add: maintains_snd pure_def)

lemma maintains_giving_up [maintain]: "maintains I (giving_up x)"
  by (simp add: maintains_snd giving_up_def)

lemma maintains_io_of [maintain]: "maintains I (io_of x)"
  by (simp add: maintains_snd io_of_def split: sum.splits)

lemma maintains_looking [maintain]: "maintains I (looking f)"
  by (simp add: maintains_snd looking_def)

lemma maintains_present [maintain]: "maintains I (present e f)"
  by (simp add: maintains_snd present_def)

lemma maintains_bind [maintain]: "maintains I m \<Longrightarrow> (\<And>x. maintains I (f x)) \<Longrightarrow> maintains I (io_bind m f)"
  unfolding maintains_def by (rule triple_bind)

lemma maintains_seq [maintain]: "maintains I m \<Longrightarrow> maintains I n \<Longrightarrow> maintains I (io_seq m n)"
  unfolding io_seq_def by (rule maintains_bind)

lemma maintains_trying [maintain]: "maintains I m \<Longrightarrow> maintains I (trying m)"
  unfolding maintains_def by (rule triple_trying)

lemma maintains_or_else [maintain]: "maintains I m \<Longrightarrow> (\<And>e. maintains I (f e)) \<Longrightarrow> maintains I (or_else m f)"
  unfolding maintains_def by (rule triple_or_else)

lemma maintains_failing_as [maintain]: "maintains I m \<Longrightarrow> maintains I (failing_as g m)"
  unfolding maintains_def by (rule triple_failing_as)

lemma maintains_ignoring [maintain]: "maintains I m \<Longrightarrow> maintains I (ignoring_result m)"
  unfolding maintains_def by (rule triple_ignoring)

lemma maintains_for_all [maintain]: "(\<And>x. x \<in> set xs \<Longrightarrow> maintains I (f x)) \<Longrightarrow> maintains I (for_all f xs)"
  unfolding maintains_def by (rule triple_for_all)

lemma maintains_if [maintain]: "(b \<Longrightarrow> maintains I m) \<Longrightarrow> (\<not> b \<Longrightarrow> maintains I n) \<Longrightarrow> maintains I (if b then m else n)"
  by simp

lemma maintains_case_prod [maintain]: "(\<And>a b. maintains I (f a b)) \<Longrightarrow> maintains I (case x of (a, b) \<Rightarrow> f a b)"
  by (cases x) simp

lemma maintains_case_option [maintain]:
  "maintains I m \<Longrightarrow> (\<And>v. x = Some v \<Longrightarrow> maintains I (f v)) \<Longrightarrow> maintains I (case x of None \<Rightarrow> m | Some v \<Rightarrow> f v)"
  by (cases x) simp_all

lemma maintains_case_sum [maintain]:
  "(\<And>e. maintains I (f e)) \<Longrightarrow> (\<And>v. maintains I (g v)) \<Longrightarrow> maintains I (case x of Inl e \<Rightarrow> f e | Inr v \<Rightarrow> g v)"
  by (cases x) simp_all

lemma maintains_assign: "(\<And>s. I s \<Longrightarrow> I (f s)) \<Longrightarrow> maintains I (assign f)"
  by (simp add: maintains_snd assign_def)

lemma maintains_Let [maintain]: "maintains I (f x) \<Longrightarrow> maintains I (Let x f)"
  by simp

end
