(* ===== verification/Daemon_Logic.thy ===== *)
theory Daemon_Logic
  imports Daemon_Events Action_Logic
begin

text \<open>
  Reasoning about the supervisor's handlers, with \<open>maintains\<close> of \<open>Action_Logic\<close>. What a condition has to
  satisfy for the calls and the small operations to maintain it is the interface \<open>device_quiet\<close>;
  \<open>device_unlocked\<close> adds the operations on the panel and on the sleep transaction, \<open>device_owned\<close> the
  start of the units that are bound to the display host.
\<close>

section \<open>Conditions that calls leave alone\<close>

text \<open>The fields that decide who owns the tablet.\<close>

definition bare_panel :: "panel_view \<Rightarrow> panel_view" where
  "bare_panel p = p\<lparr>p_surfaces := []\<rparr>"

definition same_core :: "daemon \<Rightarrow> daemon \<Rightarrow> bool" where
  "same_core d t =
     (d_state t = d_state d \<and> w_units t = w_units d \<and> w_grab t = w_grab d \<and> w_wakelock t = w_wakelock d
      \<and> d_manifests t = d_manifests d \<and> w_manifests t = w_manifests d
      \<and> d_generations t = d_generations d \<and> d_execution t = d_execution d
      \<and> d_fences t = d_fences d \<and> d_modes t = d_modes d
      \<and> d_sleep t = d_sleep d \<and> bare_panel (w_panel t) = bare_panel (w_panel d))"

definition ordinary :: "string \<Rightarrow> bool" where
  "ordinary n = (n \<noteq> STOCK_UNIT \<and> n \<noteq> DISPLAY_UNIT \<and> \<not> bound_to_display n)"

lemmas core_simps = same_core_def bare_panel_def at_surface_def

text \<open>What the other tasks and the device do leaves the condition alone.\<close>

locale device_alive =
  fixes I :: "daemon \<Rightarrow> bool"
  assumes step: "I d \<Longrightarrow> I (meanwhile_step m d)"
    and script: "I d \<Longrightarrow> I (d\<lparr>w_script := rest\<rparr>)"
begin

lemma steps: "I d \<Longrightarrow> I (fold meanwhile_step events d)"
  by (induction events arbitrary: d) (auto intro: step)

lemma answered: "I d \<Longrightarrow> I (snd (next_answer d))"
  by (auto simp: next_answer_def split: list.splits intro!: steps script)

lemma triple_call:
  assumes "\<And>d. P d \<Longrightarrow> I d" "\<And>d. I d \<Longrightarrow> able d \<Longrightarrow> R (eff d)" "\<And>d. I d \<Longrightarrow> R d"
    "\<And>a d. I d \<Longrightarrow> able d \<Longrightarrow> Q (val a (eff d)) (eff d)"
  shows "triple P (outside_with refusal able eff val) Q R"
  using assms answered
  by (fastforce simp: triple_def outside_with_def Let_def split: prod.splits option.splits)

lemma maintains_call: "(\<And>d. I d \<Longrightarrow> able d \<Longrightarrow> I (eff d)) \<Longrightarrow> maintains I (outside_with refusal able eff val)"
  unfolding maintains_def by (rule triple_call)

lemma maintains_pausing: "maintains I pausing"
  using answered by (force simp: maintains_snd pausing_def Let_def split: prod.splits)

end

locale device_quiet =
  fixes I :: "daemon \<Rightarrow> bool"
  assumes core: "I d \<Longrightarrow> same_core d t \<Longrightarrow> I t"
    and units: "I d \<Longrightarrow> I (keep_units k d)"
    and frozen: "I d \<Longrightarrow> I (unit_frozen b n d)"
    and added: "I d \<Longrightarrow> ordinary n \<Longrightarrow> I (unit_added n d)"
    and mode_request: "I d \<Longrightarrow> in_transit_to (app_id tok) (domain_of d)
      \<Longrightarrow> I (d\<lparr>d_modes := snd (pending_mode_request tok m (d_modes d))\<rparr>)"
begin

lemma started: "I d \<Longrightarrow> ordinary n \<Longrightarrow> I (unit_started n d)"
  using added [of d n] by (simp add: unit_started_def ordinary_def)

lemma quiet_step:
  assumes d: "I d"
  shows "I (meanwhile_step m d)"
proof (cases m)
  case (UnitEnds name)
  then show ?thesis using units [OF d] by simp
next
  case (InputModeRequest t md)
  then show ?thesis using d mode_request [OF d] by simp
qed (rule core [OF d], simp add: core_simps)+

end

sublocale device_quiet \<subseteq> device_alive I
  by unfold_locales (rule quiet_step, assumption, erule core, simp add: core_simps)

context device_quiet
begin

declare maintains_pausing [maintain]

lemma maintains_core_call:
  "(\<And>d. same_core d (eff d)) \<Longrightarrow> maintains I (outside_with refusal able eff val)"
  by (rule maintains_call) (blast intro: core)

lemma maintains_core_assign: "(\<And>d. same_core d (f d)) \<Longrightarrow> maintains I (assign f)"
  by (rule maintains_assign) (blast intro: core)

lemma maintains_units [maintain]:
  "ordinary n \<Longrightarrow> maintains I (start n)" "maintains I (stop p)" "maintains I (asking f)"
  "maintains I (outside (unit_stopped p))"
  "maintains I (wait_active p)" "maintains I (wait_inactive p)"
  "maintains I (outside (unit_frozen b p))" "maintains I untracked"
  by (auto simp: start_def stop_def asking_def wait_active_def wait_inactive_def
      outside_def outside_if_def unit_stopped_def untracked_def
      intro!: maintain maintains_call units frozen started)

lemma maintains_unit_ops [maintain]:
  "maintains I (is_active_checked p)" "maintains I (is_active p)"
  "ordinary n \<Longrightarrow> maintains I (start_and_wait n)" "maintains I (stop_and_wait p)"
  "maintains I (freeze_and_wait p)" "maintains I (thaw_and_wait p)" "maintains I (and_active b p)"
  by (auto simp: is_active_checked_def is_active_def start_and_wait_def stop_and_wait_def freeze_and_wait_def
      thaw_and_wait_def and_active_def intro!: maintain)

lemma maintains_display [maintain]:
  "maintains I display_status" "maintains I display_wait_ready" "maintains I (wait_surface key)"
  "maintains I (wait_surface_sequence key n)"
  by (auto simp: display_status_def display_wait_ready_def wait_surface_def wait_surface_sequence_def
      outside_if_def core_simps intro!: maintains_core_call)

lemma maintains_small [maintain]:
  "maintains I arm_wake_guard" "maintains I resume_wake_guard" "maintains I cancel_wake_guard"
  "maintains I (set_foreground_marker x)" "maintains I (send_home_event l)" "maintains I (store_save s)"
  "maintains I (store_remove a)" "maintains I (app_send a c)" "maintains I (wait_lifecycle t)"
  "maintains I restore_desired" "maintains I settle_frontlight_after_force_off"
  "maintains I (on_power f)" "maintains I (on_power_at g)"
  by (auto simp: arm_wake_guard_def resume_wake_guard_def cancel_wake_guard_def set_foreground_marker_def
      send_home_event_def store_save_def store_remove_def app_send_def wait_lifecycle_def restore_desired_def
      settle_frontlight_after_force_off_def on_power_def on_power_at_def outside_def outside_if_def core_simps
      intro!: maintain maintains_core_call maintains_core_assign)

lemma maintains_own: "(\<And>d. same_core d (snd (m d))) \<Longrightarrow> maintains I m"
  unfolding maintains_snd by (blast intro: core)

lemma maintains_counters [maintain]:
  "maintains I allocate_generation" "maintains I allocate_foreground_epoch" "maintains I allocate_sleep_epoch"
  "maintains I (begin_commit r)" "maintains I (reserve_controlled_exit a)"
  "maintains I (release_controlled_exit a p)" "maintains I (consume_report a e)"
  by (auto simp: allocate_generation_def allocate_foreground_epoch_def allocate_sleep_epoch_def
      begin_commit_def reserve_controlled_exit_def release_controlled_exit_def consume_report_def assign_def
      core_simps Let_def split: prod.splits sum.splits bool.splits option.splits intro!: maintains_own)

lemma maintains_holding [maintain]:
  assumes m: "maintains I m"
  shows "maintains I (holding_modes m)"
proof -
  have "I (snd (holding_modes m d))" if d: "I d" for d
  proof -
    have "I (d\<lparr>d_modes_locked := True\<rparr>)" by (rule core [OF d]) (simp add: core_simps)
    then have t: "I (snd (m (d\<lparr>d_modes_locked := True\<rparr>)))" using m by (simp add: maintains_snd)
    show ?thesis
      unfolding holding_modes_def by (rule core [OF t]) (simp add: core_simps split: prod.splits)
  qed
  then show ?thesis by (simp add: maintains_snd)
qed

lemma maintains_sessions [maintain]:
  "maintains I (save_session s)" "maintains I (mark_session_process_stopped a)"
  by (auto simp: save_session_def mark_session_process_stopped_def core_simps
      intro!: maintain maintains_core_assign)

lemma maintains_stop_managed_apps [maintain]: "maintains I stop_managed_apps"
  by (auto simp: stop_managed_apps_def stop_managed_app_def intro!: maintain)

end

text \<open>A manifest whose background service is not one of the units of the two domains.\<close>

definition benign :: "app_manifest \<Rightarrow> bool" where
  "benign m = (case background_unit_of m of None \<Rightarrow> True | Some u \<Rightarrow> ordinary u)"

lemma ordinary_units [simp]:
  "ordinary (managed_background_unit a)" "ordinary ''paperweight.service''"
  by (auto simp: ordinary_def managed_background_unit_def STOCK_UNIT_def DISPLAY_UNIT_def
      bound_to_display_def HOME_UNIT_def prefix_def)

context device_quiet
begin

lemma maintains_background [maintain]:
  assumes "benign m"
  shows "maintains I (ensure_background_service m)"
proof (cases "effective_background_service m")
  case (Some b)
  then show ?thesis
    using assms
    by (cases b) (auto simp: ensure_background_service_def benign_def background_unit_of_def
        start_managed_background_def Let_def outside_def intro!: maintain maintains_call started)
qed (simp add: ensure_background_service_def maintain)

lemma maintains_stop_background [maintain]: "maintains I (stop_background_service m)"
  by (auto simp: stop_background_service_def intro!: maintain)

end

locale device_unlocked = device_quiet +
  assumes sleeps: "I d \<Longrightarrow> I (d\<lparr>d_sleep := s\<rparr>)"
    and panel: "I d \<Longrightarrow> I (on_panel f d)"
begin

lemma maintains_on_sleep [maintain]: "maintains I (on_sleep f)"
  using sleeps by (auto simp: maintains_snd on_sleep_def split: prod.splits sum.splits)

lemma maintains_client [maintain]:
  "maintains I (client_set_foreground key g e)"
  "maintains I (client_prepare_foreground key g e)" "maintains I (client_activate_foreground key g e ink)"
  "maintains I client_clear_foreground" "maintains I (client_configure_ink key g e ink)"
  "maintains I (client_show_lock key g e s)" "maintains I (client_cancel_lock s n)"
  by (auto simp: client_set_foreground_def client_prepare_foreground_def client_activate_foreground_def
      client_clear_foreground_def client_configure_ink_def client_show_lock_def client_cancel_lock_def
      outside_if_def intro!: maintain maintains_call panel)

lemma maintains_show_manager_surface [maintain]: "maintains I show_manager_surface"
  by (auto simp: show_manager_surface_def intro!: maintain)

end

locale device_owned = device_unlocked +
  assumes bound: "I d \<Longrightarrow> bound_to_display n \<Longrightarrow> I (unit_started n d)"
begin

lemma maintains_start_bound [maintain]:
  "bound_to_display n \<Longrightarrow> maintains I (start n)" "bound_to_display n \<Longrightarrow> maintains I (restart_unit n)"
  by (auto simp: start_def restart_unit_def outside_def unit_stopped_def intro!: maintains_call bound units)

lemma maintains_home [maintain]:
  "maintains I ensure_manager_surface" "maintains I restart_runtime_and_wait"
  by (auto simp: ensure_manager_surface_def restart_runtime_and_wait_def bound_to_display_def intro!: maintain)

end

end
