(* ===== verification/Daemon_Ownership.thy ===== *)
theory Daemon_Ownership
  imports Daemon_Logic
begin

text \<open>
  Who owns the tablet. The stock shell and the display host never run at once, in a managed domain
  the stock shell is down, the power key is grabbed and the wake lock held, and the application in
  the foreground is registered with a lease on which its tables agree: \<open>consistent\<close>. The operations
  that change the domain keep this wherever they stop; each is a triple from one condition \<open>holds\<close> to
  another.
\<close>

section \<open>The invariant\<close>

definition managed_in :: "domain_state \<Rightarrow> bool" where
  "managed_in dm =
     (case dm of SystemD \<Rightarrow> False | EnteringManagedD \<Rightarrow> False | RestoringSystemD \<Rightarrow> False | RecoveringD \<Rightarrow> False
      | _ \<Rightarrow> True)"

definition benign_manifests :: "daemon \<Rightarrow> bool" where
  "benign_manifests d =
     (list_all benign (bt_values (d_manifests d))
      \<and> (case w_manifests d of Inl _ \<Rightarrow> True | Inr table \<Rightarrow> list_all benign (bt_values table)))"

definition apart :: "daemon \<Rightarrow> bool" where
  "apart d = (benign_manifests d \<and> \<not> (unit_up STOCK_UNIT d \<and> unit_up DISPLAY_UNIT d))"

text \<open>The process of a token, in the tables of generations, policies and fences.\<close>

definition registered :: "app_token \<Rightarrow> daemon \<Rightarrow> bool" where
  "registered t d =
     (bt_get (d_generations d) (app_id t) = Some (generation t)
      \<and> bt_get (d_execution d) (app_id t) \<noteq> None
      \<and> (\<exists>l. lease_id t = Some l \<and> bt_get (d_fences d) (app_id t) = Some (foreground_epoch t, l)))"

definition input_for :: "app_token \<Rightarrow> daemon \<Rightarrow> bool" where
  "input_for t d = (\<exists>i. bt_get (d_modes d) (app_id t) = Some i \<and> input_matches i t)"

definition settled_input :: "app_token \<Rightarrow> daemon \<Rightarrow> bool" where
  "settled_input t d = (\<exists>i. bt_get (d_modes d) (app_id t) = Some i \<and> input_matches i t \<and> \<not> ri_pending i)"

text \<open>An application whose process has just been reported gone has no generation any more.\<close>

definition runtime_known :: "app_id \<Rightarrow> daemon \<Rightarrow> bool" where
  "runtime_known a d =
     (bt_get (d_generations d) a = None \<or> (\<exists>t. app_id t = a \<and> registered t d \<and> settled_input t d))"

definition owned :: "domain_state \<Rightarrow> daemon \<Rightarrow> bool" where
  "owned dm d =
     ((managed_in dm \<longrightarrow> \<not> unit_up STOCK_UNIT d \<and> w_grab d \<and> (dm \<noteq> SleepingD \<longrightarrow> w_wakelock d))
      \<and> (dm = SystemD \<longrightarrow> \<not> w_grab d)
      \<and> (case dm of ForegroundD a \<Rightarrow> runtime_known a d | _ \<Rightarrow> True))"

definition consistent :: "daemon \<Rightarrow> bool" where
  "consistent d = (apart d \<and> owned (domain_of d) d)"

text \<open>The lock of the sleep transaction is on the panel, as long as the display host lives.\<close>

definition locked :: "daemon \<Rightarrow> bool" where
  "locked d =
     (sl_phase (d_sleep d) = LockedSleep \<and> sl_epoch (d_sleep d) \<noteq> 0
      \<and> (unit_up DISPLAY_UNIT d \<longrightarrow> p_lock (w_panel d) = sl_epoch (d_sleep d) \<and> p_committed (w_panel d)))"

definition settled :: "daemon \<Rightarrow> bool" where
  "settled d =
     (consistent d
      \<and> (case domain_of d of
           SystemD \<Rightarrow> True | ManagerD \<Rightarrow> True | ForegroundD _ \<Rightarrow> True | SleepingD \<Rightarrow> locked d | _ \<Rightarrow> False))"

section \<open>Conditions\<close>

text \<open>A domain, with what else is known in the middle of a handler.\<close>

datatype known = StockDown | DisplayDown | Grabbed | Ungrabbed | Awake | Locked
  | Generation app_id u64 | Policy app_id | Registered app_token | InputFor app_token

fun knows :: "daemon \<Rightarrow> known \<Rightarrow> bool" where
  "knows d StockDown = (\<not> unit_up STOCK_UNIT d)"
| "knows d DisplayDown = (\<not> unit_up DISPLAY_UNIT d)"
| "knows d Grabbed = w_grab d"
| "knows d Ungrabbed = (\<not> w_grab d)"
| "knows d Awake = w_wakelock d"
| "knows d Locked = locked d"
| "knows d (Generation a g) = (bt_get (d_generations d) a = Some g)"
| "knows d (Policy a) = (bt_get (d_execution d) a \<noteq> None)"
| "knows d (Registered t) = registered t d"
| "knows d (InputFor t) = input_for t d"

definition holds :: "domain_state \<Rightarrow> known set \<Rightarrow> daemon \<Rightarrow> bool" where
  "holds dm K d = (consistent d \<and> domain_of d = dm \<and> (\<forall>k \<in> K. knows d k))"

lemma unit_up_added [simp]: "unit_up n (unit_added m d) = (n = m \<or> unit_up n d)"
  by (auto simp: unit_added_def unit_up_def list_ex_iff)

lemma unit_up_keep: "unit_up n (keep_units k d) \<Longrightarrow> unit_up n d \<and> k n"
  by (auto simp: keep_units_def unit_up_def list_ex_iff)

lemma unit_up_frozen [simp]: "unit_up n (unit_frozen b m d) = unit_up n d"
  by (force simp: unit_frozen_def unit_up_def list_ex_iff)

lemma unit_up_panel [simp]: "unit_up n (on_panel f d) = unit_up n d"
  by (simp add: on_panel_def unit_up_def)

lemma unit_names [simp]:
  "STOCK_UNIT \<noteq> DISPLAY_UNIT" "DISPLAY_UNIT \<noteq> STOCK_UNIT" "\<not> bound_to_display STOCK_UNIT"
  "\<not> bound_to_display DISPLAY_UNIT"
  by (auto simp: STOCK_UNIT_def DISPLAY_UNIT_def HOME_UNIT_def bound_to_display_def prefix_def)

lemma bound_names: "bound_to_display n \<Longrightarrow> n \<noteq> STOCK_UNIT \<and> n \<noteq> DISPLAY_UNIT"
  by (metis unit_names(3) unit_names(4))

lemma keep_units_simps [simp]:
  "domain_of (keep_units k d) = domain_of d" "registered t (keep_units k d) = registered t d"
  "runtime_known a (keep_units k d) = runtime_known a d" "w_grab (keep_units k d) = w_grab d"
  "w_wakelock (keep_units k d) = w_wakelock d" "benign_manifests (keep_units k d) = benign_manifests d"
  "d_sleep (keep_units k d) = d_sleep d"
  by (simp_all add: keep_units_def domain_of_def registered_def runtime_known_def settled_input_def benign_manifests_def)

lemma unit_added_simps [simp]:
  "domain_of (unit_added m d) = domain_of d" "registered t (unit_added m d) = registered t d"
  "runtime_known a (unit_added m d) = runtime_known a d" "w_grab (unit_added m d) = w_grab d"
  "w_wakelock (unit_added m d) = w_wakelock d" "benign_manifests (unit_added m d) = benign_manifests d"
  "d_sleep (unit_added m d) = d_sleep d" "w_panel (unit_added m d) = w_panel d"
  "d_generations (unit_added m d) = d_generations d" "d_execution (unit_added m d) = d_execution d"
  "d_modes (unit_added m d) = d_modes d"
  by (simp_all add: unit_added_def domain_of_def registered_def runtime_known_def settled_input_def benign_manifests_def)

lemma unit_frozen_simps [simp]:
  "domain_of (unit_frozen b m d) = domain_of d" "registered t (unit_frozen b m d) = registered t d"
  "runtime_known a (unit_frozen b m d) = runtime_known a d" "w_grab (unit_frozen b m d) = w_grab d"
  "w_wakelock (unit_frozen b m d) = w_wakelock d" "benign_manifests (unit_frozen b m d) = benign_manifests d"
  "d_sleep (unit_frozen b m d) = d_sleep d" "w_panel (unit_frozen b m d) = w_panel d"
  "d_generations (unit_frozen b m d) = d_generations d" "d_execution (unit_frozen b m d) = d_execution d"
  "d_modes (unit_frozen b m d) = d_modes d"
  by (simp_all add: unit_frozen_def domain_of_def registered_def runtime_known_def settled_input_def benign_manifests_def)

lemma unit_started_simps [simp]:
  "domain_of (unit_started m d) = domain_of d" "registered t (unit_started m d) = registered t d"
  "runtime_known a (unit_started m d) = runtime_known a d" "w_grab (unit_started m d) = w_grab d"
  "w_wakelock (unit_started m d) = w_wakelock d" "benign_manifests (unit_started m d) = benign_manifests d"
  "d_sleep (unit_started m d) = d_sleep d" "w_panel (unit_started m d) = w_panel d"
  "d_generations (unit_started m d) = d_generations d" "d_execution (unit_started m d) = d_execution d"
  "d_modes (unit_started m d) = d_modes d"
  "unit_up n (unit_started m d) = (n = m \<or> n = DISPLAY_UNIT \<and> bound_to_display m \<or> unit_up n d)"
  by (auto simp: unit_started_def)

lemma on_panel_simps [simp]:
  "domain_of (on_panel f d) = domain_of d" "registered t (on_panel f d) = registered t d"
  "runtime_known a (on_panel f d) = runtime_known a d" "w_grab (on_panel f d) = w_grab d"
  "w_wakelock (on_panel f d) = w_wakelock d" "benign_manifests (on_panel f d) = benign_manifests d"
  "d_sleep (on_panel f d) = d_sleep d" "d_generations (on_panel f d) = d_generations d"
  "d_execution (on_panel f d) = d_execution d" "d_modes (on_panel f d) = d_modes d"
  by (simp_all add: on_panel_def domain_of_def registered_def runtime_known_def settled_input_def benign_manifests_def)

lemma core_panel: "bare_panel p = bare_panel q \<Longrightarrow> p_lock p = p_lock q \<and> p_committed p = p_committed q"
  by (cases p; cases q) (simp add: bare_panel_def)

lemma same_core_unit: "same_core d t \<Longrightarrow> unit_up n t = unit_up n d"
  by (simp add: same_core_def unit_up_def)

lemma same_core_simps:
  assumes "same_core d t"
  shows "unit_up n t = unit_up n d" "domain_of t = domain_of d" "registered tok t = registered tok d"
    "runtime_known a t = runtime_known a d" "w_grab t = w_grab d" "w_wakelock t = w_wakelock d"
    "benign_manifests t = benign_manifests d" "locked t = locked d"
  using assms core_panel [of "w_panel t" "w_panel d"]
  by (simp_all add: same_core_def domain_of_def registered_def runtime_known_def settled_input_def benign_manifests_def
      unit_up_def locked_def)

lemma same_core_consistent: "same_core d t \<Longrightarrow> consistent t = consistent d"
  by (simp add: consistent_def apart_def owned_def same_core_simps split: domain_state.splits)

lemma same_core_knows: "same_core d t \<Longrightarrow> knows t k = knows d k"
  by (cases k) (simp_all add: same_core_simps, simp_all add: same_core_def input_for_def)

lemma consistent_keep: "consistent d \<Longrightarrow> consistent (keep_units k d)"
  by (auto simp: consistent_def apart_def owned_def dest: unit_up_keep split: domain_state.splits)

lemma consistent_frozen: "consistent d \<Longrightarrow> consistent (unit_frozen b m d)"
  by (simp add: consistent_def apart_def owned_def split: domain_state.splits)

lemma consistent_panel: "consistent d \<Longrightarrow> consistent (on_panel f d)"
  by (simp add: consistent_def apart_def owned_def split: domain_state.splits)

lemma consistent_added: "consistent d \<Longrightarrow> ordinary n \<Longrightarrow> consistent (unit_added n d)"
  by (auto simp: consistent_def apart_def owned_def ordinary_def split: domain_state.splits)

lemma consistent_started:
  "consistent d \<Longrightarrow> \<not> unit_up STOCK_UNIT d \<Longrightarrow> bound_to_display n \<Longrightarrow> consistent (unit_started n d)"
  by (auto simp: consistent_def apart_def owned_def dest: bound_names split: domain_state.splits)

lemma knows_keep: "knows d k \<Longrightarrow> knows (keep_units p d) k"
  by (cases k) (auto simp: locked_def keep_units_def unit_up_def list_ex_iff registered_def input_for_def)

lemma knows_frozen: "knows d k \<Longrightarrow> knows (unit_frozen b n d) k"
  by (cases k) (simp_all add: locked_def, simp_all add: unit_frozen_def input_for_def)

lemma knows_added: "knows d k \<Longrightarrow> ordinary n \<Longrightarrow> knows (unit_added n d) k"
  by (cases k) (auto simp: locked_def ordinary_def, auto simp: unit_added_def input_for_def)

lemma mode_request_frame:
  assumes "in_transit_to (app_id tok) (domain_of d)" "t = d\<lparr>d_modes := m\<rparr>"
  shows "consistent t = consistent d" "domain_of t = domain_of d"
    "(\<And>u. k \<noteq> InputFor u) \<Longrightarrow> knows t k = knows d k"
  using assms
  by (cases k; auto simp: consistent_def apart_def owned_def domain_of_def benign_manifests_def unit_up_def
      locked_def registered_def in_transit_to_def split: domain_state.splits)+

text \<open>A mode request changes the mode and nothing else.\<close>

lemma pending_mode_request_get:
  "bt_get modes a = Some i \<Longrightarrow> \<exists>m. bt_get (snd (pending_mode_request tok md modes)) a = Some (i\<lparr>ri_mode := m\<rparr>)"
proof -
  assume i: "bt_get modes a = Some i"
  have "\<exists>m. i = i\<lparr>ri_mode := m\<rparr>" by (rule exI [of _ "ri_mode i"]) simp
  then show ?thesis
    using i by (auto simp: pending_mode_request_def Let_def split: option.splits sum.splits)
qed

lemma input_matches_mode [simp]: "input_matches (i\<lparr>ri_mode := m\<rparr>) t = input_matches i t"
  by (simp add: input_matches_def)

lemma mode_request_knows:
  assumes "in_transit_to (app_id tok) (domain_of d)" "knows d k"
  shows "knows (d\<lparr>d_modes := snd (pending_mode_request tok m (d_modes d))\<rparr>) k"
proof (cases "\<exists>u. k = InputFor u")
  case True
  then obtain u where k: "k = InputFor u" ..
  then show ?thesis
    using assms(2) pending_mode_request_get [of "d_modes d" "app_id u" _ tok m] by (auto simp: input_for_def)
qed (use assms mode_request_frame(3) [OF assms(1) refl, of k] in auto)

interpretation quiet: device_quiet "holds dm K" for dm K
proof unfold_locales
  fix d t assume "holds dm K d" "same_core d t"
  then show "holds dm K t"
    by (auto simp: holds_def same_core_consistent same_core_knows same_core_simps)
next
  fix d k assume "holds dm K d"
  then show "holds dm K (keep_units k d)" by (auto simp: holds_def consistent_keep knows_keep)
next
  fix d b n assume "holds dm K d"
  then show "holds dm K (unit_frozen b n d)" by (auto simp: holds_def consistent_frozen knows_frozen)
next
  fix d n assume "holds dm K d" "ordinary n"
  then show "holds dm K (unit_added n d)" by (auto simp: holds_def consistent_added knows_added)
next
  fix d m and tok :: app_token assume "holds dm K d" "in_transit_to (app_id tok) (domain_of d)"
  then show "holds dm K (d\<lparr>d_modes := snd (pending_mode_request tok m (d_modes d))\<rparr>)"
    by (auto simp: holds_def mode_request_frame(1,2) [OF _ refl] intro: mode_request_knows)
qed

text \<open>A condition that does not say that the lock stands, and one in which the stock shell is down too.\<close>

definition unlocked :: "domain_state \<Rightarrow> known set \<Rightarrow> daemon \<Rightarrow> bool" where
  "unlocked dm K = holds dm (K - {Locked})"

definition ours :: "domain_state \<Rightarrow> known set \<Rightarrow> daemon \<Rightarrow> bool" where
  "ours dm K = holds dm (insert StockDown (K - {Locked, DisplayDown}))"

lemma knows_panel: "k \<noteq> Locked \<Longrightarrow> knows d k \<Longrightarrow> knows (on_panel f d) k"
  by (cases k) (simp_all, simp_all add: on_panel_def input_for_def)

lemma sleep_frame:
  "consistent (d\<lparr>d_sleep := s\<rparr>) = consistent d" "k \<noteq> Locked \<Longrightarrow> knows (d\<lparr>d_sleep := s\<rparr>) k = knows d k"
  "domain_of (d\<lparr>d_sleep := s\<rparr>) = domain_of d"
  by (cases k; simp add: consistent_def apart_def owned_def domain_of_def benign_manifests_def unit_up_def
      runtime_known_def settled_input_def input_for_def registered_def split: domain_state.splits)+

interpretation unlocked: device_unlocked "unlocked dm K" for dm K
  unfolding unlocked_def
  by unfold_locales (auto simp: holds_def sleep_frame consistent_panel intro: knows_panel)

interpretation ours: device_owned "ours dm K" for dm K
  unfolding ours_def
proof unfold_locales
  fix d s assume "holds dm (insert StockDown (K - {Locked, DisplayDown})) d"
  then show "holds dm (insert StockDown (K - {Locked, DisplayDown})) (d\<lparr>d_sleep := s\<rparr>)"
    by (auto simp: holds_def sleep_frame unit_up_def)
next
  fix d f assume "holds dm (insert StockDown (K - {Locked, DisplayDown})) d"
  then show "holds dm (insert StockDown (K - {Locked, DisplayDown})) (on_panel f d)"
    by (auto simp: holds_def consistent_panel intro: knows_panel)
next
  fix d n assume d: "holds dm (insert StockDown (K - {Locked, DisplayDown})) d" "bound_to_display n"
  have "knows (unit_started n d) k" if "k \<in> insert StockDown (K - {Locked, DisplayDown})" for k
    using d that bound_names [of n] by (cases k) (auto simp: holds_def input_for_def dest: bspec)
  then show "holds dm (insert StockDown (K - {Locked, DisplayDown})) (unit_started n d)"
    using d by (auto simp: holds_def consistent_started)
qed

section \<open>Rules\<close>

lemma holds_consistent [simp]: "holds dm K d \<Longrightarrow> consistent d"
  by (simp add: holds_def)

lemma holds_mono: "holds dm K d \<Longrightarrow> K' \<subseteq> K \<Longrightarrow> holds dm K' d"
  by (auto simp: holds_def)

lemma unlocked_eq: "Locked \<notin> K \<Longrightarrow> unlocked dm K = holds dm K"
  by (simp add: unlocked_def)

lemma holds_stock_down: "managed_in dm \<Longrightarrow> holds dm (insert StockDown K) = holds dm K"
  by (rule ext) (auto simp: holds_def consistent_def owned_def)

lemma ours_eq: "Locked \<notin> K \<Longrightarrow> DisplayDown \<notin> K \<Longrightarrow> managed_in dm \<or> StockDown \<in> K \<Longrightarrow> ours dm K = holds dm K"
  by (auto simp: ours_def holds_stock_down insert_absorb)

text \<open>What the interfaces give, for \<open>holds\<close>.\<close>

lemma holds_panel_ops [maintain]:
  assumes "Locked \<notin> K"
  shows "maintains (holds dm K) (on_sleep f)"
    "maintains (holds dm K) (client_set_foreground key g e)"
    "maintains (holds dm K) (client_prepare_foreground key g e)"
    "maintains (holds dm K) (client_activate_foreground key g e ink)"
    "maintains (holds dm K) client_clear_foreground"
    "maintains (holds dm K) (client_configure_ink key g e ink)"
    "maintains (holds dm K) (client_show_lock key g e s)"
    "maintains (holds dm K) (client_cancel_lock s n)"
    "maintains (holds dm K) show_manager_surface"
  using unlocked.maintains_on_sleep unlocked.maintains_client unlocked.maintains_show_manager_surface
  by (simp_all flip: unlocked_eq [OF assms])

lemma holds_home_ops [maintain]:
  assumes "Locked \<notin> K" "DisplayDown \<notin> K" "managed_in dm \<or> StockDown \<in> K"
  shows "bound_to_display n \<Longrightarrow> maintains (holds dm K) (start n)"
    "maintains (holds dm K) ensure_manager_surface" "maintains (holds dm K) restart_runtime_and_wait"
  using ours.maintains_start_bound ours.maintains_home by (simp_all flip: ours_eq [OF assms])

lemma keeping:
  "maintains (holds dm K) m \<Longrightarrow> triple (holds dm K) m (\<lambda>_. holds dm K) consistent"
  unfolding maintains_def by (erule triple_weaken) simp_all

lemma keep_seq:
  "maintains (holds dm K) m \<Longrightarrow> triple (holds dm K) n Q R \<Longrightarrow> (\<And>d. holds dm K d \<Longrightarrow> R d)
    \<Longrightarrow> triple (holds dm K) (io_seq m n) Q R"
  unfolding maintains_def by (rule triple_seq, erule triple_weaken) simp_all

lemma keep_bind:
  "maintains (holds dm K) m \<Longrightarrow> (\<And>x. triple (holds dm K) (f x) Q R) \<Longrightarrow> (\<And>d. holds dm K d \<Longrightarrow> R d)
    \<Longrightarrow> triple (holds dm K) (io_bind m f) Q R"
  unfolding maintains_def by (rule triple_bind [where Q = "\<lambda>_. holds dm K"], erule triple_weaken) simp_all

lemma reading_domain:
  "triple (holds dm K) (f dm) Q R \<Longrightarrow> triple (holds dm K) (io_bind (looking domain_of) f) Q R"
  by (simp add: triple_def io_bind_def looking_def holds_def)

lemma maintains_domain [maintain]:
  "maintains (holds dm K) (f dm) \<Longrightarrow> maintains (holds dm K) (io_bind (looking domain_of) f)"
  unfolding maintains_def by (rule reading_domain)

lemma calling:
  assumes "\<And>d. holds dm K d \<Longrightarrow> able d \<Longrightarrow> holds dm K' (eff d)"
  shows "triple (holds dm K) (outside_with refusal able eff val) (\<lambda>_. holds dm K') consistent"
  by (rule quiet.triple_call [where dm = dm and K = K]) (auto dest: assms)

lemma forgetting: "K' \<subseteq> K \<Longrightarrow> triple (holds dm K') m Q R \<Longrightarrow> triple (holds dm K) m Q R"
  by (erule triple_weaken) (auto intro: holds_mono)

section \<open>The owners\<close>

lemma grab_frame:
  "domain_of (d\<lparr>w_grab := g\<rparr>) = domain_of d" "domain_of (d\<lparr>w_wakelock := g\<rparr>) = domain_of d"
  by (simp_all add: domain_of_def)

lemma knows_grab:
  "knows d k \<Longrightarrow> k \<noteq> Ungrabbed \<Longrightarrow> knows (d\<lparr>w_grab := True\<rparr>) k"
  "knows d k \<Longrightarrow> k \<noteq> Grabbed \<Longrightarrow> knows (d\<lparr>w_grab := False\<rparr>) k"
  "knows d k \<Longrightarrow> knows (d\<lparr>w_wakelock := True\<rparr>) k"
  "knows d k \<Longrightarrow> k \<noteq> Awake \<Longrightarrow> knows (d\<lparr>w_wakelock := False\<rparr>) k"
  by (cases k; simp add: locked_def registered_def unit_up_def input_for_def)+

lemma consistent_grab:
  "consistent d \<Longrightarrow> domain_of d \<noteq> SystemD \<Longrightarrow> consistent (d\<lparr>w_grab := True\<rparr>)"
  "consistent d \<Longrightarrow> \<not> managed_in (domain_of d) \<Longrightarrow> consistent (d\<lparr>w_grab := False\<rparr>)"
  "consistent d \<Longrightarrow> consistent (d\<lparr>w_wakelock := True\<rparr>)"
  "consistent d \<Longrightarrow> \<not> managed_in (domain_of d) \<or> domain_of d = SleepingD \<Longrightarrow> consistent (d\<lparr>w_wakelock := False\<rparr>)"
  by (auto simp: consistent_def apart_def owned_def domain_of_def benign_manifests_def unit_up_def managed_in_def
      runtime_known_def settled_input_def registered_def split: domain_state.splits)

lemma grabbing:
  "dm \<noteq> SystemD \<Longrightarrow> triple (holds dm K) (set_power_grab True) (\<lambda>_. holds dm (insert Grabbed (K - {Ungrabbed}))) consistent"
  unfolding set_power_grab_def outside_def
  by (rule calling) (auto simp: holds_def consistent_grab grab_frame intro: knows_grab)

lemma ungrabbing:
  "\<not> managed_in dm \<Longrightarrow> triple (holds dm K) (set_power_grab False) (\<lambda>_. holds dm (insert Ungrabbed (K - {Grabbed}))) consistent"
  unfolding set_power_grab_def outside_def
  by (rule calling) (auto simp: holds_def consistent_grab grab_frame intro: knows_grab)

lemma acquiring: "triple (holds dm K) acquire_wakelock (\<lambda>_. holds dm (insert Awake K)) consistent"
  unfolding acquire_wakelock_def outside_def
  by (rule calling) (auto simp: holds_def consistent_grab grab_frame intro: knows_grab)

lemma maintains_acquire [maintain]: "maintains (holds dm K) acquire_wakelock"
  unfolding acquire_wakelock_def outside_def
  by (intro quiet.maintains_call) (auto simp: holds_def consistent_grab grab_frame intro: knows_grab)

lemma maintains_release [maintain]:
  "Awake \<notin> K \<Longrightarrow> \<not> managed_in dm \<or> dm = SleepingD \<Longrightarrow> maintains (holds dm K) release_wakelock"
  unfolding release_wakelock_def outside_def
  by (intro quiet.maintains_call) (auto simp: holds_def consistent_grab grab_frame intro!: knows_grab)

text \<open>A unit is down once the wait for its stop has returned.\<close>

lemma stopping:
  "triple (holds dm K) (stop_and_wait p) (\<lambda>_ d. holds dm K d \<and> \<not> unit_active p d) (holds dm K)"
  unfolding stop_and_wait_def
proof (rule triple_bind)
  show "triple (holds dm K) (trying (stop p)) (\<lambda>_. holds dm K) (holds dm K)"
    using quiet.maintains_units(2) by (simp add: maintains_def [symmetric] maintain)
next
  fix first :: "string + unit"
  have asked: "triple (holds dm K) (is_active_checked p) (\<lambda>b d. holds dm K d \<and> b = unit_active p d) (holds dm K)"
    unfolding is_active_checked_def asking_def by (rule quiet.triple_call) simp_all
  have waits: "triple (holds dm K) (failing_as g (wait_inactive p)) (\<lambda>_ d. holds dm K d \<and> \<not> unit_active p d) (holds dm K)"
    for g :: "string \<Rightarrow> string"
    unfolding wait_inactive_def outside_if_def by (intro triple_failing_as quiet.triple_call) simp_all
  show "triple (holds dm K) (io_bind (is_active_checked p) (\<lambda>active.
       if \<not> active then pure ()
       else
         io_seq (ignoring_result (outside (unit_stopped p)))
        (io_seq (ignoring_result (stop p))
        (failing_as (\<lambda>wait_error. case first of
             Inl e \<Rightarrow> e @ ''; forced stop also failed: '' @ wait_error
           | Inr _ \<Rightarrow> wait_error)
          (wait_inactive p))))) (\<lambda>_ d. holds dm K d \<and> \<not> unit_active p d) (holds dm K)" (is "triple _ (io_bind _ ?rest) ?Q ?R")
  proof (rule triple_bind [OF asked])
    fix b
    show "triple (\<lambda>d. holds dm K d \<and> b = unit_active p d) (?rest b) ?Q ?R"
    proof (cases b)
      case True
      have "triple (holds dm K) (?rest True) ?Q ?R"
        by (simp add: keep_seq maintain waits)
      then show ?thesis using True by (auto elim!: triple_weaken)
    qed (auto intro: triple_pure)
  qed
qed

lemma unit_active_owner [simp]:
  "unit_active STOCK_UNIT d = unit_up STOCK_UNIT d" "unit_active DISPLAY_UNIT d = unit_up DISPLAY_UNIT d"
  by (simp_all add: unit_active_def unit_up_def unit_matches_def STOCK_UNIT_def DISPLAY_UNIT_def split_once_def)

lemma stopping_owner:
  "triple (holds dm K) (stop_and_wait STOCK_UNIT) (\<lambda>_. holds dm (insert StockDown K)) consistent"
  "triple (holds dm K) (stop_and_wait DISPLAY_UNIT) (\<lambda>_. holds dm (insert DisplayDown K)) consistent"
  by (rule triple_weaken [OF stopping]; auto simp: holds_def)+

end
