(* ===== verification/Daemon_Domains.thy ===== *)
theory Daemon_Domains
  imports Daemon_Ownership
begin

text \<open>
  The changes of the domain: entering the manager, giving the tablet back to the stock shell, parking
  and its recovery, closing, exits. Each ends where its caller expects it, and wherever it stops the
  tables, the units and the power key agree with the domain (\<open>consistent\<close>).
\<close>

section \<open>Transitions\<close>

lemma state_frame:
  "domain_of (d\<lparr>d_state := s\<rparr>) = mgr_domain s" "knows (d\<lparr>d_state := s\<rparr>) k = knows d k"
  "apart (d\<lparr>d_state := s\<rparr>) = apart d" "owned dm (d\<lparr>d_state := s\<rparr>) = owned dm d"
  by (cases k; simp add: domain_of_def locked_def registered_def unit_up_def apart_def benign_manifests_def owned_def
      runtime_known_def settled_input_def input_for_def split: domain_state.splits)+

lemma moving_as:
  assumes next_is: "\<And>lst. next_domain lst dm t = None \<or> next_domain lst dm t = Some dm'"
    and own: "\<And>d. P d \<Longrightarrow> holds dm K d \<and> owned dm' d" "\<And>d. P d \<Longrightarrow> R d"
  shows "triple P (apply_transition t) (\<lambda>_. holds dm' K) R"
proof -
  have "case apply_transition t d of (Done x, u) \<Rightarrow> holds dm' K u | (_, u) \<Rightarrow> R u" if d: "P d" for d
  proof -
    have dm: "mgr_domain (d_state d) = dm" using own(1) [OF d] by (simp add: holds_def domain_of_def)
    show ?thesis
      using next_is [of "mgr_last_app (d_state d)"] d own(1) [OF d] own(2) [OF d]
      by (auto simp: apply_transition_def manager_apply_def dm holds_def consistent_def state_frame
          split: option.splits)
  qed
  then show ?thesis by (auto simp: triple_def)
qed

lemma moving:
  "(\<And>lst. next_domain lst dm t = None \<or> next_domain lst dm t = Some dm') \<Longrightarrow>
   (\<And>d. holds dm K d \<Longrightarrow> owned dm' d) \<Longrightarrow> (\<And>d. holds dm K d \<Longrightarrow> R d) \<Longrightarrow>
   triple (holds dm K) (apply_transition t) (\<lambda>_. holds dm' K) R"
  by (rule moving_as) auto

lemma owned_simps [simp]:
  "owned EnteringManagedD d" "owned RestoringSystemD d" "owned RecoveringD d"
  "owned SystemD d = (\<not> w_grab d)"
  by (simp_all add: owned_def managed_in_def)

lemma holds_owned: "holds dm K d \<Longrightarrow> owned dm d"
  by (auto simp: holds_def consistent_def)

text \<open>Between the domains in which an application or Home has the panel.\<close>

lemma owned_managed:
  "owned dm d \<Longrightarrow> managed_in dm \<Longrightarrow> dm \<noteq> SleepingD \<Longrightarrow> owned ManagerD d"
  "owned dm d \<Longrightarrow> managed_in dm \<Longrightarrow> dm \<noteq> SleepingD \<Longrightarrow> owned (LaunchingD a) d"
  "owned dm d \<Longrightarrow> managed_in dm \<Longrightarrow> dm \<noteq> SleepingD \<Longrightarrow> owned (ParkingD a) d"
  "owned dm d \<Longrightarrow> managed_in dm \<Longrightarrow> owned SleepingD d"
  by (simp_all add: owned_def managed_in_def)

lemma managed_in_simps [simp]:
  "managed_in ManagerD" "managed_in (LaunchingD a)" "managed_in (ForegroundD a)" "managed_in (ParkingD a)" "managed_in SleepingD"
  "\<not> managed_in SystemD" "\<not> managed_in EnteringManagedD" "\<not> managed_in RestoringSystemD"
  by (simp_all add: managed_in_def)

lemma next_domain_simps [simp]:
  "next_domain lst SystemD transition.TriplePower = Some EnteringManagedD"
  "next_domain lst EnteringManagedD ManagedReady = Some ManagerD"
  "next_domain lst RestoringSystemD SystemReady = Some SystemD"
  "next_domain lst (ForegroundD a) transition.TriplePower = Some (ParkingD a)"
  "next_domain lst (ForegroundD a) transition.SinglePower = Some (ParkingD a)"
  "next_domain lst (ForegroundD a) (AppExited a) = Some ManagerD"
  "next_domain lst (ForegroundD a) (AppCrashed a) = Some ManagerD"
  "next_domain lst (ParkingD a) (AppParked a) = Some ManagerD"
  "next_domain lst (ParkingD a) (AppRestored a) = Some (ForegroundD a)"
  "next_domain lst (ParkingD a) (AppExited a) = Some ManagerD"
  "next_domain lst (ParkingD a) (AppCrashed a) = Some ManagerD"
  "next_domain lst ManagerD (Launch a) = Some (LaunchingD a)"
  "next_domain lst (LaunchingD a) (AppReady a) = Some (ForegroundD a)"
  "next_domain lst (LaunchingD a) (AppExited a) = Some ManagerD"
  "next_domain lst (LaunchingD a) (AppCrashed a) = Some ManagerD"
  "next_domain lst ManagerD Sleep = Some SleepingD"
  "next_domain lst SleepingD Wake = Some ManagerD"
  by (simp_all add: next_domain_def)

section \<open>The manager and the stock shell\<close>

lemma maintains_stop_managed_domain [maintain]: "maintains (holds dm K) stop_managed_domain"
  by (auto simp: stop_managed_domain_def intro!: maintain)

lemma stopping_domain:
  "triple (holds dm K) stop_managed_domain (\<lambda>_. holds dm (insert DisplayDown K)) consistent"
proof -
  have owner: "''remagic-display-host.service'' = DISPLAY_UNIT" by (simp add: DISPLAY_UNIT_def)
  show ?thesis
    unfolding stop_managed_domain_def MANAGED_DOMAIN_UNITS_def for_all.simps owner
    by (intro keep_seq maintain triple_seq [OF triple_failing_as [OF stopping_owner(2)]] triple_pure)
      (auto intro: holds_consistent)
qed

lemma starting_stock:
  assumes "\<not> managed_in dm"
  shows "triple (holds dm {DisplayDown}) (start STOCK_UNIT) (\<lambda>_. holds dm {DisplayDown}) consistent"
  unfolding start_def outside_def
  by (rule calling) (use assms in \<open>auto simp: holds_def consistent_def apart_def owned_def unit_started_def
      split: domain_state.splits\<close>)

lemma restoring_stock:
  assumes "\<not> managed_in dm"
  shows "triple (holds dm {DisplayDown}) controller_restore_system (\<lambda>_. holds dm {DisplayDown}) consistent"
proof -
  have paper: "maintains (holds dm {DisplayDown}) start_paperweight_if_installed"
    by (auto simp: start_paperweight_if_installed_def intro!: maintain)
  show ?thesis
    unfolding controller_restore_system_def
    by (intro keep_seq maintain triple_seq [OF starting_stock [OF assms]] keeping)
      (use assms paper in \<open>auto intro: holds_consistent\<close>)
qed

lemma entering_managed:
  "triple (holds dm K) controller_enter_managed (\<lambda>_. holds dm (insert StockDown (insert Awake K))) consistent"
  unfolding controller_enter_managed_def
  by (intro triple_seq [OF acquiring] triple_seq [OF stopping_owner(1)] keep_seq maintain keeping)
    (auto intro: holds_consistent)

lemma starting_display:
  assumes "StockDown \<in> K" "DisplayDown \<notin> K" "Locked \<notin> K"
  shows "maintains (holds dm K) (start DISPLAY_UNIT)"
proof -
  have "holds dm K (unit_added DISPLAY_UNIT d)" if "holds dm K d" for d
  proof -
    have "knows (unit_added DISPLAY_UNIT d) k" if "k \<in> K" for k
      using that assms \<open>holds dm K d\<close> by (cases k) (auto simp: holds_def input_for_def dest: bspec)
    moreover have "\<not> unit_up STOCK_UNIT d" using assms \<open>holds dm K d\<close> by (auto simp: holds_def)
    ultimately show ?thesis
      using \<open>holds dm K d\<close> by (auto simp: holds_def consistent_def apart_def owned_def split: domain_state.splits)
  qed
  then show ?thesis
    unfolding start_def outside_def by (intro quiet.maintains_call) (simp add: unit_started_def)
qed

lemma entering:
  "triple (holds SystemD {}) enter_manager (\<lambda>_. holds ManagerD {}) consistent"
proof -
  let ?K = "insert StockDown (insert Awake (insert Grabbed {}))"
  have ready: "triple (holds EnteringManagedD ?K) (apply_transition ManagedReady) (\<lambda>_. holds ManagerD ?K) consistent"
    by (rule moving) (auto simp: holds_def owned_def)
  have home: "bound_to_display HOME_UNIT" by (simp add: bound_to_display_def)
  have tail: "triple (holds EnteringManagedD ?K)
      (io_seq (set_foreground_marker None)
      (io_seq (start DISPLAY_UNIT)
      (io_seq display_wait_ready
      (io_seq (start HOME_UNIT)
      (io_bind (wait_surface HOME_KEY) (\<lambda>_.
       io_seq show_manager_surface
      (io_seq (apply_transition ManagedReady)
      (io_seq (on_power_at enter_managed)
       restore_desired)))))))) (\<lambda>_. holds ManagerD ?K) consistent"
    by (intro keep_seq keep_bind starting_display maintain triple_seq [OF ready] keeping home) auto
  have "triple (holds EnteringManagedD (insert Grabbed {})) (io_seq controller_enter_managed
      (io_seq (set_foreground_marker None)
      (io_seq (start DISPLAY_UNIT)
      (io_seq display_wait_ready
      (io_seq (start HOME_UNIT)
      (io_bind (wait_surface HOME_KEY) (\<lambda>_.
       io_seq show_manager_surface
      (io_seq (apply_transition ManagedReady)
      (io_seq (on_power_at enter_managed)
       restore_desired))))))))) (\<lambda>_. holds ManagerD {}) consistent"
    by (rule triple_seq [OF entering_managed], rule triple_weaken [OF tail]) (auto intro: holds_mono)
  then show ?thesis
    unfolding enter_manager_def
    by (intro triple_seq [OF moving [where dm' = EnteringManagedD]] triple_seq [OF grabbing]) auto
qed

lemma any_domain: "(\<And>dm. triple (holds dm {}) m Q R) \<Longrightarrow> triple consistent m Q R"
  by (simp add: triple_def holds_def)

lemma tables_frame:
  assumes "t = d\<lparr>d_generations := g, d_execution := x, d_fences := f, d_modes := m\<rparr>"
  shows "domain_of t = domain_of d" "apart t = apart d" "k \<in> {StockDown, DisplayDown, Grabbed, Ungrabbed, Awake, Locked} \<Longrightarrow> knows t k = knows d k"
    "(\<And>a. dm \<noteq> ForegroundD a) \<Longrightarrow> owned dm t = owned dm d" "unit_up n t = unit_up n d"
  using assms
  by (cases k; auto simp: domain_of_def locked_def registered_def unit_up_def apart_def benign_manifests_def owned_def
      split: domain_state.splits)+

lemma restoring_triple:
  "triple (holds RestoringSystemD {})
     (io_bind (on_sleep sleep_reset) (\<lambda>_.
         io_seq (ignoring_result cancel_wake_guard)
        (io_seq restore_desired
        (io_seq (ignoring_result client_clear_foreground)
        (io_seq (stop_and_wait HOME_UNIT)
        (io_seq stop_managed_apps
        (io_seq (stop_and_wait ''remagic-app@*.service'')
        (io_seq (stop_and_wait ''remagic-runtime.service'')
        (io_seq (stop_and_wait DISPLAY_UNIT)
        (io_seq (assign forget_runtimes)
        (io_seq (ignoring_result (set_foreground_marker None))
        (io_seq controller_restore_system
        (io_seq (set_power_grab False)
        (io_seq (apply_transition SystemReady)
        (on_power enter_stock)))))))))))))))
     (\<lambda>_. holds SystemD {}) consistent"
proof -
  let ?D = "{DisplayDown}" and ?U = "{Ungrabbed, DisplayDown}"
  have ready: "triple (holds RestoringSystemD ?U) (apply_transition SystemReady) (\<lambda>_. holds SystemD ?U) consistent"
    by (rule moving) (auto simp: holds_def)
  have last: "triple (holds RestoringSystemD ?D) (io_seq (set_power_grab False)
        (io_seq (apply_transition SystemReady) (on_power enter_stock))) (\<lambda>_. holds SystemD ?U) consistent"
  proof (rule triple_seq)
    show "triple (holds RestoringSystemD ?D) (set_power_grab False) (\<lambda>_. holds RestoringSystemD ?U) consistent"
      using ungrabbing [of RestoringSystemD ?D] by simp
    show "triple (holds RestoringSystemD ?U) (io_seq (apply_transition SystemReady) (on_power enter_stock))
        (\<lambda>_. holds SystemD ?U) consistent"
      by (intro triple_seq [OF ready] keeping maintain)
  qed
  have forget: "maintains (holds RestoringSystemD ?D) (assign forget_runtimes)"
    by (rule maintains_assign)
      (auto simp: holds_def consistent_def forget_runtimes_def tables_frame [OF refl])
  have tail: "triple (holds RestoringSystemD ?D) (io_seq (assign forget_runtimes)
        (io_seq (ignoring_result (set_foreground_marker None))
        (io_seq controller_restore_system
        (io_seq (set_power_grab False)
        (io_seq (apply_transition SystemReady)
        (on_power enter_stock)))))) (\<lambda>_. holds SystemD {}) consistent"
  proof -
    have "triple (holds RestoringSystemD ?D) (io_seq controller_restore_system (io_seq (set_power_grab False)
        (io_seq (apply_transition SystemReady) (on_power enter_stock)))) (\<lambda>_. holds SystemD {}) consistent"
      by (rule triple_weaken [OF triple_seq [OF restoring_stock last]]) (auto intro: holds_mono)
    then show ?thesis
      by (intro keep_seq [OF forget] keep_seq [OF maintains_ignoring [OF quiet.maintains_small(4)]]) simp_all
  qed
  show ?thesis
    by (intro keep_bind keep_seq maintain triple_seq [OF stopping_owner(2)] tail) auto
qed

lemma restoring: "triple consistent restore_system (\<lambda>_. holds SystemD {}) consistent"
proof (rule any_domain)
  fix dm
  have start: "triple (holds dm {}) (assign (\<lambda>d. d\<lparr>d_state := (d_state d)\<lparr>mgr_domain := RestoringSystemD\<rparr>\<rparr>))
      (\<lambda>_. holds RestoringSystemD {}) consistent"
    by (rule triple_assign) (auto simp: holds_def consistent_def state_frame)
  show "triple (holds dm {}) restore_system (\<lambda>_. holds SystemD {}) consistent"
    unfolding restore_system_def
    by (rule reading_domain) (auto intro!: triple_pure triple_seq [OF start] restoring_triple)
qed

lemma ensuring: "triple (holds ManagerD {}) ensure_manager_or_restore (\<lambda>_. settled) consistent"
  unfolding ensure_manager_or_restore_def
proof (rule triple_or_else [where R' = consistent])
  show "triple (holds ManagerD {}) ensure_manager_surface (\<lambda>_. settled) consistent"
    by (rule triple_weaken [OF keeping [OF holds_home_ops(2)]]) (auto simp: settled_def holds_def)
  show "triple consistent restore_system (\<lambda>_. settled) consistent" for e
    by (rule triple_weaken [OF restoring]) (auto simp: settled_def holds_def)
qed

end
