(* ===== verification/Daemon_Parking.thy ===== *)
theory Daemon_Parking
  imports Daemon_Domains
begin

text \<open>
  Parking an application, the recovery of a park that failed, closing, and exits: the domain each ends
  in, and \<open>consistent\<close> wherever it stops.
\<close>

section \<open>Reading the tables\<close>

lemma triple_trying_sum:
  "triple P m Q R \<Longrightarrow> (\<And>s. R s \<Longrightarrow> R' s)
    \<Longrightarrow> triple P (trying m) (\<lambda>r s. case r of Inl _ \<Rightarrow> R s | Inr x \<Rightarrow> Q x s) R'"
  by (fastforce simp: triple_def trying_def split: prod.splits outcome.splits)

lemma maintains_entry [maintain]: "maintains I (entry_of e f)"
  by (auto simp: entry_of_def intro!: maintain)

lemma finding:
  assumes "\<And>d x. holds dm K d \<Longrightarrow> f d = Some x \<Longrightarrow> Q x d" "\<And>d. holds dm K d \<Longrightarrow> R d"
  shows "triple (holds dm K) (entry_of e f) Q R"
  using assms by (auto simp: triple_def entry_of_def io_bind_def looking_def io_of_def ok_or_def split: option.splits)

lemma requiring:
  assumes "\<And>d. holds dm K d \<Longrightarrow> f d \<Longrightarrow> Q () d" "\<And>d. holds dm K d \<Longrightarrow> R d"
  shows "triple (holds dm K) (present e f) Q R"
  by (rule triple_present) (auto dest: assms)

lemma guarded:
  assumes "r = Inr () \<Longrightarrow> triple P m Q R" "\<And>d. P d \<Longrightarrow> R d"
  shows "triple P (io_seq (io_of r) m) Q R"
  using assms by (rule triple_check)

lemma keeping_any:
  "maintains (holds dm K) m \<Longrightarrow> (\<And>d. holds dm K d \<Longrightarrow> R d) \<Longrightarrow> triple (holds dm K) m (\<lambda>_. holds dm K) R"
  unfolding maintains_def by (erule triple_weaken) simp_all

section \<open>Parking\<close>

lemma parking_begun:
  "triple (holds (ForegroundD a) {}) (begin_park a r) (\<lambda>_. holds (ParkingD a) {}) consistent"
proof -
  have "triple (holds (ForegroundD a) {}) (apply_transition (if r then transition.TriplePower else transition.SinglePower))
      (\<lambda>_. holds (ParkingD a) {}) consistent"
    by (rule moving) (auto intro: owned_managed dest: holds_owned)
  then show ?thesis unfolding begin_park_def by (intro keep_seq maintain) auto
qed

lemma park_finished:
  "triple (holds (ParkingD a) {}) (finish_park_transition a) (\<lambda>_. holds ManagerD {}) (holds (ParkingD a) {})"
proof -
  have "triple (holds (ParkingD a) {}) (apply_transition (AppParked a)) (\<lambda>_. holds ManagerD {}) (holds (ParkingD a) {})"
    by (rule moving) (auto intro: owned_managed dest: holds_owned)
  then show ?thesis
    unfolding finish_park_transition_def by (intro keep_seq maintain reading_domain) auto
qed

lemma handing_over:
  "triple (holds (ParkingD a) {}) (hand_over a s b) (\<lambda>_. holds ManagerD {}) (holds (ParkingD a) {})"
proof -
  have freeze: "maintains (holds (ParkingD a) {}) (if freezes_process x
      then failing_as f (freeze_and_wait (app_unit a)) else pure ())" for x and f :: "string \<Rightarrow> string"
    by (intro maintain)
  have show_home: "maintains (holds (ParkingD a) {}) (if b then show_manager_surface else client_clear_foreground)"
    by (intro maintain) auto
  show ?thesis
    unfolding hand_over_def by (intro keep_seq keep_bind freeze show_home park_finished) (auto intro!: maintain)
qed

lemma park_completed:
  "triple (holds (ParkingD a) {}) (complete_park a m fence b payload)
     (\<lambda>(r, _) d. case r of Inl _ \<Rightarrow> holds (ParkingD a) {} d | Inr _ \<Rightarrow> holds ManagerD {} d) consistent"
proof -
  let ?Q = "\<lambda>(r, _) d. case r of Inl _ \<Rightarrow> holds (ParkingD a) {} d | Inr _ \<Rightarrow> holds ManagerD {} d"
  have sent: "maintains (holds (ParkingD a) {}) (trying (send_background_if_supported a m fence))"
    unfolding send_background_if_supported_def by (intro maintain)
  have handed: "triple (holds (ParkingD a) {}) (trying (hand_over a s b))
      (\<lambda>r d. case r of Inl _ \<Rightarrow> holds (ParkingD a) {} d | Inr _ \<Rightarrow> holds ManagerD {} d) consistent" for s
    by (rule triple_trying_sum [OF handing_over]) simp
  show ?thesis
    unfolding complete_park_def
  proof (rule keep_bind [OF sent])
    fix parked :: "string + lifecycle_note option"
    show "triple (holds (ParkingD a) {})
        (case parked of Inl e \<Rightarrow> pure (Inl e, payload)
         | Inr note \<Rightarrow>
             io_bind (looking (parked_session a m note)) (\<lambda>session.
             io_bind (trying (hand_over a session b)) (\<lambda>r.
             pure (r, if ss_payload session \<noteq> None then ss_payload session else payload)))) ?Q consistent"
      by (cases parked) (auto intro!: triple_pure keep_bind [OF maintains_looking] triple_bind [OF handed])
  qed simp
qed

section \<open>Recovery of a failed park\<close>

text \<open>A recovery may stop after it has made the application the foreground again.\<close>

definition caught :: "app_id \<Rightarrow> daemon \<Rightarrow> bool" where
  "caught a d = (holds (ParkingD a) {} d \<or> holds (ForegroundD a) {} d)"

lemma caught_consistent: "caught a d \<Longrightarrow> consistent d"
  by (auto simp: caught_def)

lemma caughtI [intro]: "holds (ParkingD a) K d \<Longrightarrow> caught a d" "holds (ForegroundD a) K d \<Longrightarrow> caught a d"
  by (auto simp: caught_def intro: holds_mono)

lemma triple_at: "triple P m Q R \<longleftrightarrow> (\<forall>s. P s \<longrightarrow> triple (\<lambda>t. t = s) m Q R)"
  by (simp add: triple_def)

lemma triple_caught:
  "triple (holds (ParkingD a) {}) m Q R \<Longrightarrow> triple (holds (ForegroundD a) {}) m Q R \<Longrightarrow> triple (caught a) m Q R"
  unfolding triple_at [of "holds (ParkingD a) {}"] triple_at [of "holds (ForegroundD a) {}"] triple_at [of "caught a"] caught_def
  by blast

lemma fence_checked:
  "triple (holds (ParkingD a) {}) (validate_recovery_fence a old)
     (\<lambda>_. holds (ParkingD a) {Generation a (ff_generation old)}) (caught a)"
proof -
  have "triple (holds (ParkingD a) {}) (present e (\<lambda>d. bt_get (d_generations d) a = Some (ff_generation old)
          \<and> bt_get (d_fences d) a = Some (ff_epoch old, ff_lease old)))
     (\<lambda>_. holds (ParkingD a) {Generation a (ff_generation old)}) (caught a)" for e
    by (rule requiring) (auto simp: holds_def intro: caughtI)
  then show ?thesis
    unfolding validate_recovery_fence_def by (intro keep_seq maintain) auto
qed

text \<open>Tables of an application that is not in the foreground.\<close>

lemma consistent_tables:
  assumes "\<And>b. domain_of d \<noteq> ForegroundD b"
  shows "consistent (d\<lparr>d_modes := m\<rparr>) = consistent d" "consistent (d\<lparr>d_fences := f\<rparr>) = consistent d"
    "consistent (d\<lparr>d_execution := x\<rparr>) = consistent d" "consistent (d\<lparr>d_generations := g\<rparr>) = consistent d"
  using assms
  by (cases "domain_of d"; simp add: consistent_def apart_def benign_manifests_def unit_up_def domain_of_def owned_def)+

definition restored_token :: "app_id \<Rightarrow> u64 \<Rightarrow> u64 \<Rightarrow> app_token" where
  "restored_token a g e = \<lparr>app_id = a, generation = g, foreground_epoch = e, lease_id = Some e\<rparr>"

lemma fence_assigned:
  "triple (holds (ParkingD a) {Generation a g, Policy a}) (assign (\<lambda>d. d\<lparr>d_fences := bt_insert a (e, e) (d_fences d)\<rparr>))
     (\<lambda>_. holds (ParkingD a) {Registered (restored_token a g e)}) (caught a)"
proof (rule triple_assign)
  fix d assume d: "holds (ParkingD a) {Generation a g, Policy a} d"
  let ?t = "d\<lparr>d_fences := bt_insert a (e, e) (d_fences d)\<rparr>"
  have "consistent ?t"
    using d by (subst consistent_tables) (auto simp: holds_def)
  then show "holds (ParkingD a) {Registered (restored_token a g e)} ?t"
    using d by (auto simp: holds_def domain_of_def registered_def restored_token_def)
qed

lemma modes_assigned:
  assumes "\<And>b. dm \<noteq> ForegroundD b" "\<And>t. InputFor t \<notin> K"
  shows "maintains (holds dm K) (assign (\<lambda>d. d\<lparr>d_modes := f d\<rparr>))"
proof (rule maintains_assign)
  fix d assume d: "holds dm K d"
  have "consistent (d\<lparr>d_modes := f d\<rparr>)"
    using d assms(1) by (subst consistent_tables) (auto simp: holds_def)
  moreover have "knows (d\<lparr>d_modes := f d\<rparr>) k" if "k \<in> K" for k
    using that assms(2) d by (cases k) (auto simp: holds_def locked_def unit_up_def registered_def dest: bspec)
  ultimately show "holds dm K (d\<lparr>d_modes := f d\<rparr>)" using d by (auto simp: holds_def domain_of_def)
qed

lemma input_pending:
  assumes "\<And>d. holds dm K d \<Longrightarrow> R d"
  shows "triple (holds dm K) (pending_input e t) (\<lambda>_. holds dm (insert (InputFor t) K)) R"
proof -
  let ?Q = "\<lambda>i d. holds dm K d \<and> bt_get (d_modes d) (app_id t) = Some i"
  have found: "triple (holds dm K) (entry_of e' (\<lambda>d. bt_get (d_modes d) (app_id t))) ?Q R" for e'
    by (rule finding) (auto dest: assms)
  show ?thesis
    unfolding pending_input_def
  proof (rule triple_bind [OF found], rule triple_check)
    fix i
    show "R d" if "holds dm K d \<and> bt_get (d_modes d) (app_id t) = Some i" for d using that assms by blast
    assume "guard (\<not> input_matches i t \<or> \<not> ri_pending i)
      (''application '' @ as_str (app_id t) @ '' input fence changed '' @ snd e) = Inr ()"
    then show "triple (?Q i) (pure i) (\<lambda>_. holds dm (insert (InputFor t) K)) R"
      by (intro triple_pure) (auto simp: guard_def holds_def input_for_def split: if_splits)
  qed
qed

text \<open>The transition and the settling of the input fence are one step: no task runs between them.\<close>

lemma foreground_taken:
  assumes next_is: "\<And>lst. next_domain lst dm tr = None \<or> next_domain lst dm tr = Some (ForegroundD (app_id t))"
    and dm: "managed_in dm" "dm \<noteq> SleepingD" "\<And>d. holds dm K d \<Longrightarrow> R d" "Registered t \<in> K" "InputFor t \<in> K"
    and rest: "triple (holds (ForegroundD (app_id t)) {}) n Q R"
  shows "triple (holds dm K) (io_seq (apply_transition tr) (io_seq (assign (settle_input (app_id t))) n)) Q R"
proof -
  let ?a = "app_id t"
  let ?P = "\<lambda>d. apart d \<and> owned ManagerD d \<and> domain_of d = ForegroundD ?a \<and> registered t d \<and> input_for t d"
  have "triple (holds dm K) (apply_transition tr) (\<lambda>_. ?P) R"
  proof -
    have "case apply_transition tr d of (Done x, u) \<Rightarrow> ?P u | (_, u) \<Rightarrow> R u" if d: "holds dm K d" for d
    proof -
      have "mgr_domain (d_state d) = dm" using d by (simp add: holds_def domain_of_def)
      moreover have "owned ManagerD d" "apart d" "registered t d" "input_for t d"
        using d dm owned_managed(1) [of dm d] by (auto simp: holds_def consistent_def dest: bspec)
      ultimately show ?thesis
        using next_is [of "mgr_last_app (d_state d)"] dm(3) [OF d] state_frame(2) [where d = d and k = "InputFor t"]
          state_frame(2) [where d = d and k = "Registered t"] d
        by (auto simp: apply_transition_def manager_apply_def state_frame(1,3,4) split: option.splits)
    qed
    then show ?thesis by (auto simp: triple_def)
  qed
  moreover have "triple ?P (assign (settle_input ?a)) (\<lambda>_. holds (ForegroundD ?a) {}) R"
  proof (rule triple_assign)
    fix d assume d: "?P d"
    let ?u = "settle_input ?a d"
    have "apart ?u" "domain_of ?u = domain_of d" "registered t ?u" "settled_input t ?u"
      using d by (auto simp: settle_input_def apart_def benign_manifests_def unit_up_def domain_of_def registered_def
          settled_input_def input_for_def input_matches_def)
    then show "holds (ForegroundD ?a) {} ?u"
      using d by (auto simp: holds_def consistent_def owned_def runtime_known_def settle_input_def unit_up_def)
  qed
  ultimately show ?thesis using rest by (intro triple_seq)
qed

lemma maintains_input_pending [maintain]: "maintains I (pending_input e t)"
  by (auto simp: pending_input_def intro!: maintain)

lemma triple_holding:
  assumes m: "triple (holds dm K) m (\<lambda>_. holds dm' K') R"
    and R: "\<And>d b. R d \<Longrightarrow> R (d\<lparr>d_modes_locked := b\<rparr>)"
  shows "triple (holds dm K) (holding_modes m) (\<lambda>_. holds dm' K') R"
proof -
  have same: "same_core d (d\<lparr>d_modes_locked := b\<rparr>)" for d b by (simp add: core_simps)
  have "case holding_modes m d of (Done x, u) \<Rightarrow> holds dm' K' u | (_, u) \<Rightarrow> R u" if d: "holds dm K d" for d
  proof -
    have "holds dm K (d\<lparr>d_modes_locked := True\<rparr>)" by (rule quiet.core [OF d same])
    then have "case m (d\<lparr>d_modes_locked := True\<rparr>) of (Done x, u) \<Rightarrow> holds dm' K' u | (_, u) \<Rightarrow> R u"
      using m by (simp add: triple_def)
    then show ?thesis
      by (auto simp: holding_modes_def split: prod.splits outcome.splits intro: R quiet.core [OF _ same])
  qed
  then show ?thesis by (auto simp: triple_def)
qed

lemma caught_frame: "caught a d \<Longrightarrow> caught a (d\<lparr>d_modes_locked := b\<rparr>)"
proof -
  have "same_core d (d\<lparr>d_modes_locked := b\<rparr>)" by (simp add: core_simps)
  then show "caught a d \<Longrightarrow> caught a (d\<lparr>d_modes_locked := b\<rparr>)"
    by (auto simp: caught_def intro: quiet.core)
qed

lemma foreground_restored:
  "triple (holds (ParkingD (app_id t)) {Registered t}) (commit_restored_foreground t)
     (\<lambda>_. holds (ForegroundD (app_id t)) {}) (caught (app_id t))"
proof -
  let ?a = "app_id t" and ?K = "insert (InputFor t) {Registered t}"
  have mark: "triple (holds (ForegroundD ?a) {}) (set_foreground_marker (Some ?a))
      (\<lambda>_. holds (ForegroundD ?a) {}) (caught ?a)"
    using quiet.maintains_small(4) unfolding maintains_def by (rule triple_weaken) auto
  have take: "triple (holds (ParkingD ?a) ?K) (io_seq (apply_transition (AppRestored ?a))
      (io_seq (assign (settle_input ?a)) (set_foreground_marker (Some ?a))))
      (\<lambda>_. holds (ForegroundD ?a) {}) (caught ?a)"
    by (rule foreground_taken [OF _ _ _ _ _ _ mark]) auto
  show ?thesis
    unfolding commit_restored_foreground_def
    by (rule triple_holding [OF triple_bind [OF input_pending [OF caughtI(1)]]])
      (auto intro!: keep_seq take maintain simp: caught_frame)
qed

lemma foreground_restored_after_park:
  "triple (holds (ParkingD a) {}) (restore_foreground_after_failed_park a m old payload)
     (\<lambda>_. holds (ForegroundD a) {}) (caught a)"
proof -
  let ?g = "ff_generation old"
  let ?G = "{Generation a ?g}" and ?P = "{Generation a ?g, Policy a}"
  have policy: "triple (holds (ParkingD a) ?G) (entry_of e (\<lambda>d. bt_get (d_execution d) a)) (\<lambda>_. holds (ParkingD a) ?P) (caught a)" for e
    by (rule finding) (auto simp: holds_def intro: caughtI)
  have committed: "triple (holds (ParkingD a) {Registered (restored_token a ?g e)})
      (commit_restored_foreground (restored_token a ?g e)) (\<lambda>_. holds (ForegroundD a) {}) (caught a)" for e
    using foreground_restored [of "restored_token a ?g e"] by (simp add: restored_token_def)
  have modes: "maintains (holds (ParkingD a) {Registered t}) (assign (\<lambda>d. d\<lparr>d_modes := f d\<rparr>))" for t f
    by (rule modes_assigned) auto
  note tail = keep_seq keep_bind maintain modes committed [unfolded restored_token_def]
  show ?thesis
    unfolding restore_foreground_after_failed_park_def Let_def
    by (rule triple_seq [OF fence_checked], rule keep_bind, intro maintain, rule keep_seq, intro maintain,
        rule triple_bind [OF policy], rule keep_seq, intro maintain, rule keep_bind, intro maintain,
        rule keep_bind, intro maintain, rule triple_seq [OF fence_assigned [unfolded restored_token_def]],
        intro tail) (auto intro: caughtI)
qed

end
