(* ===== verification/Daemon_Exits.thy ===== *)
theory Daemon_Exits
  imports Daemon_Parking
begin

text \<open>
  Applications that end: the forced stop after a failed recovery, a close, an exit report. The tables of
  an application are dropped together, so another application's registration stays.
\<close>

section \<open>Dropping an application\<close>

definition plain :: "known set \<Rightarrow> bool" where
  "plain K = (K \<subseteq> {StockDown, DisplayDown, Grabbed, Ungrabbed, Awake, Locked})"

lemma plain_simps [simp]: "plain {}" "plain {Locked}"
  by (simp_all add: plain_def)

lemma tables_hold:
  assumes d: "holds dm K d" "plain K"
    and t: "d_state t = d_state d" "w_units t = w_units d" "w_grab t = w_grab d" "w_wakelock t = w_wakelock d"
      "d_manifests t = d_manifests d" "w_manifests t = w_manifests d" "d_sleep t = d_sleep d" "w_panel t = w_panel d"
    and known: "\<And>b. dm = ForegroundD b \<Longrightarrow> runtime_known b d \<Longrightarrow> runtime_known b t"
  shows "holds dm K t"
proof -
  have dms: "domain_of t = domain_of d" "domain_of d = dm" using d t by (simp_all add: holds_def domain_of_def)
  have up: "unit_up n t = unit_up n d" for n using t by (simp add: unit_up_def)
  have "apart t" using d t up by (simp add: holds_def consistent_def apart_def benign_manifests_def)
  moreover have "owned dm t"
    using d(1) dms up t known
    by (auto simp: holds_def consistent_def owned_def split: domain_state.splits)
  moreover have "knows t k" if "k \<in> K" for k
  proof -
    have "knows d k" using d(1) that by (simp add: holds_def)
    then show ?thesis using d(2) that up t by (auto simp: plain_def locked_def)
  qed
  ultimately show ?thesis using dms by (simp add: holds_def consistent_def)
qed

lemma known_elsewhere:
  assumes "runtime_known b d" "b \<noteq> a"
    "bt_get (d_generations t) b = bt_get (d_generations d) b" "bt_get (d_execution t) b = bt_get (d_execution d) b"
    "bt_get (d_fences t) b = bt_get (d_fences d) b" "bt_get (d_modes t) b = bt_get (d_modes d) b"
  shows "runtime_known b t"
  using assms by (auto simp: runtime_known_def registered_def settled_input_def)

lemma maintains_clear_tracking [maintain]:
  assumes "plain K"
  shows "maintains (holds dm K) (assign (clear_runtime_tracking a))"
proof (rule maintains_assign)
  fix d assume d: "holds dm K d"
  show "holds dm K (clear_runtime_tracking a d)"
  proof (rule tables_hold [OF d assms])
    fix b assume "runtime_known b d"
    then show "runtime_known b (clear_runtime_tracking a d)"
      by (cases "b = a") (simp add: clear_runtime_tracking_def runtime_known_def,
        rule known_elsewhere [of b d a], simp_all add: clear_runtime_tracking_def)
  qed (simp_all add: clear_runtime_tracking_def)
qed

lemma generation_taken:
  assumes "plain K"
  shows "triple (holds dm K) (take_matching_generation a g)
     (\<lambda>b d. holds dm K d \<and> (b \<longrightarrow> bt_get (d_generations d) a = None)) R"
proof -
  have "holds dm K (d\<lparr>d_generations := bt_remove a (d_generations d)\<rparr>)" if d: "holds dm K d" for d
  proof (rule tables_hold [OF d assms])
    fix b assume "runtime_known b d"
    then show "runtime_known b (d\<lparr>d_generations := bt_remove a (d_generations d)\<rparr>)"
      by (cases "b = a") (simp add: runtime_known_def, rule known_elsewhere [of b d a], simp_all)
  qed simp_all
  then show ?thesis by (auto simp: triple_def take_matching_generation_def)
qed

lemma exited_forgotten:
  assumes "plain K"
  shows "triple (\<lambda>d. holds dm K d \<and> bt_get (d_generations d) a = None) (assign (forget_exited a)) (\<lambda>_. holds dm K) R"
proof (rule triple_assign)
  fix d assume d: "holds dm K d \<and> bt_get (d_generations d) a = None"
  show "holds dm K (forget_exited a d)"
  proof (rule tables_hold [OF conjunct1 [OF d] assms])
    fix b assume "runtime_known b d"
    then show "runtime_known b (forget_exited a d)"
      using d by (cases "b = a") (simp add: runtime_known_def forget_exited_def,
        rule known_elsewhere [of b d a], simp_all add: forget_exited_def)
  qed (simp_all add: forget_exited_def)
qed

section \<open>The end of an application that had the panel\<close>

lemma leaving_app:
  assumes "dm = LaunchingD a \<or> dm = ForegroundD a \<or> dm = ParkingD a"
  shows "triple (holds dm {}) (apply_transition (if c then AppCrashed a else AppExited a)) (\<lambda>_. holds ManagerD {}) consistent"
  by (rule moving) (use assms in \<open>auto intro: owned_managed dest: holds_owned\<close>)

lemma leaving_app_exited:
  assumes "dm = LaunchingD a \<or> dm = ForegroundD a \<or> dm = ParkingD a"
  shows "triple (holds dm {}) (apply_transition (AppExited a)) (\<lambda>_. holds ManagerD {}) consistent"
  using leaving_app [OF assms, of False] by simp

lemma forced_stop: "triple (caught a) (force_stop_after_failed_park a) (\<lambda>_. holds ManagerD {}) consistent"
proof -
  have each: "triple (holds dm {}) (force_stop_after_failed_park a) (\<lambda>_. holds ManagerD {}) consistent"
    if dm: "dm = ParkingD a \<or> dm = ForegroundD a" for dm
  proof -
    have dm': "dm = LaunchingD a \<or> dm = ForegroundD a \<or> dm = ParkingD a" using dm by auto
    have tail: "triple (holds dm {}) (io_seq (if dm = ParkingD a \<or> dm = ForegroundD a then apply_transition (AppExited a)
             else if dm = ManagerD then pure ()
             else giving_up (''stopped '' @ as_str a @ '' while manager domain was unexpected''))
        (io_seq (set_foreground_marker None) show_manager_surface)) (\<lambda>_. holds ManagerD {}) consistent"
      using dm by (auto intro!: triple_seq [OF leaving_app_exited [OF dm']] keep_seq keeping maintain)
    show ?thesis
      unfolding force_stop_after_failed_park_def
      by (rule keep_bind, intro maintain, rule keep_bind, intro maintain, (rule keep_seq, (intro maintain; simp))+,
          rule reading_domain, rule tail) simp_all
  qed
  show ?thesis by (rule triple_caught; rule each) simp_all
qed

lemma park_recovered: "triple (holds (ParkingD a) {}) (recover_failed_park a m fence payload) (\<lambda>_. consistent) consistent"
proof -
  have tried: "triple (holds (ParkingD a) {}) (trying (case fence of
         Some f \<Rightarrow> restore_foreground_after_failed_park a m f payload
       | None \<Rightarrow> giving_up ''application does not support fenced lifecycle recovery''))
      (\<lambda>r d. case r of Inl (e :: string) \<Rightarrow> caught a d | Inr x \<Rightarrow> holds (ForegroundD a) {} d) consistent"
    by (rule triple_trying_sum; cases fence) (auto intro!: triple_giving_up foreground_restored_after_park dest: caught_consistent)
  have stopped: "triple (caught a) (io_seq (failing_as g (force_stop_after_failed_park a)) (pure x)) (\<lambda>_. consistent) consistent"
    for x :: string and g :: "string \<Rightarrow> string"
    by (rule triple_seq [OF triple_failing_as [OF forced_stop]], rule triple_pure) simp
  show ?thesis
    unfolding recover_failed_park_def
    by (rule triple_bind [OF tried], split sum.split) (auto intro!: stopped triple_pure)
qed

lemma parking: "triple (holds (ForegroundD a) {}) (park a r s) (\<lambda>_. holds ManagerD {}) consistent"
proof -
  have fenced: "maintains (holds (ForegroundD a) {}) (foreground_fence_if_supported a m)" for m
    unfolding foreground_fence_if_supported_def by (intro maintain)
  have failed: "triple (holds (ParkingD a) {})
      (io_bind (trying (recover_failed_park a m fence p)) (\<lambda>recovery. giving_up (f recovery))) (\<lambda>_. holds ManagerD {}) consistent"
    for m fence p and f :: "string + string \<Rightarrow> string"
    by (rule triple_bind, rule triple_trying_sum [OF park_recovered]) (auto intro!: triple_giving_up split: sum.splits)
  have rest: "triple (holds (ParkingD a) {}) (io_bind (complete_park a m fence s payload) (\<lambda>(r, recovery_payload).
       case r of
         Inr _ \<Rightarrow> pure ()
       | Inl cause \<Rightarrow>
           io_bind (trying (recover_failed_park a m fence recovery_payload)) (\<lambda>recovery.
           giving_up (case recovery of
               Inr summary \<Rightarrow> cause @ ''; '' @ summary
             | Inl e \<Rightarrow> cause @ ''; park recovery failed: '' @ e)))) (\<lambda>_. holds ManagerD {}) consistent" for m fence payload
    by (rule triple_bind [OF park_completed], rule triple_case_prod, split sum.split) (auto intro!: failed triple_pure)
  show ?thesis
    unfolding park_def
    by (rule keep_bind, intro maintain, rule keep_bind, intro maintain, rule keep_bind, rule fenced,
        rule triple_seq [OF parking_begun], rule rest) simp_all
qed

section \<open>Closing\<close>

lemma closing_ops [maintain]:
  "maintains (holds dm K) (thaw_before_shutdown a)" "maintains (holds dm K) (request_shutdown a m)"
  by (auto simp: thaw_before_shutdown_def request_shutdown_def intro!: maintain)

lemma maintains_last_app [maintain]:
  "maintains (holds dm K) (assign (\<lambda>d. d\<lparr>d_state := clear_closed_last_app a (d_state d)\<rparr>))"
  by (rule maintains_assign)
    (auto simp: holds_def consistent_def state_frame clear_closed_last_app_def, auto simp: domain_of_def)

lemma maintains_sessions_assign [maintain]:
  "maintains (holds dm K) (assign (\<lambda>d. d\<lparr>d_sessions := f d\<rparr>))"
  "maintains (holds dm K) (assign (\<lambda>d. d\<lparr>d_missing := h d\<rparr>))"
  by (rule quiet.maintains_core_assign; simp add: core_simps)+

lemma entry_benign:
  "holds dm K d \<Longrightarrow> bt_get (d_manifests d) a = Some m \<Longrightarrow> benign m"
  by (force simp: holds_def consistent_def apart_def benign_manifests_def list_all_iff dest: map_of_SomeD)

lemma revealed:
  "triple (holds (ForegroundD a) {}) reveal_manager_before_close (\<lambda>_. holds (ParkingD a) {}) consistent"
  unfolding reveal_manager_before_close_def
  by (rule triple_seq [OF moving [where dm' = "ParkingD a"]])
    (auto intro: owned_managed dest: holds_owned intro!: keep_seq keeping maintain)

lemma closed_tail:
  assumes "plain K"
  shows "maintains (holds dm K) (io_seq (assign (\<lambda>d. d\<lparr>d_state := clear_closed_last_app a (d_state d)\<rparr>))
    (io_seq (store_remove a)
    (io_seq (assign (\<lambda>d. d\<lparr>d_sessions := bt_remove a (d_sessions d)\<rparr>))
    (if complete then stop_background_service m else pure ()))))"
  by (intro maintain)

lemma closing_elsewhere:
  assumes "plain K"
  shows "maintains (holds dm K) (close_body a complete False m)"
  unfolding close_body_def if_False by (intro maintain assms)

lemma closing_foreground:
  "triple (holds (ForegroundD a) {}) (close_body a complete True m) (\<lambda>_. holds ManagerD {}) consistent"
proof -
  have left: "triple (holds (ParkingD a) {}) (apply_transition (AppExited a)) (\<lambda>_. holds ManagerD {}) consistent"
    by (rule leaving_app_exited) simp
  have tail: "triple (holds (ParkingD a) {})
    (io_seq (stop_and_wait (app_unit a))
    (io_seq (assign (clear_runtime_tracking a))
    (io_seq (apply_transition (AppExited a))
    (io_seq (assign (\<lambda>d. d\<lparr>d_state := clear_closed_last_app a (d_state d)\<rparr>))
    (io_seq (store_remove a)
    (io_seq (assign (\<lambda>d. d\<lparr>d_sessions := bt_remove a (d_sessions d)\<rparr>))
    (if complete then stop_background_service m else pure ()))))))) (\<lambda>_. holds ManagerD {}) consistent"
    by (rule keep_seq, intro maintain, rule keep_seq, rule maintains_clear_tracking, simp,
        rule triple_seq [OF left], rule keeping, rule closed_tail) simp_all
  show ?thesis
    unfolding close_body_def if_True
    by (rule keep_seq, intro maintain, rule keep_seq, intro maintain, rule triple_seq [OF revealed], rule tail) simp_all
qed

lemma close_fails_alike: "triple P m Q consistent \<Longrightarrow> triple P (or_else m (\<lambda>e. io_seq (release_controlled_exit a c) (giving_up e))) Q consistent"
proof (rule triple_or_else [where R' = consistent])
  show "triple consistent (io_seq (release_controlled_exit a c) (giving_up e)) Q consistent" for e
    by (rule any_domain) (auto intro!: keep_seq maintain triple_giving_up)
qed auto

lemma closing:
  "triple (holds (ForegroundD a) {}) (close_app a complete) (\<lambda>_. holds ManagerD {}) consistent"
  "dm \<noteq> ForegroundD a \<Longrightarrow> plain K \<Longrightarrow> triple (holds dm K) (close_app a complete) (\<lambda>_. holds dm K) consistent"
proof -
  have split: "triple (holds dm K) (close_app a complete) Q consistent"
    if "\<And>m. triple (holds dm K) (close_body a complete (dm = ForegroundD a) m) Q consistent" for dm K Q
  proof -
    have "triple (holds dm K) (io_bind (reserve_controlled_exit a) (\<lambda>c.
        or_else (close_body a complete (dm = ForegroundD a) m) (\<lambda>e. io_seq (release_controlled_exit a c) (giving_up e)))) Q consistent"
      for m by (intro keep_bind maintain close_fails_alike that) simp
    then show ?thesis
      unfolding close_app_def by (simp add: triple_def io_bind_def looking_def holds_def)
  qed
  show "triple (holds (ForegroundD a) {}) (close_app a complete) (\<lambda>_. holds ManagerD {}) consistent"
    by (rule split) (simp add: closing_foreground)
  show "triple (holds dm K) (close_app a complete) (\<lambda>_. holds dm K) consistent" if "dm \<noteq> ForegroundD a" "plain K"
    by (rule split) (use that in \<open>simp add: keeping closing_elsewhere\<close>)
qed

section \<open>Exits and callbacks\<close>

lemma session_updated [maintain]: "maintains (holds dm K) (update_session_after_exit a c b)"
  unfolding update_session_after_exit_def by (intro maintain)

text \<open>Where the report of an exit leaves the tablet.\<close>

definition after_exit :: "domain_state \<Rightarrow> known set \<Rightarrow> app_id \<Rightarrow> daemon \<Rightarrow> bool" where
  "after_exit dm K a d = (holds dm K d \<or> owns_domain dm a \<and> holds ManagerD {} d)"

lemma exit_recorded:
  assumes "plain K" "owns_domain dm a \<Longrightarrow> K = {}"
  shows "triple (holds dm K) (record_runtime_exit a g c r src) (\<lambda>_. after_exit dm K a) consistent"
proof -
  let ?crashed = "runtime_exit_is_crash c r"
  have stays: "triple (holds dm K) (pure ()) (\<lambda>_. after_exit dm K a) consistent"
    by (rule triple_pure) (simp add: after_exit_def)
  have tail: "triple (holds dm K) (io_seq (if dm = ForegroundD a then set_foreground_marker None else pure ())
      (io_seq (if owns_domain dm a then apply_transition (if ?crashed then AppCrashed a else AppExited a) else pure ())
      (io_seq (if dm = ForegroundD a then show_manager_surface else pure ())
      (update_session_after_exit a c ?crashed)))) (\<lambda>_. after_exit dm K a) consistent"
  proof (cases "owns_domain dm a")
    case True
    then have K: "K = {}" by (rule assms(2))
    have left: "triple (holds dm {}) (apply_transition (if ?crashed then AppCrashed a else AppExited a))
        (\<lambda>_. holds ManagerD {}) consistent"
      by (rule leaving_app) (use True in \<open>simp add: owns_domain_def\<close>)
    have last: "triple (holds ManagerD {}) (io_seq (if dm = ForegroundD a then show_manager_surface else pure ())
        (update_session_after_exit a c ?crashed)) (\<lambda>_. holds ManagerD {}) consistent"
      by (intro keeping maintain) simp
    have "triple (holds dm K) (io_seq (if dm = ForegroundD a then set_foreground_marker None else pure ())
      (io_seq (if owns_domain dm a then apply_transition (if ?crashed then AppCrashed a else AppExited a) else pure ())
      (io_seq (if dm = ForegroundD a then show_manager_surface else pure ())
      (update_session_after_exit a c ?crashed)))) (\<lambda>_. holds ManagerD {}) consistent"
      unfolding K using True by (simp only: if_True, intro keep_seq [OF maintains_if] triple_seq [OF left] last maintain) simp
    then show ?thesis by (rule triple_weaken) (use True in \<open>auto simp: after_exit_def\<close>)
  next
    case False
    then have "dm \<noteq> ForegroundD a" by (auto simp: owns_domain_def)
    with False have "triple (holds dm K) (io_seq (if dm = ForegroundD a then set_foreground_marker None else pure ())
      (io_seq (if owns_domain dm a then apply_transition (if ?crashed then AppCrashed a else AppExited a) else pure ())
      (io_seq (if dm = ForegroundD a then show_manager_surface else pure ())
      (update_session_after_exit a c ?crashed)))) (\<lambda>_. holds dm K) consistent"
      by (simp, intro keeping maintain)
    then show ?thesis by (rule triple_weaken) (auto simp: after_exit_def)
  qed
  have forgets: "triple (\<lambda>d. holds dm K d \<and> (b \<longrightarrow> bt_get (d_generations d) a = None))
      (if \<not> b then pure () else io_seq (assign (forget_exited a)) (io_bind (looking domain_of) (\<lambda>domain.
         let crashed = runtime_exit_is_crash c r; was_foreground = (domain = ForegroundD a) in
         io_seq (if was_foreground then set_foreground_marker None else pure ())
        (io_seq (if owns_domain domain a then apply_transition (if crashed then AppCrashed a else AppExited a) else pure ())
        (io_seq (if was_foreground then show_manager_surface else pure ())
        (update_session_after_exit a c crashed)))))) (\<lambda>_. after_exit dm K a) consistent" for b
  proof (cases b)
    case False
    then show ?thesis using stays by simp
  next
    case True
    have "triple (\<lambda>d. holds dm K d \<and> bt_get (d_generations d) a = None) (io_seq (assign (forget_exited a)) (io_bind (looking domain_of) (\<lambda>domain.
         let crashed = runtime_exit_is_crash c r; was_foreground = (domain = ForegroundD a) in
         io_seq (if was_foreground then set_foreground_marker None else pure ())
        (io_seq (if owns_domain domain a then apply_transition (if crashed then AppCrashed a else AppExited a) else pure ())
        (io_seq (if was_foreground then show_manager_surface else pure ())
        (update_session_after_exit a c crashed)))))) (\<lambda>_. after_exit dm K a) consistent"
      unfolding Let_def by (rule triple_seq [OF exited_forgotten [OF assms(1)]], rule reading_domain, rule tail)
    then show ?thesis using True by (simp only: not_True_eq_False if_False simp_thms)
  qed
  show ?thesis
    unfolding record_runtime_exit_def
    by (rule keep_bind, intro maintain, rule triple_if, rule stays, rule keep_seq, intro maintain,
        rule triple_bind [OF generation_taken [OF assms(1)]], rule forgets) simp_all
qed

lemma parked_recorded:
  "(\<And>a. dm \<noteq> ParkingD a) \<Longrightarrow> maintains (holds dm K) (record_parked s)"
  by (auto simp: maintains_snd record_parked_def io_bind_def looking_def pure_def holds_def Let_def)

end
