(* ===== verification/Daemon_Launching.thy ===== *)
theory Daemon_Launching
  imports Daemon_Exits
begin

text \<open>
  A launch that returns has the application in the foreground, registered with the lease that was
  committed; one that fails has been rolled back as far as it got, or leaves a domain that the event
  loop recovers.
\<close>

section \<open>Preparing\<close>

lemma runtime_checked [maintain]:
  assumes "\<And>b. dm \<noteq> ForegroundD b" "plain K"
  shows "maintains (holds dm K) (validate_existing_runtime a)"
proof -
  have drop: "maintains (holds dm K) (assign (\<lambda>d. d\<lparr>d_generations := bt_remove a (d_generations d),
      d_fences := bt_remove a (d_fences d), d_execution := bt_remove a (d_execution d)\<rparr>))"
    by (rule maintains_assign, rule tables_hold) (use assms in auto)
  show ?thesis unfolding validate_existing_runtime_def by (intro maintain drop)
qed

lemma manifest_found:
  assumes "\<And>m. benign m \<Longrightarrow> triple (holds dm K) (f m) Q consistent"
  shows "triple (holds dm K) (io_bind (entry_of e (\<lambda>d. bt_get (d_manifests d) a)) f) Q consistent"
proof (rule triple_bind)
  show "triple (holds dm K) (entry_of e (\<lambda>d. bt_get (d_manifests d) a)) (\<lambda>m d. holds dm K d \<and> benign m) consistent"
    by (rule finding) (auto dest: entry_benign)
  show "triple (\<lambda>d. holds dm K d \<and> benign m) (f m) Q consistent" for m
    by (rule triple_fact_pre) (rule assms)
qed

lemma launch_is_prepared:
  "triple (holds ManagerD {}) (prepare_launch cz a p)
     (\<lambda>c d. holds ManagerD {} d \<and> lc_app c = a \<and> benign (lc_manifest c)) consistent"
proof -
  have quiesce: "maintains (holds ManagerD {}) (if b then (case background_unit_of m of None \<Rightarrow> pure () | Some u \<Rightarrow> stop_and_wait u)
      else ensure_background_service m)" if "benign m" for b m using that by (intro maintain)
  show ?thesis
    unfolding prepare_launch_def Let_def
    by (rule manifest_found) (intro keep_seq keep_bind quiesce triple_pure; (intro maintain)?; auto simp: maintain intro: maintain)
qed

section \<open>Activation\<close>

lemma runtime_registered:
  "triple (holds (LaunchingD a) {}) (register_runtime c)
     (\<lambda>_. holds (LaunchingD a) {Registered (context_token c)}) (holds (LaunchingD a) {})"
proof -
  let ?T = "holds (LaunchingD a) {Registered (context_token c)}"
  have tables: "triple (holds (LaunchingD a) {})
      (assign (\<lambda>d. d\<lparr>d_generations := bt_insert (lc_app c) (lc_generation c) (d_generations d),
                          d_execution := bt_insert (lc_app c) (lc_execution c) (d_execution d),
                          d_fences := bt_insert (lc_app c) (lc_epoch c, lc_lease c) (d_fences d)\<rparr>)) (\<lambda>_. ?T) (holds (LaunchingD a) {})"
  proof (rule triple_assign)
    fix d assume d: "holds (LaunchingD a) {} d"
    let ?t = "d\<lparr>d_generations := bt_insert (lc_app c) (lc_generation c) (d_generations d),
                d_execution := bt_insert (lc_app c) (lc_execution c) (d_execution d),
                d_fences := bt_insert (lc_app c) (lc_epoch c, lc_lease c) (d_fences d)\<rparr>"
    have "holds (LaunchingD a) {} ?t" by (rule tables_hold [OF d]) simp_all
    then show "?T ?t" by (auto simp: holds_def registered_def context_token_def)
  qed
  have modes: "maintains ?T (assign (\<lambda>d. d\<lparr>d_modes := bt_insert (lc_app c) i (d_modes d)\<rparr>))" for i
    by (rule modes_assigned) auto
  have weak: "?T d \<Longrightarrow> holds (LaunchingD a) {} d" for d by (rule holds_mono) auto
  have last: "triple ?T (io_bind (io_of (runtime_input_pending (context_token c) (lc_manifest c))) (\<lambda>i.
     assign (\<lambda>d. d\<lparr>d_modes := bt_insert (lc_app c) i (d_modes d)\<rparr>))) (\<lambda>_. ?T) (holds (LaunchingD a) {})"
    by (intro keep_bind maintain keeping_any modes) (auto intro: weak)
  show ?thesis unfolding register_runtime_def by (rule triple_seq [OF tables last])
qed

lemma launching_ops [maintain]:
  "maintains (holds dm K) (ensure_launch_current e)" "maintains (holds dm K) (publish_launch_descriptor c)"
  "maintains (holds dm K) (wait_phase c b)" "maintains (holds dm K) (clear_phase_markers c)"
  "maintains (holds dm K) (background_restore_is_safe c)"
  by (auto simp: ensure_launch_current_def publish_launch_descriptor_def wait_phase_def clear_phase_markers_def
      background_restore_is_safe_def outside_if_def outside_def core_simps
      intro!: maintain quiet.maintains_core_call)

lemma launch_waits [maintain]: "maintains (holds dm K) (wait_for_application c)"
  unfolding wait_for_application_def Let_def
  by (intro maintain; cases "ready_mode (m_readiness (lc_manifest c))"; simp; intro maintain)

lemma app_unit_bound [simp]: "bound_to_display (context_unit c)"
  by (simp add: context_unit_def app_unit_def bound_to_display_def)

lemma activated:
  assumes c: "benign (lc_manifest c)"
  shows "triple (holds (LaunchingD a) {}) (activate_and_wait c e)
     (\<lambda>_. holds (LaunchingD a) {Registered (context_token c)}) (holds (LaunchingD a) {})"
proof -
  let ?K = "{Registered (context_token c)}"
  have weak: "holds (LaunchingD a) ?K d \<Longrightarrow> holds (LaunchingD a) {} d" for d by (rule holds_mono) auto
  have starts: "maintains (holds (LaunchingD a) ?K) (if lc_active c
             then io_seq (if freezes_process (lc_execution c)
                          then failing_as (\<lambda>e. ''could not thaw '' @ as_str (lc_app c) @ '' before foreground recall: '' @ e)
                                 (thaw_and_wait (context_unit c))
                          else pure ())
                    (app_send (lc_app c) (EnterForeground (lc_payload c) (lc_open_path c) (lc_epoch c) (lc_lease c)))
             else io_seq (clear_phase_markers c) (start (context_unit c)))"
    by (intro maintain) auto
  show ?thesis
    unfolding activate_and_wait_def
    by (rule keep_seq, intro maintain, rule keep_seq, intro maintain, rule triple_seq [OF runtime_registered],
        rule keep_seq, rule starts, intro keep_seq keep_bind maintain keeping_any c) (auto intro: weak)
qed

section \<open>Commit and rollback\<close>

definition during :: "app_id \<Rightarrow> daemon \<Rightarrow> bool" where
  "during a d = (holds (LaunchingD a) {} d \<or> holds (ForegroundD a) {} d)"

lemma duringI [intro]: "holds (LaunchingD a) K d \<Longrightarrow> during a d" "holds (ForegroundD a) K d \<Longrightarrow> during a d"
  by (auto simp: during_def intro: holds_mono)

lemma during_consistent: "during a d \<Longrightarrow> consistent d"
  by (auto simp: during_def)

lemma during_frame: "during a d \<Longrightarrow> during a (d\<lparr>d_modes_locked := b\<rparr>)"
proof -
  have "same_core d (d\<lparr>d_modes_locked := b\<rparr>)" by (simp add: core_simps)
  then show "during a d \<Longrightarrow> during a (d\<lparr>d_modes_locked := b\<rparr>)"
    by (auto simp: during_def intro: quiet.core)
qed

lemma triple_during:
  "triple (holds (LaunchingD a) {}) m Q R \<Longrightarrow> triple (holds (ForegroundD a) {}) m Q R \<Longrightarrow> triple (during a) m Q R"
  unfolding triple_at [of "holds (LaunchingD a) {}"] triple_at [of "holds (ForegroundD a) {}"] triple_at [of "during a"] during_def
  by blast

lemma foreground_committed:
  assumes a: "lc_app c = a"
  shows "triple (holds (LaunchingD a) {Registered (context_token c)}) (publish_foreground c)
     (\<lambda>_. holds (ForegroundD a) {}) (during a)"
proof -
  let ?t = "context_token c" and ?K = "insert (InputFor (context_token c)) {Registered (context_token c)}"
  have t: "app_id ?t = a" using a by (simp add: context_token_def)
  have mark: "triple (holds (ForegroundD a) {}) (set_foreground_marker (Some a)) (\<lambda>_. holds (ForegroundD a) {}) (during a)"
    by (intro keeping_any maintain) auto
  have take: "triple (holds (LaunchingD a) ?K) (io_seq (apply_transition (AppReady a))
      (io_seq (assign (settle_input a)) (set_foreground_marker (Some a)))) (\<lambda>_. holds (ForegroundD a) {}) (during a)"
    using foreground_taken [of "LaunchingD a" "AppReady a" ?t ?K "during a" "set_foreground_marker (Some a)"] mark t by auto
  show ?thesis
    unfolding publish_foreground_def a
    by (rule triple_holding [OF triple_bind [OF input_pending [OF duringI(1)]]])
      (auto intro!: keep_seq take maintain simp: during_frame)
qed

lemma launch_committed:
  assumes a: "lc_app c = a"
  shows "triple (holds (LaunchingD a) {Registered (context_token c)}) (commit_launch c e)
     (\<lambda>_. holds (ForegroundD a) {}) (during a)"
proof -
  have last: "triple (holds (ForegroundD a) {}) (on_power f) (\<lambda>_. holds (ForegroundD a) {}) (during a)" for f
    by (intro keeping_any maintain) auto
  show ?thesis
    unfolding commit_launch_def
    by (rule keep_seq, intro maintain, rule keep_seq, intro maintain, rule keep_seq, intro maintain,
        rule triple_seq [OF foreground_committed [OF a] last]) auto
qed

lemma rolled_back:
  assumes c: "lc_app c = a" "benign (lc_manifest c)"
  shows "triple (during a) (rollback_launch c) (\<lambda>_. holds ManagerD {}) consistent"
proof -
  have each: "triple (holds dm {}) (rollback_launch c) (\<lambda>_. holds ManagerD {}) consistent"
    if dm: "dm = LaunchingD a \<or> dm = ForegroundD a" for dm
  proof -
    have left: "triple (holds dm {}) (failing_as g (apply_transition (AppExited a))) (\<lambda>_. holds ManagerD {}) consistent" for g :: "string \<Rightarrow> string"
      by (rule triple_failing_as, rule leaving_app_exited) (use dm in auto)
    have last: "triple (holds ManagerD {}) (io_seq (failing_as g show_manager_surface)
        (io_bind (background_restore_is_safe c) (\<lambda>safe.
           if safe then failing_as h (ensure_background_service (lc_manifest c)) else pure ()))) (\<lambda>_. holds ManagerD {}) consistent"
      for g h :: "string \<Rightarrow> string"
      by (intro keep_seq keep_bind keeping maintain c) auto
    show ?thesis
      unfolding rollback_launch_def c(1)
      by (rule keep_bind, intro maintain, rule keep_seq, intro maintain, rule keep_seq, intro maintain,
          rule keep_seq, intro maintain, rule keep_seq, intro maintain, rule keep_seq, intro maintain plain_simps,
          rule triple_seq [OF left last]) auto
  qed
  show ?thesis by (rule triple_during; rule each) simp_all
qed

lemma rolled_back_error:
  assumes "lc_app c = a" "benign (lc_manifest c)"
  shows "triple (during a) (rollback_error c e) Q consistent"
  unfolding rollback_error_def
  by (rule triple_bind [OF triple_trying_sum [OF rolled_back [OF assms]]])
    (auto intro!: triple_giving_up split: sum.splits)

section \<open>The launch\<close>

lemma launching_prepared:
  assumes c: "lc_app c = a" "benign (lc_manifest c)"
  shows "triple (holds ManagerD {}) (launch_prepared c e) (\<lambda>_. holds (ForegroundD a) {}) consistent"
proof -
  let ?L = "holds (LaunchingD a) {}"
  have begun: "triple (holds ManagerD {}) (or_else (apply_transition (Launch a)) (\<lambda>e.
       io_seq (ignoring_result (ensure_background_service (lc_manifest c))) (giving_up e))) (\<lambda>_. ?L) consistent"
  proof (rule triple_or_else [where R' = "holds ManagerD {}"])
    show "triple (holds ManagerD {}) (apply_transition (Launch a)) (\<lambda>_. ?L) (holds ManagerD {})"
      by (rule moving) (auto intro: owned_managed dest: holds_owned)
  qed (auto intro!: keep_seq maintain triple_giving_up c)
  have active: "triple ?L (or_else (activate_and_wait c e) (rollback_error c))
      (\<lambda>_. holds (LaunchingD a) {Registered (context_token c)}) consistent"
    by (rule triple_or_else [OF triple_weaken [OF activated [OF c(2)], where R' = "during a"]])
      (auto intro: rolled_back_error [OF c] dest: during_consistent)
  have committed: "triple (holds (LaunchingD a) {Registered (context_token c)}) (or_else (commit_launch c e) (rollback_error c))
      (\<lambda>_. holds (ForegroundD a) {}) consistent"
    by (rule triple_or_else [OF launch_committed [OF c(1)]])
      (auto intro: rolled_back_error [OF c] dest: during_consistent)
  show ?thesis
    unfolding launch_prepared_def c(1) by (rule triple_seq [OF begun triple_seq [OF active committed]])
qed

lemma launched_from_manager:
  "triple (holds ManagerD {}) (io_bind (prepare_launch cz a p) (\<lambda>c. launch_prepared c e)) (\<lambda>_. holds (ForegroundD a) {}) consistent"
proof (rule triple_bind [OF launch_is_prepared])
  fix c
  have "triple (\<lambda>d. holds ManagerD {} d \<and> (lc_app c = a \<and> benign (lc_manifest c))) (launch_prepared c e)
      (\<lambda>_. holds (ForegroundD a) {}) consistent"
    by (rule triple_fact_pre) (auto intro: launching_prepared)
  then show "triple (\<lambda>d. holds ManagerD {} d \<and> lc_app c = a \<and> benign (lc_manifest c)) (launch_prepared c e)
      (\<lambda>_. holds (ForegroundD a) {}) consistent" by simp
qed

lemma launching:
  assumes "dm = ManagerD \<or> (\<exists>b. dm = ForegroundD b)"
  shows "triple (holds dm {}) (launch cz a p e) (\<lambda>_. holds (ForegroundD a) {}) consistent"
proof -
  have manager: "triple (holds ManagerD {}) (io_seq (ensure_launch_current e)
        (io_seq (present s (\<lambda>d. domain_of d = ManagerD))
        (io_bind (prepare_launch cz a p) (\<lambda>c. launch_prepared c e)))) (\<lambda>_. holds (ForegroundD a) {}) consistent" for s
    by (intro keep_seq maintain launched_from_manager) auto
  have parked_first: "triple (holds (ForegroundD b) {}) (io_seq (park b False False) (io_seq (ensure_launch_current e)
        (io_seq (present s (\<lambda>d. domain_of d = ManagerD))
        (io_bind (prepare_launch cz a p) (\<lambda>c. launch_prepared c e))))) (\<lambda>_. holds (ForegroundD a) {}) consistent" for b s
    by (rule triple_seq [OF parking manager])
  have routed: "triple (holds dm {}) (if route = AlreadyForeground then pure () else
         io_seq (case route of ParkFirst current \<Rightarrow> park current False False | _ \<Rightarrow> pure ())
        (io_seq (ensure_launch_current e)
        (io_seq (present s (\<lambda>d. domain_of d = ManagerD))
        (io_bind (prepare_launch cz a p) (\<lambda>c. launch_prepared c e))))) (\<lambda>_. holds (ForegroundD a) {}) consistent"
    if r: "launch_route_of dm a (p = None) = Inr route" for route s
  proof -
    consider "route = AlreadyForeground" "dm = ForegroundD a" | b where "route = ParkFirst b" "dm = ForegroundD b"
      | "route = FromManager" "dm = ManagerD"
      using r assms by (auto simp: launch_route_of_def split: if_splits domain_state.splits)
    then show ?thesis
      by cases (auto intro!: triple_pure keep_seq [OF maintains_pure manager] parked_first)
  qed
  show ?thesis
    unfolding launch_def by (intro keep_seq maintain reading_domain triple_checked routed) auto
qed

lemma launch_refused:
  assumes "dm \<noteq> ManagerD" "\<And>b :: app_id. dm \<noteq> ForegroundD b"
  shows "triple (holds dm K) (launch cz a p e) Q consistent"
proof -
  have "isl (launch_route_of dm a (p = None))"
    using assms by (cases dm) (auto simp: launch_route_of_def)
  then show ?thesis
    unfolding launch_def by (intro keep_seq maintain reading_domain triple_checked) auto
qed

end
