(* ===== verification/Daemon_Sleeping.thy ===== *)
theory Daemon_Sleeping
  imports Daemon_Launching
begin

text \<open>
  Sleeping and waking: a suspend that returns leaves the lock of its transaction on the panel, and a
  wake hands the panel back to the manager with the wake lock held.
\<close>

section \<open>Rolling back\<close>

lemma aborting:
  assumes "Locked \<notin> K"
  shows "triple (holds dm K) (abort_wake epoch cause) Q consistent"
  unfolding abort_wake_def
  by (rule keep_bind, intro maintain holds_panel_ops assms) (auto intro!: triple_giving_up)

lemma trying_to:
  assumes m: "maintains (holds dm K) m" and K: "Locked \<notin> K"
  shows "triple (holds dm K) (or_else m (\<lambda>e. abort_wake epoch (f e))) (\<lambda>_. holds dm K) consistent"
proof (rule triple_or_else [where R' = "holds dm K"])
  show "triple (holds dm K) m (\<lambda>_. holds dm K) (holds dm K)" using m by (simp add: maintains_def)
  show "triple (holds dm K) (abort_wake epoch (f e)) (\<lambda>_. holds dm K) consistent" for e
    by (rule aborting [OF K])
qed simp

lemma waking_up:
  assumes "R = consistent"
  shows "triple (holds SleepingD {Awake}) (apply_transition Wake) (\<lambda>_. holds ManagerD {}) R"
proof -
  have "triple (holds SleepingD {Awake}) (apply_transition Wake) (\<lambda>_. holds ManagerD {Awake}) R"
    by (rule moving) (auto simp: assms holds_def consistent_def owned_def)
  then show ?thesis by (rule triple_weaken) (auto intro: holds_mono)
qed

lemma maintains_release_lock [maintain]: "Locked \<notin> K \<Longrightarrow> maintains (holds dm K) (release_display_lock e)"
  unfolding release_display_lock_def Let_def by (intro maintain)

lemma rolling_back: "triple (holds SleepingD {Awake}) (rollback_sleep epoch cause) Q consistent"
proof -
  let ?K = "{Awake}"
  have begin_unlocking: "maintains (holds SleepingD ?K) (if b then failing_as g (io_bind (on_sleep (begin_unlock epoch)) (\<lambda>_. pure ())) else pure ())"
    for b and g :: "string \<Rightarrow> string"
    by (intro maintain) auto
  have tail: "triple (holds ManagerD {}) (io_bind (on_sleep (finish_unlock epoch)) (\<lambda>_.
     io_seq (on_power_at f) (io_seq restore_desired (giving_up cause)))) Q consistent" for f
    by (intro keep_bind keep_seq maintain triple_giving_up) auto
  show ?thesis
    unfolding rollback_sleep_def
    by (rule keep_bind, intro maintain, rule keep_seq, rule begin_unlocking,
        rule triple_seq [OF trying_to], intro maintain, simp,
        rule triple_seq [OF trying_to], intro maintain, simp, simp, rule triple_seq [OF waking_up [OF refl] tail]) simp_all
qed

section \<open>Locking\<close>

lemma maintains_cover [maintain]:
  "maintains (holds dm K) (assign (\<lambda>d. d\<lparr>d_cover_closed := b\<rparr>))"
  "maintains (holds dm K) (assign (\<lambda>d. d\<lparr>d_cover_resume := r\<rparr>))"
  "maintains (holds dm K) (assign (\<lambda>d. d\<lparr>d_recovery_pending := b\<rparr>))"
  "maintains (holds dm K) (assign (schedule_resuspend s n))"
  "maintains (holds dm K) (schedule_locked_resuspend s)"
  "maintains (holds dm K) request_home_unlock"
  by (auto simp: schedule_locked_resuspend_def schedule_resuspend_def request_home_unlock_def core_simps
      intro!: maintain quiet.maintains_core_assign)

lemma maintains_retry [maintain]:
  "maintains (holds dm K) (schedule_failed_resuspend e s n)" "maintains (holds dm K) (unlock_if_requested n)"
  "maintains (holds dm K) arm_wake_guard_for_locked_resuspend"
  by (auto simp: schedule_failed_resuspend_def unlock_if_requested_def arm_wake_guard_for_locked_resuspend_def intro!: maintain)

lemma maintains_suspend [maintain]: "Awake \<notin> K \<Longrightarrow> maintains (holds SleepingD K) suspend_or_user_interrupt"
  unfolding suspend_or_user_interrupt_def controller_suspend_def by (intro maintain) auto

text \<open>The lock that the check has seen is the one of the transaction.\<close>

lemma resumed_locked:
  assumes "epoch \<noteq> 0"
  shows "triple (holds SleepingD {}) (finish_physical_resume epoch by_key) (\<lambda>_. holds SleepingD {Locked}) consistent"
proof -
  let ?S = "holds SleepingD {}" and ?L = "holds SleepingD {Locked}"
  have seen: "triple ?S display_status (\<lambda>p d. ?S d \<and> p = w_panel d) consistent"
    unfolding display_status_def by (rule quiet.triple_call [where dm = SleepingD and K = "{}"]) auto
  have marked: "triple (\<lambda>d. ?S d \<and> p_lock (w_panel d) = epoch \<and> p_committed (w_panel d)) (on_sleep (mark_awake epoch)) (\<lambda>_. ?L) consistent"
  proof -
    have "case on_sleep (mark_awake epoch) d of (Done x, u) \<Rightarrow> ?L u | (_, u) \<Rightarrow> consistent u"
      if d: "?S d" "p_lock (w_panel d) = epoch" "p_committed (w_panel d)" for d
    proof (cases "mark_awake epoch (d_sleep d)")
      case (Pair r s)
      have "?S (d\<lparr>d_sleep := s\<rparr>)" using d(1) by (simp add: holds_def sleep_frame)
      moreover have "locked (d\<lparr>d_sleep := s\<rparr>)" if "r = Inr u" for u
        using sleep_results(2) [of epoch "d_sleep d" s u] Pair that d assms by (simp add: locked_def)
      ultimately show ?thesis
        using Pair by (auto simp: on_sleep_def holds_def split: sum.splits)
    qed
    then show ?thesis by (auto simp: triple_def)
  qed
  have rest: "triple ?L (io_bind (looking d_cover_closed) (\<lambda>closed.
       if closed
       then io_seq (on_power (retained_lock_resume c1)) (io_seq (schedule_locked_resuspend awake) (giving_up e1))
       else if \<not> by_key
       then io_seq (on_power (retained_lock_resume c2)) (io_seq (schedule_locked_resuspend awake) (giving_up e2))
       else io_seq (schedule_locked_resuspend awake) (ignoring_result request_home_unlock))) (\<lambda>_. ?L) consistent"
    for awake c1 c2 e1 e2
    by (intro keeping maintain)
  have status: "triple (\<lambda>d. ?S d \<and> p = w_panel d)
      (io_seq (io_of (guard (p_lock p \<noteq> epoch \<or> \<not> p_committed p \<or> \<not> owns_panel HOME_KEY p) e))
      (io_bind (on_sleep (mark_awake epoch)) f)) (\<lambda>_. ?L) consistent"
    if "\<And>x. triple ?L (f x) (\<lambda>_. ?L) consistent" for p e f
  proof (rule triple_check)
    assume ok: "guard (p_lock p \<noteq> epoch \<or> \<not> p_committed p \<or> \<not> owns_panel HOME_KEY p) e = Inr ()"
    have "triple (\<lambda>d. ?S d \<and> p = w_panel d) (on_sleep (mark_awake epoch)) (\<lambda>_. ?L) consistent"
      by (rule triple_weaken [OF marked]) (use ok in \<open>auto simp: guard_def split: if_splits\<close>)
    then show "triple (\<lambda>d. ?S d \<and> p = w_panel d) (io_bind (on_sleep (mark_awake epoch)) f) (\<lambda>_. ?L) consistent"
      by (rule triple_bind) (rule that)
  qed auto
  show ?thesis
    unfolding finish_physical_resume_def by (rule triple_bind [OF seen], rule status, rule rest)
qed

lemma sleep_lock_prepared:
  "triple (holds ManagerD {}) (prepare_sleep_lock n) (\<lambda>(epoch, _) d. holds SleepingD {Awake} d \<and> epoch \<noteq> 0) consistent"
proof -
  let ?M = "holds ManagerD {}" and ?S = "holds SleepingD {Awake}"
  have down: "triple ?M (or_else (apply_transition Sleep) (\<lambda>e. io_bind (trying (on_sleep sleep_reset)) (\<lambda>r. giving_up (f e r)))) (\<lambda>_. ?S) consistent"
    for f :: "string \<Rightarrow> string + sleep_snapshot \<Rightarrow> string"
  proof (rule triple_or_else [where R' = ?M])
    have "triple (holds ManagerD {Awake}) (apply_transition Sleep) (\<lambda>_. ?S) ?M"
      by (rule moving) (auto intro: holds_mono owned_managed dest: holds_owned)
    then show "triple ?M (apply_transition Sleep) (\<lambda>_. ?S) ?M"
      by (rule triple_weaken) (auto simp: holds_def consistent_def owned_def)
  qed (auto intro!: keep_bind maintain triple_giving_up)
  have or_rollback: "triple ?S (or_else m (rollback_sleep epoch)) (\<lambda>_. ?S) consistent" if "maintains ?S m" for m :: "'x act" and epoch
    by (rule triple_or_else [where R' = ?S]) (use that rolling_back in \<open>auto simp: maintains_def\<close>)
  have tail: "triple ?S (io_bind allocate_generation (\<lambda>g.
     io_bind allocate_foreground_epoch (\<lambda>fe.
     io_seq (or_else (client_show_lock HOME_KEY g fe epoch) (rollback_sleep epoch))
    (io_bind (or_else (on_sleep (mark_locked epoch)) (rollback_sleep epoch)) (\<lambda>_.
     io_seq settle_frontlight_after_force_off
    (io_seq (on_power begin_suspend)
    (pure (epoch, seen)))))))) (\<lambda>(epoch, _) d. ?S d \<and> epoch \<noteq> 0) consistent"
    if "epoch \<noteq> 0" for epoch seen :: u64
    by (rule keep_bind, intro maintain, rule keep_bind, intro maintain, rule triple_seq [OF or_rollback], intro maintain, simp,
        rule triple_bind [OF or_rollback], intro maintain, simp, intro keep_seq maintain triple_pure) (use that in auto)
  have epoch: "triple ?M allocate_sleep_epoch (\<lambda>e d. ?M d \<and> e \<noteq> 0) consistent"
  proof -
    have "snd (allocate_sleep_epoch d) = d\<lparr>d_next_sleep := d_next_sleep d + 1\<rparr>" for d
      by (simp add: allocate_sleep_epoch_def)
    moreover have "max n 1 \<noteq> (0::u64)" for n by (auto simp: max_def)
    ultimately show ?thesis
      using quiet.maintains_counters(3) [of ManagerD "{}"]
      by (auto simp: triple_def maintains_snd allocate_sleep_epoch_def)
  qed
  have body: "triple (\<lambda>d. ?M d \<and> epoch \<noteq> 0) (io_bind (on_sleep (sleep_begin epoch)) (\<lambda>_.
     io_seq (or_else (apply_transition Sleep) (\<lambda>e.
         io_bind (trying (on_sleep sleep_reset)) (\<lambda>r. giving_up (f e r))))
    (io_bind allocate_generation (\<lambda>g.
     io_bind allocate_foreground_epoch (\<lambda>fe.
     io_seq (or_else (client_show_lock HOME_KEY g fe epoch) (rollback_sleep epoch))
    (io_bind (or_else (on_sleep (mark_locked epoch)) (rollback_sleep epoch)) (\<lambda>_.
     io_seq settle_frontlight_after_force_off
    (io_seq (on_power begin_suspend)
    (pure (epoch, seen)))))))))) (\<lambda>(epoch, _) d. ?S d \<and> epoch \<noteq> 0) consistent"
    for epoch seen :: u64 and f :: "string \<Rightarrow> string + sleep_snapshot \<Rightarrow> string"
    by (rule triple_fact_pre) (intro keep_bind maintain triple_seq [OF down tail]; simp)
  show ?thesis
    unfolding prepare_sleep_lock_def
    by (rule keep_seq, intro maintain, rule keep_seq, intro maintain, rule keep_bind, intro maintain,
        rule keep_seq, intro maintain, rule keep_bind, intro maintain, rule keep_seq, intro maintain,
        rule triple_bind [OF epoch body]) simp_all
qed

text \<open>The failure of a suspend ends with an error; its success ends in the check of the lock.\<close>

lemma suspend_failed:
  "triple (holds SleepingD {Locked}) (resuspend_suspend_failed e w seen) Q consistent"
  "triple (holds SleepingD {}) (sleep_suspend_failed e w seen) Q consistent"
  unfolding sleep_suspend_failed_def resuspend_suspend_failed_def
  by (intro keep_seq keep_bind maintain triple_if triple_giving_up; auto)+

lemma suspend_resumed:
  assumes "epoch \<noteq> 0"
  shows "triple (holds SleepingD {}) (sleep_resumed epoch w) (\<lambda>_. holds SleepingD {Locked}) consistent"
    "triple (holds SleepingD {}) (resuspend_resumed epoch w) (\<lambda>_. holds SleepingD {Locked}) consistent"
  unfolding sleep_resumed_def resuspend_resumed_def
  by (intro keep_bind keep_seq maintain resumed_locked assms; auto)+

lemma suspending:
  assumes "epoch \<noteq> 0"
  shows "triple (holds SleepingD {}) (sleep_suspend epoch seen) (\<lambda>_. holds SleepingD {Locked}) consistent"
  unfolding sleep_suspend_def
  by (rule keep_seq, intro maintain, rule keep_bind, intro maintain, simp, rule keep_bind, intro maintain, split sum.split)
    (auto intro: suspend_failed suspend_resumed [OF assms])

lemma sleeping: "triple (holds ManagerD {}) (sleep_now n) (\<lambda>_. holds SleepingD {Locked}) consistent"
proof -
  let ?A = "holds SleepingD {Awake}" and ?L = "\<lambda>_ :: unit. holds SleepingD {Locked}"
  have guarded: "triple ?A (or_else arm_wake_guard (rollback_sleep epoch)) (\<lambda>_. ?A) consistent" for epoch
    by (rule triple_or_else [where R' = ?A])
      (use rolling_back quiet.maintains_small(1) [of SleepingD "{Awake}"] in \<open>auto simp: maintains_def\<close>)
  have main: "triple ?A (sleep_suspend epoch seen) ?L consistent" if "epoch \<noteq> 0" for epoch seen
    by (rule forgetting [OF _ suspending [OF that]]) simp
  have "triple (\<lambda>d. ?A d \<and> epoch \<noteq> 0) (io_seq (or_else arm_wake_guard (rollback_sleep epoch))
     (io_bind (looking (\<lambda>d. d_interrupts d \<noteq> seen)) (\<lambda>newer.
       if newer then rollback_sleep epoch e else sleep_suspend epoch seen))) ?L consistent" for epoch seen e
    by (rule triple_fact_pre, rule triple_seq [OF guarded], rule keep_bind, intro maintain, rule triple_if,
        rule rolling_back, rule main) auto
  then show ?thesis
    unfolding sleep_now_def by (intro triple_bind [OF sleep_lock_prepared] triple_case_prod) simp
qed

section \<open>Suspending again\<close>

lemma resuspending: "triple (holds SleepingD {Locked}) (resuspend_locked epoch r seen) (\<lambda>_. holds SleepingD {Locked}) consistent"
proof -
  let ?L = "holds SleepingD {Locked}"
  have checked: "triple ?L (looking (\<lambda>d. domain_of d = SleepingD \<and> resuspend_fence_matches (d_sleep d) epoch r (d_interrupts d) seen))
      (\<lambda>b d. ?L d \<and> (b \<longrightarrow> epoch \<noteq> 0)) consistent"
    by (rule triple_looking) (auto simp: holds_def locked_def resuspend_fence_matches_def)
  have tail: "triple ?L (case suspend of Inl e \<Rightarrow> resuspend_suspend_failed e w seen | Inr _ \<Rightarrow> resuspend_resumed epoch w) (\<lambda>_. ?L) consistent"
    if "epoch \<noteq> 0" for suspend :: "string + unit" and w
    by (split sum.split) (auto intro: suspend_failed forgetting [OF _ suspend_resumed(2) [OF that]])
  have body: "triple ?L (if \<not> b then pure () else
         io_seq arm_wake_guard_for_locked_resuspend
        (io_bind (looking (\<lambda>d. d_interrupts d \<noteq> seen)) (\<lambda>newer.
           if newer then cancel_wake_guard
           else
             io_seq settle_frontlight_after_force_off
            (io_seq (on_power suspended)
            (io_bind (trying suspend_or_user_interrupt) (\<lambda>suspend.
             io_bind (trying acquire_wakelock) (\<lambda>wakelock.
               case suspend of
                 Inl e \<Rightarrow> resuspend_suspend_failed e wakelock seen
               | Inr _ \<Rightarrow> resuspend_resumed epoch wakelock))))))) (\<lambda>_. ?L) consistent"
    if "b \<longrightarrow> epoch \<noteq> 0" for b
    by (rule triple_if, rule keeping, intro maintain, rule keep_seq, intro maintain, rule keep_bind, intro maintain,
        rule triple_if, rule keeping, intro maintain, rule keep_seq, intro maintain, rule keep_seq, intro maintain,
        rule keep_bind, intro maintain, simp, rule keep_bind, intro maintain, rule tail) (use that in auto)
  show ?thesis
    unfolding resuspend_locked_def
    by (rule triple_bind [OF checked], rule triple_fact_pre, rule body)
qed

lemma resuspending_elsewhere: "dm \<noteq> SleepingD \<Longrightarrow> maintains (holds dm K) (resuspend_locked epoch r seen)"
  by (auto simp: maintains_snd resuspend_locked_def io_bind_def looking_def pure_def holds_def)

section \<open>Waking\<close>

lemma waking: "triple (holds SleepingD {}) (wake n) (\<lambda>_. holds ManagerD {}) consistent"
proof -
  let ?A = "holds SleepingD {Awake}"
  have tail: "triple (holds ManagerD {}) (io_bind (on_sleep (finish_unlock e)) (\<lambda>_.
         io_seq (on_power_at f) restore_desired)) (\<lambda>_. holds ManagerD {}) consistent" for e f
    by (intro keeping maintain) simp
  have unlocks: "triple ?A (io_bind (on_sleep (begin_unlock e)) (\<lambda>_.
         io_seq (or_else cancel_wake_guard (abort_wake e))
        (io_seq (or_else (client_cancel_lock e n) (abort_wake e))
        (io_seq (apply_transition Wake) (io_bind (on_sleep (finish_unlock e)) (\<lambda>_.
         io_seq (on_power_at f) restore_desired)))))) (\<lambda>_. holds ManagerD {}) consistent" for e f
    by (rule keep_bind, intro maintain, simp,
        rule triple_seq [OF trying_to [where f = "\<lambda>e. e"]], intro maintain, simp,
        rule triple_seq [OF trying_to [where f = "\<lambda>e. e"]], intro maintain, simp, simp,
        rule triple_seq [OF waking_up [OF refl] tail]) simp
  show ?thesis
    unfolding wake_def
    by (rule reading_domain, simp, rule keep_seq, intro maintain, rule keep_seq, intro maintain,
        rule keep_bind, intro maintain, rule keep_seq, intro maintain, rule keep_bind, intro maintain,
        rule keep_seq, intro maintain, rule triple_seq [OF acquiring], rule unlocks) simp_all
qed

lemma waking_elsewhere: "dm \<noteq> SleepingD \<Longrightarrow> maintains (holds dm K) (wake n)"
  unfolding wake_def by (rule maintains_domain) (simp add: maintain)

end
