(* ===== verification/Daemon_Loop.thy ===== *)
theory Daemon_Loop
  imports Daemon_Sleeping
begin

text \<open>
  The event loop: every turn starts and ends in a settled state, and what happens in between keeps
  \<open>consistent\<close>, also when the process dies there. \<open>serving\<close> has the states that the supervisor can be in
  between two events; what tasks and the device do at any time is a step of it too.
\<close>

section \<open>Settled states\<close>

lemma settled_holds:
  "settled d \<longleftrightarrow> holds SystemD {} d \<or> holds ManagerD {} d \<or> (\<exists>a. holds (ForegroundD a) {} d) \<or> holds SleepingD {Locked} d"
  by (auto simp: settled_def holds_def split: domain_state.splits)

lemma settledI [intro]:
  "holds SystemD K d \<Longrightarrow> settled d" "holds ManagerD K d \<Longrightarrow> settled d" "holds (ForegroundD a) K d \<Longrightarrow> settled d"
  "holds SleepingD {Locked} d \<Longrightarrow> settled d"
  by (auto simp: settled_def holds_def)

lemma settled_consistent: "settled d \<Longrightarrow> consistent d"
  by (simp add: settled_def)

lemma from_settled:
  assumes "triple (holds SystemD {}) m Q R" "triple (holds ManagerD {}) m Q R"
    "\<And>a. triple (holds (ForegroundD a) {}) m Q R" "triple (holds SleepingD {Locked}) m Q R"
  shows "triple settled m Q R"
  using assms by (simp add: triple_at [of settled] triple_at [of "holds _ _"] settled_holds) blast

lemma to_settled:
  "triple P m (\<lambda>_. holds SystemD {}) R \<Longrightarrow> triple P m (\<lambda>_. settled) R"
  "triple P m (\<lambda>_. holds ManagerD {}) R \<Longrightarrow> triple P m (\<lambda>_. settled) R"
  "triple P m (\<lambda>_. holds (ForegroundD a) {}) R \<Longrightarrow> triple P m (\<lambda>_. settled) R"
  "triple P m (\<lambda>_. holds SleepingD {Locked}) R \<Longrightarrow> triple P m (\<lambda>_. settled) R"
  by (erule triple_weaken; auto)+

text \<open>A domain in which the loop waits, with what it knows there.\<close>

definition resting :: "domain_state \<Rightarrow> known set \<Rightarrow> bool" where
  "resting dm K = ((K = {} \<and> (dm = SystemD \<or> dm = ManagerD \<or> (\<exists>a. dm = ForegroundD a))) \<or> dm = SleepingD \<and> K = {Locked})"

lemma resting_settled: "resting dm K \<Longrightarrow> holds dm K d \<Longrightarrow> settled d"
  by (auto simp: resting_def)

lemma from_resting: "(\<And>dm K. resting dm K \<Longrightarrow> triple (holds dm K) m Q R) \<Longrightarrow> triple settled m Q R"
  by (rule from_settled) (auto simp: resting_def)

lemma staying:
  "resting dm K \<Longrightarrow> maintains (holds dm K) m \<Longrightarrow> triple (holds dm K) m (\<lambda>_. settled) consistent"
  by (rule triple_weaken [OF keeping]) (auto intro: resting_settled)

lemma resting_plain [simp]: "resting dm K \<Longrightarrow> plain K" "resting dm K \<Longrightarrow> dm \<noteq> LaunchingD a" "resting dm K \<Longrightarrow> dm \<noteq> ParkingD a"
  by (auto simp: resting_def)

lemma restoring_any: "triple (holds dm K) restore_system (\<lambda>_. settled) consistent"
  by (rule to_settled(1), rule triple_weaken [OF restoring]) auto

section \<open>The handlers\<close>

lemma keep_resting:
  "resting dm K \<Longrightarrow> maintains (holds dm K) m \<Longrightarrow> triple (holds dm K) n Q consistent \<Longrightarrow> triple (holds dm K) (io_seq m n) Q consistent"
  by (rule keep_seq) auto

lemma launch_settles: "triple settled (launch cz a p e) (\<lambda>_. settled) consistent"
proof (rule from_settled)
  show "triple (holds ManagerD {}) (launch cz a p e) (\<lambda>_. settled) consistent"
    by (rule to_settled(3) [OF launching]) simp
  show "triple (holds (ForegroundD b) {}) (launch cz a p e) (\<lambda>_. settled) consistent" for b
    by (rule to_settled(3) [OF launching]) simp
qed (rule launch_refused; simp)+

lemma open_manager_settles: "triple settled open_manager (\<lambda>_. settled) consistent"
  unfolding open_manager_def retain_sleeping_unlock_def
  by (rule from_settled; rule reading_domain; simp)
    (auto intro!: to_settled(2) [OF entering] to_settled(2) [OF parking] staying maintain simp: resting_def)

lemma single_power_settles: "triple settled (single_power cz e) (\<lambda>_. settled) consistent"
proof -
  have last: "triple (holds ManagerD {}) (io_bind (looking (mgr_last_app \<circ> d_state)) (\<lambda>last.
             case last of Some a \<Rightarrow> launch cz a None e | None \<Rightarrow> pure ())) (\<lambda>_. settled) consistent"
  proof (rule keep_bind, intro maintain)
    fix lst :: "app_id option"
    show "triple (holds ManagerD {}) (case lst of Some a \<Rightarrow> launch cz a None e | None \<Rightarrow> pure ()) (\<lambda>_. settled) consistent"
      by (cases lst) (auto intro!: triple_pure to_settled(3) [OF launching])
  qed simp
  show ?thesis
    unfolding single_power_def retain_sleeping_unlock_def
    by (rule from_settled; rule reading_domain; simp)
      (auto intro!: last to_settled(2) [OF parking] staying maintain simp: resting_def)
qed

lemma triple_power_settles: "triple settled triple_power (\<lambda>_. settled) consistent"
  unfolding triple_power_def
  by (rule from_settled; rule reading_domain; simp)
    (auto intro!: to_settled(2) [OF entering] restoring_any triple_seq [OF parking])

lemma sleep_settles: "triple settled (sleep_now n) (\<lambda>_. settled) consistent"
proof -
  have refused: "dm \<noteq> ManagerD \<Longrightarrow> triple (holds dm K) (sleep_now n) Q consistent" for dm K and Q :: "unit \<Rightarrow> daemon \<Rightarrow> bool"
    by (auto simp: triple_def sleep_now_def prepare_sleep_lock_def io_seq_def io_bind_def present_def holds_def)
  show ?thesis
    by (rule from_settled; (rule to_settled(4) [OF sleeping] | rule refused)) auto
qed

lemma wake_settles: "triple settled (wake n) (\<lambda>_. settled) consistent"
proof (rule from_settled)
  show "triple (holds SleepingD {Locked}) (wake n) (\<lambda>_. settled) consistent"
    by (rule to_settled(2), rule forgetting [OF _ waking]) simp
qed (auto intro!: staying waking_elsewhere simp: resting_def)

lemma resuspend_settles: "triple settled (resuspend_locked e r i) (\<lambda>_. settled) consistent"
  by (rule from_settled; (rule to_settled(4) [OF resuspending] | rule staying [OF _ resuspending_elsewhere]))
    (auto simp: resting_def)

lemma close_settles: "triple settled (close_app a c) (\<lambda>_. settled) consistent"
proof (rule from_resting)
  fix dm K assume r: "resting dm K"
  show "triple (holds dm K) (close_app a c) (\<lambda>_. settled) consistent"
  proof (cases "dm = ForegroundD a")
    case True
    then show ?thesis using r to_settled(2) [OF closing(1)] by (auto simp: resting_def)
  next
    case False
    show ?thesis
      by (rule triple_weaken [OF closing(2) [OF False]]) (use r in \<open>auto intro: resting_settled\<close>)
  qed
qed

lemma exit_settles: "triple settled (record_runtime_exit a g c r src) (\<lambda>_. settled) consistent"
proof (rule from_resting)
  fix dm K assume r: "resting dm K"
  show "triple (holds dm K) (record_runtime_exit a g c r src) (\<lambda>_. settled) consistent"
    by (rule triple_weaken [OF exit_recorded])
      (use r in \<open>auto simp: after_exit_def resting_def owns_domain_def\<close>)
qed

lemma auto_sleep_settles: "triple settled (handle_auto_sleep r e) (\<lambda>_. settled) consistent"
proof (rule from_resting)
  fix dm K assume k: "resting dm K"
  let ?home = "\<lambda>e :: string. io_seq (on_power_at (\<lambda>now unix. cancel_quiescing now unix ''Home lock renderer unavailable''))
                (giving_up (''cannot request Home lock rendering: '' @ e))"
  have tail: "triple (holds ManagerD {}) (io_bind (looking (\<lambda>d. auto_sleep_is_current r (d_power d))) (\<lambda>current.
               if \<not> current then pure () else or_else (send_home_event l) ?home)) (\<lambda>_. settled) consistent" for l
    by (rule staying, simp add: resting_def, intro maintain)
  have app: "triple (holds (ForegroundD a) {}) (io_seq (park a b c) (io_bind (looking (\<lambda>d. auto_sleep_is_current r (d_power d))) (\<lambda>current.
               if \<not> current then pure () else or_else (send_home_event l) ?home))) (\<lambda>_. settled) consistent" for a b c l
    by (rule triple_seq [OF parking tail])
  have home: "triple (holds ManagerD {}) (io_seq ensure_manager_surface (io_bind (looking (\<lambda>d. auto_sleep_is_current r (d_power d))) (\<lambda>current.
               if \<not> current then pure () else or_else (send_home_event l) ?home))) (\<lambda>_. settled) consistent" for l
    by (rule keep_seq [OF _ tail]) (auto intro!: maintain)
  have other: "triple (holds dm K) (on_power_at f) (\<lambda>_. settled) consistent" for f
    by (rule staying [OF k]) (intro maintain)
  show "triple (holds dm K) (handle_auto_sleep r e) (\<lambda>_. settled) consistent"
    unfolding handle_auto_sleep_def
    by (rule keep_resting [OF k], intro maintain, rule keep_bind, intro maintain, rule triple_if, rule staying [OF k],
        intro maintain, rule reading_domain)
      (use k other in \<open>auto simp: resting_def intro!: app home\<close>)
qed

lemma cover_settles:
  "triple settled handle_cover_closed (\<lambda>_. settled) consistent" "triple settled handle_cover_opened (\<lambda>_. settled) consistent"
proof -
  have app: "triple (holds (ForegroundD a) {}) (io_seq (assign (\<lambda>d. d\<lparr>d_cover_resume := Some a\<rparr>))
      (io_seq (park a False True) (if_still_closed l))) (\<lambda>_. settled) consistent" for a l
    by (rule keep_seq, intro maintain, rule triple_seq [OF parking], rule staying)
      (auto simp: resting_def if_still_closed_def intro!: maintain)
  have closes: "triple (holds dm K) (case dm of
         ManagerD \<Rightarrow>
           io_seq (assign (\<lambda>d. d\<lparr>d_cover_resume := None\<rparr>))
          (io_seq ensure_manager_surface (if_still_closed ''cover_sleep''))
       | ForegroundD a \<Rightarrow>
           io_seq (assign (\<lambda>d. d\<lparr>d_cover_resume := Some a\<rparr>))
          (io_seq (park a False True) (if_still_closed (''cover_sleep_app '' @ as_str a)))
       | _ \<Rightarrow> pure ()) (\<lambda>_. settled) consistent" if k: "resting dm K" for dm K
  proof (cases "\<exists>a. dm = ForegroundD a")
    case True
    then show ?thesis using k by (auto simp: resting_def intro!: app)
  next
    case False
    then show ?thesis
      using k by (auto simp: resting_def if_still_closed_def intro!: staying maintain)
  qed
  show "triple settled handle_cover_closed (\<lambda>_. settled) consistent"
    unfolding handle_cover_closed_def
    by (rule from_resting, rule keep_resting, assumption, intro maintain, rule reading_domain, rule closes)
  show "triple settled handle_cover_opened (\<lambda>_. settled) consistent"
    unfolding handle_cover_opened_def
    by (rule from_resting, rule staying, assumption, intro maintain)
qed

lemma manifests_loaded:
  assumes "case r of Inl _ \<Rightarrow> True | Inr table \<Rightarrow> list_all benign (bt_values table)" "r = Inr table"
  shows "maintains (holds dm K) (assign (\<lambda>d. d\<lparr>d_manifests := table\<rparr>))"
proof (rule maintains_assign)
  fix d assume d: "holds dm K d"
  let ?t = "d\<lparr>d_manifests := table\<rparr>"
  have "knows ?t k = knows d k" for k
    by (cases k) (simp_all add: locked_def unit_up_def registered_def input_for_def)
  moreover have "consistent ?t"
    using d assms by (auto simp: holds_def consistent_def apart_def benign_manifests_def owned_def unit_up_def domain_of_def
        runtime_known_def settled_input_def registered_def split: domain_state.splits)
  ultimately show "holds dm K ?t" using d by (simp add: holds_def domain_of_def)
qed

lemma services_started [maintain]: "maintains (holds dm K) start_declared_background_services"
proof -
  have "triple (holds dm K) (looking (\<lambda>d. bt_values (d_manifests d))) (\<lambda>ts d. holds dm K d \<and> list_all benign ts) (holds dm K)"
    by (rule triple_looking) (auto simp: holds_def consistent_def apart_def benign_manifests_def)
  moreover have "triple (\<lambda>d. holds dm K d \<and> list_all benign ts)
      (for_all (\<lambda>m. ignoring_result (ensure_background_service m)) ts) (\<lambda>_. holds dm K) (holds dm K)" for ts
  proof (rule triple_fact_pre)
    assume "list_all benign ts"
    then have "maintains (holds dm K) (for_all (\<lambda>m. ignoring_result (ensure_background_service m)) ts)"
      by (intro maintain) (auto simp: list_all_iff)
    then show "triple (holds dm K) (for_all (\<lambda>m. ignoring_result (ensure_background_service m)) ts) (\<lambda>_. holds dm K) (holds dm K)"
      by (simp add: maintains_def)
  qed
  ultimately show ?thesis
    unfolding start_declared_background_services_def maintains_def by (rule triple_bind)
qed

lemma reload_settles: "triple settled reload_manifests (\<lambda>_. settled) consistent"
proof (rule from_resting)
  fix dm K assume k: "resting dm K"
  let ?ok = "\<lambda>r :: string + (app_id, app_manifest) btree.
      case r of Inl _ \<Rightarrow> True | Inr table \<Rightarrow> list_all benign (bt_values table)"
  have asked: "triple (holds dm K) (asking w_manifests) (\<lambda>r d. holds dm K d \<and> ?ok r) consistent"
    unfolding asking_def
    by (rule quiet.triple_call [where dm = dm and K = K]) (auto simp: holds_def consistent_def apart_def benign_manifests_def)
  have home: "triple (holds ManagerD {}) (or_else restart_runtime_and_wait (\<lambda>_. restore_system)) (\<lambda>_. settled) consistent"
  proof (rule triple_or_else [where R' = consistent])
    show "triple (holds ManagerD {}) restart_runtime_and_wait (\<lambda>_. settled) consistent"
      by (rule staying) (simp_all add: resting_def maintain)
  qed (use restoring in \<open>auto intro: to_settled\<close>)
  have last: "triple (holds dm K) (io_seq start_declared_background_services (io_bind (looking domain_of) (\<lambda>dm.
       if dm = ManagerD then or_else restart_runtime_and_wait (\<lambda>_. restore_system) else pure ()))) (\<lambda>_. settled) consistent"
    by (rule keep_seq, intro maintain, rule reading_domain)
      (use k home in \<open>auto simp: resting_def intro!: staying maintain\<close>)
  have body: "triple (\<lambda>d. holds dm K d \<and> ?ok r) (io_bind (io_of r) (\<lambda>table.
     io_seq (assign (\<lambda>d. d\<lparr>d_manifests := table\<rparr>))
    (io_seq start_declared_background_services
    (io_bind (looking domain_of) (\<lambda>dm.
       if dm = ManagerD then or_else restart_runtime_and_wait (\<lambda>_. restore_system) else pure ()))))) (\<lambda>_. settled) consistent" for r
    by (rule triple_fact_pre, rule triple_checked, rule keep_seq, rule manifests_loaded, assumption, assumption, rule last) auto
  show "triple (holds dm K) reload_manifests (\<lambda>_. settled) consistent"
    unfolding reload_manifests_def by (rule triple_bind [OF asked body])
qed

lemma display_exit_settles: "triple settled (handle_display_host_exited s r) (\<lambda>_. settled) consistent"
proof (rule from_resting)
  fix dm K assume k: "resting dm K"
  have tried: "triple (holds dm K) (trying restore_system)
      (\<lambda>r d. case r of Inl (e :: string) \<Rightarrow> consistent d | Inr x \<Rightarrow> holds SystemD {} d) consistent"
    by (rule triple_trying_sum [OF triple_weaken [OF restoring]]) auto
  have pending: "triple consistent (assign (\<lambda>d. d\<lparr>d_recovery_pending := False\<rparr>)) (\<lambda>_. consistent) consistent"
    by (rule any_domain, rule triple_weaken [OF keeping]) (auto intro: maintain)
  have cleared: "triple (\<lambda>d. case r of Inl e \<Rightarrow> consistent d | Inr x \<Rightarrow> holds SystemD {} d)
      (io_seq (assign (\<lambda>d. d\<lparr>d_recovery_pending := False\<rparr>)) (io_of r)) (\<lambda>_. settled) consistent" for r :: "string + unit"
  proof (cases r)
    case (Inl e)
    then show ?thesis by (auto intro!: triple_seq [OF pending] triple_io_of)
  next
    case (Inr x)
    then show ?thesis by (auto intro!: keep_seq maintain triple_io_of)
  qed
  show "triple (holds dm K) (handle_display_host_exited s r) (\<lambda>_. settled) consistent"
    unfolding handle_display_host_exited_def
    by (rule keep_bind, intro maintain, rule triple_if, rule staying [OF k], intro maintain, rule triple_bind [OF tried cleared]) simp
qed

lemma app_ready_settles: "triple settled (record_app_ready a) (\<lambda>_. settled) consistent"
  unfolding record_app_ready_def
  by (rule from_resting, rule staying, assumption, rule maintains_domain) (auto simp: resting_def maintain)

lemma authority_checked [maintain]: "maintains (holds dm K) (validate_runtime_launch_authority x)"
  unfolding validate_runtime_launch_authority_def by (cases x) (auto intro!: maintain)

lemma runtime_launch_settles:
  "triple settled (io_seq (validate_runtime_launch_authority x) (launch cz a p e)) (\<lambda>_. settled) consistent"
proof (rule from_resting)
  fix dm K assume "resting dm K"
  then show "triple (holds dm K) (io_seq (validate_runtime_launch_authority x) (launch cz a p e)) (\<lambda>_. settled) consistent"
    by (intro keep_seq maintain triple_weaken [OF launch_settles]) (auto intro: resting_settled)
qed

lemma handled: "triple settled (handle_event_body cz e n) (\<lambda>_. settled) consistent"
proof (cases e)
  case UserActivityEvent
  then show ?thesis by (auto intro!: from_resting staying maintain)
next
  case (AppParkedEvent s)
  then show ?thesis by (auto simp: resting_def intro!: from_resting staying parked_recorded)
next
  case (PackageEvent s)
  then show ?thesis by (auto simp: package_operation_def intro!: from_resting staying maintain)
qed (simp_all add: single_power_settles triple_power_settles launch_settles runtime_launch_settles open_manager_settles
    cover_settles sleep_settles wake_settles resuspend_settles auto_sleep_settles close_settles exit_settles
    display_exit_settles app_ready_settles reload_settles to_settled(1) [OF triple_weaken [OF restoring settled_consistent]])

lemma event_handled: "triple settled (handle_event cz e n) (\<lambda>_. settled) consistent"
  unfolding handle_event_def
proof (rule from_resting)
  fix dm K assume "resting dm K"
  then show "triple (holds dm K) (io_seq (if is_power_event e then on_power_at note_activity else pure ()) (handle_event_body cz e n))
      (\<lambda>_. settled) consistent"
    by (intro keep_seq maintain triple_weaken [OF handled]) (auto intro: resting_settled)
qed

section \<open>After a failure\<close>

lemma lock_seen:
  "triple (holds SleepingD {}) retained_sleep_lock_is_healthy (\<lambda>b d. holds SleepingD {} d \<and> (b \<longrightarrow> locked d)) consistent"
proof -
  let ?S = "holds SleepingD {}"
  let ?q = "\<lambda>s d. ?S d \<and> d_sleep d = s"
  have "d_sleep (meanwhile_step m d) = d_sleep d" for m d by (cases m) (simp_all add: keep_units_def)
  then have alive: "device_alive (?q s)" for s
    by unfold_locales (auto intro: quiet.step quiet.script)
  have status: "triple (?q s) (trying display_status)
      (\<lambda>r d. case r of Inl (e :: string) \<Rightarrow> ?q s d | Inr p \<Rightarrow> ?q s d \<and> p = w_panel d) consistent" for s
    by (rule triple_trying_sum) (auto simp: display_status_def intro!: device_alive.triple_call [OF alive])
  show ?thesis
    unfolding retained_sleep_lock_is_healthy_def
  proof (rule triple_bind)
    show "triple ?S (looking d_sleep) (\<lambda>s. ?q s) consistent" by (rule triple_looking) simp
    show "triple (?q s) (if sl_epoch s = 0 \<or> sl_phase s \<noteq> LockedSleep then pure False
       else io_bind (trying display_status) (\<lambda>r.
         pure (case r of Inr p \<Rightarrow> p_committed p \<and> p_lock p = sl_epoch s | Inl _ \<Rightarrow> False)))
      (\<lambda>b d. ?S d \<and> (b \<longrightarrow> locked d)) consistent" for s
      by (rule triple_if, rule triple_pure, simp, rule triple_bind [OF status], rule triple_pure)
        (auto simp: locked_def split: sum.splits)
  qed
qed

lemma recovering: "triple consistent (recover_after_failure (Inl e)) (\<lambda>_. settled) consistent"
proof (rule any_domain)
  fix dm
  have stays: "triple (holds dm {}) (pure ()) (\<lambda>_. settled) consistent" if "resting dm {}" for dm
    by (rule triple_pure) (auto intro: resting_settled that)
  have lock: "triple (holds SleepingD {}) (io_bind retained_sleep_lock_is_healthy (\<lambda>healthy.
      if should_retain_sleeping_failure e healthy then pure () else restore_system)) (\<lambda>_. settled) consistent"
  proof (rule triple_bind [OF lock_seen])
    fix b
    show "triple (\<lambda>d. holds SleepingD {} d \<and> (b \<longrightarrow> locked d))
        (if should_retain_sleeping_failure e b then pure () else restore_system) (\<lambda>_. settled) consistent"
    proof (rule triple_if)
      show "triple (\<lambda>d. holds SleepingD {} d \<and> (b \<longrightarrow> locked d)) (pure ()) (\<lambda>_. settled) consistent"
        if "should_retain_sleeping_failure e b"
        using that by (intro triple_pure) (auto simp: should_retain_sleeping_failure_def settled_def holds_def)
      show "triple (\<lambda>d. holds SleepingD {} d \<and> (b \<longrightarrow> locked d)) restore_system (\<lambda>_. settled) consistent"
        by (rule triple_weaken [OF restoring]) auto
    qed
  qed
  show "triple (holds dm {}) (recover_after_failure (Inl e)) (\<lambda>_. settled) consistent"
    unfolding recover_after_failure_def
    by (simp, rule reading_domain, cases dm)
      (auto simp: resting_def intro!: stays lock restoring_any ensuring)
qed

lemma turn: "triple settled (event_step cz e n) (\<lambda>_. settled) consistent"
proof -
  let ?Q = "\<lambda>r d. case r of Inl (x :: string) \<Rightarrow> consistent d | Inr u \<Rightarrow> settled d"
  have tried: "triple settled (if c then pure (Inl s) else trying (handle_event cz e n)) ?Q consistent" for c s
    by (rule triple_if, rule triple_pure, simp add: settled_consistent, rule triple_trying_sum [OF event_handled]) simp
  have recovers: "triple (?Q r) (io_seq (recover_after_failure r) (pure r)) (\<lambda>_. settled) consistent" for r
  proof (cases r)
    case (Inl x)
    then show ?thesis by (auto intro!: triple_seq [OF recovering] triple_pure)
  next
    case (Inr u)
    have "triple settled (io_seq (pure ()) (pure (Inr u))) (\<lambda>_. settled) consistent"
      by (rule triple_seq [where Q = settled]; rule triple_pure)
    then show ?thesis using Inr by (simp add: recover_after_failure_def)
  qed
  show ?thesis
    unfolding event_step_def
    by (rule triple_bind [OF triple_looking [where Q = "\<lambda>_. settled"]], assumption, rule triple_bind [OF tried recovers])
qed

lemma starting: "triple (holds SystemD {}) initialize_system (\<lambda>_. holds SystemD {}) consistent"
proof -
  have "triple (holds SystemD {}) ensure_system (\<lambda>_. holds SystemD {DisplayDown}) consistent"
    unfolding ensure_system_def by (rule triple_seq [OF stopping_domain restoring_stock]) simp
  then show ?thesis
    unfolding initialize_system_def
    by (rule triple_seq) (auto intro!: triple_weaken [OF keeping [of SystemD "{DisplayDown}"]] maintain intro: holds_mono)
qed

end
