(* ===== verification/Daemon_Serving.thy ===== *)
theory Daemon_Serving
  imports Daemon_Loop
begin

text \<open>
  The states the supervisor can be in between two events, by induction over what may happen: a boot, a
  turn of the loop with any script, what tasks and the device do, a request for an input mode, newly
  installed manifests. All of them are settled.
\<close>

section \<open>Input modes\<close>

lemma mode_assigned:
  assumes "plain K" "\<And>i. ri_generation (f i) = ri_generation i \<and> ri_epoch (f i) = ri_epoch i \<and> ri_lease (f i) = ri_lease i
      \<and> ri_pending (f i) = ri_pending i"
  shows "maintains (holds dm K) (assign (\<lambda>d. d\<lparr>d_modes := bt_modify a f (d_modes d)\<rparr>))"
proof (rule maintains_assign)
  fix d assume d: "holds dm K d"
  show "holds dm K (d\<lparr>d_modes := bt_modify a f (d_modes d)\<rparr>)"
  proof (rule tables_hold [OF d assms(1)])
    fix b assume "runtime_known b d"
    then show "runtime_known b (d\<lparr>d_modes := bt_modify a f (d_modes d)\<rparr>)"
      using assms(2) by (fastforce simp: runtime_known_def registered_def settled_input_def input_matches_def)
  qed simp_all
qed

lemma input_mode_settles: "maintains settled (set_input_mode t m)"
proof -
  have each: "triple (holds dm K) (set_input_mode t m) (\<lambda>_. settled) settled" if k: "resting dm K" for dm K
  proof -
    have settles: "triple (holds dm K) n (\<lambda>_. settled) settled" if "maintains (holds dm K) n" for n :: "bool act"
      using that unfolding maintains_def by (rule triple_weaken) (auto intro: resting_settled [OF k])
    have refused: "maintains (holds dm K) (io_bind (looking (\<lambda>d. validate_active_foreground_token (domain_of d) (d_modes d) t)) (\<lambda>r.
         io_bind (io_of r) f))" if "dm \<noteq> ForegroundD (app_id t)" for f :: "runtime_input \<Rightarrow> bool act"
    proof -
      have "validate_active_foreground_token dm modes t \<noteq> Inr i" for modes i
        using that by (auto simp: validate_active_foreground_token_def Let_def guard_def)
      then show ?thesis
        by (auto simp: maintains_snd io_bind_def looking_def holds_def io_of_def split: sum.splits)
    qed
    have "maintains (holds dm K) (set_input_mode t m)"
    proof (cases "dm = ForegroundD (app_id t)")
      case True
      then have K: "K = {}" using k by (simp add: resting_def)
      show ?thesis
        unfolding set_input_mode_def
        by (rule maintains_seq, intro maintain, rule maintains_domain)
          (auto simp: in_transit_to_def True K intro!: maintain mode_assigned)
    next
      case False
      then show ?thesis
        unfolding set_input_mode_def using k
        by (intro maintains_seq maintains_io_of maintains_domain) (auto simp: in_transit_to_def intro!: quiet.maintains_holding refused)
    qed
    then show ?thesis by (rule settles)
  qed
  have "triple settled (set_input_mode t m) (\<lambda>_. settled) settled"
    by (rule triple_weaken [OF from_settled [where R = settled and Q = "\<lambda>_. settled"]]) (auto intro!: each simp: resting_def)
  then show ?thesis by (simp add: maintains_def)
qed

section \<open>The states between two events\<close>

definition booted :: "daemon \<Rightarrow> bool" where
  "booted d = (d_state d = manager_default \<and> \<not> w_grab d \<and> apart d)"

text \<open>A process that is restarted boots; an event is handled with whatever script the device has for
  it; tasks, input-mode requests and newly installed manifests come between two events.\<close>

definition resume_with :: "answer list \<Rightarrow> request_fence \<Rightarrow> daemon \<Rightarrow> daemon" where
  "resume_with script f d = d\<lparr>w_script := script, d_fence := f\<rparr>"

inductive serving :: "(path \<Rightarrow> string + path) \<Rightarrow> daemon \<Rightarrow> bool" for cz where
  boots: "booted d \<Longrightarrow> initialize_system d = (Done (), t) \<Longrightarrow> serving cz t"
| handles: "serving cz d \<Longrightarrow> event_step cz e n (resume_with script f d) = (Done r, t) \<Longrightarrow> serving cz t"
| goes_on: "serving cz d \<Longrightarrow> serving cz (meanwhile_step m d)"
| sets_mode: "serving cz d \<Longrightarrow> serving cz (snd (set_input_mode tok m (resume_with script f d)))"
| installs: "serving cz d \<Longrightarrow> list_all benign (bt_values table) \<Longrightarrow> serving cz (d\<lparr>w_manifests := Inr table\<rparr>)"

lemma resume_frame: "same_core d (resume_with script f d)"
  by (simp add: resume_with_def core_simps)

lemma settled_resume [simp]: "settled d \<Longrightarrow> settled (resume_with script f d)"
  using quiet.core [OF _ resume_frame [of d script f]] by (force simp: settled_holds)

lemma settled_goes_on: "settled d \<Longrightarrow> settled (meanwhile_step m d)"
  using quiet.step [where d = d and m = m] by (force simp: settled_holds)

lemma settled_installs:
  assumes "settled d" "list_all benign (bt_values table)"
  shows "settled (d\<lparr>w_manifests := Inr table\<rparr>)"
  using assms
  by (auto simp: settled_def consistent_def apart_def benign_manifests_def owned_def unit_up_def domain_of_def locked_def
      runtime_known_def settled_input_def registered_def split: domain_state.splits)

lemma booted_holds: "booted d \<Longrightarrow> holds SystemD {} d"
  by (simp add: booted_def holds_def consistent_def domain_of_def manager_default_def)

lemma serving_settled: "serving cz d \<Longrightarrow> settled d"
proof (induction rule: serving.induct)
  case (boots d t)
  then show ?case using triple_Done [OF starting booted_holds] by blast
next
  case (handles d e n script f r t)
  then show ?case using triple_Done [OF turn settled_resume] by blast
next
  case (sets_mode d tok m script f)
  then show ?case using input_mode_settles by (simp add: maintains_snd)
qed (auto intro: settled_goes_on settled_installs)

text \<open>Whatever a turn of the loop ends with, also the death of the process.\<close>

lemma turn_consistent:
  assumes "serving cz d"
  shows "consistent (snd (event_step cz e n (resume_with script f d)))"
proof -
  have "settled (resume_with script f d)" using serving_settled [OF assms] by simp
  then show ?thesis by (rule triple_end [OF turn]) (rule settled_consistent)
qed

end
