(* ===== verification/Daemon_Commit.thy ===== *)
theory Daemon_Commit
  imports Daemon_Serving
begin

text \<open>
  What a launch that returns has put on the panel: the commit has taken the request's fence, and under
  the write lock of the input modes no task can change the mode that the panel is given.
\<close>

section \<open>The foreground commit\<close>

text \<open>What holds under the write lock of the input modes: no task changes the mode that is committed.\<close>

definition fixed_input :: "app_id \<Rightarrow> runtime_input \<Rightarrow> daemon \<Rightarrow> bool" where
  "fixed_input a i d = (d_modes_locked d \<and> d_fence d = RequestCommitting \<and> bt_get (d_modes d) a = Some i)"

definition on_screen :: "app_id \<Rightarrow> runtime_input \<Rightarrow> daemon \<Rightarrow> bool" where
  "on_screen a i d =
     (unit_up DISPLAY_UNIT d \<longrightarrow>
        p_shown (w_panel d) = Some (qtfb_key_for_app a, ri_generation i, ri_epoch i)
        \<and> p_ink (w_panel d) = ink_enabled_mode (ri_mode i))"

definition commits :: "app_id \<Rightarrow> daemon \<Rightarrow> bool" where
  "commits a d = (d_fence d = RequestCommitting \<and> (\<exists>i. bt_get (d_modes d) a = Some i \<and> on_screen a i d))"

lemma committing_step: "d_fence d = RequestCommitting \<Longrightarrow> d_fence (meanwhile_step m d) = RequestCommitting"
  by (cases m) (simp_all add: keep_units_def fence_cancel_def)

lemma fixed_step: "fixed_input a i d \<Longrightarrow> fixed_input a i (meanwhile_step m d)"
  by (cases m) (auto simp: fixed_input_def keep_units_def fence_cancel_def)

lemma on_screen_step: "on_screen a i d \<Longrightarrow> on_screen a i (meanwhile_step m d)"
  by (cases m) (auto simp: on_screen_def keep_units_def unit_up_def at_surface_def list_ex_iff)

interpretation committing: device_alive "\<lambda>d. d_fence d = RequestCommitting"
  by unfold_locales (auto intro: committing_step)

interpretation fixed: device_alive "fixed_input a i" for a i
  by unfold_locales (erule fixed_step, simp add: fixed_input_def)

interpretation screened: device_alive "\<lambda>d. fixed_input a i d \<and> on_screen a i d" for a i
  by unfold_locales (blast intro: fixed_step on_screen_step, simp add: fixed_input_def on_screen_def unit_up_def)

abbreviation anyhow :: "daemon \<Rightarrow> bool" where
  "anyhow \<equiv> \<lambda>_. True"

lemma triple_anyhow: "triple P m (\<lambda>_. anyhow) anyhow"
  by (simp add: triple_def split: prod.splits outcome.splits)

lemma alive_call:
  "device_alive I \<Longrightarrow> (\<And>d. I d \<Longrightarrow> able d \<Longrightarrow> J (eff d)) \<Longrightarrow> triple I (outside_with e able eff v) (\<lambda>_. J) anyhow"
  by (rule device_alive.triple_call [where I = I]) auto

lemma triple_exists: "(\<And>j. triple (P j) m Q R) \<Longrightarrow> triple (\<lambda>s. \<exists>j. P j s) m Q R"
  unfolding triple_at [of "\<lambda>s. \<exists>j. P j s"] using triple_at [of "P _"] by blast

lemma activating:
  "triple (fixed_input a i) (client_activate_foreground (qtfb_key_for_app a) (ri_generation i) (ri_epoch i) (ink_enabled_mode (ri_mode i)))
     (\<lambda>_ d. fixed_input a i d \<and> on_screen a i d) anyhow"
  unfolding client_activate_foreground_def outside_if_def display_status_def
  by (rule triple_bind [where Q = "\<lambda>_. fixed_input a i"]; rule alive_call [OF fixed.device_alive_axioms])
    (auto simp: on_panel_def fixed_input_def on_screen_def)

lemma triple_under_lock:
  assumes m: "triple (\<lambda>d. d_modes_locked d \<and> P d) m (\<lambda>_. Q) anyhow"
    and P: "\<And>d. P d \<Longrightarrow> P (d\<lparr>d_modes_locked := True\<rparr>)" and Q: "\<And>d. Q d \<Longrightarrow> Q' (d\<lparr>d_modes_locked := False\<rparr>)"
  shows "triple P (holding_modes m) (\<lambda>_. Q') anyhow"
proof -
  have "Q' u" if d: "P d" "holding_modes m d = (Done x, u)" for d x u
  proof -
    obtain r t where r: "m (d\<lparr>d_modes_locked := True\<rparr>) = (r, t)" by fastforce
    then have "r = Done x" "u = t\<lparr>d_modes_locked := False\<rparr>" using d(2) by (auto simp: holding_modes_def)
    then show ?thesis using triple_Done [OF m _ r [unfolded \<open>r = Done x\<close>]] P [OF d(1)] Q by simp
  qed
  then show ?thesis by (simp add: triple_def split: prod.splits outcome.splits)
qed

lemma foreground_on_screen:
  assumes c: "lc_app c = a" "lc_key c = qtfb_key_for_app a"
  shows "triple (\<lambda>d. d_fence d = RequestCommitting) (publish_foreground c) (\<lambda>_. commits a) anyhow"
proof -
  let ?t = "context_token c" and ?S = "\<lambda>i d. fixed_input a i d \<and> on_screen a i d"
  have t: "app_id ?t = a" "generation ?t = lc_generation c" "foreground_epoch ?t = lc_epoch c"
    using c by (simp_all add: context_token_def)
  have pending: "triple (\<lambda>d. d_modes_locked d \<and> d_fence d = RequestCommitting) (pending_input e ?t)
      (\<lambda>i d. fixed_input a i d \<and> input_matches i ?t) anyhow" for e
  proof -
    have "fixed_input a i u \<and> input_matches i ?t"
      if d: "d_modes_locked d \<and> d_fence d = RequestCommitting" and r: "pending_input e ?t d = (Done i, u)" for d i u
      using d r by (auto simp: pending_input_def entry_of_def io_bind_def io_seq_def looking_def io_of_def ok_or_def guard_def
        pure_def fixed_input_def t split: option.splits if_splits)
    then show ?thesis by (simp add: triple_def split: prod.splits outcome.splits)
  qed
  have prepared: "triple (fixed_input a i) (client_prepare_foreground k g e) (\<lambda>_. fixed_input a i) anyhow" for i k g e
    unfolding client_prepare_foreground_def outside_if_def
    by (rule alive_call [OF fixed.device_alive_axioms]) (auto simp: on_panel_def fixed_input_def)
  have moved: "triple (?S i) (apply_transition tr) (\<lambda>_. ?S i) anyhow" for i tr
    by (auto simp: triple_def apply_transition_def fixed_input_def on_screen_def unit_up_def split: prod.splits sum.splits)
  have settles: "triple (?S i) (assign (settle_input a)) (\<lambda>_ d. \<exists>j. ?S j d) anyhow" for i
    by (rule triple_assign, rule exI [of _ "i\<lparr>ri_pending := False\<rparr>"])
      (auto simp: settle_input_def fixed_input_def on_screen_def unit_up_def)
  have marked: "triple (\<lambda>d. \<exists>j. ?S j d) (set_foreground_marker x) (\<lambda>_ d. \<exists>j. ?S j d) anyhow" for x
  proof -
    have "triple (?S j) (set_foreground_marker x) (\<lambda>_ d. \<exists>j. ?S j d) anyhow" for j
      unfolding set_foreground_marker_def outside_def
      by (rule alive_call [OF screened.device_alive_axioms]) (auto simp: fixed_input_def on_screen_def unit_up_def)
    then show ?thesis by (rule triple_exists)
  qed
  have body: "triple (fixed_input a i) (io_seq (client_prepare_foreground (lc_key c) (lc_generation c) (lc_epoch c))
      (io_seq (client_activate_foreground (lc_key c) (lc_generation c) (lc_epoch c) (ink_enabled_mode (ri_mode i)))
      (io_seq (apply_transition (AppReady a)) (io_seq (assign (settle_input a)) (set_foreground_marker (Some a))))))
      (\<lambda>_ d. \<exists>j. ?S j d) anyhow" if "input_matches i ?t" for i
  proof -
    have "lc_generation c = ri_generation i" "lc_epoch c = ri_epoch i" using that t by (simp_all add: input_matches_def)
    then show ?thesis
      unfolding c(2)
      by (simp only:) (rule triple_seq [OF prepared triple_seq [OF activating triple_seq [OF moved triple_seq [OF settles marked]]]])
  qed
  have whole: "triple (\<lambda>d. d_modes_locked d \<and> d_fence d = RequestCommitting)
      (io_bind (pending_input e ?t) (\<lambda>i. io_seq (client_prepare_foreground (lc_key c) (lc_generation c) (lc_epoch c))
      (io_seq (client_activate_foreground (lc_key c) (lc_generation c) (lc_epoch c) (ink_enabled_mode (ri_mode i)))
      (io_seq (apply_transition (AppReady a)) (io_seq (assign (settle_input a)) (set_foreground_marker (Some a)))))))
      (\<lambda>_ d. \<exists>j. ?S j d) anyhow" for e
    by (rule triple_bind [OF pending], rule triple_fact_pre, rule body)
  show ?thesis
    unfolding publish_foreground_def c(1)
    by (rule triple_under_lock [OF whole]) (auto simp: commits_def fixed_input_def on_screen_def unit_up_def)
qed

section \<open>The launch\<close>

lemma rollback_never_returns: "triple P (rollback_error c e) Q anyhow"
  by (auto simp: triple_def rollback_error_def trying_def io_bind_def giving_up_def split: prod.splits outcome.splits)

lemma commit_takes_fence:
  assumes c: "lc_app c = a" "lc_key c = qtfb_key_for_app a"
  shows "triple P (commit_launch c e) (\<lambda>_. commits a) anyhow"
proof -
  have last: "triple (commits a) (on_power f) (\<lambda>_. commits a) anyhow" for f
    unfolding on_power_def by (rule triple_assign) (simp add: commits_def on_screen_def unit_up_def)
  have present: "triple (\<lambda>d. d_fence d = RequestCommitting) (present r f) (\<lambda>_ d. d_fence d = RequestCommitting) anyhow" for r f
    by (rule triple_present) auto
  have begins: "triple anyhow (begin_commit r) (\<lambda>_ d. d_fence d = RequestCommitting) anyhow" for r
    by (auto simp: triple_def begin_commit_def fence_begin_commit_def split: prod.splits bool.splits if_splits)
  show ?thesis
    unfolding commit_launch_def
    by (rule triple_seq [OF triple_anyhow triple_seq [OF begins triple_seq [OF present triple_seq [OF foreground_on_screen [OF c] last]]]])
qed

lemma context_of_launch:
  "triple P (prepare_launch cz a p) (\<lambda>c _. lc_app c = a \<and> lc_key c = qtfb_key_for_app a) anyhow"
proof -
  have last: "triple anyhow (pure c) (\<lambda>c _. lc_app c = a \<and> lc_key c = qtfb_key_for_app a) anyhow"
    if "lc_app c = a" "lc_key c = qtfb_key_for_app a" for c
    using that by (simp add: triple_pure)
  have "triple anyhow (prepare_launch cz a p) (\<lambda>c _. lc_app c = a \<and> lc_key c = qtfb_key_for_app a) anyhow"
    unfolding prepare_launch_def Let_def by (intro triple_bind [OF triple_anyhow] triple_seq [OF triple_anyhow] last) simp_all
  then show ?thesis by (rule triple_weaken) simp_all
qed

lemma launch_puts_on_screen:
  "triple (\<lambda>d. domain_of d = ManagerD) (launch cz a p e) (\<lambda>_. commits a) anyhow"
proof -
  have "triple anyhow (launch_prepared c e) (\<lambda>_. commits a) anyhow" if "lc_app c = a \<and> lc_key c = qtfb_key_for_app a" for c
    unfolding launch_prepared_def using that
    by (intro triple_seq [OF triple_anyhow] triple_or_else [OF commit_takes_fence rollback_never_returns]) auto
  then have main: "triple anyhow (io_bind (prepare_launch cz a p) (\<lambda>c. launch_prepared c e)) (\<lambda>_. commits a) anyhow"
    by (intro triple_bind [OF context_of_launch] triple_at [THEN iffD2]) (simp add: triple_def)
  have routed: "triple (\<lambda>d. domain_of d = ManagerD) (io_bind (looking domain_of) f) (\<lambda>_. commits a) anyhow"
    if "triple anyhow (f ManagerD) (\<lambda>_. commits a) anyhow" for f :: "domain_state \<Rightarrow> unit act"
    using that by (auto simp: triple_def io_bind_def looking_def)
  have current: "triple (\<lambda>d. domain_of d = ManagerD) (ensure_launch_current e) (\<lambda>_ d. domain_of d = ManagerD) anyhow"
    unfolding ensure_launch_current_def by (rule triple_present) auto
  show ?thesis
    unfolding launch_def
    by (rule triple_seq [OF current], rule routed, simp add: launch_route_of_def)
      (auto simp: launch_route_of_def intro!: triple_checked triple_seq [OF triple_anyhow] main)
qed

end
