(* ===== verification/Daemon_Return.thy ===== *)
theory Daemon_Return
  imports Daemon_Commit
begin

text \<open>
  The way back to the stock shell always works: when the calls of a long press are answered as asked, the
  handler returns, whatever the tables and the units were before.
\<close>

section \<open>Runs in which every call works\<close>

definition smoothly :: "(daemon \<Rightarrow> bool) \<Rightarrow> 'a act \<Rightarrow> (daemon \<Rightarrow> bool) \<Rightarrow> bool" where
  "smoothly P m Q = (\<forall>d. w_script d = [] \<and> P d \<longrightarrow> (\<exists>x t. m d = (Done x, t) \<and> w_script t = [] \<and> Q t))"

lemma smoothly_bind: "smoothly P m Q \<Longrightarrow> (\<And>x. smoothly Q (f x) R) \<Longrightarrow> smoothly P (io_bind m f) R"
  by (fastforce simp: smoothly_def io_bind_def)

lemma smoothly_seq: "smoothly P m Q \<Longrightarrow> smoothly Q n R \<Longrightarrow> smoothly P (io_seq m n) R"
  unfolding io_seq_def by (rule smoothly_bind)

lemma smoothly_weaken: "smoothly P m Q \<Longrightarrow> (\<And>d. P' d \<Longrightarrow> P d) \<Longrightarrow> (\<And>d. Q d \<Longrightarrow> Q' d) \<Longrightarrow> smoothly P' m Q'"
  by (fastforce simp: smoothly_def)

lemma smoothly_call:
  "(\<And>d. w_script d = [] \<Longrightarrow> P d \<Longrightarrow> able d \<and> w_script (eff d) = [] \<and> Q (eff d)) \<Longrightarrow> smoothly P (outside_with e able eff v) Q"
  by (fastforce simp: smoothly_def outside_with_def next_answer_def calm_def)

lemma smoothly_pure: "(\<And>d. P d \<Longrightarrow> Q d) \<Longrightarrow> smoothly P (pure x) Q"
  by (simp add: smoothly_def pure_def)

lemma smoothly_looking: "(\<And>d. P d \<Longrightarrow> Q d) \<Longrightarrow> smoothly P (looking f) Q"
  by (simp add: smoothly_def looking_def)

lemma smoothly_assign: "(\<And>d. w_script d = [] \<Longrightarrow> P d \<Longrightarrow> w_script (f d) = [] \<and> Q (f d)) \<Longrightarrow> smoothly P (assign f) Q"
  by (simp add: smoothly_def assign_def)

lemma smoothly_ignoring:
  assumes "\<And>d. w_script d = [] \<Longrightarrow> P d \<Longrightarrow> (\<exists>r t. m d = (r, t) \<and> r \<noteq> Died \<and> w_script t = [] \<and> Q t)"
  shows "smoothly P (ignoring_result m) Q"
  using assms by (fastforce simp: smoothly_def ignoring_result_def split: outcome.splits)

lemma smoothly_ignoring_done: "smoothly P m Q \<Longrightarrow> smoothly P (ignoring_result m) Q"
  by (rule smoothly_ignoring) (fastforce simp: smoothly_def)

lemma smoothly_failing_as: "smoothly P m Q \<Longrightarrow> smoothly P (failing_as g m) Q"
  by (fastforce simp: smoothly_def failing_as_def or_else_def trying_def io_bind_def pure_def)

lemma smoothly_for_all: "(\<And>x. smoothly P (f x) P) \<Longrightarrow> smoothly P (for_all f xs) P"
  by (induction xs) (auto intro: smoothly_pure smoothly_seq)

text \<open>A stop that works is seen at once.\<close>

lemma unit_stopped_active [simp]: "\<not> unit_active p (unit_stopped p d)"
  by (auto simp: unit_active_def unit_stopped_def keep_units_def list_ex_iff)

lemma smoothly_stop:
  assumes "\<And>d. P d \<Longrightarrow> Q (unit_stopped p d)"
  shows "smoothly P (stop_and_wait p) Q"
proof -
  have "stop_and_wait p d = (Done (), unit_stopped p d)" if "w_script d = []" for d
    using that unit_stopped_active [of p d]
    by (simp add: stop_and_wait_def stop_def outside_def outside_with_def next_answer_def calm_def trying_def io_bind_def
        is_active_checked_def asking_def pure_def unit_stopped_def keep_units_def)
  then show ?thesis using assms by (auto simp: smoothly_def unit_stopped_def keep_units_def)
qed

section \<open>Back to the stock shell\<close>

definition going_back :: "daemon \<Rightarrow> bool" where
  "going_back d = (domain_of d = RestoringSystemD)"

definition lit :: "daemon \<Rightarrow> bool" where
  "lit d = (going_back d \<and> w_lit d)"

definition host_down :: "daemon \<Rightarrow> bool" where
  "host_down d = (lit d \<and> \<not> unit_up DISPLAY_UNIT d)"

definition stock_up :: "daemon \<Rightarrow> bool" where
  "stock_up d = (host_down d \<and> unit_up STOCK_UNIT d)"

lemmas back_defs = going_back_def lit_def host_down_def stock_up_def domain_of_def

lemma lit_stopped [simp]: "lit (unit_stopped p d) = lit d"
  by (simp add: back_defs unit_stopped_def keep_units_def)

lemma smoothly_stop_app: "smoothly lit (stop_managed_app a) lit"
proof -
  have "\<exists>t. io_bind (and_active b u) (\<lambda>active. if active then failing_as g (thaw_and_wait u) else pure ()) d = (Done (), t)
      \<and> w_script t = [] \<and> lit t" if "w_script d = []" "lit d" for b u d and g :: "string \<Rightarrow> string"
    using that
    by (auto simp: and_active_def is_active_checked_def asking_def outside_def outside_with_def next_answer_def calm_def io_bind_def
        pure_def thaw_and_wait_def failing_as_def or_else_def trying_def unit_frozen_def back_defs)
  then have thaw: "smoothly lit (io_bind (and_active b u) (\<lambda>active. if active then failing_as g (thaw_and_wait u) else pure ())) lit"
    for b u and g :: "string \<Rightarrow> string"
    by (fastforce simp: smoothly_def)
  have assoc: "io_bind m (\<lambda>x. io_seq (f x) n) = io_seq (io_bind m f) n" for m :: "bool act" and f :: "bool \<Rightarrow> unit act" and n :: "unit act"
    by (rule ext) (simp add: io_seq_def io_bind_def split: prod.splits outcome.splits)
  have saved: "smoothly lit (mark_session_process_stopped a) lit"
  proof -
    have "smoothly lit (save_session s) lit" for s
      unfolding save_session_def store_save_def outside_def
      by (rule smoothly_seq; (rule smoothly_call | rule smoothly_assign)) (auto simp: back_defs)
    then show ?thesis
      unfolding mark_session_process_stopped_def
      by (intro smoothly_bind [where Q = lit] smoothly_looking) (auto split: option.splits intro: smoothly_pure)
  qed
  have rest: "smoothly lit (io_seq (stop_and_wait (app_unit a)) (ignoring_result (mark_session_process_stopped a))) lit"
    by (rule smoothly_seq [OF smoothly_stop smoothly_ignoring_done [OF saved]]) simp
  show ?thesis
    unfolding stop_managed_app_def assoc
    by (rule smoothly_seq [OF _ rest], rule smoothly_bind [where Q = lit], rule smoothly_looking, assumption, rule thaw)
qed

lemma smoothly_stock: "smoothly host_down controller_restore_system stock_up"
proof -
  have idle: "smoothly P untracked P" for P
    unfolding untracked_def outside_def by (rule smoothly_call) auto
  have start: "smoothly host_down (start STOCK_UNIT) stock_up"
    unfolding start_def outside_def
    by (rule smoothly_call) (auto simp: unit_started_def unit_added_def back_defs unit_up_def list_ex_iff)
  have waits: "smoothly stock_up (wait_active STOCK_UNIT) stock_up"
    unfolding wait_active_def outside_if_def by (rule smoothly_call) (auto simp: stock_up_def)
  have release: "smoothly stock_up release_wakelock stock_up"
    unfolding release_wakelock_def outside_def by (rule smoothly_call) (auto simp: back_defs unit_up_def)
  have paper: "smoothly stock_up start_paperweight_if_installed stock_up"
    unfolding start_paperweight_if_installed_def
  proof (rule smoothly_bind)
    show "smoothly stock_up (asking w_paperweight) stock_up" unfolding asking_def by (rule smoothly_call) simp
    have "''paperweight.service'' \<noteq> DISPLAY_UNIT" "\<not> bound_to_display ''paperweight.service''"
      using ordinary_units(2) by (simp_all add: ordinary_def)
    then show "smoothly stock_up (if b then start ''paperweight.service'' else pure ()) stock_up" for b
      unfolding start_def outside_def
      by (auto intro!: smoothly_pure smoothly_call simp: unit_started_def unit_added_def back_defs unit_up_def list_ex_iff)
  qed
  show ?thesis
    unfolding controller_restore_system_def
    by (intro smoothly_seq [OF idle] smoothly_seq [OF start] smoothly_seq [OF waits] smoothly_seq [OF smoothly_ignoring_done [OF release]]
        smoothly_ignoring_done [OF paper])
qed

lemma smoothly_restore:
  "smoothly (\<lambda>d. domain_of d \<noteq> SystemD \<and> sl_revision (d_sleep d) \<noteq> - 1) restore_system
     (\<lambda>d. domain_of d = SystemD \<and> unit_up STOCK_UNIT d \<and> \<not> unit_up DISPLAY_UNIT d \<and> \<not> w_grab d \<and> w_lit d)"
  (is "smoothly ?P _ ?Q")
proof -
  let ?R = "\<lambda>d. going_back d \<and> sl_revision (d_sleep d) \<noteq> - 1"
  have reset: "smoothly ?R (on_sleep sleep_reset) going_back"
    by (auto simp: smoothly_def on_sleep_def sleep_reset_def sleep_update_def checked_succ Let_def back_defs)
  have guard_off: "smoothly going_back (ignoring_result cancel_wake_guard) going_back"
    unfolding cancel_wake_guard_def outside_def by (intro smoothly_ignoring_done smoothly_call) (auto simp: back_defs)
  have light: "smoothly going_back restore_desired lit"
    unfolding restore_desired_def by (rule smoothly_assign) (auto simp: back_defs)
  have clear: "smoothly lit (ignoring_result client_clear_foreground) lit"
    by (rule smoothly_ignoring) (auto simp: client_clear_foreground_def outside_if_def outside_with_def next_answer_def calm_def
        on_panel_def back_defs)
  have apps: "smoothly lit stop_managed_apps lit"
    unfolding stop_managed_apps_def
    by (intro smoothly_bind [where Q = lit] smoothly_looking smoothly_for_all smoothly_stop_app)
  have stops: "smoothly lit (stop_and_wait p) lit" for p by (rule smoothly_stop) simp
  have host: "smoothly lit (stop_and_wait DISPLAY_UNIT) host_down"
    by (rule smoothly_stop) (simp add: host_down_def flip: unit_active_owner(2))
  have forget: "smoothly host_down (assign forget_runtimes) host_down"
    by (rule smoothly_assign) (auto simp: forget_runtimes_def back_defs unit_up_def)
  have marker: "smoothly host_down (ignoring_result (set_foreground_marker None)) host_down"
    unfolding set_foreground_marker_def outside_def by (intro smoothly_ignoring_done smoothly_call) (auto simp: back_defs unit_up_def)
  have grab: "smoothly stock_up (set_power_grab False) (\<lambda>d. stock_up d \<and> \<not> w_grab d)"
    unfolding set_power_grab_def outside_def by (rule smoothly_call) (auto simp: back_defs unit_up_def)
  have ready: "smoothly (\<lambda>d. stock_up d \<and> \<not> w_grab d) (apply_transition SystemReady) ?Q"
    by (auto simp: smoothly_def apply_transition_def manager_apply_def back_defs unit_up_def)
  have stock: "smoothly ?Q (on_power enter_stock) ?Q"
    unfolding on_power_def by (rule smoothly_assign) (auto simp: domain_of_def unit_up_def)
  have body: "smoothly ?P (assign (\<lambda>d. d\<lparr>d_state := (d_state d)\<lparr>mgr_domain := RestoringSystemD\<rparr>\<rparr>)) ?R"
    by (rule smoothly_assign) (auto simp: back_defs)
  have all: "smoothly ?P (io_seq (assign (\<lambda>d. d\<lparr>d_state := (d_state d)\<lparr>mgr_domain := RestoringSystemD\<rparr>\<rparr>))
        (io_bind (on_sleep sleep_reset) (\<lambda>_.
         io_seq (ignoring_result cancel_wake_guard)
        (io_seq restore_desired
        (io_seq (ignoring_result client_clear_foreground)
        (io_seq (stop_and_wait HOME_UNIT)
        (io_seq stop_managed_apps
        (io_seq (stop_and_wait ''remagic-app@*.service'')
        (io_seq (stop_and_wait ''remagic-runtime.service'')
        (io_seq (stop_and_wait DISPLAY_UNIT)
        (io_seq (assign forget_runtimes)
        (io_seq (ignoring_result (set_foreground_marker None))
        (io_seq controller_restore_system
        (io_seq (set_power_grab False)
        (io_seq (apply_transition SystemReady)
        (on_power enter_stock)))))))))))))))) ?Q"
    by (rule smoothly_seq [OF body], rule smoothly_bind [OF reset], rule smoothly_seq [OF guard_off], rule smoothly_seq [OF light],
        rule smoothly_seq [OF clear], rule smoothly_seq [OF stops], rule smoothly_seq [OF apps], rule smoothly_seq [OF stops],
        rule smoothly_seq [OF stops], rule smoothly_seq [OF host], rule smoothly_seq [OF forget], rule smoothly_seq [OF marker],
        rule smoothly_seq [OF smoothly_stock], rule smoothly_seq [OF grab], rule smoothly_seq [OF ready stock])
  then show ?thesis
    by (simp add: smoothly_def restore_system_def io_bind_def looking_def)
qed

end
