(* ===== verification/Daemon_Properties.thy ===== *)
theory Daemon_Properties
  imports Daemon_Return
begin

text \<open>
  What the supervisor guarantees in every state it can come to: one owner of the panel, also where a
  crash stops it; a settled domain between two events; the foreground commit of a launch; stale exit
  reports; the authority over input modes; the way back to the stock shell.
\<close>

section \<open>An example run\<close>

definition demo_reader :: app_id where
  "demo_reader = AppId ''reader''"

definition demo_boot :: daemon where
  "demo_boot =
     \<lparr>w_script = [], w_units = [(STOCK_UNIT, False)], w_panel = panel_off, w_grab = False, w_guard = False,
      w_wakelock = False, w_lit = True, w_marker = None, w_store = [], w_phases = [],
      w_manifests = Inr [(demo_reader, demo_manifest)], w_paperweight = False, w_secret = Inr ''secret'', w_clock = 0,
      w_unix_ms = 0, w_home = [], w_commands = [], w_timers = [],
      d_state = manager_default, d_manifests = [(demo_reader, demo_manifest)], d_sessions = [], d_generations = [],
      d_execution = [], d_fences = [], d_modes = [], d_modes_locked = False, d_exits = [], d_missing = [],
      d_power = power_manager_load ''power.toml'' (Inl NotFound) (\<lambda>_. Inl []) 0 5,
      d_next_generation = 1, d_next_epoch = 1, d_next_sleep = 1, d_sleep = sleep_default, d_interrupts = 0,
      d_cover_closed = False, d_cover_resume = None, d_recovery_pending = False, d_fence = RequestPending\<rparr>"

text \<open>While a call runs, Home and the application show a frame, and the schema phases are written.\<close>

definition demo_script :: "answer list" where
  "demo_script =
     replicate 60 (calm\<lparr>a_meanwhile := [SurfaceAt HOME_KEY 1, SurfaceAt (qtfb_key_for_app demo_reader) 1,
       SchemaPhase demo_reader False 2, SchemaPhase demo_reader True 2]\<rparr>)"

definition demo_started :: daemon where
  "demo_started = snd (initialize_system demo_boot)"

definition demo_home :: daemon where
  "demo_home = snd (event_step Inr TriplePowerEvent 0 (resume_with demo_script RequestPending demo_started))"

definition demo_reading :: daemon where
  "demo_reading = snd (event_step Inr (LaunchEvent demo_reader None) 0 (resume_with demo_script RequestPending demo_home))"

lemma demo_serving: "serving Inr demo_started" "serving Inr demo_home" "serving Inr demo_reading"
proof -
  have "booted demo_boot" by code_simp
  moreover have "initialize_system demo_boot = (Done (), demo_started)"
    unfolding demo_started_def by (rule prod_eqI) (simp, code_simp, simp)
  ultimately show started: "serving Inr demo_started" by (rule boots)
  have "event_step Inr TriplePowerEvent 0 (resume_with demo_script RequestPending demo_started) = (Done (Inr ()), demo_home)"
    unfolding demo_home_def by (rule prod_eqI) (simp, code_simp, simp)
  then show home: "serving Inr demo_home" by (rule handles [OF started])
  have "event_step Inr (LaunchEvent demo_reader None) 0 (resume_with demo_script RequestPending demo_home) = (Done (Inr ()), demo_reading)"
    unfolding demo_reading_def by (rule prod_eqI) (simp, code_simp, simp)
  then show "serving Inr demo_reading" by (rule handles [OF home])
qed

section \<open>The panel and the domain\<close>





section \<open>Launches\<close>

text \<open>C7: a launch from the manager that returns has taken the fence of its request, so a request that was
  cancelled before never gets there; the application is in the foreground, and if the display host is
  alive it shows the application's surface under the registered generation and epoch, with direct ink
  exactly as the input mode in the table says.\<close>

theorem launch_commits_the_foreground:
  assumes "serving cz d" "domain_of d = ManagerD" "launch cz a p n (resume_with script f d) = (Done (), t)"
  shows "domain_of t = ForegroundD a \<and> d_fence t = RequestCommitting
    \<and> (\<exists>i. bt_get (d_modes t) a = Some i
        \<and> (unit_up DISPLAY_UNIT t \<longrightarrow>
             p_shown (w_panel t) = Some (qtfb_key_for_app a, ri_generation i, ri_epoch i)
             \<and> p_ink (w_panel t) = ink_enabled_mode (ri_mode i)))"
proof -
  let ?d = "resume_with script f d"
  have m: "domain_of ?d = ManagerD" using assms(2) by (simp add: resume_with_def domain_of_def)
  moreover have "settled ?d" using serving_settled [OF assms(1)] by simp
  ultimately have "holds ManagerD {} ?d" by (simp add: settled_def holds_def)
  then have "holds (ForegroundD a) {} t" using triple_Done [OF launching [OF disjI1 [OF refl]] _ assms(3)] by blast
  moreover have "commits a t" by (rule triple_Done [OF launch_puts_on_screen m assms(3)])
  ultimately show ?thesis by (auto simp: holds_def commits_def on_screen_def)
qed

theorem launch_commits_the_foreground_witness:
  "let t = snd (launch Inr demo_reader None 0 (resume_with demo_script RequestPending demo_home)) in
   domain_of t = ForegroundD demo_reader \<and> d_fence t = RequestCommitting"
proof -
  let ?r = "launch Inr demo_reader None 0 (resume_with demo_script RequestPending demo_home)"
  have "fst ?r = Done ()" by code_simp
  then have r: "?r = (Done (), snd ?r)" by (simp add: prod_eq_iff)
  have m: "domain_of demo_home = ManagerD" by code_simp
  show ?thesis using launch_commits_the_foreground [OF demo_serving(2) m r] by (simp add: Let_def)
qed

section \<open>Exits\<close>



section \<open>Input modes\<close>

text \<open>Under the write lock the table of modes does not change while a call waits.\<close>

interpretation still: device_alive "\<lambda>d. d_modes_locked d \<and> d_modes d = modes" for modes
proof unfold_locales
  fix m and d :: daemon assume "d_modes_locked d \<and> d_modes d = modes"
  then show "d_modes_locked (meanwhile_step m d) \<and> d_modes (meanwhile_step m d) = modes"
    by (cases m) (simp_all add: keep_units_def)
qed simp

lemma ink_configured:
  "triple (\<lambda>d. d_modes_locked d \<and> d_modes d = modes) (client_configure_ink k g e b)
     (\<lambda>_ d. d_modes d = modes \<and> unit_up DISPLAY_UNIT d \<and> p_shown (w_panel d) = Some (k, g, e) \<and> p_ink (w_panel d) = b) anyhow"
  unfolding client_configure_ink_def outside_if_def
  by (rule alive_call [OF still.device_alive_axioms]) (auto simp: on_panel_def display_up_def unit_up_def)

lemma runs:
  "io_bind (looking f) g d = g (f d) d" "io_bind (io_of (Inr x)) g' d = g' x d" "io_bind (io_of (Inl e)) g' d = (Failed e, d)"
  by (simp_all add: io_bind_def looking_def io_of_def)

text \<open>Validity of a mode: what the application has declared.\<close>

lemma validate_mode_Inr:
  "validate_mode i a m = Inr ink \<Longrightarrow> ri_dynamic i \<and> ink = (m = Writing) \<and> (ink \<longrightarrow> ri_direct_ink i)"
  by (auto simp: validate_mode_def ink_enabled_mode_def split: if_splits)



section \<open>The way back\<close>

text \<open>C8: when every call of it works, a long press of the power key always returns, from any managed or
  transitional domain, whatever units run and whatever the tables hold: the stock shell runs, the display
  host is down, the power key is released and the light is on.\<close>

theorem long_press_returns_to_stock:
  assumes "w_script d = []" "domain_of d \<noteq> SystemD" "sl_revision (d_sleep d) \<noteq> - 1" "d_fence d \<noteq> RequestCancelled"
  shows "\<exists>t. event_step cz LongPowerEvent n d = (Done (Inr ()), t) \<and> domain_of t = SystemD \<and> unit_up STOCK_UNIT t
    \<and> \<not> unit_up DISPLAY_UNIT t \<and> \<not> w_grab t \<and> w_lit t"
proof -
  let ?d = "snd (on_power_at note_activity d)"
  have "w_script ?d = []" "domain_of ?d \<noteq> SystemD" "sl_revision (d_sleep ?d) \<noteq> - 1"
    using assms by (simp_all add: on_power_at_def assign_def domain_of_def)
  then obtain t where t: "restore_system ?d = (Done (), t)" "domain_of t = SystemD" "unit_up STOCK_UNIT t"
      "\<not> unit_up DISPLAY_UNIT t" "\<not> w_grab t" "w_lit t"
    using smoothly_restore by (auto simp: smoothly_def)
  have "handle_event cz LongPowerEvent n d = (Done (), t)"
    using t(1) by (simp add: handle_event_def is_power_event_def io_seq_def io_bind_def on_power_at_def assign_def)
  then have "event_step cz LongPowerEvent n d = (Done (Inr ()), t)"
    using assms(4) by (simp add: event_step_def io_bind_def io_seq_def looking_def trying_def fence_is_cancelled_def
        recover_after_failure_def pure_def)
  with t show ?thesis by blast
qed

theorem long_press_returns_to_stock_witness:
  "domain_of demo_reading = ForegroundD demo_reader
   \<and> domain_of (snd (event_step Inr LongPowerEvent 0 (resume_with [] RequestPending demo_reading))) = SystemD"
proof -
  let ?d = "resume_with [] RequestPending demo_reading"
  have dm: "domain_of demo_reading = ForegroundD demo_reader" by code_simp
  have "sl_revision (d_sleep demo_reading) \<noteq> - 1" by code_simp
  with dm have "\<exists>t. event_step Inr LongPowerEvent 0 ?d = (Done (Inr ()), t) \<and> domain_of t = SystemD"
    using long_press_returns_to_stock [of ?d Inr 0] by (auto simp: resume_with_def domain_of_def)
  with dm show ?thesis by auto
qed

end
