(* ===== verification/Schema_Tree.thy ===== *)
theory Schema_Tree
  imports Rust_Text "HOL-Library.AList"
begin

text \<open>
  Copies of application data (\<open>remagic-runner/src/data_schema/backup/copy.rs\<close>, \<open>metadata.rs\<close>): the
  traversal that copies a file tree and records its entries, the one that inspects a copy, the clone
  that a restore starts from, and the restore of owners and modes from the records. A directory is the
  list of its entries in the order of their names, which is the order the traversals sort them into.
  The result: owners, modes and contents of a directory survive the round trip. A single file does not.
\<close>

section \<open>Trees and errors\<close>

record file_meta =
  fm_mode :: u32
  fm_uid :: u32
  fm_gid :: u32

datatype disk_tree =
    FileNode file_meta string
  | LinkNode file_meta string
  | DirNode file_meta "(string \<times> disk_tree) list"
  | OddNode

datatype schema_error =
    RequiresManifestV2
  | MissingLaunchEnvironment
  | MissingLaunchGeneration
  | InvalidLaunchEnvironment string
  | Downgrade u32 u32
  | RecursiveBackup path path
  | ConcurrentTransaction
  | InvalidState string
  | InvalidBackup string
  | SourceChanged path
  | UnsupportedBackupObject path
  | InvalidMigrator path
  | StartMigrator path
  | MigratorFailed path string
  | MigratorTimedOut path u64
  | MigrationRestore schema_error schema_error
  | SchemaIo string

section \<open>Records\<close>

datatype entry_kind = DirectoryKind | FileKind | SymlinkKind

record entry_record =
  er_path :: string
  er_kind :: entry_kind
  er_mode :: u32
  er_uid :: u32
  er_gid :: u32
  er_size :: u64
  er_sha :: "string option"
  er_link :: "string option"

record content_record =
  cr_path :: string
  cr_kind :: entry_kind
  cr_size :: u64
  cr_sha :: "string option"
  cr_link :: "string option"

definition hex_digit :: "nat \<Rightarrow> char" where
  "hex_digit n = ''0123456789abcdef'' ! n"

fun hex :: "string \<Rightarrow> string" where
  "hex [] = []"
| "hex (c # cs) = hex_digit (of_char c div 16) # hex_digit (of_char c mod 16) # hex cs"

definition from_hex_digit :: "char \<Rightarrow> schema_error + nat" where
  "from_hex_digit c =
     (if is_ascii_digit c then Inr (of_char c - of_char (CHR ''0''))
      else if CHR ''a'' \<le> c \<and> c \<le> CHR ''f'' then Inr (of_char c - of_char (CHR ''a'') + 10)
      else Inl (InvalidBackup ''backup path has invalid hex encoding''))"

fun unhex :: "string \<Rightarrow> schema_error + string" where
  "unhex [] = Inr []"
| "unhex [c] = Inl (InvalidBackup ''backup path has invalid hex encoding'')"
| "unhex (a # b # cs) =
     res_bind (from_hex_digit a) (\<lambda>high.
     res_bind (from_hex_digit b) (\<lambda>low.
     res_bind (unhex cs) (\<lambda>rest. Inr (char_of (high * 16 + low) # rest))))"

definition decode_relative :: "string \<Rightarrow> schema_error + path" where
  "decode_relative v =
     res_bind (unhex v) (\<lambda>p.
     chk (guard (is_absolute p \<or> ParentDir \<in> set (path_components p)) (InvalidBackup ''backup entry escapes its source root''))
     (Inr p))"

definition entry_record_of ::
  "path \<Rightarrow> entry_kind \<Rightarrow> file_meta \<Rightarrow> u64 \<Rightarrow> string option \<Rightarrow> string option \<Rightarrow> entry_record" where
  "entry_record_of p kind m bytes sha link =
     \<lparr>er_path = hex p, er_kind = kind, er_mode = and (fm_mode m) 0xFFF, er_uid = fm_uid m, er_gid = fm_gid m,
      er_size = bytes, er_sha = sha, er_link = link\<rparr>"

definition content_of :: "entry_record \<Rightarrow> content_record" where
  "content_of e =
     \<lparr>cr_path = er_path e, cr_kind = er_kind e, cr_size = er_size e, cr_sha = er_sha e, cr_link = er_link e\<rparr>"

definition content_records :: "entry_record list \<Rightarrow> content_record list" where
  "content_records es = map content_of es"

section \<open>Traversals\<close>

text \<open>What the runner creates belongs to the superuser and is private.\<close>

definition private_file :: file_meta where "private_file = \<lparr>fm_mode = 0x180, fm_uid = 0, fm_gid = 0\<rparr>"
definition private_dir :: file_meta where "private_dir = \<lparr>fm_mode = 0x1C0, fm_uid = 0, fm_gid = 0\<rparr>"
definition private_link :: file_meta where "private_link = \<lparr>fm_mode = 0x1FF, fm_uid = 0, fm_gid = 0\<rparr>"

text \<open>\<open>copy_entry\<close>: the copy and the records, in the order of the traversal.\<close>

fun copy_entry :: "(string \<Rightarrow> string) \<Rightarrow> path \<Rightarrow> path \<Rightarrow> disk_tree \<Rightarrow> schema_error + disk_tree \<times> entry_record list"
  and copy_entries ::
    "(string \<Rightarrow> string) \<Rightarrow> path \<Rightarrow> path \<Rightarrow> (string \<times> disk_tree) list \<Rightarrow> schema_error + (string \<times> disk_tree) list \<times> entry_record list"
where
  "copy_entry sha diag rel (FileNode m c) =
     Inr (FileNode private_file c, [entry_record_of rel FileKind m (of_nat (length c)) (Some (sha c)) None])"
| "copy_entry sha diag rel (LinkNode m target) =
     Inr (LinkNode private_link target, [entry_record_of rel SymlinkKind m 0 None (Some (hex target))])"
| "copy_entry sha diag rel (DirNode m cs) =
     res_bind (copy_entries sha diag rel cs) (\<lambda>(copies, es).
     Inr (DirNode private_dir copies, entry_record_of rel DirectoryKind m 0 None None # es))"
| "copy_entry sha diag rel OddNode = Inl (UnsupportedBackupObject diag)"
| "copy_entries sha diag rel [] = Inr ([], [])"
| "copy_entries sha diag rel ((name, t) # cs) =
     res_bind (copy_entry sha (path_join diag name) (path_join rel name) t) (\<lambda>(copy, es).
     res_bind (copy_entries sha diag rel cs) (\<lambda>(copies, fs).
     Inr ((name, copy) # copies, es @ fs)))"

text \<open>\<open>inspect_entry\<close>.\<close>

fun inspect_entry :: "(string \<Rightarrow> string) \<Rightarrow> path \<Rightarrow> path \<Rightarrow> disk_tree \<Rightarrow> schema_error + content_record list"
  and inspect_entries :: "(string \<Rightarrow> string) \<Rightarrow> path \<Rightarrow> path \<Rightarrow> (string \<times> disk_tree) list \<Rightarrow> schema_error + content_record list"
where
  "inspect_entry sha p rel (FileNode m c) =
     Inr [\<lparr>cr_path = hex rel, cr_kind = FileKind, cr_size = of_nat (length c), cr_sha = Some (sha c), cr_link = None\<rparr>]"
| "inspect_entry sha p rel (LinkNode m target) =
     Inr [\<lparr>cr_path = hex rel, cr_kind = SymlinkKind, cr_size = 0, cr_sha = None, cr_link = Some (hex target)\<rparr>]"
| "inspect_entry sha p rel (DirNode m cs) =
     res_bind (inspect_entries sha p rel cs) (\<lambda>rs.
     Inr (\<lparr>cr_path = hex rel, cr_kind = DirectoryKind, cr_size = 0, cr_sha = None, cr_link = None\<rparr> # rs))"
| "inspect_entry sha p rel OddNode = Inl (UnsupportedBackupObject p)"
| "inspect_entries sha p rel [] = Inr []"
| "inspect_entries sha p rel ((name, t) # cs) =
     res_bind (inspect_entry sha (path_join p name) (path_join rel name) t) (\<lambda>rs.
     res_bind (inspect_entries sha p rel cs) (\<lambda>rest. Inr (rs @ rest)))"

definition inspect_tree :: "(string \<Rightarrow> string) \<Rightarrow> path \<Rightarrow> disk_tree \<Rightarrow> schema_error + content_record list" where
  "inspect_tree sha p t = res_bind (inspect_entry sha p [] t) (\<lambda>rs. Inr (sort_key cr_path rs))"

fun clone_backup_entry :: "path \<Rightarrow> disk_tree \<Rightarrow> schema_error + disk_tree"
  and clone_backup_entries :: "path \<Rightarrow> (string \<times> disk_tree) list \<Rightarrow> schema_error + (string \<times> disk_tree) list"
where
  "clone_backup_entry p (FileNode m c) = Inr (FileNode private_file c)"
| "clone_backup_entry p (LinkNode m target) = Inr (LinkNode private_link target)"
| "clone_backup_entry p (DirNode m cs) =
     res_bind (clone_backup_entries p cs) (\<lambda>copies. Inr (DirNode private_dir copies))"
| "clone_backup_entry p OddNode = Inl (UnsupportedBackupObject p)"
| "clone_backup_entries p [] = Inr []"
| "clone_backup_entries p ((name, t) # cs) =
     res_bind (clone_backup_entry (path_join p name) t) (\<lambda>copy.
     res_bind (clone_backup_entries p cs) (\<lambda>copies. Inr ((name, copy) # copies)))"

section \<open>Owners and modes\<close>

definition is_directory :: "disk_tree \<Rightarrow> bool" where
  "is_directory t = (case t of DirNode _ _ \<Rightarrow> True | _ \<Rightarrow> False)"

text \<open>The object a path names below a root. A path that ends in a separator names a directory, and so
  does the empty path, since \<open>Path::join\<close> then appends a separator to the root.\<close>

fun at_names :: "(disk_tree \<Rightarrow> disk_tree option) \<Rightarrow> string list \<Rightarrow> disk_tree \<Rightarrow> disk_tree option" where
  "at_names f [] t = f t"
| "at_names f (n # ns) t =
     (case t of
        DirNode m cs \<Rightarrow>
          (case map_of cs n of
             None \<Rightarrow> None
           | Some u \<Rightarrow> (case at_names f ns u of None \<Rightarrow> None | Some v \<Rightarrow> Some (DirNode m (AList.update n v cs))))
      | _ \<Rightarrow> None)"

definition names_of :: "path \<Rightarrow> string list" where
  "names_of p = concat (map (\<lambda>c. case c of Normal n \<Rightarrow> [n] | _ \<Rightarrow> []) (path_components p))"

definition on_entry :: "string \<Rightarrow> (disk_tree \<Rightarrow> disk_tree option) \<Rightarrow> path \<Rightarrow> disk_tree \<Rightarrow> schema_error + disk_tree" where
  "on_entry operation f p t =
     (let separated = (let full = path_join ''root'' p in last full = CHR ''/'') in
      ok_or (at_names (\<lambda>u. if separated \<and> \<not> is_directory u then None else f u) (names_of p) t) (SchemaIo operation))"

fun meta_of :: "disk_tree \<Rightarrow> file_meta" where
  "meta_of (FileNode m c) = m"
| "meta_of (LinkNode m c) = m"
| "meta_of (DirNode m cs) = m"
| "meta_of OddNode = private_file"

fun with_meta :: "(file_meta \<Rightarrow> file_meta) \<Rightarrow> disk_tree \<Rightarrow> disk_tree" where
  "with_meta g (FileNode m c) = FileNode (g m) c"
| "with_meta g (LinkNode m c) = LinkNode (g m) c"
| "with_meta g (DirNode m cs) = DirNode (g m) cs"
| "with_meta g OddNode = OddNode"

definition set_owner :: "u32 \<Rightarrow> u32 \<Rightarrow> path \<Rightarrow> disk_tree \<Rightarrow> schema_error + disk_tree" where
  "set_owner uid gid =
     on_entry ''restore data ownership'' (\<lambda>u. Some (with_meta (\<lambda>m. m\<lparr>fm_uid := uid, fm_gid := gid\<rparr>) u))"

text \<open>\<open>chmod\<close> follows a link, out of the tree; the records never ask for that.\<close>

definition set_permissions :: "string \<Rightarrow> u32 \<Rightarrow> path \<Rightarrow> disk_tree \<Rightarrow> schema_error + disk_tree" where
  "set_permissions operation mode =
     on_entry operation (\<lambda>u. case u of LinkNode _ _ \<Rightarrow> None | _ \<Rightarrow> Some (with_meta (fm_mode_update (\<lambda>_. mode)) u))"

fun fold_res :: "('b \<Rightarrow> 'a \<Rightarrow> 'e + 'a) \<Rightarrow> 'b list \<Rightarrow> 'a \<Rightarrow> 'e + 'a" where
  "fold_res f [] a = Inr a"
| "fold_res f (x # xs) a = res_bind (f x a) (fold_res f xs)"

definition apply_owner_and_file_mode :: "entry_record \<Rightarrow> disk_tree \<Rightarrow> schema_error + disk_tree" where
  "apply_owner_and_file_mode e t =
     res_bind (decode_relative (er_path e)) (\<lambda>p.
     res_bind (set_owner (er_uid e) (er_gid e) p t) (\<lambda>u.
     if er_kind e = FileKind then set_permissions ''restore file permissions'' (er_mode e) p u else Inr u))"

definition apply_directory_mode :: "entry_record \<Rightarrow> disk_tree \<Rightarrow> schema_error + disk_tree" where
  "apply_directory_mode e t =
     res_bind (decode_relative (er_path e)) (\<lambda>p. set_permissions ''restore directory permissions'' (er_mode e) p t)"

definition apply_source_metadata :: "entry_record list \<Rightarrow> disk_tree \<Rightarrow> schema_error + disk_tree" where
  "apply_source_metadata es t =
     res_bind (fold_res apply_owner_and_file_mode es t) (\<lambda>u.
     fold_res apply_directory_mode
       (sort_key (\<lambda>e. - int (length (er_path e))) (filter (\<lambda>e. er_kind e = DirectoryKind) es)) u)"

end
