(* ===== verification/Schema_Roundtrip.thy ===== *)
theory Schema_Roundtrip
  imports Schema_Tree
begin

text \<open>
  Restoring the owners and modes of a directory from its records gives back the tree that was copied,
  in content, owners and modes; and the copy passes its inspection.
\<close>

section \<open>Names and paths\<close>

definition ok_name :: "string \<Rightarrow> bool" where
  "ok_name n = (n \<noteq> [] \<and> CHR ''/'' \<notin> set n \<and> n \<noteq> ''.'' \<and> n \<noteq> ''..'')"

definition rel :: "string list \<Rightarrow> path" where
  "rel ns = foldl path_join [] ns"

lemma rel_simps [simp]: "rel [] = []" "rel (ns @ [n]) = path_join (rel ns) n"
  by (simp_all add: rel_def)

lemma ok_name_not_absolute: "ok_name n \<Longrightarrow> \<not> is_absolute n"
  by (cases n) (auto simp: ok_name_def is_absolute_def)

lemma join_with_append: "ns \<noteq> [] \<Longrightarrow> join_with sep (ns @ [n]) = join_with sep ns @ sep @ n"
  by (induction sep ns rule: join_with.induct) auto

lemma join_with_nonempty: "ns \<noteq> [] \<Longrightarrow> \<forall>n\<in>set ns. n \<noteq> [] \<Longrightarrow> join_with sep ns \<noteq> []"
  by (induction sep ns rule: join_with.induct) auto

lemma last_join: "ns \<noteq> [] \<Longrightarrow> \<forall>n\<in>set ns. ok_name n \<Longrightarrow> last (join_with ''/'' ns) \<noteq> CHR ''/''"
proof (induction "''/''" ns rule: join_with.induct)
  case (2 s)
  then have "s \<noteq> []" "CHR ''/'' \<notin> set s" by (auto simp: ok_name_def)
  then show ?case using last_in_set [of s] by (metis join_with.simps(2))
next
  case (3 s t ts)
  then have "join_with ''/'' (t # ts) \<noteq> []" by (intro join_with_nonempty) (auto simp: ok_name_def)
  with 3 show ?case by simp
qed simp

lemma rel_join: "\<forall>n\<in>set ns. ok_name n \<Longrightarrow> rel ns = join_with ''/'' ns"
proof (induction ns rule: rev_induct)
  case (snoc n ns)
  then show ?case
    using last_join [of ns] join_with_nonempty [of ns "''/''"] ok_name_not_absolute [of n]
    by (cases "ns = []") (auto simp: path_join_def join_with_append ok_name_def rel_def)
qed simp

lemma split_on_word: "d \<notin> set w \<Longrightarrow> split_on d w = [w]"
  by (induction w) auto

lemma split_on_append: "d \<notin> set w \<Longrightarrow> split_on d (w @ d # s) = w # split_on d s"
  by (induction w) (auto split: list.splits)

lemma split_on_join: "ns \<noteq> [] \<Longrightarrow> \<forall>n\<in>set ns. d \<notin> set n \<Longrightarrow> split_on d (join_with [d] ns) = ns"
  by (induction "[d]" ns rule: join_with.induct) (auto simp: split_on_word split_on_append)

lemma rel_components:
  assumes "\<forall>n\<in>set ns. ok_name n"
  shows "path_components (rel ns) = map Normal ns" "\<not> is_absolute (rel ns)"
proof -
  show r: "\<not> is_absolute (rel ns)"
  proof (cases ns)
    case (Cons n ms)
    then obtain c cs where c: "n = c # cs" "c \<noteq> CHR ''/''" using assms by (cases n) (auto simp: ok_name_def)
    have "\<exists>r. rel ns = n @ r" using assms Cons by (cases ms) (simp_all add: rel_join)
    then show ?thesis using c by (auto simp: is_absolute_def)
  qed (simp add: is_absolute_def)
  show "path_components (rel ns) = map Normal ns"
  proof (cases "ns = []")
    case True
    then show ?thesis by (simp add: path_components_def is_absolute_def Let_def)
  next
    case False
    then have "split_on (CHR ''/'') (rel ns) = ns"
      using assms split_on_join [of ns "CHR ''/''"] by (simp add: rel_join ok_name_def)
    moreover have "filter (\<lambda>s. s \<noteq> [] \<and> s \<noteq> ''.'') ns = ns" using assms by (simp add: filter_id_conv ok_name_def)
    moreover have "map component_of ns = map Normal ns" using assms by (simp add: component_of_def ok_name_def)
    moreover have "hd ns \<noteq> ''.''" using assms False by (cases ns) (auto simp: ok_name_def)
    ultimately show ?thesis using r by (simp add: path_components_def Let_def)
  qed
qed

lemma names_of_rel: "\<forall>n\<in>set ns. ok_name n \<Longrightarrow> names_of (rel ns) = ns"
  by (simp add: names_of_def rel_components concat_map_singleton comp_def)

lemma rel_separated:
  assumes "\<forall>n\<in>set ns. ok_name n"
  shows "(last (path_join ''root'' (rel ns)) = CHR ''/'') = (ns = [])"
proof (cases "ns = []")
  case False
  then have "rel ns \<noteq> []" using assms join_with_nonempty [of ns "''/''"] by (auto simp: rel_join ok_name_def)
  then show ?thesis
    using False assms last_join [of ns] rel_components(2) [OF assms] by (simp add: path_join_def rel_join)
qed (simp add: path_join_def is_absolute_def)

section \<open>Hexadecimal\<close>

lemma from_hex_digit: "n < 16 \<Longrightarrow> from_hex_digit (hex_digit n) = Inr n"
proof -
  assume "n < 16"
  then have "n \<in> {0,1,2,3,4,5,6,7,8,9,10,11,12,13,14,15}" by simp presburger
  then show ?thesis by (elim insertE) (simp_all add: hex_digit_def from_hex_digit_def is_ascii_digit_def)
qed

lemma unhex_hex [simp]: "unhex (hex s) = Inr s"
proof (induction s)
  case (Cons c s)
  have c: "of_char c div 16 * 16 + of_char c mod 16 = (of_char c :: nat)" by simp
  have "of_char c < (256 :: nat)" by (metis nat_of_char_less_256)
  then have d: "of_char c div 16 < (16 :: nat)" by (simp add: less_mult_imp_div_less)
  show ?case using Cons d by (simp add: from_hex_digit res_bind_def c)
qed simp

lemma decode_rel: "\<forall>n\<in>set ns. ok_name n \<Longrightarrow> decode_relative (hex (rel ns)) = Inr (rel ns)"
  by (auto simp: decode_relative_def res_bind_def rel_components guard_def)

section \<open>Places in a tree\<close>

fun node_at :: "string list \<Rightarrow> disk_tree \<Rightarrow> disk_tree option" where
  "node_at [] t = Some t"
| "node_at (n # ns) t = (case t of DirNode m cs \<Rightarrow> Option.bind (map_of cs n) (node_at ns) | _ \<Rightarrow> None)"

fun wf_tree :: "disk_tree \<Rightarrow> bool" where
  "wf_tree (FileNode m c) = (and (fm_mode m) 0xFFF = fm_mode m)"
| "wf_tree (LinkNode m c) = (fm_mode m = 0x1FF)"
| "wf_tree (DirNode m cs) =
     (and (fm_mode m) 0xFFF = fm_mode m \<and> distinct (map fst cs) \<and> (\<forall>(n, t)\<in>set cs. ok_name n \<and> wf_tree t))"
| "wf_tree OddNode = False"

text \<open>A tree without its owners and modes.\<close>

fun bare :: "disk_tree \<Rightarrow> disk_tree" where
  "bare (FileNode m c) = FileNode private_file c"
| "bare (LinkNode m c) = LinkNode private_link c"
| "bare (DirNode m cs) = DirNode private_dir (map (\<lambda>(n, t). (n, bare t)) cs)"
| "bare OddNode = OddNode"

lemma bare_bare [simp]: "bare (bare t) = bare t"
  by (induction t rule: bare.induct) (auto simp: case_prod_beta comp_def)

lemma map_of_map_bare: "map_of (map (\<lambda>(n, t). (n, bare t)) cs) n = map_option bare (map_of cs n)"
  by (induction cs) auto

lemma bare_eq_directory: "bare t = bare (DirNode m cs) \<Longrightarrow> \<exists>m' ds. t = DirNode m' ds"
  by (cases t) auto

lemma bare_with_meta [simp]: "bare (with_meta g t) = bare t"
  by (cases t) simp_all

lemma node_at_bare: "node_at ns (bare t) = map_option bare (node_at ns t)"
proof (induction ns t rule: node_at.induct)
  case (2 n ns t)
  show ?case
  proof (cases t)
    case (DirNode m cs)
    then show ?thesis using 2 by (cases "map_of cs n") (simp_all add: map_of_map_bare)
  qed simp_all
qed simp

lemma same_places: "bare t = bare u \<Longrightarrow> (node_at ns t = None) = (node_at ns u = None)"
  by (metis node_at_bare option.map_disc_iff)

lemma wf_children: "wf_tree (DirNode m cs) \<Longrightarrow> map_of cs n = Some t \<Longrightarrow> ok_name n \<and> wf_tree t"
  by (auto dest!: map_of_SomeD)

lemma wf_place: "wf_tree t \<Longrightarrow> node_at ns t = Some u \<Longrightarrow> wf_tree u \<and> (\<forall>n\<in>set ns. ok_name n)"
proof (induction ns t rule: node_at.induct)
  case (2 n ns t)
  then obtain m cs v where v: "t = DirNode m cs" "map_of cs n = Some v" "node_at ns v = Some u"
    by (auto split: disk_tree.splits option.splits simp: bind_eq_Some_conv)
  have "ok_name n" "wf_tree v" using wf_children [of m cs n v] 2(2) v by simp_all
  then show ?case using 2(1) [OF v(1,2)] v(3) by simp
qed simp

text \<open>A tree is its contents and the owners and modes at its places.\<close>

lemma tree_eqI:
  assumes "wf_tree t" "bare t = bare u"
    "\<And>ns a b. node_at ns t = Some a \<Longrightarrow> node_at ns u = Some b \<Longrightarrow> meta_of a = meta_of b"
  shows "t = u"
  using assms
proof (induction t arbitrary: u)
  case (FileNode m c)
  show ?case using FileNode.prems(2) FileNode.prems(3) [of "[]" "FileNode m c" u] by (cases u) simp_all
next
  case (LinkNode m c)
  show ?case using LinkNode.prems(2) LinkNode.prems(3) [of "[]" "LinkNode m c" u] by (cases u) simp_all
next
  case (DirNode m cs)
  obtain m' ds where u: "u = DirNode m' ds" using DirNode.prems(2) by (cases u) auto
  have m: "m = m'" using DirNode.prems(3) [of "[]" "DirNode m cs" u] u by simp
  have maps: "map (\<lambda>(n, t). (n, bare t)) cs = map (\<lambda>(n, t). (n, bare t)) ds" using DirNode.prems(2) u by simp
  have names: "map fst cs = map fst ds" using arg_cong [OF maps, of "map fst"] by (simp add: comp_def case_prod_beta)
  have d: "distinct (map fst cs)" using DirNode.prems(1) by simp
  have "x = y" if xy: "(x, y) \<in> set (zip cs ds)" for x y
  proof -
    obtain i where i: "i < length cs" "x = cs ! i" "y = ds ! i" using xy by (auto simp: set_zip)
    then have i': "i < length ds" using names by (metis length_map)
    obtain n s where x: "x = (n, s)" by (cases x)
    obtain k w where y: "y = (k, w)" by (cases y)
    have "map fst cs ! i = map fst ds ! i" using names by simp
    then have nk: "n = k" using i i' x y by (metis fst_conv nth_map)
    have "map (\<lambda>(n, t). (n, bare t)) cs ! i = map (\<lambda>(n, t). (n, bare t)) ds ! i" using maps by simp
    moreover have "cs ! i = (n, s)" "ds ! i = (k, w)" using i x y by simp_all
    ultimately have e: "bare s = bare w" using i i' by simp
    have mem: "(n, s) \<in> set cs" "(n, w) \<in> set ds" using i i' x y nk by (metis nth_mem)+
    have "map_of cs n = Some s" using mem d by simp
    moreover have "map_of ds n = Some w" using mem d names by simp
    ultimately have "meta_of a = meta_of b" if "node_at ns s = Some a" "node_at ns w = Some b" for ns a b
      using that DirNode.prems(3) [of "n # ns" a b] u by simp
    moreover have "wf_tree s" using DirNode.prems(1) mem by auto
    ultimately have "s = w" using DirNode.IH [of "(n, s)" s w] mem e by (auto simp: snds.simps)
    then show ?thesis using x y nk by simp
  qed
  moreover have "length cs = length ds" using names by (metis length_map)
  ultimately have "cs = ds" unfolding list_eq_iff_zip_eq [of cs ds] by blast
  then show ?case using m u by simp
qed simp

section \<open>Setting owners and modes\<close>

abbreviation meta_at :: "string list \<Rightarrow> disk_tree \<Rightarrow> file_meta option" where
  "meta_at ns t \<equiv> map_option meta_of (node_at ns t)"

lemma meta_of_with_meta: "t \<noteq> OddNode \<Longrightarrow> meta_of (with_meta g t) = g (meta_of t)"
  by (cases t) simp_all

lemma bare_update:
  "map_of cs n = Some u \<Longrightarrow> bare v = bare u \<Longrightarrow>
    map (\<lambda>(n, t). (n, bare t)) (AList.update n v cs) = map (\<lambda>(n, t). (n, bare t)) cs"
  by (induction cs) auto

lemma meta_with_meta:
  "t \<noteq> OddNode \<Longrightarrow> meta_at ms (with_meta g t) = (if ms = [] then Some (g (meta_of t)) else meta_at ms t)"
  by (cases ms; cases t) simp_all

lemma touched:
  assumes "node_at ns t = Some a" "a \<noteq> OddNode" "f a = Some (with_meta g a)"
  shows "\<exists>u. at_names f ns t = Some u \<and> bare u = bare t
    \<and> (\<forall>ms. meta_at ms u = (if ms = ns then Some (g (meta_of a)) else meta_at ms t))"
  using assms
proof (induction ns t rule: node_at.induct)
  case (1 t)
  then show ?case by (auto simp: meta_with_meta)
next
  case (2 n ns t)
  then obtain m cs v where v: "t = DirNode m cs" "map_of cs n = Some v" "node_at ns v = Some a"
    by (auto split: disk_tree.splits option.splits simp: bind_eq_Some_conv)
  obtain w where w: "at_names f ns v = Some w" "bare w = bare v"
      "\<And>ms. meta_at ms w = (if ms = ns then Some (g (meta_of a)) else meta_at ms v)"
    using "2.IH" [OF v(1,2) v(3) 2(3,4)] by blast
  let ?u = "DirNode m (AList.update n w cs)"
  have "meta_at ms ?u = (if ms = n # ns then Some (g (meta_of a)) else meta_at ms t)" for ms
  proof (cases ms)
    case (Cons k ks)
    then show ?thesis using w(3) [of ks] v by (auto simp: update_conv')
  qed (simp add: v)
  moreover have "at_names f (n # ns) t = Some ?u" using v w by simp
  moreover have "bare ?u = bare t" using bare_update [OF v(2) w(2)] v(1) by simp
  ultimately show ?case by blast
qed

text \<open>At a place of the tree an entry is found, whatever place of a directory that is.\<close>

lemma on_entry_found:
  assumes "node_at ns t = Some a" "a \<noteq> OddNode" "f a = Some (with_meta g a)" "\<forall>n\<in>set ns. ok_name n" "is_directory t"
  shows "\<exists>u. on_entry e f (rel ns) t = Inr u \<and> bare u = bare t
    \<and> (\<forall>ms. meta_at ms u = (if ms = ns then Some (g (meta_of a)) else meta_at ms t))"
proof -
  let ?f = "\<lambda>u. if ns = [] \<and> \<not> is_directory u then None else f u"
  have "?f a = Some (with_meta g a)" using assms by auto
  from touched [where f = ?f and g = g, OF assms(1,2) this] obtain u where
    u: "at_names ?f ns t = Some u" "bare u = bare t" "\<forall>ms. meta_at ms u = (if ms = ns then Some (g (meta_of a)) else meta_at ms t)"
    by blast
  have "on_entry e f (rel ns) t = Inr u"
    using u(1) by (simp add: on_entry_def Let_def ok_or_def rel_separated [OF assms(4)] names_of_rel [OF assms(4)])
  with u(2,3) show ?thesis by blast
qed

section \<open>What the records say\<close>

fun kind_of :: "disk_tree \<Rightarrow> entry_kind" where
  "kind_of (FileNode m c) = FileKind"
| "kind_of (LinkNode m c) = SymlinkKind"
| "kind_of (DirNode m cs) = DirectoryKind"
| "kind_of OddNode = FileKind"

definition records :: "entry_record \<Rightarrow> string list \<Rightarrow> disk_tree \<Rightarrow> bool" where
  "records e ns a =
     (er_path e = hex (rel ns) \<and> er_kind e = kind_of a \<and> er_mode e = and (fm_mode (meta_of a)) 0xFFF
      \<and> er_uid e = fm_uid (meta_of a) \<and> er_gid e = fm_gid (meta_of a))"

text \<open>The records are those of the places, no more and no less.\<close>

definition complete :: "entry_record list \<Rightarrow> string list \<Rightarrow> disk_tree \<Rightarrow> bool" where
  "complete es ns t =
     ((\<forall>e\<in>set es. \<exists>ms a. node_at ms t = Some a \<and> records e (ns @ ms) a)
      \<and> (\<forall>ms a. node_at ms t = Some a \<longrightarrow> (\<exists>e\<in>set es. records e (ns @ ms) a)))"

lemma bind_Inr: "(res_bind r k = Inr y) = (\<exists>x. r = Inr x \<and> k x = Inr y)"
  by (cases r) (auto simp: res_bind_def)

lemma node_at_leaf: "\<not> is_directory t \<Longrightarrow> (node_at ms t = Some a) = (ms = [] \<and> a = t)"
  by (cases ms; cases t) (auto simp: is_directory_def)

lemma complete_leaf: "\<not> is_directory t \<Longrightarrow> records e ns t \<Longrightarrow> complete [e] ns t"
  by (auto simp: complete_def node_at_leaf)

lemma complete_directory:
  assumes d: "distinct (map fst cs)" and e: "records e ns (DirNode m cs)"
    and some: "\<And>x. x \<in> set es \<Longrightarrow> \<exists>(n, t)\<in>set cs. \<exists>ms a. node_at ms t = Some a \<and> records x (ns @ n # ms) a"
    and all: "\<And>n t ms a. (n, t) \<in> set cs \<Longrightarrow> node_at ms t = Some a \<Longrightarrow> \<exists>x\<in>set es. records x (ns @ n # ms) a"
  shows "complete (e # es) ns (DirNode m cs)"
  unfolding complete_def
proof (intro conjI ballI allI impI)
  fix x assume "x \<in> set (e # es)"
  then consider "x = e" | "x \<in> set es" by auto
  then show "\<exists>ms a. node_at ms (DirNode m cs) = Some a \<and> records x (ns @ ms) a"
  proof cases
    case 1
    then show ?thesis using e by (intro exI [of _ "[]"]) simp
  next
    case 2
    then obtain n t ms a where t: "(n, t) \<in> set cs" "node_at ms t = Some a" "records x (ns @ n # ms) a"
      using some by blast
    then show ?thesis using d by (intro exI [of _ "n # ms"]) simp
  qed
next
  fix ms a assume a: "node_at ms (DirNode m cs) = Some a"
  show "\<exists>x\<in>set (e # es). records x (ns @ ms) a"
  proof (cases ms)
    case Nil
    then show ?thesis using a e by simp
  next
    case (Cons n ks)
    then obtain t where "(n, t) \<in> set cs" "node_at ks t = Some a"
      using a by (auto simp: bind_eq_Some_conv dest: map_of_SomeD)
    then show ?thesis using all Cons by auto
  qed
qed

lemma copied:
  "wf_tree t \<Longrightarrow> copy_entry sha diag (rel ns) t = Inr (copy, es) \<Longrightarrow>
     complete es ns t \<and> bare t = copy \<and> (\<forall>p. clone_backup_entry p copy = Inr copy)
     \<and> (\<forall>p. inspect_entry sha p (rel ns) copy = Inr (content_records es))"
  "\<forall>(n, t)\<in>set cs. ok_name n \<and> wf_tree t \<Longrightarrow> copy_entries sha diag (rel ns) cs = Inr (copies, es) \<Longrightarrow>
     (\<forall>x\<in>set es. \<exists>(n, t)\<in>set cs. \<exists>ms a. node_at ms t = Some a \<and> records x (ns @ n # ms) a)
     \<and> (\<forall>n t ms a. (n, t) \<in> set cs \<longrightarrow> node_at ms t = Some a \<longrightarrow> (\<exists>x\<in>set es. records x (ns @ n # ms) a))
     \<and> map (\<lambda>(n, t). (n, bare t)) cs = copies \<and> (\<forall>p. clone_backup_entries p copies = Inr copies)
     \<and> (\<forall>p. inspect_entries sha p (rel ns) copies = Inr (content_records es))"
proof (induction sha diag "rel ns" t and sha diag "rel ns" cs arbitrary: ns copy es and ns copies es
    rule: copy_entry_copy_entries.induct)
  case (1 sha diag m c)
  then have es: "es = [entry_record_of (rel ns) FileKind m (of_nat (length c)) (Some (sha c)) None]" "copy = FileNode private_file c"
    by simp_all
  have "complete es ns (FileNode m c)"
    unfolding es by (rule complete_leaf) (simp_all add: is_directory_def records_def entry_record_of_def)
  then show ?case by (simp add: es content_records_def content_of_def entry_record_of_def)
next
  case (2 sha diag m target)
  then have es: "es = [entry_record_of (rel ns) SymlinkKind m 0 None (Some (hex target))]" "copy = LinkNode private_link target"
    by simp_all
  have "complete es ns (LinkNode m target)"
    unfolding es by (rule complete_leaf) (simp_all add: is_directory_def records_def entry_record_of_def)
  then show ?case by (simp add: es content_records_def content_of_def entry_record_of_def)
next
  case (3 sha diag m cs)
  then obtain ds fs where ds: "copy_entries sha diag (rel ns) cs = Inr (ds, fs)" "copy = DirNode private_dir ds"
      "es = entry_record_of (rel ns) DirectoryKind m 0 None None # fs"
    by (auto simp: bind_Inr)
  have wf: "distinct (map fst cs)" "\<forall>(n, t)\<in>set cs. ok_name n \<and> wf_tree t" using 3(2) by auto
  note ih = "3.hyps" [OF refl wf(2) ds(1)]
  have "complete es ns (DirNode m cs)"
    unfolding ds(3) by (rule complete_directory [OF wf(1)])
      (use ih in \<open>simp_all add: records_def entry_record_of_def\<close>)
  then show ?case using ih ds by (simp add: res_bind_def content_records_def content_of_def entry_record_of_def)
next
  case (4 sha diag)
  then show ?case by simp
next
  case (5 sha diag)
  then show ?case by (simp add: content_records_def)
next
  case (6 sha diag name t cs)
  then obtain c1 e1 c2 e2 where c: "copy_entry sha (path_join diag name) (rel (ns @ [name])) t = Inr (c1, e1)"
      "copy_entries sha diag (rel ns) cs = Inr (c2, e2)" "copies = (name, c1) # c2" "es = e1 @ e2"
    by (auto simp: bind_Inr)
  have wf: "ok_name name" "wf_tree t" "\<forall>(n, t)\<in>set cs. ok_name n \<and> wf_tree t" using 6(3) by auto
  note a = "6.hyps"(1) [OF _ wf(2) c(1)] and b = "6.hyps"(2) [OF refl wf(3) c(2)]
  have a: "complete e1 (ns @ [name]) t" "bare t = c1" "\<forall>p. clone_backup_entry p c1 = Inr c1"
      "\<forall>p. inspect_entry sha p (path_join (rel ns) name) c1 = Inr (content_records e1)"
    using a by simp_all
  have b: "\<forall>x\<in>set e2. \<exists>(n, t)\<in>set cs. \<exists>ms a. node_at ms t = Some a \<and> records x (ns @ n # ms) a"
      "\<forall>n t ms a. (n, t) \<in> set cs \<longrightarrow> node_at ms t = Some a \<longrightarrow> (\<exists>x\<in>set e2. records x (ns @ n # ms) a)"
      "map (\<lambda>(n, t). (n, bare t)) cs = c2" "\<forall>p. clone_backup_entries p c2 = Inr c2"
      "\<forall>p. inspect_entries sha p (rel ns) c2 = Inr (content_records e2)"
    using b c(1) by simp_all
  have "\<exists>(n, u)\<in>set ((name, t) # cs). \<exists>ms a. node_at ms u = Some a \<and> records x (ns @ n # ms) a" if x: "x \<in> set es" for x
  proof (cases "x \<in> set e1")
    case True
    then have "\<exists>ms a. node_at ms t = Some a \<and> records x (ns @ name # ms) a" using a(1) by (auto simp: complete_def)
    then show ?thesis by simp
  next
    case False
    then show ?thesis using x c(4) b(1) by auto
  qed
  moreover have "\<exists>x\<in>set es. records x (ns @ n # ms) d"
    if "(n, u) \<in> set ((name, t) # cs)" "node_at ms u = Some d" for n u ms d
    using that a(1) b(2) c(4) by (auto simp: complete_def) fastforce+
  moreover have "inspect_entries sha p (rel ns) copies = Inr (content_records es)" for p
    using a(4) b(5) c(3,4) by (simp add: res_bind_def content_records_def)
  moreover have "clone_backup_entries p copies = Inr copies" for p
    using a(3) b(4) c(3) by (simp add: res_bind_def)
  moreover have "map (\<lambda>(n, t). (n, bare t)) ((name, t) # cs) = copies" using a(2) b(3) c(3) by simp
  ultimately show ?case by blast
qed

section \<open>The restore\<close>

lemma fold_improves:
  assumes step: "\<And>e u. e \<in> set es \<Longrightarrow> I u \<Longrightarrow> \<exists>v. f e u = Inr v \<and> I v \<and> (\<forall>k. good k u \<or> k \<in> cured e \<longrightarrow> good k v)"
  shows "I u \<Longrightarrow> \<exists>v. fold_res f es u = Inr v \<and> I v \<and> (\<forall>k. good k u \<or> (\<exists>e\<in>set es. k \<in> cured e) \<longrightarrow> good k v)"
  using step
proof (induction es arbitrary: u)
  case (Cons e es)
  obtain v where v: "f e u = Inr v" "I v" "\<forall>k. good k u \<or> k \<in> cured e \<longrightarrow> good k v"
    using Cons.prems(2) [of e u] Cons.prems(1) by auto
  obtain w where w: "fold_res f es v = Inr w" "I w" "\<forall>k. good k v \<or> (\<exists>e\<in>set es. k \<in> cured e) \<longrightarrow> good k w"
    using Cons.IH [OF v(2)] Cons.prems(2) by (metis list.set_intros(2))
  show ?case using v w by (auto simp: res_bind_def)
qed simp

text \<open>At a place of the original, the owner or the mode of another tree is that of the original.\<close>

definition as_in :: "disk_tree \<Rightarrow> bool \<times> string list \<Rightarrow> disk_tree \<Rightarrow> bool" where
  "as_in t k u =
     (\<exists>m m'. meta_at (snd k) t = Some m \<and> meta_at (snd k) u = Some m'
       \<and> (if fst k then fm_uid m' = fm_uid m \<and> fm_gid m' = fm_gid m else fm_mode m' = fm_mode m))"

definition cured_by :: "disk_tree \<Rightarrow> bool \<Rightarrow> entry_record \<Rightarrow> (bool \<times> string list) set" where
  "cured_by t owner e =
     {(b, ns). \<exists>a. node_at ns t = Some a \<and> records e ns a
        \<and> (if owner then b \<or> er_kind e = FileKind else \<not> b \<and> er_kind e = DirectoryKind)}"

lemma rel_inj: "\<forall>n\<in>set ns. ok_name n \<Longrightarrow> \<forall>n\<in>set ms. ok_name n \<Longrightarrow> hex (rel ns) = hex (rel ms) \<Longrightarrow> ns = ms"
  by (metis names_of_rel sum.inject(2) unhex_hex)

lemma records_place:
  assumes "wf_tree t" "node_at ns t = Some a" "records e ns a" "node_at ms t = Some b" "records e ms b"
  shows "ms = ns \<and> b = a"
proof -
  have "ms = ns"
    using rel_inj [of ns ms] wf_place [OF assms(1,2)] wf_place [OF assms(1,4)] assms(3,5) by (simp add: records_def)
  then show ?thesis using assms by simp
qed

lemma place_of:
  assumes "wf_tree t" "bare u = bare t" "node_at ns t = Some a"
  shows "\<exists>b. node_at ns u = Some b \<and> b \<noteq> OddNode \<and> kind_of b = kind_of a \<and> ((\<exists>m c. b = LinkNode m c) = (kind_of a = SymlinkKind))"
proof -
  have "map_option bare (node_at ns u) = Some (bare a)"
    using assms by (metis node_at_bare option.simps(9))
  then obtain b where b: "node_at ns u = Some b" "bare b = bare a" by auto
  moreover have "a \<noteq> OddNode" using wf_place [OF assms(1,3)] by auto
  ultimately show ?thesis by (cases a; cases b) auto
qed

lemma owner_and_mode_set:
  assumes t: "wf_tree t" "is_directory t" and u: "bare u = bare t" and a: "node_at ns t = Some a" "records e ns a"
  shows "\<exists>v. apply_owner_and_file_mode e u = Inr v \<and> bare v = bare t
    \<and> (\<forall>k. as_in t k u \<or> k \<in> cured_by t True e \<longrightarrow> as_in t k v)"
proof -
  obtain b where b: "node_at ns u = Some b" "b \<noteq> OddNode" "kind_of b = kind_of a"
      "(\<exists>m c. b = LinkNode m c) = (kind_of a = SymlinkKind)"
    using place_of [OF t(1) u a(1)] by blast
  have names: "\<forall>n\<in>set ns. ok_name n" and wf: "wf_tree a" using wf_place [OF t(1) a(1)] by auto
  have dir: "is_directory u" using u t(2) by (cases t; cases u) (auto simp: is_directory_def)
  let ?owner = "fm_uid_update (\<lambda>_. er_uid e) \<circ> fm_gid_update (\<lambda>_. er_gid e)"
  have g: "(\<lambda>m. m\<lparr>fm_uid := er_uid e, fm_gid := er_gid e\<rparr>) = ?owner" by (simp add: fun_eq_iff)
  obtain v where v: "set_owner (er_uid e) (er_gid e) (rel ns) u = Inr v" "bare v = bare u"
      "\<forall>ms. meta_at ms v = (if ms = ns then Some (?owner (meta_of b)) else meta_at ms u)"
    using on_entry_found [OF b(1,2), where g = ?owner and f = "\<lambda>u. Some (with_meta ?owner u)", OF refl names dir]
    unfolding set_owner_def g by blast
  have p: "decode_relative (er_path e) = Inr (rel ns)" using a(2) names by (simp add: records_def decode_rel)
  have owner: "as_in t k v" if "as_in t k u \<or> k = (True, ns)" for k
    using that v(3) a b(1) by (cases k) (auto simp: as_in_def records_def)
  have cured: "k = (True, ns) \<or> k = (False, ns) \<and> er_kind e = FileKind" if "k \<in> cured_by t True e" for k
    using that records_place [OF t(1) a] by (cases k; cases "fst k") (auto simp: cured_by_def)
  show ?thesis
  proof (cases "er_kind e = FileKind")
    case False
    then have "apply_owner_and_file_mode e u = Inr v" using v(1) p by (simp add: apply_owner_and_file_mode_def res_bind_def)
    then show ?thesis using owner cured False v(2) u by metis
  next
    case True
    obtain b' where b': "node_at ns v = Some b'" "b' \<noteq> OddNode" "kind_of b' = kind_of a"
        "(\<exists>m c. b' = LinkNode m c) = (kind_of a = SymlinkKind)"
      using place_of [OF t(1) _ a(1), of v] v(2) u by auto
    have nolink: "(case b' of LinkNode _ _ \<Rightarrow> None | _ \<Rightarrow> Some (with_meta (fm_mode_update (\<lambda>_. er_mode e)) b'))
        = Some (with_meta (fm_mode_update (\<lambda>_. er_mode e)) b')"
      using b'(4) True a(2) by (cases b') (auto simp: records_def)
    have dir': "is_directory v" using v(2) dir by (cases u; cases v) (auto simp: is_directory_def)
    obtain w where w: "set_permissions ''restore file permissions'' (er_mode e) (rel ns) v = Inr w" "bare w = bare v"
        "\<forall>ms. meta_at ms w = (if ms = ns then Some ((meta_of b')\<lparr>fm_mode := er_mode e\<rparr>) else meta_at ms v)"
      using on_entry_found [OF b'(1,2), where g = "fm_mode_update (\<lambda>_. er_mode e)"
          and f = "\<lambda>u. case u of LinkNode _ _ \<Rightarrow> None | _ \<Rightarrow> Some (with_meta (fm_mode_update (\<lambda>_. er_mode e)) u)", OF nolink names dir']
      unfolding set_permissions_def by blast
    have "er_mode e = fm_mode (meta_of a)"
      using wf a(2) True by (cases a) (auto simp: records_def)
    then have mode: "as_in t k w" if "as_in t k v \<or> k = (False, ns)" for k
      using that w(3) a b'(1) by (cases k) (auto simp: as_in_def)
    have "apply_owner_and_file_mode e u = Inr w"
      using v(1) w(1) p True by (simp add: apply_owner_and_file_mode_def res_bind_def)
    then show ?thesis using owner mode cured v(2) w(2) u by metis
  qed
qed

lemma directory_mode_set:
  assumes t: "wf_tree t" "is_directory t" and u: "bare u = bare t" and a: "node_at ns t = Some a" "records e ns a"
    and e: "er_kind e = DirectoryKind"
  shows "\<exists>v. apply_directory_mode e u = Inr v \<and> bare v = bare t
    \<and> (\<forall>k. as_in t k u \<or> k \<in> cured_by t False e \<longrightarrow> as_in t k v)"
proof -
  obtain b where b: "node_at ns u = Some b" "b \<noteq> OddNode" "kind_of b = kind_of a"
      "(\<exists>m c. b = LinkNode m c) = (kind_of a = SymlinkKind)"
    using place_of [OF t(1) u a(1)] by blast
  have names: "\<forall>n\<in>set ns. ok_name n" and wf: "wf_tree a" using wf_place [OF t(1) a(1)] by auto
  have dir: "is_directory u" using u t(2) by (cases t; cases u) (auto simp: is_directory_def)
  have nolink: "(case b of LinkNode _ _ \<Rightarrow> None | _ \<Rightarrow> Some (with_meta (fm_mode_update (\<lambda>_. er_mode e)) b))
      = Some (with_meta (fm_mode_update (\<lambda>_. er_mode e)) b)"
    using b(4) e a(2) by (cases b) (auto simp: records_def)
  obtain w where w: "set_permissions ''restore directory permissions'' (er_mode e) (rel ns) u = Inr w" "bare w = bare u"
      "\<forall>ms. meta_at ms w = (if ms = ns then Some ((meta_of b)\<lparr>fm_mode := er_mode e\<rparr>) else meta_at ms u)"
    using on_entry_found [OF b(1,2), where g = "fm_mode_update (\<lambda>_. er_mode e)"
        and f = "\<lambda>u. case u of LinkNode _ _ \<Rightarrow> None | _ \<Rightarrow> Some (with_meta (fm_mode_update (\<lambda>_. er_mode e)) u)", OF nolink names dir]
    unfolding set_permissions_def by blast
  have "er_mode e = fm_mode (meta_of a)" using wf a(2) e by (cases a) (auto simp: records_def)
  then have mode: "as_in t k w" if "as_in t k u \<or> k = (False, ns)" for k
    using that w(3) a b(1) by (cases k) (auto simp: as_in_def)
  have cured: "k = (False, ns)" if "k \<in> cured_by t False e" for k
    using that records_place [OF t(1) a] by (cases k; cases "fst k") (auto simp: cured_by_def)
  have "apply_directory_mode e u = Inr w"
    using w(1) a(2) names by (simp add: apply_directory_mode_def res_bind_def records_def decode_rel)
  then show ?thesis using mode cured w(2) u by metis
qed

lemma metadata_restored:
  assumes t: "wf_tree t" "is_directory t" and es: "complete es [] t"
  shows "apply_source_metadata es (bare t) = Inr t"
proof -
  have every: "\<exists>ns a. node_at ns t = Some a \<and> records e ns a" if "e \<in> set es" for e
    using es that by (auto simp: complete_def)
  define dirs where "dirs = sort_key (\<lambda>e. - int (length (er_path e))) (filter (\<lambda>e. er_kind e = DirectoryKind) es)"
  have step: "\<exists>v. apply_owner_and_file_mode e u = Inr v \<and> bare v = bare t
      \<and> (\<forall>k. as_in t k u \<or> k \<in> cured_by t True e \<longrightarrow> as_in t k v)" if "e \<in> set es" "bare u = bare t" for e u
    using every [OF that(1)] owner_and_mode_set [OF t that(2)] by blast
  have "\<exists>v. fold_res apply_owner_and_file_mode es (bare t) = Inr v \<and> bare v = bare t
      \<and> (\<forall>k. as_in t k (bare t) \<or> (\<exists>e\<in>set es. k \<in> cured_by t True e) \<longrightarrow> as_in t k v)"
    by (rule fold_improves [where I = "\<lambda>u. bare u = bare t", OF step]) simp_all
  then obtain v where v: "fold_res apply_owner_and_file_mode es (bare t) = Inr v" "bare v = bare t"
      "\<And>k. as_in t k (bare t) \<or> (\<exists>e\<in>set es. k \<in> cured_by t True e) \<Longrightarrow> as_in t k v"
    by blast
  have step: "\<exists>w. apply_directory_mode e u = Inr w \<and> bare w = bare t
      \<and> (\<forall>k. as_in t k u \<or> k \<in> cured_by t False e \<longrightarrow> as_in t k w)" if "e \<in> set dirs" "bare u = bare t" for e u
    using every [of e] directory_mode_set [OF t that(2)] that(1) by (auto simp: dirs_def)
  have "\<exists>w. fold_res apply_directory_mode dirs v = Inr w \<and> bare w = bare t
      \<and> (\<forall>k. as_in t k v \<or> (\<exists>e\<in>set dirs. k \<in> cured_by t False e) \<longrightarrow> as_in t k w)"
    by (rule fold_improves [where I = "\<lambda>u. bare u = bare t", OF step]) (simp_all add: v(2))
  then obtain w where w: "fold_res apply_directory_mode dirs v = Inr w" "bare w = bare t"
      "\<And>k. as_in t k v \<or> (\<exists>e\<in>set dirs. k \<in> cured_by t False e) \<Longrightarrow> as_in t k w"
    by blast
  have "as_in t (b, ns) w" if a: "node_at ns t = Some a" for b ns a
  proof -
    obtain e where e: "e \<in> set es" "records e ns a" using es a unfolding complete_def by (metis append_Nil)
    have kind: "er_kind e = kind_of a" using e(2) by (simp add: records_def)
    consider "b \<or> kind_of a = FileKind" | "\<not> b" "kind_of a = DirectoryKind" | "\<not> b" "kind_of a = SymlinkKind"
      by (cases "kind_of a") auto
    then show ?thesis
    proof cases
      case 1
      then have "(b, ns) \<in> cured_by t True e" using a e kind by (auto simp: cured_by_def)
      then show ?thesis using v(3) w(3) e(1) by blast
    next
      case 2
      then have "(b, ns) \<in> cured_by t False e" "e \<in> set dirs" using a e kind by (auto simp: cured_by_def dirs_def)
      then show ?thesis using w(3) by blast
    next
      case 3
      then have "as_in t (b, ns) (bare t)"
        using wf_place [OF t(1) a] a by (cases a) (auto simp: as_in_def node_at_bare private_link_def)
      then show ?thesis using v(3) w(3) by blast
    qed
  qed
  then have place: "as_in t (True, ns) w" "as_in t (False, ns) w" if "node_at ns t = Some a" for ns a
    using that by simp_all
  have "meta_of a = meta_of b" if "node_at ns t = Some a" "node_at ns w = Some b" for ns a b
    using place [OF that(1)] that by (simp add: as_in_def file_meta.equality)
  then have "t = w" by (intro tree_eqI [OF t(1)]) (simp_all add: w(2))
  then show ?thesis using v(1) w(1) by (simp add: apply_source_metadata_def res_bind_def dirs_def)
qed

text \<open>A copy passes its inspection, whatever order the records are sorted into, and a restore of a directory
  gives the tree back.\<close>

lemma complete_sorted: "complete (sort_key f es) ns t = complete es ns t"
  by (simp add: complete_def)

lemma map_insort: "map f (insort_key (\<lambda>x. g (f x)) x xs) = insort_key g (f x) (map f xs)"
  by (induction xs) auto

lemma content_sorted: "sort_key cr_path (content_records es) = content_records (sort_key er_path es)"
proof -
  have "er_path = (\<lambda>e. cr_path (content_of e))" by (simp add: fun_eq_iff content_of_def)
  then have "insort_key cr_path (content_of a) (map content_of xs) = map content_of (insort_key er_path a xs)" for a xs
    using map_insort [of content_of cr_path a xs] by simp
  then show ?thesis by (induction es) (simp_all add: content_records_def)
qed

lemma copy_is_complete:
  assumes "wf_tree t" "copy_entry sha diag [] t = Inr (copy, es)"
  shows "copy = bare t" "complete (sort_key er_path es) [] t" "clone_backup_entry p copy = Inr copy"
    "inspect_tree sha p copy = Inr (content_records (sort_key er_path es))"
  using copied(1) [of t sha diag "[]" copy es] assms
  by (simp_all add: complete_sorted inspect_tree_def res_bind_def content_sorted)

lemma copies: "wf_tree t \<Longrightarrow> \<exists>copy es. copy_entry sha diag p t = Inr (copy, es)"
  "\<forall>(n, t)\<in>set cs. ok_name n \<and> wf_tree t \<Longrightarrow> \<exists>copies es. copy_entries sha diag p cs = Inr (copies, es)"
  by (induction sha diag p t and sha diag p cs rule: copy_entry_copy_entries.induct) (fastforce simp: res_bind_def)+

end
