(* ===== verification/Schema_Store.thy ===== *)
theory Schema_Store
  imports Schema_Tree Manifest Fallible_Actions
begin

text \<open>
  The files of a data migration (\<open>remagic-runner/src/data_schema/persistence.rs\<close>, \<open>backup/mod.rs\<close>,
  \<open>backup/restore.rs\<close>): the data of an application, the managed directory with the version record, the
  pending journal, the fence of the background writers and the snapshots, and the phase files. A system
  call takes the next answer of a script: it works, it fails with or without its effect, or the process
  dies in it, with or without the effect. A file that was not written by the runner is \<open>Inl\<close> its problem.
\<close>

section \<open>The files\<close>

type_synonym place = "component list"

record applied_schema =
  ap_format :: u32
  ap_app :: app_id
  ap_version :: u32
  ap_backup :: string

record pending_migration =
  pm_format :: u32
  pm_app :: app_id
  pm_from :: "u32 option"
  pm_to :: u32
  pm_backup :: string
  pm_paths :: "path list"

record source_record =
  sr_path :: path
  sr_existed :: bool
  sr_entries :: "entry_record list"

record backup_manifest =
  bm_format :: u32
  bm_app :: app_id
  bm_from :: "u32 option"
  bm_to :: u32
  bm_sources :: "source_record list"

text \<open>The copies have the numbers of their sources.\<close>

record backup =
  bk_manifest :: backup_manifest
  bk_copies :: "disk_tree option list"

type_synonym writes = "(path \<times> disk_tree option) list"

record schema_answer =
  sa_died :: bool
  sa_error :: "schema_error option"
  sa_effect :: bool
  sa_writes :: writes

record schema_files =
  f_script :: "schema_answer list"
  f_data :: "(place \<times> disk_tree) list"
  f_state :: "(schema_error + applied_schema) option"
  f_pending :: "(schema_error + pending_migration) option"
  f_ready :: "string option"
  f_backups :: "(string \<times> backup) list"
  f_staging :: nat
  f_prepared :: "u64 option"
  f_complete :: "u64 option"

type_synonym 'a sact = "(schema_files, schema_error, 'a) fallible"

definition data_at :: "path \<Rightarrow> schema_files \<Rightarrow> disk_tree option" where
  "data_at p d = map_of (f_data d) (path_components p)"

definition put_data :: "path \<Rightarrow> disk_tree option \<Rightarrow> schema_files \<Rightarrow> schema_files" where
  "put_data p t d =
     d\<lparr>f_data := (case t of None \<Rightarrow> AList.delete (path_components p) (f_data d)
                         | Some u \<Rightarrow> AList.update (path_components p) u (f_data d))\<rparr>"

definition put_all :: "writes \<Rightarrow> schema_files \<Rightarrow> schema_files" where
  "put_all ws d = fold (\<lambda>(p, t). put_data p t) ws d"

definition call_with ::
  "(schema_answer \<Rightarrow> schema_files \<Rightarrow> schema_files) \<Rightarrow> (schema_files \<Rightarrow> schema_files) \<Rightarrow> unit sact" where
  "call_with partial f d =
     (case f_script d of
        [] \<Rightarrow> (Done (), f d)
      | a # rest \<Rightarrow>
          let e = d\<lparr>f_script := rest\<rparr> in
          if sa_died a then (Died, if sa_effect a then f e else partial a e)
          else case sa_error a of
            Some x \<Rightarrow> (Failed x, if sa_effect a then f e else partial a e)
          | None \<Rightarrow> (Done (), f e))"

definition call :: "(schema_files \<Rightarrow> schema_files) \<Rightarrow> unit sact" where
  "call = call_with (\<lambda>_ d. d)"

text \<open>A call that only reads, or whose effect is not tracked.\<close>

definition io_call :: "unit sact" where
  "io_call = call (\<lambda>d. d)"

section \<open>The managed directory\<close>

definition STATE_FORMAT :: u32 where "STATE_FORMAT = 1"
definition PENDING_FORMAT :: u32 where "PENDING_FORMAT = 1"
definition BACKUP_FORMAT :: u32 where "BACKUP_FORMAT = 1"

definition safe_backup_name :: "string \<Rightarrow> bool" where
  "safe_backup_name v =
     (v \<noteq> [] \<and> length v \<le> 128 \<and> list_all (\<lambda>c. is_ascii_alphanumeric c \<or> c = CHR ''-'' \<or> c = CHR ''_'') v)"

definition safe_absolute_path :: "path \<Rightarrow> bool" where
  "safe_absolute_path p = (is_absolute p \<and> ParentDir \<notin> set (path_components p))"

definition read_applied :: "app_id \<Rightarrow> applied_schema option sact" where
  "read_applied a =
     io_seq io_call (io_bind (looking f_state) (\<lambda>r.
       case r of
         None \<Rightarrow> pure None
       | Some (Inl e) \<Rightarrow> giving_up e
       | Some (Inr s) \<Rightarrow>
           if ap_format s \<noteq> STATE_FORMAT \<or> ap_app s \<noteq> a \<or> ap_version s = 0 \<or> \<not> safe_backup_name (ap_backup s)
           then giving_up (InvalidState ''state identity, version, or backup reference is invalid'')
           else pure (Some s)))"

definition consistent_pending :: "app_id \<Rightarrow> pending_migration \<Rightarrow> bool" where
  "consistent_pending a p =
     (pm_format p = PENDING_FORMAT \<and> pm_app p = a \<and> pm_to p \<noteq> 0 \<and> pm_from p \<noteq> Some 0
      \<and> (case pm_from p of None \<Rightarrow> True | Some from \<Rightarrow> from < pm_to p)
      \<and> safe_backup_name (pm_backup p) \<and> list_all safe_absolute_path (pm_paths p))"

definition read_pending :: "app_id \<Rightarrow> pending_migration option sact" where
  "read_pending a =
     io_seq io_call (io_bind (looking f_pending) (\<lambda>r.
       case r of
         None \<Rightarrow> pure None
       | Some (Inl e) \<Rightarrow> giving_up e
       | Some (Inr p) \<Rightarrow>
           if \<not> consistent_pending a p
           then giving_up (InvalidState
             ''pending transaction identity, versions, paths, or backup reference are invalid'')
           else pure (Some p)))"

definition publish_pending :: "app_id \<Rightarrow> pending_migration \<Rightarrow> unit sact" where
  "publish_pending a p =
     io_seq (io_of (guard (\<not> consistent_pending a p) (InvalidState ''refusing to publish inconsistent pending transaction'')))
     (call (\<lambda>d. d\<lparr>f_pending := Some (Inr p)\<rparr>))"

definition clear_pending :: "unit sact" where
  "clear_pending = call (\<lambda>d. d\<lparr>f_pending := None\<rparr>)"

definition publish_state :: "app_id \<Rightarrow> applied_schema \<Rightarrow> unit sact" where
  "publish_state a s =
     io_seq (io_of (guard (ap_format s \<noteq> STATE_FORMAT \<or> ap_app s \<noteq> a \<or> ap_version s = 0)
                (InvalidState ''refusing to publish inconsistent state'')))
     (call (\<lambda>d. d\<lparr>f_state := Some (Inr s)\<rparr>))"

definition ready_text :: "app_id \<Rightarrow> u32 \<Rightarrow> string" where
  "ready_text a v = as_str a @ '':'' @ decimal (uint v) @ [char_of (10 :: nat)]"

definition publish_ready :: "app_id \<Rightarrow> u32 \<Rightarrow> unit sact" where
  "publish_ready a v =
     io_seq (io_of (guard (v = 0) (InvalidState ''refusing to publish a zero schema-ready version'')))
     (call (\<lambda>d. d\<lparr>f_ready := Some (ready_text a v)\<rparr>))"

definition clear_ready :: "unit sact" where
  "clear_ready = call (\<lambda>d. d\<lparr>f_ready := None\<rparr>)"

section \<open>Snapshots\<close>

definition transaction_name :: "u32 option \<Rightarrow> u32 \<Rightarrow> string" where
  "transaction_name from to =
     ''from-'' @ (case from of Some v \<Rightarrow> decimal (uint v) | None \<Rightarrow> ''new'') @ ''-to-'' @ decimal (uint to)"

definition load_snapshot :: "app_id \<Rightarrow> string \<Rightarrow> backup sact" where
  "load_snapshot a name =
     io_seq io_call (io_bind (looking (\<lambda>d. map_of (f_backups d) name)) (\<lambda>r.
       case r of
         None \<Rightarrow> giving_up (SchemaIo ''inspect backup manifest'')
       | Some b \<Rightarrow>
           io_seq (io_of (guard (bm_format (bk_manifest b) \<noteq> BACKUP_FORMAT \<or> bm_app (bk_manifest b) \<noteq> a)
                      (InvalidBackup ''backup format or application identity mismatch'')))
           (pure b)))"

definition load_named :: "app_id \<Rightarrow> string \<Rightarrow> backup sact" where
  "load_named a name =
     io_seq (io_of (guard (\<not> safe_backup_name name) (InvalidBackup ''pending transaction has an unsafe snapshot name'')))
    (io_seq io_call (load_snapshot a name))"

definition validate_identity :: "u32 option \<Rightarrow> u32 \<Rightarrow> path list \<Rightarrow> backup \<Rightarrow> schema_error + unit" where
  "validate_identity from to paths b =
     guard (bm_from (bk_manifest b) \<noteq> from \<or> bm_to (bk_manifest b) \<noteq> to
            \<or> map (path_components \<circ> sr_path) (bm_sources (bk_manifest b)) \<noteq> map path_components paths)
       (InvalidBackup ''existing transaction does not match the requested migration'')"

definition sources_of :: "backup \<Rightarrow> (source_record \<times> disk_tree option) list" where
  "sources_of b = zip (bm_sources (bk_manifest b)) (bk_copies b)"

definition verify_source :: "(string \<Rightarrow> string) \<Rightarrow> source_record \<times> disk_tree option \<Rightarrow> schema_error + unit" where
  "verify_source sha x =
     (let (s, copy) = x in
      if \<not> sr_existed s
      then guard (copy \<noteq> None) (InvalidBackup ''absent source unexpectedly has backup data'')
      else res_bind (ok_or copy (SchemaIo ''inspect backed-up object'')) (\<lambda>t.
           res_bind (inspect_tree sha (sr_path s) t) (\<lambda>actual.
           guard (actual \<noteq> content_records (sr_entries s)) (InvalidBackup ''backup content verification failed''))))"

definition verify :: "(string \<Rightarrow> string) \<Rightarrow> backup \<Rightarrow> unit sact" where
  "verify sha b = io_seq io_call (io_of (for_each (verify_source sha) (sources_of b)))"

text \<open>\<open>retire\<close>: the rename that takes the snapshot away; reclaiming its space is not tracked.\<close>

definition retire :: "string \<Rightarrow> unit sact" where
  "retire name = io_seq (call (\<lambda>d. d\<lparr>f_backups := AList.delete name (f_backups d)\<rparr>)) io_call"

definition remove_orphan_transaction :: "(string \<Rightarrow> string) \<Rightarrow> app_id \<Rightarrow> string \<Rightarrow> u32 option \<Rightarrow> u32 \<Rightarrow> unit sact" where
  "remove_orphan_transaction sha a name from to =
     io_seq io_call (io_bind (looking (\<lambda>d. map_of (f_backups d) name)) (\<lambda>r.
       if r = None then pure ()
       else
         io_bind (load_snapshot a name) (\<lambda>b.
         io_seq (io_of (guard (bm_from (bk_manifest b) \<noteq> from \<or> bm_to (bk_manifest b) \<noteq> to)
                    (InvalidBackup ''orphan snapshot identity does not match its transaction name'')))
        (io_seq (verify sha b) (retire name)))))"

definition capture_source :: "(string \<Rightarrow> string) \<Rightarrow> path \<Rightarrow> (source_record \<times> disk_tree option) sact" where
  "capture_source sha p =
     io_seq io_call (io_bind (looking (data_at p)) (\<lambda>r.
       case r of
         None \<Rightarrow> pure (\<lparr>sr_path = p, sr_existed = False, sr_entries = []\<rparr>, None)
       | Some t \<Rightarrow>
           io_bind (io_of (copy_entry sha p [] t)) (\<lambda>(copy, es).
           pure (\<lparr>sr_path = p, sr_existed = True, sr_entries = sort_key er_path es\<rparr>, Some copy))))"

fun capture_sources :: "(string \<Rightarrow> string) \<Rightarrow> path list \<Rightarrow> (source_record \<times> disk_tree option) list sact" where
  "capture_sources sha [] = pure []"
| "capture_sources sha (p # ps) =
     io_bind (capture_source sha p) (\<lambda>x. io_bind (capture_sources sha ps) (\<lambda>xs. pure (x # xs)))"

definition publish_snapshot :: "(string \<Rightarrow> string) \<Rightarrow> app_id \<Rightarrow> string \<Rightarrow> u32 option \<Rightarrow> u32 \<Rightarrow> path list \<Rightarrow> backup sact" where
  "publish_snapshot sha a name from to paths =
     io_bind (capture_sources sha paths) (\<lambda>captured.
     let b = \<lparr>bk_manifest = \<lparr>bm_format = BACKUP_FORMAT, bm_app = a, bm_from = from, bm_to = to, bm_sources = map fst captured\<rparr>,
              bk_copies = map snd captured\<rparr> in
     io_seq io_call
    (io_seq (verify sha b)
    (io_seq (call (\<lambda>d. d\<lparr>f_backups := AList.update name b (f_backups d), f_staging := f_staging d - 1\<rparr>))
    (io_seq io_call (load_snapshot a name)))))"

definition take_snapshot :: "(string \<Rightarrow> string) \<Rightarrow> app_id \<Rightarrow> u32 option \<Rightarrow> u32 \<Rightarrow> path list \<Rightarrow> (string \<times> backup) sact" where
  "take_snapshot sha a from to paths =
     io_seq (call (\<lambda>d. d\<lparr>f_staging := 0\<rparr>))
    (let name = transaction_name from to in
     io_seq (remove_orphan_transaction sha a name from to)
    (io_seq (call (\<lambda>d. d\<lparr>f_staging := f_staging d + 1\<rparr>))
    (io_bind (or_else (publish_snapshot sha a name from to paths) (\<lambda>e.
        io_seq (ignoring_result (call (\<lambda>d. d\<lparr>f_staging := f_staging d - 1\<rparr>))) (giving_up e))) (\<lambda>b.
     pure (name, b)))))"

section \<open>Restoring\<close>

text \<open>The removal of a tree may stop halfway.\<close>

definition remove_data :: "path \<Rightarrow> unit sact" where
  "remove_data p =
     call_with (\<lambda>a. put_all (filter (\<lambda>(q, _). path_eq q p) (sa_writes a))) (put_data p None)"

definition restore_source :: "(string \<Rightarrow> string) \<Rightarrow> source_record \<times> disk_tree option \<Rightarrow> unit sact" where
  "restore_source sha x =
     (let (s, copy) = x; p = sr_path s in
      io_seq io_call
     (if \<not> sr_existed s then io_seq (remove_data p) io_call
      else
        io_seq io_call (io_seq io_call
       (io_bind (io_of (res_bind (ok_or copy (SchemaIo ''inspect backup for restore'')) (clone_backup_entry p))) (\<lambda>staged.
        io_seq io_call
       (io_bind (io_of (apply_source_metadata (sr_entries s) staged)) (\<lambda>t.
        io_seq io_call
       (io_bind (io_of (inspect_tree sha p t)) (\<lambda>actual.
        io_seq (io_of (guard (actual \<noteq> content_records (sr_entries s)) (InvalidBackup ''restored data failed verification'')))
       (io_bind (looking (data_at p)) (\<lambda>current.
        io_seq (if current \<noteq> None then call (put_data p None) else pure ())
       (io_seq (or_else (call (put_data p (Some t))) (\<lambda>e.
            io_seq (if current \<noteq> None then ignoring_result (call (put_data p current)) else pure ()) (giving_up e)))
       (io_seq io_call io_call)))))))))))))"

definition restore :: "(string \<Rightarrow> string) \<Rightarrow> backup \<Rightarrow> unit sact" where
  "restore sha b = io_seq (verify sha b) (for_all (restore_source sha) (sources_of b))"

end
