(* ===== verification/Schema_Migration.thy ===== *)
theory Schema_Migration
  imports Schema_Store
begin

text \<open>
  The transaction that brings the data of an application to the version its manifest asks for
  (\<open>remagic-runner/src/data_schema.rs\<close>, \<open>process.rs\<close>). The migrator is a program of the application: what
  it does to the data when it succeeds is a parameter, what it has done when it fails or is killed is
  in the script.
\<close>

definition MANAGED_STATE_DIRECTORY :: string where "MANAGED_STATE_DIRECTORY = ''.remagic-schema''"

definition reject_recursive_backup :: "path \<Rightarrow> path list \<Rightarrow> schema_error + unit" where
  "reject_recursive_backup root paths =
     for_each (\<lambda>p. guard (path_starts_with root p \<or> path_starts_with p root) (RecursiveBackup root p)) paths"

type_synonym migration = "u32 option \<Rightarrow> u32 \<Rightarrow> (place \<Rightarrow> disk_tree option) \<Rightarrow> writes"

text \<open>\<open>run_migrator\<close>: opening and starting the program, then its run to an exit status, the deadline or
  the death of the runner, which kills its process group with it.\<close>

definition run_migrator :: "migration \<Rightarrow> u32 option \<Rightarrow> u32 \<Rightarrow> unit sact" where
  "run_migrator migrate from to =
     io_seq io_call (call_with (\<lambda>a. put_all (sa_writes a)) (\<lambda>d. put_all (migrate from to (map_of (f_data d))) d))"

definition publish_prepared :: "u64 option \<Rightarrow> unit sact" where
  "publish_prepared phases =
     (case phases of None \<Rightarrow> pure () | Some g \<Rightarrow> call (\<lambda>d. d\<lparr>f_prepared := Some g\<rparr>))"

definition publish_complete :: "u64 \<Rightarrow> unit sact" where
  "publish_complete g = call (\<lambda>d. d\<lparr>f_complete := Some g\<rparr>)"

definition publish_source_ready :: "app_id \<Rightarrow> u32 option \<Rightarrow> unit sact" where
  "publish_source_ready a version = (case version of Some v \<Rightarrow> publish_ready a v | None \<Rightarrow> clear_ready)"

definition is_committed :: "pending_migration \<Rightarrow> applied_schema option \<Rightarrow> bool" where
  "is_committed p applied =
     (case applied of None \<Rightarrow> False | Some s \<Rightarrow> ap_version s = pm_to p \<and> ap_backup s = pm_backup p)"

definition source_is_current :: "pending_migration \<Rightarrow> applied_schema option \<Rightarrow> bool" where
  "source_is_current p applied =
     (case (pm_from p, applied) of
        (None, None) \<Rightarrow> True
      | (Some v, Some s) \<Rightarrow> ap_version s = v
      | _ \<Rightarrow> False)"

definition recover_pending ::
  "(string \<Rightarrow> string) \<Rightarrow> app_id \<Rightarrow> path \<Rightarrow> applied_schema option \<Rightarrow> unit sact" where
  "recover_pending sha a root applied =
     io_bind (read_pending a) (\<lambda>r.
       case r of
         None \<Rightarrow> pure ()
       | Some p \<Rightarrow>
           io_seq (io_of (reject_recursive_backup root (pm_paths p)))
          (io_bind (load_named a (pm_backup p)) (\<lambda>b.
           io_seq (io_of (validate_identity (pm_from p) (pm_to p) (pm_paths p) b))
          (io_seq (verify sha b)
          (if is_committed p applied then io_seq (publish_ready a (pm_to p)) clear_pending
           else
             io_seq (io_of (guard (\<not> source_is_current p applied)
                        (InvalidState ''pending migration is incompatible with the applied schema state'')))
            (io_seq (restore sha b)
            (io_seq (publish_source_ready a (pm_from p))
            (io_seq clear_pending
            (retire (pm_backup p))))))))))"

text \<open>A migrator that fails: the data of the snapshot is put back before the error is reported.\<close>

definition undo_migration ::
  "(string \<Rightarrow> string) \<Rightarrow> app_id \<Rightarrow> u32 option \<Rightarrow> string \<times> backup \<Rightarrow> schema_error \<Rightarrow> unit sact" where
  "undo_migration sha a from nb e =
     io_bind (trying (restore sha (snd nb))) (\<lambda>r.
       case r of
         Inl x \<Rightarrow> giving_up (MigrationRestore e x)
       | Inr _ \<Rightarrow>
           io_seq (or_else (io_seq (publish_source_ready a from) (io_seq clear_pending (retire (fst nb))))
                    (\<lambda>x. giving_up (MigrationRestore e x)))
           (giving_up e))"

definition migrate_data ::
  "(string \<Rightarrow> string) \<Rightarrow> migration \<Rightarrow> app_id \<Rightarrow> data_schema \<Rightarrow> u64 option \<Rightarrow> u32 option \<Rightarrow> unit sact" where
  "migrate_data sha migrate a schema phases from =
     io_bind (take_snapshot sha a from (data_version schema) (backup_paths schema)) (\<lambda>nb.
     io_seq clear_ready
    (io_seq (publish_pending a \<lparr>pm_format = PENDING_FORMAT, pm_app = a, pm_from = from, pm_to = data_version schema,
                               pm_backup = fst nb, pm_paths = backup_paths schema\<rparr>)
    (io_seq (publish_prepared phases)
    (io_seq (case migrator schema of
               None \<Rightarrow> pure ()
             | Some _ \<Rightarrow> or_else (run_migrator migrate from (data_version schema)) (undo_migration sha a from nb))
    (io_seq (publish_state a \<lparr>ap_format = STATE_FORMAT, ap_app = a, ap_version = data_version schema, ap_backup = fst nb\<rparr>)
    (io_seq (publish_ready a (data_version schema))
    clear_pending))))))"

definition apply_at_with_phases ::
  "(string \<Rightarrow> string) \<Rightarrow> migration \<Rightarrow> app_id \<Rightarrow> data_schema \<Rightarrow> path \<Rightarrow> u64 option \<Rightarrow> unit sact" where
  "apply_at_with_phases sha migrate a schema root phases =
     io_seq (io_of (reject_recursive_backup root (backup_paths schema)))
    (io_seq io_call
    (io_seq io_call
    (io_bind (read_applied a) (\<lambda>applied.
     io_seq (recover_pending sha a root applied)
    (case applied of
       None \<Rightarrow> migrate_data sha migrate a schema phases None
     | Some s \<Rightarrow>
         if ap_version s = data_version schema
         then io_seq (publish_ready a (data_version schema)) (publish_prepared phases)
         else if data_version schema < ap_version s then giving_up (Downgrade (ap_version s) (data_version schema))
         else migrate_data sha migrate a schema phases (Some (ap_version s)))))))"

record execution_plan =
  pl_generation :: "u64 option"
  pl_environment :: "launch_environment option"

definition apply_schema ::
  "(string \<Rightarrow> string) \<Rightarrow> migration \<Rightarrow> profile_codec \<Rightarrow> app_manifest \<Rightarrow> execution_plan \<Rightarrow> unit sact" where
  "apply_schema sha migrate codec m plan =
     (case m_data_schema m of
        None \<Rightarrow> pure ()
      | Some schema \<Rightarrow>
          io_seq (io_of (guard (m_schema m \<noteq> MANIFEST_SCHEMA_V2) RequiresManifestV2))
         (io_bind (io_of (ok_or (pl_environment plan) schema_error.MissingLaunchEnvironment)) (\<lambda>env.
          io_seq (io_of (map_err (\<lambda>_. InvalidLaunchEnvironment ''launch environment was refused'') (environment_validate codec env)))
         (let root = path_join (state_home (env_directories env)) MANAGED_STATE_DIRECTORY in
          io_bind (io_of (ok_or (case pl_generation plan of Some g \<Rightarrow> if g \<noteq> 0 then Some g else None | None \<Rightarrow> None)
                     MissingLaunchGeneration)) (\<lambda>g.
          io_seq (apply_at_with_phases sha migrate (m_id m) schema root (Some g))
         (publish_complete g))))))"

end
