(* ===== verification/Schema_Safety.thy ===== *)
theory Schema_Safety
  imports Schema_Roundtrip Schema_Migration Action_Logic
begin

text \<open>
  The transaction of \<open>Schema_Migration\<close> keeps the data whole. The condition \<open>files\<close> says what is in the
  files, up to sets of possible values; the locale \<open>steady\<close> is what a condition needs for the rules of the
  calls. The invariant is \<open>sound\<close>: without a journal the data is whole for the recorded version; with one
  it becomes so when the snapshot is put back, or is so already when the new version is recorded.
\<close>

section \<open>Data\<close>

definition data_of :: "schema_files \<Rightarrow> place \<Rightarrow> disk_tree option" where
  "data_of d = map_of (f_data d)"

definition written :: "writes \<Rightarrow> (place \<Rightarrow> disk_tree option) \<Rightarrow> place \<Rightarrow> disk_tree option" where
  "written ws m = fold (\<lambda>(p, t) m. m(path_components p := t)) ws m"

definition wf_data :: "(place \<Rightarrow> disk_tree option) \<Rightarrow> bool" where
  "wf_data m = (\<forall>t\<in>ran m. wf_tree t)"

definition wf_object :: "disk_tree option \<Rightarrow> bool" where
  "wf_object t = (case t of None \<Rightarrow> True | Some u \<Rightarrow> wf_tree u)"

lemma data_put [simp]: "data_of (put_data p t d) = (data_of d)(path_components p := t)"
  by (cases t) (auto simp: data_of_def put_data_def update_conv' delete_conv')

lemma data_put_all [simp]: "data_of (put_all ws d) = written ws (data_of d)"
  unfolding put_all_def written_def by (induction ws arbitrary: d) auto

lemma put_all_files [simp]:
  "f_state (put_all ws d) = f_state d" "f_pending (put_all ws d) = f_pending d" "f_ready (put_all ws d) = f_ready d"
  "f_backups (put_all ws d) = f_backups d" "f_script (put_all ws d) = f_script d"
  "f_state (put_data p t d) = f_state d" "f_pending (put_data p t d) = f_pending d" "f_ready (put_data p t d) = f_ready d"
  "f_backups (put_data p t d) = f_backups d" "f_script (put_data p t d) = f_script d"
proof -
  show *: "f_state (put_data p t d) = f_state d" "f_pending (put_data p t d) = f_pending d" "f_ready (put_data p t d) = f_ready d"
    "f_backups (put_data p t d) = f_backups d" "f_script (put_data p t d) = f_script d" for p t d
    by (simp_all add: put_data_def)
  show "f_state (put_all ws d) = f_state d" "f_pending (put_all ws d) = f_pending d" "f_ready (put_all ws d) = f_ready d"
    "f_backups (put_all ws d) = f_backups d" "f_script (put_all ws d) = f_script d"
    unfolding put_all_def by (induction ws arbitrary: d; simp add: * case_prod_beta)+
qed

lemma data_other [simp]:
  "data_of (d\<lparr>f_script := x1\<rparr>) = data_of d" "data_of (d\<lparr>f_state := x2\<rparr>) = data_of d" "data_of (d\<lparr>f_pending := x3\<rparr>) = data_of d"
  "data_of (d\<lparr>f_ready := x4\<rparr>) = data_of d" "data_of (d\<lparr>f_backups := x5\<rparr>) = data_of d" "data_of (d\<lparr>f_staging := x6\<rparr>) = data_of d"
  "data_of (d\<lparr>f_prepared := x7\<rparr>) = data_of d" "data_of (d\<lparr>f_complete := x8\<rparr>) = data_of d"
  by (simp_all add: data_of_def)

lemma written_simps [simp]: "written [] m = m" "written ((p, t) # ws) m = written ws (m(path_components p := t))"
  by (simp_all add: written_def)

lemma written_at: "path_components p = k \<Longrightarrow> p \<in> fst ` set ws \<Longrightarrow> written ws (m(k := t)) = written ws m"
proof (induction ws arbitrary: m)
  case (Cons w ws)
  obtain q u where w: "w = (q, u)" by (cases w)
  show ?case
  proof (cases "path_components q = k")
    case True
    then show ?thesis by (simp only: w written_simps fun_upd_upd)
  next
    case False
    then have p: "p \<in> fst ` set ws" using Cons.prems w by auto
    have "(m(k := t))(path_components q := u) = (m(path_components q := u))(k := t)"
      using False by (metis fun_upd_twist)
    then show ?thesis using Cons.IH [OF Cons.prems(1) p] by (simp only: w written_simps)
  qed
qed simp

lemma written_over: "fst ` set vs \<subseteq> fst ` set ws \<Longrightarrow> written ws (written vs m) = written ws m"
proof (induction vs arbitrary: m)
  case (Cons v vs)
  then show ?case using written_at [OF refl, of "fst v" ws m "snd v"] by (cases v) simp
qed simp

lemma wf_data_put: "wf_data m \<Longrightarrow> wf_object t \<Longrightarrow> wf_data (m(k := t))"
  by (auto simp: wf_data_def wf_object_def ran_def split: option.splits if_splits)

lemma wf_data_at: "wf_data m \<Longrightarrow> wf_object (m k)"
  by (auto simp: wf_data_def wf_object_def ran_def split: option.splits)

lemma wf_data_written: "wf_data m \<Longrightarrow> \<forall>(p, t)\<in>set ws. wf_object t \<Longrightarrow> wf_data (written ws m)"
proof (induction ws arbitrary: m)
  case (Cons w ws)
  obtain p t where w: "w = (p, t)" by (cases w)
  then have "wf_data (m(path_components p := t))" using Cons.prems by (intro wf_data_put) auto
  then show ?case using Cons.IH Cons.prems(2) by (simp only: w written_simps) auto
qed simp

section \<open>Conditions on the files\<close>

text \<open>The migrator writes only where the manifest says.\<close>

definition obeys :: "path list \<Rightarrow> writes \<Rightarrow> bool" where
  "obeys ps ws = (\<forall>(p, t)\<in>set ws. p \<in> set ps \<and> wf_object t)"

definition obedient :: "path list \<Rightarrow> schema_files \<Rightarrow> bool" where
  "obedient ps d = (\<forall>a\<in>set (f_script d). obeys ps (sa_writes a))"

locale steady =
  fixes I :: "schema_files \<Rightarrow> bool"
  assumes script: "I d \<Longrightarrow> set s \<subseteq> set (f_script d) \<Longrightarrow> I (d\<lparr>f_script := s\<rparr>)"
begin

lemma called:
  assumes "\<And>d. I d \<Longrightarrow> Q () (f d)" "\<And>d. I d \<Longrightarrow> R (f d)"
    "\<And>a d s. I (d\<lparr>f_script := a # s\<rparr>) \<Longrightarrow> I (d\<lparr>f_script := s\<rparr>) \<Longrightarrow> R (partial a (d\<lparr>f_script := s\<rparr>))"
  shows "triple I (call_with partial f) Q R"
proof -
  have "case call_with partial f d of (Done x, t) \<Rightarrow> Q x t | (_, t) \<Rightarrow> R t" if d: "I d" for d
  proof (cases "f_script d")
    case (Cons a s)
    then have e: "I (d\<lparr>f_script := s\<rparr>)" using script [OF d, of s] by auto
    have "I (d\<lparr>f_script := a # s\<rparr>)" using script [OF d, of "a # s"] Cons by simp
    with e assms have "Q () (f (d\<lparr>f_script := s\<rparr>))" "R (f (d\<lparr>f_script := s\<rparr>))" "R (partial a (d\<lparr>f_script := s\<rparr>))"
      by blast+
    then show ?thesis using Cons by (auto simp: call_with_def Let_def split: option.splits)
  qed (use d assms(1) in \<open>simp add: call_with_def\<close>)
  then show ?thesis by (simp add: triple_def)
qed

lemma called_whole:
  assumes "\<And>d. I d \<Longrightarrow> Q () (f d)" "\<And>d. I d \<Longrightarrow> R (f d)" "\<And>d. I d \<Longrightarrow> R d"
  shows "triple I (call f) Q R"
  unfolding call_def by (rule called) (use assms in blast)+

lemma called_idle: "triple I io_call (\<lambda>_. I) I"
  unfolding io_call_def by (rule called_whole)

lemma seq_idle: "triple I m Q R \<Longrightarrow> (\<And>d. I d \<Longrightarrow> R d) \<Longrightarrow> triple I (io_seq io_call m) Q R"
  by (rule triple_seq [OF triple_weaken [OF called_idle]])

lemma maintains_idle: "maintains I io_call"
  unfolding maintains_def by (rule called_idle)

end

definition files ::
  "(schema_error + applied_schema) option \<Rightarrow> (schema_error + pending_migration) option \<Rightarrow> string option set
    \<Rightarrow> (string \<times> backup) list set \<Rightarrow> (place \<Rightarrow> disk_tree option) set \<Rightarrow> path list \<Rightarrow> schema_files \<Rightarrow> bool" where
  "files st pe RE BK MS ps d =
     (f_state d = st \<and> f_pending d = pe \<and> f_ready d \<in> RE \<and> f_backups d \<in> BK \<and> data_of d \<in> MS \<and> obedient ps d)"

interpretation files: steady "files st pe RE BK MS ps" for st pe RE BK MS ps
  by unfold_locales (auto simp: files_def obedient_def)

lemma files_mono:
  "files st pe RE BK MS ps d \<Longrightarrow> RE \<subseteq> RE' \<Longrightarrow> BK \<subseteq> BK' \<Longrightarrow> MS \<subseteq> MS' \<Longrightarrow> files st pe RE' BK' MS' ps d"
  by (auto simp: files_def)

section \<open>Snapshots\<close>

definition copy_of :: "(string \<Rightarrow> string) \<Rightarrow> source_record \<times> disk_tree option \<Rightarrow> disk_tree option \<Rightarrow> bool" where
  "copy_of sha x t =
     (let (s, c) = x in
      if sr_existed s
      then \<exists>u copy es. t = Some u \<and> wf_tree u \<and> copy_entry sha (sr_path s) [] u = Inr (copy, es)
             \<and> c = Some copy \<and> sr_entries s = sort_key er_path es
      else t = None \<and> c = None)"

text \<open>The objects a snapshot holds.\<close>

definition holds_copies :: "(string \<Rightarrow> string) \<Rightarrow> backup \<Rightarrow> writes \<Rightarrow> bool" where
  "holds_copies sha b os =
     list_all2 (\<lambda>x (p, t). p = sr_path (fst x) \<and> copy_of sha x t) (sources_of b) os"

lemma copy_of_wf: "copy_of sha x t \<Longrightarrow> wf_object t"
  by (auto simp: copy_of_def wf_object_def Let_def split: prod.splits if_splits)

text \<open>Owners and modes are set below the root of the copy with a trailing separator, which an object that is
  not a directory refuses.\<close>

lemma single_object_refused:
  assumes "\<not> is_directory t" "copy_entry sha diag [] t = Inr (copy, es)"
  shows "apply_source_metadata (sort_key er_path es) copy = Inl (SchemaIo ''restore data ownership'')"
proof -
  obtain e where e: "es = [e]" "er_path e = []" "\<not> is_directory copy"
    using assms by (cases t) (auto simp: is_directory_def entry_record_of_def)
  then have "set_owner (er_uid e) (er_gid e) [] copy = Inl (SchemaIo ''restore data ownership'')"
    by (simp add: set_owner_def on_entry_def path_join_def is_absolute_def names_of_def path_components_def Let_def ok_or_def)
  then show ?thesis
    using e by (simp add: apply_source_metadata_def apply_owner_and_file_mode_def decode_relative_def res_bind_def
        is_absolute_def path_components_def guard_def)
qed

lemma restored_is_original:
  assumes "wf_tree t" "copy_entry sha diag [] t = Inr (copy, es)" "apply_source_metadata (sort_key er_path es) copy = Inr u"
  shows "u = t"
proof (cases "is_directory t")
  case True
  then show ?thesis using metadata_restored [OF assms(1) True] copy_is_complete [OF assms(1,2)] assms(3) by simp
next
  case False
  then show ?thesis using single_object_refused [OF False assms(2)] assms(3) by simp
qed

section \<open>Restoring\<close>

lemma path_eq_iff: "path_eq p q = (path_components p = path_components q)"
  by (simp add: path_eq_def)

lemma torn_removal:
  assumes "m \<in> MS" "\<And>m t. m \<in> MS \<Longrightarrow> wf_object t \<Longrightarrow> m(path_components p := t) \<in> MS"
  shows "obeys ps ws \<Longrightarrow> written (filter (\<lambda>(q, _). path_eq q p) ws) m \<in> MS"
  using assms(1)
proof (induction ws arbitrary: m)
  case (Cons w ws)
  then show ?case using assms(2) by (cases w) (auto simp: obeys_def path_eq_iff)
qed simp

lemma restoring_source:
  assumes copy: "copy_of sha x t" and m: "m \<in> MS" and wf: "\<And>m. m \<in> MS \<Longrightarrow> wf_data m"
    and free: "\<And>m t. m \<in> MS \<Longrightarrow> wf_object t \<Longrightarrow> m(path_components (sr_path (fst x)) := t) \<in> MS"
  shows "triple (files st pe RE BK {m} ps) (restore_source sha x)
    (\<lambda>_. files st pe RE BK {m(path_components (sr_path (fst x)) := t)} ps) (files st pe RE BK MS ps)"
proof -
  obtain s c where x: "x = (s, c)" by (cases x)
  let ?p = "sr_path s" and ?k = "path_components (sr_path s)"
  let ?F = "\<lambda>M. files st pe RE BK M ps"
  have up: "?F MS d" if "?F {m} d" for d using that m by (auto simp: files_def)
  have all: "?F MS d" if "?F {m(?k := u)} d" "wf_object u" for u d
    using that free [OF m, of u] x by (auto simp: files_def)
  show ?thesis
  proof (cases "sr_existed s")
    case False
    then have t: "t = None" using copy x by (simp add: copy_of_def)
    have gone: "triple (?F {m}) (remove_data ?p) (\<lambda>_. ?F {m(?k := None)}) (?F MS)"
      unfolding remove_data_def
    proof (rule files.called)
      show "?F {m(?k := None)} (put_data ?p None d)" "?F MS (put_data ?p None d)" if "?F {m} d" for d
        using that free [OF m, of None] x by (auto simp: files_def obedient_def wf_object_def)
      show "?F MS (put_all (filter (\<lambda>(q, _). path_eq q ?p) (sa_writes a)) (d\<lparr>f_script := s'\<rparr>))"
        if "?F {m} (d\<lparr>f_script := a # s'\<rparr>)" "?F {m} (d\<lparr>f_script := s'\<rparr>)" for a d s'
        using that torn_removal [where p = ?p and MS = MS and ps = ps and ws = "sa_writes a", OF m] free x
        by (auto simp: files_def obedient_def)
    qed
    have last: "triple (?F {m(?k := None)}) io_call (\<lambda>_. ?F {m(?k := None)}) (?F MS)"
      by (rule triple_weaken [OF files.called_idle [of st pe RE BK "{m(?k := None)}" ps]]) (auto intro: all simp: wf_object_def)
    have run: "restore_source sha x = io_seq io_call (io_seq (remove_data ?p) io_call)"
      using False x by (simp add: restore_source_def)
    show ?thesis
      unfolding run unfolding x fst_conv t by (rule files.seq_idle [OF triple_seq [OF gone last] up])
  next
    case True
    then obtain u copy es where u: "t = Some u" "wf_tree u" "copy_entry sha ?p [] u = Inr (copy, es)" "c = Some copy"
        "sr_entries s = sort_key er_path es"
      using copy x by (auto simp: copy_of_def)
    have clone: "clone_backup_entry ?p copy = Inr copy" using copy_is_complete(3) [OF u(2,3)] .
    have same: "v = u" if "apply_source_metadata (sr_entries s) copy = Inr v" for v
      using restored_is_original [OF u(2,3)] that u(5) by simp
    have put: "triple (?F {m(?k := w)}) (or_else (call (put_data ?p (Some u))) (\<lambda>e.
            io_seq (if current \<noteq> None then ignoring_result (call (put_data ?p current)) else pure ()) (giving_up e)))
        (\<lambda>_. ?F {m(?k := Some u)}) (?F MS)" if w: "wf_object w" "wf_object current" for w current
    proof (rule triple_or_else [where R' = "?F MS"])
      show "triple (?F {m(?k := w)}) (call (put_data ?p (Some u))) (\<lambda>_. ?F {m(?k := Some u)}) (?F MS)"
        by (rule files.called_whole)
           (use u(2) w free [OF m] x in \<open>auto simp: files_def obedient_def wf_object_def\<close>)
      have "triple (?F MS) (call (put_data ?p current)) (\<lambda>_. ?F MS) (?F MS)"
        by (rule files.called_whole) (use w free x in \<open>auto simp: files_def obedient_def\<close>)
      then show "triple (?F MS) (io_seq (if current \<noteq> None then ignoring_result (call (put_data ?p current)) else pure ()) (giving_up e))
          (\<lambda>_. ?F {m(?k := Some u)}) (?F MS)" for e
        by (intro triple_seq [where Q = "?F MS"] triple_giving_up)
           (auto intro: triple_ignoring triple_pure)
    qed simp
    have last: "triple (?F {m(?k := Some u)}) (io_seq io_call io_call) (\<lambda>_. ?F {m(?k := Some u)}) (?F MS)"
      by (rule files.seq_idle, rule triple_weaken [OF files.called_idle [of st pe RE BK "{m(?k := Some u)}" ps]])
         (use u(2) in \<open>auto intro: all simp: wf_object_def\<close>)
    have aside: "triple (?F {m}) (if current \<noteq> None then call (put_data ?p None) else pure ())
        (\<lambda>_. ?F {m(?k := (if current \<noteq> None then None else m ?k))}) (?F MS)" for current
      by (cases "current = None")
         (auto intro!: triple_pure files.called_whole simp: files_def obedient_def wf_object_def m free [OF m, of None, unfolded x fst_conv])
    have rest: "triple (?F {m}) (io_bind (looking (data_at ?p)) (\<lambda>current.
        io_seq (if current \<noteq> None then call (put_data ?p None) else pure ())
       (io_seq (or_else (call (put_data ?p (Some u))) (\<lambda>e.
            io_seq (if current \<noteq> None then ignoring_result (call (put_data ?p current)) else pure ()) (giving_up e)))
       (io_seq io_call io_call)))) (\<lambda>_. ?F {m(?k := Some u)}) (?F MS)"
    proof (rule triple_bind [where Q = "\<lambda>current d. ?F {m} d \<and> current = m ?k"])
      show "triple (?F {m}) (looking (data_at ?p)) (\<lambda>current d. ?F {m} d \<and> current = m ?k) (?F MS)"
        by (rule triple_looking) (auto simp: files_def data_at_def data_of_def)
      have cur: "wf_object (m ?k)" using wf [OF m] wf_data_at by blast
      show "triple (\<lambda>d. ?F {m} d \<and> current = m ?k)
          (io_seq (if current \<noteq> None then call (put_data ?p None) else pure ())
         (io_seq (or_else (call (put_data ?p (Some u))) (\<lambda>e.
            io_seq (if current \<noteq> None then ignoring_result (call (put_data ?p current)) else pure ()) (giving_up e)))
         (io_seq io_call io_call))) (\<lambda>_. ?F {m(?k := Some u)}) (?F MS)" for current
        by (rule triple_fact_pre, rule triple_seq [OF aside], rule triple_seq [OF put last])
           (use cur in \<open>auto simp: wf_object_def\<close>)
    qed
    have cloned: "res_bind (ok_or c (SchemaIo ''inspect backup for restore'')) (clone_backup_entry ?p) = Inr copy"
      using u(4) clone by (simp add: ok_or_def res_bind_def)
    have "triple (?F {m}) (restore_source sha (s, c)) (\<lambda>_. ?F {m(?k := Some u)}) (?F MS)"
      unfolding restore_source_def Let_def prod.case cloned if_not_P [OF iffD2 [OF not_not True]]
    proof (rule files.seq_idle [OF files.seq_idle [OF files.seq_idle [OF triple_checked [OF files.seq_idle [OF triple_checked [OF
            files.seq_idle [OF triple_checked [OF triple_check [OF _ up] up] up] up] up] up] up] up] up])
      fix x1 v actual
      assume "Inr copy = Inr x1" and "apply_source_metadata (sr_entries s) x1 = Inr v"
      then have v: "v = u" using same by simp
      show "triple (?F {m}) (io_bind (looking (data_at ?p)) (\<lambda>current.
          io_seq (if current \<noteq> None then call (put_data ?p None) else pure ())
         (io_seq (or_else (call (put_data ?p (Some v))) (\<lambda>e.
            io_seq (if current \<noteq> None then ignoring_result (call (put_data ?p current)) else pure ()) (giving_up e)))
         (io_seq io_call io_call)))) (\<lambda>_. ?F {m(?k := Some u)}) (?F MS)"
        unfolding v by (rule rest)
    qed
    then show ?thesis using x u(1) by simp
  qed
qed

text \<open>Any way of overwriting the objects of the snapshot leaves what it restores.\<close>

definition restorable :: "writes \<Rightarrow> (place \<Rightarrow> disk_tree option) \<Rightarrow> (place \<Rightarrow> disk_tree option) set" where
  "restorable os M = {m. wf_data m \<and> written os m = M}"

lemma restorable_put: "m \<in> restorable os M \<Longrightarrow> p \<in> fst ` set os \<Longrightarrow> wf_object t \<Longrightarrow> m(path_components p := t) \<in> restorable os M"
  by (auto simp: restorable_def wf_data_put written_at)

lemma restoring_all:
  assumes "list_all2 (\<lambda>x (p, t). p = sr_path (fst x) \<and> copy_of sha x t) xs ws" "m \<in> restorable os M" "set ws \<subseteq> set os"
  shows "triple (files st pe RE BK {m} ps) (for_all (restore_source sha) xs) (\<lambda>_. files st pe RE BK {written ws m} ps)
    (files st pe RE BK (restorable os M) ps)"
  using assms
proof (induction xs ws arbitrary: m rule: list_all2_induct)
  case Nil
  then show ?case by (simp add: triple_pure)
next
  case (Cons x xs w ws)
  obtain p t where w: "w = (p, t)" "p = sr_path (fst x)" "copy_of sha x t" using Cons.hyps(1) by (cases w) auto
  have "p \<in> fst ` set os" using Cons.prems(2) w(1) by force
  then have free: "m'(path_components p := u) \<in> restorable os M" if "m' \<in> restorable os M" "wf_object u" for m' u
    using restorable_put that by blast
  have one: "triple (files st pe RE BK {m} ps) (restore_source sha x)
      (\<lambda>_. files st pe RE BK {m(path_components p := t)} ps) (files st pe RE BK (restorable os M) ps)"
    unfolding w(2) by (rule restoring_source [OF w(3) Cons.prems(1)]) (use free w(2) in \<open>auto simp: restorable_def\<close>)
  have "m(path_components p := t) \<in> restorable os M" using free Cons.prems(1) copy_of_wf [OF w(3)] by blast
  then have "triple (files st pe RE BK {m(path_components p := t)} ps) (for_all (restore_source sha) xs)
      (\<lambda>_. files st pe RE BK {written ws (m(path_components p := t))} ps) (files st pe RE BK (restorable os M) ps)"
    using Cons.IH Cons.prems(2) by simp
  from triple_seq [OF one this] show ?case by (simp only: for_all.simps w(1) written_simps)
qed

lemma restoring_snapshot:
  assumes "holds_copies sha b os"
  shows "triple (files st pe RE BK (restorable os M) ps) (restore sha b) (\<lambda>_. files st pe RE BK {M} ps)
    (files st pe RE BK (restorable os M) ps)"
  unfolding restore_def
proof (rule triple_seq)
  show "triple (files st pe RE BK (restorable os M) ps) (verify sha b) (\<lambda>_. files st pe RE BK (restorable os M) ps) (files st pe RE BK (restorable os M) ps)"
    unfolding verify_def by (rule files.seq_idle) (auto intro: triple_io_of)
  have "triple (files st pe RE BK {m} ps) (for_all (restore_source sha) (sources_of b))
      (\<lambda>_. files st pe RE BK {written os m} ps) (files st pe RE BK (restorable os M) ps)" if "m \<in> restorable os M" for m
    using restoring_all [OF _ that] assms by (simp add: holds_copies_def)
  then have "triple (files st pe RE BK {m} ps) (for_all (restore_source sha) (sources_of b))
      (\<lambda>_. files st pe RE BK {M} ps) (files st pe RE BK (restorable os M) ps)" if "m \<in> restorable os M" for m
    using that by (simp add: restorable_def)
  then show "triple (files st pe RE BK (restorable os M) ps) (for_all (restore_source sha) (sources_of b))
      (\<lambda>_. files st pe RE BK {M} ps) (files st pe RE BK (restorable os M) ps)"
    unfolding triple_def files_def by (metis (mono_tags, lifting) singletonI)
qed

section \<open>The invariant\<close>

definition applied_in :: "(schema_error + applied_schema) option \<Rightarrow> applied_schema option" where
  "applied_in st = (case st of Some (Inr s) \<Rightarrow> Some s | _ \<Rightarrow> None)"

definition version_of :: "(schema_error + applied_schema) option \<Rightarrow> u32 option" where
  "version_of st = map_option ap_version (applied_in st)"

definition recorded :: "app_id \<Rightarrow> (schema_error + applied_schema) option \<Rightarrow> bool" where
  "recorded a st =
     (case st of
        None \<Rightarrow> True
      | Some (Inl _) \<Rightarrow> False
      | Some (Inr s) \<Rightarrow> ap_format s = STATE_FORMAT \<and> ap_app s = a \<and> ap_version s \<noteq> 0 \<and> safe_backup_name (ap_backup s))"

text \<open>The fence of the background writers names the recorded version, or is down.\<close>

definition fences :: "app_id \<Rightarrow> (schema_error + applied_schema) option \<Rightarrow> string option set" where
  "fences a st = insert None (case version_of st of None \<Rightarrow> {} | Some v \<Rightarrow> {Some (ready_text a v)})"

definition journaled :: "(string \<Rightarrow> string) \<Rightarrow> app_id \<Rightarrow> pending_migration \<Rightarrow> backup \<Rightarrow> writes \<Rightarrow> bool" where
  "journaled sha a p b os =
     (consistent_pending a p \<and> holds_copies sha b os \<and> validate_identity (pm_from p) (pm_to p) (pm_paths p) b = Inr ()
      \<and> bm_format (bk_manifest b) = BACKUP_FORMAT \<and> bm_app (bk_manifest b) = a)"

definition sound ::
  "(string \<Rightarrow> string) \<Rightarrow> app_id \<Rightarrow> (u32 option \<Rightarrow> (place \<Rightarrow> disk_tree option) \<Rightarrow> bool) \<Rightarrow> schema_files \<Rightarrow> bool" where
  "sound sha a whole d =
     (wf_data (data_of d) \<and> recorded a (f_state d)
      \<and> (case f_pending d of
           None \<Rightarrow> whole (version_of (f_state d)) (data_of d) \<and> f_ready d \<in> fences a (f_state d)
         | Some (Inl _) \<Rightarrow> False
         | Some (Inr p) \<Rightarrow>
             (\<exists>b os. map_of (f_backups d) (pm_backup p) = Some b \<and> journaled sha a p b os
               \<and> (if is_committed p (applied_in (f_state d)) then whole (Some (pm_to p)) (data_of d)
                  else version_of (f_state d) = pm_from p \<and> wf_data (written os (data_of d))
                    \<and> whole (pm_from p) (written os (data_of d))))))"

abbreviation snapshots :: "string \<Rightarrow> backup \<Rightarrow> (string \<times> backup) list set" where
  "snapshots name b \<equiv> {bk. map_of bk name = Some b}"

lemma sound_idle:
  "recorded a st \<Longrightarrow> RE \<subseteq> fences a st \<Longrightarrow> (\<And>m. m \<in> MS \<Longrightarrow> wf_data m \<and> whole (version_of st) m)
    \<Longrightarrow> files st None RE BK MS ps d \<Longrightarrow> sound sha a whole d"
  by (auto simp: files_def sound_def)

lemma sound_undecided:
  assumes "recorded a st" "journaled sha a p b os" "\<not> is_committed p (applied_in st)" "version_of st = pm_from p"
    "wf_data M" "whole (pm_from p) M" "files st (Some (Inr p)) RE (snapshots (pm_backup p) b) (restorable os M) ps d"
  shows "sound sha a whole d"
  using assms by (auto simp: files_def sound_def restorable_def)

lemma sound_committed:
  assumes "recorded a st" "journaled sha a p b os" "is_committed p (applied_in st)"
    "\<And>m. m \<in> MS \<Longrightarrow> wf_data m \<and> whole (Some (pm_to p)) m" "files st (Some (Inr p)) RE (snapshots (pm_backup p) b) MS ps d"
  shows "sound sha a whole d"
  using assms by (auto simp: files_def sound_def)

end
