(* ===== verification/Schema_Atomic.thy ===== *)
theory Schema_Atomic
  imports Schema_Safety
begin

text \<open>
  Every step of the transaction keeps \<open>sound\<close>, however it ends: the recovery of a journal, the snapshot,
  the migration and its undoing, and the whole of \<open>apply\<close>.
\<close>

section \<open>Recovery\<close>

lemma triple_from: "(\<And>d. P d \<Longrightarrow> triple ((=) d) m Q R) \<Longrightarrow> triple P m Q R"
  by (simp add: triple_def)

lemma triple_known: "triple P m (\<lambda>x s. P s \<and> x = v) R \<Longrightarrow> triple P (f v) Q R \<Longrightarrow> triple P (io_bind m f) Q R"
  by (rule triple_bind [where Q = "\<lambda>x s. P s \<and> x = v"]) (simp_all add: triple_fact_pre)

lemma reading_pending:
  "triple (files st pe RE BK MS ps) (read_pending a)
     (\<lambda>r d. files st pe RE BK MS ps d \<and> (case pe of None \<Rightarrow> r = None | Some (Inl _) \<Rightarrow> False | Some (Inr p) \<Rightarrow> r = Some p))
     (files st pe RE BK MS ps)"
  unfolding read_pending_def
  by (rule files.seq_idle)
     (auto simp: triple_def io_bind_def looking_def pure_def giving_up_def files_def split: option.splits sum.splits)

lemma loading_snapshot:
  "triple (files st pe RE (snapshots name b) MS ps) (load_snapshot a name)
     (\<lambda>r d. files st pe RE (snapshots name b) MS ps d \<and> r = b) (files st pe RE (snapshots name b) MS ps)"
  unfolding load_snapshot_def
  by (rule files.seq_idle)
     (auto simp: triple_def io_bind_def io_seq_def io_of_def looking_def pure_def giving_up_def files_def split: sum.splits)

lemma loading_named:
  "triple (files st pe RE (snapshots name b) MS ps) (load_named a name)
     (\<lambda>r d. files st pe RE (snapshots name b) MS ps d \<and> r = b) (files st pe RE (snapshots name b) MS ps)"
  unfolding load_named_def
  by (rule triple_check [OF files.seq_idle [OF loading_snapshot]])

lemma verifying: "triple (files st pe RE BK MS ps) (verify sha b) (\<lambda>_. files st pe RE BK MS ps) (files st pe RE BK MS ps)"
  unfolding verify_def by (rule files.seq_idle) (auto intro: triple_io_of)

lemma publishing_ready:
  "(\<And>d. files st pe RE BK MS ps d \<Longrightarrow> R d) \<Longrightarrow> (\<And>d. files st pe {Some (ready_text a v)} BK MS ps d \<Longrightarrow> R d)
    \<Longrightarrow> triple (files st pe RE BK MS ps) (publish_ready a v) (\<lambda>_. files st pe {Some (ready_text a v)} BK MS ps) R"
  unfolding publish_ready_def
  by (rule triple_check [OF files.called_whole]) (auto simp: files_def obedient_def)

lemma clearing_ready:
  "(\<And>d. files st pe RE BK MS ps d \<Longrightarrow> R d) \<Longrightarrow> (\<And>d. files st pe {None} BK MS ps d \<Longrightarrow> R d)
    \<Longrightarrow> triple (files st pe RE BK MS ps) clear_ready (\<lambda>_. files st pe {None} BK MS ps) R"
  unfolding clear_ready_def by (rule files.called_whole) (auto simp: files_def obedient_def)

lemma publishing_source_ready:
  assumes "version_of st = v" "\<And>d. files st pe UNIV BK MS ps d \<Longrightarrow> R d"
  shows "triple (files st pe RE BK MS ps) (publish_source_ready a v) (\<lambda>_. files st pe (fences a st) BK MS ps) R"
proof -
  have up: "R d" if "files st pe RE' BK MS ps d" for RE' d using that assms(2) by (auto simp: files_def)
  show ?thesis
  proof (cases v)
    case None
    then show ?thesis
      using triple_weaken [OF clearing_ready [of st pe RE BK MS ps R] _ _, of "files st pe RE BK MS ps" "\<lambda>_. files st pe (fences a st) BK MS ps" R] up
      by (auto simp: publish_source_ready_def fences_def files_def)
  next
    case (Some w)
    then show ?thesis
      using triple_weaken [OF publishing_ready [of st pe RE BK MS ps R a w] _ _, of "files st pe RE BK MS ps" "\<lambda>_. files st pe (fences a st) BK MS ps" R] up assms(1)
      by (auto simp: publish_source_ready_def fences_def files_def)
  qed
qed

lemma clearing_pending:
  "(\<And>d. files st pe RE BK MS ps d \<Longrightarrow> R d) \<Longrightarrow> (\<And>d. files st None RE BK MS ps d \<Longrightarrow> R d)
    \<Longrightarrow> triple (files st pe RE BK MS ps) clear_pending (\<lambda>_. files st None RE BK MS ps) R"
  unfolding clear_pending_def by (rule files.called_whole) (auto simp: files_def obedient_def)

lemma retiring:
  assumes "\<And>d. files st None RE UNIV MS ps d \<Longrightarrow> R d"
  shows "triple (files st None RE BK MS ps) (retire name) (\<lambda>_. files st None RE UNIV MS ps) R"
proof -
  have idle: "triple (files st None RE UNIV MS ps) io_call (\<lambda>_. files st None RE UNIV MS ps) R"
    by (rule triple_weaken [OF files.called_idle [of st None RE UNIV MS ps]]) (use assms in auto)
  show ?thesis
    unfolding retire_def
    by (rule triple_seq [OF files.called_whole idle]) (use assms in \<open>auto simp: files_def obedient_def\<close>)
qed

text \<open>What remains of a migration that did not happen: the snapshot is put back and the journal removed.\<close>

lemma rolling_migration_back:
  assumes st: "recorded a st" "journaled sha a p b os" "\<not> is_committed p (applied_in st)" "version_of st = pm_from p"
    and M: "wf_data M" "whole (pm_from p) M"
  shows "triple (files st (Some (Inr p)) RE (snapshots (pm_backup p) b) (restorable os M) ps) (restore sha b)
      (\<lambda>_. files st (Some (Inr p)) RE (snapshots (pm_backup p) b) {M} ps) (sound sha a whole)"
proof -
  have h: "holds_copies sha b os" using st(2) by (simp add: journaled_def)
  show ?thesis
    by (rule triple_weaken [OF restoring_snapshot [OF h]]) (auto intro: sound_undecided [where whole = whole, OF st M])
qed

lemma migration_rolled_back:
  assumes st: "recorded a st" "journaled sha a p b os" "\<not> is_committed p (applied_in st)" "version_of st = pm_from p"
    and M: "M \<in> restorable os M" "whole (pm_from p) M"
  shows "triple (files st (Some (Inr p)) RE (snapshots (pm_backup p) b) {M} ps)
      (io_seq (publish_source_ready a (pm_from p)) (io_seq clear_pending (retire (pm_backup p))))
      (\<lambda>_. files st None (fences a st) UNIV {M} ps) (sound sha a whole)"
proof -
  have wf: "wf_data M" using M(1) by (simp add: restorable_def)
  have bad: "sound sha a whole d" if "files st (Some (Inr p)) RE' (snapshots (pm_backup p) b) {M} ps d" for RE' d
    by (rule sound_undecided [where whole = whole, OF st wf M(2) files_mono [OF that subset_refl subset_refl]]) (use M(1) in simp)
  have settled: "sound sha a whole d" if "files st None (fences a st) BK {M} ps d" for BK d
    by (rule sound_idle [where whole = whole, OF st(1) subset_refl _ that]) (use wf M(2) st(4) in auto)
  show ?thesis
    by (rule triple_seq [OF publishing_source_ready [OF st(4) bad] triple_seq [OF clearing_pending [OF bad settled] retiring [OF settled]]])
qed

definition settled ::
  "app_id \<Rightarrow> (u32 option \<Rightarrow> (place \<Rightarrow> disk_tree option) \<Rightarrow> bool) \<Rightarrow> (schema_error + applied_schema) option \<Rightarrow> path list
    \<Rightarrow> schema_files \<Rightarrow> bool" where
  "settled a whole st = files st None (fences a st) UNIV {m. wf_data m \<and> whole (version_of st) m}"

lemma settled_sound: "recorded a st \<Longrightarrow> settled a whole st ps d \<Longrightarrow> sound sha a whole d"
  unfolding settled_def by (rule sound_idle [OF _ subset_refl]) auto

lemma recovering_schema:
  "triple (\<lambda>d. sound sha a whole d \<and> obedient ps d \<and> f_state d = st) (recover_pending sha a root (applied_in st))
    (\<lambda>_. settled a whole st ps) (sound sha a whole)"
proof (rule triple_from)
  fix d assume d: "sound sha a whole d \<and> obedient ps d \<and> f_state d = st"
  then have st: "recorded a st" by (auto simp: sound_def)
  show "triple ((=) d) (recover_pending sha a root (applied_in st)) (\<lambda>_. settled a whole st ps) (sound sha a whole)"
  proof (cases "f_pending d")
    case None
    then have at: "settled a whole st ps d" using d by (auto simp: settled_def files_def sound_def)
    have "triple (settled a whole st ps) (recover_pending sha a root (applied_in st)) (\<lambda>_. settled a whole st ps) (settled a whole st ps)"
      unfolding recover_pending_def settled_def
      by (rule triple_bind [OF reading_pending]) (auto simp: triple_def pure_def)
    then show ?thesis by (rule triple_weaken) (use at settled_sound [OF st] in auto)
  next
    case (Some r)
    then obtain p b os where p: "f_pending d = Some (Inr p)" "map_of (f_backups d) (pm_backup p) = Some b" "journaled sha a p b os"
      and data: "if is_committed p (applied_in st) then whole (Some (pm_to p)) (data_of d)
          else version_of st = pm_from p \<and> wf_data (written os (data_of d)) \<and> whole (pm_from p) (written os (data_of d))"
      and wf: "wf_data (data_of d)"
      using d by (cases r) (auto simp: sound_def)
    define M where "M = written os (data_of d)"
    define MS where "MS = (if is_committed p (applied_in st) then {m. wf_data m \<and> whole (Some (pm_to p)) m} else restorable os M)"
    let ?F = "files st (Some (Inr p)) UNIV (snapshots (pm_backup p) b) MS ps"
    have at: "?F d" using d p wf data by (auto simp: files_def MS_def M_def restorable_def)
    have bad: "sound sha a whole e" if "?F e" for e
    proof (cases "is_committed p (applied_in st)")
      case True
      then show ?thesis by (intro sound_committed [OF st p(3) _ _ that]) (auto simp: MS_def)
    next
      case False
      then show ?thesis using data that
        by (intro sound_undecided [where whole = whole and M = M and RE = UNIV and ps = ps, OF st p(3)]) (auto simp: MS_def M_def)
    qed
    have commit: "triple ?F (io_seq (publish_ready a (pm_to p)) clear_pending) (\<lambda>_. settled a whole st ps) (sound sha a whole)"
      if c: "is_committed p (applied_in st)"
    proof -
      have v: "version_of st = Some (pm_to p)" using c by (auto simp: is_committed_def version_of_def split: option.splits)
      have ready: "settled a whole st ps e" if "files st None {Some (ready_text a (pm_to p))} (snapshots (pm_backup p) b) MS ps e" for e
        using that v c by (auto simp: settled_def files_def fences_def MS_def)
      have up: "?F e" if "files st (Some (Inr p)) {Some (ready_text a (pm_to p))} (snapshots (pm_backup p) b) MS ps e" for e
        using that by (auto simp: files_def)
      show ?thesis
        by (rule triple_seq [OF publishing_ready [OF bad bad [OF up]] triple_weaken [OF clearing_pending [OF bad [OF up]
              settled_sound [OF st ready]]]]) (auto intro: ready)
    qed
    have undo: "triple ?F (io_seq (restore sha b) (io_seq (publish_source_ready a (pm_from p)) (io_seq clear_pending (retire (pm_backup p)))))
        (\<lambda>_. settled a whole st ps) (sound sha a whole)" if c: "\<not> is_committed p (applied_in st)"
    proof -
      have v: "version_of st = pm_from p" and wM: "wf_data M" and M: "whole (pm_from p) M" using data c by (auto simp: M_def)
      have own: "M \<in> restorable os M" using wM by (simp add: restorable_def M_def written_over)
      have MS: "MS = restorable os M" using c by (simp add: MS_def)
      show ?thesis
        unfolding MS
        by (rule triple_seq [OF rolling_migration_back [where whole = whole, OF st p(3) c v wM M] triple_weaken [OF migration_rolled_back [where whole = whole, OF st p(3) c v own M]]])
           (use wM M v in \<open>auto simp: settled_def files_def\<close>)
    qed
    have read: "triple ?F (read_pending a) (\<lambda>r e. ?F e \<and> r = Some p) (sound sha a whole)"
      by (rule triple_weaken [OF reading_pending]) (auto intro: bad)
    have load: "triple ?F (load_named a (pm_backup p)) (\<lambda>x e. ?F e \<and> x = b) (sound sha a whole)"
      by (rule triple_weaken [OF loading_named]) (auto intro: bad)
    have check: "triple ?F (verify sha b) (\<lambda>_. ?F) (sound sha a whole)"
      by (rule triple_weaken [OF verifying]) (auto intro: bad)
    have "triple ?F (recover_pending sha a root (applied_in st)) (\<lambda>_. settled a whole st ps) (sound sha a whole)"
      unfolding recover_pending_def
      by (rule triple_known [OF read], unfold option.case, rule triple_check, rule triple_known [OF load],
          rule triple_check [OF triple_seq [OF check triple_if [OF commit triple_check [OF undo]]]])
         (auto intro: bad)
    then show ?thesis by (rule triple_weaken) (use at in auto)
  qed
qed

section \<open>Snapshots\<close>

definition objects :: "(place \<Rightarrow> disk_tree option) \<Rightarrow> path list \<Rightarrow> writes" where
  "objects M paths = map (\<lambda>p. (p, M (path_components p))) paths"

lemma written_own: "\<forall>(p, t)\<in>set ws. M (path_components p) = t \<Longrightarrow> written ws M = M"
proof (induction ws)
  case (Cons w ws)
  obtain p t where w: "w = (p, t)" by (cases w)
  then have "M(path_components p := t) = M" using Cons.prems by (intro fun_upd_idem) simp
  then show ?case using Cons by (simp only: w written_simps) simp
qed simp

lemma objects_restorable: "wf_data M \<Longrightarrow> M \<in> restorable (objects M paths) M"
  using written_own [of "objects M paths" M] by (auto simp: restorable_def objects_def)

lemma objects_overwritten:
  assumes "m \<in> restorable (objects M ps) M" "obeys ps ws"
  shows "written ws m \<in> restorable (objects M ps) M"
  using assms
proof (induction ws arbitrary: m)
  case (Cons w ws)
  obtain p t where w: "w = (p, t)" by (cases w)
  have "p \<in> fst ` set (objects M ps)" "wf_object t" using Cons.prems(2) w by (force simp: obeys_def objects_def)+
  then have "m(path_components p := t) \<in> restorable (objects M ps) M" using restorable_put [OF Cons.prems(1)] by blast
  then show ?case using Cons.IH Cons.prems(2) by (simp only: w written_simps) (simp add: obeys_def)
qed simp

definition snapshot_holds ::
  "(string \<Rightarrow> string) \<Rightarrow> app_id \<Rightarrow> u32 option \<Rightarrow> u32 \<Rightarrow> path list \<Rightarrow> (place \<Rightarrow> disk_tree option) \<Rightarrow> backup \<Rightarrow> bool" where
  "snapshot_holds sha a from to paths M b =
     (holds_copies sha b (objects M paths) \<and> validate_identity from to paths b = Inr ()
      \<and> bm_format (bk_manifest b) = BACKUP_FORMAT \<and> bm_app (bk_manifest b) = a)"

lemma capturing_source:
  assumes "wf_data M"
  shows "triple (files st pe RE BK {M} ps) (capture_source sha p)
    (\<lambda>x d. files st pe RE BK {M} ps d \<and> p = sr_path (fst x) \<and> copy_of sha x (M (path_components p))) (files st pe RE BK {M} ps)"
  unfolding capture_source_def
proof (rule files.seq_idle [OF triple_known [where v = "M (path_components p)"]])
  show "triple (files st pe RE BK {M} ps) (looking (data_at p))
      (\<lambda>x s. files st pe RE BK {M} ps s \<and> x = M (path_components p)) (files st pe RE BK {M} ps)"
    by (rule triple_looking) (auto simp: files_def data_at_def data_of_def)
  show "triple (files st pe RE BK {M} ps)
     (case M (path_components p) of
        None \<Rightarrow> pure (\<lparr>sr_path = p, sr_existed = False, sr_entries = []\<rparr>, None)
      | Some t \<Rightarrow>
          io_bind (io_of (copy_entry sha p [] t)) (\<lambda>(copy, es).
          pure (\<lparr>sr_path = p, sr_existed = True, sr_entries = sort_key er_path es\<rparr>, Some copy)))
     (\<lambda>x d. files st pe RE BK {M} ps d \<and> p = sr_path (fst x) \<and> copy_of sha x (M (path_components p))) (files st pe RE BK {M} ps)"
  proof (cases "M (path_components p)")
    case None
    then show ?thesis by (auto intro: triple_pure simp: copy_of_def)
  next
    case (Some t)
    then have "wf_tree t" using assms by (auto simp: wf_data_def ran_def)
    with Some show ?thesis
      by (simp only: option.case) (rule triple_checked, auto intro!: triple_pure simp: copy_of_def)
  qed
qed simp

lemma capturing_sources:
  assumes "wf_data M"
  shows "triple (files st pe RE BK {M} ps) (capture_sources sha paths)
    (\<lambda>xs d. files st pe RE BK {M} ps d \<and> list_all2 (\<lambda>x (p, t). p = sr_path (fst x) \<and> copy_of sha x t) xs (objects M paths))
    (files st pe RE BK {M} ps)"
proof (induction paths)
  case Nil
  show ?case by (auto intro: triple_pure simp: objects_def)
next
  case (Cons p paths)
  show ?case
    unfolding capture_sources.simps
  proof (rule triple_bind [OF capturing_source [OF assms]], rule triple_fact_pre, rule triple_bind [OF Cons.IH], rule triple_fact_pre)
    fix x xs
    assume "p = sr_path (fst x) \<and> copy_of sha x (M (path_components p))"
      "list_all2 (\<lambda>x (p, t). p = sr_path (fst x) \<and> copy_of sha x t) xs (objects M paths)"
    then show "triple (files st pe RE BK {M} ps) (pure (x # xs))
        (\<lambda>xs d. files st pe RE BK {M} ps d \<and> list_all2 (\<lambda>x (p, t). p = sr_path (fst x) \<and> copy_of sha x t) xs (objects M (p # paths)))
        (files st pe RE BK {M} ps)"
      by (intro triple_pure) (auto simp: objects_def)
  qed
qed

lemma removing_orphan:
  "maintains (files st None RE UNIV MS ps) (remove_orphan_transaction sha a name from to)"
proof -
  have "maintains (files st None RE UNIV MS ps) (load_snapshot a name)"
    unfolding load_snapshot_def
    by (intro maintain files.maintains_idle)
  moreover have "maintains (files st None RE UNIV MS ps) (verify sha b)" for b
    unfolding maintains_def by (rule verifying)
  moreover have "maintains (files st None RE UNIV MS ps) (retire name)"
    unfolding maintains_def by (rule retiring)
  ultimately show ?thesis
    unfolding remove_orphan_transaction_def by (intro maintain files.maintains_idle)
qed

lemma publishing_snapshot:
  assumes "wf_data M"
  shows "triple (files st None RE UNIV {M} ps) (publish_snapshot sha a name from to paths)
    (\<lambda>b d. files st None RE (snapshots name b) {M} ps d \<and> snapshot_holds sha a from to paths M b) (files st None RE UNIV {M} ps)"
  unfolding publish_snapshot_def
proof (rule triple_bind [OF capturing_sources [OF assms]], rule triple_fact_pre)
  fix captured
  let ?b = "\<lparr>bk_manifest = \<lparr>bm_format = BACKUP_FORMAT, bm_app = a, bm_from = from, bm_to = to, bm_sources = map fst captured\<rparr>,
              bk_copies = map snd captured\<rparr>"
  let ?F = "\<lambda>BK. files st None RE BK {M} ps"
  assume c: "list_all2 (\<lambda>x (p, t). p = sr_path (fst x) \<and> copy_of sha x t) captured (objects M paths)"
  have "map (sr_path \<circ> fst) captured = paths"
    using c by (induction captured paths rule: list_induct2') (auto simp: objects_def)
  then have p: "map (path_components \<circ> sr_path) (map fst captured) = map path_components paths"
    by (metis (no_types, lifting) list.map_comp)
  have holds: "snapshot_holds sha a from to paths M ?b"
    using c p by (simp add: snapshot_holds_def holds_copies_def sources_of_def zip_map_fst_snd validate_identity_def guard_def)
  have up: "?F UNIV d" if "?F BK d" for BK d using that by (auto simp: files_def)
  have keep: "triple (?F UNIV) (call (\<lambda>d. d\<lparr>f_backups := AList.update name ?b (f_backups d), f_staging := f_staging d - 1\<rparr>))
      (\<lambda>_. ?F (snapshots name ?b)) (?F UNIV)"
    by (rule files.called_whole) (auto simp: files_def obedient_def update_conv')
  have load: "triple (?F (snapshots name ?b)) (io_seq io_call (load_snapshot a name))
      (\<lambda>b d. ?F (snapshots name b) d \<and> snapshot_holds sha a from to paths M b) (?F UNIV)"
    by (rule triple_weaken [OF files.seq_idle [OF loading_snapshot]]) (use up holds in auto)
  show "triple (?F UNIV)
     (let b = ?b in
     io_seq io_call
    (io_seq (verify sha b)
    (io_seq (call (\<lambda>d. d\<lparr>f_backups := AList.update name b (f_backups d), f_staging := f_staging d - 1\<rparr>))
    (io_seq io_call (load_snapshot a name)))))
    (\<lambda>b d. ?F (snapshots name b) d \<and> snapshot_holds sha a from to paths M b) (?F UNIV)"
    unfolding Let_def by (rule files.seq_idle [OF triple_seq [OF verifying triple_seq [OF keep load]]])
qed

lemma snapping:
  assumes "wf_data M"
  shows "triple (files st None RE UNIV {M} ps) (take_snapshot sha a from to paths)
    (\<lambda>(name, b) d. files st None RE (snapshots name b) {M} ps d \<and> snapshot_holds sha a from to paths M b
       \<and> name = transaction_name from to)
    (files st None RE UNIV {M} ps)"
proof -
  let ?F = "files st None RE UNIV {M} ps"
  have stages: "triple ?F (call (\<lambda>d. d\<lparr>f_staging := g (f_staging d)\<rparr>)) (\<lambda>_. ?F) ?F" for g :: "nat \<Rightarrow> nat"
    by (rule files.called_whole) (auto simp: files_def obedient_def)
  have undo: "triple ?F (io_seq (ignoring_result (call (\<lambda>d. d\<lparr>f_staging := f_staging d - 1\<rparr>))) (giving_up e)) Q ?F"
    for e :: schema_error and Q :: "backup \<Rightarrow> schema_files \<Rightarrow> bool"
    by (rule triple_seq [OF triple_ignoring [OF stages [of "\<lambda>n. n - 1"]]]) (auto intro: triple_giving_up)
  have orphan: "triple ?F (remove_orphan_transaction sha a (transaction_name from to) from to) (\<lambda>_. ?F) ?F"
    using removing_orphan by (rule maintains_triple)
  show ?thesis
    unfolding take_snapshot_def Let_def
    by (rule triple_seq [OF stages [of "\<lambda>_. 0"]], rule triple_seq [OF orphan], rule triple_seq [OF stages [of "\<lambda>n. n + 1"]],
        rule triple_bind [OF triple_or_else [OF publishing_snapshot [OF assms] undo]])
       (auto intro: triple_pure)
qed

end
