(* ===== verification/Schema_Apply.thy ===== *)
theory Schema_Apply
  imports Schema_Atomic
begin

text \<open>
  The migration itself and the whole of \<open>apply\<close>: what they leave when they succeed, and \<open>sound\<close> when they
  fail or the process dies in them.
\<close>

section \<open>The migrator\<close>

text \<open>A migrator that succeeds brings whole data of an older version to whole data of the new one, and
  writes only where the manifest says. Without a migrator the data of the older version is that of the new.\<close>

definition lawful ::
  "(u32 option \<Rightarrow> (place \<Rightarrow> disk_tree option) \<Rightarrow> bool) \<Rightarrow> migration \<Rightarrow> data_schema \<Rightarrow> bool" where
  "lawful whole migrate schema =
     (\<forall>from m. (case from of None \<Rightarrow> True | Some v \<Rightarrow> v < data_version schema) \<longrightarrow> wf_data m \<longrightarrow> whole from m
        \<longrightarrow> (case migrator schema of
              None \<Rightarrow> whole (Some (data_version schema)) m
            | Some _ \<Rightarrow>
                obeys (backup_paths schema) (migrate from (data_version schema) m)
                  \<and> whole (Some (data_version schema)) (written (migrate from (data_version schema) m) m)))"

lemma files_kept:
  "(\<And>d s. data_of (f d) = data_of d \<and> f_state (f d) = f_state d \<and> f_pending (f d) = f_pending d \<and> f_ready (f d) = f_ready d
     \<and> f_backups (f d) = f_backups d \<and> f_script (f d) = f_script d)
    \<Longrightarrow> triple (files st pe RE BK MS ps) (call f) (\<lambda>_. files st pe RE BK MS ps) (files st pe RE BK MS ps)"
  by (rule files.called_whole) (auto simp: files_def obedient_def)

lemma publishing_prepared:
  "triple (files st pe RE BK MS ps) (publish_prepared phases) (\<lambda>_. files st pe RE BK MS ps) (files st pe RE BK MS ps)"
  unfolding publish_prepared_def
  by (cases phases) (auto intro!: triple_pure files_kept)

lemma publishing_pending:
  assumes "\<And>d. files st pe RE BK MS ps d \<Longrightarrow> R d"
    "\<And>d. consistent_pending a p \<Longrightarrow> files st (Some (Inr p)) RE BK MS ps d \<Longrightarrow> R d"
  shows "triple (files st pe RE BK MS ps) (publish_pending a p)
    (\<lambda>_ d. files st (Some (Inr p)) RE BK MS ps d \<and> consistent_pending a p) R"
  unfolding publish_pending_def
proof (rule triple_check)
  assume "guard (\<not> consistent_pending a p)
      (InvalidState ''refusing to publish inconsistent pending transaction'') = Inr ()"
  then have c: "consistent_pending a p" by (simp add: guard_def split: if_splits)
  show "triple (files st pe RE BK MS ps) (call (\<lambda>d. d\<lparr>f_pending := Some (Inr p)\<rparr>))
      (\<lambda>_ d. files st (Some (Inr p)) RE BK MS ps d \<and> consistent_pending a p) R"
    by (rule files.called_whole) (use assms c in \<open>auto simp: files_def obedient_def\<close>)
qed (use assms in auto)

lemma publishing_state:
  assumes "\<And>d. files st pe RE BK MS ps d \<Longrightarrow> R d"
    "\<And>d. ap_app s = a \<Longrightarrow> ap_format s = STATE_FORMAT \<Longrightarrow> ap_version s \<noteq> 0 \<Longrightarrow> files (Some (Inr s)) pe RE BK MS ps d \<Longrightarrow> R d"
  shows "triple (files st pe RE BK MS ps) (publish_state a s)
    (\<lambda>_ d. files (Some (Inr s)) pe RE BK MS ps d \<and> ap_version s \<noteq> 0) R"
  unfolding publish_state_def
proof (rule triple_check)
  assume "guard (ap_format s \<noteq> STATE_FORMAT \<or> ap_app s \<noteq> a \<or> ap_version s = 0)
      (InvalidState ''refusing to publish inconsistent state'') = Inr ()"
  then have c: "ap_app s = a" "ap_format s = STATE_FORMAT" "ap_version s \<noteq> 0"
    by (simp_all add: guard_def split: if_splits)
  show "triple (files st pe RE BK MS ps) (call (\<lambda>d. d\<lparr>f_state := Some (Inr s)\<rparr>))
      (\<lambda>_ d. files (Some (Inr s)) pe RE BK MS ps d \<and> ap_version s \<noteq> 0) R"
    by (rule files.called_whole) (use assms c in \<open>auto simp: files_def obedient_def\<close>)
qed (use assms in auto)

lemma running_migrator:
  assumes "obeys ps (migrate from v M)" "M \<in> restorable (objects M ps) M"
  shows "triple (files st pe RE BK {M} ps) (run_migrator migrate from v)
    (\<lambda>_. files st pe RE BK {written (migrate from v M) M} ps) (files st pe RE BK (restorable (objects M ps) M) ps)"
  unfolding run_migrator_def
proof (rule files.seq_idle [OF files.called])
  fix d
  let ?F = "\<lambda>MS. files st pe RE BK MS ps"
  assume d: "?F {M} d"
  show "?F {written (migrate from v M) M} (put_all (migrate from v (map_of (f_data d))) d)"
    "?F (restorable (objects M ps) M) (put_all (migrate from v (map_of (f_data d))) d)"
    using d objects_overwritten [OF assms(2,1)] by (auto simp: files_def obedient_def data_of_def [symmetric])
  show "?F (restorable (objects M ps) M) d" using d assms(2) by (auto simp: files_def)
next
  fix x d s
  assume "files st pe RE BK {M} ps (d\<lparr>f_script := x # s\<rparr>)" "files st pe RE BK {M} ps (d\<lparr>f_script := s\<rparr>)"
  then show "files st pe RE BK (restorable (objects M ps) M) ps (put_all (sa_writes x) (d\<lparr>f_script := s\<rparr>))"
    using objects_overwritten [OF assms(2)] by (auto simp: files_def obedient_def)
qed

lemma undoing:
  assumes st: "recorded a st" "journaled sha a p b os" "\<not> is_committed p (applied_in st)" "version_of st = pm_from p"
    and M: "M \<in> restorable os M" "whole (pm_from p) M"
  shows "triple (files st (Some (Inr p)) RE (snapshots (pm_backup p) b) (restorable os M) ps)
    (undo_migration sha a (pm_from p) (pm_backup p, b) e) Q (sound sha a whole)"
proof -
  have wf: "wf_data M" using M(1) by (simp add: restorable_def)
  let ?F = "files st (Some (Inr p)) RE (snapshots (pm_backup p) b)"
  let ?T = "\<lambda>r d. case r of Inl x \<Rightarrow> sound sha a whole d | Inr u \<Rightarrow> ?F {M} ps d"
  have "triple (?F (restorable os M) ps) (trying (restore sha b)) ?T (sound sha a whole)"
    by (rule triple_trying [OF triple_weaken [OF rolling_migration_back [where whole = whole, OF st wf M(2)]]]) auto
  moreover have "triple (?T r)
      (case r of
         Inl x \<Rightarrow> giving_up (MigrationRestore e x)
       | Inr _ \<Rightarrow>
           io_seq (or_else (io_seq (publish_source_ready a (pm_from p)) (io_seq clear_pending (retire (pm_backup p))))
                    (\<lambda>x. giving_up (MigrationRestore e x)))
           (giving_up e)) Q (sound sha a whole)" for r
  proof (cases r)
    case (Inl x)
    then show ?thesis by (auto intro: triple_giving_up)
  next
    case (Inr u)
    have "triple (?F {M} ps) (or_else (io_seq (publish_source_ready a (pm_from p)) (io_seq clear_pending (retire (pm_backup p))))
        (\<lambda>x. giving_up (MigrationRestore e x))) (\<lambda>_. files st None (fences a st) UNIV {M} ps) (sound sha a whole)"
      by (rule triple_or_else [OF migration_rolled_back [where whole = whole, OF st M]]) (auto intro: triple_giving_up)
    moreover have "sound sha a whole d" if "files st None (fences a st) UNIV {M} ps d" for d
      by (rule sound_idle [where whole = whole, OF st(1) subset_refl _ that]) (use wf M(2) st(4) in auto)
    ultimately show ?thesis using Inr by (auto intro: triple_seq triple_giving_up)
  qed
  ultimately show ?thesis
    unfolding undo_migration_def snd_conv fst_conv by (rule triple_bind)
qed

section \<open>The migration\<close>

definition migrated :: "app_id \<Rightarrow> u32 option \<Rightarrow> u32 \<Rightarrow> (schema_error + applied_schema) option" where
  "migrated a from v =
     Some (Inr \<lparr>ap_format = STATE_FORMAT, ap_app = a, ap_version = v, ap_backup = transaction_name from v\<rparr>)"

lemma version_migrated [simp]: "version_of (migrated a from v) = Some v"
  by (simp add: version_of_def applied_in_def migrated_def)

text \<open>What a transaction leaves that reports success.\<close>

definition current ::
  "app_id \<Rightarrow> (u32 option \<Rightarrow> (place \<Rightarrow> disk_tree option) \<Rightarrow> bool) \<Rightarrow> u32 \<Rightarrow> schema_files \<Rightarrow> bool" where
  "current a whole v d =
     (version_of (f_state d) = Some v \<and> f_pending d = None \<and> f_ready d = Some (ready_text a v) \<and> whole (Some v) (data_of d))"

lemma triple_bind_named:
  assumes "triple P m (\<lambda>(n, b) d. A b d \<and> n = k) R" "\<And>b. triple (A b) (f (k, b)) Q R"
  shows "triple P (io_bind m f) Q R"
proof (rule triple_bind [OF assms(1)])
  show "triple (case x of (n, b) \<Rightarrow> \<lambda>d. A b d \<and> n = k) (f x) Q R" for x
    using assms(2) [of "snd x"] by (cases x) (auto intro: triple_fact_pre)
qed

lemma migrating:
  assumes st: "recorded a st" "RE \<subseteq> fences a st"
    and M: "wf_data M" "whole (version_of st) M" "lawful whole migrate schema"
    and ps: "ps = backup_paths schema"
  shows "triple (files st None RE UNIV {M} ps) (migrate_data sha migrate a schema phases (version_of st))
    (\<lambda>_ d. sound sha a whole d \<and> current a whole (data_version schema) d) (sound sha a whole)"
proof -
  let ?v = "data_version schema" and ?from = "version_of st"
  let ?F = "\<lambda>st pe RE b MS. files st pe RE (snapshots (transaction_name ?from ?v) b) MS ps"
  let ?good = "{m. wf_data m \<and> whole (Some ?v) m}"
  have idle: "sound sha a whole d" if "files st None RE' BK {M} ps d" "RE' \<subseteq> fences a st" for RE' BK d
    by (rule sound_idle [where whole = whole, OF st(1) that(2) _ that(1)]) (use M in auto)
  have "triple (?F st None RE b {M})
      (io_seq clear_ready
    (io_seq (publish_pending a \<lparr>pm_format = PENDING_FORMAT, pm_app = a, pm_from = ?from, pm_to = ?v,
                               pm_backup = transaction_name ?from ?v, pm_paths = ps\<rparr>)
    (io_seq (publish_prepared phases)
    (io_seq (case migrator schema of
               None \<Rightarrow> pure ()
             | Some _ \<Rightarrow> or_else (run_migrator migrate ?from ?v) (undo_migration sha a ?from (transaction_name ?from ?v, b)))
    (io_seq (publish_state a \<lparr>ap_format = STATE_FORMAT, ap_app = a, ap_version = ?v, ap_backup = transaction_name ?from ?v\<rparr>)
    (io_seq (publish_ready a ?v)
    clear_pending))))))
    (\<lambda>_ d. sound sha a whole d \<and> current a whole ?v d) (sound sha a whole)"
    if b: "snapshot_holds sha a ?from ?v ps M b" for b
  proof -
    define p where "p = \<lparr>pm_format = PENDING_FORMAT, pm_app = a, pm_from = ?from, pm_to = ?v,
                               pm_backup = transaction_name ?from ?v, pm_paths = ps\<rparr>"
    have p [simp]: "pm_from p = ?from" "pm_to p = ?v" "pm_backup p = transaction_name ?from ?v" "pm_paths p = ps"
      by (simp_all add: p_def)
    let ?R = "restorable (objects M ps) M"
    have own: "M \<in> ?R" using objects_restorable [OF M(1)] .
    have j: "journaled sha a p b (objects M ps)" if "consistent_pending a p"
      using that b by (simp add: journaled_def snapshot_holds_def)
    have new: "case ?from of None \<Rightarrow> True | Some v \<Rightarrow> v < ?v" if "consistent_pending a p"
      using that by (auto simp: consistent_pending_def split: option.splits)
    have open_: "\<not> is_committed p (applied_in st)" if "consistent_pending a p"
      using new [OF that] by (auto simp: is_committed_def version_of_def split: option.splits)
    have undecided: "sound sha a whole d" if "consistent_pending a p" "?F st (Some (Inr p)) RE' b ?R d" for RE' d
      by (rule sound_undecided [where whole = whole, OF st(1) j [OF that(1)] open_ [OF that(1)] _ M(1)])
         (use M(2) that(2) in simp_all)
    have undecided': "sound sha a whole d" if "consistent_pending a p" "?F st (Some (Inr p)) RE' b {M} d" for RE' d
      by (rule undecided [OF that(1) files_mono [OF that(2) subset_refl subset_refl]]) (use own in simp)
    have down: "triple (?F st None RE b {M}) clear_ready (\<lambda>_. ?F st None {None} b {M}) (sound sha a whole)"
      by (rule clearing_ready) (use idle st(2) in \<open>auto simp: fences_def\<close>)
    have jour: "triple (?F st None {None} b {M}) (publish_pending a p)
        (\<lambda>_ d. ?F st (Some (Inr p)) {None} b {M} d \<and> consistent_pending a p) (sound sha a whole)"
      by (rule publishing_pending) (use idle undecided' in \<open>auto simp: fences_def\<close>)
    have rest: "triple (?F st (Some (Inr p)) {None} b {M}) (io_seq (publish_prepared phases)
        (io_seq (case migrator schema of
                   None \<Rightarrow> pure ()
                 | Some _ \<Rightarrow> or_else (run_migrator migrate ?from ?v) (undo_migration sha a ?from (transaction_name ?from ?v, b)))
        (io_seq (publish_state a \<lparr>ap_format = STATE_FORMAT, ap_app = a, ap_version = ?v, ap_backup = transaction_name ?from ?v\<rparr>)
        (io_seq (publish_ready a ?v)
        clear_pending))))
        (\<lambda>_ d. sound sha a whole d \<and> current a whole ?v d) (sound sha a whole)" if c: "consistent_pending a p"
    proof -
      have safe: "safe_backup_name (transaction_name ?from ?v)" "?v \<noteq> 0" using c by (simp_all add: consistent_pending_def)
      have rec: "recorded a (migrated a ?from ?v)" using safe by (simp add: recorded_def migrated_def)
      have com: "is_committed p (applied_in (migrated a ?from ?v))" by (simp add: is_committed_def applied_in_def migrated_def)
      have committed: "sound sha a whole d" if "?F (migrated a ?from ?v) (Some (Inr p)) RE' b (?R \<inter> ?good) d" for RE' d
        by (rule sound_committed [where whole = whole, OF rec j [OF c] com _ that [folded p(3)]]) auto
      have ready: "sound sha a whole d \<and> current a whole ?v d"
        if "?F (migrated a ?from ?v) None {Some (ready_text a ?v)} b (?R \<inter> ?good) d" for d
      proof
        show "sound sha a whole d"
          by (rule sound_idle [where whole = whole, OF rec _ _ that]) (auto simp: fences_def)
        show "current a whole ?v d" using that by (auto simp: current_def files_def)
      qed
      have half: "sound sha a whole d" if "?F st (Some (Inr p)) {None} b (?R \<inter> ?good) d" for d
        by (rule undecided [OF c files_mono [OF that subset_refl subset_refl]]) auto
      have prep: "triple (?F st (Some (Inr p)) {None} b {M}) (publish_prepared phases)
          (\<lambda>_. ?F st (Some (Inr p)) {None} b {M}) (sound sha a whole)"
        by (rule triple_weaken [OF publishing_prepared]) (auto intro: undecided' [OF c])
      have mig: "triple (?F st (Some (Inr p)) {None} b {M})
          (case migrator schema of
             None \<Rightarrow> pure ()
           | Some _ \<Rightarrow> or_else (run_migrator migrate ?from ?v) (undo_migration sha a ?from (transaction_name ?from ?v, b)))
          (\<lambda>_. ?F st (Some (Inr p)) {None} b (?R \<inter> ?good)) (sound sha a whole)"
      proof (cases "migrator schema")
        case None
        then have "whole (Some ?v) M" using M new [OF c] by (simp add: lawful_def)
        then show ?thesis
          unfolding None option.case by (intro triple_pure) (use own M(1) in \<open>auto simp: files_def\<close>)
      next
        case (Some x)
        let ?ws = "migrate ?from ?v M"
        have ws: "obeys ps ?ws" "whole (Some ?v) (written ?ws M)"
          using M new [OF c] Some ps by (auto simp: lawful_def)
        have to: "written ?ws M \<in> ?R" using objects_overwritten [OF own ws(1)] .
        then have in_both: "{written ?ws M} \<subseteq> ?R \<inter> ?good" using ws(2) by (auto simp: restorable_def)
        have undo: "triple (?F st (Some (Inr p)) {None} b ?R) (undo_migration sha a ?from (transaction_name ?from ?v, b) e)
            (\<lambda>_. ?F st (Some (Inr p)) {None} b (?R \<inter> ?good)) (sound sha a whole)" for e
          using undoing [where whole = whole, OF st(1) j [OF c] open_ [OF c] _ own] M(2) by simp
        show ?thesis
          unfolding Some option.case
          by (rule triple_or_else [OF triple_weaken [OF running_migrator [where migrate = migrate, OF ws(1) own]] undo])
             (auto intro: files_mono [OF _ subset_refl subset_refl in_both] undecided [OF c])
      qed
      have pub: "triple (?F st (Some (Inr p)) {None} b (?R \<inter> ?good))
          (publish_state a \<lparr>ap_format = STATE_FORMAT, ap_app = a, ap_version = ?v, ap_backup = transaction_name ?from ?v\<rparr>)
          (\<lambda>_. ?F (migrated a ?from ?v) (Some (Inr p)) {None} b (?R \<inter> ?good)) (sound sha a whole)"
        by (rule triple_weaken [OF publishing_state [OF half]]) (auto intro: committed simp: migrated_def)
      have up: "triple (?F (migrated a ?from ?v) (Some (Inr p)) {None} b (?R \<inter> ?good)) (publish_ready a ?v)
          (\<lambda>_. ?F (migrated a ?from ?v) (Some (Inr p)) {Some (ready_text a ?v)} b (?R \<inter> ?good)) (sound sha a whole)"
        by (rule publishing_ready) (auto intro: committed)
      have fin: "triple (?F (migrated a ?from ?v) (Some (Inr p)) {Some (ready_text a ?v)} b (?R \<inter> ?good)) clear_pending
          (\<lambda>_ d. sound sha a whole d \<and> current a whole ?v d) (sound sha a whole)"
        by (rule triple_weaken [OF clearing_pending [OF committed ready [THEN conjunct1]]]) (use ready in blast)+
      show ?thesis by (rule triple_seq [OF prep triple_seq [OF mig triple_seq [OF pub triple_seq [OF up fin]]]])
    qed
    show ?thesis
      unfolding p_def [symmetric]
      by (rule triple_seq [OF down triple_seq [OF jour triple_fact_pre [OF rest]]])
  qed
  note steps = this
  have snap: "triple (files st None RE UNIV {M} ps) (take_snapshot sha a ?from ?v ps)
      (\<lambda>(name, b) d. (?F st None RE b {M} d \<and> snapshot_holds sha a ?from ?v ps M b) \<and> name = transaction_name ?from ?v)
      (sound sha a whole)"
    by (rule triple_weaken [OF snapping [OF M(1)]]) (use idle st(2) in auto)
  show ?thesis
    unfolding migrate_data_def ps [symmetric]
    by (rule triple_bind_named [OF snap], rule triple_fact_pre, unfold fst_conv snd_conv) (rule steps)
qed

section \<open>The transaction\<close>

lemma other_files:
  "data_of d = data_of e \<Longrightarrow> f_state d = f_state e \<Longrightarrow> f_pending d = f_pending e \<Longrightarrow> f_ready d = f_ready e
    \<Longrightarrow> f_backups d = f_backups e \<Longrightarrow> sound sha a whole d = sound sha a whole e \<and> current a whole v d = current a whole v e"
  by (simp only: sound_def current_def)

interpretation waiting: steady "\<lambda>d. sound sha a whole d \<and> obedient ps d \<and> f_state d = st" for sha a whole ps st
  by unfold_locales (auto simp: obedient_def other_files [of "_\<lparr>f_script := _\<rparr>"] subset_iff)

interpretation finished: steady "\<lambda>d. sound sha a whole d \<and> current a whole v d" for sha a whole v
  by unfold_locales (auto simp: other_files [of "_\<lparr>f_script := _\<rparr>"])

lemma migrating_settled:
  assumes "recorded a st" "lawful whole migrate schema"
  shows "triple (settled a whole st (backup_paths schema)) (migrate_data sha migrate a schema phases (version_of st))
    (\<lambda>_ d. sound sha a whole d \<and> current a whole (data_version schema) d) (sound sha a whole)"
proof (rule triple_from)
  fix d assume d: "settled a whole st (backup_paths schema) d"
  have "triple (files st None (fences a st) UNIV {data_of d} (backup_paths schema))
      (migrate_data sha migrate a schema phases (version_of st))
      (\<lambda>_ d. sound sha a whole d \<and> current a whole (data_version schema) d) (sound sha a whole)"
    by (rule migrating [where whole = whole, OF assms(1) subset_refl _ _ assms(2) refl])
       (use d in \<open>auto simp: settled_def files_def\<close>)
  then show "triple ((=) d) (migrate_data sha migrate a schema phases (version_of st))
      (\<lambda>_ d. sound sha a whole d \<and> current a whole (data_version schema) d) (sound sha a whole)"
    by (rule triple_weaken) (use d in \<open>auto simp: settled_def files_def\<close>)
qed

lemma version_applied: "version_of st = map_option ap_version (applied_in st)"
  by (rule version_of_def)

lemma already_current:
  assumes st: "recorded a st" "version_of st = Some v"
  shows "triple (settled a whole st ps) (io_seq (publish_ready a v) (publish_prepared phases))
    (\<lambda>_ d. sound sha a whole d \<and> current a whole v d) (sound sha a whole)"
proof -
  let ?F = "\<lambda>RE. files st None RE UNIV {m. wf_data m \<and> whole (version_of st) m} ps"
  have idle: "sound sha a whole d" if "?F (fences a st) d" for d
    using settled_sound [OF st(1)] that by (simp add: settled_def)
  have up: "?F (fences a st) d" if "?F {Some (ready_text a v)} d" for d
    using that st(2) by (auto simp: files_def fences_def)
  have "current a whole v d" if "?F {Some (ready_text a v)} d" for d
    using that st(2) by (auto simp: current_def files_def)
  then show ?thesis
    unfolding settled_def
    by (intro triple_seq [OF publishing_ready triple_weaken [OF publishing_prepared]]) (use idle up in blast)+
qed

lemma applying_at:
  assumes "lawful whole migrate schema"
  shows "triple (\<lambda>d. sound sha a whole d \<and> obedient (backup_paths schema) d)
    (apply_at_with_phases sha migrate a schema root phases)
    (\<lambda>_ d. sound sha a whole d \<and> current a whole (data_version schema) d) (sound sha a whole)"
proof (rule triple_from)
  fix d assume d: "sound sha a whole d \<and> obedient (backup_paths schema) d"
  let ?ps = "backup_paths schema"
  define st where "st = f_state d"
  have st: "recorded a st" using d by (simp add: sound_def st_def)
  let ?W = "\<lambda>d. sound sha a whole d \<and> obedient ?ps d \<and> f_state d = st"
  have idle: "triple ?W io_call (\<lambda>_. ?W) (sound sha a whole)"
    by (rule triple_weaken [OF waiting.called_idle]) auto
  have "triple ?W (io_bind (looking f_state) (\<lambda>r.
       case r of
         None \<Rightarrow> pure None
       | Some (Inl e) \<Rightarrow> giving_up e
       | Some (Inr s) \<Rightarrow>
           if ap_format s \<noteq> STATE_FORMAT \<or> ap_app s \<noteq> a \<or> ap_version s = 0 \<or> \<not> safe_backup_name (ap_backup s)
           then giving_up (InvalidState ''state identity, version, or backup reference is invalid'')
           else pure (Some s))) (\<lambda>r d. ?W d \<and> r = applied_in st) (sound sha a whole)"
    by (rule triple_known [where v = st], rule triple_looking)
       (use st in \<open>auto simp: recorded_def applied_in_def intro!: triple_pure split: option.splits sum.splits\<close>)
  then have state: "triple ?W (read_applied a) (\<lambda>r d. ?W d \<and> r = applied_in st) (sound sha a whole)"
    unfolding read_applied_def by (rule triple_seq [OF idle])
  have go: "triple (settled a whole st ?ps)
     (case applied_in st of
       None \<Rightarrow> migrate_data sha migrate a schema phases None
     | Some s \<Rightarrow>
         if ap_version s = data_version schema
         then io_seq (publish_ready a (data_version schema)) (publish_prepared phases)
         else if data_version schema < ap_version s then giving_up (Downgrade (ap_version s) (data_version schema))
         else migrate_data sha migrate a schema phases (Some (ap_version s)))
     (\<lambda>_ d. sound sha a whole d \<and> current a whole (data_version schema) d) (sound sha a whole)"
    using migrating_settled [where whole = whole, OF st assms, of sha phases]
    by (cases "applied_in st")
       (auto simp: version_applied intro!: triple_giving_up already_current [OF st] settled_sound [OF st])
  have "triple ?W (apply_at_with_phases sha migrate a schema root phases)
      (\<lambda>_ d. sound sha a whole d \<and> current a whole (data_version schema) d) (sound sha a whole)"
    unfolding apply_at_with_phases_def
    by (rule triple_check, rule triple_seq [OF idle], rule triple_seq [OF idle], rule triple_known [OF state],
        rule triple_seq [OF recovering_schema go]) auto
  then show "triple ((=) d) (apply_at_with_phases sha migrate a schema root phases)
      (\<lambda>_ d. sound sha a whole d \<and> current a whole (data_version schema) d) (sound sha a whole)"
    by (rule triple_weaken) (use d in \<open>auto simp: st_def\<close>)
qed

lemma applying:
  assumes "m_data_schema m = Some schema" "lawful whole migrate schema"
  shows "triple (\<lambda>d. sound sha (m_id m) whole d \<and> obedient (backup_paths schema) d) (apply_schema sha migrate codec m plan)
    (\<lambda>_ d. sound sha (m_id m) whole d \<and> current (m_id m) whole (data_version schema) d) (sound sha (m_id m) whole)"
proof -
  have complete: "triple (\<lambda>d. sound sha (m_id m) whole d \<and> current (m_id m) whole (data_version schema) d) (publish_complete g)
      (\<lambda>_ d. sound sha (m_id m) whole d \<and> current (m_id m) whole (data_version schema) d) (sound sha (m_id m) whole)" for g
    unfolding publish_complete_def
    by (rule finished.called_whole) (auto simp: other_files [of "_\<lparr>f_complete := _\<rparr>"])
  show ?thesis
    unfolding apply_schema_def assms(1) option.case Let_def
    by (intro triple_check triple_checked triple_seq [OF applying_at [OF assms(2)] complete]) auto
qed

end
