(* ===== verification/Schema_Properties.thy ===== *)
theory Schema_Properties
  imports Schema_Apply
begin

text \<open>
  What the data migration of \<open>Schema_Migration\<close> guarantees, over the life of an application's data: its runs
  and its transactions, with any failure or death of the runner at any call.
\<close>

section \<open>The life of the data\<close>

text \<open>\<open>whole v m\<close>: the data \<open>m\<close> is whole for version \<open>v\<close>, as the application understands it. The application
  runs, and changes its data, only when no journal is pending.\<close>

inductive schema_life ::
  "(string \<Rightarrow> string) \<Rightarrow> profile_codec \<Rightarrow> (u32 option \<Rightarrow> (place \<Rightarrow> disk_tree option) \<Rightarrow> bool) \<Rightarrow> app_id \<Rightarrow> schema_files \<Rightarrow> bool"
  for sha codec whole a
where
  fresh:
    "f_state d = None \<Longrightarrow> f_pending d = None \<Longrightarrow> f_ready d = None \<Longrightarrow> wf_data (data_of d) \<Longrightarrow> whole None (data_of d)
      \<Longrightarrow> schema_life sha codec whole a d"
| transaction:
    "schema_life sha codec whole a d \<Longrightarrow> m_id m = a \<Longrightarrow> m_data_schema m = Some schema \<Longrightarrow> lawful whole migrate schema
      \<Longrightarrow> \<forall>x\<in>set answers. obeys (backup_paths schema) (sa_writes x)
      \<Longrightarrow> schema_life sha codec whole a (snd (apply_schema sha migrate codec m plan (d\<lparr>f_script := answers\<rparr>)))"
| work:
    "schema_life sha codec whole a d \<Longrightarrow> f_pending d = None \<Longrightarrow> wf_data (written ws (data_of d))
      \<Longrightarrow> whole (version_of (f_state d)) (written ws (data_of d)) \<Longrightarrow> schema_life sha codec whole a (put_all ws d)"

lemma life_sound: "schema_life sha codec whole a d \<Longrightarrow> sound sha a whole d"
proof (induction rule: schema_life.induct)
  case (fresh d)
  then show ?case by (simp add: sound_def recorded_def version_of_def applied_in_def fences_def)
next
  case (transaction d m schema migrate answers plan)
  have "sound sha (m_id m) whole (d\<lparr>f_script := answers\<rparr>)"
    using transaction.IH transaction.hyps(2) by (simp add: other_files [of "_\<lparr>f_script := _\<rparr>" d])
  then show ?case
    using triple_end [OF applying [where whole = whole, OF transaction.hyps(3,4)]] transaction.hyps(2,5)
    by (auto simp: obedient_def)
next
  case (work d ws)
  then show ?case by (auto simp: sound_def)
qed

section \<open>Recovery without faults\<close>

lemma io_of_Inr [simp]: "io_bind (io_of (Inr v)) f = f v" "io_seq (io_of (Inr u)) m = m"
  by (simp_all add: fun_eq_iff io_bind_def io_seq_def io_of_def)

lemma calm_call:
  "(\<And>d. P d \<Longrightarrow> f_script d = []) \<Longrightarrow> (\<And>d. P d \<Longrightarrow> Q () (f d)) \<Longrightarrow> triple P (call_with g f) Q R"
  by (simp add: triple_def call_with_def)

text \<open>What a recovery without faults relies on: the journal and the snapshot, and an empty script.\<close>

definition calm ::
  "(schema_error + applied_schema) option \<Rightarrow> (schema_error + pending_migration) option \<Rightarrow> string \<Rightarrow> backup \<Rightarrow> schema_files \<Rightarrow> bool" where
  "calm st pe name b d = (f_script d = [] \<and> f_state d = st \<and> f_pending d = pe \<and> map_of (f_backups d) name = Some b)"

lemma calm_put: "calm st pe name b d \<Longrightarrow> calm st pe name b (put_data p t d)"
  by (simp add: calm_def)

lemma calm_idle: "triple (calm st pe name b) io_call (\<lambda>_. calm st pe name b) R"
  unfolding io_call_def call_def by (rule calm_call) (auto simp: calm_def)

lemma calm_write: "triple (calm st pe name b) (call (put_data p t)) (\<lambda>_. calm st pe name b) R"
  unfolding call_def by (rule calm_call) (auto simp: calm_put, simp add: calm_def)

lemma calm_seq:
  "triple (calm st pe name b) m (\<lambda>_. calm st pe name b) R \<Longrightarrow> triple (calm st pe name b) n Q R
    \<Longrightarrow> triple (calm st pe name b) (io_seq m n) Q R"
  by (rule triple_seq)

lemma calm_looking: "(\<And>v. triple (calm st pe name b) (f v) Q R) \<Longrightarrow> triple (calm st pe name b) (io_bind (looking g) f) Q R"
  by (simp add: triple_def io_bind_def looking_def)

definition restorable_source :: "source_record \<times> disk_tree option \<Rightarrow> bool" where
  "restorable_source x = (sr_existed (fst x) \<longrightarrow> (\<exists>m cs. snd x = Some (DirNode m cs)))"

lemma inspect_bare:
  "inspect_entry sha p r (bare t) = inspect_entry sha p r t"
  "inspect_entries sha p r (map (\<lambda>(n, t). (n, bare t)) cs) = inspect_entries sha p r cs"
  by (induction sha p r t and sha p r cs rule: inspect_entry_inspect_entries.induct) simp_all

lemma copied_directory:
  assumes "copy_of sha (s, c) t" "sr_existed s" "restorable_source (s, c)"
  obtains u copy where "t = Some u" "c = Some copy" "wf_tree u" "is_directory u"
    "clone_backup_entry (sr_path s) copy = Inr copy" "apply_source_metadata (sr_entries s) copy = Inr u"
    "inspect_tree sha (sr_path s) copy = Inr (content_records (sr_entries s))"
    "inspect_tree sha (sr_path s) u = Inr (content_records (sr_entries s))"
proof -
  obtain u copy es where u: "t = Some u" "wf_tree u" "copy_entry sha (sr_path s) [] u = Inr (copy, es)" "c = Some copy"
      "sr_entries s = sort_key er_path es"
    using assms(1,2) by (auto simp: copy_of_def)
  note c = copy_is_complete [OF u(2,3)]
  have "is_directory copy" using assms(2,3) u(4) by (auto simp: restorable_source_def is_directory_def)
  then have dir: "is_directory u" unfolding c(1) by (cases u) (auto simp: is_directory_def)
  show thesis
    by (rule that [OF u(1,4,2) dir c(3)]) (use metadata_restored [OF u(2) dir] c u(5) in \<open>auto simp: inspect_tree_def inspect_bare\<close>)
qed


lemma verified_source: "copy_of sha x t \<Longrightarrow> restorable_source x \<Longrightarrow> verify_source sha x = Inr ()"
proof (cases "sr_existed (fst x)")
  case True
  assume "copy_of sha x t" "restorable_source x"
  moreover obtain s c where x: "x = (s, c)" by (cases x)
  ultimately show ?thesis using True
    by (auto elim!: copied_directory simp: verify_source_def ok_or_def res_bind_def guard_def)
qed (auto simp: copy_of_def verify_source_def guard_def Let_def split: prod.splits)

lemma calm_restore_source:
  assumes "copy_of sha x t" "restorable_source x"
  shows "triple (calm st pe name b) (restore_source sha x) (\<lambda>_. calm st pe name b) R"
proof -
  obtain s c where x: "x = (s, c)" by (cases x)
  show ?thesis
  proof (cases "sr_existed s")
    case False
    have "triple (calm st pe name b) (remove_data (sr_path s)) (\<lambda>_. calm st pe name b) R"
      unfolding remove_data_def by (rule calm_call) (auto simp: calm_put, simp add: calm_def)
    then show ?thesis
      using False x by (auto simp: restore_source_def intro: triple_seq calm_idle)
  next
    case True
    obtain u copy where u: "t = Some u" "c = Some copy" "wf_tree u" "is_directory u"
      "clone_backup_entry (sr_path s) copy = Inr copy" "apply_source_metadata (sr_entries s) copy = Inr u"
      "inspect_tree sha (sr_path s) copy = Inr (content_records (sr_entries s))"
      "inspect_tree sha (sr_path s) u = Inr (content_records (sr_entries s))"
      using copied_directory [of sha s c t] assms x True by metis
    have put: "triple (calm st pe name b) (or_else (call (put_data (sr_path s) (Some u))) f) (\<lambda>_. calm st pe name b) R" for f
      by (rule triple_or_else [OF calm_write [where R = "\<lambda>_. False"]]) (auto simp: triple_def)
    have aside: "triple (calm st pe name b) (if q then call (put_data (sr_path s) None) else pure ()) (\<lambda>_. calm st pe name b) R" for q
      by (auto intro: calm_write triple_pure)
    show ?thesis
      unfolding x restore_source_def Let_def prod.case
      by (simp only: u True not_True_eq_False if_False ok_or_def option.case res_bind_def sum.case io_of_Inr guard_def simp_thms if_True)
         (intro calm_seq calm_idle calm_looking aside put)
  qed
qed

lemma calm_restore:
  assumes "holds_copies sha b os" "\<forall>x\<in>set (sources_of b). restorable_source x"
  shows "verify sha b = io_seq io_call (pure ())"
    "triple (calm st pe name c) (restore sha b) (\<lambda>_. calm st pe name c) R"
proof -
  have some: "\<exists>y. P x y" if "list_all2 P xs ys" "x \<in> set xs" for P :: "'x \<Rightarrow> 'y \<Rightarrow> bool" and xs ys x
    using that by (induction rule: list_all2_induct) auto
  have each: "\<exists>t. copy_of sha x t" if "x \<in> set (sources_of b)" for x
    using some [OF assms(1) [unfolded holds_copies_def] that] by auto
  have all: "for_each (verify_source sha) (sources_of b) = Inr ()"
    unfolding for_each_Inr using each assms(2) verified_source by blast
  have "io_of (Inr ()) = (pure () :: unit sact)" by (simp add: fun_eq_iff io_of_def pure_def)
  then show v: "verify sha b = io_seq io_call (pure ())"
    unfolding verify_def all by simp
  have "triple (calm st pe name c) (for_all (restore_source sha) (sources_of b)) (\<lambda>_. calm st pe name c) R"
    by (rule triple_for_all) (use each assms(2) calm_restore_source in blast)
  then show "triple (calm st pe name c) (restore sha b) (\<lambda>_. calm st pe name c) R"
    unfolding restore_def v by (intro calm_seq [OF calm_seq [OF calm_idle triple_pure]]) simp_all
qed


lemma calm_clear: "triple (calm st pe name b) clear_pending (\<lambda>_. calm st None name b) R"
  unfolding clear_pending_def call_def by (rule calm_call) (auto simp: calm_def)

lemma calm_ready:
  "v \<noteq> 0 \<Longrightarrow> triple (calm st pe name b) (publish_ready a v) (\<lambda>_. calm st pe name b) R"
  "triple (calm st pe name b) clear_ready (\<lambda>_. calm st pe name b) R"
  unfolding publish_ready_def clear_ready_def call_def
  by (simp add: guard_def, rule calm_call, auto simp: calm_def, rule calm_call, auto simp: calm_def)

lemma calm_retire: "triple (calm st pe name b) (retire name) (\<lambda>_ _. True) R"
proof -
  have "triple (\<lambda>d. f_script d = []) io_call (\<lambda>_ _. True) R"
    unfolding io_call_def call_def by (rule calm_call) simp_all
  moreover have "triple (calm st pe name b) (call (\<lambda>d. d\<lparr>f_backups := AList.delete name (f_backups d)\<rparr>)) (\<lambda>_ d. f_script d = []) R"
    unfolding call_def by (rule calm_call) (auto simp: calm_def)
  ultimately show ?thesis unfolding retire_def by (intro triple_seq)
qed

lemma calm_recovery:
  assumes j: "journaled sha a p b os" "\<forall>x\<in>set (sources_of b). restorable_source x"
    and root: "reject_recursive_backup root (pm_paths p) = Inr ()"
    and st: "is_committed p (applied_in st) \<or> version_of st = pm_from p"
  shows "triple (calm st (Some (Inr p)) (pm_backup p) b) (recover_pending sha a root (applied_in st)) (\<lambda>_ _. True) (\<lambda>_. False)"
proof -
  let ?C = "calm st (Some (Inr p)) (pm_backup p) b"
  have c: "consistent_pending a p" and h: "holds_copies sha b os"
    and b: "validate_identity (pm_from p) (pm_to p) (pm_paths p) b = Inr ()" "bm_format (bk_manifest b) = BACKUP_FORMAT" "bm_app (bk_manifest b) = a"
    using j(1) by (simp_all add: journaled_def)
  have v: "pm_to p \<noteq> 0" "pm_from p \<noteq> Some 0" "safe_backup_name (pm_backup p)" using c by (simp_all add: consistent_pending_def)
  have read: "triple ?C (read_pending a) (\<lambda>r d. ?C d \<and> r = Some p) (\<lambda>_. False)"
    unfolding read_pending_def
    by (rule calm_seq [OF calm_idle], rule triple_known [where v = "Some (Inr p)"])
       (use c in \<open>auto simp: calm_def intro!: triple_looking triple_pure\<close>)
  have load: "triple ?C (load_named a (pm_backup p)) (\<lambda>x d. ?C d \<and> x = b) (\<lambda>_. False)"
    unfolding load_named_def load_snapshot_def
    by (simp add: v(3) guard_def, rule calm_seq [OF calm_idle], rule calm_seq [OF calm_idle], rule triple_known [where v = "Some b"])
       (use b in \<open>auto simp: calm_def intro!: triple_looking triple_pure\<close>)
  have current: "source_is_current p (applied_in st)" if "\<not> is_committed p (applied_in st)"
    using st that by (cases "pm_from p"; cases "applied_in st") (auto simp: source_is_current_def version_of_def)
  have ready: "triple ?C (publish_source_ready a (pm_from p)) (\<lambda>_. ?C) (\<lambda>_. False)"
    using v(2) calm_ready by (auto simp: publish_source_ready_def split: option.splits)
  have commit: "triple ?C (io_seq (publish_ready a (pm_to p)) clear_pending) (\<lambda>_ _. True) (\<lambda>_. False)"
    by (rule calm_seq [OF calm_ready(1) [OF v(1)] triple_weaken [OF calm_clear]]) auto
  have undo: "triple ?C (io_seq (restore sha b) (io_seq (publish_source_ready a (pm_from p)) (io_seq clear_pending (retire (pm_backup p)))))
      (\<lambda>_ _. True) (\<lambda>_. False)"
    by (rule calm_seq [OF calm_restore(2) [OF h j(2)] calm_seq [OF ready triple_seq [OF calm_clear calm_retire]]])
  have check: "triple ?C (verify sha b) (\<lambda>_. ?C) (\<lambda>_. False)"
    unfolding calm_restore(1) [OF h j(2)] by (intro calm_seq calm_idle triple_pure)
  show ?thesis
    unfolding recover_pending_def
    by (rule triple_known [OF read], unfold option.case root io_of_Inr, rule triple_known [OF load], unfold b io_of_Inr,
        rule calm_seq [OF check triple_if [OF commit]])
       (use current undo in \<open>simp_all add: guard_def\<close>)
qed

lemma recovery_ends:
  assumes d: "sound sha a whole d" "f_script d = []" "f_pending d = Some (Inr p)"
    and dirs: "\<And>b x. map_of (f_backups d) (pm_backup p) = Some b \<Longrightarrow> x \<in> set (sources_of b) \<Longrightarrow> restorable_source x"
    and root: "reject_recursive_backup root (pm_paths p) = Inr ()"
  shows "\<exists>e. recover_pending sha a root (applied_in (f_state d)) d = (Done (), e) \<and> settled a whole (f_state d) [] e"
proof -
  obtain b os where b: "map_of (f_backups d) (pm_backup p) = Some b" "journaled sha a p b os"
      "is_committed p (applied_in (f_state d)) \<or> version_of (f_state d) = pm_from p"
    using d(1,3) by (auto simp: sound_def split: if_splits)
  obtain x e where r: "recover_pending sha a root (applied_in (f_state d)) d = (x, e)" by (cases "recover_pending sha a root (applied_in (f_state d)) d")
  have "calm (f_state d) (Some (Inr p)) (pm_backup p) b d" using d b(1) by (simp add: calm_def)
  then have "x = Done ()"
    using calm_recovery [OF b(2) _ root b(3)] dirs [OF b(1)] r by (cases x) (auto simp: triple_def)
  then have "recover_pending sha a root (applied_in (f_state d)) d = (Done (), e)" using r by simp
  moreover have "sound sha a whole d \<and> obedient [] d \<and> f_state d = f_state d" using d by (simp add: obedient_def)
  ultimately show ?thesis using triple_Done [OF recovering_schema] by metis
qed

section \<open>A single file\<close>

lemma single_file_is_never_restored:
  assumes x: "x \<in> set (sources_of b)" "copy_of sha x (Some (FileNode m content))"
  shows "triple P (restore sha b) (\<lambda>_ _. False) (\<lambda>_. True)"
proof -
  have never: "triple P io_call (\<lambda>_ _. True) (\<lambda>_. True)" for P :: "schema_files \<Rightarrow> bool"
    by (auto simp: triple_def split: prod.splits outcome.splits)
  obtain s c where sc: "x = (s, c)" by (cases x)
  have ex: "sr_existed s" using x(2) sc by (auto simp: copy_of_def split: if_splits)
  then obtain copy es where c: "copy_entry sha (sr_path s) [] (FileNode m content) = Inr (copy, es)" "c = Some copy"
      "sr_entries s = sort_key er_path es" "wf_tree (FileNode m content)"
    using x(2) sc by (auto simp: copy_of_def)
  have clone: "clone_backup_entry (sr_path s) copy = Inr copy" using copy_is_complete(3) [OF c(4,1)] .
  have refused: "apply_source_metadata (sr_entries s) copy = Inl (SchemaIo ''restore data ownership'')"
    unfolding c(3) by (rule single_object_refused [OF _ c(1)]) (simp add: is_directory_def)
  have stop: "triple P (io_bind (io_of (Inl e)) f) (\<lambda>_ _. False) (\<lambda>_. True)" for P :: "schema_files \<Rightarrow> bool" and e f
    by (simp add: triple_def io_bind_def io_of_def)
  have one: "triple P (restore_source sha x) (\<lambda>_ _. False) (\<lambda>_. True)" for P
    unfolding restore_source_def Let_def sc prod.case
    by (simp only: ex c(2) clone refused not_True_eq_False if_False ok_or_def option.case res_bind_def sum.case io_of_Inr)
       (rule triple_seq [OF never], rule triple_seq [OF never], rule triple_seq [OF never], rule triple_seq [OF never], rule stop)
  have any: "triple P m (\<lambda>_ _. True) (\<lambda>_. True)" for P :: "schema_files \<Rightarrow> bool" and m :: "'x sact"
    by (auto simp: triple_def split: prod.splits outcome.splits)
  have "x \<in> set xs \<Longrightarrow> triple P (for_all (restore_source sha) xs) (\<lambda>_ _. False) (\<lambda>_. True)" for xs P
  proof (induction xs arbitrary: P)
    case (Cons y ys)
    show ?case
    proof (cases "x = y")
      case True
      have "triple (\<lambda>_. False) (for_all (restore_source sha) ys) (\<lambda>_ _. False) (\<lambda>_. True)" by (simp add: triple_def)
      then show ?thesis using triple_seq [OF one] True by simp
    next
      case False
      then show ?thesis using triple_seq [OF any Cons.IH] Cons.prems by simp
    qed
  qed simp
  then show ?thesis unfolding restore_def using triple_seq [OF any] x(1) by blast
qed


interpretation journal: steady "\<lambda>d. f_pending d = Some (Inr p) \<and> map_of (f_backups d) name = Some b" for p name b
  by unfold_locales simp

lemma blocked_recovery:
  assumes x: "x \<in> set (sources_of b)" "copy_of sha x (Some (FileNode m content))" and open_: "\<not> is_committed p applied"
  shows "triple (\<lambda>d. f_pending d = Some (Inr p) \<and> map_of (f_backups d) (pm_backup p) = Some b)
    (recover_pending sha a root applied) (\<lambda>_ _. False) (\<lambda>_. True)"
proof -
  let ?K = "\<lambda>d. f_pending d = Some (Inr p) \<and> map_of (f_backups d) (pm_backup p) = Some b"
  have idle: "triple ?K io_call (\<lambda>_. ?K) (\<lambda>_. True)"
    by (rule triple_weaken [OF journal.called_idle]) auto
  have read: "triple ?K (read_pending a) (\<lambda>r d. ?K d \<and> r = Some p) (\<lambda>_. True)"
    unfolding read_pending_def
    by (rule triple_seq [OF idle], rule triple_known [where v = "Some (Inr p)"])
       (auto intro!: triple_looking triple_pure triple_giving_up)
  have load: "triple ?K (load_named a (pm_backup p)) (\<lambda>x d. ?K d \<and> x = b) (\<lambda>_. True)"
    unfolding load_named_def load_snapshot_def
    by (rule triple_check, rule triple_seq [OF idle], rule triple_seq [OF idle], rule triple_known [where v = "Some b"])
       (auto intro!: triple_looking triple_pure triple_giving_up triple_check)
  have check: "triple ?K (verify sha b) (\<lambda>_. ?K) (\<lambda>_. True)"
    unfolding verify_def by (rule triple_seq [OF idle]) (auto intro: triple_io_of)
  have none: "triple (\<lambda>_. False) m (\<lambda>_ _. False) (\<lambda>_. True)" for m :: "unit sact"
    by (simp add: triple_def)
  show ?thesis
    unfolding recover_pending_def
    by (rule triple_known [OF read], unfold option.case, rule triple_check, rule triple_known [OF load], rule triple_check,
        rule triple_seq [OF check], unfold if_not_P [OF open_], rule triple_check,
        rule triple_seq [OF single_file_is_never_restored [OF x] none]) auto
qed

section \<open>A run\<close>

text \<open>The data of a reader: its library, and a migrator that rewrites it.\<close>

definition demo_tree :: "string \<Rightarrow> disk_tree" where
  "demo_tree content =
     DirNode \<lparr>fm_mode = 0x1ED, fm_uid = 1000, fm_gid = 1000\<rparr>
       [(''books'', FileNode \<lparr>fm_mode = 0x1A4, fm_uid = 1000, fm_gid = 1000\<rparr> content)]"

definition demo_whole :: "u32 option \<Rightarrow> (place \<Rightarrow> disk_tree option) \<Rightarrow> bool" where
  "demo_whole v m =
     (m (path_components ''/data/a'') = Some (demo_tree (if v = None then ''old'' else ''new'')))"

definition demo_migrate :: migration where
  "demo_migrate from to m = [(''/data/a'', Some (demo_tree ''new''))]"

definition demo_schema :: data_schema where
  "demo_schema = \<lparr>data_version = 1, migrator = Some ''/opt/reader/migrate'', backup_paths = [''/data/a'', ''/data/b''],
     backup_timeout_ms = 600000, migration_timeout_ms = 600000\<rparr>"

definition demo_app :: app_manifest where "demo_app = demo_manifest\<lparr>m_data_schema := Some demo_schema\<rparr>"

definition demo_env :: launch_environment where
  "demo_env = projr (resolve_environment demo_codec (m_id demo_manifest) (m_runtime demo_manifest)
     (m_environment demo_manifest) [''/opt/lib/libqtfb.so''] [] ''/usr/bin'' MetadataOnly (for_product PaperPro ''3.27.0''))"

definition demo_plan :: execution_plan where
  "demo_plan = \<lparr>pl_generation = Some 7, pl_environment = Some demo_env\<rparr>"

definition demo_root :: path where "demo_root = ''/home/root/apps/reader/state/.remagic-schema''"

definition demo_files :: schema_files where
  "demo_files = \<lparr>f_script = [], f_data = [(path_components ''/data/a'', demo_tree ''old'')], f_state = None, f_pending = None,
     f_ready = None, f_backups = [], f_staging = 0, f_prepared = None, f_complete = None\<rparr>"

text \<open>A run that dies in the migrator, with half of the work done.\<close>

definition fine :: schema_answer where
  "fine = \<lparr>sa_died = False, sa_error = None, sa_effect = True, sa_writes = []\<rparr>"

definition demo_death :: "schema_answer list" where
  "demo_death = replicate 18 fine
     @ [\<lparr>sa_died = True, sa_error = None, sa_effect = False, sa_writes = [(''/data/a'', Some (demo_tree ''ne''))]\<rparr>]"

definition demo_half :: schema_files where
  "demo_half = snd (apply_schema (\<lambda>s. s) demo_migrate demo_codec demo_app demo_plan (demo_files\<lparr>f_script := demo_death\<rparr>))"

lemma demo_lawful: "lawful demo_whole demo_migrate demo_schema"
  by (auto simp: lawful_def demo_schema_def demo_whole_def demo_migrate_def obeys_def wf_object_def demo_tree_def ok_name_def)

lemma demo_fresh: "schema_life (\<lambda>s. s) demo_codec demo_whole (m_id demo_app) demo_files"
  by (rule schema_life.fresh)
     (auto simp: demo_files_def data_of_def demo_whole_def wf_data_def ran_def demo_tree_def ok_name_def split: if_splits)

lemma demo_obeys: "\<forall>x\<in>set demo_death. obeys (backup_paths demo_schema) (sa_writes x)"
  by (auto simp: demo_death_def fine_def obeys_def demo_schema_def wf_object_def demo_tree_def ok_name_def)

lemma demo_data_schema: "m_data_schema demo_app = Some demo_schema"
  by (simp add: demo_app_def)

lemma demo_half_life: "schema_life (\<lambda>s. s) demo_codec demo_whole (m_id demo_app) demo_half"
  unfolding demo_half_def
  by (rule schema_life.transaction [OF demo_fresh refl demo_data_schema demo_lawful demo_obeys])

lemma demo_env_valid: "environment_validate demo_codec demo_env = Inr ()"
proof -
  have "resolve_environment demo_codec (m_id demo_manifest) (m_runtime demo_manifest)
      (m_environment demo_manifest) [''/opt/lib/libqtfb.so''] [] ''/usr/bin'' MetadataOnly (for_product PaperPro ''3.27.0'') = Inr demo_env"
    unfolding demo_env_def by code_simp
  then show ?thesis by (auto simp: resolve_environment_def Let_def res_bind_def split: sum.splits if_splits)
qed

lemma demo_root_is: "path_join (state_home (env_directories demo_env)) MANAGED_STATE_DIRECTORY = demo_root"
  unfolding demo_env_def by code_simp

lemma demo_apply:
  "apply_schema (\<lambda>s. s) demo_migrate demo_codec demo_app demo_plan
     = io_seq (apply_at_with_phases (\<lambda>s. s) demo_migrate (AppId ''reader'') demo_schema demo_root (Some 7)) (publish_complete 7)"
proof -
  have "m_schema demo_app = MANIFEST_SCHEMA_V2" "m_id demo_app = AppId ''reader''" by code_simp+
  then show ?thesis
    by (simp add: fun_eq_iff apply_schema_def demo_data_schema demo_plan_def demo_env_valid demo_root_is Let_def
        io_seq_def io_bind_def io_of_def guard_def ok_or_def map_err_def)
qed

lemma demo_half_files:
  "data_of demo_half (path_components ''/data/a'') = Some (demo_tree ''ne'')" "f_state demo_half = None"
  "f_pending demo_half = Some (Inr \<lparr>pm_format = 1, pm_app = AppId ''reader'', pm_from = None, pm_to = 1,
     pm_backup = ''from-new-to-1'', pm_paths = [''/data/a'', ''/data/b'']\<rparr>)"
  unfolding demo_half_def demo_apply by code_simp+

lemma demo_half_snapshot:
  "reject_recursive_backup demo_root [''/data/a'', ''/data/b''] = Inr ()"
  "map_of (f_backups demo_half) ''from-new-to-1'' = Some b \<Longrightarrow> (s, c) \<in> set (sources_of b) \<Longrightarrow> sr_existed s
    \<Longrightarrow> \<exists>m cs. c = Some (DirNode m cs)"
proof -
  show "reject_recursive_backup demo_root [''/data/a'', ''/data/b''] = Inr ()" by code_simp
  have directory: "is_directory t \<Longrightarrow> \<exists>m cs. t = DirNode m cs" for t by (cases t) (auto simp: is_directory_def)
  have "list_all (\<lambda>(s, c). sr_existed s \<longrightarrow> (case c of Some t \<Rightarrow> is_directory t | None \<Rightarrow> False))
      (sources_of (the (map_of (f_backups demo_half) ''from-new-to-1'')))"
    unfolding demo_half_def demo_apply by code_simp
  then show "map_of (f_backups demo_half) ''from-new-to-1'' = Some b \<Longrightarrow> (s, c) \<in> set (sources_of b) \<Longrightarrow> sr_existed s
      \<Longrightarrow> \<exists>m cs. c = Some (DirNode m cs)"
    using directory by (auto simp: list_all_iff split: option.splits dest!: bspec)
qed

lemma demo_again: "fst (apply_schema (\<lambda>s. s) demo_migrate demo_codec demo_app demo_plan (demo_half\<lparr>f_script := []\<rparr>)) = Done ()"
  unfolding demo_half_def demo_apply by code_simp

text \<open>A death in the migrator of data that is a single file.\<close>

definition demo_single :: schema_files where
  "demo_single = snd (migrate_data (\<lambda>s. s) demo_migrate (AppId ''reader'') demo_schema (Some 7) None
     (demo_files\<lparr>f_data := [(path_components ''/data/a'', FileNode private_file ''old'')],
        f_script := drop 4 demo_death\<rparr>))"

lemma demo_single_files:
  "f_pending demo_single = Some (Inr \<lparr>pm_format = 1, pm_app = AppId ''reader'', pm_from = None, pm_to = 1,
     pm_backup = ''from-new-to-1'', pm_paths = [''/data/a'', ''/data/b'']\<rparr>)"
  "\<exists>b x. map_of (f_backups demo_single) ''from-new-to-1'' = Some b \<and> x \<in> set (sources_of b)
     \<and> copy_of (\<lambda>s. s) x (Some (FileNode private_file ''old''))"
proof -
  show "f_pending demo_single = Some (Inr \<lparr>pm_format = 1, pm_app = AppId ''reader'', pm_from = None, pm_to = 1,
     pm_backup = ''from-new-to-1'', pm_paths = [''/data/a'', ''/data/b'']\<rparr>)" by code_simp
  let ?x = "(\<lparr>sr_path = ''/data/a'', sr_existed = True,
      sr_entries = [entry_record_of [] FileKind private_file 3 (Some ''old'') None]\<rparr>, Some (FileNode private_file ''old''))"
  have "map_option (\<lambda>b. hd (sources_of b)) (map_of (f_backups demo_single) ''from-new-to-1'') = Some ?x"
    "map_option (\<lambda>b. sources_of b \<noteq> []) (map_of (f_backups demo_single) ''from-new-to-1'') = Some True" by code_simp+
  then obtain z where z: "map_of (f_backups demo_single) ''from-new-to-1'' = Some z" "hd (sources_of z) = ?x" "sources_of z \<noteq> []"
    by auto
  have "copy_of (\<lambda>s. s) ?x (Some (FileNode private_file ''old''))"
    by (simp add: copy_of_def private_file_def)
  then show "\<exists>b x. map_of (f_backups demo_single) ''from-new-to-1'' = Some b \<and> x \<in> set (sources_of b)
     \<and> copy_of (\<lambda>s. s) x (Some (FileNode private_file ''old''))"
    using z(1) hd_in_set [OF z(3), unfolded z(2)] by (intro exI [of _ z] exI [of _ ?x] conjI)
qed

section \<open>Properties\<close>

text \<open>C13: whatever fails, and wherever the runner dies, the data of an application is never left half migrated
  without a way back: without a journal the data is whole for the recorded version; with one, either the new
  version is recorded and the data is whole for it, or the journal names a snapshot whose objects, put back
  over whatever is there, give data that is whole for the version before.\<close>

theorem data_is_never_half_migrated:
  assumes "schema_life sha codec whole a d"
  shows "case f_pending d of
      None \<Rightarrow> whole (version_of (f_state d)) (data_of d)
    | Some (Inl e) \<Rightarrow> False
    | Some (Inr p) \<Rightarrow>
        (\<exists>b os. map_of (f_backups d) (pm_backup p) = Some b \<and> holds_copies sha b os
          \<and> (if is_committed p (applied_in (f_state d)) then whole (Some (pm_to p)) (data_of d)
             else version_of (f_state d) = pm_from p \<and> whole (pm_from p) (written os (data_of d))))"
  using life_sound [OF assms] unfolding sound_def journaled_def
  by (auto split: option.splits sum.splits if_splits)

theorem data_is_never_half_migrated_witness:
  "data_of demo_half (path_components ''/data/a'') = Some (demo_tree ''ne'')
   \<and> (\<exists>b os. map_of (f_backups demo_half) ''from-new-to-1'' = Some b \<and> holds_copies (\<lambda>s. s) b os
        \<and> written os (data_of demo_half) (path_components ''/data/a'') = Some (demo_tree ''old''))"
  using data_is_never_half_migrated [OF demo_half_life]
  by (auto simp: demo_half_files applied_in_def is_committed_def demo_whole_def)

text \<open>C15: a transaction that reports success leaves the data whole for the version of the manifest, with that
  version recorded, no journal, and the fence of the background writers naming it.\<close>

theorem applied_schema_is_current:
  assumes "schema_life sha codec whole (m_id m) d" "m_data_schema m = Some schema" "lawful whole migrate schema"
    and "\<forall>x\<in>set answers. obeys (backup_paths schema) (sa_writes x)"
    and "apply_schema sha migrate codec m plan (d\<lparr>f_script := answers\<rparr>) = (Done (), e)"
  shows "version_of (f_state e) = Some (data_version schema) \<and> f_pending e = None
    \<and> f_ready e = Some (ready_text (m_id m) (data_version schema)) \<and> whole (Some (data_version schema)) (data_of e)"
proof -
  have "sound sha (m_id m) whole (d\<lparr>f_script := answers\<rparr>)"
    using life_sound [OF assms(1)] by (simp add: other_files [of "_\<lparr>f_script := _\<rparr>" d])
  then have "current (m_id m) whole (data_version schema) e"
    using triple_Done [OF applying [where whole = whole, OF assms(2,3)] _ assms(5)] assms(4) by (simp add: obedient_def)
  then show ?thesis by (simp add: current_def)
qed

theorem applied_schema_is_current_witness:
  "\<exists>e. apply_schema (\<lambda>s. s) demo_migrate demo_codec demo_app demo_plan (demo_half\<lparr>f_script := []\<rparr>) = (Done (), e)
     \<and> f_ready e = Some (ready_text (AppId ''reader'') 1) \<and> data_of e (path_components ''/data/a'') = Some (demo_tree ''new'')"
proof -
  obtain e where e: "apply_schema (\<lambda>s. s) demo_migrate demo_codec demo_app demo_plan (demo_half\<lparr>f_script := []\<rparr>) = (Done (), e)"
    using demo_again by (metis prod.collapse)
  have "m_id demo_app = AppId ''reader''" "data_version demo_schema = 1" by code_simp+
  then show ?thesis
    using applied_schema_is_current [OF demo_half_life demo_data_schema demo_lawful _ e] e by (auto simp: demo_whole_def)
qed





text \<open>C18: a restored directory is the directory that was copied: contents, links, owners and modes, at every
  depth.\<close>

theorem directory_backup_round_trips:
  assumes "wf_tree t" "is_directory t"
  shows "\<exists>copy es. copy_entry sha p [] t = Inr (copy, es) \<and> clone_backup_entry p copy = Inr copy
    \<and> inspect_tree sha p copy = Inr (content_records (sort_key er_path es))
    \<and> apply_source_metadata (sort_key er_path es) copy = Inr t"
proof -
  obtain copy es where c: "copy_entry sha p [] t = Inr (copy, es)" using copies(1) [OF assms(1)] by blast
  then show ?thesis
    using copy_is_complete [OF assms(1) c] metadata_restored [OF assms] by auto
qed

theorem directory_backup_round_trips_witness:
  "\<exists>copy es. copy_entry (\<lambda>s. s) ''/data/a'' [] (demo_tree ''old'') = Inr (copy, es)
     \<and> apply_source_metadata (sort_key er_path es) copy = Inr (demo_tree ''old'')"
  using directory_backup_round_trips [of "demo_tree ''old''" "\<lambda>s. s" "''/data/a''"]
  by (auto simp: demo_tree_def is_directory_def ok_name_def)

end
