(* ===== verification/Spec2Isabelle.thy ===== *)
theory Spec2Isabelle
  imports Manager_Compat Power_Policy System_Release Manifest Display_Protocol Display_Properties Package_Verify Package_Properties
    Daemon_Properties Schema_Properties
begin

text \<open>
  A model of remagic, the system that runs third-party applications on an e-paper tablet beside the
  stock software, and the theorems that make its core correct.

  \<^bold>\<open>The program.\<close> A supervisor (\<open>crates/remagicd\<close>) decides which application runs and which one owns
  the display; what it decides with is the library \<open>crates/remagic-core\<close>. The display host
  (\<open>native/remagic-display-host\<close>) is a process of its own: it owns the framebuffer and the input
  devices, and the applications draw into shared memory and talk to it over a socket (QTFB) with the
  help of \<open>crates/remagic-app-sdk\<close>. The supervisor tells the host over a control socket which
  surface is in the foreground and when the display is locked. Applications come as packages with a
  manifest; a runner starts each one in a checked environment.

  \<^bold>\<open>Shared theories.\<close> \<open>Prelude\<close> has Rust's \<open>Result\<close> and \<open>?\<close> as a sum type with its bind, the collections of
  rules, and machine words. \<open>Ordered_Map\<close> is \<open>BTreeMap\<close> as a sorted association list, with the locale
  \<open>ordered_map\<close> that its clients use. \<open>Rust_Text\<close> is \<open>str\<close>, \<open>Path\<close> and decimal printing.
  \<open>Signed_Words\<close> is Rust's \<open>i32\<close> with saturating and panicking arithmetic.

  \<^bold>\<open>The platform state\<close> (\<open>remagic-core/src/state\<close>, \<open>manifest.rs\<close>, \<open>runtime.rs\<close>). \<open>Identity\<close>: application ids,
  capabilities and surface keys. \<open>Supervisor_Model\<close>: the v2 state and its consistency check.
  \<open>Supervisor_Ops\<close>: every operation, each an interpretation of the locale \<open>supervisor_op\<close>, whose laws
  are that success keeps the invariant and advances the revision by one and that failure changes
  nothing. \<open>Supervisor_Reach\<close>: histories of calls; consistency, the single display lease, the fencing
  of old processes and recovery. \<open>Manager_Compat\<close>: the v1 state, its transition table, and the
  refinement between the two.

  \<^bold>\<open>Power\<close> (\<open>remagic-core/src/power.rs\<close>, \<open>power_policy.rs\<close>, \<open>remagicd/src/power_device\<close>, \<open>power_manager.rs\<close>).
  \<open>Power_Click\<close>: the key's click tracker, the wake guard and the input thread that polls them; the
  locale \<open>timed\<close> states what a component with a deadline promises to the thread that sleeps on it.
  \<open>Power_Policy\<close>: settings, work leases, idle deadlines and the reservation of sleep.

  \<^bold>\<open>Launching\<close> (\<open>remagic-core/src/runtime\<close>, \<open>manifest\<close>, \<open>system_release.rs\<close>, \<open>remagic-device\<close>). \<open>Device_Profile\<close>:
  detection of the supported tablets. \<open>System_Release\<close>: signed releases, the signature being a
  parameter. \<open>Runtime_Policy\<close>, \<open>Launch_Environment\<close>: what a manifest may ask for, the directories and
  the environment of an application, the preflight report. \<open>Manifest\<close>: every check of a manifest, the
  startup budget, the store and the paths an application may open.

  \<^bold>\<open>The display host, from below.\<close> \<open>Display_Geometry\<close> (\<open>geometry.rs\<close>): rectangles and scaling; damage is
  mapped exactly and points survive the round trip. \<open>Display_Protocol\<close> (\<open>protocol.rs\<close>, the two client
  libraries): packets and their decoder. \<open>Input_Queue\<close> (\<open>qtfb/queue.rs\<close>): the bounded queue of a client,
  which never loses a press or release, and whose writer ends after close. \<open>Input_Decoder\<close>
  (\<open>input.rs\<close>, \<open>input/decoder.rs\<close>): from kernel events to contacts. \<open>Panel_Types\<close> (\<open>panel.rs\<close>, \<open>surface.rs\<close>): the
  action monad (a state function whose result is a sum; a Rust panic is an error value of its own),
  commands, telemetry and surfaces. \<open>Panel_Render\<close> (\<open>panel/render.rs\<close>, \<open>panel/backend.rs\<close>): pixels.
  \<open>Panel_Runtime\<close> (\<open>panel/runtime.rs\<close>, \<open>presentation.rs\<close>, \<open>ink.rs\<close>): the worker thread, one action per
  command and \<open>panel_round\<close> for a turn of its loop. \<open>Panel_Safety\<close>: no command makes the worker panic,
  and what it publishes is what it holds. \<open>Panel_Lock\<close>: what it does to a lock.

  \<^bold>\<open>The display host, as a whole.\<close> \<open>Display_Host\<close> and \<open>Display_Server\<close> (\<open>qtfb\<close>, \<open>control.rs\<close>): the host's record
  \<open>display\<close> extends the worker's world, so that one state holds both sides and the channel between
  them; every method that takes the mutex \<open>foreground_ops\<close> is one action. \<open>Display_System\<close>: the steps
  that the threads interleave (control commands, packets, hang-ups, captured input, drawing into
  shared memory, the writers, a turn of the worker), and the invariant of the whole: how the host's
  lock, the queued commands and the panel's lock relate, and that every lease is at or below its
  fence. \<open>Display_Invariant\<close>: every operation keeps it. \<open>Display_Guarantees\<close>: so does the worker.
  \<open>Display_Properties\<close>: what follows for every state that \<open>main\<close> can bring about.

  \<^bold>\<open>Packages\<close> (\<open>remagic-package\<close>). \<open>Package_Bundle\<close>: unpacking an archive, the inventory and the manifest
  contract, read-only releases. \<open>Package_Verify\<close>: an accepted bundle is exactly its inventory, and the
  content id stands for it. \<open>Package_Disk\<close>: the files of each application and the system calls on
  them, which take the next entry of a script of faults. \<open>Package_Install\<close>: the journal, installation,
  rollback, removal. \<open>Package_Atomicity\<close>: a Hoare logic for these actions with a postcondition for the
  runs that fail or die, and the atomicity of installation. \<open>Package_Properties\<close>: removal, and two
  lemmas that show where the code is weaker than it means to be.

  \<^bold>\<open>The supervisor daemon\<close> (\<open>remagicd/src/daemon\<close>, \<open>system.rs\<close>, \<open>display_host.rs\<close>). \<open>Fallible_Actions\<close>: the
  actions of the package manager and of the daemon, which end with a value, with an error, or with
  the death of the process, and Hoare triples with a postcondition for each. \<open>Sleep_Transaction\<close>
  (\<open>sleep.rs\<close>): the phases of a sleep. \<open>Daemon_World\<close>: the record \<open>daemon\<close> extends the record \<open>device\<close>
  (units, panel, power key, wake lock, files), so that one state holds the tables of the daemon and what
  it controls. Every call that leaves the daemon takes the next answer of a script; the answer says
  whether the call works, fails with or without its effect, or the process dies in it, and what other
  tasks and the device do meanwhile. \<open>Daemon_Device\<close>: units, freezing, the display client, the wake
  guard. \<open>Daemon_Manager\<close> (\<open>navigation.rs\<close>): entering the managed domain and leaving it.
  \<open>Daemon_Apps\<close> (\<open>applications.rs\<close>, \<open>applications/park\<close>): parking, its recovery, closing, exits.
  \<open>Daemon_Launch\<close> (\<open>launch\<close>): routing, preparation, activation, commit, rollback. \<open>Daemon_Sleep\<close>
  (\<open>navigation/suspend\<close>, \<open>power.rs\<close>): lock, suspend, resume, wake, the cover. \<open>Daemon_Events\<close>
  (\<open>request.rs\<close>, \<open>server.rs\<close>, \<open>input_mode\<close>): the events, their handlers, one turn of the event loop.

  What they guarantee is proved from below. \<open>Daemon_Logic\<close>: the locales for what a call cannot touch
  (\<open>device_alive\<close>, \<open>device_quiet\<close>, \<open>device_unlocked\<close>, \<open>device_owned\<close>) with one rule for each call, and
  the collection \<open>maintain\<close>. \<open>Daemon_Ownership\<close>: who owns the panel, the consistency of the tables, a
  settled state. \<open>Daemon_Domains\<close>, \<open>Daemon_Parking\<close>, \<open>Daemon_Exits\<close>, \<open>Daemon_Launching\<close>,
  \<open>Daemon_Sleeping\<close>: a triple for each operation. \<open>Daemon_Loop\<close>: every handler, the recovery, a turn.
  \<open>Daemon_Serving\<close>: the states between two turns, as an inductive set. \<open>Daemon_Commit\<close>: what a launch
  puts on the screen. \<open>Daemon_Return\<close>: the way back when every call works. \<open>Daemon_Properties\<close>: what
  follows for every state the daemon can come to.

  \<^bold>\<open>Data migration\<close> (\<open>remagic-runner/src/data_schema.rs\<close> and its directory). \<open>Schema_Tree\<close>: file trees, the
  traversals that copy, inspect and clone them, the records of owners and modes. \<open>Schema_Roundtrip\<close>: a
  directory survives copy and restore. \<open>Schema_Store\<close>: the version record, the journal, the fence of the
  background writers, the snapshots, and the system calls on them, which take the next answer of a
  script. \<open>Schema_Migration\<close>: the transaction and its recovery; what the migrator writes when it succeeds
  is a parameter. \<open>Action_Logic\<close> has the rules for triples that the daemon and this part share.
  \<open>Schema_Safety\<close>: the locale \<open>steady\<close> and the invariant. \<open>Schema_Atomic\<close>, \<open>Schema_Apply\<close>: a triple for each
  operation. \<open>Schema_Properties\<close>: what follows for the life of an application's data, and the backup
  path that can never be restored.

  \<^bold>\<open>Conventions.\<close> A record stands for the struct of the same name; a function that returns \<open>Result\<close>
  returns a sum; the machine integers keep their width. A clock is a number handed to the operation
  that reads it. The outcomes of system calls, the answers of the hardware, the verification of a
  signature and the parsers that are third-party code are parameters, and no law about them is
  assumed except where a theorem names it. Loops are structural recursion or end by a measure; the
  two waits of the host (for the panel's acknowledgement of a lock's end or of an ink policy) are
  split at the wait, so there is no fuel anywhere: a poll that has no answer yet is a value.

  \<^bold>\<open>Not modelled.\<close> Sockets, threads, process and file system calls, JSON and TOML text, the drawing of
  the home screen and the scripts. Of the daemon: the control sockets and their timeouts, package and
  synchronisation requests (which run beside the event loop), \<open>supervision.rs\<close> (compiled for tests only),
  units that systemd restarts by itself, the texts of refused transitions, and the parsers of what
  \<open>systemctl\<close> and sysfs print. The theorems about it assume that no manifest names a unit of the
  platform as its background service (\<open>benign\<close>). Of the data migration: torn files, the process group and
  the deadline of the migrator, and a backup path that is a link to a directory. The order of memory accesses between the threads of the
  display host is not modelled below the level of a method: fields outside \<open>foreground_ops\<close> are read
  and written as if the method were atomic, and a client may draw into its surface between any two
  steps, not in the middle of a copy.
\<close>

end
